(* ===== verification/Prelude.thy ===== *)
theory Prelude
  imports Main "HOL-Library.Word"
begin

text \<open>
  Shared vocabulary of the development: C buffers and strings as lists of
  characters, little-endian fields, decimal printing and the part of
  \<^verbatim>\<open>sscanf\<close> that the wire protocols use, error numbers, and the search
  loops over fixed-size tables. The generic lemmas on them are collected in
  \<open>buf_simps\<close> and \<open>tbl_simps\<close>.
\<close>

named_theorems buf_simps \<open>lengths and contents of encoded buffers\<close>
named_theorems tbl_simps \<open>first-index searches over tables\<close>

section \<open>Bytes, C strings, machine words\<close>

type_synonym bytes = "char list"
type_synonym u16 = "16 word"
type_synonym u32 = "32 word"
type_synonym u64 = "64 word"

abbreviation NUL :: char where
  "NUL \<equiv> CHR 0x00"

abbreviation NL :: char where
  "NL \<equiv> CHR 0x0A"

abbreviation SLASH :: char where
  "SLASH \<equiv> CHR 0x2F"

text \<open>The C string stored in a buffer: the bytes before the first NUL.\<close>

definition cstr :: "bytes \<Rightarrow> string" where
  "cstr b = takeWhile (\<lambda>c. c \<noteq> NUL) b"

text \<open>
  \<^verbatim>\<open>snprintf(out, cap, ...)\<close> keeps at most \<^verbatim>\<open>cap - 1\<close> characters of the
  formatted text and terminates it.
\<close>

definition snprintf_n :: "nat \<Rightarrow> string \<Rightarrow> string" where
  "snprintf_n cap s = take (cap - 1) s"

text \<open>Little-endian fields (\<^verbatim>\<open>memcpy\<close> of an integer on the supported targets).\<close>

fun le_enc :: "nat \<Rightarrow> nat \<Rightarrow> bytes" where
  "le_enc 0 v = []"
| "le_enc (Suc n) v = char_of (v mod 256) # le_enc n (v div 256)"

fun le_dec :: "bytes \<Rightarrow> nat" where
  "le_dec [] = 0"
| "le_dec (c # cs) = of_char c + 256 * le_dec cs"

definition le16 :: "u16 \<Rightarrow> bytes" where
  "le16 v = le_enc 2 (unat v)"

definition le32 :: "u32 \<Rightarrow> bytes" where
  "le32 v = le_enc 4 (unat v)"

definition le64 :: "u64 \<Rightarrow> bytes" where
  "le64 v = le_enc 8 (unat v)"

definition get16 :: "nat \<Rightarrow> bytes \<Rightarrow> u16" where
  "get16 off b = word_of_nat (le_dec (take 2 (drop off b)))"

definition get32 :: "nat \<Rightarrow> bytes \<Rightarrow> u32" where
  "get32 off b = word_of_nat (le_dec (take 4 (drop off b)))"

definition get64 :: "nat \<Rightarrow> bytes \<Rightarrow> u64" where
  "get64 off b = word_of_nat (le_dec (take 8 (drop off b)))"

text \<open>\<^verbatim>\<open>memcpy(buf + off, field, length field)\<close> inside a buffer that is long enough.\<close>

definition put_at :: "nat \<Rightarrow> bytes \<Rightarrow> bytes \<Rightarrow> bytes" where
  "put_at off fld b = take off b @ fld @ drop (off + length fld) b"

section \<open>Error numbers (positive values of errno.h)\<close>

definition EPERM :: int where "EPERM = 1"
definition ENOENT :: int where "ENOENT = 2"
definition EIO :: int where "EIO = 5"
definition EBADF :: int where "EBADF = 9"
definition ENOMEM :: int where "ENOMEM = 12"
definition EFAULT :: int where "EFAULT = 14"
definition EEXIST :: int where "EEXIST = 17"
definition EXDEV :: int where "EXDEV = 18"
definition ENODEV :: int where "ENODEV = 19"
definition ENOTDIR :: int where "ENOTDIR = 20"
definition EISDIR :: int where "EISDIR = 21"
definition EINVAL :: int where "EINVAL = 22"
definition ERANGE :: int where "ERANGE = 34"
definition ENAMETOOLONG :: int where "ENAMETOOLONG = 36"
definition ENOSYS :: int where "ENOSYS = 38"
definition ENOTEMPTY :: int where "ENOTEMPTY = 39"
definition ELOOP :: int where "ELOOP = 40"
definition EPROTO :: int where "EPROTO = 71"
definition ENOTSUP :: int where "ENOTSUP = 95"

lemmas errno_defs = EPERM_def ENOENT_def EIO_def EBADF_def ENOMEM_def EFAULT_def
  EEXIST_def EXDEV_def ENODEV_def ENOTDIR_def EISDIR_def EINVAL_def ERANGE_def
  ENAMETOOLONG_def ENOSYS_def ENOTEMPTY_def ELOOP_def EPROTO_def ENOTSUP_def

section \<open>Searching a fixed-size table\<close>

text \<open>
  The loop \<^verbatim>\<open>for (i = 0; i < N; i++) if (P(tab[i])) return i;\<close>: the first index
  whose entry satisfies the test.
\<close>

fun find_idx :: "('a \<Rightarrow> bool) \<Rightarrow> 'a list \<Rightarrow> nat option" where
  "find_idx P [] = None"
| "find_idx P (x # xs) = (if P x then Some 0 else map_option Suc (find_idx P xs))"

section \<open>Decimal text\<close>

fun show_nat :: "nat \<Rightarrow> string" where
  "show_nat n = (if n < 10 then [char_of (48 + n)] else show_nat (n div 10) @ [char_of (48 + n mod 10)])"

declare show_nat.simps [simp del]

definition show_int :: "int \<Rightarrow> string" where
  "show_int i = (if i < 0 then CHR ''-'' # show_nat (nat (- i)) else show_nat (nat i))"

definition is_digit :: "char \<Rightarrow> bool" where
  "is_digit c \<longleftrightarrow> 48 \<le> (of_char c :: nat) \<and> (of_char c :: nat) \<le> 57"

definition digit_val :: "char \<Rightarrow> nat" where
  "digit_val c = of_char c - 48"

definition digits_val :: "string \<Rightarrow> nat" where
  "digits_val ds = foldl (\<lambda>a c. 10 * a + digit_val c) 0 ds"

text \<open>The white space that \<^verbatim>\<open>isspace\<close> knows in the C locale.\<close>

definition is_space :: "char \<Rightarrow> bool" where
  "is_space c \<longleftrightarrow> c = CHR '' '' \<or> (9 \<le> (of_char c :: nat) \<and> (of_char c :: nat) \<le> 13)"

definition skip_ws :: "string \<Rightarrow> string" where
  "skip_ws s = dropWhile is_space s"

section \<open>Lemmas: buffers and fields\<close>

lemma length_le_enc [simp, buf_simps]: "length (le_enc n v) = n"
  by (induction n arbitrary: v) auto

lemma le_dec_le_enc [simp]: "le_dec (le_enc n v) = v mod 256 ^ n"
proof (induction n arbitrary: v)
  case 0
  then show ?case by simp
next
  case (Suc n)
  have "v mod 256 ^ Suc n = v mod 256 + 256 * (v div 256 mod 256 ^ n)"
    by (simp add: mod_mult2_eq mult.commute)
  with Suc show ?case by simp
qed

lemma le_enc_le_dec [simp]: "le_enc (length b) (le_dec b) = b"
  by (induction b) auto

lemma le_dec_less: "le_dec b < 256 ^ length b"
proof (induction b)
  case (Cons c b)
  have "(of_char c :: nat) < 256" by simp
  moreover from Cons have "256 * le_dec b + 256 \<le> 256 * 256 ^ length b" by simp
  ultimately show ?case unfolding le_dec.simps length_Cons power_Suc by linarith
qed simp

lemma le_dec_inj: "length a = length b \<Longrightarrow> le_dec a = le_dec b \<Longrightarrow> a = b"
  by (metis le_enc_le_dec)

lemma length_le16 [simp, buf_simps]: "length (le16 v) = 2"
  by (simp add: le16_def)

lemma length_le32 [simp, buf_simps]: "length (le32 v) = 4"
  by (simp add: le32_def)

lemma length_le64 [simp, buf_simps]: "length (le64 v) = 8"
  by (simp add: le64_def)

lemma le_dec_le16 [simp]: "le_dec (le16 v) = unat v"
  using unsigned_less [of v, where ?'a = nat] by (simp add: le16_def)

lemma le_dec_le32 [simp]: "le_dec (le32 v) = unat v"
  using unsigned_less [of v, where ?'a = nat] by (simp add: le32_def)

lemma le_dec_le64 [simp]: "le_dec (le64 v) = unat v"
  using unsigned_less [of v, where ?'a = nat] by (simp add: le64_def)

lemma unat_u32: "n < 2 ^ 32 \<Longrightarrow> unat (word_of_nat n :: u32) = n"
  by (simp add: unat_of_nat take_bit_nat_eq_self)

lemma unat_u64: "n < 2 ^ 64 \<Longrightarrow> unat (word_of_nat n :: u64) = n"
  by (simp add: unat_of_nat take_bit_nat_eq_self)

lemma unat_add_u64: "unat a + unat b < 2 ^ 64 \<Longrightarrow> unat (a + b :: u64) = unat a + unat b"
  by (simp add: unat_word_ariths)

text \<open>Reading a field back from the bytes that were written at its offset.\<close>

lemma get16_field: "length pre = off \<Longrightarrow> get16 off (pre @ le16 v @ rest) = v"
  by (simp add: get16_def)

lemma get32_field: "length pre = off \<Longrightarrow> get32 off (pre @ le32 v @ rest) = v"
  by (simp add: get32_def)

lemma get64_field: "length pre = off \<Longrightarrow> get64 off (pre @ le64 v @ rest) = v"
  by (simp add: get64_def)

lemma get32_hd [simp]: "get32 0 (le32 v @ rest) = v"
  using get32_field [of "[]" 0 v rest] by simp

lemma get64_hd [simp]: "get64 0 (le64 v @ rest) = v"
  using get64_field [of "[]" 0 v rest] by simp

lemma get16_hd [simp]: "get16 0 (le16 v @ rest) = v"
  using get16_field [of "[]" 0 v rest] by simp

lemma get32_skip: "length a \<le> n \<Longrightarrow> get32 n (a @ b) = get32 (n - length a) b"
  by (simp add: get32_def)

lemma get64_skip: "length a \<le> n \<Longrightarrow> get64 n (a @ b) = get64 (n - length a) b"
  by (simp add: get64_def)

lemma get16_skip: "length a \<le> n \<Longrightarrow> get16 n (a @ b) = get16 (n - length a) b"
  by (simp add: get16_def)

lemmas get_skips = get16_skip get32_skip get64_skip

lemma get32_take: "n + 4 \<le> m \<Longrightarrow> get32 n (take m b) = get32 n b"
  by (simp add: get32_def drop_take)

lemma get64_take: "n + 8 \<le> m \<Longrightarrow> get64 n (take m b) = get64 n b"
  by (simp add: get64_def drop_take)

lemma length_put_at [simp, buf_simps]:
  "off + length fld \<le> length b \<Longrightarrow> length (put_at off fld b) = length b"
  by (simp add: put_at_def)

lemma put_at_same: "off + length fld \<le> length b \<Longrightarrow> take (length fld) (drop off (put_at off fld b)) = fld"
  by (simp add: put_at_def)

lemma put_at_other:
  assumes "off + length fld \<le> length b" and "o2 + n \<le> off \<or> off + length fld \<le> o2"
  shows "take n (drop o2 (put_at off fld b)) = take n (drop o2 b)"
proof -
  from assms(1) have l: "off \<le> length b" by simp
  from assms(2) show ?thesis
  proof
    assume a: "o2 + n \<le> off"
    then have "n \<le> off - o2" by simp
    with a l show ?thesis by (simp add: put_at_def drop_take)
  next
    assume a: "off + length fld \<le> o2"
    then have "o2 - off - length fld + (off + length fld) = o2" by simp
    with a l show ?thesis by (simp add: put_at_def)
  qed
qed

lemma get64_put_same: "off + 8 \<le> length b \<Longrightarrow> get64 off (put_at off (le64 v) b) = v"
  using put_at_same [of off "le64 v" b] by (simp add: get64_def)

lemma get32_put_same: "off + 4 \<le> length b \<Longrightarrow> get32 off (put_at off (le32 v) b) = v"
  using put_at_same [of off "le32 v" b] by (simp add: get32_def)

lemma get64_put_other:
  "off + length fld \<le> length b \<Longrightarrow> o2 + 8 \<le> off \<or> off + length fld \<le> o2 \<Longrightarrow>
   get64 o2 (put_at off fld b) = get64 o2 b"
  by (simp add: get64_def put_at_other)

lemma get32_put_other:
  "off + length fld \<le> length b \<Longrightarrow> o2 + 4 \<le> off \<or> off + length fld \<le> o2 \<Longrightarrow>
   get32 o2 (put_at off fld b) = get32 o2 b"
  by (simp add: get32_def put_at_other)

lemma cstr_append_NUL: "NUL \<notin> set s \<Longrightarrow> cstr (s @ NUL # b) = s"
  unfolding cstr_def by (induction s) auto

lemma cstr_id: "NUL \<notin> set s \<Longrightarrow> cstr s = s"
  unfolding cstr_def by (induction s) auto

lemma cstr_no_NUL [simp]: "NUL \<notin> set (cstr b)"
  by (auto simp: cstr_def dest: set_takeWhileD)

lemma length_cstr_le: "length (cstr b) \<le> length b"
  by (simp add: cstr_def length_takeWhile_le)

lemma length_snprintf_n_le: "length (snprintf_n cap s) \<le> cap - 1"
  by (simp add: snprintf_n_def)

lemma snprintf_n_fits: "length s < cap \<Longrightarrow> snprintf_n cap s = s"
  by (simp add: snprintf_n_def)

section \<open>Lemmas: first-index search\<close>

lemma find_idx_None [tbl_simps]: "find_idx P xs = None \<longleftrightarrow> (\<forall>x \<in> set xs. \<not> P x)"
  by (induction xs) auto

lemma find_idx_SomeD:
  "find_idx P xs = Some i \<Longrightarrow> i < length xs \<and> P (xs ! i) \<and> (\<forall>j < i. \<not> P (xs ! j))"
proof (induction xs arbitrary: i)
  case (Cons x xs)
  show ?case
  proof (cases "P x")
    case True
    with Cons.prems show ?thesis by simp
  next
    case False
    with Cons.prems obtain k where k: "find_idx P xs = Some k" "i = Suc k" by auto
    from Cons.IH [OF k(1)] k(2) False show ?thesis
      by (auto simp: less_Suc_eq_0_disj)
  qed
qed simp

lemma find_idx_less: "find_idx P xs = Some i \<Longrightarrow> i < length xs"
  by (simp add: find_idx_SomeD)

lemma find_idx_sat: "find_idx P xs = Some i \<Longrightarrow> P (xs ! i)"
  by (simp add: find_idx_SomeD)

lemma find_idx_first: "find_idx P xs = Some i \<Longrightarrow> j < i \<Longrightarrow> \<not> P (xs ! j)"
  by (simp add: find_idx_SomeD)

lemma find_idx_eq_SomeI:
  "i < length xs \<Longrightarrow> P (xs ! i) \<Longrightarrow> (\<And>j. j < i \<Longrightarrow> \<not> P (xs ! j)) \<Longrightarrow> find_idx P xs = Some i"
proof (induction xs arbitrary: i)
  case (Cons x xs)
  show ?case
  proof (cases i)
    case 0
    with Cons.prems show ?thesis by simp
  next
    case (Suc k)
    from Cons.prems(3) [of 0] Suc have "\<not> P x" by simp
    moreover have "find_idx P xs = Some k"
    proof (rule Cons.IH)
      show "k < length xs" "P (xs ! k)" using Cons.prems Suc by simp_all
      show "\<not> P (xs ! j)" if "j < k" for j using Cons.prems(3) [of "Suc j"] Suc that by simp
    qed
    ultimately show ?thesis using Suc by simp
  qed
qed simp

lemma find_idx_replicate [simp]: "find_idx P (replicate n x) = (if 0 < n \<and> P x then Some 0 else None)"
  by (induction n) auto

lemma find_idx_update0 [simp]: "xs \<noteq> [] \<Longrightarrow> P v \<Longrightarrow> find_idx P (xs[0 := v]) = Some 0"
  by (cases xs) auto

lemma find_idx_ex: "(\<exists>x \<in> set xs. P x) \<Longrightarrow> \<exists>i. find_idx P xs = Some i"
  by (metis find_idx_None option.exhaust)

text \<open>A test that at most one entry satisfies finds exactly that entry.\<close>

lemma find_idx_unique:
  assumes "i < length xs" and "P (xs ! i)"
    and "\<And>j. j < length xs \<Longrightarrow> P (xs ! j) \<Longrightarrow> j = i"
  shows "find_idx P xs = Some i"
proof (rule find_idx_eq_SomeI)
  show "i < length xs" "P (xs ! i)" using assms(1,2) by simp_all
next
  fix j
  assume "j < i"
  with assms(1) have "j < length xs" "j \<noteq> i" by simp_all
  with assms(3) show "\<not> P (xs ! j)" by blast
qed

section \<open>Lemmas: decimal text\<close>

lemma of_char_digit: "m < 10 \<Longrightarrow> of_char (char_of (48 + m :: nat)) = (48 + m :: nat)"
  by (simp only: of_char_of) simp

lemma is_digit_char: "m < 10 \<Longrightarrow> is_digit (char_of (48 + m :: nat))"
  unfolding is_digit_def by (simp only: of_char_digit) simp

lemma digit_val_char: "m < 10 \<Longrightarrow> digit_val (char_of (48 + m :: nat)) = m"
  unfolding digit_val_def by (simp only: of_char_digit)

lemma show_nat_small: "n < 10 \<Longrightarrow> show_nat n = [char_of (48 + n)]"
  by (subst show_nat.simps) simp

lemma show_nat_big: "\<not> n < 10 \<Longrightarrow> show_nat n = show_nat (n div 10) @ [char_of (48 + n mod 10)]"
  by (subst show_nat.simps) (simp only: if_False)

lemma show_nat_nonempty [simp]: "show_nat n \<noteq> []"
  using show_nat_small [of n] show_nat_big [of n] by (cases "n < 10") (metis snoc_eq_iff_butlast not_Cons_self2)+

lemma show_nat_digits: "c \<in> set (show_nat n) \<Longrightarrow> is_digit c"
proof (induction n rule: show_nat.induct)
  case (1 n)
  show ?case
  proof (cases "n < 10")
    case True
    with 1(2) have "c = char_of (48 + n)" by (simp only: show_nat_small set_simps empty_iff insert_iff simp_thms)
    then show ?thesis using is_digit_char [OF True] by (simp only:)
  next
    case False
    then have "c \<in> set (show_nat (n div 10)) \<or> c = char_of (48 + n mod 10)"
      using 1(2) by (simp only: show_nat_big set_append set_simps Un_iff empty_iff insert_iff simp_thms)
    then show ?thesis using 1(1) [OF False] is_digit_char [of "n mod 10"]
      by (metis mod_less_divisor zero_less_numeral)
  qed
qed

lemma digits_val_snoc: "digits_val (ds @ [c]) = 10 * digits_val ds + digit_val c"
  by (simp add: digits_val_def)

lemma digits_val_single: "digits_val [c] = digit_val c"
  by (simp add: digits_val_def)

lemma digits_val_show_nat [simp]: "digits_val (show_nat n) = n"
proof (induction n rule: show_nat.induct)
  case (1 n)
  show ?case
  proof (cases "n < 10")
    case True
    then show ?thesis by (simp only: show_nat_small digits_val_single digit_val_char)
  next
    case False
    have m: "n mod 10 < 10" by simp
    show ?thesis
      by (simp only: show_nat_big [OF False] digits_val_snoc digit_val_char [OF m] 1 [OF False] mult_div_mod_eq)
  qed
qed

lemma digit_not_space: "is_digit c \<Longrightarrow> \<not> is_space c"
  by (auto simp: is_digit_def is_space_def)

lemma digit_not_special: "is_digit c \<Longrightarrow> c \<noteq> NUL \<and> c \<noteq> NL \<and> c \<noteq> SLASH \<and> c \<noteq> CHR '' '' \<and> c \<noteq> CHR ''-'' \<and> c \<noteq> CHR ''+''"
  by (auto simp: is_digit_def)

end
