(* ===== verification/FusePath.thy ===== *)
theory FusePath
  imports Prelude
begin

text \<open>
  Path handling of the FUSE engine (\<^verbatim>\<open>proot/patches/fused.c\<close>): \<open>normpath\<close>, the
  lexical canonicalisation of a mount-relative path, and \<open>split_path\<close>, the
  directory/base split. The loops of \<open>normpath\<close> are modelled one by one
  (collecting segments, then copying them into the output buffer) and related to
  a reference that pushes and pops path components.
\<close>

section \<open>Definitions\<close>

text \<open>One segment: ``.'' is skipped, ``..'' pops, anything else is pushed while fewer than 256 are held.\<close>

definition norm_push :: "string list \<Rightarrow> string \<Rightarrow> string list" where
  "norm_push seg s =
     (if s = ''.'' then seg
      else if s = ''..'' then (if 0 < length seg then butlast seg else seg)
      else if length seg < 256 then seg @ [s] else seg)"

text \<open>The scanning loop: skip slashes, take the run up to the next slash, classify it.\<close>

function norm_scan :: "string \<Rightarrow> string list \<Rightarrow> string list" where
  "norm_scan p seg =
     (let s = dropWhile (\<lambda>c. c = SLASH) p in
      if s = [] then seg
      else norm_scan (dropWhile (\<lambda>c. c \<noteq> SLASH) s) (norm_push seg (takeWhile (\<lambda>c. c \<noteq> SLASH) s)))"
  by pat_completeness auto

lemma dropWhile_twice_shorter:
  assumes "dropWhile P p = s" and "s \<noteq> []"
  shows "length (dropWhile (\<lambda>c. \<not> P c) s) < length p"
proof -
  obtain c cs where s: "s = c # cs" using assms(2) by (cases s) auto
  then have "\<not> P c" using assms(1) by (metis hd_dropWhile assms(2) list.sel(1))
  then have "length (dropWhile (\<lambda>c. \<not> P c) s) \<le> length cs"
    by (simp add: s length_dropWhile_le)
  also have "\<dots> < length s" by (simp add: s)
  also have "\<dots> \<le> length p" using assms(1) length_dropWhile_le by metis
  finally show ?thesis .
qed

termination norm_scan
  by (relation "measure (\<lambda>(p, seg). length p)")
     (use dropWhile_twice_shorter [of "\<lambda>c. c = SLASH"] in auto)

declare norm_scan.simps [simp del]

text \<open>The copying loops, bounded by \<^verbatim>\<open>o + 1 < cap\<close>; the output so far is \<open>out\<close>.\<close>

fun norm_copy :: "nat \<Rightarrow> string \<Rightarrow> string \<Rightarrow> string" where
  "norm_copy cap [] out = out"
| "norm_copy cap (c # cs) out = (if length out + 1 < cap then norm_copy cap cs (out @ [c]) else out)"

fun norm_out :: "nat \<Rightarrow> string list \<Rightarrow> string \<Rightarrow> string" where
  "norm_out cap [] out = out"
| "norm_out cap (s # ss) out =
     (if length out + 1 < cap then norm_out cap ss (norm_copy cap s (out @ [SLASH])) else out)"

definition normpath :: "string \<Rightarrow> nat \<Rightarrow> string" where
  "normpath p cap =
     (let seg = norm_scan p [] in
      if seg = [] then snprintf_n cap ''/'' else norm_out cap seg [])"

text \<open>
  \<open>split_path path dcap bcap\<close> is the pair (dir, base) at the last slash.
\<close>

definition after_slash :: "string \<Rightarrow> string" where
  "after_slash path = rev (takeWhile (\<lambda>c. c \<noteq> SLASH) (rev path))"

definition split_path :: "string \<Rightarrow> nat \<Rightarrow> nat \<Rightarrow> string \<times> string" where
  "split_path path dcap bcap =
     (if SLASH \<notin> set path then (snprintf_n dcap ''/'', snprintf_n bcap path)
      else let base = snprintf_n bcap (after_slash path);
               n = length path - length (after_slash path) - 1 in
           if n = 0 then (snprintf_n dcap ''/'', base)
           else (take (if dcap \<le> n then dcap - 1 else n) path, base))"

section \<open>Reference: components of a path\<close>

text \<open>
  The components of a path are its maximal slash-free runs; \<open>lex_norm\<close> resolves
  ``.'' and ``..'' on them without any bound, \<open>render\<close> writes them back.
\<close>

function components :: "string \<Rightarrow> string list" where
  "components p =
     (let s = dropWhile (\<lambda>c. c = SLASH) p in
      if s = [] then []
      else takeWhile (\<lambda>c. c \<noteq> SLASH) s # components (dropWhile (\<lambda>c. c \<noteq> SLASH) s))"
  by pat_completeness auto

termination components
  by (relation "measure length") (use dropWhile_twice_shorter [of "\<lambda>c. c = SLASH"] in auto)

declare components.simps [simp del]

fun lex_step :: "string list \<Rightarrow> string \<Rightarrow> string list" where
  "lex_step acc s = (if s = ''.'' then acc else if s = ''..'' then butlast acc else acc @ [s])"

definition lex_norm :: "string list \<Rightarrow> string list" where
  "lex_norm cs = foldl lex_step [] cs"

definition render :: "string list \<Rightarrow> string" where
  "render cs = (if cs = [] then ''/'' else concat (map (\<lambda>s. SLASH # s) cs))"

definition is_seg :: "string \<Rightarrow> bool" where
  "is_seg s \<longleftrightarrow> s \<noteq> [] \<and> SLASH \<notin> set s"

definition proper_seg :: "string \<Rightarrow> bool" where
  "proper_seg s \<longleftrightarrow> is_seg s \<and> s \<noteq> ''.'' \<and> s \<noteq> ''..''"

section \<open>Lemmas on components\<close>

lemma components_Nil [simp]: "components [] = []"
  by (simp add: components.simps)

lemma components_SLASH [simp]: "components (SLASH # p) = components p"
  by (subst (1 2) components.simps) simp

lemma components_is_seg: "list_all is_seg (components p)"
proof (induction p rule: components.induct)
  case (1 p)
  show ?case
  proof (cases "dropWhile (\<lambda>c. c = SLASH) p = []")
    case True
    then show ?thesis by (simp add: components.simps)
  next
    case False
    then have h: "hd (dropWhile (\<lambda>c. c = SLASH) p) \<noteq> SLASH" by (rule hd_dropWhile)
    let ?s = "dropWhile (\<lambda>c. c = SLASH) p"
    have "takeWhile (\<lambda>c. c \<noteq> SLASH) ?s \<noteq> []"
      using False h by (cases ?s) auto
    moreover have "SLASH \<notin> set (takeWhile (\<lambda>c. c \<noteq> SLASH) ?s)"
      by (auto dest: set_takeWhileD)
    ultimately have "is_seg (takeWhile (\<lambda>c. c \<noteq> SLASH) ?s)" by (simp add: is_seg_def)
    with False 1 show ?thesis by (subst components.simps) (simp add: Let_def)
  qed
qed

lemma takeWhile_seg: "SLASH \<notin> set s \<Longrightarrow> takeWhile (\<lambda>c. c \<noteq> SLASH) (s @ SLASH # r) = s"
  by (induction s) auto

lemma dropWhile_seg: "SLASH \<notin> set s \<Longrightarrow> dropWhile (\<lambda>c. c \<noteq> SLASH) (s @ SLASH # r) = SLASH # r"
  by (induction s) auto

lemma components_seg: "is_seg s \<Longrightarrow> components s = [s]"
proof -
  assume a: "is_seg s"
  then obtain c cs where s: "s = c # cs" "c \<noteq> SLASH" "SLASH \<notin> set cs"
    by (cases s) (auto simp: is_seg_def)
  have td: "takeWhile (\<lambda>c. c \<noteq> SLASH) cs = cs" "dropWhile (\<lambda>c. c \<noteq> SLASH) cs = []"
    using s(3) by (auto simp: takeWhile_eq_all_conv dropWhile_eq_Nil_conv)
  show ?thesis by (subst components.simps) (simp add: s td)
qed

lemma components_seg_append:
  assumes "is_seg s"
  shows "components (s @ SLASH # r) = s # components r"
proof -
  from assms obtain c cs where s: "s = c # cs" "c \<noteq> SLASH" "SLASH \<notin> set s"
    by (cases s) (auto simp: is_seg_def)
  have "components (s @ SLASH # r) = s # components (SLASH # r)"
    using s takeWhile_seg [OF s(3), of r] dropWhile_seg [OF s(3), of r]
    by (subst components.simps) (simp add: Let_def)
  then show ?thesis by simp
qed

lemma components_render: "list_all is_seg cs \<Longrightarrow> components (render cs) = cs"
proof (induction cs)
  case Nil
  then show ?case by (simp add: render_def components.simps)
next
  case (Cons s cs)
  show ?case
  proof (cases cs)
    case Nil
    with Cons.prems show ?thesis by (simp add: render_def components_seg)
  next
    case (Cons t ts)
    have "render (s # cs) = SLASH # s @ render cs" by (simp add: render_def Cons)
    moreover have "render cs = SLASH # (t @ concat (map (\<lambda>s. SLASH # s) ts))" by (simp add: render_def Cons)
    ultimately have "components (render (s # cs)) = s # components (render cs)"
      using Cons.prems by (simp add: components_seg_append)
    with Cons.IH Cons.prems show ?thesis by simp
  qed
qed

section \<open>Lemmas on the loops of normpath\<close>

lemma norm_scan_components: "norm_scan p seg = foldl norm_push seg (components p)"
proof (induction p seg rule: norm_scan.induct)
  case (1 p seg)
  show ?case
    by (subst norm_scan.simps, subst components.simps) (use 1 in \<open>simp add: Let_def\<close>)
qed

lemma norm_copy_take: "norm_copy cap s out = out @ take (cap - 1 - length out) s"
proof (induction s arbitrary: out)
  case (Cons c s)
  show ?case
  proof (cases "length out + 1 < cap")
    case True
    then have "cap - 1 - length out = Suc (cap - Suc (Suc (length out)))" by simp
    with True show ?thesis by (simp add: Cons)
  qed simp
qed simp

lemma norm_out_take: "norm_out cap ss out = out @ take (cap - 1 - length out) (concat (map (\<lambda>s. SLASH # s) ss))"
proof (induction ss arbitrary: out)
  case (Cons s ss)
  show ?case
  proof (cases "length out + 1 < cap")
    case True
    define k where "k = cap - Suc (Suc (length out))"
    with True have k: "cap - 1 - length out = Suc k" "cap - 1 - length (out @ [SLASH]) = k" by simp_all
    have "k - min (length s) k = k - length s" by simp
    then have "cap - 1 - length (norm_copy cap s (out @ [SLASH])) = k - length s"
      using True k(1) by (simp add: norm_copy_take k_def min.commute)
    then show ?thesis using True k by (simp add: Cons norm_copy_take)
  qed simp
qed simp

lemma normpath_alt: "normpath p cap = snprintf_n cap (render (foldl norm_push [] (components p)))"
  by (simp add: normpath_def norm_scan_components norm_out_take render_def snprintf_n_def Let_def)

lemma norm_push_proper:
  assumes "list_all proper_seg seg" and "is_seg s"
  shows "list_all proper_seg (norm_push seg s)"
  using assms by (auto simp: norm_push_def proper_seg_def list_all_iff dest: in_set_butlastD)

lemma norm_push_length: "length seg \<le> 256 \<Longrightarrow> length (norm_push seg s) \<le> 256"
  by (auto simp: norm_push_def)

lemma foldl_norm_push_inv:
  assumes "list_all is_seg cs" and "list_all proper_seg seg" and "length seg \<le> 256"
  shows "list_all proper_seg (foldl norm_push seg cs) \<and> length (foldl norm_push seg cs) \<le> 256"
  using assms
  by (induction cs arbitrary: seg) (simp_all add: norm_push_proper norm_push_length)

lemma foldl_norm_push_proper:
  assumes "list_all proper_seg cs" and "length seg + length cs \<le> 256"
  shows "foldl norm_push seg cs = seg @ cs"
  using assms
  by (induction cs arbitrary: seg) (auto simp: norm_push_def proper_seg_def)

lemma foldl_norm_push_lex:
  assumes "length seg + length cs \<le> 256"
  shows "foldl norm_push seg cs = foldl lex_step seg cs"
  using assms
proof (induction cs arbitrary: seg)
  case (Cons s cs)
  have "norm_push seg s = lex_step seg s" using Cons.prems by (simp add: norm_push_def)
  moreover have "length (lex_step seg s) + length cs \<le> 256" using Cons.prems by (auto simp: le_diff_conv)
  ultimately show ?case using Cons.IH by simp
qed simp

lemma proper_is_seg: "list_all proper_seg cs \<Longrightarrow> list_all is_seg cs"
  by (auto simp: list_all_iff proper_seg_def)

text \<open>The segments that \<open>normpath\<close> holds when its scanning loop ends.\<close>

definition norm_segs :: "string \<Rightarrow> string list" where
  "norm_segs p = foldl norm_push [] (components p)"

lemma norm_segs_proper: "list_all proper_seg (norm_segs p)"
  unfolding norm_segs_def using foldl_norm_push_inv [OF components_is_seg, of "[]"] by simp

lemma norm_segs_length: "length (norm_segs p) \<le> 256"
  unfolding norm_segs_def using foldl_norm_push_inv [OF components_is_seg, of "[]"] by simp

lemma normpath_render: "normpath p cap = snprintf_n cap (render (norm_segs p))"
  by (simp add: normpath_alt norm_segs_def)

lemma render_hd: "\<exists>r. render cs = SLASH # r"
  by (cases cs) (auto simp: render_def)

lemma norm_segs_render: "list_all proper_seg cs \<Longrightarrow> length cs \<le> 256 \<Longrightarrow> norm_segs (render cs) = cs"
  by (simp add: norm_segs_def components_render proper_is_seg foldl_norm_push_proper)

lemma lex_norm_norm_segs: "length (components p) \<le> 256 \<Longrightarrow> norm_segs p = lex_norm (components p)"
  by (simp add: norm_segs_def lex_norm_def foldl_norm_push_lex)

lemma norm_segs_normpath:
  "length (render (norm_segs p)) < cap \<Longrightarrow> norm_segs (normpath p cap) = norm_segs p"
  by (simp add: normpath_render snprintf_n_fits norm_segs_render norm_segs_proper norm_segs_length)

lemma length_normpath: "length (normpath p cap) \<le> cap - 1"
  unfolding normpath_render by (rule length_snprintf_n_le)

lemma render_snoc: "render (cs @ [b]) = (if cs = [] then [] else render cs) @ SLASH # b"
  by (simp add: render_def)

lemma after_slash_seg: "SLASH \<notin> set b \<Longrightarrow> after_slash (d @ SLASH # b) = b"
  using takeWhile_seg [of "rev b" "rev d"] by (simp add: after_slash_def)

lemma split_path_snoc:
  assumes "SLASH \<notin> set b" and "length b < bcap" and "length d < dcap" and "d = [] \<Longrightarrow> 1 < dcap"
  shows "split_path (d @ SLASH # b) dcap bcap = (if d = [] then ''/'' else d, b)"
  using assms by (simp add: split_path_def after_slash_seg snprintf_n_fits Let_def)

section \<open>Properties\<close>

text \<open>
  C22. When the path has at most 256 components and the canonical form fits the
  buffer, \<open>normpath\<close> computes the lexical resolution of ``.'' and ``..'': its
  result is the rendering of the pushed and popped components, contains no empty,
  ``.'' or ``..'' component, and is a fixed point of \<open>normpath\<close>.
\<close>

theorem normpath_correct:
  assumes "length (components p) \<le> 256" and "length (render (lex_norm (components p))) < cap"
  shows "normpath p cap = render (lex_norm (components p)) \<and>
    list_all proper_seg (components (normpath p cap)) \<and>
    normpath (normpath p cap) cap = normpath p cap"
proof -
  from assms(1) have n: "lex_norm (components p) = norm_segs p" by (simp add: lex_norm_norm_segs)
  from assms(2) have l: "length (render (norm_segs p)) < cap" by (simp add: n)
  then have e: "normpath p cap = render (norm_segs p)"
    by (simp add: normpath_render snprintf_n_fits)
  have "list_all proper_seg (components (normpath p cap))"
    using norm_segs_proper [of p] by (simp add: e components_render proper_is_seg)
  moreover have "normpath (normpath p cap) cap = normpath p cap"
    using norm_segs_normpath [OF l] by (simp add: normpath_render)
  ultimately show ?thesis by (simp add: e n)
qed

theorem normpath_correct_witness:
  "normpath ''/a/./b//../c'' 4096 = ''/a/c'' \<and> normpath ''/a/c'' 4096 = ''/a/c''"
proof -
  have c: "components ''/a/./b//../c'' = [''a'', ''.'', ''b'', ''..'', ''c'']"
    by (simp add: components.simps)
  have "lex_norm (components ''/a/./b//../c'') = [''a'', ''c'']"
    unfolding c by (simp add: lex_norm_def)
  with normpath_correct [of "''/a/./b//../c''" 4096] c show ?thesis
    by (auto simp: render_def)
qed

text \<open>
  Segments past the 256th are dropped without an error: a path of 257 proper
  components has the canonical form of its parent directory.
\<close>

theorem normpath_deep_is_parent:
  assumes "list_all proper_seg (cs @ [x])" and "length cs = 256"
  shows "normpath (render (cs @ [x])) cap = normpath (render cs) cap"
proof -
  have "foldl norm_push [] cs = cs" using assms by (simp add: foldl_norm_push_proper)
  then have "foldl norm_push [] (cs @ [x]) = cs"
    using assms by (simp add: norm_push_def proper_seg_def)
  moreover have "components (render (cs @ [x])) = cs @ [x]" "components (render cs) = cs"
    using assms(1) by (intro components_render proper_is_seg; simp)+
  ultimately show ?thesis using \<open>foldl norm_push [] cs = cs\<close> by (simp add: normpath_alt)
qed

theorem normpath_deep_is_parent_witness:
  "normpath (render (replicate 256 ''a'' @ [''x''])) 4096 = normpath (render (replicate 256 ''a'')) 4096"
  using normpath_deep_is_parent [of "replicate 256 ''a''" "''x''" 4096]
  by (simp add: proper_seg_def is_seg_def list_all_iff)

text \<open>
  C23. Splitting a canonical path at its last component and joining the parts is
  the identity, as long as both parts fit their buffers (4096 and 256 bytes in
  every caller).
\<close>

theorem split_path_render:
  assumes "list_all proper_seg (cs @ [b])" and "length b < bcap" and "length (render cs) < dcap"
  shows "split_path (render (cs @ [b])) dcap bcap = (render cs, b)"
proof -
  show ?thesis
  proof (cases "cs = []")
    case True
    with assms show ?thesis
      using split_path_snoc [of b bcap "[]" dcap] by (simp add: render_def proper_seg_def is_seg_def)
  next
    case False
    then have "render cs \<noteq> []" using render_hd [of cs] by auto
    with False assms show ?thesis
      using split_path_snoc [of b bcap "render cs" dcap]
      by (simp add: render_snoc proper_seg_def is_seg_def)
  qed
qed

theorem split_path_render_witness:
  "split_path ''/a/bc/d'' 4096 256 = (''/a/bc'', ''d'') \<and> split_path ''/d'' 4096 256 = (''/'', ''d'')"
  using split_path_render [of "[''a'', ''bc'']" "''d''" 256 4096]
    split_path_render [of "[]" "''d''" 256 4096]
  by (simp add: proper_seg_def is_seg_def render_def)

end
