(* ===== verification/FuseCache.thy ===== *)
theory FuseCache
  imports Prelude
begin

text \<open>
  The state of a FUSE engine (\<^verbatim>\<open>struct fused\<close> of \<^verbatim>\<open>proot/patches/fused.c\<close>) and its
  path-to-node cache (\<open>cache_put\<close>, \<open>cache_drop\<close>). The cache is an array with
  linear search, amortised growth and swap-removal; memory allocation is a
  parameter and may fail. The interface \<open>node_cache\<close> is what the engine relies on:
  a finite map whose insertion is best effort.
\<close>

section \<open>Engine state\<close>

record fnode =
  fn_path :: string
  fn_nodeid :: u64

text \<open>The callbacks \<^verbatim>\<open>io_send\<close>, \<^verbatim>\<open>io_recv\<close> and \<^verbatim>\<open>io_ctx\<close> are arguments of the operations.\<close>

record fused =
  f_fd :: int
  f_uid :: u32
  f_gid :: u32
  f_pid :: u32
  f_unique :: u64
  f_proto_minor :: u32
  f_max_write :: u32
  f_inited :: bool
  f_nodes :: "fnode list"
  f_capnodes :: nat

text \<open>
  Allocation: \<open>al n w\<close> tells whether \<^verbatim>\<open>malloc\<close>, \<^verbatim>\<open>realloc\<close> or \<^verbatim>\<open>strdup\<close> of \<open>n\<close> bytes
  succeeds in the outside world \<open>w\<close>.
\<close>

type_synonym 'w allocator = "nat \<Rightarrow> 'w \<Rightarrow> bool \<times> 'w"

section \<open>Cache operations\<close>

definition cache_append :: "'w allocator \<Rightarrow> string \<Rightarrow> u64 \<Rightarrow> fused \<times> 'w \<Rightarrow> fused \<times> 'w" where
  "cache_append al path nodeid = (\<lambda>(f, w).
     let (ok, w') = al (length path + 1) w in
     if ok then (f\<lparr>f_nodes := f_nodes f @ [\<lparr>fn_path = path, fn_nodeid = nodeid\<rparr>]\<rparr>, w')
     else (f, w'))"

definition cache_put :: "'w allocator \<Rightarrow> string \<Rightarrow> u64 \<Rightarrow> fused \<times> 'w \<Rightarrow> fused \<times> 'w" where
  "cache_put al path nodeid = (\<lambda>(f, w).
     case find_idx (\<lambda>n. fn_path n = path) (f_nodes f) of
       Some i \<Rightarrow> (f\<lparr>f_nodes := (f_nodes f)[i := (f_nodes f ! i)\<lparr>fn_nodeid := nodeid\<rparr>]\<rparr>, w)
     | None \<Rightarrow>
         if length (f_nodes f) = f_capnodes f then
           let nc = (if f_capnodes f \<noteq> 0 then f_capnodes f * 2 else 16);
               (ok, w') = al (nc * 16) w in
           if ok then cache_append al path nodeid (f\<lparr>f_capnodes := nc\<rparr>, w') else (f, w')
         else cache_append al path nodeid (f, w))"

definition cache_drop :: "string \<Rightarrow> fused \<Rightarrow> fused" where
  "cache_drop path f =
     (case find_idx (\<lambda>n. fn_path n = path) (f_nodes f) of
        Some i \<Rightarrow> f\<lparr>f_nodes := butlast ((f_nodes f)[i := last (f_nodes f)])\<rparr>
      | None \<Rightarrow> f)"

section \<open>The map a cache stands for\<close>

definition cache_map :: "fused \<Rightarrow> string \<Rightarrow> u64 option" where
  "cache_map f = map_of (map (\<lambda>n. (fn_path n, fn_nodeid n)) (f_nodes f))"

definition cache_inv :: "fused \<Rightarrow> bool" where
  "cache_inv f \<longleftrightarrow> distinct (map fn_path (f_nodes f)) \<and> length (f_nodes f) \<le> f_capnodes f"

text \<open>
  The allocations an insertion of a new path makes are granted: growing the array when
  it is full, then the copy of the path.
\<close>

definition put_room :: "'w allocator \<Rightarrow> string \<Rightarrow> fused \<times> 'w \<Rightarrow> bool" where
  "put_room al path = (\<lambda>(f, w).
     if length (f_nodes f) = f_capnodes f then
       let (ok, w1) = al ((if f_capnodes f \<noteq> 0 then f_capnodes f * 2 else 16) * 16) w in
       ok \<and> fst (al (length path + 1) w1)
     else fst (al (length path + 1) w))"

text \<open>
  What the engine relies on. An insertion of a new path is dropped exactly if there is no
  room for it (\<open>room\<close>), a path that is present is always updated, removal always removes.
\<close>

locale node_cache =
  fixes put :: "string \<Rightarrow> u64 \<Rightarrow> 's \<Rightarrow> 's"
    and drp :: "string \<Rightarrow> 's \<Rightarrow> 's"
    and room :: "string \<Rightarrow> 's \<Rightarrow> bool"
    and abs :: "'s \<Rightarrow> string \<Rightarrow> u64 option"
    and inv :: "'s \<Rightarrow> bool"
  assumes inv_put: "inv s \<Longrightarrow> inv (put p v s)"
    and inv_drp: "inv s \<Longrightarrow> inv (drp p s)"
    and put_abs: "inv s \<Longrightarrow> abs (put p v s) = (if abs s p = None \<and> \<not> room p s then abs s else (abs s)(p \<mapsto> v))"
    and drp_abs: "inv s \<Longrightarrow> abs (drp p s) = (abs s)(p := None)"
begin

text \<open>No stale answer: what the cache holds after an insertion is the inserted node.\<close>

lemma put_sound: "inv s \<Longrightarrow> abs (put p v s) p = Some u \<Longrightarrow> u = v"
  by (auto simp: put_abs split: if_splits)

lemma put_other: "inv s \<Longrightarrow> q \<noteq> p \<Longrightarrow> abs (put p v s) q = abs s q"
  by (simp add: put_abs)

lemma drp_then_put_other: "inv s \<Longrightarrow> q \<noteq> p \<Longrightarrow> abs (put q v (drp p s)) p = None"
  using put_other [of "drp p s" p q v] by (simp add: inv_drp drp_abs)

lemma put_foldl_inv: "inv s \<Longrightarrow> inv (foldl (\<lambda>s (p, v). put p v s) s pvs)"
  by (induction pvs arbitrary: s) (auto simp: inv_put)

text \<open>After a run of insertions every answer is an old one or one of those inserted last for its path.\<close>

lemma put_foldl_sound:
  "inv s \<Longrightarrow> abs (foldl (\<lambda>s (p, v). put p v s) s pvs) q = Some u \<Longrightarrow>
   map_of (rev pvs) q = Some u \<or> map_of (rev pvs) q = None \<and> abs s q = Some u"
proof (induction pvs rule: rev_induct)
  case (snoc pv pvs)
  obtain p v where pv: "pv = (p, v)" by (cases pv)
  let ?s = "foldl (\<lambda>s (p, v). put p v s) s pvs"
  have i: "inv ?s" using snoc.prems(1) by (rule put_foldl_inv)
  show ?case
  proof (cases "q = p")
    case True
    with snoc.prems(2) pv have "u = v" using put_sound [OF i] by simp
    with True pv show ?thesis by simp
  next
    case False
    with snoc pv put_other [OF i, of q p v] show ?thesis by simp
  qed
qed simp

end

section \<open>The array implements the interface\<close>

text \<open>Swap-removal from a list with distinct keys.\<close>

lemma swap_remove_snoc:
  "i < length (ys @ [l]) \<Longrightarrow>
   butlast ((ys @ [l])[i := last (ys @ [l])]) = (if i = length ys then ys else ys[i := l])"
  by (auto simp: list_update_append butlast_append)

lemma swap_remove_distinct:
  assumes "distinct (map k xs)" and "i < length xs"
  shows "distinct (map k (butlast (xs[i := last xs])))"
    and "set (butlast (xs[i := last xs])) = set xs - {xs ! i}"
proof -
  from assms(2) obtain ys l where xs: "xs = ys @ [l]" by (cases xs rule: rev_cases) auto
  have d: "distinct ys" "distinct (map k ys)" "k l \<notin> k ` set ys" "l \<notin> set ys"
    using assms(1) by (auto simp: xs distinct_map)
  have e: "butlast (xs[i := last xs]) = (if i = length ys then ys else ys[i := l])"
    using swap_remove_snoc [of i ys l] assms(2) by (simp add: xs)
  show "distinct (map k (butlast (xs[i := last xs])))"
    using d by (auto simp: e map_update intro!: distinct_list_update)
  show "set (butlast (xs[i := last xs])) = set xs - {xs ! i}"
  proof (cases "i = length ys")
    case True
    with d show ?thesis unfolding e by (auto simp: xs)
  next
    case False
    with assms(2) have "i < length ys" by (simp add: xs)
    with d False show ?thesis unfolding e by (auto simp: xs nth_append set_update_distinct)
  qed
qed

lemma cache_map_Some:
  "cache_inv f \<Longrightarrow>
   cache_map f q = Some v \<longleftrightarrow> (\<exists>n \<in> set (f_nodes f). fn_path n = q \<and> fn_nodeid n = v)"
  by (auto simp: cache_map_def cache_inv_def comp_def map_of_eq_Some_iff)

lemma cache_map_None: "cache_map f q = None \<longleftrightarrow> q \<notin> fn_path ` set (f_nodes f)"
  by (simp add: cache_map_def map_of_eq_None_iff image_image)

lemma find_path_None: "find_idx (\<lambda>n. fn_path n = q) (f_nodes f) = None \<longleftrightarrow> cache_map f q = None"
  by (auto simp: find_idx_None cache_map_None)

lemma map_path_update:
  "i < length ns \<Longrightarrow> map fn_path (ns[i := (ns ! i)\<lparr>fn_nodeid := v\<rparr>]) = map fn_path ns"
  by (rule nth_equalityI) (auto simp: nth_list_update)

lemma cache_map_update:
  assumes "cache_inv f" and "find_idx (\<lambda>n. fn_path n = p) (f_nodes f) = Some i"
  shows "cache_map (f\<lparr>f_nodes := (f_nodes f)[i := (f_nodes f ! i)\<lparr>fn_nodeid := v\<rparr>]\<rparr>) = (cache_map f)(p \<mapsto> v)"
    (is "cache_map ?g = _")
proof (rule ext)
  fix q
  let ?ns = "f_nodes f"
  have i: "i < length ?ns" "fn_path (?ns ! i) = p"
    using find_idx_less [OF assms(2)] find_idx_sat [OF assms(2)] by simp_all
  have inv: "cache_inv ?g" using assms(1) i by (simp add: cache_inv_def map_path_update)
  have dn: "distinct ?ns" using assms(1) by (simp add: cache_inv_def distinct_map)
  have s: "set (f_nodes ?g) = insert ((?ns ! i)\<lparr>fn_nodeid := v\<rparr>) (set ?ns - {?ns ! i})"
    using i dn by (simp add: set_update_distinct)
  have u: "n = ?ns ! i" if "n \<in> set ?ns" "fn_path n = p" for n
    using assms(1) that i by (metis cache_inv_def distinct_map inj_onD nth_mem)
  show "cache_map ?g q = ((cache_map f)(p \<mapsto> v)) q"
  proof (cases "q = p")
    case True
    have "cache_map ?g p = Some v"
      unfolding cache_map_Some [OF inv] s using i(2) by simp
    with True show ?thesis by simp
  next
    case False
    have "cache_map ?g q = Some x \<longleftrightarrow> cache_map f q = Some x" for x
      unfolding cache_map_Some [OF inv] cache_map_Some [OF assms(1)] s using False i(2) u by auto
    with False show ?thesis by (cases "cache_map f q"; cases "cache_map ?g q") auto
  qed
qed

lemma cache_append_map:
  assumes "cache_map f p = None"
  shows "cache_map (fst (cache_append al p v (f, w))) =
    (if fst (al (length p + 1) w) then (cache_map f)(p \<mapsto> v) else cache_map f)"
  using assms by (auto simp: cache_append_def cache_map_def map_add_def split: prod.splits option.splits)

lemma cache_map_capnodes [simp]: "cache_map (f\<lparr>f_capnodes := c\<rparr>) = cache_map f"
  by (simp add: cache_map_def)

lemma cache_append_inv:
  assumes "cache_inv f" and "cache_map f p = None" and "length (f_nodes f) < f_capnodes f"
    and "cache_append al p v (f, w) = (f', w')"
  shows "cache_inv f'"
  using assms
  by (auto simp: cache_append_def cache_inv_def cache_map_None split: prod.splits if_splits)

lemma cache_inv_capnodes: "cache_inv f \<Longrightarrow> f_capnodes f \<le> c \<Longrightarrow> cache_inv (f\<lparr>f_capnodes := c\<rparr>)"
  by (simp add: cache_inv_def)

text \<open>The cases of \<open>cache_put\<close>: an update in place, an append, or a dropped insertion.\<close>

lemma cache_put_cases:
  assumes "cache_inv f"
  obtains (upd) i where "find_idx (\<lambda>n. fn_path n = p) (f_nodes f) = Some i"
      "cache_put al p v (f, w) = (f\<lparr>f_nodes := (f_nodes f)[i := (f_nodes f ! i)\<lparr>fn_nodeid := v\<rparr>]\<rparr>, w)"
  | (app) c w1 where "cache_map f p = None" "f_capnodes f \<le> c" "length (f_nodes f) < c"
      "cache_put al p v (f, w) = cache_append al p v (f\<lparr>f_capnodes := c\<rparr>, w1)"
  | (drop) w1 where "cache_map f p = None" "cache_put al p v (f, w) = (f, w1)"
proof (cases "find_idx (\<lambda>n. fn_path n = p) (f_nodes f)")
  case (Some i)
  then show ?thesis by (intro upd [of i]) (simp_all add: cache_put_def)
next
  case None
  then have n: "cache_map f p = None" by (simp add: find_path_None)
  show ?thesis
  proof (cases "length (f_nodes f) = f_capnodes f")
    case True
    let ?c = "if f_capnodes f \<noteq> 0 then f_capnodes f * 2 else 16"
    obtain ok w1 where a: "al (?c * 16) w = (ok, w1)" by (cases "al (?c * 16) w") auto
    show ?thesis
    proof (cases ok)
      case ok: True
      show ?thesis
        by (rule app [of ?c w1, OF n]) (use True None a ok in \<open>auto simp: cache_put_def Let_def\<close>)
    next
      case False
      then show ?thesis
        by (intro drop [of w1, OF n]) (use True None a in \<open>auto simp: cache_put_def Let_def\<close>)
    qed
  next
    case False
    with assms have "length (f_nodes f) < f_capnodes f" by (simp add: cache_inv_def)
    with None False show ?thesis
      by (intro app [of "f_capnodes f" w, OF n]) (simp_all add: cache_put_def)
  qed
qed

lemma cache_put_inv: "cache_inv f \<Longrightarrow> cache_inv (fst (cache_put al p v (f, w)))"
proof -
  assume a: "cache_inv f"
  from a show ?thesis
  proof (cases rule: cache_put_cases [of f p al v w])
    case (upd i)
    then show ?thesis
      using a find_idx_less [OF upd(1)] by (simp add: cache_inv_def map_path_update)
  next
    case (app c w1)
    then show ?thesis
      using a cache_append_inv [of "f\<lparr>f_capnodes := c\<rparr>" p al v w1] cache_inv_capnodes [OF a app(2)]
      by (cases "cache_append al p v (f\<lparr>f_capnodes := c\<rparr>, w1)") simp
  next
    case (drop w1)
    then show ?thesis using a by simp
  qed
qed

lemma cache_put_map:
  assumes "cache_inv f"
  shows "cache_map (fst (cache_put al p v (f, w))) =
    (if cache_map f p = None \<and> \<not> put_room al p (f, w) then cache_map f else (cache_map f)(p \<mapsto> v))"
proof (cases "find_idx (\<lambda>n. fn_path n = p) (f_nodes f)")
  case (Some i)
  moreover obtain u where "cache_map f p = Some u" using Some find_path_None [of p f] by auto
  ultimately show ?thesis using assms by (simp add: cache_put_def cache_map_update)
next
  case None
  then have n: "cache_map f p = None" by (simp add: find_path_None)
  show ?thesis
    using None n cache_append_map [of f p al v w]
    by (auto simp: cache_put_def put_room_def Let_def cache_append_map split: prod.split)
qed

lemma cache_drop_inv: "cache_inv f \<Longrightarrow> cache_inv (cache_drop p f)"
  by (auto simp: cache_inv_def cache_drop_def swap_remove_distinct(1) dest: find_idx_less split: option.splits)

lemma cache_drop_map:
  assumes "cache_inv f"
  shows "cache_map (cache_drop p f) = (cache_map f)(p := None)"
proof (cases "find_idx (\<lambda>n. fn_path n = p) (f_nodes f)")
  case None
  then show ?thesis using find_path_None [of p f] by (auto simp: cache_drop_def)
next
  case (Some i)
  have i: "i < length (f_nodes f)" "fn_path (f_nodes f ! i) = p"
    using find_idx_less [OF Some] find_idx_sat [OF Some] by simp_all
  have s: "set (f_nodes (cache_drop p f)) = set (f_nodes f) - {f_nodes f ! i}"
    using assms i Some swap_remove_distinct(2) [of fn_path "f_nodes f" i]
    by (simp add: cache_drop_def cache_inv_def)
  have u: "n = f_nodes f ! i" if "n \<in> set (f_nodes f)" "fn_path n = p" for n
    using assms that i by (metis cache_inv_def distinct_map inj_onD nth_mem)
  have "cache_map (cache_drop p f) q = Some v \<longleftrightarrow> ((cache_map f)(p := None)) q = Some v" for q v
    using cache_map_Some [OF assms, of q v] cache_map_Some [OF cache_drop_inv [OF assms], of p q v] s u i
    by (cases "q = p") auto
  then show ?thesis by (metis (no_types, lifting) ext not_Some_eq)
qed

text \<open>An allocator that grants every request: insertion is exact.\<close>

lemma cache_put_ok:
  assumes "cache_inv f" and "\<And>n w. fst (al n w)"
  shows "cache_map (fst (cache_put al p v (f, w))) = (cache_map f)(p \<mapsto> v)"
proof -
  have "put_room al p (f, w)" using assms(2) by (simp add: put_room_def split_beta)
  with assms(1) show ?thesis by (simp add: cache_put_map)
qed

interpretation fc: node_cache "cache_put al" "\<lambda>p (f, w). (cache_drop p f, w)" "put_room al"
    "\<lambda>(f, w). cache_map f" "\<lambda>(f, w). cache_inv f"
proof (unfold_locales, goal_cases)
  case (1 s p v)
  then show ?case using cache_put_inv [of "fst s" al p v "snd s"] by (simp add: split_beta)
next
  case (2 s p)
  then show ?case by (auto simp: cache_drop_inv split: prod.splits)
next
  case (3 s p v)
  then show ?case using cache_put_map [of "fst s" al p v "snd s"] by (simp add: split_beta)
next
  case (4 s p)
  then show ?case by (auto simp: cache_drop_map split: prod.splits)
qed

section \<open>Properties\<close>

text \<open>
  C9. The node cache refines a finite map: from a well-formed cache, \<open>cache_put\<close>
  stores the binding unless the path is absent and one of the allocations it makes
  for a new entry (\<open>put_room\<close>) is refused, and exactly then leaves the map unchanged;
  \<open>cache_drop\<close> erases the binding; both keep the paths distinct and the array within
  its capacity.
\<close>

theorem cache_refines_map:
  assumes "cache_inv f"
  shows "cache_inv (fst (cache_put al p v (f, w))) \<and> cache_inv (cache_drop p f) \<and>
    cache_map (fst (cache_put al p v (f, w))) =
      (if cache_map f p = None \<and> \<not> put_room al p (f, w) then cache_map f else (cache_map f)(p \<mapsto> v)) \<and>
    cache_map (cache_drop p f) = (cache_map f)(p := None)"
  using assms by (simp add: cache_put_inv cache_put_map cache_drop_inv cache_drop_map)

text \<open>A fresh engine state, as \<^verbatim>\<open>calloc\<close> leaves it.\<close>

definition fused_zero :: fused where
  "fused_zero = \<lparr>f_fd = 0, f_uid = 0, f_gid = 0, f_pid = 0, f_unique = 0, f_proto_minor = 0,
     f_max_write = 0, f_inited = False, f_nodes = [], f_capnodes = 0\<rparr>"

lemma cache_inv_zero [simp]: "cache_inv fused_zero"
  by (simp add: cache_inv_def fused_zero_def)

theorem cache_refines_map_witness:
  "let f = fst (cache_put (\<lambda>n w. (True, w)) ''/a'' 7 (fused_zero, ())) in
     cache_inv f \<and> cache_map f ''/a'' = Some 7 \<and> cache_map (cache_drop ''/a'' f) ''/a'' = None"
proof -
  let ?f = "fst (cache_put (\<lambda>n w. (True, w)) ''/a'' 7 (fused_zero, ()))"
  have "put_room (\<lambda>n w. (True, w)) ''/a'' (fused_zero, ())" by (simp add: put_room_def)
  with cache_refines_map [of fused_zero "\<lambda>n w. (True, w)" "''/a''" 7 "()"]
  have "cache_inv ?f" "cache_map ?f ''/a'' = Some 7" by simp_all
  with cache_refines_map [of ?f "\<lambda>n w. (True, w)" "''/a''" 7 "()"] show ?thesis by simp
qed

end
