(* ===== verification/FuseWire.thy ===== *)
theory FuseWire
  imports FuseCache
begin

text \<open>
  The FUSE wire format used by \<^verbatim>\<open>proot/patches/fused.c\<close>: opcodes, request header,
  request bodies and reply structures of \<^verbatim>\<open>fuse_kernel.h\<close> as byte layouts, with the
  conversions \<open>attr_to_stat\<close> and the \<^verbatim>\<open>statvfs\<close> mapping. Encoders for the structures
  a daemon sends are given too, so that the decoders have inverses.
\<close>

section \<open>Constants\<close>

definition FUSED_MAXDATA :: nat where "FUSED_MAXDATA = 128 * 1024"
definition FUSED_MSGCAP :: nat where "FUSED_MSGCAP = FUSED_MAXDATA + 4096"

definition FUSE_ROOT_ID :: u64 where "FUSE_ROOT_ID = 1"
definition FUSE_KERNEL_VERSION :: u32 where "FUSE_KERNEL_VERSION = 7"
definition FUSE_KERNEL_MINOR_VERSION :: u32 where "FUSE_KERNEL_MINOR_VERSION = 39"

definition FUSE_LOOKUP :: u32 where "FUSE_LOOKUP = 1"
definition FUSE_FORGET :: u32 where "FUSE_FORGET = 2"
definition FUSE_GETATTR :: u32 where "FUSE_GETATTR = 3"
definition FUSE_SETATTR :: u32 where "FUSE_SETATTR = 4"
definition FUSE_READLINK :: u32 where "FUSE_READLINK = 5"
definition FUSE_SYMLINK :: u32 where "FUSE_SYMLINK = 6"
definition FUSE_MKDIR :: u32 where "FUSE_MKDIR = 9"
definition FUSE_UNLINK :: u32 where "FUSE_UNLINK = 10"
definition FUSE_RMDIR :: u32 where "FUSE_RMDIR = 11"
definition FUSE_RENAME :: u32 where "FUSE_RENAME = 12"
definition FUSE_OPEN :: u32 where "FUSE_OPEN = 14"
definition FUSE_READ :: u32 where "FUSE_READ = 15"
definition FUSE_WRITE :: u32 where "FUSE_WRITE = 16"
definition FUSE_STATFS :: u32 where "FUSE_STATFS = 17"
definition FUSE_RELEASE :: u32 where "FUSE_RELEASE = 18"
definition FUSE_FSYNC :: u32 where "FUSE_FSYNC = 20"
definition FUSE_FLUSH :: u32 where "FUSE_FLUSH = 25"
definition FUSE_INIT :: u32 where "FUSE_INIT = 26"
definition FUSE_OPENDIR :: u32 where "FUSE_OPENDIR = 27"
definition FUSE_READDIR :: u32 where "FUSE_READDIR = 28"
definition FUSE_RELEASEDIR :: u32 where "FUSE_RELEASEDIR = 29"
definition FUSE_ACCESS :: u32 where "FUSE_ACCESS = 34"
definition FUSE_CREATE :: u32 where "FUSE_CREATE = 35"
definition FUSE_DESTROY :: u32 where "FUSE_DESTROY = 38"

lemmas opcode_defs = FUSE_LOOKUP_def FUSE_FORGET_def FUSE_GETATTR_def FUSE_SETATTR_def
  FUSE_READLINK_def FUSE_SYMLINK_def FUSE_MKDIR_def FUSE_UNLINK_def FUSE_RMDIR_def
  FUSE_RENAME_def FUSE_OPEN_def FUSE_READ_def FUSE_WRITE_def FUSE_STATFS_def
  FUSE_RELEASE_def FUSE_FSYNC_def FUSE_FLUSH_def FUSE_INIT_def FUSE_OPENDIR_def
  FUSE_READDIR_def FUSE_RELEASEDIR_def FUSE_ACCESS_def FUSE_CREATE_def FUSE_DESTROY_def

lemmas cap_defs = FUSED_MAXDATA_def FUSED_MSGCAP_def

definition FATTR_MODE :: u32 where "FATTR_MODE = 1"
definition FATTR_UID :: u32 where "FATTR_UID = 2"
definition FATTR_GID :: u32 where "FATTR_GID = 4"
definition FATTR_SIZE :: u32 where "FATTR_SIZE = 8"
definition FATTR_ATIME :: u32 where "FATTR_ATIME = 16"
definition FATTR_MTIME :: u32 where "FATTR_MTIME = 32"

lemmas fattr_defs = FATTR_MODE_def FATTR_UID_def FATTR_GID_def FATTR_SIZE_def
  FATTR_ATIME_def FATTR_MTIME_def

section \<open>Requests\<close>

text \<open>\<^verbatim>\<open>struct fuse_in_header\<close>: 40 bytes, stamped with the engine's ids.\<close>

definition fuse_in_header :: "fused \<Rightarrow> nat \<Rightarrow> u32 \<Rightarrow> u64 \<Rightarrow> bytes" where
  "fuse_in_header f tot opcode nodeid =
     le32 (word_of_nat tot) @ le32 opcode @ le64 (f_unique f) @ le64 nodeid @
     le32 (f_uid f) @ le32 (f_gid f) @ le32 (f_pid f) @ le16 0 @ le16 0"

definition hdr_len :: "bytes \<Rightarrow> u32" where "hdr_len m = get32 0 m"
definition hdr_opcode :: "bytes \<Rightarrow> u32" where "hdr_opcode m = get32 4 m"
definition hdr_unique :: "bytes \<Rightarrow> u64" where "hdr_unique m = get64 8 m"
definition hdr_nodeid :: "bytes \<Rightarrow> u64" where "hdr_nodeid m = get64 16 m"

definition fuse_init_in :: bytes where
  "fuse_init_in = le32 FUSE_KERNEL_VERSION @ le32 FUSE_KERNEL_MINOR_VERSION @
     le32 (word_of_nat FUSED_MAXDATA) @ le32 0 @ le32 0 @ replicate 44 NUL"

definition fuse_forget_in :: "u64 \<Rightarrow> bytes" where
  "fuse_forget_in nlookup = le64 nlookup"

definition fuse_getattr_in :: bytes where
  "fuse_getattr_in = replicate 16 NUL"

definition fuse_access_in :: "u32 \<Rightarrow> bytes" where
  "fuse_access_in msk = le32 msk @ le32 0"

definition fuse_open_in :: "u32 \<Rightarrow> bytes" where
  "fuse_open_in flags = le32 flags @ le32 0"

definition fuse_create_in :: "u32 \<Rightarrow> u32 \<Rightarrow> bytes" where
  "fuse_create_in flags mode = le32 flags @ le32 mode @ le32 0 @ le32 0"

definition fuse_mkdir_in :: "u32 \<Rightarrow> bytes" where
  "fuse_mkdir_in mode = le32 mode @ le32 0"

definition fuse_rename_in :: "u64 \<Rightarrow> bytes" where
  "fuse_rename_in newdir = le64 newdir"

definition fuse_read_in :: "u64 \<Rightarrow> u64 \<Rightarrow> u32 \<Rightarrow> bytes" where
  "fuse_read_in fh offset sz = le64 fh @ le64 offset @ le32 sz @ le32 0 @ le64 0 @ le32 0 @ le32 0"

definition fuse_write_in :: "u64 \<Rightarrow> u64 \<Rightarrow> u32 \<Rightarrow> bytes" where
  "fuse_write_in fh offset sz = le64 fh @ le64 offset @ le32 sz @ le32 0 @ le64 0 @ le32 0 @ le32 0"

definition fuse_flush_in :: "u64 \<Rightarrow> bytes" where
  "fuse_flush_in fh = le64 fh @ le32 0 @ le32 0 @ le64 0"

definition fuse_release_in :: "u64 \<Rightarrow> bytes" where
  "fuse_release_in fh = le64 fh @ le32 0 @ le32 0 @ le64 0"

definition fuse_fsync_in :: "u64 \<Rightarrow> u32 \<Rightarrow> bytes" where
  "fuse_fsync_in fh fsync_flags = le64 fh @ le32 fsync_flags @ le32 0"

record fuse_setattr_in =
  sa_size :: u64
  sa_atime :: u64
  sa_mtime :: u64
  sa_atimensec :: u32
  sa_mtimensec :: u32
  sa_mode :: u32
  sa_uid :: u32
  sa_gid :: u32

text \<open>The fields that no caller sets (\<^verbatim>\<open>fh\<close>, \<^verbatim>\<open>lock_owner\<close>, \<^verbatim>\<open>ctime\<close>, \<^verbatim>\<open>ctimensec\<close>) stay 0.\<close>

definition setattr_bytes :: "u32 \<Rightarrow> fuse_setattr_in \<Rightarrow> bytes" where
  "setattr_bytes valid a =
     le32 valid @ le32 0 @ le64 0 @ le64 (sa_size a) @ le64 0 @ le64 (sa_atime a) @
     le64 (sa_mtime a) @ le64 0 @ le32 (sa_atimensec a) @ le32 (sa_mtimensec a) @ le32 0 @
     le32 (sa_mode a) @ le32 0 @ le32 (sa_uid a) @ le32 (sa_gid a) @ le32 0"

definition setattr_zero :: fuse_setattr_in where
  "setattr_zero = \<lparr>sa_size = 0, sa_atime = 0, sa_mtime = 0, sa_atimensec = 0,
     sa_mtimensec = 0, sa_mode = 0, sa_uid = 0, sa_gid = 0\<rparr>"

section \<open>Replies\<close>

record fuse_attr =
  fa_ino :: u64
  fa_size :: u64
  fa_blocks :: u64
  fa_atime :: u64
  fa_mtime :: u64
  fa_ctime :: u64
  fa_atimensec :: u32
  fa_mtimensec :: u32
  fa_ctimensec :: u32
  fa_mode :: u32
  fa_nlink :: u32
  fa_uid :: u32
  fa_gid :: u32
  fa_rdev :: u32
  fa_blksize :: u32
  fa_flags :: u32

definition attr_dec :: "bytes \<Rightarrow> fuse_attr" where
  "attr_dec b = \<lparr>fa_ino = get64 0 b, fa_size = get64 8 b, fa_blocks = get64 16 b,
     fa_atime = get64 24 b, fa_mtime = get64 32 b, fa_ctime = get64 40 b,
     fa_atimensec = get32 48 b, fa_mtimensec = get32 52 b, fa_ctimensec = get32 56 b,
     fa_mode = get32 60 b, fa_nlink = get32 64 b, fa_uid = get32 68 b, fa_gid = get32 72 b,
     fa_rdev = get32 76 b, fa_blksize = get32 80 b, fa_flags = get32 84 b\<rparr>"

text \<open>\<^verbatim>\<open>struct fuse_entry_out\<close> (128 bytes): node id at 0, attributes at 40.\<close>

definition entry_nodeid :: "bytes \<Rightarrow> u64" where
  "entry_nodeid b = get64 0 b"

definition entry_attr :: "bytes \<Rightarrow> fuse_attr" where
  "entry_attr b = attr_dec (drop 40 b)"

text \<open>\<^verbatim>\<open>struct fuse_attr_out\<close> (104 bytes): attributes at 16.\<close>

definition attr_out_attr :: "bytes \<Rightarrow> fuse_attr" where
  "attr_out_attr b = attr_dec (drop 16 b)"

record stat =
  st_ino :: u64
  st_mode :: u32
  st_nlink :: u32
  st_uid :: u32
  st_gid :: u32
  st_rdev :: u32
  st_size :: int
  st_blksize :: u32
  st_blocks :: int
  st_atime :: int
  st_mtime :: int
  st_ctime :: int

definition attr_to_stat :: "fuse_attr \<Rightarrow> stat" where
  "attr_to_stat a = \<lparr>st_ino = fa_ino a, st_mode = fa_mode a, st_nlink = fa_nlink a,
     st_uid = fa_uid a, st_gid = fa_gid a, st_rdev = fa_rdev a, st_size = sint (fa_size a),
     st_blksize = (if fa_blksize a \<noteq> 0 then fa_blksize a else 4096),
     st_blocks = sint (fa_blocks a), st_atime = sint (fa_atime a),
     st_mtime = sint (fa_mtime a), st_ctime = sint (fa_ctime a)\<rparr>"

record statvfs =
  f_bsize :: u64
  f_frsize :: u64
  f_blocks :: u64
  f_bfree :: u64
  f_bavail :: u64
  f_files :: u64
  f_ffree :: u64
  f_favail :: u64
  f_namemax :: u64

text \<open>\<^verbatim>\<open>struct fuse_kstatfs\<close>: five 64-bit counters, then \<^verbatim>\<open>bsize\<close>, \<^verbatim>\<open>namelen\<close>, \<^verbatim>\<open>frsize\<close>.\<close>

definition kstatfs_to_statvfs :: "bytes \<Rightarrow> statvfs" where
  "kstatfs_to_statvfs b =
     (let bsize = get32 40 b; frsize = get32 48 b in
      \<lparr>f_bsize = ucast bsize, f_frsize = ucast (if frsize \<noteq> 0 then frsize else bsize),
       f_blocks = get64 0 b, f_bfree = get64 8 b, f_bavail = get64 16 b,
       f_files = get64 24 b, f_ffree = get64 32 b, f_favail = get64 32 b,
       f_namemax = ucast (get32 44 b)\<rparr>)"

text \<open>\<^verbatim>\<open>FUSE_DIRENT_ALIGN\<close>: round up to a multiple of 8.\<close>

definition dirent_align :: "nat \<Rightarrow> nat" where
  "dirent_align x = (x + 7) div 8 * 8"

section \<open>What a daemon writes\<close>

definition attr_enc :: "fuse_attr \<Rightarrow> bytes" where
  "attr_enc a = le64 (fa_ino a) @ le64 (fa_size a) @ le64 (fa_blocks a) @ le64 (fa_atime a) @
     le64 (fa_mtime a) @ le64 (fa_ctime a) @ le32 (fa_atimensec a) @ le32 (fa_mtimensec a) @
     le32 (fa_ctimensec a) @ le32 (fa_mode a) @ le32 (fa_nlink a) @ le32 (fa_uid a) @
     le32 (fa_gid a) @ le32 (fa_rdev a) @ le32 (fa_blksize a) @ le32 (fa_flags a)"

definition out_header :: "nat \<Rightarrow> int \<Rightarrow> u64 \<Rightarrow> bytes" where
  "out_header len err unique = le32 (word_of_nat len) @ le32 (word_of_int err) @ le64 unique"

definition entry_out :: "u64 \<Rightarrow> fuse_attr \<Rightarrow> bytes" where
  "entry_out nodeid a = le64 nodeid @ le64 0 @ le64 0 @ le64 0 @ le32 0 @ le32 0 @ attr_enc a"

definition attr_out :: "fuse_attr \<Rightarrow> bytes" where
  "attr_out a = le64 0 @ le32 0 @ le32 0 @ attr_enc a"

definition dirent_enc :: "u64 \<Rightarrow> u64 \<Rightarrow> u32 \<Rightarrow> string \<Rightarrow> bytes" where
  "dirent_enc ino off type name =
     le64 ino @ le64 off @ le32 (word_of_nat (length name)) @ le32 type @ name @
     replicate (dirent_align (24 + length name) - (24 + length name)) NUL"

section \<open>Lemmas\<close>

lemma length_fuse_in_header [simp, buf_simps]: "length (fuse_in_header f t c n) = 40"
  by (simp add: fuse_in_header_def)

lemma length_attr_enc [simp, buf_simps]: "length (attr_enc a) = 88"
  by (simp add: attr_enc_def)

lemma length_entry_out [simp, buf_simps]: "length (entry_out n a) = 128"
  by (simp add: entry_out_def)

lemma length_attr_out [simp, buf_simps]: "length (attr_out a) = 104"
  by (simp add: attr_out_def)

lemma length_out_header [simp, buf_simps]: "length (out_header l e u) = 16"
  by (simp add: out_header_def)

lemma hdr_fields [simp]:
  "hdr_len (fuse_in_header f t c n @ b) = word_of_nat t"
  "hdr_opcode (fuse_in_header f t c n @ b) = c"
  "hdr_unique (fuse_in_header f t c n @ b) = f_unique f"
  "hdr_nodeid (fuse_in_header f t c n @ b) = n"
  by (simp_all add: hdr_len_def hdr_opcode_def hdr_unique_def hdr_nodeid_def fuse_in_header_def get_skips)

lemma attr_dec_enc: "attr_dec (attr_enc a @ r) = a"
  by (cases a) (simp add: attr_dec_def attr_enc_def get_skips)

lemma entry_out_nodeid [simp]: "entry_nodeid (entry_out n a @ r) = n"
  by (simp add: entry_nodeid_def entry_out_def)

lemma entry_out_attr [simp]: "entry_attr (entry_out n a @ r) = a"
  by (simp add: entry_attr_def entry_out_def attr_dec_enc)

lemma attr_out_attr_enc [simp]: "attr_out_attr (attr_out a @ r) = a"
  by (simp add: attr_out_attr_def attr_out_def attr_dec_enc)

lemma dirent_align_ge: "x \<le> dirent_align x"
  by (simp add: dirent_align_def)

lemma dirent_align_less: "dirent_align x < x + 8"
  unfolding dirent_align_def by presburger

lemma dirent_align_dvd: "8 dvd dirent_align x"
  by (simp add: dirent_align_def)

lemma length_dirent_enc [simp, buf_simps]:
  "length (dirent_enc i off t n) = dirent_align (24 + length n)"
  using dirent_align_ge [of "24 + length n"] by (simp add: dirent_enc_def)

end
