(* ===== verification/Fused.thy ===== *)
theory Fused
  imports FusePath FuseWire
begin

text \<open>
  The FUSE engine of \<^verbatim>\<open>proot/patches/fused.c\<close>: one request/reply exchange (\<open>xfer\<close>),
  path resolution with symbolic links (\<open>resolve_x\<close>), the life cycle and every
  read-side and write-side operation.

  The transport, the channel descriptor and memory allocation are parameters,
  collected in the record \<open>fio\<close>. They act on the whole state, engine included,
  because a transport that waits may run other operations of the same engine.
  An operation is a function from the state to a result and the next state; \<open>Inl\<close>
  carries a negative error number and \<open>Inr\<close> what the C function returns or stores
  through its output pointers.
\<close>

section \<open>Parameters and sequencing\<close>

type_synonym 'w st = "fused \<times> 'w"

type_synonym ('a, 'w) op = "'w st \<Rightarrow> (int + 'a) \<times> 'w st"

text \<open>
  \<open>sys_write\<close> and \<open>sys_read\<close> are the outcomes of the first call that is not
  interrupted (both loops of the source retry on EINTR), \<open>Inl\<close> the error number.
\<close>

record 'w fio =
  io_send :: "(bytes \<Rightarrow> 'w st \<Rightarrow> int \<times> 'w st) option"
  io_recv :: "(nat \<Rightarrow> u64 \<Rightarrow> 'w st \<Rightarrow> (int + bytes) \<times> 'w st) option"
  sys_write :: "int \<Rightarrow> bytes \<Rightarrow> 'w \<Rightarrow> (int + nat) \<times> 'w"
  sys_read :: "int \<Rightarrow> nat \<Rightarrow> 'w \<Rightarrow> (int + bytes) \<times> 'w"
  sys_alloc :: "'w allocator"

definition rret :: "'a \<Rightarrow> ('a, 'w) op" where
  "rret a = (\<lambda>s. (Inr a, s))"

definition rfail :: "int \<Rightarrow> ('a, 'w) op" where
  "rfail e = (\<lambda>s. (Inl e, s))"

text \<open>\<^verbatim>\<open>rc = m(...); if (rc) return rc;\<close> followed by the rest \<open>k\<close>.\<close>

definition rbind :: "('a, 'w) op \<Rightarrow> ('a \<Rightarrow> ('b, 'w) op) \<Rightarrow> ('b, 'w) op" where
  "rbind m k = (\<lambda>s. case m s of (Inl e, s') \<Rightarrow> (Inl e, s') | (Inr a, s') \<Rightarrow> k a s')"

section \<open>Transport\<close>

definition fused_set_io ::
  "(bytes \<Rightarrow> 'w st \<Rightarrow> int \<times> 'w st) \<Rightarrow> (nat \<Rightarrow> u64 \<Rightarrow> 'w st \<Rightarrow> (int + bytes) \<times> 'w st) \<Rightarrow> 'w fio \<Rightarrow> 'w fio" where
  "fused_set_io snd_cb rcv_cb io = io\<lparr>io_send := Some snd_cb, io_recv := Some rcv_cb\<rparr>"

definition tx_send :: "'w fio \<Rightarrow> bytes \<Rightarrow> 'w st \<Rightarrow> int \<times> 'w st" where
  "tx_send io buf = (\<lambda>(f, w).
     case io_send io of
       Some cb \<Rightarrow> let (r, s') = cb buf (f, w) in (if r < 0 then r else 0, s')
     | None \<Rightarrow>
         (case sys_write io (f_fd f) buf w of
            (Inl e, w') \<Rightarrow> (- e, (f, w'))
          | (Inr n, w') \<Rightarrow> (if n \<noteq> length buf then - EIO else 0, (f, w'))))"

definition tx_recv :: "'w fio \<Rightarrow> nat \<Rightarrow> u64 \<Rightarrow> 'w st \<Rightarrow> (int + bytes) \<times> 'w st" where
  "tx_recv io cap u = (\<lambda>(f, w).
     case io_recv io of
       Some cb \<Rightarrow> cb cap u (f, w)
     | None \<Rightarrow>
         (case sys_read io (f_fd f) cap w of
            (Inl e, w') \<Rightarrow> (Inl (- e), (f, w'))
          | (Inr b, w') \<Rightarrow> (Inr b, (f, w'))))"

text \<open>The checks on a received message: length, error field, body.\<close>

definition fuse_reply :: "bytes \<Rightarrow> int + bytes" where
  "fuse_reply m =
     (if length m < 16 then Inl (- EIO)
      else let e = sint (get32 4 m) in
           if e \<noteq> 0 then Inl (if e < 0 then e else - e) else Inr (drop 16 m))"

text \<open>One message out with the next \<open>unique\<close>, one message in.\<close>

definition exchange :: "'w fio \<Rightarrow> u32 \<Rightarrow> u64 \<Rightarrow> bytes \<Rightarrow> (bytes, 'w) op" where
  "exchange io opcode nodeid body = (\<lambda>(f, w).
     let (ok, w1) = sys_alloc io FUSED_MSGCAP w in
     if \<not> ok then (Inl (- ENOMEM), (f, w1))
     else
       let f1 = f\<lparr>f_unique := f_unique f + 1\<rparr>;
           (sr, s2) = tx_send io (fuse_in_header f1 (40 + length body) opcode nodeid @ body) (f1, w1) in
       if sr < 0 then (Inl sr, s2)
       else
         (case tx_recv io FUSED_MSGCAP (f_unique f1) s2 of
            (Inl r, s3) \<Rightarrow> (Inl r, s3)
          | (Inr m, s3) \<Rightarrow> (fuse_reply m, s3)))"

text \<open>
  \<open>xfer io opcode nodeid body outcap\<close> returns the at most \<open>outcap\<close> bytes copied out
  and the full length of the reply body.
\<close>

definition xfer :: "'w fio \<Rightarrow> u32 \<Rightarrow> u64 \<Rightarrow> bytes \<Rightarrow> nat \<Rightarrow> (bytes \<times> nat, 'w) op" where
  "xfer io opcode nodeid body outcap =
     (if FUSED_MSGCAP < 40 + length body then rfail (- EINVAL)
      else rbind (exchange io opcode nodeid body) (\<lambda>b. rret (take outcap b, length b)))"

definition xfer_noreply :: "'w fio \<Rightarrow> u32 \<Rightarrow> u64 \<Rightarrow> bytes \<Rightarrow> 'w st \<Rightarrow> 'w st" where
  "xfer_noreply io opcode nodeid body = (\<lambda>(f, w).
     if FUSED_MSGCAP < 40 + length body then (f, w)
     else
       let (ok, w1) = sys_alloc io (40 + length body) w in
       if \<not> ok then (f, w1)
       else
         let f1 = f\<lparr>f_unique := f_unique f + 1\<rparr> in
         snd (tx_send io (fuse_in_header f1 (40 + length body) opcode nodeid @ body) (f1, w1)))"

section \<open>Path resolution\<close>

definition do_lookup :: "'w fio \<Rightarrow> u64 \<Rightarrow> string \<Rightarrow> (bytes, 'w) op" where
  "do_lookup io parent name =
     rbind (xfer io FUSE_LOOKUP parent (name @ [NUL]) 128)
       (\<lambda>(eo, ol). if ol < 128 then rfail (- EIO) else rret eo)"

text \<open>One component: at most 255 bytes up to the next slash.\<close>

definition next_comp :: "string \<Rightarrow> string" where
  "next_comp p = takeWhile (\<lambda>c. c \<noteq> SLASH) (take 255 p)"

definition is_lnk :: "u32 \<Rightarrow> bool" where
  "is_lnk mode \<longleftrightarrow> and mode 0xF000 = 0xA000"

datatype walk_res = WErr int | WDone u64 | WRestart string

text \<open>The child path that is cached, and the path to restart with at a symbolic link.\<close>

definition child_path :: "string \<Rightarrow> string \<Rightarrow> string" where
  "child_path curdir cmp =
     (if length curdir = 1 then snprintf_n 4096 (SLASH # cmp)
      else snprintf_n 4096 (curdir @ SLASH # cmp))"

definition link_path :: "string \<Rightarrow> string \<Rightarrow> string \<Rightarrow> string" where
  "link_path curdir tgt rest =
     normpath
       (if take 1 tgt = ''/'' then snprintf_n 8192 (tgt @ SLASH # rest)
        else snprintf_n 8192 (curdir @ SLASH # tgt @ SLASH # rest)) 4096"

lemma next_comp_shorter:
  assumes "p \<noteq> []"
  shows "length (dropWhile (\<lambda>c. c = SLASH) (drop (length (next_comp p)) p)) < length p"
proof (cases "next_comp p")
  case Nil
  with assms obtain q where "p = SLASH # q" by (cases p) (auto simp: next_comp_def split: if_splits)
  with Nil show ?thesis by (simp add: length_dropWhile_le less_Suc_eq_le)
next
  case (Cons c cs)
  have "length (dropWhile (\<lambda>c. c = SLASH) (drop (length (next_comp p)) p)) \<le> length (drop (length (next_comp p)) p)"
    by (rule length_dropWhile_le)
  also have "\<dots> < length p" using assms Cons by (cases p) auto
  finally show ?thesis .
qed

function walk :: "'w fio \<Rightarrow> bool \<Rightarrow> u64 \<Rightarrow> string \<Rightarrow> string \<Rightarrow> 'w st \<Rightarrow> walk_res \<times> 'w st" where
  "walk io follow_final cur curdir p s =
     (if p = [] then (WDone cur, s)
      else
        let cmp = next_comp p;
            p1 = drop (length cmp) p;
            is_last = (p1 = []);
            p2 = dropWhile (\<lambda>c. c = SLASH) p1 in
        case do_lookup io cur cmp s of
          (Inl rc, s1) \<Rightarrow> (WErr rc, s1)
        | (Inr eo, s1) \<Rightarrow>
            let child = child_path curdir cmp;
                s2 = cache_put (sys_alloc io) child (entry_nodeid eo) s1 in
            if is_lnk (fa_mode (entry_attr eo)) \<and> (\<not> is_last \<or> follow_final) then
              (case xfer io FUSE_READLINK (entry_nodeid eo) [] 4095 s2 of
                 (Inl rc, s3) \<Rightarrow> (WErr rc, s3)
               | (Inr (tgt, bl), s3) \<Rightarrow>
                   (WRestart (link_path curdir (cstr (take (min bl 4095) tgt)) p2), s3))
            else walk io follow_final (entry_nodeid eo) (snprintf_n 4096 child) p2 s2)"
  by pat_completeness auto

termination walk
  by (relation "measure (\<lambda>(io, ff, cur, cd, p, s). length p)") (auto simp: next_comp_shorter)

declare walk.simps [simp del]

text \<open>At most 40 passes; each restart uses one.\<close>

fun resolve_loop :: "'w fio \<Rightarrow> bool \<Rightarrow> nat \<Rightarrow> string \<Rightarrow> (u64, 'w) op" where
  "resolve_loop io follow_final 0 path s = (Inl (- ELOOP), s)"
| "resolve_loop io follow_final (Suc n) path s =
     (if path = ''/'' then (Inr FUSE_ROOT_ID, s)
      else
        case walk io follow_final FUSE_ROOT_ID ''/'' (tl path) s of
          (WErr rc, s1) \<Rightarrow> (Inl rc, s1)
        | (WDone nid, s1) \<Rightarrow> (Inr nid, s1)
        | (WRestart path', s1) \<Rightarrow> resolve_loop io follow_final n path' s1)"

definition resolve_x :: "'w fio \<Rightarrow> string \<Rightarrow> bool \<Rightarrow> (u64, 'w) op" where
  "resolve_x io rawpath follow_final = resolve_loop io follow_final 40 (normpath rawpath 4096)"

definition resolve :: "'w fio \<Rightarrow> string \<Rightarrow> (u64, 'w) op" where
  "resolve io path = resolve_x io path True"

definition resolve_parent :: "'w fio \<Rightarrow> string \<Rightarrow> nat \<Rightarrow> (u64 \<times> string, 'w) op" where
  "resolve_parent io path bcap =
     (let (dir, base) = split_path path 4096 bcap in
      rbind (resolve io dir) (\<lambda>parent. rret (parent, base)))"

section \<open>Life cycle\<close>

definition fused_new :: "'w allocator \<Rightarrow> int \<Rightarrow> u32 \<Rightarrow> u32 \<Rightarrow> u32 \<Rightarrow> 'w \<Rightarrow> fused option \<times> 'w" where
  "fused_new al chan_fd uid gid getpid w =
     (let (ok, w') = al 88 w in
      if \<not> ok then (None, w')
      else (Some (fused_zero\<lparr>f_fd := chan_fd, f_uid := uid, f_gid := gid, f_pid := getpid,
              f_unique := 0, f_max_write := word_of_nat FUSED_MAXDATA\<rparr>), w'))"

definition fused_init :: "'w fio \<Rightarrow> (unit, 'w) op" where
  "fused_init io =
     rbind (xfer io FUSE_INIT 0 fuse_init_in 64) (\<lambda>(out, ol) (f, w).
       if ol < 8 then (Inl (- EPROTO), (f, w))
       else if get32 0 out \<noteq> FUSE_KERNEL_VERSION then (Inl (- EPROTO), (f, w))
       else
         let mw = get32 20 out;
             f1 = f\<lparr>f_proto_minor := get32 4 out\<rparr>;
             f2 = (if 24 \<le> ol \<and> mw \<noteq> 0
                   then f1\<lparr>f_max_write := (if unat mw < FUSED_MAXDATA then mw else word_of_nat FUSED_MAXDATA)\<rparr>
                   else f1) in
         (Inr (), (f2\<lparr>f_inited := True\<rparr>, w)))"

text \<open>
  The loop over the cache reads \<^verbatim>\<open>nnodes\<close> and \<^verbatim>\<open>nodes[i]\<close> afresh in every round, since
  sending may run code that changes the engine; not ending is \<open>None\<close>.
\<close>

partial_function (option) forget_loop :: "'w fio \<Rightarrow> nat \<Rightarrow> 'w st \<Rightarrow> 'w st option" where
  "forget_loop io i s =
     (if i < length (f_nodes (fst s))
      then forget_loop io (Suc i)
             (xfer_noreply io FUSE_FORGET (fn_nodeid (f_nodes (fst s) ! i)) (fuse_forget_in 1) s)
      else Some s)"

text \<open>The engine is freed at the end: only the world is left.\<close>

definition fused_destroy :: "'w fio \<Rightarrow> 'w st \<Rightarrow> 'w option" where
  "fused_destroy io s =
     (if f_inited (fst s)
      then map_option (\<lambda>s1. snd (xfer_noreply io FUSE_DESTROY 0 [] s1)) (forget_loop io 0 s)
      else Some (snd s))"

section \<open>Read-side operations\<close>

definition fused_getattr :: "'w fio \<Rightarrow> string \<Rightarrow> (stat, 'w) op" where
  "fused_getattr io path =
     rbind (resolve io path) (\<lambda>nid.
     rbind (xfer io FUSE_GETATTR nid fuse_getattr_in 104) (\<lambda>(out, ol).
       if ol < 104 then rfail (- EIO) else rret (attr_to_stat (attr_out_attr out))))"

definition fused_readlink :: "'w fio \<Rightarrow> string \<Rightarrow> nat \<Rightarrow> (bytes, 'w) op" where
  "fused_readlink io path cap =
     rbind (resolve_x io path False) (\<lambda>nid.
     rbind (xfer io FUSE_READLINK nid [] (cap - 1)) (\<lambda>(buf, bl).
       rret (take (if cap \<le> bl then cap - 1 else bl) buf)))"

text \<open>A daemon that does not implement the request answers ENOSYS, which counts as success.\<close>

definition nosys_ok :: "(unit, 'w) op \<Rightarrow> (unit, 'w) op" where
  "nosys_ok m = (\<lambda>s. case m s of
     (Inl e, s') \<Rightarrow> (if e = - ENOSYS then Inr () else Inl e, s')
   | (Inr a, s') \<Rightarrow> (Inr a, s'))"

text \<open>\<^verbatim>\<open>xfer(..., NULL, 0, NULL)\<close>: only the status is used.\<close>

definition xfer_unit :: "'w fio \<Rightarrow> u32 \<Rightarrow> u64 \<Rightarrow> bytes \<Rightarrow> (unit, 'w) op" where
  "xfer_unit io opcode nodeid body = rbind (xfer io opcode nodeid body 0) (\<lambda>_. rret ())"

definition fused_access :: "'w fio \<Rightarrow> string \<Rightarrow> int \<Rightarrow> (unit, 'w) op" where
  "fused_access io path msk =
     rbind (resolve io path) (\<lambda>nid.
       nosys_ok (xfer_unit io FUSE_ACCESS nid (fuse_access_in (word_of_int msk))))"

definition fused_statfs :: "'w fio \<Rightarrow> string \<Rightarrow> (statvfs, 'w) op" where
  "fused_statfs io path = (\<lambda>s.
     let (r, s1) = resolve io path s;
         nid = (case r of Inl _ \<Rightarrow> FUSE_ROOT_ID | Inr n \<Rightarrow> n) in
     rbind (xfer io FUSE_STATFS nid [] 80) (\<lambda>(so, ol).
       if ol < 80 then rfail (- EIO) else rret (kstatfs_to_statvfs so)) s1)"

definition fused_open :: "'w fio \<Rightarrow> string \<Rightarrow> int \<Rightarrow> (u64, 'w) op" where
  "fused_open io path flags =
     rbind (resolve io path) (\<lambda>nid.
     rbind (xfer io FUSE_OPEN nid (fuse_open_in (word_of_int flags)) 16) (\<lambda>(out, ol).
       if ol < 16 then rfail (- EIO) else rret (get64 0 out)))"

text \<open>\<open>fused_read\<close> returns the bytes stored in the caller's buffer; their number is the result in C.\<close>

definition fused_read :: "'w fio \<Rightarrow> string \<Rightarrow> u64 \<Rightarrow> nat \<Rightarrow> int \<Rightarrow> (bytes, 'w) op" where
  "fused_read io path fh sz off =
     rbind (resolve io path) (\<lambda>nid (f, w).
       let n = (if unat (f_max_write f) < sz then unat (f_max_write f) else sz) in
       rbind (xfer io FUSE_READ nid (fuse_read_in fh (word_of_int off) (word_of_nat n)) n)
         (\<lambda>(buf, bl). rret (take (if n < bl then n else bl) buf)) (f, w))"

text \<open>\<open>fused_write\<close> builds its own message: header, \<^verbatim>\<open>fuse_write_in\<close>, data.\<close>

definition fused_write :: "'w fio \<Rightarrow> string \<Rightarrow> u64 \<Rightarrow> bytes \<Rightarrow> int \<Rightarrow> (int, 'w) op" where
  "fused_write io path fh buf off =
     rbind (resolve io path) (\<lambda>nid (f, w).
       let n0 = (if unat (f_max_write f) < length buf then unat (f_max_write f) else length buf);
           n = (if FUSED_MSGCAP < 40 + 40 + n0 then FUSED_MSGCAP - 40 - 40 else n0) in
       rbind (exchange io FUSE_WRITE nid (fuse_write_in fh (word_of_int off) (word_of_nat n) @ take n buf))
         (\<lambda>body. if length body < 8 then rfail (- EIO) else rret (sint (get32 0 body))) (f, w))"

definition fused_flush :: "'w fio \<Rightarrow> string \<Rightarrow> u64 \<Rightarrow> (unit, 'w) op" where
  "fused_flush io path fh =
     rbind (resolve io path) (\<lambda>nid. nosys_ok (xfer_unit io FUSE_FLUSH nid (fuse_flush_in fh)))"

definition fused_fsync :: "'w fio \<Rightarrow> string \<Rightarrow> u64 \<Rightarrow> bool \<Rightarrow> (unit, 'w) op" where
  "fused_fsync io path fh datasync =
     rbind (resolve io path) (\<lambda>nid.
       nosys_ok (xfer_unit io FUSE_FSYNC nid (fuse_fsync_in fh (if datasync then 1 else 0))))"

definition fused_release :: "'w fio \<Rightarrow> string \<Rightarrow> u64 \<Rightarrow> (unit, 'w) op" where
  "fused_release io path fh =
     rbind (resolve io path) (\<lambda>nid. nosys_ok (xfer_unit io FUSE_RELEASE nid (fuse_release_in fh)))"

text \<open>Running an operation for its effect only.\<close>

definition rignore :: "('a, 'w) op \<Rightarrow> 'w st \<Rightarrow> 'w st" where
  "rignore m s = snd (m s)"

definition fused_pread :: "'w fio \<Rightarrow> string \<Rightarrow> nat \<Rightarrow> int \<Rightarrow> (bytes, 'w) op" where
  "fused_pread io path sz off =
     rbind (fused_open io path 0) (\<lambda>fh s.
       let (n, s1) = fused_read io path fh sz off s in
       (n, rignore (fused_release io path fh) s1))"

definition fused_pwrite :: "'w fio \<Rightarrow> string \<Rightarrow> bytes \<Rightarrow> int \<Rightarrow> (int, 'w) op" where
  "fused_pwrite io path buf off =
     rbind (fused_open io path 1) (\<lambda>fh s.
       let (n, s1) = fused_write io path fh buf off s in
       (n, rignore (fused_release io path fh) (rignore (fused_flush io path fh) s1)))"

section \<open>Directory listing\<close>

text \<open>
  The inner loop over one READDIR body: entries emitted, the offset to resume at,
  and whether any entry was complete.
\<close>

function parse_dirents :: "bytes \<Rightarrow> u64 \<Rightarrow> bool \<Rightarrow> (string \<times> u32) list \<Rightarrow> (string \<times> u32) list \<times> u64 \<times> bool" where
  "parse_dirents b off progressed acc =
     (if 24 \<le> length b then
        let namelen = unat (get32 16 b);
            rec = dirent_align (24 + namelen) in
        if namelen = 0 \<or> length b < 24 + namelen then (acc, off, progressed)
        else parse_dirents (drop rec b) (get64 8 b) True
               (acc @ [(cstr (take (min namelen 255) (drop 24 b)), get32 20 b)])
      else (acc, off, progressed))"
  by pat_completeness auto

termination parse_dirents
  by (relation "measure (\<lambda>(b, off, pr, acc). length b)") (auto simp: dirent_align_def)

declare parse_dirents.simps [simp del]

text \<open>The outer loop ends only if the daemon reports the end; not ending is \<open>None\<close>.\<close>

partial_function (option) readdir_loop ::
  "'w fio \<Rightarrow> u64 \<Rightarrow> u64 \<Rightarrow> u64 \<Rightarrow> (string \<times> u32) list \<Rightarrow> 'w st \<Rightarrow> ((int \<times> (string \<times> u32) list) \<times> 'w st) option" where
  "readdir_loop io nid dh off acc s =
     (case xfer io FUSE_READDIR nid (fuse_read_in dh off 4096) 4096 s of
        (Inl rc, s1) \<Rightarrow> Some ((rc, acc), s1)
      | (Inr (body, bl), s1) \<Rightarrow>
          if bl = 0 then Some ((0, acc), s1)
          else
            let (acc', off', progressed) = parse_dirents body off False acc in
            if progressed then readdir_loop io nid dh off' acc' s1
            else Some ((0, acc'), s1))"

definition fused_readdir :: "'w fio \<Rightarrow> string \<Rightarrow> 'w st \<Rightarrow> ((int \<times> (string \<times> u32) list) \<times> 'w st) option" where
  "fused_readdir io path s =
     (case resolve io path s of
        (Inl rc, s1) \<Rightarrow> Some ((rc, []), s1)
      | (Inr nid, s1) \<Rightarrow>
          (case xfer io FUSE_OPENDIR nid (fuse_open_in 0) 16 s1 of
             (Inl rc, s2) \<Rightarrow>
               if rc \<noteq> - ENOSYS then Some ((rc, []), s2) else readdir_loop io nid 0 0 [] s2
           | (Inr (oout, ol), s2) \<Rightarrow>
               let dh = (if 16 \<le> ol then get64 0 oout else 0) in
               (case readdir_loop io nid dh 0 [] s2 of
                  None \<Rightarrow> None
                | Some (r, s3) \<Rightarrow>
                    Some (r, if dh \<noteq> 0
                             then rignore (xfer_unit io FUSE_RELEASEDIR nid (fuse_release_in dh)) s3
                             else s3))))"

section \<open>Write-side operations\<close>

definition put_node :: "'w fio \<Rightarrow> string \<Rightarrow> u64 \<Rightarrow> 'a \<Rightarrow> ('a, 'w) op" where
  "put_node io path nodeid a = (\<lambda>s. (Inr a, cache_put (sys_alloc io) path nodeid s))"

definition fused_create :: "'w fio \<Rightarrow> string \<Rightarrow> int \<Rightarrow> u32 \<Rightarrow> (u64, 'w) op" where
  "fused_create io path flags mode =
     rbind (resolve_parent io path 256) (\<lambda>(parent, base).
     rbind (xfer io FUSE_CREATE parent (fuse_create_in (word_of_int flags) mode @ base @ [NUL]) 144) (\<lambda>(out, ol).
       if ol < 144 then rfail (- EIO) else put_node io path (entry_nodeid out) (get64 128 out)))"

definition fused_mkdir :: "'w fio \<Rightarrow> string \<Rightarrow> u32 \<Rightarrow> (unit, 'w) op" where
  "fused_mkdir io path mode =
     rbind (resolve_parent io path 256) (\<lambda>(parent, base).
     rbind (xfer io FUSE_MKDIR parent (fuse_mkdir_in mode @ base @ [NUL]) 128) (\<lambda>(eo, ol).
       if 128 \<le> ol then put_node io path (entry_nodeid eo) () else rret ()))"

definition drop_node :: "string \<Rightarrow> (unit, 'w) op" where
  "drop_node path = (\<lambda>(f, w). (Inr (), (cache_drop path f, w)))"

definition name_op :: "'w fio \<Rightarrow> u32 \<Rightarrow> string \<Rightarrow> (unit, 'w) op" where
  "name_op io opcode path =
     rbind (resolve_parent io path 256) (\<lambda>(parent, base).
     rbind (xfer_unit io opcode parent (base @ [NUL])) (\<lambda>_. drop_node path))"

definition fused_unlink :: "'w fio \<Rightarrow> string \<Rightarrow> (unit, 'w) op" where
  "fused_unlink io path = name_op io FUSE_UNLINK path"

definition fused_rmdir :: "'w fio \<Rightarrow> string \<Rightarrow> (unit, 'w) op" where
  "fused_rmdir io path = name_op io FUSE_RMDIR path"

definition fused_rename :: "'w fio \<Rightarrow> string \<Rightarrow> string \<Rightarrow> (unit, 'w) op" where
  "fused_rename io from to =
     rbind (resolve_parent io from 256) (\<lambda>(oldp, ob).
     rbind (resolve_parent io to 256) (\<lambda>(newp, nb).
       if 8 + 512 < 8 + (length ob + 1) + (length nb + 1) then rfail (- ENAMETOOLONG)
       else
         rbind (xfer_unit io FUSE_RENAME oldp (fuse_rename_in newp @ (ob @ [NUL]) @ (nb @ [NUL])))
           (\<lambda>_. rbind (drop_node from) (\<lambda>_. drop_node to))))"

definition fused_symlink :: "'w fio \<Rightarrow> string \<Rightarrow> string \<Rightarrow> (unit, 'w) op" where
  "fused_symlink io tgt linkpath =
     rbind (resolve_parent io linkpath 256) (\<lambda>(parent, base).
       if 512 + 4096 < (length base + 1) + (length tgt + 1) then rfail (- ENAMETOOLONG)
       else
         rbind (xfer io FUSE_SYMLINK parent ((base @ [NUL]) @ (tgt @ [NUL])) 128) (\<lambda>(eo, ol).
           if 128 \<le> ol then put_node io linkpath (entry_nodeid eo) () else rret ()))"

definition setattr :: "'w fio \<Rightarrow> string \<Rightarrow> u32 \<Rightarrow> fuse_setattr_in \<Rightarrow> (unit, 'w) op" where
  "setattr io path valid src =
     rbind (resolve io path) (\<lambda>nid.
     rbind (xfer io FUSE_SETATTR nid (setattr_bytes valid src) 104) (\<lambda>_. rret ()))"

definition fused_truncate :: "'w fio \<Rightarrow> string \<Rightarrow> int \<Rightarrow> (unit, 'w) op" where
  "fused_truncate io path sz =
     setattr io path FATTR_SIZE (setattr_zero\<lparr>sa_size := word_of_int sz\<rparr>)"

definition fused_chmod :: "'w fio \<Rightarrow> string \<Rightarrow> u32 \<Rightarrow> (unit, 'w) op" where
  "fused_chmod io path mode = setattr io path FATTR_MODE (setattr_zero\<lparr>sa_mode := mode\<rparr>)"

definition fused_chown :: "'w fio \<Rightarrow> string \<Rightarrow> u32 \<Rightarrow> u32 \<Rightarrow> (unit, 'w) op" where
  "fused_chown io path uid gid =
     (let (v1, a1) = (if uid \<noteq> - 1 then (FATTR_UID, setattr_zero\<lparr>sa_uid := uid\<rparr>) else (0, setattr_zero));
          (v2, a2) = (if gid \<noteq> - 1 then (or v1 FATTR_GID, a1\<lparr>sa_gid := gid\<rparr>) else (v1, a1)) in
      if v2 = 0 then rret () else setattr io path v2 a2)"

text \<open>A \<^verbatim>\<open>struct timespec\<close> is a pair of seconds and nanoseconds.\<close>

definition fused_utimens :: "'w fio \<Rightarrow> string \<Rightarrow> int \<times> int \<Rightarrow> int \<times> int \<Rightarrow> (unit, 'w) op" where
  "fused_utimens io path tv0 tv1 =
     setattr io path (or FATTR_ATIME FATTR_MTIME)
       (setattr_zero\<lparr>sa_atime := word_of_int (fst tv0), sa_atimensec := word_of_int (snd tv0),
          sa_mtime := word_of_int (fst tv1), sa_mtimensec := word_of_int (snd tv1)\<rparr>)"

section \<open>Sequencing lemmas\<close>

named_theorems op_simps \<open>evaluation of sequenced operations\<close>

lemma rbind_Inl [op_simps]: "m s = (Inl e, s') \<Longrightarrow> rbind m k s = (Inl e, s')"
  by (simp add: rbind_def)

lemma rbind_Inr [op_simps]: "m s = (Inr a, s') \<Longrightarrow> rbind m k s = k a s'"
  by (simp add: rbind_def)

lemma rret_apply [simp, op_simps]: "rret a s = (Inr a, s)"
  by (simp add: rret_def)

lemma rfail_apply [simp, op_simps]: "rfail e s = (Inl e, s)"
  by (simp add: rfail_def)

lemma rbind_rret [simp]: "rbind (rret a) k = k a"
  by (simp add: rbind_def rret_def)

lemma rbind_rfail [simp]: "rbind (rfail e) k = rfail e"
  by (auto simp: rbind_def rfail_def)

lemma rbind_assoc: "rbind (rbind m k) h = rbind m (\<lambda>a. rbind (k a) h)"
  by (auto simp: rbind_def split: prod.splits sum.splits)

lemma rbind_InrE:
  assumes "rbind m k s = (Inr b, s'')"
  obtains a s' where "m s = (Inr a, s')" "k a s' = (Inr b, s'')"
  using assms by (auto simp: rbind_def split: prod.splits sum.splits)

lemma rbind_InlE:
  assumes "rbind m k s = (Inl e, s'')"
  obtains "m s = (Inl e, s'')" | a s' where "m s = (Inr a, s')" "k a s' = (Inl e, s'')"
  using assms by (auto simp: rbind_def split: prod.splits sum.splits)

text \<open>An accepted message has a full header and a zero error field; a rejected one gives a negative number.\<close>

lemma fuse_reply_Inr: "fuse_reply m = Inr b \<longleftrightarrow> 16 \<le> length m \<and> get32 4 m = 0 \<and> b = drop 16 m"
  by (auto simp: fuse_reply_def Let_def signed_eq_0_iff)

lemma fuse_reply_Inl: "fuse_reply m = Inl e \<Longrightarrow> e < 0"
  by (auto simp: fuse_reply_def Let_def errno_defs split: if_splits)

lemma xfer_InrD:
  assumes "xfer io opcode nid body outcap s = (Inr (out, n), s')"
  shows "\<exists>b. out = take outcap b \<and> n = length b"
  using assms by (auto simp: xfer_def elim!: rbind_InrE split: if_splits)

end
