(* ===== verification/FusedServer.thy ===== *)
theory FusedServer
  imports Fused
begin

text \<open>
  Path resolution against a daemon. \<open>fuse_server\<close> is the contract of a transport
  with a daemon behind it: every request is answered, on the same exchange, by a
  function of the request. \<open>fuse_fs\<close> adds that the daemon serves a file tree,
  given by its lookup and readlink functions. Inside it \<open>resolve_x\<close> is shown to
  compute the abstract resolution \<open>nresolve\<close>, which works on component lists and
  knows nothing of buffers, messages or caches.
\<close>

section \<open>Abstract resolution\<close>

datatype nres = NErr int | NDone u64 | NRestart "string list"

type_synonym lookup_fn = "u64 \<Rightarrow> string \<Rightarrow> int + u64 \<times> fuse_attr"
type_synonym readlink_fn = "u64 \<Rightarrow> string"

definition link_comps :: "string list \<Rightarrow> string \<Rightarrow> string list \<Rightarrow> string list" where
  "link_comps prefix tgt rest =
     foldl norm_push [] ((if take 1 tgt = ''/'' then [] else prefix) @ components tgt @ rest)"

fun nwalk :: "lookup_fn \<Rightarrow> readlink_fn \<Rightarrow> bool \<Rightarrow> u64 \<Rightarrow> string list \<Rightarrow> string list \<Rightarrow> nres" where
  "nwalk lk rl follow cur prefix [] = NDone cur"
| "nwalk lk rl follow cur prefix (c # rest) =
     (case lk cur c of
        Inl e \<Rightarrow> NErr e
      | Inr (nid, a) \<Rightarrow>
          if is_lnk (fa_mode a) \<and> (rest \<noteq> [] \<or> follow) then NRestart (link_comps prefix (rl nid) rest)
          else nwalk lk rl follow nid (prefix @ [c]) rest)"

text \<open>The sizes the engine's buffers can hold; outside them the abstract resolution is undefined.\<close>

definition name_ok :: "string \<Rightarrow> bool" where
  "name_ok c \<longleftrightarrow> proper_seg c \<and> length c \<le> 255 \<and> NUL \<notin> set c"

definition path_ok :: "string list \<Rightarrow> bool" where
  "path_ok cs \<longleftrightarrow> list_all name_ok cs \<and> length cs \<le> 256 \<and> length (render cs) < 4096"

fun nresolve :: "lookup_fn \<Rightarrow> readlink_fn \<Rightarrow> bool \<Rightarrow> nat \<Rightarrow> string list \<Rightarrow> (int + u64) option" where
  "nresolve lk rl follow 0 cs = Some (Inl (- ELOOP))"
| "nresolve lk rl follow (Suc n) cs =
     (if \<not> path_ok cs then None
      else case nwalk lk rl follow FUSE_ROOT_ID [] cs of
             NErr e \<Rightarrow> Some (Inl e)
           | NDone nid \<Rightarrow> Some (Inr nid)
           | NRestart cs' \<Rightarrow> nresolve lk rl follow n cs')"

text \<open>How an abstract outcome appears in the engine: a restart carries the rendered path.\<close>

fun walk_of :: "nres \<Rightarrow> walk_res" where
  "walk_of (NErr e) = WErr e"
| "walk_of (NDone n) = WDone n"
| "walk_of (NRestart cs) = WRestart (snprintf_n 4096 (render cs))"

section \<open>Paths as component lists\<close>

definition jn :: "string list \<Rightarrow> string" where
  "jn cs = drop 1 (concat (map (\<lambda>s. SLASH # s) cs))"

lemma jn_Nil [simp]: "jn [] = []"
  by (simp add: jn_def)

lemma jn_Cons: "jn (c # cs) = c @ concat (map (\<lambda>s. SLASH # s) cs)"
  by (simp add: jn_def)

lemma tl_render: "cs \<noteq> [] \<Longrightarrow> tl (render cs) = jn cs"
  by (cases cs) (simp_all add: render_def jn_def)

lemma components_jn: "list_all is_seg cs \<Longrightarrow> components (jn cs) = cs"
  using components_render [of cs] components_SLASH [of "jn cs"]
  by (cases cs) (simp_all add: render_def jn_def)

lemma split_at_SLASH:
  obtains "SLASH \<notin> set a" | u r where "a = u @ SLASH # r" "SLASH \<notin> set u"
  by (meson split_list_first)

lemma components_append_SLASH: "components (a @ SLASH # b) = components a @ components b"
proof (induction "length a" arbitrary: a rule: less_induct)
  case less
  show ?case
  proof (cases a rule: split_at_SLASH)
    case 1
    show ?thesis
    proof (cases "a = []")
      case False
      with 1 have "is_seg a" by (simp add: is_seg_def)
      then show ?thesis by (simp add: components_seg components_seg_append)
    qed simp
  next
    case (2 u r)
    have IH: "components (r @ SLASH # b) = components r @ components b"
      using less [of r] 2(1) by simp
    show ?thesis
    proof (cases "u = []")
      case True
      with 2 IH show ?thesis by simp
    next
      case False
      with 2(2) have "is_seg u" by (simp add: is_seg_def)
      then show ?thesis
        using IH components_seg_append [of u r] components_seg_append [of u "r @ SLASH # b"] 2(1) by simp
    qed
  qed
qed

lemma next_comp_jn:
  assumes "name_ok c" and "list_all is_seg rest"
  shows "next_comp (jn (c # rest)) = c"
    and "drop (length c) (jn (c # rest)) = concat (map (\<lambda>s. SLASH # s) rest)"
    and "dropWhile (\<lambda>x. x = SLASH) (concat (map (\<lambda>s. SLASH # s) rest)) = jn rest"
proof -
  from assms(1) have c: "SLASH \<notin> set c" "length c \<le> 255" by (auto simp: name_ok_def proper_seg_def is_seg_def)
  have t: "takeWhile (\<lambda>x. x \<noteq> SLASH) (c @ take k (concat (map (\<lambda>s. SLASH # s) rest))) = c" for k
    using c by (cases rest; cases k) (auto simp: takeWhile_append2 intro: takeWhile_seg)
  show "next_comp (jn (c # rest)) = c"
    using c t by (simp add: next_comp_def jn_Cons)
  show "drop (length c) (jn (c # rest)) = concat (map (\<lambda>s. SLASH # s) rest)"
    by (simp add: jn_Cons)
  show "dropWhile (\<lambda>x. x = SLASH) (concat (map (\<lambda>s. SLASH # s) rest)) = jn rest"
    using assms(2) by (cases rest; cases "hd rest") (auto simp: jn_Cons is_seg_def)
qed

lemma render_length_1: "list_all is_seg cs \<Longrightarrow> length (render cs) = 1 \<longleftrightarrow> cs = []"
  by (cases cs; cases "hd cs") (auto simp: render_def is_seg_def)

lemma child_path_render:
  assumes "list_all is_seg cs" and "length (render (cs @ [c])) < 4096"
  shows "child_path (render cs) c = render (cs @ [c])"
proof (cases "cs = []")
  case True
  with assms(2) show ?thesis by (simp add: child_path_def render_def snprintf_n_fits)
next
  case False
  then have "length (render cs) \<noteq> 1" using render_length_1 [OF assms(1)] by simp
  moreover have "render (cs @ [c]) = render cs @ SLASH # c" using False by (simp add: render_snoc)
  ultimately show ?thesis using assms(2) by (simp add: child_path_def snprintf_n_fits)
qed

lemma length_render_append:
  "cs \<noteq> [] \<Longrightarrow> length (render (cs @ ds)) = length (render cs) + length (concat (map (\<lambda>s. SLASH # s) ds))"
  by (simp add: render_def)

lemma link_path_render:
  assumes "list_all is_seg (cs @ c # rest)" and "length (render (cs @ c # rest)) < 4096"
    and "length tgt \<le> 4095"
  shows "link_path (render cs) tgt (jn rest) = snprintf_n 4096 (render (link_comps cs tgt rest))"
proof -
  have "length (jn rest) + length (render cs) \<le> 4095 - 1"
    using assms(1,2) by (cases cs; cases c) (auto simp: render_def jn_def is_seg_def)
  then have l: "length (render cs @ SLASH # tgt @ SLASH # jn rest) < 8192"
    "length (tgt @ SLASH # jn rest) < 8192"
    using assms(3) by simp_all
  have seg: "list_all is_seg cs" "list_all is_seg rest" using assms(1) by simp_all
  have c: "components (tgt @ SLASH # jn rest) = components tgt @ rest"
    "components (render cs @ SLASH # tgt @ SLASH # jn rest) = cs @ components tgt @ rest"
    using components_append_SLASH [of "render cs" "tgt @ SLASH # jn rest"]
    by (simp_all add: components_append_SLASH components_render components_jn seg)
  show ?thesis
    by (simp only: link_path_def normpath_alt link_comps_def snprintf_n_fits [OF l(1)] snprintf_n_fits [OF l(2)])
       (simp add: c)
qed

section \<open>The contract of a transport with a daemon\<close>

text \<open>The message that \<open>exchange\<close> builds.\<close>

definition req :: "fused \<Rightarrow> u32 \<Rightarrow> u64 \<Rightarrow> bytes \<Rightarrow> bytes" where
  "req f opcode nid body =
     fuse_in_header (f\<lparr>f_unique := f_unique f + 1\<rparr>) (40 + length body) opcode nid @ body"

text \<open>
  \<open>I\<close> describes the worlds in which the daemon is up; \<open>srv\<close> is its answer to a request.
\<close>

locale fuse_server =
  fixes io :: "'w fio" and I :: "'w \<Rightarrow> bool" and srv :: "bytes \<Rightarrow> bytes"
  assumes alloc_ok: "I w \<Longrightarrow> fst (sys_alloc io n w) \<and> I (snd (sys_alloc io n w))"
    and serves: "I w \<Longrightarrow> 40 \<le> length m \<Longrightarrow> length m \<le> FUSED_MSGCAP \<Longrightarrow>
      \<exists>s1 w2. tx_send io m (f, w) = (0, s1) \<and>
        tx_recv io FUSED_MSGCAP (hdr_unique m) s1 = (Inr (srv m), (f, w2)) \<and> I w2"
begin

lemma exchange_served:
  assumes "I w" and "40 + length body \<le> FUSED_MSGCAP"
  shows "\<exists>w'. exchange io opcode nid body (f, w) =
      (fuse_reply (srv (req f opcode nid body)), (f\<lparr>f_unique := f_unique f + 1\<rparr>, w')) \<and> I w'"
proof -
  obtain w1 where a: "sys_alloc io FUSED_MSGCAP w = (True, w1)" "I w1"
    using alloc_ok [OF assms(1), of FUSED_MSGCAP] by (cases "sys_alloc io FUSED_MSGCAP w") auto
  let ?f = "f\<lparr>f_unique := f_unique f + 1\<rparr>"
  obtain s1 w2 where s: "tx_send io (req f opcode nid body) (?f, w1) = (0, s1)"
      "tx_recv io FUSED_MSGCAP (hdr_unique (req f opcode nid body)) s1 = (Inr (srv (req f opcode nid body)), (?f, w2))"
      "I w2"
    using serves [OF a(2), of "req f opcode nid body" ?f] assms(2) by (auto simp: req_def)
  have "hdr_unique (req f opcode nid body) = f_unique f + 1" by (simp add: req_def)
  with s have "exchange io opcode nid body (f, w) = (fuse_reply (srv (req f opcode nid body)), (?f, w2))"
    by (simp add: exchange_def a req_def Let_def)
  with s(3) show ?thesis by blast
qed

lemma xfer_served:
  assumes "I w" and "40 + length body \<le> FUSED_MSGCAP"
  shows "\<exists>w'. xfer io opcode nid body outcap (f, w) =
      (map_sum id (\<lambda>b. (take outcap b, length b)) (fuse_reply (srv (req f opcode nid body))),
       (f\<lparr>f_unique := f_unique f + 1\<rparr>, w')) \<and> I w'"
  using exchange_served [OF assms, of opcode nid f] assms(2)
  by (auto simp: xfer_def rbind_def split: sum.splits)

end

text \<open>The two forms of a reply.\<close>

definition reply_ok :: "u64 \<Rightarrow> bytes \<Rightarrow> bytes" where
  "reply_ok u b = out_header (16 + length b) 0 u @ b"

definition reply_err :: "u64 \<Rightarrow> int \<Rightarrow> bytes" where
  "reply_err u e = out_header 16 e u"

lemma fuse_reply_ok [simp]: "fuse_reply (reply_ok u b) = Inr b"
  by (simp add: fuse_reply_def reply_ok_def out_header_def get_skips)

lemma sint_errno: "- 4096 < e \<Longrightarrow> e < 0 \<Longrightarrow> sint (word_of_int e :: u32) = e"
  by (simp add: signed_take_bit_int_eq_self sint_sbintrunc')

lemma fuse_reply_err [simp]: "- 4096 < e \<Longrightarrow> e < 0 \<Longrightarrow> fuse_reply (reply_err u e) = Inl e"
  using get32_skip [of "le32 (word_of_nat 16)" 4 "le32 (word_of_int e) @ le64 u"]
  by (simp add: fuse_reply_def reply_err_def out_header_def sint_errno)

text \<open>
  A daemon that serves a file tree: LOOKUP answers with the node and its
  attributes or an error number, READLINK with a target that fits \<^verbatim>\<open>PATH_MAX\<close>.
\<close>

locale fuse_fs = fuse_server io I srv
  for io :: "'w fio" and I :: "'w \<Rightarrow> bool" and srv :: "bytes \<Rightarrow> bytes" +
  fixes lk :: lookup_fn and rl :: readlink_fn
  assumes lk_err: "lk n c = Inl e \<Longrightarrow> - 4096 < e \<and> e < 0"
    and rl_ok: "NUL \<notin> set (rl n) \<and> length (rl n) \<le> 4095"
    and srv_lookup: "hdr_opcode m = FUSE_LOOKUP \<Longrightarrow> drop 40 m = c @ [NUL] \<Longrightarrow> NUL \<notin> set c \<Longrightarrow>
      srv m = (case lk (hdr_nodeid m) c of
                 Inl e \<Rightarrow> reply_err (hdr_unique m) e
               | Inr (nid, a) \<Rightarrow> reply_ok (hdr_unique m) (entry_out nid a))"
    and srv_readlink: "hdr_opcode m = FUSE_READLINK \<Longrightarrow> drop 40 m = [] \<Longrightarrow>
      srv m = reply_ok (hdr_unique m) (rl (hdr_nodeid m))"
begin

lemma do_lookup_served:
  assumes "I w" and "length c \<le> 255" and "NUL \<notin> set c"
  shows "\<exists>s' w'. do_lookup io n c (f, w) =
      ((case lk n c of Inl e \<Rightarrow> Inl e | Inr (nid, a) \<Rightarrow> Inr (entry_out nid a)), (s', w')) \<and> I w'"
proof -
  let ?m = "req f FUSE_LOOKUP n (c @ [NUL])"
  have l: "40 + length (c @ [NUL]) \<le> FUSED_MSGCAP" using assms(2) by (simp add: cap_defs)
  have m: "hdr_opcode ?m = FUSE_LOOKUP" "drop 40 ?m = c @ [NUL]" "hdr_nodeid ?m = n" "NUL \<notin> set c"
    using assms(3) by (simp_all add: req_def)
  have "fuse_reply (srv ?m) = (case lk n c of Inl e \<Rightarrow> Inl e | Inr (nid, a) \<Rightarrow> Inr (entry_out nid a))"
    using srv_lookup [OF m(1,2,4)] m(3) lk_err by (auto split: sum.splits)
  then show ?thesis
    using xfer_served [OF assms(1) l, of FUSE_LOOKUP n 128 f]
    by (auto simp: do_lookup_def rbind_def split: sum.splits)
qed

lemma readlink_served:
  assumes "I w"
  shows "\<exists>s' w'. xfer io FUSE_READLINK n [] 4095 (f, w) = (Inr (rl n, length (rl n)), (s', w')) \<and> I w'"
proof -
  let ?m = "req f FUSE_READLINK n []"
  have "fuse_reply (srv ?m) = Inr (rl n)"
    using srv_readlink [of ?m] by (simp add: req_def hdr_fields [of _ _ _ _ "[]", simplified])
  then show ?thesis
    using xfer_served [OF assms, of "[]" FUSE_READLINK n 4095 f] rl_ok [of n] by (auto simp: cap_defs)
qed

lemma cache_append_up: "I w \<Longrightarrow> I (snd (cache_append (sys_alloc io) p v (f, w)))"
  using alloc_ok [of w "length p + 1"] by (simp add: cache_append_def split_beta)

lemma cache_put_up: "I w \<Longrightarrow> I (snd (cache_put (sys_alloc io) p v (f, w)))"
  using alloc_ok [of w] cache_append_up
  by (simp add: cache_put_def split_beta Let_def split: option.split)

lemma cache_put_served: "I w \<Longrightarrow> \<exists>f' w'. cache_put (sys_alloc io) p v (f, w) = (f', w') \<and> I w'"
  using cache_put_up [of w p v f] by (cases "cache_put (sys_alloc io) p v (f, w)") simp

lemma walk_served:
  assumes "I w" and "path_ok (prefix @ rest)"
  shows "\<exists>f' w'. walk io ff cur (render prefix) (jn rest) (f, w) =
      (walk_of (nwalk lk rl ff cur prefix rest), (f', w')) \<and> I w'"
  using assms
proof (induction rest arbitrary: cur prefix f w)
  case Nil
  then show ?case by (simp add: walk.simps)
next
  case (Cons c rest)
  have ok: "name_ok c" "list_all is_seg (prefix @ c # rest)" "list_all is_seg rest" "list_all is_seg prefix"
    "length (render (prefix @ c # rest)) < 4096" "path_ok ((prefix @ [c]) @ rest)"
    using Cons.prems(2) by (auto simp: path_ok_def name_ok_def proper_seg_def list_all_iff)
  have pc: "length (render (prefix @ [c])) < 4096"
    using ok(5) length_render_append [of "prefix @ [c]" rest] by simp
  have ne: "jn (c # rest) \<noteq> []" using ok(1) by (simp add: jn_Cons name_ok_def proper_seg_def is_seg_def)
  note nc = next_comp_jn [OF ok(1,3)]
  have last: "concat (map (\<lambda>s. SLASH # s) rest) = [] \<longleftrightarrow> rest = []" by (cases rest) simp_all
  obtain f1 w1 where l: "do_lookup io cur c (f, w) =
      ((case lk cur c of Inl e \<Rightarrow> Inl e | Inr (nid, a) \<Rightarrow> Inr (entry_out nid a)), (f1, w1))" "I w1"
    using do_lookup_served [OF Cons.prems(1), of c cur f] ok(1) by (auto simp: name_ok_def)
  show ?case
  proof (cases "lk cur c")
    case (Inl e)
    with l ne show ?thesis by (subst walk.simps) (simp add: nc Let_def)
  next
    case (Inr na)
    obtain nid a where na: "na = (nid, a)" by (cases na)
    have e: "entry_nodeid (entry_out nid a) = nid" "entry_attr (entry_out nid a) = a"
      using entry_out_nodeid [of nid a "[]"] entry_out_attr [of nid a "[]"] by simp_all
    obtain f2 w2 where c: "cache_put (sys_alloc io) (child_path (render prefix) c) nid (f1, w1) = (f2, w2)" "I w2"
      using cache_put_served [OF l(2)] by blast
    have cp: "snprintf_n 4096 (child_path (render prefix) c) = render (prefix @ [c])"
      using child_path_render [OF ok(4) pc] pc by (simp add: snprintf_n_fits)
    show ?thesis
    proof (cases "is_lnk (fa_mode a) \<and> (rest \<noteq> [] \<or> ff)")
      case True
      obtain f3 w3 where r: "xfer io FUSE_READLINK nid [] 4095 (f2, w2) = (Inr (rl nid, length (rl nid)), (f3, w3))" "I w3"
        using readlink_served [OF c(2)] by blast
      have "cstr (take (min (length (rl nid)) 4095) (rl nid)) = rl nid"
        using rl_ok [of nid] by (simp add: cstr_id)
      with True l Inr na ne c r show ?thesis
        using link_path_render [OF ok(2,5), of "rl nid"] rl_ok [of nid]
        by (subst walk.simps) (auto simp: nc Let_def e last)
    next
      case False
      obtain f3 w3 where r: "walk io ff nid (render (prefix @ [c])) (jn rest) (f2, w2) =
          (walk_of (nwalk lk rl ff nid (prefix @ [c]) rest), (f3, w3))" "I w3"
        using Cons.IH [OF c(2) ok(6)] by blast
      have "walk io ff cur (render prefix) (jn (c # rest)) (f, w) =
          walk io ff nid (render (prefix @ [c])) (jn rest) (f2, w2)"
        using False l Inr na ne c cp by (subst walk.simps) (auto simp: nc Let_def e last)
      with r False Inr na show ?thesis by auto
    qed
  qed
qed

text \<open>One step of the walk that does not meet a symbolic link.\<close>

lemma walk_step:
  assumes "I w" and "p \<noteq> []" and "NUL \<notin> set (next_comp p)"
    and "lk cur (next_comp p) = Inr (nid, a)" and "\<not> is_lnk (fa_mode a)"
  shows "\<exists>f2 w2. walk io ff cur cd p (f, w) =
      walk io ff nid (snprintf_n 4096 (child_path cd (next_comp p)))
        (dropWhile (\<lambda>c. c = SLASH) (drop (length (next_comp p)) p)) (f2, w2) \<and> I w2"
proof -
  let ?c = "next_comp p"
  have "length ?c \<le> 255"
    by (metis length_take length_takeWhile_le min.boundedE next_comp_def)
  then obtain f1 w1 where l: "do_lookup io cur ?c (f, w) = (Inr (entry_out nid a), (f1, w1))" "I w1"
    using do_lookup_served [OF assms(1), of ?c cur f] assms(3,4) by auto
  have e: "entry_nodeid (entry_out nid a) = nid" "entry_attr (entry_out nid a) = a"
    using entry_out_nodeid [of nid a "[]"] entry_out_attr [of nid a "[]"] by simp_all
  obtain f2 w2 where c: "cache_put (sys_alloc io) (child_path cd ?c) nid (f1, w1) = (f2, w2)" "I w2"
    using cache_put_served [OF l(2)] by blast
  show ?thesis
    using assms(2,5) l c by (subst walk.simps) (auto simp: Let_def e)
qed

lemma resolve_loop_served:
  assumes "I w" and "nresolve lk rl ff n cs = Some r"
  shows "\<exists>s' w'. resolve_loop io ff n (snprintf_n 4096 (render cs)) (f, w) = (r, (s', w')) \<and> I w'"
  using assms
proof (induction n arbitrary: cs f w)
  case 0
  then show ?case by auto
next
  case (Suc n)
  then have ok: "path_ok cs" by (simp split: if_splits)
  then have fits: "snprintf_n 4096 (render cs) = render cs" by (simp add: path_ok_def snprintf_n_fits)
  show ?case
  proof (cases "cs = []")
    case True
    with Suc.prems ok show ?thesis by (auto simp: render_def snprintf_n_def)
  next
    case False
    have ns: "render cs \<noteq> ''/''"
      using False ok render_length_1 [of cs] by (auto simp: path_ok_def name_ok_def proper_seg_def list_all_iff)
    obtain f1 w1 where w: "walk io ff FUSE_ROOT_ID ''/'' (jn cs) (f, w) =
        (walk_of (nwalk lk rl ff FUSE_ROOT_ID [] cs), (f1, w1))" "I w1"
      using walk_served [OF Suc.prems(1), of "[]" cs ff FUSE_ROOT_ID f] ok by (auto simp: render_def)
    have step: "resolve_loop io ff (Suc n) (snprintf_n 4096 (render cs)) (f, w) =
        (case walk_of (nwalk lk rl ff FUSE_ROOT_ID [] cs) of
           WErr rc \<Rightarrow> (Inl rc, (f1, w1)) | WDone nid \<Rightarrow> (Inr nid, (f1, w1))
         | WRestart path' \<Rightarrow> resolve_loop io ff n path' (f1, w1))"
      by (simp add: fits ns tl_render [OF False] w(1) split: walk_res.split)
    show ?thesis
    proof (cases "nwalk lk rl ff FUSE_ROOT_ID [] cs")
      case (NRestart cs')
      then have "nresolve lk rl ff n cs' = Some r" using Suc.prems(2) ok by simp
      from Suc.IH [OF w(2) this, of f1] show ?thesis unfolding step by (simp add: NRestart)
    qed (unfold step, use Suc.prems(2) ok w(2) in simp_all)
  qed
qed

lemma resolve_x_served:
  assumes "I w" and "nresolve lk rl ff 40 (norm_segs path) = Some r"
  shows "\<exists>s' w'. resolve_x io path ff (f, w) = (r, (s', w')) \<and> I w'"
  using resolve_loop_served [OF assms, of f] by (simp add: resolve_x_def normpath_render)

end

lemma resolve_loop_step:
  "0 < n \<Longrightarrow> path \<noteq> ''/'' \<Longrightarrow> walk io ff FUSE_ROOT_ID ''/'' (tl path) s = (WDone nid, s') \<Longrightarrow>
   resolve_loop io ff n path s = (Inr nid, s')"
  by (cases n) simp_all

section \<open>A synchronous daemon\<close>

text \<open>
  A transport that hands each request to a daemon function and keeps its answer
  until it is collected: the host test set-up of the engine. The world is the
  pending answer.
\<close>

definition direct_io :: "(bytes \<Rightarrow> bytes) \<Rightarrow> bytes option fio" where
  "direct_io srv = \<lparr>
     io_send = Some (\<lambda>m (f, w). (0, (f, Some (srv m)))),
     io_recv = Some (\<lambda>cap u (f, w). case w of None \<Rightarrow> (Inl (- EIO), (f, w)) | Some b \<Rightarrow> (Inr b, (f, None))),
     sys_write = (\<lambda>fd m w. (Inl EIO, w)), sys_read = (\<lambda>fd n w. (Inl EIO, w)),
     sys_alloc = (\<lambda>n w. (True, w))\<rparr>"

text \<open>A daemon for a file tree given by its two functions; other requests get ENOSYS.\<close>

definition tree_srv :: "lookup_fn \<Rightarrow> readlink_fn \<Rightarrow> bytes \<Rightarrow> bytes" where
  "tree_srv lk rl m =
     (if hdr_opcode m = FUSE_LOOKUP then
        (case lk (hdr_nodeid m) (cstr (drop 40 m)) of
           Inl e \<Rightarrow> reply_err (hdr_unique m) e
         | Inr (nid, a) \<Rightarrow> reply_ok (hdr_unique m) (entry_out nid a))
      else if hdr_opcode m = FUSE_READLINK then reply_ok (hdr_unique m) (rl (hdr_nodeid m))
      else reply_err (hdr_unique m) (- ENOSYS))"

definition tree_ok :: "lookup_fn \<Rightarrow> readlink_fn \<Rightarrow> bool" where
  "tree_ok lk rl \<longleftrightarrow> (\<forall>n c e. lk n c = Inl e \<longrightarrow> - 4096 < e \<and> e < 0) \<and>
     (\<forall>n. NUL \<notin> set (rl n) \<and> length (rl n) \<le> 4095)"

lemma direct_fuse_server: "fuse_server (direct_io srv) (\<lambda>_. True) srv"
  by unfold_locales (auto simp: direct_io_def tx_send_def tx_recv_def)

lemma direct_fuse_fs:
  assumes "tree_ok lk rl"
  shows "fuse_fs (direct_io (tree_srv lk rl)) (\<lambda>_. True) (tree_srv lk rl) lk rl"
proof (intro fuse_fs.intro fuse_fs_axioms.intro)
  show "fuse_server (direct_io (tree_srv lk rl)) (\<lambda>_. True) (tree_srv lk rl)" by (rule direct_fuse_server)
next
  fix n c e assume "lk n c = Inl e" then show "- 4096 < e \<and> e < 0" using assms by (simp add: tree_ok_def)
next
  fix n show "NUL \<notin> set (rl n) \<and> length (rl n) \<le> 4095" using assms by (simp add: tree_ok_def)
next
  fix m c assume "hdr_opcode m = FUSE_LOOKUP" "drop 40 m = c @ [NUL]" "NUL \<notin> set c"
  then show "tree_srv lk rl m = (case lk (hdr_nodeid m) c of
      Inl e \<Rightarrow> reply_err (hdr_unique m) e | Inr (nid, a) \<Rightarrow> reply_ok (hdr_unique m) (entry_out nid a))"
    by (simp add: tree_srv_def cstr_append_NUL)
next
  fix m assume "hdr_opcode m = FUSE_READLINK" "drop 40 m = []"
  then show "tree_srv lk rl m = reply_ok (hdr_unique m) (rl (hdr_nodeid m))"
    by (simp add: tree_srv_def opcode_defs)
qed

interpretation ds: fuse_server "direct_io srv" "\<lambda>_. True" srv
  by (rule direct_fuse_server)

section \<open>Properties\<close>

text \<open>
  C3. Path resolution is correct: over any transport whose daemon serves a file
  tree, \<open>resolve_x\<close> returns exactly what the abstract resolution of the
  canonical components returns, errors, symbolic links (followed in the last
  position only on request) and the limit of 40 passes included, whenever that
  resolution stays within the engine's buffer sizes. The daemon is still up
  afterwards.
\<close>

theorem resolve_x_refines:
  assumes "fuse_fs io I srv lk rl" and "I w"
    and "nresolve lk rl follow_final 40 (norm_segs path) = Some r"
  shows "fst (resolve_x io path follow_final (f, w)) = r \<and>
    I (snd (snd (resolve_x io path follow_final (f, w))))"
  using fuse_fs.resolve_x_served [OF assms, of f] by auto

text \<open>A tree with a directory \<^verbatim>\<open>a\<close> holding a file \<^verbatim>\<open>f\<close>, and a symbolic link \<^verbatim>\<open>l\<close> to \<^verbatim>\<open>a\<close>.\<close>

definition mode_attr :: "u32 \<Rightarrow> fuse_attr" where
  "mode_attr md = \<lparr>fa_ino = 0, fa_size = 0, fa_blocks = 0, fa_atime = 0, fa_mtime = 0, fa_ctime = 0,
     fa_atimensec = 0, fa_mtimensec = 0, fa_ctimensec = 0, fa_mode = md, fa_nlink = 1, fa_uid = 0,
     fa_gid = 0, fa_rdev = 0, fa_blksize = 0, fa_flags = 0\<rparr>"

definition ex_lk :: lookup_fn where
  "ex_lk n c =
     (if n = 1 \<and> c = ''a'' then Inr (2, mode_attr 0x41ED)
      else if n = 1 \<and> c = ''l'' then Inr (3, mode_attr 0xA1FF)
      else if n = 2 \<and> c = ''f'' then Inr (4, mode_attr 0x81A4)
      else Inl (- ENOENT))"

definition ex_rl :: readlink_fn where
  "ex_rl n = (if n = 3 then ''a'' else [])"

lemma ex_tree_ok: "tree_ok ex_lk ex_rl"
  by (auto simp: tree_ok_def ex_lk_def ex_rl_def errno_defs split: if_splits)

lemmas ex_simps = ex_lk_def ex_rl_def mode_attr_def is_lnk_def FUSE_ROOT_ID_def link_comps_def
  norm_push_def path_ok_def name_ok_def proper_seg_def is_seg_def render_def errno_defs

lemma ex_components: "components ''/l/f'' = [''l'', ''f'']" "components ''a'' = [''a'']"
    "components ''/l/g'' = [''l'', ''g'']"
  by (simp_all add: components.simps)

lemma nresolve_numeral:
  "nresolve lk rl follow (numeral k) cs =
     (if \<not> path_ok cs then None
      else case nwalk lk rl follow FUSE_ROOT_ID [] cs of
             NErr e \<Rightarrow> Some (Inl e)
           | NDone nid \<Rightarrow> Some (Inr nid)
           | NRestart cs' \<Rightarrow> nresolve lk rl follow (pred_numeral k) cs')"
  by (simp add: numeral_eq_Suc)

lemma ex_nresolve:
  "nresolve ex_lk ex_rl True 40 (norm_segs ''/l/f'') = Some (Inr 4)"
  "nresolve ex_lk ex_rl True 40 (norm_segs ''/l/g'') = Some (Inl (- 2))"
  unfolding norm_segs_def ex_components
  by (simp_all add: ex_simps ex_components nresolve_numeral)

interpretation ex_fs: fuse_fs "direct_io (tree_srv ex_lk ex_rl)" "\<lambda>_. True" "tree_srv ex_lk ex_rl" ex_lk ex_rl
  by (rule direct_fuse_fs [OF ex_tree_ok])

theorem resolve_x_refines_witness:
  "fst (resolve_x (direct_io (tree_srv ex_lk ex_rl)) ''/l/f'' True (fused_zero, None)) = Inr 4 \<and>
   fst (resolve_x (direct_io (tree_srv ex_lk ex_rl)) ''/l/g'' True (fused_zero, None)) = Inl (- 2)"
  using resolve_x_refines [OF direct_fuse_fs [OF ex_tree_ok] _ ex_nresolve(1), where f = fused_zero and w = None]
    resolve_x_refines [OF direct_fuse_fs [OF ex_tree_ok] _ ex_nresolve(2), where f = fused_zero and w = None]
  by simp

text \<open>
  A component longer than 255 bytes is not refused but looked up in pieces:
  for a name of 255 bytes followed by two dots, the engine looks up the first 255
  bytes and then ``..'' inside the node found, although canonicalisation is meant
  to keep ``..'' from ever reaching the daemon.
\<close>

theorem long_component_looked_up_in_pieces:
  assumes "fuse_fs io I srv lk rl" and "I w"
    and "length x = 255" and "SLASH \<notin> set x" and "NUL \<notin> set x"
    and "lk FUSE_ROOT_ID x = Inr (n1, a1)" and "\<not> is_lnk (fa_mode a1)"
    and "lk n1 ''..'' = Inr (n2, a2)" and "\<not> is_lnk (fa_mode a2)"
  shows "fst (resolve_x io (SLASH # x @ ''..'') True (f, w)) = Inr n2"
proof -
  let ?p = "x @ ''..''"
  have x: "x \<noteq> []" "take 255 ?p = x" "drop 255 ?p = ''..''" using assms(3) by auto
  have "length ?p \<noteq> length ''.''" "length ?p \<noteq> length ''..''" using assms(3) by simp_all
  then have dots: "?p \<noteq> ''.''" "?p \<noteq> ''..''" by metis+
  have "is_seg ?p" using assms(4) by (simp add: is_seg_def)
  then have "norm_segs (SLASH # ?p) = [?p]"
    using dots by (simp add: norm_segs_def components_seg norm_push_def)
  then have n: "normpath (SLASH # ?p) 4096 = SLASH # ?p"
    using assms(3) by (simp add: normpath_render render_def snprintf_n_def)
  have c1: "next_comp ?p = x" using assms(4) x(2) by (simp add: next_comp_def takeWhile_eq_all_conv) metis
  have c2: "next_comp ''..'' = ''..''" by (simp add: next_comp_def)
  obtain f1 w1 cd where s1: "walk io True FUSE_ROOT_ID ''/'' ?p (f, w) = walk io True n1 cd ''..'' (f1, w1)" "I w1"
    using fuse_fs.walk_step [OF assms(1,2), of ?p FUSE_ROOT_ID n1 a1 True "''/''" f] assms(3,5,6,7) c1 x by auto
  obtain f2 w2 cd' where s2: "walk io True n1 cd ''..'' (f1, w1) = walk io True n2 cd' [] (f2, w2)" "I w2"
    using fuse_fs.walk_step [OF assms(1) s1(2), of "''..''" n1 n2 a2 True cd f1] assms(8,9) c2 by auto
  have "walk io True FUSE_ROOT_ID ''/'' ?p (f, w) = (WDone n2, (f2, w2))"
    using s1(1) s2(1) by (simp add: walk.simps)
  then show ?thesis using x(1) unfolding resolve_x_def n by (simp add: resolve_loop_step)
qed

definition long_lk :: lookup_fn where
  "long_lk n c =
     (if n = 1 \<and> length c = 255 then Inr (2, mode_attr 0x41ED)
      else if n = 2 \<and> c = ''..'' then Inr (1, mode_attr 0x41ED)
      else Inl (- ENOENT))"

theorem long_component_looked_up_in_pieces_witness:
  "fst (resolve_x (direct_io (tree_srv long_lk (\<lambda>_. []))) (SLASH # replicate 255 CHR ''x'' @ ''..'') True
     (fused_zero, None)) = Inr 1"
proof -
  have "tree_ok long_lk (\<lambda>_. [])"
    by (auto simp: tree_ok_def long_lk_def errno_defs split: if_splits)
  from long_component_looked_up_in_pieces [OF direct_fuse_fs [OF this], where x = "replicate 255 CHR ''x''"
      and ?n1.0 = 2 and ?n2.0 = 1 and ?a1.0 = "mode_attr 0x41ED" and ?a2.0 = "mode_attr 0x41ED"
      and w = None and f = fused_zero]
  show ?thesis by (simp add: long_lk_def FUSE_ROOT_ID_def mode_attr_def is_lnk_def)
qed

end
