(* ===== verification/FusedInv.thy ===== *)
theory FusedInv
  imports Fused
begin

text \<open>
  Invariants of the engine over whole sessions. \<open>engine_inv\<close> is what a state
  predicate must satisfy to survive every operation: one exchange, one reply-less
  send, the two cache updates and the negotiation. Its lemmas carry it through
  all operations of the engine and through any sequence of them (\<open>fuse_call\<close>).
  \<open>teardown_inv\<close> is the part of it that the teardown at the end of a session needs.
  It is used for the well-formedness of every message sent, recorded by a logging
  transport, and for the engine's own invariant.
\<close>

section \<open>Sessions\<close>

text \<open>A call of the engine's interface (\<^verbatim>\<open>fused.h\<close>) with its arguments.\<close>

datatype fuse_call =
    CInit
  | CGetattr string
  | CReadlink string nat
  | CAccess string int
  | CStatfs string
  | COpen string int
  | CRead string u64 nat int
  | CWrite string u64 bytes int
  | CFlush string u64
  | CFsync string u64 bool
  | CRelease string u64
  | CPread string nat int
  | CPwrite string bytes int
  | CReaddir string
  | CCreate string int u32
  | CMkdir string u32
  | CUnlink string
  | CRmdir string
  | CRename string string
  | CSymlink string string
  | CTruncate string int
  | CChmod string u32
  | CChown string u32 u32
  | CUtimens string "int \<times> int" "int \<times> int"

fun run_call :: "'w fio \<Rightarrow> fuse_call \<Rightarrow> 'w st \<Rightarrow> 'w st option" where
  "run_call io CInit s = Some (rignore (fused_init io) s)"
| "run_call io (CGetattr p) s = Some (rignore (fused_getattr io p) s)"
| "run_call io (CReadlink p n) s = Some (rignore (fused_readlink io p n) s)"
| "run_call io (CAccess p m) s = Some (rignore (fused_access io p m) s)"
| "run_call io (CStatfs p) s = Some (rignore (fused_statfs io p) s)"
| "run_call io (COpen p fl) s = Some (rignore (fused_open io p fl) s)"
| "run_call io (CRead p fh n off) s = Some (rignore (fused_read io p fh n off) s)"
| "run_call io (CWrite p fh b off) s = Some (rignore (fused_write io p fh b off) s)"
| "run_call io (CFlush p fh) s = Some (rignore (fused_flush io p fh) s)"
| "run_call io (CFsync p fh d) s = Some (rignore (fused_fsync io p fh d) s)"
| "run_call io (CRelease p fh) s = Some (rignore (fused_release io p fh) s)"
| "run_call io (CPread p n off) s = Some (rignore (fused_pread io p n off) s)"
| "run_call io (CPwrite p b off) s = Some (rignore (fused_pwrite io p b off) s)"
| "run_call io (CReaddir p) s = map_option snd (fused_readdir io p s)"
| "run_call io (CCreate p fl md) s = Some (rignore (fused_create io p fl md) s)"
| "run_call io (CMkdir p md) s = Some (rignore (fused_mkdir io p md) s)"
| "run_call io (CUnlink p) s = Some (rignore (fused_unlink io p) s)"
| "run_call io (CRmdir p) s = Some (rignore (fused_rmdir io p) s)"
| "run_call io (CRename p q) s = Some (rignore (fused_rename io p q) s)"
| "run_call io (CSymlink t p) s = Some (rignore (fused_symlink io t p) s)"
| "run_call io (CTruncate p n) s = Some (rignore (fused_truncate io p n) s)"
| "run_call io (CChmod p md) s = Some (rignore (fused_chmod io p md) s)"
| "run_call io (CChown p u g) s = Some (rignore (fused_chown io p u g) s)"
| "run_call io (CUtimens p a m) s = Some (rignore (fused_utimens io p a m) s)"

text \<open>A session: calls one after the other; \<open>None\<close> if a directory listing never ends.\<close>

fun run_calls :: "'w fio \<Rightarrow> fuse_call list \<Rightarrow> 'w st \<Rightarrow> 'w st option" where
  "run_calls io [] s = Some s"
| "run_calls io (c # cs) s = (case run_call io c s of None \<Rightarrow> None | Some s' \<Rightarrow> run_calls io cs s')"

section \<open>What an invariant must satisfy\<close>

text \<open>What survives tearing an engine down: only reply-less sends happen.\<close>

locale teardown_inv =
  fixes io :: "'w fio" and P :: "'w st \<Rightarrow> bool"
  assumes teardown_send: "P s \<Longrightarrow> 40 + length body \<le> FUSED_MSGCAP \<Longrightarrow> P (xfer_noreply io opcode nid body s)"
begin

lemma forget_loop_inv:
  assumes "forget_loop io i s = Some s'" and "P s"
  shows "P s'"
proof -
  have "io = io \<longrightarrow> P s \<longrightarrow> P s'"
  proof (rule forget_loop.raw_induct [where P = "\<lambda>i n s y. i = io \<longrightarrow> P s \<longrightarrow> P y"], goal_cases)
    case (1 fl i n s y)
    let ?s1 = "xfer_noreply io FUSE_FORGET (fn_nodeid (f_nodes (fst s) ! n)) (fuse_forget_in 1) s"
    have "P s \<Longrightarrow> P ?s1" by (erule teardown_send) (simp add: fuse_forget_in_def cap_defs)
    moreover have "fl io (Suc n) ?s1 = Some y \<Longrightarrow> P ?s1 \<Longrightarrow> P y" using 1(1) by blast
    ultimately show ?case using 1(2) by (auto split: if_splits)
  qed (rule assms(1))
  with assms(2) show ?thesis by simp
qed

lemma fused_destroy_inv:
  assumes "fused_destroy io s = Some w'" and "P s"
  shows "\<exists>f'. P (f', w')"
proof (cases "f_inited (fst s)")
  case True
  then obtain s1 where s1: "forget_loop io 0 s = Some s1" and w: "w' = snd (xfer_noreply io FUSE_DESTROY 0 [] s1)"
    using assms(1) by (auto simp: fused_destroy_def)
  have "P (xfer_noreply io FUSE_DESTROY 0 [] s1)"
    by (rule teardown_send [OF forget_loop_inv [OF s1 assms(2)]]) (simp add: cap_defs)
  with w show ?thesis by (metis prod.collapse)
next
  case False
  with assms show ?thesis by (cases s) (auto simp: fused_destroy_def)
qed

end

locale engine_inv =
  fixes io :: "'w fio" and P :: "'w st \<Rightarrow> bool"
  assumes exchange_inv: "P s \<Longrightarrow> 40 + length body \<le> FUSED_MSGCAP \<Longrightarrow> P (snd (exchange io opcode nid body s))"
    and noreply_inv: "P s \<Longrightarrow> 40 + length body \<le> FUSED_MSGCAP \<Longrightarrow> P (xfer_noreply io opcode nid body s)"
    and put_inv: "P s \<Longrightarrow> P (cache_put (sys_alloc io) path nid s)"
    and drop_inv: "P (f, w) \<Longrightarrow> P (cache_drop path f, w)"
    and init_inv: "P (f, w) \<Longrightarrow> unat mw \<le> FUSED_MAXDATA \<Longrightarrow>
      P (f\<lparr>f_proto_minor := mn, f_max_write := mw, f_inited := True\<rparr>, w)"
    and init_minor_inv: "P (f, w) \<Longrightarrow> P (f\<lparr>f_proto_minor := mn, f_inited := True\<rparr>, w)"
begin

text \<open>An operation keeps the invariant from every state.\<close>

lemma rbind_inv:
  assumes "P s" and "\<And>s. P s \<Longrightarrow> P (snd (m s))" and "\<And>a s. P s \<Longrightarrow> P (snd (k a s))"
  shows "P (snd (rbind m k s))"
proof -
  obtain r s' where m: "m s = (r, s')" by (rule prod.exhaust)
  with assms(2) [OF assms(1)] have "P s'" by simp
  with m assms(3) show ?thesis by (cases r) (auto simp: rbind_def)
qed

lemma rret_inv: "P s \<Longrightarrow> P (snd (rret a s))"
  by simp

lemma rfail_inv: "P s \<Longrightarrow> P (snd (rfail e s))"
  by simp

lemma xfer_inv: "P s \<Longrightarrow> P (snd (xfer io opcode nid body outcap s))"
  by (auto simp: xfer_def intro!: rbind_inv exchange_inv)

lemma xfer_unit_inv: "P s \<Longrightarrow> P (snd (xfer_unit io opcode nid body s))"
  by (auto simp: xfer_unit_def intro!: rbind_inv xfer_inv)

lemma nosys_inv: "P (snd (m s)) \<Longrightarrow> P (snd (nosys_ok m s))"
  by (auto simp: nosys_ok_def split: prod.splits sum.splits)

lemma put_node_inv: "P s \<Longrightarrow> P (snd (put_node io path nid a s))"
  by (simp add: put_node_def put_inv)

lemma drop_node_inv: "P s \<Longrightarrow> P (snd (drop_node path s))"
  by (auto simp: drop_node_def drop_inv split: prod.splits)

lemma do_lookup_inv: "P s \<Longrightarrow> P (snd (do_lookup io n c s))"
  by (auto simp: do_lookup_def intro!: rbind_inv xfer_inv)

lemmas basic_inv = rbind_inv rret_inv rfail_inv xfer_inv xfer_unit_inv nosys_inv put_node_inv
  drop_node_inv do_lookup_inv

lemma walk_inv: "P s \<Longrightarrow> P (snd (walk io ff cur cd p s))"
proof (induction "length p" arbitrary: cur cd p s rule: less_induct)
  case less
  show ?case
  proof (cases "p = []")
    case True
    with less.prems show ?thesis by (simp add: walk.simps)
  next
    case False
    let ?c = "next_comp p"
    obtain r s1 where l: "do_lookup io cur ?c s = (r, s1)" by (rule prod.exhaust)
    with do_lookup_inv [OF less.prems] have s1: "P s1" by (metis snd_conv)
    show ?thesis
    proof (cases r)
      case (Inl e)
      with l s1 False show ?thesis by (simp add: walk.simps Let_def)
    next
      case (Inr eo)
      let ?s2 = "cache_put (sys_alloc io) (child_path cd ?c) (entry_nodeid eo) s1"
      have s2: "P ?s2" using s1 by (rule put_inv)
      obtain r3 s3 where x: "xfer io FUSE_READLINK (entry_nodeid eo) [] 4095 ?s2 = (r3, s3)" by (rule prod.exhaust)
      with xfer_inv [OF s2] have s3: "P s3" by (metis snd_conv)
      have IH: "P (snd (walk io ff c' cd' (dropWhile (\<lambda>c. c = SLASH) (drop (length ?c) p)) ?s2))" for c' cd'
        using less.hyps [OF next_comp_shorter [OF False] s2] .
      show ?thesis
        using l Inr x s3 IH False
        by (subst walk.simps) (auto simp: Let_def split: sum.splits prod.splits)
    qed
  qed
qed

lemma resolve_loop_inv: "P s \<Longrightarrow> P (snd (resolve_loop io ff n path s))"
proof (induction n arbitrary: path s)
  case (Suc n)
  obtain r s1 where w: "walk io ff FUSE_ROOT_ID ''/'' (tl path) s = (r, s1)" by (rule prod.exhaust)
  with walk_inv [OF Suc.prems] have "P s1" by (metis snd_conv)
  with w Suc show ?case by (cases r) simp_all
qed simp

lemma resolve_x_inv: "P s \<Longrightarrow> P (snd (resolve_x io path ff s))"
  by (simp add: resolve_x_def resolve_loop_inv)

lemma resolve_inv: "P s \<Longrightarrow> P (snd (resolve io path s))"
  by (simp add: resolve_def resolve_x_inv)

lemma resolve_parent_inv: "P s \<Longrightarrow> P (snd (resolve_parent io path n s))"
  by (auto simp: resolve_parent_def split: prod.splits intro!: rbind_inv resolve_inv)

lemmas res_inv = resolve_inv resolve_x_inv resolve_parent_inv basic_inv

lemma fused_init_inv: "P s \<Longrightarrow> P (snd (fused_init io s))"
  unfolding fused_init_def
proof (rule rbind_inv, assumption, erule xfer_inv, goal_cases)
  case (1 a s)
  obtain out ol f w where [simp]: "a = (out, ol)" "s = (f, w)" by (cases a, cases s) auto
  have mw: "unat (if unat (get32 20 out) < FUSED_MAXDATA then get32 20 out else word_of_nat FUSED_MAXDATA) \<le> FUSED_MAXDATA"
    by (simp add: cap_defs)
  show ?case
    using 1 init_inv [OF _ mw, of f w "get32 4 out"] init_minor_inv [of f w "get32 4 out"]
    by (simp add: Let_def)
qed

lemma fused_getattr_inv: "P s \<Longrightarrow> P (snd (fused_getattr io p s))"
  by (auto simp: fused_getattr_def intro!: res_inv)

lemma fused_readlink_inv: "P s \<Longrightarrow> P (snd (fused_readlink io p n s))"
  by (auto simp: fused_readlink_def intro!: res_inv)

lemma fused_access_inv: "P s \<Longrightarrow> P (snd (fused_access io p m s))"
  by (auto simp: fused_access_def intro!: res_inv)

lemma fused_statfs_inv: "P s \<Longrightarrow> P (snd (fused_statfs io p s))"
  by (auto simp: fused_statfs_def split_beta Let_def intro!: res_inv)

lemma fused_open_inv: "P s \<Longrightarrow> P (snd (fused_open io p fl s))"
  by (auto simp: fused_open_def intro!: res_inv)

lemma fused_read_inv: "P s \<Longrightarrow> P (snd (fused_read io p fh n off s))"
  by (auto simp: fused_read_def Let_def split: prod.splits intro!: res_inv)

lemma fused_write_inv: "P s \<Longrightarrow> P (snd (fused_write io p fh b off s))"
  unfolding fused_write_def
  by (rule rbind_inv, assumption, erule resolve_inv)
     (auto simp: Let_def fuse_write_in_def cap_defs split: prod.splits intro!: rbind_inv exchange_inv)

lemma fused_flush_inv: "P s \<Longrightarrow> P (snd (fused_flush io p fh s))"
  by (auto simp: fused_flush_def intro!: res_inv)

lemma fused_fsync_inv: "P s \<Longrightarrow> P (snd (fused_fsync io p fh d s))"
  by (auto simp: fused_fsync_def intro!: res_inv)

lemma fused_release_inv: "P s \<Longrightarrow> P (snd (fused_release io p fh s))"
  by (auto simp: fused_release_def intro!: res_inv)

lemma fused_pread_inv: "P s \<Longrightarrow> P (snd (fused_pread io p n off s))"
  by (auto simp: fused_pread_def split_beta Let_def rignore_def
      intro!: rbind_inv fused_open_inv fused_release_inv fused_read_inv)

lemma fused_pwrite_inv: "P s \<Longrightarrow> P (snd (fused_pwrite io p b off s))"
  by (auto simp: fused_pwrite_def split_beta Let_def rignore_def
      intro!: rbind_inv fused_open_inv fused_release_inv fused_flush_inv fused_write_inv)

lemma readdir_loop_inv:
  assumes "readdir_loop io nid dh off acc s = Some y" and "P s"
  shows "P (snd y)"
proof -
  have "io = io \<longrightarrow> P s \<longrightarrow> P (snd y)"
  proof (rule readdir_loop.raw_induct [where P = "\<lambda>i n d u a s y. i = io \<longrightarrow> P s \<longrightarrow> P (snd y)"], goal_cases)
    case (1 rl i n d u a s y)
    obtain r s1 where x: "xfer io FUSE_READDIR n (fuse_read_in d u 4096) 4096 s = (r, s1)"
      by (rule prod.exhaust)
    then have "P s \<Longrightarrow> P s1" by (metis xfer_inv snd_conv)
    moreover have "rl io n d u' a' s1 = Some y \<Longrightarrow> P s1 \<Longrightarrow> P (snd y)" for u' a' using 1(1) by blast
    ultimately show ?case
      using 1(2) x by (auto simp: Let_def split: sum.splits prod.splits if_splits)
  qed (rule assms(1))
  with assms(2) show ?thesis by simp
qed

lemma fused_readdir_inv: "fused_readdir io p s = Some y \<Longrightarrow> P s \<Longrightarrow> P (snd y)"
proof -
  assume a: "fused_readdir io p s = Some y" and b: "P s"
  obtain r s1 where r: "resolve io p s = (r, s1)" by (rule prod.exhaust)
  with resolve_inv [OF b] have s1: "P s1" by (metis snd_conv)
  show ?thesis
  proof (cases r)
    case (Inl e)
    with a r s1 show ?thesis by (auto simp: fused_readdir_def)
  next
    case (Inr nid)
    obtain x s2 where x: "xfer io FUSE_OPENDIR nid (fuse_open_in 0) 16 s1 = (x, s2)" by (rule prod.exhaust)
    with xfer_inv [OF s1] have s2: "P s2" by (metis snd_conv)
    with a r Inr x show ?thesis
      by (auto simp: fused_readdir_def Let_def rignore_def split: sum.splits prod.splits if_splits option.splits
          intro!: xfer_unit_inv dest: readdir_loop_inv)
  qed
qed

lemma fused_create_inv: "P s \<Longrightarrow> P (snd (fused_create io p fl md s))"
  by (auto simp: fused_create_def intro!: res_inv)

lemma fused_mkdir_inv: "P s \<Longrightarrow> P (snd (fused_mkdir io p md s))"
  by (auto simp: fused_mkdir_def intro!: res_inv)

lemma name_op_inv: "P s \<Longrightarrow> P (snd (name_op io opc p s))"
  by (auto simp: name_op_def intro!: res_inv)

lemma fused_rename_inv: "P s \<Longrightarrow> P (snd (fused_rename io p q s))"
  by (auto simp: fused_rename_def intro!: res_inv)

lemma fused_symlink_inv: "P s \<Longrightarrow> P (snd (fused_symlink io t p s))"
  by (auto simp: fused_symlink_def intro!: res_inv)

lemma setattr_inv: "P s \<Longrightarrow> P (snd (setattr io p v a s))"
  by (auto simp: setattr_def intro!: res_inv)

lemma fused_chown_inv: "P s \<Longrightarrow> P (snd (fused_chown io p u g s))"
  by (simp add: fused_chown_def Let_def setattr_inv split: prod.splits)

lemmas call_inv = fused_init_inv fused_getattr_inv fused_readlink_inv fused_access_inv fused_statfs_inv
  fused_open_inv fused_read_inv fused_write_inv fused_flush_inv fused_fsync_inv fused_release_inv
  fused_pread_inv fused_pwrite_inv fused_create_inv fused_mkdir_inv name_op_inv fused_rename_inv
  fused_symlink_inv setattr_inv fused_chown_inv

lemma run_call_inv: "P s \<Longrightarrow> run_call io c s = Some s' \<Longrightarrow> P s'"
  by (cases c)
     (auto simp: rignore_def call_inv fused_unlink_def fused_rmdir_def fused_truncate_def fused_chmod_def
       fused_utimens_def dest: fused_readdir_inv)

lemma run_calls_inv: "P s \<Longrightarrow> run_calls io cs s = Some s' \<Longrightarrow> P s'"
  by (induction cs arbitrary: s) (auto split: option.splits dest: run_call_inv)

end

sublocale engine_inv \<subseteq> td: teardown_inv
  by unfold_locales (rule noreply_inv)

section \<open>Logging the messages\<close>

text \<open>Any transport, with every message handed to it recorded in the world.\<close>

definition log_io :: "'w fio \<Rightarrow> (bytes list \<times> 'w) fio" where
  "log_io io = \<lparr>
     io_send = Some (\<lambda>m (f, (l, w)). let (r, (f', w')) = tx_send io m (f, w) in (r, (f', (l @ [m], w')))),
     io_recv = Some (\<lambda>cap u (f, (l, w)). let (r, (f', w')) = tx_recv io cap u (f, w) in (r, (f', (l, w')))),
     sys_write = (\<lambda>fd m w. (Inl EIO, w)), sys_read = (\<lambda>fd n w. (Inl EIO, w)),
     sys_alloc = (\<lambda>n (l, w). let (ok, w') = sys_alloc io n w in (ok, (l, w')))\<rparr>"

definition msg_ok :: "bytes \<Rightarrow> bool" where
  "msg_ok m \<longleftrightarrow> 40 \<le> length m \<and> length m \<le> FUSED_MSGCAP \<and> unat (hdr_len m) = length m"

definition log_ok :: "(bytes list \<times> 'w) st \<Rightarrow> bool" where
  "log_ok s \<longleftrightarrow> list_all msg_ok (fst (snd s))"

lemma built_msg_ok: "40 + length body \<le> FUSED_MSGCAP \<Longrightarrow> msg_ok (fuse_in_header f (40 + length body) opc nid @ body)"
  using unat_u32 [of "40 + length body"] unfolding msg_ok_def hdr_fields by (simp add: cap_defs)

lemma log_send: "log_ok s \<Longrightarrow> msg_ok m \<Longrightarrow> log_ok (snd (tx_send (log_io io) m s))"
  by (auto simp: log_ok_def tx_send_def log_io_def Let_def split: prod.splits)

lemma log_recv: "log_ok s \<Longrightarrow> log_ok (snd (tx_recv (log_io io) n u s))"
  by (auto simp: log_ok_def tx_recv_def log_io_def Let_def split: prod.splits)

lemma log_alloc: "fst (snd (sys_alloc (log_io io) n lw)) = fst lw"
  by (cases lw) (simp add: log_io_def Let_def split: prod.splits)

lemma log_alloc_st: "log_ok (f, lw) \<Longrightarrow> log_ok (g, snd (sys_alloc (log_io io) n lw))"
  by (simp add: log_ok_def log_alloc)

text \<open>One exchange, one send and one cache update, for any predicate the transport respects.\<close>

lemma exchange_keeps:
  assumes "P s"
    and alloc: "\<And>f w n. P (f, w) \<Longrightarrow> P (f, snd (sys_alloc io n w))"
    and bump: "\<And>f w. P (f, w) \<Longrightarrow> P (f\<lparr>f_unique := f_unique f + 1\<rparr>, w)"
    and send: "\<And>f s. P s \<Longrightarrow> P (snd (tx_send io (fuse_in_header f (40 + length body) opc nid @ body) s))"
    and recv: "\<And>n u s. P s \<Longrightarrow> P (snd (tx_recv io n u s))"
  shows "P (snd (exchange io opc nid body s))"
proof -
  obtain f w where s: "s = (f, w)" by (rule prod.exhaust)
  obtain ok w1 where a: "sys_alloc io FUSED_MSGCAP w = (ok, w1)" by (rule prod.exhaust)
  let ?f = "f\<lparr>f_unique := f_unique f + 1\<rparr>"
  obtain sr s2 where t: "tx_send io (fuse_in_header ?f (40 + length body) opc nid @ body) (?f, w1) = (sr, s2)"
    by (rule prod.exhaust)
  obtain r s3 where u: "tx_recv io FUSED_MSGCAP (f_unique ?f) s2 = (r, s3)" by (rule prod.exhaust)
  have p1: "P (f, w1)" using assms(1) alloc [of f w FUSED_MSGCAP] by (simp add: s a)
  have p2: "P s2" using send [OF bump [OF p1], of ?f] t by simp
  have p3: "P s3" using recv [OF p2] u by (metis snd_conv)
  show ?thesis using p1 p2 p3 t u by (auto simp: s exchange_def a Let_def split: sum.splits)
qed

lemma noreply_keeps:
  assumes "P s"
    and alloc: "\<And>f w n. P (f, w) \<Longrightarrow> P (f, snd (sys_alloc io n w))"
    and bump: "\<And>f w. P (f, w) \<Longrightarrow> P (f\<lparr>f_unique := f_unique f + 1\<rparr>, w)"
    and send: "\<And>f s. P s \<Longrightarrow> P (snd (tx_send io (fuse_in_header f (40 + length body) opc nid @ body) s))"
  shows "P (xfer_noreply io opc nid body s)"
proof -
  obtain f w where s: "s = (f, w)" by (rule prod.exhaust)
  obtain ok w1 where a: "sys_alloc io (40 + length body) w = (ok, w1)" by (rule prod.exhaust)
  have p1: "P (f, w1)" using assms(1) alloc [of f w "40 + length body"] by (simp add: s a)
  show ?thesis using assms(1) p1 send [OF bump [OF p1]] by (simp add: s xfer_noreply_def a Let_def)
qed

lemma cache_put_world:
  assumes "P w" and "\<And>w n. P w \<Longrightarrow> P (snd (al n w))"
  shows "P (snd (cache_put al p v (f, w)))"
  by (simp add: cache_put_def cache_append_def split_beta Let_def assms split: option.split)

interpretation li: engine_inv "log_io io" "log_ok :: (bytes list \<times> 'w) st \<Rightarrow> bool" for io :: "'w fio"
proof (unfold_locales, goal_cases)
  case (1 s body opcode nid)
  show ?case
    by (rule exchange_keeps [of log_ok, OF 1(1)])
       (erule log_alloc_st, simp add: log_ok_def, erule log_send [OF _ built_msg_ok [OF 1(2)]], erule log_recv)
next
  case (2 s body opcode nid)
  show ?case
    by (rule noreply_keeps [of log_ok, OF 2(1)])
       (erule log_alloc_st, simp add: log_ok_def, erule log_send [OF _ built_msg_ok [OF 2(2)]])
next
  case (3 s path nid)
  then show ?case
    using cache_put_world [of "\<lambda>lw. list_all msg_ok (fst lw)" "snd s" "sys_alloc (log_io io)" path nid "fst s"]
    by (simp add: log_ok_def log_alloc)
qed (simp_all add: log_ok_def)

section \<open>The engine's own invariant\<close>

text \<open>
  The cache is well formed and the negotiated transfer size stays within the
  message buffer. A transport may run other engine operations while it waits, so
  it is only required to preserve the invariant, not the state.
\<close>

definition engine_ok :: "'w st \<Rightarrow> bool" where
  "engine_ok s \<longleftrightarrow> cache_inv (fst s) \<and> unat (f_max_write (fst s)) \<le> FUSED_MAXDATA"

definition io_keeps :: "('w st \<Rightarrow> bool) \<Rightarrow> 'w fio \<Rightarrow> bool" where
  "io_keeps P io \<longleftrightarrow>
     (\<forall>m s. P s \<longrightarrow> P (snd (tx_send io m s))) \<and>
     (\<forall>n u s. P s \<longrightarrow> P (snd (tx_recv io n u s)))"

lemma cache_inv_unique [simp]: "cache_inv (f\<lparr>f_unique := u\<rparr>) = cache_inv f"
  by (simp add: cache_inv_def)

lemma cache_put_max_write: "f_max_write (fst (cache_put al p v (f, w))) = f_max_write f"
  by (simp add: cache_put_def cache_append_def split_beta Let_def split: option.split)

lemma cache_drop_max_write [simp]: "f_max_write (cache_drop p f) = f_max_write f"
  by (simp add: cache_drop_def split: option.split)

lemma engine_ok_inv:
  assumes "io_keeps engine_ok io"
  shows "engine_inv io engine_ok"
proof (unfold_locales, goal_cases)
  case (1 s body opcode nid)
  from assms have "\<And>m s. engine_ok s \<Longrightarrow> engine_ok (snd (tx_send io m s))"
      "\<And>n u s. engine_ok s \<Longrightarrow> engine_ok (snd (tx_recv io n u s))"
    by (auto simp: io_keeps_def)
  then show ?case by (intro exchange_keeps [of engine_ok, OF 1(1)]) (simp_all add: engine_ok_def)
next
  case (2 s body opcode nid)
  from assms have "\<And>m s. engine_ok s \<Longrightarrow> engine_ok (snd (tx_send io m s))" by (auto simp: io_keeps_def)
  then show ?case by (intro noreply_keeps [of engine_ok, OF 2(1)]) (simp_all add: engine_ok_def)
next
  case (3 s path nid)
  then show ?case
    using cache_put_inv [of "fst s" "sys_alloc io" path nid "snd s"]
      cache_put_max_write [of "sys_alloc io" path nid "fst s" "snd s"]
    by (simp add: engine_ok_def)
next
  case (4 f w path)
  then show ?case by (simp add: engine_ok_def cache_drop_inv)
next
  case (5 f w mw mn)
  then show ?case by (simp add: engine_ok_def cache_inv_def)
next
  case (6 f w mn)
  then show ?case by (simp add: engine_ok_def cache_inv_def)
qed

lemma direct_keeps:
  assumes "\<And>m f w. fst (snd (snd_cb m (f, w))) = f" and "\<And>n u f w. fst (snd (rcv_cb n u (f, w))) = f"
  shows "io_keeps engine_ok (fused_set_io snd_cb rcv_cb io)"
  using assms by (auto simp: io_keeps_def engine_ok_def tx_send_def tx_recv_def fused_set_io_def split_beta Let_def)

section \<open>Properties\<close>

text \<open>
  C13. Over any transport, whatever it does to the engine while it waits, and
  for any sequence of calls, with or without the teardown that ends the session (its
  FORGETs and the DESTROY are sent without waiting for a reply), every message the
  engine sends is at least a header long, at most \<^verbatim>\<open>FUSED_MSGCAP\<close> bytes, and carries
  its own length in its header.
\<close>

theorem session_messages_well_formed:
  assumes "run_calls (log_io io) calls (f, ([], w)) = Some (f', (msgs, w'))"
  shows "list_all msg_ok msgs \<and>
    (\<forall>msgs2 w2. fused_destroy (log_io io) (f', (msgs, w')) = Some (msgs2, w2) \<longrightarrow> list_all msg_ok msgs2)"
proof -
  have ok: "log_ok (f', (msgs, w'))" using li.run_calls_inv [OF _ assms] by (simp add: log_ok_def)
  with li.td.fused_destroy_inv [OF _ ok] show ?thesis by (fastforce simp: log_ok_def)
qed

text \<open>A transport whose sends fail: the message is built and refused.\<close>

definition refusing_io :: "unit fio" where
  "refusing_io = \<lparr>io_send = Some (\<lambda>m s. (- EIO, s)), io_recv = Some (\<lambda>n u s. (Inl (- EIO), s)),
     sys_write = (\<lambda>fd m w. (Inl EIO, w)), sys_read = (\<lambda>fd n w. (Inl EIO, w)), sys_alloc = (\<lambda>n w. (True, w))\<rparr>"

lemma normpath_root: "normpath ''/'' 4096 = ''/''"
  by (simp add: normpath_render norm_segs_def components.simps render_def snprintf_n_def)

lemma resolve_loop_root: "0 < n \<Longrightarrow> resolve_loop io ff n ''/'' s = (Inr FUSE_ROOT_ID, s)"
  by (cases n) simp_all

lemma resolve_root: "resolve io ''/'' s = (Inr FUSE_ROOT_ID, s)"
  unfolding resolve_def resolve_x_def normpath_root by (simp add: resolve_loop_root)

theorem session_messages_well_formed_witness:
  "\<exists>f' m1 m2 m3. let f = fused_zero\<lparr>f_inited := True, f_nodes := [\<lparr>fn_path = ''/a'', fn_nodeid = 7\<rparr>], f_capnodes := 16\<rparr> in
     run_calls (log_io refusing_io) [CGetattr ''/''] (f, ([], ())) = Some (f', ([m1], ())) \<and>
     fused_destroy (log_io refusing_io) (f', ([m1], ())) = Some ([m1, m2, m3], ()) \<and>
     map hdr_opcode [m1, m2, m3] = [FUSE_GETATTR, FUSE_FORGET, FUSE_DESTROY] \<and> list_all msg_ok [m1, m2, m3]"
proof -
  let ?f = "fused_zero\<lparr>f_inited := True, f_nodes := [\<lparr>fn_path = ''/a'', fn_nodeid = 7\<rparr>], f_capnodes := 16\<rparr>"
  let ?h = "\<lambda>u. ?f\<lparr>f_unique := u\<rparr>"
  let ?m1 = "fuse_in_header (?h 1) 56 FUSE_GETATTR FUSE_ROOT_ID @ fuse_getattr_in"
  let ?m2 = "fuse_in_header (?h 2) 48 FUSE_FORGET 7 @ fuse_forget_in 1"
  let ?m3 = "fuse_in_header (?h 3) 40 FUSE_DESTROY 0 @ []"
  have r: "run_calls (log_io refusing_io) [CGetattr ''/''] (?f, ([], ())) = Some (?h 1, ([?m1], ()))"
    by (simp add: fused_getattr_def rignore_def rbind_def resolve_root xfer_def exchange_def
        tx_send_def log_io_def refusing_io_def Let_def fuse_getattr_in_def cap_defs errno_defs)
       (simp add: fused_zero_def)
  have n: "xfer_noreply (log_io refusing_io) opc nid body (g, (l, ())) =
      (g\<lparr>f_unique := f_unique g + 1\<rparr>,
       (l @ [fuse_in_header (g\<lparr>f_unique := f_unique g + 1\<rparr>) (40 + length body) opc nid @ body], ()))"
    if "length body \<le> 8" for opc nid body g l
    using that by (simp add: xfer_noreply_def tx_send_def log_io_def refusing_io_def Let_def cap_defs)
  have d: "fused_destroy (log_io refusing_io) (?h 1, ([?m1], ())) = Some ([?m1, ?m2, ?m3], ())"
    by (simp add: fused_destroy_def forget_loop.simps n fuse_forget_in_def)
  from session_messages_well_formed [OF r] d have "list_all msg_ok [?m1, ?m2, ?m3]" by blast
  moreover have "map hdr_opcode [?m1, ?m2, ?m3] = [FUSE_GETATTR, FUSE_FORGET, FUSE_DESTROY]"
    unfolding list.map hdr_fields by (rule refl)
  ultimately show ?thesis
    unfolding Let_def by (intro exI [of _ "?h 1"] exI [of _ ?m1] exI [of _ ?m2] exI [of _ ?m3] conjI r d)
qed

text \<open>
  C21. The engine invariant holds throughout a session: after any sequence of
  calls the cached paths are distinct and within the array's capacity, and the
  transfer size is at most \<^verbatim>\<open>FUSED_MAXDATA\<close>, over any transport that preserves it.
\<close>

theorem session_keeps_engine_ok:
  assumes "io_keeps engine_ok io" and "engine_ok s" and "run_calls io calls s = Some s'"
  shows "engine_ok s'"
  using engine_inv.run_calls_inv [OF engine_ok_inv [OF assms(1)] assms(2,3)] .

theorem session_keeps_engine_ok_witness:
  "engine_ok (the (run_calls refusing_io [CInit, CMkdir ''/d'' 0, CUnlink ''/x''] (fused_zero, ())))"
proof -
  have "io_keeps engine_ok refusing_io"
    by (simp add: io_keeps_def engine_ok_def refusing_io_def tx_send_def tx_recv_def split_beta)
  moreover have "engine_ok (fused_zero, ())" by (simp add: engine_ok_def) (simp add: fused_zero_def)
  moreover have "\<exists>s. run_calls refusing_io [CInit, CMkdir ''/d'' 0, CUnlink ''/x''] (fused_zero, ()) = Some s"
    unfolding run_calls.simps run_call.simps option.case by blast
  ultimately show ?thesis using session_keeps_engine_ok by fastforce
qed

end
