(* ===== verification/FusedOps.thy ===== *)
theory FusedOps
  imports FusedServer FusedInv
begin

text \<open>
  Behaviour of single engine operations over the contract \<open>fuse_server\<close>: directory
  listings are complete and end, reads and writes ask for what the caller asked
  within the negotiated size, attribute changes set exactly the requested fields,
  negotiation stores what the daemon offers, and teardown returns every reference.
\<close>

section \<open>Directory streams\<close>

text \<open>
  The body a daemon sends for a READDIR at offset \<open>k\<close>: the next \<open>chunk k\<close> entries of
  the directory, entry \<open>i\<close> carrying \<open>i + 1\<close> as the offset to resume at.
\<close>

definition dir_body :: "(string \<times> u32) list \<Rightarrow> (nat \<Rightarrow> u64) \<Rightarrow> nat \<Rightarrow> nat \<Rightarrow> bytes" where
  "dir_body ents ino k n =
     concat (map (\<lambda>i. dirent_enc (ino i) (word_of_nat (i + 1)) (snd (ents ! i)) (fst (ents ! i))) [k..<k + n])"

definition dname_ok :: "string \<Rightarrow> bool" where
  "dname_ok nm \<longleftrightarrow> nm \<noteq> [] \<and> length nm \<le> 255 \<and> NUL \<notin> set nm"

lemma dirent_fields:
  "get64 8 (dirent_enc i off ty nm @ r) = off"
  "get32 16 (dirent_enc i off ty nm @ r) = word_of_nat (length nm)"
  "get32 20 (dirent_enc i off ty nm @ r) = ty"
  by (simp_all add: dirent_enc_def get_skips)

lemma drop_24_dirent: "take (length nm) (drop 24 (dirent_enc i off ty nm @ r)) = nm"
  by (simp add: dirent_enc_def)

lemma parse_dirents_step:
  assumes "dname_ok nm"
  shows "parse_dirents (dirent_enc i off ty nm @ r) o0 pr acc = parse_dirents r off True (acc @ [(nm, ty)])"
proof -
  let ?b = "dirent_enc i off ty nm @ r"
  have n: "unat (get32 16 ?b) = length nm"
    using assms unat_u32 [of "length nm"] by (simp add: dirent_fields dname_ok_def)
  have l: "24 + length nm \<le> length ?b" using dirent_align_ge [of "24 + length nm"] by simp
  have "min (length nm) 255 = length nm" using assms by (simp add: dname_ok_def)
  then have nm: "cstr (take (min (length nm) 255) (drop 24 ?b)) = nm"
    using assms by (simp only: drop_24_dirent) (simp add: dname_ok_def cstr_id)
  have d: "drop (dirent_align (24 + length nm)) ?b = r" by simp
  show ?thesis
    using l assms by (subst parse_dirents.simps) (simp only: n nm d dirent_fields(1,3) Let_def, simp add: dname_ok_def)
qed

lemma parse_dirents_Nil: "parse_dirents [] off pr acc = (acc, off, pr)"
  by (simp add: parse_dirents.simps)

lemma dir_body_Suc:
  "dir_body ents ino k (Suc n) =
     dirent_enc (ino k) (word_of_nat (k + 1)) (snd (ents ! k)) (fst (ents ! k)) @ dir_body ents ino (Suc k) n"
  by (simp add: dir_body_def upt_conv_Cons del: upt_Suc)

lemma parse_dir_body:
  assumes "\<And>i. i < length ents \<Longrightarrow> dname_ok (fst (ents ! i))" and "k + n \<le> length ents" and "0 < n"
  shows "parse_dirents (dir_body ents ino k n) o0 pr acc = (acc @ take n (drop k ents), word_of_nat (k + n), True)"
  using assms(2,3)
proof (induction n arbitrary: k o0 pr acc)
  case (Suc n)
  have k: "k < length ents" using Suc.prems by simp
  have s: "parse_dirents (dir_body ents ino k (Suc n)) o0 pr acc =
      parse_dirents (dir_body ents ino (Suc k) n) (word_of_nat (k + 1)) True (acc @ [ents ! k])"
    unfolding dir_body_Suc using parse_dirents_step [OF assms(1) [OF k]] by simp
  have t: "take (Suc n) (drop k ents) = ents ! k # take n (drop (Suc k) ents)"
    using k by (simp add: Cons_nth_drop_Suc [symmetric])
  show ?case
  proof (cases "n = 0")
    case True
    show ?thesis unfolding s t using True by (simp add: parse_dirents_Nil dir_body_def)
  next
    case False
    then show ?thesis unfolding s t using Suc.IH [of "Suc k"] Suc.prems by simp
  qed
qed simp

text \<open>A daemon that lists one directory.\<close>

locale fuse_dir = fuse_server io I srv
  for io :: "'w fio" and I :: "'w \<Rightarrow> bool" and srv :: "bytes \<Rightarrow> bytes" +
  fixes nid dh :: u64 and ents :: "(string \<times> u32) list" and ino :: "nat \<Rightarrow> u64" and chunk :: "nat \<Rightarrow> nat"
  assumes names: "i < length ents \<Longrightarrow> dname_ok (fst (ents ! i))"
    and chunk_ok: "k < length ents \<Longrightarrow> 0 < chunk k \<and> k + chunk k \<le> length ents \<and>
      length (dir_body ents ino k (chunk k)) \<le> 4096"
    and chunk_end: "chunk (length ents) = 0"
    and srv_opendir: "hdr_opcode m = FUSE_OPENDIR \<Longrightarrow> hdr_nodeid m = nid \<Longrightarrow>
      srv m = reply_ok (hdr_unique m) (le64 dh @ le32 0 @ le32 0)"
    and srv_readdir: "hdr_opcode m = FUSE_READDIR \<Longrightarrow> hdr_nodeid m = nid \<Longrightarrow> k \<le> length ents \<Longrightarrow>
      get64 48 m = word_of_nat k \<Longrightarrow> srv m = reply_ok (hdr_unique m) (dir_body ents ino k (chunk k))"
begin

lemma readdir_served:
  assumes "I w" and "k \<le> length ents"
  shows "\<exists>s' w'. xfer io FUSE_READDIR nid (fuse_read_in d (word_of_nat k) 4096) 4096 (f, w) =
      (Inr (dir_body ents ino k (chunk k), length (dir_body ents ino k (chunk k))), (s', w')) \<and> I w'"
proof -
  let ?m = "req f FUSE_READDIR nid (fuse_read_in d (word_of_nat k) 4096)"
  have m: "hdr_opcode ?m = FUSE_READDIR" "hdr_nodeid ?m = nid" by (simp_all add: req_def)
  have o: "get64 48 ?m = word_of_nat k" by (simp add: req_def fuse_read_in_def get_skips)
  have l: "length (dir_body ents ino k (chunk k)) \<le> 4096"
    using chunk_ok [of k] chunk_end assms(2) by (cases "k = length ents") (simp_all add: dir_body_def)
  have "fuse_reply (srv ?m) = Inr (dir_body ents ino k (chunk k))"
    using srv_readdir [OF m assms(2) o] by simp
  then show ?thesis
    using xfer_served [OF assms(1), of "fuse_read_in d (word_of_nat k) 4096" FUSE_READDIR nid 4096 f] l
    by (auto simp: fuse_read_in_def cap_defs)
qed

lemma dir_body_empty: "k < length ents \<Longrightarrow> length (dir_body ents ino k (chunk k)) \<noteq> 0"
  using chunk_ok [of k] by (cases "chunk k") (auto simp: dir_body_Suc dirent_enc_def)

lemma readdir_loop_served:
  assumes "I w" and "k \<le> length ents"
  shows "\<exists>s' w'. readdir_loop io nid d (word_of_nat k) acc (f, w) = Some ((0, acc @ drop k ents), (s', w')) \<and> I w'"
  using assms
proof (induction "length ents - k" arbitrary: k acc f w rule: less_induct)
  case less
  obtain f1 w1 where x: "xfer io FUSE_READDIR nid (fuse_read_in d (word_of_nat k) 4096) 4096 (f, w) =
      (Inr (dir_body ents ino k (chunk k), length (dir_body ents ino k (chunk k))), (f1, w1))" "I w1"
    using readdir_served [OF less.prems] by blast
  show ?case
  proof (cases "k = length ents")
    case True
    with x chunk_end show ?thesis by (subst readdir_loop.simps) (simp add: dir_body_def)
  next
    case False
    with less.prems(2) have k: "k < length ents" by simp
    have p: "parse_dirents (dir_body ents ino k (chunk k)) (word_of_nat k) False acc =
        (acc @ take (chunk k) (drop k ents), word_of_nat (k + chunk k), True)"
      using chunk_ok [OF k] by (intro parse_dir_body names) auto
    have lt: "length ents - (k + chunk k) < length ents - k" using chunk_ok [OF k] k by linarith
    obtain f2 w2 where r: "readdir_loop io nid d (word_of_nat (k + chunk k)) (acc @ take (chunk k) (drop k ents)) (f1, w1) =
        Some ((0, (acc @ take (chunk k) (drop k ents)) @ drop (k + chunk k) ents), (f2, w2))" "I w2"
      using less.hyps [OF lt x(2), of "acc @ take (chunk k) (drop k ents)" f1] chunk_ok [OF k] by blast
    have "take (chunk k) (drop k ents) @ drop (k + chunk k) ents = drop k ents"
      using append_take_drop_id [of "chunk k" "drop k ents"] by (simp add: add.commute)
    with x p r dir_body_empty [OF k] show ?thesis
      by (subst readdir_loop.simps) (simp del: of_nat_add)
  qed
qed

lemma opendir_served:
  assumes "I w"
  shows "\<exists>s' w'. xfer io FUSE_OPENDIR nid (fuse_open_in 0) 16 (f, w) =
      (Inr (le64 dh @ le32 0 @ le32 0, 16), (s', w')) \<and> I w'"
proof -
  have "fuse_reply (srv (req f FUSE_OPENDIR nid (fuse_open_in 0))) = Inr (le64 dh @ le32 0 @ le32 0)"
    using srv_opendir [of "req f FUSE_OPENDIR nid (fuse_open_in 0)"] by (simp add: req_def)
  then show ?thesis
    using xfer_served [OF assms, of "fuse_open_in 0" FUSE_OPENDIR nid 16 f]
    by (auto simp: fuse_open_in_def cap_defs)
qed

lemma fused_readdir_served:
  assumes "I w" and "resolve io path s = (Inr nid, (f, w))"
  shows "\<exists>s'. fused_readdir io path s = Some ((0, ents), s')"
proof -
  obtain f1 w1 where o: "xfer io FUSE_OPENDIR nid (fuse_open_in 0) 16 (f, w) =
      (Inr (le64 dh @ le32 0 @ le32 0, 16), (f1, w1))" "I w1"
    using opendir_served [OF assms(1)] by blast
  obtain f2 w2 where r: "readdir_loop io nid dh (word_of_nat 0) [] (f1, w1) = Some ((0, [] @ drop 0 ents), (f2, w2))"
    using readdir_loop_served [OF o(2), of 0 dh "[]" f1] by blast
  then show ?thesis using assms(2) o by (simp add: fused_readdir_def Let_def)
qed

end

section \<open>A listing daemon\<close>

definition dir_srv :: "u64 \<Rightarrow> (string \<times> u32) list \<Rightarrow> bytes \<Rightarrow> bytes" where
  "dir_srv dh ents m =
     (if hdr_opcode m = FUSE_OPENDIR then reply_ok (hdr_unique m) (le64 dh @ le32 0 @ le32 0)
      else if hdr_opcode m = FUSE_READDIR then
        let k = unat (get64 48 m) in
        reply_ok (hdr_unique m) (dir_body ents (\<lambda>i. word_of_nat (i + 2)) k (if k < length ents then 1 else 0))
      else reply_err (hdr_unique m) (- ENOSYS))"

lemma direct_fuse_dir:
  assumes "list_all (\<lambda>e. dname_ok (fst e)) ents" and "length ents < 2 ^ 63"
  shows "fuse_dir (direct_io (dir_srv dh ents)) (\<lambda>_. True) (dir_srv dh ents) nid dh ents
      (\<lambda>i. word_of_nat (i + 2)) (\<lambda>k. if k < length ents then 1 else 0)"
proof (intro fuse_dir.intro fuse_dir_axioms.intro)
  show "fuse_server (direct_io (dir_srv dh ents)) (\<lambda>_. True) (dir_srv dh ents)" by (rule direct_fuse_server)
next
  fix i assume "i < length ents" then show "dname_ok (fst (ents ! i))" using assms(1) by (simp add: list_all_length)
next
  fix k assume k: "k < length ents"
  then have "length (fst (ents ! k)) \<le> 255" using assms(1) by (simp add: list_all_length dname_ok_def)
  then have "dirent_align (24 + length (fst (ents ! k))) \<le> 4096"
    using dirent_align_less [of "24 + length (fst (ents ! k))"] by simp
  with k show "0 < (if k < length ents then 1 else 0 :: nat) \<and> k + (if k < length ents then 1 else 0) \<le> length ents \<and>
      length (dir_body ents (\<lambda>i. word_of_nat (i + 2)) k (if k < length ents then 1 else 0)) \<le> 4096"
    by (simp add: dir_body_def)
next
  fix m k assume "hdr_opcode m = FUSE_READDIR" "k \<le> length ents" "get64 48 m = word_of_nat k"
  then show "dir_srv dh ents m = reply_ok (hdr_unique m)
      (dir_body ents (\<lambda>i. word_of_nat (i + 2)) k (if k < length ents then 1 else 0))"
    using assms(2) unat_u64 [of k] by (simp add: dir_srv_def opcode_defs Let_def)
qed (simp_all add: dir_srv_def opcode_defs)

definition ex_ents :: "(string \<times> u32) list" where
  "ex_ents = [(''.'', 4), (''readme'', 8), (''src'', 4)]"

lemma ex_ents_ok: "list_all (\<lambda>e. dname_ok (fst e)) ex_ents" "length ex_ents < 2 ^ 63"
  by (simp_all add: ex_ents_def dname_ok_def)

interpretation ex_dir: fuse_dir "direct_io (dir_srv 9 ex_ents)" "\<lambda>_. True" "dir_srv 9 ex_ents" FUSE_ROOT_ID 9 ex_ents
    "\<lambda>i. word_of_nat (i + 2)" "\<lambda>k. if k < length ex_ents then 1 else 0"
  by (rule direct_fuse_dir [OF ex_ents_ok])

section \<open>Operations over a served engine\<close>

context fuse_server
begin

lemma fused_read_served:
  assumes "resolve io path s = (Inr nid, (f, w))" and "I w"
    and "n = (if unat (f_max_write f) < sz then unat (f_max_write f) else sz)"
  shows "fst (fused_read io path fh sz off s) =
    map_sum id (take n) (fuse_reply (srv (req f FUSE_READ nid (fuse_read_in fh (word_of_int off) (word_of_nat n)))))"
proof -
  have l: "40 + length (fuse_read_in fh (word_of_int off) (word_of_nat n)) \<le> FUSED_MSGCAP"
    by (simp add: fuse_read_in_def cap_defs)
  let ?R = "fuse_reply (srv (req f FUSE_READ nid (fuse_read_in fh (word_of_int off) (word_of_nat n))))"
  have r: "fst (fused_read io path fh sz off s) =
      fst (rbind (xfer io FUSE_READ nid (fuse_read_in fh (word_of_int off) (word_of_nat n)) n)
         (\<lambda>(buf, bl). rret (take (if n < bl then n else bl) buf)) (f, w))"
    using assms(1,3) by (simp only: fused_read_def rbind_Inr [of "resolve io path", OF assms(1)] prod.case Let_def)
  show ?thesis
    using xfer_served [OF assms(2) l, of FUSE_READ nid n f]
    by (cases ?R) (auto simp: r rbind_def)
qed

lemma fused_write_served:
  assumes "resolve io path s = (Inr nid, (f, w))" and "I w" and "unat (f_max_write f) \<le> FUSED_MAXDATA"
    and "n = min (length buf) (unat (f_max_write f))"
  shows "fst (fused_write io path fh buf off s) =
    (case fuse_reply (srv (req f FUSE_WRITE nid (fuse_write_in fh (word_of_int off) (word_of_nat n) @ take n buf))) of
       Inl e \<Rightarrow> Inl e
     | Inr b \<Rightarrow> if length b < 8 then Inl (- EIO) else Inr (sint (get32 0 b)))"
proof -
  let ?b = "fuse_write_in fh (word_of_int off) (word_of_nat n) @ take n buf"
  have n: "(if unat (f_max_write f) < length buf then unat (f_max_write f) else length buf) = n"
    "\<not> FUSED_MSGCAP < 80 + n"
    using assms(3,4) by (auto simp: cap_defs)
  have l: "40 + length ?b \<le> FUSED_MSGCAP" using n(2) by (simp add: fuse_write_in_def)
  show ?thesis
    using exchange_served [OF assms(2) l, of FUSE_WRITE nid f] assms(1)
    by (cases "fuse_reply (srv (req f FUSE_WRITE nid ?b))") (auto simp: fused_write_def rbind_def n Let_def)
qed

lemma setattr_served:
  assumes "resolve io path s = (Inr nid, (f, w))" and "I w"
  shows "fst (setattr io path valid a s) =
    map_sum id (\<lambda>_. ()) (fuse_reply (srv (req f FUSE_SETATTR nid (setattr_bytes valid a))))"
proof -
  have l: "40 + length (setattr_bytes valid a) \<le> FUSED_MSGCAP" by (simp add: setattr_bytes_def cap_defs)
  show ?thesis
    using xfer_served [OF assms(2) l, of FUSE_SETATTR nid 104 f] assms(1)
    by (cases "fuse_reply (srv (req f FUSE_SETATTR nid (setattr_bytes valid a)))") (auto simp: setattr_def rbind_def)
qed

lemma fused_getattr_served:
  assumes "resolve io path s = (Inr nid, (f, w))" and "I w"
    and "srv (req f FUSE_GETATTR nid fuse_getattr_in) = reply_ok u (attr_out a)"
  shows "fst (fused_getattr io path s) = Inr (attr_to_stat a)"
proof -
  have l: "40 + length fuse_getattr_in \<le> FUSED_MSGCAP" by (simp add: fuse_getattr_in_def cap_defs)
  show ?thesis
    using xfer_served [OF assms(2) l, of FUSE_GETATTR nid 104 f] assms(1,3) attr_out_attr_enc [of a "[]"]
    by (auto simp: fused_getattr_def rbind_def)
qed

lemma fused_init_served:
  assumes "I w" and "srv (req f FUSE_INIT 0 fuse_init_in) =
      reply_ok u (le32 FUSE_KERNEL_VERSION @ le32 minor @ le32 ra @ le32 fl @ le16 bg @ le16 ct @ le32 mw @ rest)"
  shows "\<exists>w'. fused_init io (f, w) =
    (Inr (), (f\<lparr>f_unique := f_unique f + 1, f_proto_minor := minor,
        f_max_write := (if mw = 0 then f_max_write f
                        else if unat mw < FUSED_MAXDATA then mw else word_of_nat FUSED_MAXDATA),
        f_inited := True\<rparr>, w')) \<and> I w'"
proof -
  have l: "40 + length fuse_init_in \<le> FUSED_MSGCAP" by (simp add: fuse_init_in_def cap_defs)
  show ?thesis
    using xfer_served [OF assms(1) l, of FUSE_INIT 0 64 f] assms(2)
    by (auto simp: fused_init_def rbind_def Let_def get_skips)
qed

end

section \<open>Teardown\<close>

text \<open>A transport that does not call back into the engine while sending, with memory available.\<close>

definition io_quiet :: "'w fio \<Rightarrow> bool" where
  "io_quiet io \<longleftrightarrow> (\<forall>m f w. fst (snd (tx_send io m (f, w))) = f) \<and> (\<forall>n w. fst (sys_alloc io n w))"

definition msg_key :: "bytes \<Rightarrow> u32 \<times> u64" where
  "msg_key m = (hdr_opcode m, hdr_nodeid m)"

lemma log_tx_send:
  "tx_send io m (f, w) = (r, (f', w')) \<Longrightarrow> snd (tx_send (log_io io) m (f, (l, w))) = (f', (l @ [m], w'))"
  by (simp add: tx_send_def [of "log_io io"]) (simp add: log_io_def)

lemma log_sys_alloc: "sys_alloc io n w = (ok, w') \<Longrightarrow> sys_alloc (log_io io) n (l, w) = (ok, (l, w'))"
  by (simp add: log_io_def)

lemma xfer_noreply_logged:
  assumes "io_quiet io" and "40 + length body \<le> FUSED_MSGCAP"
  shows "\<exists>m w'. xfer_noreply (log_io io) opc nid body (f, (l, w)) = (f\<lparr>f_unique := f_unique f + 1\<rparr>, (l @ [m], w')) \<and>
    msg_key m = (opc, nid) \<and> drop 40 m = body"
proof -
  let ?f = "f\<lparr>f_unique := f_unique f + 1\<rparr>"
  let ?m = "fuse_in_header ?f (40 + length body) opc nid @ body"
  have q: "fst (sys_alloc io (40 + length body) w)" "\<And>w1. fst (snd (tx_send io ?m (?f, w1))) = ?f"
    using assms(1) by (simp_all add: io_quiet_def)
  obtain w1 where a: "sys_alloc io (40 + length body) w = (True, w1)"
    using q(1) by (cases "sys_alloc io (40 + length body) w") auto
  obtain r w2 where t: "tx_send io ?m (?f, w1) = (r, (?f, w2))"
    using q(2) [of w1] by (cases "tx_send io ?m (?f, w1)") auto
  have "xfer_noreply (log_io io) opc nid body (f, (l, w)) = (?f, (l @ [?m], w2))"
    using assms(2) by (simp add: xfer_noreply_def log_sys_alloc [OF a] log_tx_send [OF t] Let_def)
  moreover have "msg_key ?m = (opc, nid)" "drop 40 ?m = body" by (simp_all add: msg_key_def)
  ultimately show ?thesis by blast
qed

lemma forget_loop_logged:
  assumes "io_quiet io"
  shows "\<exists>f' ms w'. forget_loop (log_io io) i (f, (l, w)) = Some (f', (l @ ms, w')) \<and>
    map msg_key ms = map (\<lambda>n. (FUSE_FORGET, fn_nodeid n)) (drop i (f_nodes f))"
proof (induction "length (f_nodes f) - i" arbitrary: i f l w)
  case 0
  then show ?case by (subst forget_loop.simps) simp
next
  case (Suc k)
  then have i: "i < length (f_nodes f)" by simp
  obtain m w1 where x: "xfer_noreply (log_io io) FUSE_FORGET (fn_nodeid (f_nodes f ! i)) (fuse_forget_in 1) (f, (l, w)) =
      (f\<lparr>f_unique := f_unique f + 1\<rparr>, (l @ [m], w1))" "msg_key m = (FUSE_FORGET, fn_nodeid (f_nodes f ! i))"
    using xfer_noreply_logged [OF assms, of "fuse_forget_in 1"] by (fastforce simp: fuse_forget_in_def cap_defs)
  have k: "k = length (f_nodes (f\<lparr>f_unique := f_unique f + 1\<rparr>)) - Suc i" using Suc(2) by simp
  obtain f' ms w' where r: "forget_loop (log_io io) (Suc i) (f\<lparr>f_unique := f_unique f + 1\<rparr>, (l @ [m], w1)) =
      Some (f', ((l @ [m]) @ ms, w'))"
      "map msg_key ms = map (\<lambda>n. (FUSE_FORGET, fn_nodeid n)) (drop (Suc i) (f_nodes f))"
    using Suc(1) [OF k, of "l @ [m]" w1] by auto
  have "forget_loop (log_io io) i (f, (l, w)) = Some (f', (l @ (m # ms), w'))"
    using i x r by (subst forget_loop.simps) simp
  moreover have "map msg_key (m # ms) = map (\<lambda>n. (FUSE_FORGET, fn_nodeid n)) (drop i (f_nodes f))"
    using i x r by (simp add: Cons_nth_drop_Suc [symmetric])
  ultimately show ?case by blast
qed

section \<open>Properties\<close>

text \<open>
  C14. Directory listing is complete and ends: when the daemon lists a directory in
  chunks of its choosing, \<open>fused_readdir\<close> returns success and emits exactly the
  directory's entries, in order, each once.
\<close>

theorem readdir_complete:
  assumes "fuse_dir io I srv nid dh ents ino chunk" and "I w"
    and "resolve io path s = (Inr nid, (f, w))"
  shows "\<exists>s'. fused_readdir io path s = Some ((0, ents), s')"
  using fuse_dir.fused_readdir_served [OF assms] .

theorem readdir_complete_witness:
  "\<exists>s'. fused_readdir (direct_io (dir_srv 9 ex_ents)) ''/'' (fused_zero, None) =
     Some ((0, [(''.'', 4), (''readme'', 8), (''src'', 4)]), s')"
  using readdir_complete [OF ex_dir.fuse_dir_axioms TrueI resolve_root, of fused_zero None]
  by (simp add: ex_ents_def)

text \<open>
  C24. Teardown of an initialised engine returns every lookup reference: over a
  transport that does not re-enter the engine, the messages sent are one FORGET
  per cached node, in cache order, followed by one DESTROY, and the call returns.
\<close>

theorem destroy_forgets_every_node:
  assumes "io_quiet io" and "f_inited f"
  shows "\<exists>msgs w'. fused_destroy (log_io io) (f, ([], w)) = Some (msgs, w') \<and>
    map msg_key msgs = map (\<lambda>n. (FUSE_FORGET, fn_nodeid n)) (f_nodes f) @ [(FUSE_DESTROY, 0)]"
proof -
  obtain f' ms w' where l: "forget_loop (log_io io) 0 (f, ([], w)) = Some (f', (ms, w'))"
      "map msg_key ms = map (\<lambda>n. (FUSE_FORGET, fn_nodeid n)) (f_nodes f)"
    using forget_loop_logged [OF assms(1), of 0 f "[]" w] by auto
  obtain m w2 where x: "xfer_noreply (log_io io) FUSE_DESTROY 0 [] (f', (ms, w')) =
      (f'\<lparr>f_unique := f_unique f' + 1\<rparr>, (ms @ [m], w2))" "msg_key m = (FUSE_DESTROY, 0)"
    using xfer_noreply_logged [OF assms(1), of "[]" FUSE_DESTROY 0 f' ms w'] by (auto simp: cap_defs)
  then show ?thesis using assms(2) l by (simp add: fused_destroy_def)
qed

theorem destroy_forgets_every_node_witness:
  "\<exists>msgs w'. fused_destroy (log_io (direct_io id)) (fused_zero\<lparr>f_inited := True,
       f_nodes := [\<lparr>fn_path = ''/a'', fn_nodeid = 2\<rparr>, \<lparr>fn_path = ''/b'', fn_nodeid = 5\<rparr>]\<rparr>, ([], None)) = Some (msgs, w') \<and>
     map msg_key msgs = [(FUSE_FORGET, 2), (FUSE_FORGET, 5), (FUSE_DESTROY, 0)]"
proof -
  have "io_quiet (direct_io id)" by (simp add: io_quiet_def direct_io_def tx_send_def)
  from destroy_forgets_every_node [OF this, of "fused_zero\<lparr>f_inited := True,
      f_nodes := [\<lparr>fn_path = ''/a'', fn_nodeid = 2\<rparr>, \<lparr>fn_path = ''/b'', fn_nodeid = 5\<rparr>]\<rparr>" None]
  show ?thesis by simp
qed

text \<open>
  C25. A write is clamped to the negotiated size: the daemon receives one WRITE on
  the resolved node whose size field is the number of data bytes that follow, those
  bytes are the first \<open>min (length buf) max_write\<close> of the caller's, at the caller's
  offset and handle, and the count the daemon accepts is returned.
\<close>

theorem fused_write_message:
  assumes "fuse_server io I srv" and "I w" and "resolve io path s = (Inr nid, (f, w))"
    and "unat (f_max_write f) \<le> FUSED_MAXDATA" and "n = min (length buf) (unat (f_max_write f))"
  shows "\<exists>m. hdr_opcode m = FUSE_WRITE \<and> hdr_nodeid m = nid \<and> hdr_unique m = f_unique f + 1 \<and>
      get64 40 m = fh \<and> get64 48 m = word_of_int off \<and> unat (get32 56 m) = n \<and> drop 80 m = take n buf \<and>
      length m \<le> FUSED_MSGCAP \<and>
      fst (fused_write io path fh buf off s) =
        (case fuse_reply (srv m) of
           Inl e \<Rightarrow> Inl e
         | Inr b \<Rightarrow> if length b < 8 then Inl (- EIO) else Inr (sint (get32 0 b)))"
proof -
  let ?m = "req f FUSE_WRITE nid (fuse_write_in fh (word_of_int off) (word_of_nat n) @ take n buf)"
  have n: "n \<le> FUSED_MAXDATA" "length (take n buf) = n" using assms(4,5) by auto
  have "unat (word_of_nat n :: u32) = n" using n(1) by (intro unat_u32) (simp add: cap_defs)
  moreover have "get64 40 ?m = fh" "get64 48 ?m = word_of_int off" "get32 56 ?m = word_of_nat n" "drop 80 ?m = take n buf"
    by (simp_all add: req_def fuse_write_in_def get_skips)
  moreover have "length ?m \<le> FUSED_MSGCAP" using n by (simp add: req_def fuse_write_in_def cap_defs)
  ultimately show ?thesis
    using fuse_server.fused_write_served [OF assms(1,3,2,4,5), of fh off]
    by (intro exI [of _ ?m]) (simp add: req_def)
qed

definition accept_srv :: "bytes \<Rightarrow> bytes" where
  "accept_srv m = reply_ok (hdr_unique m) (le32 (get32 56 m) @ le32 0)"

theorem fused_write_message_witness:
  "fst (fused_write (direct_io accept_srv) ''/'' 7 ''hello'' 100 (fused_zero\<lparr>f_max_write := 3\<rparr>, None)) = Inr 3"
proof -
  let ?f = "fused_zero\<lparr>f_max_write := 3\<rparr>"
  have mx: "unat (f_max_write ?f) \<le> FUSED_MAXDATA" by (simp add: cap_defs)
  have n: "3 = min (length ''hello'') (unat (f_max_write ?f))" by simp
  obtain m where m: "unat (get32 56 m) = 3"
      "fst (fused_write (direct_io accept_srv) ''/'' 7 ''hello'' 100 (?f, None)) =
        (case fuse_reply (accept_srv m) of Inl e \<Rightarrow> Inl e
         | Inr b \<Rightarrow> if length b < 8 then Inl (- EIO) else Inr (sint (get32 0 b)))"
    using fused_write_message [OF direct_fuse_server TrueI resolve_root mx n] by blast
  have "get32 56 m = 3" by (simp add: word_unat_eq_iff m(1))
  with m(2) show ?thesis by (simp add: accept_srv_def)
qed

text \<open>
  C26. A read asks for no more than the negotiated size and returns no more than
  it asked for: the daemon receives one READ whose size field is
  \<open>min size max_write\<close>, and the caller gets the first that many bytes of the reply.
\<close>

theorem fused_read_message:
  assumes "fuse_server io I srv" and "I w" and "resolve io path s = (Inr nid, (f, w))"
    and "n = min sz (unat (f_max_write f))"
  shows "\<exists>m. hdr_opcode m = FUSE_READ \<and> hdr_nodeid m = nid \<and> get64 40 m = fh \<and>
      get64 48 m = word_of_int off \<and> unat (get32 56 m) = n \<and>
      fst (fused_read io path fh sz off s) = map_sum id (take n) (fuse_reply (srv m))"
proof -
  let ?m = "req f FUSE_READ nid (fuse_read_in fh (word_of_int off) (word_of_nat n))"
  have e: "n = (if unat (f_max_write f) < sz then unat (f_max_write f) else sz)" using assms(4) by auto
  have "n < 2 ^ 32" using assms(4) unsigned_less [of "f_max_write f", where ?'a = nat] by simp
  then have "unat (word_of_nat n :: u32) = n" by (rule unat_u32)
  moreover have "get64 40 ?m = fh" "get64 48 ?m = word_of_int off" "get32 56 ?m = word_of_nat n"
    by (simp_all add: req_def fuse_read_in_def get_skips)
  ultimately show ?thesis
    using fuse_server.fused_read_served [OF assms(1,3,2) e, of fh off]
    by (intro exI [of _ ?m]) (simp add: req_def)
qed

theorem fused_read_message_witness:
  "fst (fused_read (direct_io (\<lambda>m. reply_ok (hdr_unique m) ''abcdef'')) ''/'' 7 10 0
     (fused_zero\<lparr>f_max_write := 4\<rparr>, None)) = Inr ''abcd''"
  using fused_read_message [OF direct_fuse_server TrueI resolve_root, where srv = "\<lambda>m. reply_ok (hdr_unique m) ''abcdef''"
      and f = "fused_zero\<lparr>f_max_write := 4\<rparr>" and w = None and n = 4 and sz = 10 and fh = 7 and off = 0]
  by auto

text \<open>
  \<open>fused_chown\<close> changes exactly what is asked: the SETATTR it sends marks the
  owner valid iff the uid is not \<^verbatim>\<open>-1\<close>, the group iff the gid is not \<^verbatim>\<open>-1\<close>, no other
  attribute, and carries the requested ids; with both \<^verbatim>\<open>-1\<close> it succeeds and sends nothing.
\<close>

theorem fused_chown_exact:
  assumes "fuse_server io I srv" and "I w" and "resolve io path s = (Inr nid, (f, w))"
  shows "if uid = - 1 \<and> gid = - 1 then fused_chown io path uid gid s = (Inr (), s)
    else \<exists>m. hdr_opcode m = FUSE_SETATTR \<and> hdr_nodeid m = nid \<and>
      get32 40 m = (if uid = - 1 then 0 else 2) + (if gid = - 1 then 0 else 4) \<and>
      get32 116 m = (if uid = - 1 then 0 else uid) \<and> get32 120 m = (if gid = - 1 then 0 else gid) \<and>
      fst (fused_chown io path uid gid s) = map_sum id (\<lambda>_. ()) (fuse_reply (srv m))"
proof (cases "uid = - 1 \<and> gid = - 1")
  case True
  then show ?thesis by (simp add: fused_chown_def)
next
  case False
  let ?v = "(if uid = - 1 then 0 else 2) + (if gid = - 1 then 0 else 4) :: u32"
  let ?a = "setattr_zero\<lparr>sa_uid := if uid = - 1 then 0 else uid, sa_gid := if gid = - 1 then 0 else gid\<rparr>"
  let ?m = "req f FUSE_SETATTR nid (setattr_bytes ?v ?a)"
  have "fused_chown io path uid gid s = setattr io path ?v ?a s"
    using False by (auto simp: fused_chown_def fattr_defs setattr_zero_def Let_def)
  moreover have "get32 40 ?m = ?v" "get32 116 ?m = (if uid = - 1 then 0 else uid)"
      "get32 120 ?m = (if gid = - 1 then 0 else gid)"
    by (simp_all add: req_def setattr_bytes_def get_skips)
  ultimately show ?thesis
    using False fuse_server.setattr_served [OF assms(1,3,2), of ?v ?a]
    by (simp only: if_False) (intro exI [of _ ?m], simp add: req_def)
qed

theorem fused_chown_exact_witness:
  "fst (fused_chown (direct_io (\<lambda>m. reply_ok (hdr_unique m) (le32 (get32 40 m)))) ''/'' 1000 (- 1) (fused_zero, None)) = Inr () \<and>
   fused_chown (direct_io (\<lambda>m. reply_ok (hdr_unique m) [])) ''/'' (- 1) (- 1) (fused_zero, None) = (Inr (), (fused_zero, None))"
  using fused_chown_exact [OF direct_fuse_server TrueI resolve_root, where srv = "\<lambda>m. reply_ok (hdr_unique m) (le32 (get32 40 m))"
      and f = fused_zero and w = None and uid = 1000 and gid = "- 1"]
    fused_chown_exact [OF direct_fuse_server TrueI resolve_root, where srv = "\<lambda>m. reply_ok (hdr_unique m) []"
      and f = fused_zero and w = None and uid = "- 1" and gid = "- 1"]
  by auto

text \<open>
  Negotiation: when the daemon answers INIT with the protocol's major version,
  the engine is initialised, remembers the daemon's minor version, and takes its
  transfer size if it offers one, capped at \<^verbatim>\<open>FUSED_MAXDATA\<close>.
\<close>

theorem fused_init_negotiates:
  assumes "fuse_server io I srv" and "I w"
    and "srv (req f FUSE_INIT 0 fuse_init_in) =
      reply_ok u (le32 FUSE_KERNEL_VERSION @ le32 minor @ le32 ra @ le32 fl @ le16 bg @ le16 ct @ le32 mw @ rest)"
  shows "\<exists>w'. fused_init io (f, w) =
    (Inr (), (f\<lparr>f_unique := f_unique f + 1, f_proto_minor := minor,
        f_max_write := (if mw = 0 then f_max_write f
                        else if unat mw < FUSED_MAXDATA then mw else word_of_nat FUSED_MAXDATA),
        f_inited := True\<rparr>, w')) \<and> I w'"
  using fuse_server.fused_init_served [OF assms] .

theorem fused_init_negotiates_witness:
  "f_max_write (fst (snd (fused_init (direct_io (\<lambda>m. reply_ok (hdr_unique m)
     (le32 FUSE_KERNEL_VERSION @ le32 31 @ le32 0 @ le32 0 @ le16 0 @ le16 0 @ le32 65536 @ []))) (fused_zero, None)))) = 65536"
  using fused_init_negotiates [OF direct_fuse_server TrueI, where f = fused_zero and w = None
      and srv = "\<lambda>m. reply_ok (hdr_unique m)
        (le32 FUSE_KERNEL_VERSION @ le32 31 @ le32 0 @ le32 0 @ le16 0 @ le16 0 @ le32 65536 @ [])"
      and u = "hdr_unique (req fused_zero FUSE_INIT 0 fuse_init_in)" and minor = 31 and ra = 0 and fl = 0 and bg = 0 and ct = 0 and mw = 65536 and rest = "[]"]
  by (auto simp: cap_defs)

end
