(* ===== verification/Scan.thy ===== *)
theory Scan
  imports Prelude
begin

text \<open>
  The C string functions the redirect and the daemon parse text with: \<^verbatim>\<open>strstr\<close>,
  \<^verbatim>\<open>strrchr\<close>, \<^verbatim>\<open>atoi\<close>, \<^verbatim>\<open>strtol\<close>, \<^verbatim>\<open>strtoull\<close> in base 16 and the conversions of
  \<^verbatim>\<open>sscanf\<close> that occur (\<^verbatim>\<open>%d\<close>, \<^verbatim>\<open>%ld\<close>, \<^verbatim>\<open>%u\<close>, \<^verbatim>\<open>%lu\<close>, \<^verbatim>\<open>%zu\<close>). A conversion returns the
  value and the rest of the input, or \<open>None\<close> when it does not match.
\<close>

section \<open>Definitions\<close>

definition starts_with :: "string \<Rightarrow> string \<Rightarrow> bool" where
  "starts_with p s \<longleftrightarrow> take (length p) s = p"

text \<open>\<^verbatim>\<open>strstr\<close>: the suffix that begins with the first occurrence.\<close>

fun strstr :: "string \<Rightarrow> string \<Rightarrow> string option" where
  "strstr [] p = (if p = [] then Some [] else None)"
| "strstr (c # s) p = (if starts_with p (c # s) then Some (c # s) else strstr s p)"

text \<open>\<^verbatim>\<open>b = strrchr(s, '/'); b ? b + 1 : s\<close>\<close>

definition basename :: "string \<Rightarrow> string" where
  "basename s = rev (takeWhile (\<lambda>c. c \<noteq> SLASH) (rev s))"

text \<open>Digits of an unsigned number, saturating at \<^verbatim>\<open>ULLONG_MAX\<close> as \<^verbatim>\<open>strtoull\<close> does.\<close>

definition scan_digits :: "string \<Rightarrow> (nat \<times> string) option" where
  "scan_digits s =
     (let ds = takeWhile is_digit s in
      if ds = [] then None else Some (digits_val ds, dropWhile is_digit s))"

definition scan_sign :: "string \<Rightarrow> bool \<times> string" where
  "scan_sign s = (case s of
     c # r \<Rightarrow> if c = CHR ''-'' then (True, r) else if c = CHR ''+'' then (False, r) else (False, s)
   | [] \<Rightarrow> (False, []))"

text \<open>\<^verbatim>\<open>%ld\<close> and \<^verbatim>\<open>strtol\<close>: saturate to the 64-bit range.\<close>

definition clamp_i64 :: "int \<Rightarrow> int" where
  "clamp_i64 i = max (- (2 ^ 63)) (min (2 ^ 63 - 1) i)"

definition scan_long :: "string \<Rightarrow> (int \<times> string) option" where
  "scan_long s =
     (let (neg, r) = scan_sign (skip_ws s) in
      case scan_digits r of
        None \<Rightarrow> None
      | Some (n, r') \<Rightarrow> Some (clamp_i64 (if neg then - int n else int n), r'))"

text \<open>\<^verbatim>\<open>%d\<close>: the 64-bit value cut to 32 bits.\<close>

definition scan_int :: "string \<Rightarrow> (int \<times> string) option" where
  "scan_int s = map_option (\<lambda>(i, r). (sint (word_of_int i :: u32), r)) (scan_long s)"

text \<open>\<^verbatim>\<open>%lu\<close>, \<^verbatim>\<open>%zu\<close> and \<^verbatim>\<open>strtoull\<close>: saturate at \<^verbatim>\<open>2^64 - 1\<close>; a minus sign negates modulo \<^verbatim>\<open>2^64\<close>.\<close>

definition scan_ulong :: "string \<Rightarrow> (u64 \<times> string) option" where
  "scan_ulong s =
     (let (neg, r) = scan_sign (skip_ws s) in
      case scan_digits r of
        None \<Rightarrow> None
      | Some (n, r') \<Rightarrow>
          if 2 ^ 64 \<le> n then Some (- 1, r')
          else Some (if neg then - word_of_nat n else word_of_nat n, r'))"

definition scan_uint :: "string \<Rightarrow> (u32 \<times> string) option" where
  "scan_uint s = map_option (\<lambda>(v, r). (ucast v, r)) (scan_ulong s)"

definition atoi :: "string \<Rightarrow> int" where
  "atoi s = (case scan_int s of None \<Rightarrow> 0 | Some (i, r) \<Rightarrow> i)"

text \<open>\<^verbatim>\<open>strtoull(s, NULL, 16)\<close> on plain digits (an optional \<^verbatim>\<open>0x\<close> does not occur in /proc).\<close>

definition hex_val :: "char \<Rightarrow> nat option" where
  "hex_val c =
     (let n = of_char c :: nat in
      if 48 \<le> n \<and> n \<le> 57 then Some (n - 48)
      else if 97 \<le> n \<and> n \<le> 102 then Some (n - 87)
      else if 65 \<le> n \<and> n \<le> 70 then Some (n - 55)
      else None)"

fun hex_loop :: "nat \<Rightarrow> string \<Rightarrow> nat" where
  "hex_loop a [] = a"
| "hex_loop a (c # s) = (case hex_val c of None \<Rightarrow> a | Some d \<Rightarrow> hex_loop (16 * a + d) s)"

definition strtoull16 :: "string \<Rightarrow> u64" where
  "strtoull16 s = (let n = hex_loop 0 (skip_ws s) in if 2 ^ 64 \<le> n then - 1 else word_of_nat n)"

section \<open>Lemmas\<close>

lemma takeWhile_digits_append:
  "(\<And>c. c \<in> set ds \<Longrightarrow> is_digit c) \<Longrightarrow> r = [] \<or> \<not> is_digit (hd r) \<Longrightarrow>
   takeWhile is_digit (ds @ r) = ds \<and> dropWhile is_digit (ds @ r) = r"
proof (induction ds)
  case Nil
  then show ?case by (cases r) auto
qed auto

lemma scan_digits_show:
  "r = [] \<or> \<not> is_digit (hd r) \<Longrightarrow> scan_digits (show_nat n @ r) = Some (n, r)"
  using takeWhile_digits_append [of "show_nat n" r] show_nat_digits [of _ n]
  by (simp add: scan_digits_def Let_def)

lemma show_nat_hd: "\<exists>c s. show_nat n = c # s \<and> is_digit c"
  using show_nat_nonempty [of n] show_nat_digits [of "hd (show_nat n)" n]
  by (cases "show_nat n") auto

lemma skip_ws_show [simp]: "skip_ws (show_nat n @ r) = show_nat n @ r"
  using show_nat_hd [of n] digit_not_space by (auto simp: skip_ws_def)

lemma scan_sign_show [simp]: "scan_sign (show_nat n @ r) = (False, show_nat n @ r)"
  using show_nat_hd [of n] digit_not_special by (auto simp: scan_sign_def)

lemma scan_sign_neg [simp]: "scan_sign (CHR ''-'' # s) = (True, s)"
  by (simp add: scan_sign_def)

lemma skip_ws_neg [simp]: "skip_ws (CHR ''-'' # s) = CHR ''-'' # s"
  by (simp add: skip_ws_def is_space_def)

text \<open>Reading back what \<^verbatim>\<open>printf\<close> writes.\<close>

lemma scan_long_show_int:
  assumes "- (2 ^ 63) \<le> i" and "i < 2 ^ 63" and "r = [] \<or> \<not> is_digit (hd r)"
  shows "scan_long (show_int i @ r) = Some (i, r)"
  using assms by (auto simp: scan_long_def show_int_def Let_def scan_digits_show clamp_i64_def)

lemma scan_ulong_show_nat:
  assumes "n < 2 ^ 64" and "r = [] \<or> \<not> is_digit (hd r)"
  shows "scan_ulong (show_nat n @ r) = Some (word_of_nat n, r)"
  using assms by (simp add: scan_ulong_def scan_digits_show)

lemma scan_int_show_int:
  assumes "- (2 ^ 31) \<le> i" and "i < 2 ^ 31" and "r = [] \<or> \<not> is_digit (hd r)"
  shows "scan_int (show_int i @ r) = Some (i, r)"
  using assms scan_long_show_int [of i r]
  by (simp add: scan_int_def sint_sbintrunc' signed_take_bit_int_eq_self)

end
