(* ===== verification/RedirectState.thy ===== *)
theory RedirectState
  imports Fused Scan
begin

text \<open>
  The state of the redirect (\<^verbatim>\<open>proot/patches/uknl_fs_redirect.c\<close>): every static table of
  the file as a list of records of its fixed length, the FUSE engines it owns as
  a heap addressed by number (a C pointer is a number, null is \<open>None\<close>), and what
  it does to its tracees (memory, result register, replaced system call, resumed
  threads). What the redirect asks of the operating system and of proot is
  collected in the record \<open>env\<close>, over an opaque world \<open>'o\<close>.
\<close>

section \<open>Tables\<close>

record ukfmsg =
  m_used :: bool
  m_uniq :: u64
  m_seq :: u64
  m_buf :: bytes

record ukfch =
  c_used :: bool
  c_pid :: int
  c_fd :: int
  c_eng :: "nat option"
  c_rq :: "ukfmsg list"
  c_rp :: "ukfmsg list"
  c_seq :: u64
  c_dmn :: "int option"
  c_dbuf :: u64
  c_dcnt :: u32
  c_dvec :: int
  c_parked :: bool
  c_owner :: int
  c_owner2 :: int
  c_app_pid :: int
  c_marker :: string

record fork_hint =
  fh_used :: bool
  fh_pid :: int
  fh_chan :: nat

record ukm =
  mt_used :: bool
  mt_vmount :: string
  mt_token :: string
  mt_fsname :: string
  mt_base :: int
  mt_size :: int
  mt_range :: bool
  mt_sock :: int
  mt_ready :: bool
  mt_fuse :: "nat option"
  mt_fuse_chan :: int
  mt_fuse_inited :: bool

record uklo =
  lo_used :: bool
  lo_img :: string
  lo_off :: int
  lo_sizelimit :: int
  lo_partscan :: bool

record uklofd =
  lf_used :: bool
  lf_pid :: int
  lf_fd :: int
  lf_hostfd :: int
  lf_base :: int
  lf_size :: int
  lf_cur :: int

record ukfs_dent =
  de_ino :: u64
  de_type :: int
  de_name :: string

record ukfs_vfd =
  v_used :: bool
  v_pid :: int
  v_fd :: int
  v_isdir :: bool
  v_wrote :: bool
  v_mnt :: int
  v_append :: bool
  v_mmapw :: bool
  v_off :: int
  v_path :: string
  v_backing :: string
  v_dents :: "ukfs_dent list option"
  v_dent_n :: nat
  v_dent_idx :: nat

record ukfs_pending =
  op_used :: bool
  op_pid :: int
  op_isdir :: bool
  op_append :: bool
  op_mnt :: int
  op_path :: string
  op_backing :: string

text \<open>A system call number, written as the name of the call; \<^verbatim>\<open>PR_void\<close> marks a cancelled call.\<close>

type_synonym sysnr = string

abbreviation PR_void :: sysnr where "PR_void \<equiv> ''void''"
abbreviation PR_read :: sysnr where "PR_read \<equiv> ''read''"
abbreviation PR_pread64 :: sysnr where "PR_pread64 \<equiv> ''pread64''"
abbreviation PR_readv :: sysnr where "PR_readv \<equiv> ''readv''"
abbreviation PR_write :: sysnr where "PR_write \<equiv> ''write''"
abbreviation PR_pwrite64 :: sysnr where "PR_pwrite64 \<equiv> ''pwrite64''"
abbreviation PR_writev :: sysnr where "PR_writev \<equiv> ''writev''"
abbreviation PR_lseek :: sysnr where "PR_lseek \<equiv> ''lseek''"
abbreviation PR_close :: sysnr where "PR_close \<equiv> ''close''"
abbreviation PR_ioctl :: sysnr where "PR_ioctl \<equiv> ''ioctl''"
abbreviation PR_mount :: sysnr where "PR_mount \<equiv> ''mount''"
abbreviation PR_umount2 :: sysnr where "PR_umount2 \<equiv> ''umount2''"
abbreviation PR_open :: sysnr where "PR_open \<equiv> ''open''"
abbreviation PR_openat :: sysnr where "PR_openat \<equiv> ''openat''"
abbreviation PR_openat2 :: sysnr where "PR_openat2 \<equiv> ''openat2''"
abbreviation PR_creat :: sysnr where "PR_creat \<equiv> ''creat''"
abbreviation PR_execve :: sysnr where "PR_execve \<equiv> ''execve''"
abbreviation PR_execveat :: sysnr where "PR_execveat \<equiv> ''execveat''"
abbreviation PR_chdir :: sysnr where "PR_chdir \<equiv> ''chdir''"
abbreviation PR_fchdir :: sysnr where "PR_fchdir \<equiv> ''fchdir''"
abbreviation PR_getcwd :: sysnr where "PR_getcwd \<equiv> ''getcwd''"
abbreviation PR_statfs :: sysnr where "PR_statfs \<equiv> ''statfs''"
abbreviation PR_statfs64 :: sysnr where "PR_statfs64 \<equiv> ''statfs64''"
abbreviation PR_fstatfs :: sysnr where "PR_fstatfs \<equiv> ''fstatfs''"
abbreviation PR_fstatfs64 :: sysnr where "PR_fstatfs64 \<equiv> ''fstatfs64''"
abbreviation PR_mmap :: sysnr where "PR_mmap \<equiv> ''mmap''"
abbreviation PR_mmap2 :: sysnr where "PR_mmap2 \<equiv> ''mmap2''"
abbreviation PR_msync :: sysnr where "PR_msync \<equiv> ''msync''"
abbreviation PR_copy_file_range :: sysnr where "PR_copy_file_range \<equiv> ''copy_file_range''"
abbreviation PR_sendfile :: sysnr where "PR_sendfile \<equiv> ''sendfile''"
abbreviation PR_sendfile64 :: sysnr where "PR_sendfile64 \<equiv> ''sendfile64''"
abbreviation PR_ftruncate :: sysnr where "PR_ftruncate \<equiv> ''ftruncate''"
abbreviation PR_getdents64 :: sysnr where "PR_getdents64 \<equiv> ''getdents64''"
abbreviation PR_fsync :: sysnr where "PR_fsync \<equiv> ''fsync''"
abbreviation PR_fdatasync :: sysnr where "PR_fdatasync \<equiv> ''fdatasync''"
abbreviation PR_fchmod :: sysnr where "PR_fchmod \<equiv> ''fchmod''"
abbreviation PR_fchown :: sysnr where "PR_fchown \<equiv> ''fchown''"
abbreviation PR_fstat :: sysnr where "PR_fstat \<equiv> ''fstat''"
abbreviation PR_newfstatat :: sysnr where "PR_newfstatat \<equiv> ''newfstatat''"
abbreviation PR_fstatat64 :: sysnr where "PR_fstatat64 \<equiv> ''fstatat64''"
abbreviation PR_statx :: sysnr where "PR_statx \<equiv> ''statx''"
abbreviation PR_stat :: sysnr where "PR_stat \<equiv> ''stat''"
abbreviation PR_lstat :: sysnr where "PR_lstat \<equiv> ''lstat''"
abbreviation PR_stat64 :: sysnr where "PR_stat64 \<equiv> ''stat64''"
abbreviation PR_lstat64 :: sysnr where "PR_lstat64 \<equiv> ''lstat64''"
abbreviation PR_getxattr :: sysnr where "PR_getxattr \<equiv> ''getxattr''"
abbreviation PR_lgetxattr :: sysnr where "PR_lgetxattr \<equiv> ''lgetxattr''"
abbreviation PR_listxattr :: sysnr where "PR_listxattr \<equiv> ''listxattr''"
abbreviation PR_llistxattr :: sysnr where "PR_llistxattr \<equiv> ''llistxattr''"
abbreviation PR_setxattr :: sysnr where "PR_setxattr \<equiv> ''setxattr''"
abbreviation PR_lsetxattr :: sysnr where "PR_lsetxattr \<equiv> ''lsetxattr''"
abbreviation PR_removexattr :: sysnr where "PR_removexattr \<equiv> ''removexattr''"
abbreviation PR_lremovexattr :: sysnr where "PR_lremovexattr \<equiv> ''lremovexattr''"
abbreviation PR_utimensat :: sysnr where "PR_utimensat \<equiv> ''utimensat''"
abbreviation PR_futimesat :: sysnr where "PR_futimesat \<equiv> ''futimesat''"
abbreviation PR_utimes :: sysnr where "PR_utimes \<equiv> ''utimes''"
abbreviation PR_access :: sysnr where "PR_access \<equiv> ''access''"
abbreviation PR_faccessat :: sysnr where "PR_faccessat \<equiv> ''faccessat''"
abbreviation PR_faccessat2 :: sysnr where "PR_faccessat2 \<equiv> ''faccessat2''"
abbreviation PR_readlinkat :: sysnr where "PR_readlinkat \<equiv> ''readlinkat''"
abbreviation PR_readlink :: sysnr where "PR_readlink \<equiv> ''readlink''"
abbreviation PR_mkdirat :: sysnr where "PR_mkdirat \<equiv> ''mkdirat''"
abbreviation PR_mkdir :: sysnr where "PR_mkdir \<equiv> ''mkdir''"
abbreviation PR_unlinkat :: sysnr where "PR_unlinkat \<equiv> ''unlinkat''"
abbreviation PR_rmdir :: sysnr where "PR_rmdir \<equiv> ''rmdir''"
abbreviation PR_unlink :: sysnr where "PR_unlink \<equiv> ''unlink''"
abbreviation PR_symlinkat :: sysnr where "PR_symlinkat \<equiv> ''symlinkat''"
abbreviation PR_symlink :: sysnr where "PR_symlink \<equiv> ''symlink''"
abbreviation PR_fchmodat :: sysnr where "PR_fchmodat \<equiv> ''fchmodat''"
abbreviation PR_fchmodat2 :: sysnr where "PR_fchmodat2 \<equiv> ''fchmodat2''"
abbreviation PR_chmod :: sysnr where "PR_chmod \<equiv> ''chmod''"
abbreviation PR_fchownat :: sysnr where "PR_fchownat \<equiv> ''fchownat''"
abbreviation PR_chown :: sysnr where "PR_chown \<equiv> ''chown''"
abbreviation PR_lchown :: sysnr where "PR_lchown \<equiv> ''lchown''"
abbreviation PR_truncate :: sysnr where "PR_truncate \<equiv> ''truncate''"
abbreviation PR_renameat :: sysnr where "PR_renameat \<equiv> ''renameat''"
abbreviation PR_renameat2 :: sysnr where "PR_renameat2 \<equiv> ''renameat2''"
abbreviation PR_rename :: sysnr where "PR_rename \<equiv> ''rename''"
abbreviation PR_dup :: sysnr where "PR_dup \<equiv> ''dup''"
abbreviation PR_dup2 :: sysnr where "PR_dup2 \<equiv> ''dup2''"
abbreviation PR_dup3 :: sysnr where "PR_dup3 \<equiv> ''dup3''"
abbreviation PR_fcntl :: sysnr where "PR_fcntl \<equiv> ''fcntl''"
abbreviation PR_fcntl64 :: sysnr where "PR_fcntl64 \<equiv> ''fcntl64''"

record pend_res =
  pr_used :: bool
  pr_pid :: int
  pr_nr :: sysnr
  pr_res :: int

definition UK_MAXM :: nat where "UK_MAXM = 8"
definition UK_NFCH :: nat where "UK_NFCH = 8"
definition UK_FQ :: nat where "UK_FQ = 32"
definition UK_NFORK :: nat where "UK_NFORK = 64"
definition UK_NLOOP :: nat where "UK_NLOOP = 8"
definition UK_FUSE_MSGCAP :: nat where "UK_FUSE_MSGCAP = 132 * 1024"
definition PATH_MAX :: nat where "PATH_MAX = 4096"

lemmas tab_defs = UK_MAXM_def UK_NFCH_def UK_FQ_def UK_NFORK_def UK_NLOOP_def UK_FUSE_MSGCAP_def PATH_MAX_def

text \<open>Zeroed entries, as \<^verbatim>\<open>memset\<close> and static initialisation leave them.\<close>

definition ukfmsg_zero :: ukfmsg where
  "ukfmsg_zero = \<lparr>m_used = False, m_uniq = 0, m_seq = 0, m_buf = []\<rparr>"

definition ukfch_zero :: ukfch where
  "ukfch_zero = \<lparr>c_used = False, c_pid = 0, c_fd = 0, c_eng = None,
     c_rq = replicate UK_FQ ukfmsg_zero, c_rp = replicate UK_FQ ukfmsg_zero, c_seq = 0,
     c_dmn = None, c_dbuf = 0, c_dcnt = 0, c_dvec = 0, c_parked = False,
     c_owner = 0, c_owner2 = 0, c_app_pid = 0, c_marker = []\<rparr>"

definition fork_zero :: fork_hint where
  "fork_zero = \<lparr>fh_used = False, fh_pid = 0, fh_chan = 0\<rparr>"

definition ukm_zero :: ukm where
  "ukm_zero = \<lparr>mt_used = False, mt_vmount = [], mt_token = [], mt_fsname = [], mt_base = 0,
     mt_size = 0, mt_range = False, mt_sock = 0, mt_ready = False, mt_fuse = None,
     mt_fuse_chan = 0, mt_fuse_inited = False\<rparr>"

definition uklo_zero :: uklo where
  "uklo_zero = \<lparr>lo_used = False, lo_img = [], lo_off = 0, lo_sizelimit = 0, lo_partscan = False\<rparr>"

definition uklofd_zero :: uklofd where
  "uklofd_zero = \<lparr>lf_used = False, lf_pid = 0, lf_fd = 0, lf_hostfd = 0, lf_base = 0, lf_size = 0, lf_cur = 0\<rparr>"

definition vfd_zero :: ukfs_vfd where
  "vfd_zero = \<lparr>v_used = False, v_pid = 0, v_fd = 0, v_isdir = False, v_wrote = False, v_mnt = 0,
     v_append = False, v_mmapw = False, v_off = 0, v_path = [], v_backing = [], v_dents = None,
     v_dent_n = 0, v_dent_idx = 0\<rparr>"

definition pending_zero :: ukfs_pending where
  "pending_zero = \<lparr>op_used = False, op_pid = 0, op_isdir = False, op_append = False, op_mnt = 0,
     op_path = [], op_backing = []\<rparr>"

definition pend_res_zero :: pend_res where
  "pend_res_zero = \<lparr>pr_used = False, pr_pid = 0, pr_nr = PR_void, pr_res = 0\<rparr>"

lemmas zero_defs = ukfmsg_zero_def ukfch_zero_def fork_zero_def ukm_zero_def uklo_zero_def
  uklofd_zero_def vfd_zero_def pending_zero_def pend_res_zero_def

text \<open>How a host file is opened: the flag combinations that occur.\<close>

datatype oflags = Rd | Wr | RdWr | WrNew

section \<open>The whole state\<close>

text \<open>
  \<open>st_eng\<close> holds each live engine with the channel its callbacks are bound to
  (\<^verbatim>\<open>fused_set_io(eng, fch_send, fch_recv, ch)\<close>); a freed engine is \<open>None\<close>.
  \<open>t_map\<close> tells which ranges of a tracee's memory are accessible, \<open>t_arg\<close> and \<open>t_oarg\<close>
  are its current and original system call arguments (1 to 6), \<open>t_argpath\<close> the paths
  the redirect substituted for an argument, \<open>t_cwd\<close> the guest's working directory.
\<close>

record 'o rst =
  g_m :: "ukm list"
  g_nm :: int
  g_am :: int
  g_fch :: "ukfch list"
  g_fopen_tid :: "int list"
  g_fch_fork :: "fork_hint list"
  g_fuse_park_pid :: int
  g_fuse_root_gone :: bool
  g_lo :: "uklo list"
  g_lo_any :: bool
  g_lofd :: "uklofd list"
  g_tgid_cache :: "(int \<times> int) list"
  g_vfd :: "ukfs_vfd list"
  g_open_pending :: "ukfs_pending list"
  g_ph_seq :: int
  g_inh_tgid :: "int list"
  g_pend_res :: "pend_res list"
  st_eng :: "nat \<Rightarrow> (fused \<times> nat) option"
  st_next :: nat
  t_mem :: "int \<Rightarrow> u64 \<Rightarrow> char"
  t_map :: "int \<Rightarrow> u64 \<Rightarrow> nat \<Rightarrow> bool"
  t_res :: "int \<Rightarrow> u64"
  t_void :: "int \<Rightarrow> bool"
  t_resumed :: "int list"
  t_arg :: "int \<Rightarrow> nat \<Rightarrow> u64"
  t_oarg :: "int \<Rightarrow> nat \<Rightarrow> u64"
  t_argpath :: "int \<Rightarrow> nat \<Rightarrow> string option"
  t_cwd :: "int \<Rightarrow> string"
  st_os :: 'o

text \<open>
  What is outside the file: memory, /proc, sockets, files, proot's event loop
  (\<open>env_pump\<close> is \<^verbatim>\<open>uknl_pump_one\<close>, one turn of that loop, which waits for a tracee and hands its stop to
  proot, and through proot may run any other operation of the redirect),
  its string and path readers (\<open>env_str\<close> is a \<^verbatim>\<open>read_string\<close> that returned a positive count,
  \<open>env_path\<close> a \<^verbatim>\<open>get_sysarg_path\<close> that did not fail, \<open>env_translate\<close> \<^verbatim>\<open>translate_path\<close>)
  and its allocator in the tracee (\<open>env_alloc_mem\<close>). A transfer interrupted by a signal
  is restarted; \<open>env_read\<close> and \<open>env_write\<close> are the calls after such restarts.
\<close>

record 'o env =
  env_alloc :: "nat \<Rightarrow> 'o \<Rightarrow> bool \<times> 'o"
  env_pump :: "fused \<times> 'o rst \<Rightarrow> int \<times> (fused \<times> 'o rst)"
  env_getpid :: u32
  env_status :: "int \<Rightarrow> 'o \<Rightarrow> bytes option"
  env_stat :: "int \<Rightarrow> 'o \<Rightarrow> bytes option"
  env_readlink :: "int \<Rightarrow> int \<Rightarrow> 'o \<Rightarrow> string option"
  env_fs_on :: bool
  env_str :: "int \<Rightarrow> u64 \<Rightarrow> nat \<Rightarrow> 'o rst \<Rightarrow> string option"
  env_path :: "int \<Rightarrow> nat \<Rightarrow> 'o rst \<Rightarrow> string option"
  env_translate :: "int \<Rightarrow> string \<Rightarrow> 'o \<Rightarrow> string option"
  env_alloc_mem :: "int \<Rightarrow> nat \<Rightarrow> 'o rst \<Rightarrow> u64 \<times> 'o rst"
  env_time :: "'o \<Rightarrow> int"
  env_socket :: "'o \<Rightarrow> int \<times> 'o"
  env_connect :: "int \<Rightarrow> string \<Rightarrow> 'o \<Rightarrow> bool \<times> 'o"
  env_close :: "int \<Rightarrow> 'o \<Rightarrow> 'o"
  env_write :: "int \<Rightarrow> bytes \<Rightarrow> 'o \<Rightarrow> int \<times> 'o"
  env_read :: "int \<Rightarrow> nat \<Rightarrow> 'o \<Rightarrow> bytes option \<times> 'o"
  env_open :: "string \<Rightarrow> oflags \<Rightarrow> 'o \<Rightarrow> int \<times> 'o"
  env_pread :: "int \<Rightarrow> nat \<Rightarrow> int \<Rightarrow> 'o \<Rightarrow> bytes option \<times> 'o"
  env_pwrite :: "int \<Rightarrow> bytes \<Rightarrow> int \<Rightarrow> 'o \<Rightarrow> int \<times> 'o"
  env_fsize :: "int \<Rightarrow> 'o \<Rightarrow> int option"
  env_stsize :: "string \<Rightarrow> 'o \<Rightarrow> int option"
  env_ftruncate :: "int \<Rightarrow> int \<Rightarrow> 'o \<Rightarrow> bool \<times> 'o"
  env_unlink :: "string \<Rightarrow> 'o \<Rightarrow> 'o"

text \<open>An environment in which memory is available and nothing else answers.\<close>

definition null_env :: "'o env" where
  "null_env = \<lparr>env_alloc = (\<lambda>n os. (True, os)), env_pump = (\<lambda>s. (- 1, s)), env_getpid = 1,
     env_status = (\<lambda>p os. None), env_stat = (\<lambda>p os. None), env_readlink = (\<lambda>p fd os. None),
     env_fs_on = True, env_str = (\<lambda>p a n r. None), env_path = (\<lambda>p n r. None), env_translate = (\<lambda>p s os. None),
     env_alloc_mem = (\<lambda>p n r. (0, r)), env_time = (\<lambda>os. 0), env_socket = (\<lambda>os. (- 1, os)),
     env_connect = (\<lambda>fd s os. (False, os)), env_close = (\<lambda>fd os. os), env_write = (\<lambda>fd b os. (- 1, os)),
     env_read = (\<lambda>fd n os. (None, os)), env_open = (\<lambda>s fl os. (- 1, os)), env_pread = (\<lambda>fd n off os. (None, os)),
     env_pwrite = (\<lambda>fd b off os. (- 1, os)), env_fsize = (\<lambda>fd os. None), env_stsize = (\<lambda>s os. None),
     env_ftruncate = (\<lambda>fd n os. (False, os)), env_unlink = (\<lambda>s os. os)\<rparr>"

section \<open>Tracee access\<close>

definition read_data :: "int \<Rightarrow> u64 \<Rightarrow> nat \<Rightarrow> 'o rst \<Rightarrow> bytes option" where
  "read_data pid addr n r =
     (if t_map r pid addr n then Some (map (\<lambda>i. t_mem r pid (addr + word_of_nat i)) [0..<n]) else None)"

fun mem_put :: "(u64 \<Rightarrow> char) \<Rightarrow> u64 \<Rightarrow> bytes \<Rightarrow> u64 \<Rightarrow> char" where
  "mem_put m addr [] = m"
| "mem_put m addr (b # bs) = mem_put (m(addr := b)) (addr + 1) bs"

definition write_data :: "int \<Rightarrow> u64 \<Rightarrow> bytes \<Rightarrow> 'o rst \<Rightarrow> 'o rst" where
  "write_data pid addr bs r =
     (if t_map r pid addr (length bs)
      then r\<lparr>t_mem := (t_mem r)(pid := mem_put (t_mem r pid) addr bs)\<rparr> else r)"

text \<open>\<^verbatim>\<open>poke_reg(t, SYSARG_RESULT, v); set_sysnum(t, PR_void)\<close>\<close>

definition poke_void :: "int \<Rightarrow> int \<Rightarrow> 'o rst \<Rightarrow> 'o rst" where
  "poke_void pid v r = r\<lparr>t_res := (t_res r)(pid := word_of_int v), t_void := (t_void r)(pid := True)\<rparr>"

definition resume :: "int \<Rightarrow> 'o rst \<Rightarrow> 'o rst" where
  "resume pid r = r\<lparr>t_resumed := t_resumed r @ [pid]\<rparr>"

definition upd_ch :: "nat \<Rightarrow> (ukfch \<Rightarrow> ukfch) \<Rightarrow> 'o rst \<Rightarrow> 'o rst" where
  "upd_ch ci f r = r\<lparr>g_fch := (g_fch r)[ci := f (g_fch r ! ci)]\<rparr>"

definition os_upd :: "'o rst \<Rightarrow> 'o \<Rightarrow> 'o rst" where
  "os_upd r o' = r\<lparr>st_os := o'\<rparr>"

section \<open>Initial state\<close>

definition rst_init :: "(int \<Rightarrow> u64 \<Rightarrow> char) \<Rightarrow> (int \<Rightarrow> u64 \<Rightarrow> nat \<Rightarrow> bool) \<Rightarrow> 'o \<Rightarrow> 'o rst" where
  "rst_init mem mp os = \<lparr>g_m = replicate UK_MAXM ukm_zero, g_nm = 0, g_am = - 1,
     g_fch = replicate UK_NFCH ukfch_zero, g_fopen_tid = replicate UK_NFCH 0,
     g_fch_fork = replicate UK_NFORK fork_zero, g_fuse_park_pid = 0, g_fuse_root_gone = False,
     g_lo = replicate UK_NLOOP uklo_zero, g_lo_any = False, g_lofd = replicate 64 uklofd_zero,
     g_tgid_cache = [], g_vfd = replicate 128 vfd_zero, g_open_pending = replicate 64 pending_zero,
     g_ph_seq = 0, g_inh_tgid = [], g_pend_res = replicate 128 pend_res_zero,
     st_eng = (\<lambda>_. None), st_next = 1, t_mem = mem, t_map = mp, t_res = (\<lambda>_. 0), t_void = (\<lambda>_. False),
     t_resumed = [], t_arg = (\<lambda>_ _. 0), t_oarg = (\<lambda>_ _. 0), t_argpath = (\<lambda>_ _. None),
     t_cwd = (\<lambda>_. ''/''), st_os = os\<rparr>"

section \<open>Lemmas on tracee memory\<close>

lemma mem_put_outside:
  "(\<And>i. i < length bs \<Longrightarrow> x \<noteq> addr + word_of_nat i) \<Longrightarrow> mem_put m addr bs x = m x"
proof (induction bs arbitrary: m addr)
  case (Cons b bs)
  have "x \<noteq> addr" using Cons.prems [of 0] by simp
  moreover have "mem_put (m(addr := b)) (addr + 1) bs x = (m(addr := b)) x"
    using Cons.prems [of "Suc i" for i] by (intro Cons.IH) (auto simp: algebra_simps)
  ultimately show ?case by simp
qed simp

lemma mem_put_inside:
  assumes "length bs \<le> 2 ^ 64" and "i < length bs"
  shows "mem_put m addr bs (addr + word_of_nat i) = bs ! i"
  using assms
proof (induction bs arbitrary: m addr i)
  case (Cons b bs)
  show ?case
  proof (cases i)
    case 0
    have "mem_put (m(addr := b)) (addr + 1) bs addr = (m(addr := b)) addr"
    proof (rule mem_put_outside)
      fix j assume j: "j < length bs"
      have "addr + 1 + word_of_nat j = addr + word_of_nat (Suc j)" by (simp add: algebra_simps)
      moreover have "(word_of_nat (Suc j) :: u64) \<noteq> 0"
        using j Cons.prems(1) unat_u64 [of "Suc j"] by (metis Suc_less_eq le_imp_less_Suc length_Cons less_le_trans nat.distinct(1) unat_0)
      ultimately show "addr \<noteq> addr + 1 + word_of_nat j" by (metis add_cancel_right_right)
    qed
    with 0 show ?thesis by simp
  next
    case (Suc j)
    have e: "addr + word_of_nat i = addr + 1 + word_of_nat j" by (simp add: Suc algebra_simps)
    have "mem_put (m(addr := b)) (addr + 1) bs (addr + 1 + word_of_nat j) = bs ! j"
      using Cons.prems Suc by (intro Cons.IH) simp_all
    then show ?thesis by (simp only: e mem_put.simps) (simp add: Suc)
  qed
qed simp

text \<open>What is written is read back.\<close>

lemma read_write_data:
  assumes "t_map r pid addr (length bs)" and "length bs \<le> 2 ^ 64"
  shows "read_data pid addr (length bs) (write_data pid addr bs r) = Some bs"
proof -
  have "map (\<lambda>i. mem_put (t_mem r pid) addr bs (addr + word_of_nat i)) [0..<length bs] = bs"
    by (rule nth_equalityI) (simp_all add: mem_put_inside [OF assms(2)])
  with assms(1) show ?thesis by (simp add: read_data_def write_data_def)
qed

end
