(* ===== verification/FuseChannel.thy ===== *)
theory FuseChannel
  imports RedirectState
begin

text \<open>
  The in-proot \<^verbatim>\<open>/dev/fuse\<close> channel of \<^verbatim>\<open>proot/patches/uknl_fs_redirect.c\<close>: request and
  reply queues, the parked read of the daemon, the engine transport
  (\<open>fch_send\<close>, \<open>fch_recv\<close>), the daemon side (\<open>uknl_fuse_chan_io\<close>), fork hints and the
  opening of a channel.
\<close>

section \<open>Scatter, queue search, delivery\<close>

text \<open>The iovec loop: \<open>k\<close> vectors left at \<open>a2\<close>, \<open>src\<close> the bytes still to place.\<close>

fun scatter_loop :: "nat \<Rightarrow> int \<Rightarrow> u64 \<Rightarrow> bytes \<Rightarrow> 'o rst \<Rightarrow> 'o rst" where
  "scatter_loop 0 t a2 src r = r"
| "scatter_loop (Suc k) t a2 src r =
     (if src = [] then r
      else case read_data t a2 16 r of
             None \<Rightarrow> r
           | Some iov \<Rightarrow>
               let chunk = min (unat (get64 8 iov)) (length src);
                   r' = (if chunk \<noteq> 0 then write_data t (get64 0 iov) (take chunk src) r else r) in
               scatter_loop k t (a2 + 16) (drop chunk src) r')"

definition fch_scatter :: "int \<Rightarrow> u64 \<Rightarrow> int \<Rightarrow> bytes \<Rightarrow> nat \<Rightarrow> 'o rst \<Rightarrow> 'o rst" where
  "fch_scatter t a2 vec src n r =
     (if vec < 0 then (if n \<noteq> 0 then write_data t a2 (take n src) r else r)
      else scatter_loop (nat vec) t a2 (take n src) r)"

definition fch_uniq :: "bytes \<Rightarrow> u64" where
  "fch_uniq b = (if 16 \<le> length b then get64 8 b else 0)"

fun oldest_loop :: "ukfmsg list \<Rightarrow> nat \<Rightarrow> nat option \<Rightarrow> u64 \<Rightarrow> nat option" where
  "oldest_loop [] i best bs = best"
| "oldest_loop (m # ms) i best bs =
     (if m_used m \<and> m_seq m < bs then oldest_loop ms (Suc i) (Some i) (m_seq m)
      else oldest_loop ms (Suc i) best bs)"

definition fch_oldest_rq :: "ukfch \<Rightarrow> nat option" where
  "fch_oldest_rq ch = oldest_loop (c_rq ch) 0 None (- 1)"

text \<open>\<^verbatim>\<open>free(m->buf); m->buf = NULL; m->used = 0;\<close>\<close>

definition msg_free :: "ukfmsg \<Rightarrow> ukfmsg" where
  "msg_free m = m\<lparr>m_used := False, m_buf := []\<rparr>"

definition fch_deliver_parked :: "nat \<Rightarrow> 'o rst \<Rightarrow> 'o rst" where
  "fch_deliver_parked ci r =
     (let ch = g_fch r ! ci in
      case c_dmn ch of
        None \<Rightarrow> r
      | Some d \<Rightarrow>
          if \<not> c_parked ch then r
          else
            case fch_oldest_rq ch of
              None \<Rightarrow> r
            | Some i \<Rightarrow>
                let m = c_rq ch ! i;
                    dcnt = unat (scast (c_dcnt ch) :: u64);
                    n = (if dcnt < length (m_buf m) then dcnt else length (m_buf m));
                    r1 = fch_scatter d (c_dbuf ch) (c_dvec ch) (m_buf m) n r;
                    r2 = poke_void d (int n) r1;
                    r3 = upd_ch ci (\<lambda>ch. ch\<lparr>c_rq := (c_rq ch)[i := msg_free m], c_parked := False, c_dmn := None\<rparr>) r2 in
                resume d r3)"

definition fch_resume_eof :: "nat \<Rightarrow> 'o rst \<Rightarrow> 'o rst" where
  "fch_resume_eof ci r =
     (let ch = g_fch r ! ci in
      case c_dmn ch of
        None \<Rightarrow> r
      | Some d \<Rightarrow>
          if \<not> c_parked ch then r
          else resume d (upd_ch ci (\<lambda>ch. ch\<lparr>c_parked := False, c_dmn := None\<rparr>) (poke_void d 0 r)))"

text \<open>\<^verbatim>\<open>for (i = 0; i < UK_NFCH; i++) if (P(g_fch[i])) body(i)\<close>\<close>

fun for_ch :: "('o rst \<Rightarrow> nat \<Rightarrow> bool) \<Rightarrow> (nat \<Rightarrow> 'o rst \<Rightarrow> 'o rst) \<Rightarrow> nat list \<Rightarrow> 'o rst \<Rightarrow> 'o rst" where
  "for_ch P body [] r = r"
| "for_ch P body (i # is) r = for_ch P body is (if P r i then body i r else r)"

definition is_parked :: "ukfch \<Rightarrow> bool" where
  "is_parked ch \<longleftrightarrow> c_used ch \<and> c_parked ch \<and> c_dmn ch \<noteq> None"

definition uknl_fuse_drain_parked :: "'o rst \<Rightarrow> 'o rst" where
  "uknl_fuse_drain_parked r =
     for_ch (\<lambda>r i. is_parked (g_fch r ! i)) fch_resume_eof [0..<UK_NFCH] (r\<lparr>g_fuse_root_gone := True\<rparr>)"

definition uknl_fuse_take_park :: "int \<Rightarrow> 'o rst \<Rightarrow> bool \<times> 'o rst" where
  "uknl_fuse_take_park pid r =
     (if g_fuse_park_pid r \<noteq> 0 \<and> g_fuse_park_pid r = pid then (True, r\<lparr>g_fuse_park_pid := 0\<rparr>) else (False, r))"

definition uknl_fuse_note_exec :: "int \<Rightarrow> 'o rst \<Rightarrow> 'o rst" where
  "uknl_fuse_note_exec pid r = r\<lparr>g_fch := map (\<lambda>ch.
     if c_used ch \<and> c_app_pid ch = 0 \<and> (c_owner ch = pid \<or> c_owner2 ch = pid)
     then ch\<lparr>c_app_pid := pid\<rparr> else ch) (g_fch r)\<rparr>"

text \<open>The signal masks in \<^verbatim>\<open>/proc/<pid>/status\<close>: SIGHUP, SIGINT, SIGQUIT, SIGKILL, SIGTERM.\<close>

definition status_mask :: "string \<Rightarrow> string \<Rightarrow> u64" where
  "status_mask b key = (case strstr b key of None \<Rightarrow> 0 | Some s \<Rightarrow> strtoull16 (drop 7 s))"

definition fch_has_fatal_pending :: "'o env \<Rightarrow> int \<Rightarrow> 'o rst \<Rightarrow> bool" where
  "fch_has_fatal_pending e pid r =
     (case env_status e pid (st_os r) of
        None \<Rightarrow> False
      | Some c \<Rightarrow>
          let b = cstr (take 4095 c);
              fatal = or (or (or (or (push_bit 1 1) (push_bit 14 1)) (push_bit 0 1)) (push_bit 2 1)) (push_bit 8 1) in
          c \<noteq> [] \<and>
          and (and (or (status_mask b ''SigPnd:'') (status_mask b ''ShdPnd:'')) fatal)
              (not (status_mask b ''SigBlk:'')) \<noteq> 0)"

definition uknl_fuse_reap_signaled :: "'o env \<Rightarrow> 'o rst \<Rightarrow> 'o rst" where
  "uknl_fuse_reap_signaled e r =
     for_ch (\<lambda>r i. is_parked (g_fch r ! i) \<and> fch_has_fatal_pending e (the (c_dmn (g_fch r ! i))) r)
       fch_resume_eof [0..<UK_NFCH] r"

section \<open>Thread groups\<close>

definition proc_field :: "'o env \<Rightarrow> int \<Rightarrow> string \<Rightarrow> 'o rst \<Rightarrow> int option" where
  "proc_field e pid key r =
     (case env_status e pid (st_os r) of
        None \<Rightarrow> None
      | Some c \<Rightarrow>
          if c = [] then None
          else map_option (\<lambda>t. atoi (drop 5 t)) (strstr (cstr (take 2047 c)) key))"

definition ukfs_tgid :: "'o env \<Rightarrow> int \<Rightarrow> 'o rst \<Rightarrow> int \<times> 'o rst" where
  "ukfs_tgid e tid r =
     (case map_of (g_tgid_cache r) tid of
        Some tg \<Rightarrow> (tg, r)
      | None \<Rightarrow>
          let tg = (case proc_field e tid ''Tgid:'' r of None \<Rightarrow> tid | Some v \<Rightarrow> v) in
          (tg, if length (g_tgid_cache r) < 512
               then r\<lparr>g_tgid_cache := g_tgid_cache r @ [(tid, tg)]\<rparr> else r))"

definition ukfs_ppid :: "'o env \<Rightarrow> int \<Rightarrow> 'o rst \<Rightarrow> int" where
  "ukfs_ppid e tid r = (case proc_field e tid ''PPid:'' r of None \<Rightarrow> 0 | Some v \<Rightarrow> v)"

text \<open>\<^verbatim>\<open>sscanf(r + 1, " %c %d", &state, &ppid)\<close> after the last closing parenthesis.\<close>

definition fch_ppid :: "'o env \<Rightarrow> int \<Rightarrow> 'o rst \<Rightarrow> int" where
  "fch_ppid e pid r =
     (case env_stat e pid (st_os r) of
        None \<Rightarrow> 0
      | Some c \<Rightarrow>
          let b = cstr (take 511 c);
              tail = rev (takeWhile (\<lambda>x. x \<noteq> CHR '')'') (rev b)) in
          if c = [] \<or> CHR '')'' \<notin> set b then 0
          else case skip_ws tail of
                 [] \<Rightarrow> 0
               | _ # rest \<Rightarrow> (case scan_int rest of None \<Rightarrow> 0 | Some (v, _) \<Rightarrow> v))"

section \<open>Finding a channel\<close>

definition fch_by_fd :: "int \<Rightarrow> int \<Rightarrow> 'o rst \<Rightarrow> nat option" where
  "fch_by_fd pid fd r = find_idx (\<lambda>ch. c_used ch \<and> c_pid ch = pid \<and> c_fd ch = fd) (g_fch r)"

definition fch_chan_of_pid :: "int \<Rightarrow> 'o rst \<Rightarrow> nat option" where
  "fch_chan_of_pid pid r =
     (case find_idx (\<lambda>ch. c_used ch \<and> c_eng ch \<noteq> None \<and> c_pid ch = pid) (g_fch r) of
        Some i \<Rightarrow> Some i
      | None \<Rightarrow>
          map_option (\<lambda>i. fh_chan (g_fch_fork r ! i))
            (find_idx (\<lambda>h. fh_used h \<and> fh_pid h = pid) (g_fch_fork r)))"

definition fch_forget_forks :: "nat \<Rightarrow> 'o rst \<Rightarrow> 'o rst" where
  "fch_forget_forks c r = r\<lparr>g_fch_fork := map (\<lambda>h.
     if fh_used h \<and> fh_chan h = c then h\<lparr>fh_used := False\<rparr> else h) (g_fch_fork r)\<rparr>"

text \<open>
  The slot search of \<^verbatim>\<open>uknl_fuse_note_fork\<close>: the child's own entry if it has one,
  else the first free one, else slot 0.
\<close>

definition fork_slot :: "int \<Rightarrow> fork_hint list \<Rightarrow> nat" where
  "fork_slot cpid hs =
     (case find_idx (\<lambda>h. fh_used h \<and> fh_pid h = cpid) hs of
        Some i \<Rightarrow> i
      | None \<Rightarrow> (case find_idx (\<lambda>h. \<not> fh_used h) hs of Some i \<Rightarrow> i | None \<Rightarrow> 0))"

definition uknl_fuse_note_fork :: "'o env \<Rightarrow> int \<Rightarrow> int \<Rightarrow> 'o rst \<Rightarrow> 'o rst" where
  "uknl_fuse_note_fork e ppid cpid r =
     (let (c, r1) = (case fch_chan_of_pid ppid r of
                       Some c \<Rightarrow> (Some c, r)
                     | None \<Rightarrow> let (tg, r1) = ukfs_tgid e ppid r in (fch_chan_of_pid tg r1, r1)) in
      case c of
        None \<Rightarrow> r1
      | Some c \<Rightarrow> r1\<lparr>g_fch_fork := (g_fch_fork r1)[fork_slot cpid (g_fch_fork r1) :=
                   \<lparr>fh_used = True, fh_pid = cpid, fh_chan = c\<rparr>]\<rparr>)"

definition uknl_fuse_is_daemon :: "'o env \<Rightarrow> int \<Rightarrow> 'o rst \<Rightarrow> bool \<times> 'o rst" where
  "uknl_fuse_is_daemon e pid r =
     (let owns = (\<lambda>p r. \<exists>ch \<in> set (g_fch r). c_used ch \<and> c_eng ch \<noteq> None \<and> c_pid ch = p) in
      if owns pid r then (True, r)
      else let (tg, r1) = ukfs_tgid e pid r in
           (tg \<noteq> pid \<and> owns tg r1, r1))"

text \<open>Adoption by fork hint: the first hint of this thread or its group whose channel uses the descriptor.\<close>

definition hint_ok :: "int \<Rightarrow> int \<Rightarrow> int \<Rightarrow> ukfch list \<Rightarrow> fork_hint \<Rightarrow> bool" where
  "hint_ok tg pid fd chs h \<longleftrightarrow>
     fh_used h \<and> (fh_pid h = tg \<or> fh_pid h = pid) \<and>
     (let ch = chs ! fh_chan h in c_used ch \<and> c_eng ch \<noteq> None \<and> c_fd ch = fd)"

definition fch_resolve :: "'o env \<Rightarrow> int \<Rightarrow> int \<Rightarrow> 'o rst \<Rightarrow> nat option \<times> 'o rst" where
  "fch_resolve e pid fd r =
     (let (tg, r1) = ukfs_tgid e pid r in
      case fch_by_fd tg fd r1 of
        Some i \<Rightarrow> (Some i, r1)
      | None \<Rightarrow>
          if \<not> (\<exists>ch \<in> set (g_fch r1). c_used ch \<and> c_eng ch \<noteq> None \<and> c_fd ch = fd) then (None, r1)
          else case find_idx (hint_ok tg pid fd (g_fch r1)) (g_fch_fork r1) of
                 None \<Rightarrow> (None, r1)
               | Some k \<Rightarrow>
                   let c = fh_chan (g_fch_fork r1 ! k) in
                   (Some c, upd_ch c (\<lambda>ch. ch\<lparr>c_pid := tg\<rparr>) r1))"

section \<open>The engine's transport\<close>

definition fch_send :: "'o env \<Rightarrow> nat \<Rightarrow> bytes \<Rightarrow> fused \<times> 'o rst \<Rightarrow> int \<times> (fused \<times> 'o rst)" where
  "fch_send e ci buf = (\<lambda>(f, r).
     if UK_FUSE_MSGCAP < length buf then (- EIO, (f, r))
     else case find_idx (\<lambda>m. \<not> m_used m) (c_rq (g_fch r ! ci)) of
            None \<Rightarrow> (- EIO, (f, r))
          | Some i \<Rightarrow>
              let (ok, o1) = env_alloc e (length buf) (st_os r) in
              if \<not> ok then (- ENOMEM, (f, os_upd r o1))
              else
                let r1 = upd_ch ci (\<lambda>ch. ch\<lparr>c_seq := c_seq ch + 1,
                           c_rq := (c_rq ch)[i := \<lparr>m_used = True, m_uniq = fch_uniq buf,
                                                 m_seq = c_seq ch + 1, m_buf = buf\<rparr>]\<rparr>) (os_upd r o1);
                    r2 = (if c_parked (g_fch r1 ! ci) then fch_deliver_parked ci r1 else r1) in
                (int (length buf), (f, r2)))"

text \<open>
  Waiting for a reply: claim the one with the right \<open>unique\<close>, else run the event loop
  once and look again. The active mount is restored on return; a wait that never
  ends is \<open>None\<close>.
\<close>

partial_function (option) fch_wait ::
  "'o env \<Rightarrow> nat \<Rightarrow> nat \<Rightarrow> u64 \<Rightarrow> int \<Rightarrow> fused \<times> 'o rst \<Rightarrow> ((int + bytes) \<times> (fused \<times> 'o rst)) option" where
  "fch_wait e ci cap u saved s =
     (case find_idx (\<lambda>m. m_used m \<and> m_uniq m = u) (c_rp (g_fch (snd s) ! ci)) of
        Some i \<Rightarrow>
          let m = c_rp (g_fch (snd s) ! ci) ! i;
              r1 = upd_ch ci (\<lambda>ch. ch\<lparr>c_rp := (c_rp ch)[i := msg_free m]\<rparr>) (snd s) in
          Some (Inr (take cap (m_buf m)), (fst s, r1\<lparr>g_am := saved\<rparr>))
      | None \<Rightarrow>
          let (x, s') = env_pump e s in
          if x < 0 then Some (Inl (- EIO), (fst s', (snd s')\<lparr>g_am := saved\<rparr>))
          else fch_wait e ci cap u saved s')"

definition fch_recv :: "'o env \<Rightarrow> nat \<Rightarrow> nat \<Rightarrow> u64 \<Rightarrow> fused \<times> 'o rst \<Rightarrow> ((int + bytes) \<times> (fused \<times> 'o rst)) option" where
  "fch_recv e ci cap u s = fch_wait e ci cap u (g_am (snd s)) s"

text \<open>
  The callbacks as an engine transport. Statements about it assume that the wait
  ends, so that \<open>the\<close> is applied to a value.
\<close>

definition chan_fio :: "'o env \<Rightarrow> nat \<Rightarrow> 'o rst fio" where
  "chan_fio e ci = \<lparr>
     io_send = Some (fch_send e ci), io_recv = Some (\<lambda>cap u s. the (fch_recv e ci cap u s)),
     sys_write = (\<lambda>fd m w. (Inl EBADF, w)), sys_read = (\<lambda>fd n w. (Inl EBADF, w)),
     sys_alloc = (\<lambda>n r. let (ok, o1) = env_alloc e n (st_os r) in (ok, os_upd r o1))\<rparr>"

section \<open>The daemon's side\<close>

fun iov_cap :: "nat \<Rightarrow> int \<Rightarrow> u64 \<Rightarrow> 'o rst \<Rightarrow> u64 \<Rightarrow> u64" where
  "iov_cap 0 t a2 r acc = acc"
| "iov_cap (Suc k) t a2 r acc =
     (case read_data t a2 16 r of
        None \<Rightarrow> acc
      | Some iov \<Rightarrow> iov_cap k t (a2 + 16) r (acc + get64 8 iov))"

text \<open>Gathering a vectored reply; bytes that cannot be read leave the buffer as \<^verbatim>\<open>malloc\<close> gave it (\<open>junk\<close>).\<close>

fun gather_loop :: "nat \<Rightarrow> int \<Rightarrow> u64 \<Rightarrow> (nat \<Rightarrow> char) \<Rightarrow> 'o rst \<Rightarrow> bytes \<Rightarrow> bytes" where
  "gather_loop 0 t a2 junk r rb = rb"
| "gather_loop (Suc k) t a2 junk r rb =
     (case read_data t a2 16 r of
        None \<Rightarrow> rb
      | Some iov \<Rightarrow>
          let chunk = min (unat (get64 8 iov)) (UK_FUSE_MSGCAP - length rb);
              piece = (case read_data t (get64 0 iov) chunk r of
                         Some b \<Rightarrow> b | None \<Rightarrow> map junk [length rb..<length rb + chunk]) in
          gather_loop k t (a2 + 16) junk r (rb @ piece))"

definition chan_read :: "int \<Rightarrow> bool \<Rightarrow> nat \<Rightarrow> u64 \<Rightarrow> u64 \<Rightarrow> 'o rst \<Rightarrow> 'o rst" where
  "chan_read t is_vec ci a2 a3 r =
     (let cap = (if is_vec then iov_cap (unat a3) t a2 r 0 else a3);
          vec = (if is_vec then sint (ucast a3 :: u32) else - 1);
          ch = g_fch r ! ci in
      case fch_oldest_rq ch of
        Some qi \<Rightarrow>
          let m = c_rq ch ! qi;
              n = (if unat cap < length (m_buf m) then unat cap else length (m_buf m));
              r1 = fch_scatter t a2 vec (m_buf m) n r;
              r2 = upd_ch ci (\<lambda>ch. ch\<lparr>c_rq := (c_rq ch)[qi := msg_free m]\<rparr>) r1 in
          poke_void t (int n) r2
      | None \<Rightarrow>
          if g_fuse_root_gone r then poke_void t 0 r
          else (upd_ch ci (\<lambda>ch. ch\<lparr>c_dmn := Some t, c_dbuf := a2, c_dcnt := ucast cap,
                              c_parked := True, c_dvec := vec\<rparr>) r)\<lparr>g_fuse_park_pid := t\<rparr>)"

definition chan_reply :: "nat \<Rightarrow> bytes \<Rightarrow> 'o rst \<Rightarrow> 'o rst" where
  "chan_reply ci rb r =
     (case find_idx (\<lambda>m. \<not> m_used m) (c_rp (g_fch r ! ci)) of
        None \<Rightarrow> r
      | Some ri \<Rightarrow>
          upd_ch ci (\<lambda>ch. ch\<lparr>c_rp := (c_rp ch)[ri := (c_rp ch ! ri)\<lparr>m_used := True, m_buf := rb,
                                                      m_uniq := fch_uniq rb\<rparr>]\<rparr>) r)"

definition chan_write :: "'o env \<Rightarrow> (nat \<Rightarrow> char) \<Rightarrow> int \<Rightarrow> bool \<Rightarrow> nat \<Rightarrow> u64 \<Rightarrow> u64 \<Rightarrow> 'o rst \<Rightarrow> 'o rst" where
  "chan_write e junk t is_vec ci a2 a3 r0 =
     (let (ok, o1) = env_alloc e UK_FUSE_MSGCAP (st_os r0); r = os_upd r0 o1 in
      if \<not> ok then poke_void t (- ENOMEM) r
      else if is_vec then
        let rb = gather_loop (unat a3) t a2 junk r [] in
        poke_void t (int (length rb)) (chan_reply ci rb r)
      else
        let tot = (if UK_FUSE_MSGCAP < unat a3 then UK_FUSE_MSGCAP else unat a3) in
        case read_data t a2 tot r of
          None \<Rightarrow> poke_void t (- EFAULT) r
        | Some rb \<Rightarrow> poke_void t (uint a3) (chan_reply ci rb r))"

definition uknl_fuse_chan_io ::
  "'o env \<Rightarrow> (nat \<Rightarrow> char) \<Rightarrow> int \<Rightarrow> sysnr \<Rightarrow> int \<Rightarrow> u64 \<Rightarrow> u64 \<Rightarrow> 'o rst \<Rightarrow> bool \<times> 'o rst" where
  "uknl_fuse_chan_io e junk t nr fd a2 a3 r =
     (let is_read = (nr = PR_read \<or> nr = PR_pread64 \<or> nr = PR_readv);
          is_write = (nr = PR_write \<or> nr = PR_pwrite64 \<or> nr = PR_writev);
          is_vec = (nr = PR_readv \<or> nr = PR_writev) in
      if \<not> is_read \<and> \<not> is_write then (False, r)
      else case fch_resolve e t fd r of
             (None, r1) \<Rightarrow> (False, r1)
           | (Some ci, r1) \<Rightarrow>
               (True, if is_read then chan_read t is_vec ci a2 a3 r1
                      else chan_write e junk t is_vec ci a2 a3 r1))"

section \<open>Opening a channel\<close>

definition uknl_fuse_open_enter :: "int \<Rightarrow> 'o rst \<Rightarrow> 'o rst" where
  "uknl_fuse_open_enter t r =
     (case find_idx (\<lambda>x. x = 0) (g_fopen_tid r) of
        None \<Rightarrow> r
      | Some i \<Rightarrow> r\<lparr>g_fopen_tid := (g_fopen_tid r)[i := t]\<rparr>)"

text \<open>
  \<^verbatim>\<open>fused_destroy(eng)\<close> on an engine of the heap: its messages go to the channel it is
  bound to, then it is freed. Teardown over the channel always ends (\<open>fch_send\<close> does
  not re-enter the engine), so \<open>None\<close> does not occur.
\<close>

definition eng_destroy :: "'o env \<Rightarrow> nat \<Rightarrow> 'o rst \<Rightarrow> 'o rst" where
  "eng_destroy e en r =
     (case st_eng r en of
        None \<Rightarrow> r
      | Some (f, ci) \<Rightarrow>
          (case fused_destroy (chan_fio e ci) (f, r) of
             None \<Rightarrow> r
           | Some r' \<Rightarrow> r'\<lparr>st_eng := (st_eng r')(en := None)\<rparr>))"

definition uknl_fuse_open_exit :: "'o env \<Rightarrow> int \<Rightarrow> int \<Rightarrow> 'o rst \<Rightarrow> 'o rst" where
  "uknl_fuse_open_exit e t fd r =
     (case find_idx (\<lambda>x. x = t) (g_fopen_tid r) of
        None \<Rightarrow> r
      | Some slot \<Rightarrow>
          let r1 = r\<lparr>g_fopen_tid := (g_fopen_tid r)[slot := 0]\<rparr> in
          if fd < 0 then r1
          else
            let (pid, r2) = ukfs_tgid e t r1 in
            case (case fch_by_fd pid fd r2 of
                    Some i \<Rightarrow> Some i | None \<Rightarrow> find_idx (\<lambda>ch. \<not> c_used ch) (g_fch r2)) of
              None \<Rightarrow> r2
            | Some ci \<Rightarrow>
                let r3 = (case c_eng (g_fch r2 ! ci) of None \<Rightarrow> r2 | Some en \<Rightarrow> eng_destroy e en r2);
                    r4 = upd_ch ci (\<lambda>_. ukfch_zero) (fch_forget_forks ci r3);
                    (fo, o1) = fused_new (env_alloc e) (- 1) 0 0 (env_getpid e) (st_os r4);
                    r5 = os_upd r4 o1 in
                case fo of
                  None \<Rightarrow> r5
                | Some f \<Rightarrow>
                    let en = st_next r5;
                        r6 = r5\<lparr>st_eng := (st_eng r5)(en := Some (f, ci)), st_next := en + 1\<rparr> in
                    upd_ch ci (\<lambda>ch. ch\<lparr>c_eng := Some en, c_used := True, c_pid := pid, c_fd := fd,
                        c_owner := pid, c_owner2 := fch_ppid e t r6, c_app_pid := 0,
                        c_marker := (case env_readlink e t fd (st_os r6) of
                                       Some s \<Rightarrow> take 255 s | None \<Rightarrow> [])\<rparr>) r6)"

end
