(* ===== verification/ChannelQueue.thy ===== *)
theory ChannelQueue
  imports FuseChannel "HOL-Library.Multiset"
begin

text \<open>
  The request slots of a channel form a FIFO queue. \<open>fifo\<close> is the interface the
  transport and the daemon's reads rely on; it is interpreted on the slot array
  with sequence numbers, where enqueueing takes the first free slot and
  dequeueing the used slot with the smallest number.
\<close>

section \<open>The interface\<close>

locale fifo =
  fixes enq :: "'m \<Rightarrow> 's \<Rightarrow> 's option"
    and deq :: "'s \<Rightarrow> ('m \<times> 's) option"
    and rep :: "'s \<Rightarrow> 'm list \<Rightarrow> bool"
    and room :: "nat \<Rightarrow> 's \<Rightarrow> bool"
  assumes enq_rep: "rep s q \<Longrightarrow> room (Suc n) s \<Longrightarrow> enq m s = Some s' \<Longrightarrow> rep s' (q @ [m]) \<and> room n s'"
    and deq_Nil: "rep s [] \<Longrightarrow> deq s = None"
    and deq_Cons: "rep s (m # q) \<Longrightarrow> \<exists>s'. deq s = Some (m, s') \<and> rep s' q"
begin

text \<open>Messages come out in the order they went in.\<close>

fun enqs :: "'m list \<Rightarrow> 's \<Rightarrow> 's option" where
  "enqs [] s = Some s"
| "enqs (m # ms) s = (case enq m s of None \<Rightarrow> None | Some s' \<Rightarrow> enqs ms s')"

fun deqs :: "nat \<Rightarrow> 's \<Rightarrow> ('m list \<times> 's) option" where
  "deqs 0 s = Some ([], s)"
| "deqs (Suc n) s =
     (case deq s of
        None \<Rightarrow> None
      | Some (m, s') \<Rightarrow> map_option (\<lambda>(ms, s''). (m # ms, s'')) (deqs n s'))"

lemma enqs_rep: "rep s q \<Longrightarrow> room (length ms) s \<Longrightarrow> enqs ms s = Some s' \<Longrightarrow> rep s' (q @ ms)"
proof (induction ms arbitrary: s q)
  case (Cons m ms)
  then show ?case using enq_rep [of s q "length ms" m] by (fastforce split: option.splits)
qed simp

lemma deqs_rep: "rep s (ms @ q) \<Longrightarrow> \<exists>s'. deqs (length ms) s = Some (ms, s') \<and> rep s' q"
proof (induction ms arbitrary: s)
  case (Cons m ms)
  then obtain s1 where "deq s = Some (m, s1)" "rep s1 (ms @ q)" using deq_Cons [of s m "ms @ q"] by auto
  with Cons.IH [of s1] show ?case by auto
qed simp

lemma fifo_order:
  assumes "rep s []" and "room (length ms) s" and "enqs ms s = Some s'"
  shows "\<exists>s''. deqs (length ms) s' = Some (ms, s'') \<and> deq s'' = None"
  using deqs_rep [of s' ms "[]"] enqs_rep [OF assms] deq_Nil by auto

end

section \<open>The slots of a channel\<close>

definition rq_enq :: "bytes \<Rightarrow> ukfch \<Rightarrow> ukfch option" where
  "rq_enq buf ch =
     (case find_idx (\<lambda>m. \<not> m_used m) (c_rq ch) of
        None \<Rightarrow> None
      | Some i \<Rightarrow>
          Some (ch\<lparr>c_seq := c_seq ch + 1,
                   c_rq := (c_rq ch)[i := \<lparr>m_used = True, m_uniq = fch_uniq buf,
                                         m_seq = c_seq ch + 1, m_buf = buf\<rparr>]\<rparr>))"

text \<open>Sequence numbers that are left before the counter reaches the sentinel.\<close>

definition rq_room :: "nat \<Rightarrow> ukfch \<Rightarrow> bool" where
  "rq_room n ch \<longleftrightarrow> unat (c_seq ch) + n < 2 ^ 64 - 1"

definition rq_deq :: "ukfch \<Rightarrow> (bytes \<times> ukfch) option" where
  "rq_deq ch =
     (case fch_oldest_rq ch of
        None \<Rightarrow> None
      | Some i \<Rightarrow> Some (m_buf (c_rq ch ! i), ch\<lparr>c_rq := (c_rq ch)[i := msg_free (c_rq ch ! i)]\<rparr>))"

text \<open>
  \<open>rq_rep ch ms\<close>: the used slots, in the order of their sequence numbers, hold \<open>ms\<close>.
  Sequence numbers stay below the sentinel of the search.
\<close>

definition rq_slots :: "ukfch \<Rightarrow> ukfmsg list \<Rightarrow> bool" where
  "rq_slots ch q \<longleftrightarrow> mset q = mset (filter m_used (c_rq ch)) \<and>
     sorted_wrt (\<lambda>a b. m_seq a < m_seq b) q \<and>
     (\<forall>m \<in> set q. m_seq m \<le> c_seq ch) \<and> c_seq ch < - 1"

definition rq_rep :: "ukfch \<Rightarrow> bytes list \<Rightarrow> bool" where
  "rq_rep ch ms \<longleftrightarrow> (\<exists>q. rq_slots ch q \<and> ms = map m_buf q)"

subsection \<open>The search for the oldest slot\<close>

lemma oldest_loop_spec:
  "oldest_loop ms k best bs = r \<Longrightarrow>
   (case r of
      None \<Rightarrow> best = None \<and> (\<forall>m \<in> set ms. m_used m \<longrightarrow> bs \<le> m_seq m)
    | Some i \<Rightarrow>
        (r = best \<and> (\<forall>m \<in> set ms. m_used m \<longrightarrow> bs \<le> m_seq m)) \<or>
        (k \<le> i \<and> i < k + length ms \<and> m_used (ms ! (i - k)) \<and> m_seq (ms ! (i - k)) < bs \<and>
         (\<forall>m \<in> set ms. m_used m \<longrightarrow> m_seq (ms ! (i - k)) \<le> m_seq m)))"
proof (induction ms arbitrary: k best bs r)
  case Nil
  then show ?case by (cases r) auto
next
  case (Cons m ms)
  show ?case
  proof (cases "m_used m \<and> m_seq m < bs")
    case True
    then have o: "oldest_loop ms (Suc k) (Some k) (m_seq m) = r" using Cons.prems by simp
    from Cons.IH [OF o] True show ?thesis
      by (cases r) (auto simp: Suc_diff_le nth_Cons' split: if_splits)
  next
    case False
    then have o: "oldest_loop ms (Suc k) best bs = r" using Cons.prems by (auto split: if_splits)
    from Cons.IH [OF o] False show ?thesis
      by (cases r) (auto simp: Suc_diff_le nth_Cons' not_less dest: order_trans split: if_splits)
  qed
qed

lemma fch_oldest_rq_None:
  assumes "fch_oldest_rq ch = None" and "\<And>m. m \<in> set (c_rq ch) \<Longrightarrow> m_used m \<Longrightarrow> m_seq m < - 1"
  shows "filter m_used (c_rq ch) = []"
  using oldest_loop_spec [OF assms(1) [unfolded fch_oldest_rq_def]] assms(2)
  by (force simp: filter_empty_conv)

lemma fch_oldest_rq_Some:
  assumes "fch_oldest_rq ch = Some i"
  shows "i < length (c_rq ch) \<and> m_used (c_rq ch ! i) \<and>
    (\<forall>m \<in> set (c_rq ch). m_used m \<longrightarrow> m_seq (c_rq ch ! i) \<le> m_seq m)"
  using oldest_loop_spec [OF assms [unfolded fch_oldest_rq_def]] by simp

subsection \<open>Slots as a queue\<close>

lemma filter_update_in:
  assumes "i < length xs" and "\<not> P (xs ! i)" and "P y"
  shows "mset (filter P (xs[i := y])) = add_mset y (mset (filter P xs))"
  using assms
proof (induction xs arbitrary: i)
  case (Cons x xs)
  then show ?case by (cases i) auto
qed simp

lemma filter_update_out:
  assumes "i < length xs" and "P (xs ! i)" and "\<not> P y"
  shows "add_mset (xs ! i) (mset (filter P (xs[i := y]))) = mset (filter P xs)"
  using assms
proof (induction xs arbitrary: i)
  case (Cons x xs)
  then show ?case by (cases i) auto
qed simp

lemma rq_enq_slots:
  assumes "rq_slots ch q" and "rq_room (Suc n) ch" and "rq_enq buf ch = Some ch'"
  shows "\<exists>m. rq_slots ch' (q @ [m]) \<and> m_buf m = buf \<and> rq_room n ch'"
proof -
  obtain i where i: "find_idx (\<lambda>m. \<not> m_used m) (c_rq ch) = Some i"
    using assms(3) by (auto simp: rq_enq_def split: option.splits)
  let ?m = "\<lparr>m_used = True, m_uniq = fch_uniq buf, m_seq = c_seq ch + 1, m_buf = buf\<rparr>"
  have ch': "ch' = ch\<lparr>c_seq := c_seq ch + 1, c_rq := (c_rq ch)[i := ?m]\<rparr>"
    using assms(3) i by (simp add: rq_enq_def)
  have s: "unat (c_seq ch + 1) = unat (c_seq ch) + 1"
    using assms(2) unat_add_u64 [of "c_seq ch" 1] by (simp add: rq_room_def)
  have lt: "c_seq ch < c_seq ch + 1" using s by (simp add: word_less_nat_alt)
  have "mset (q @ [?m]) = mset (filter m_used (c_rq ch'))"
    using assms(1) filter_update_in [OF find_idx_less [OF i], of m_used ?m] find_idx_sat [OF i]
    by (simp add: ch' rq_slots_def)
  moreover have "sorted_wrt (\<lambda>a b. m_seq a < m_seq b) (q @ [?m])"
    using assms(1) lt by (auto simp: rq_slots_def sorted_wrt_append)
  moreover have "\<forall>m \<in> set (q @ [?m]). m_seq m \<le> c_seq ch'"
    using assms(1) lt by (auto simp: rq_slots_def ch')
  moreover have "c_seq ch' < - 1"
    using assms(2) s by (simp add: ch' rq_room_def word_less_nat_alt unsigned_minus_1_eq_mask mask_eq_exp_minus_1)
  ultimately have "rq_slots ch' (q @ [?m])" by (simp add: rq_slots_def)
  moreover have "rq_room n ch'" using assms(2) s by (simp add: rq_room_def ch')
  ultimately show ?thesis by (intro exI [of _ ?m]) simp
qed

lemma rq_slots_bound: "rq_slots ch q \<Longrightarrow> m \<in> set (c_rq ch) \<Longrightarrow> m_used m \<Longrightarrow> m_seq m < - 1"
proof -
  assume a: "rq_slots ch q" "m \<in> set (c_rq ch)" "m_used m"
  then have "m \<in># mset q" by (simp add: rq_slots_def)
  then have "m \<in> set q" by simp
  with a(1) show ?thesis by (auto simp: rq_slots_def dest: order.strict_trans1)
qed

lemma rq_slots_Nil: "rq_slots ch [] \<Longrightarrow> fch_oldest_rq ch = None"
proof -
  assume a: "rq_slots ch []"
  then have "filter m_used (c_rq ch) = []" by (simp add: rq_slots_def)
  then show ?thesis using fch_oldest_rq_Some [of ch] by (cases "fch_oldest_rq ch") (auto simp: filter_empty_conv)
qed

lemma rq_slots_Cons:
  assumes "rq_slots ch (m # q)"
  shows "\<exists>i. fch_oldest_rq ch = Some i \<and> c_rq ch ! i = m \<and>
    rq_slots (ch\<lparr>c_rq := (c_rq ch)[i := msg_free (c_rq ch ! i)]\<rparr>) q"
proof -
  have set: "set (m # q) = {x \<in> set (c_rq ch). m_used x}"
    using assms mset_eq_setD [of "m # q" "filter m_used (c_rq ch)"] by (auto simp: rq_slots_def)
  obtain i where i: "fch_oldest_rq ch = Some i"
    using fch_oldest_rq_None [of ch] rq_slots_bound [OF assms] set by (cases "fch_oldest_rq ch") (auto simp: filter_empty_conv)
  note s = fch_oldest_rq_Some [OF i]
  have "c_rq ch ! i \<in> set (m # q)" unfolding set using s by simp
  moreover have "m_seq (c_rq ch ! i) \<le> m_seq m" using s set by auto
  ultimately have e: "c_rq ch ! i = m" using assms by (auto simp: rq_slots_def)
  have "add_mset m (mset (filter m_used ((c_rq ch)[i := msg_free m]))) = mset (filter m_used (c_rq ch))"
    using filter_update_out [of i "c_rq ch" m_used "msg_free m"] s e by (simp add: msg_free_def)
  then have "mset q = mset (filter m_used ((c_rq ch)[i := msg_free m]))"
    using assms by (metis add_mset_add_mset_same_iff mset.simps(2) rq_slots_def)
  then have "rq_slots (ch\<lparr>c_rq := (c_rq ch)[i := msg_free m]\<rparr>) q"
    using assms by (simp add: rq_slots_def)
  with i e show ?thesis by auto
qed

interpretation rq: fifo rq_enq rq_deq rq_rep rq_room
proof (unfold_locales, goal_cases)
  case (1 s q n m s')
  then show ?case using rq_enq_slots by (fastforce simp: rq_rep_def)
next
  case (2 s)
  then show ?case using rq_slots_Nil [of s] by (auto simp: rq_rep_def rq_deq_def)
next
  case (3 s m q)
  then obtain a b where "rq_slots s (a # b)" "m = m_buf a" "q = map m_buf b" by (auto simp: rq_rep_def)
  with rq_slots_Cons [of s a b] show ?case by (auto simp: rq_deq_def rq_rep_def)
qed

section \<open>Properties\<close>

text \<open>
  The code's sends and reads on a channel are the queue operations: \<open>fch_send\<close> enqueues
  when nobody is parked, and a daemon read dequeues.
\<close>

lemma nth_upd_ch [simp]: "ci < length (g_fch r) \<Longrightarrow> g_fch (upd_ch ci f r) ! ci = f (g_fch r ! ci)"
  by (simp add: upd_ch_def)

lemma fch_send_enq:
  assumes "ci < length (g_fch r)" and "length buf \<le> UK_FUSE_MSGCAP" and "fst (env_alloc e (length buf) (st_os r))"
    and "rq_enq buf (g_fch r ! ci) = Some ch'" and "\<not> c_parked (g_fch r ! ci)"
  shows "fst (fch_send e ci buf (f, r)) = int (length buf)"
    and "g_fch (snd (snd (fch_send e ci buf (f, r)))) = (g_fch r)[ci := ch']"
  using assms
  by (auto simp: fch_send_def rq_enq_def os_upd_def upd_ch_def Let_def split: option.splits prod.splits)

end
