(* ===== verification/Sock.thy ===== *)
theory Sock
  imports RedirectState
begin

text \<open>
  The socket helpers the redirect uses (\<^verbatim>\<open>uksd_wn\<close>, \<^verbatim>\<open>uksd_rn\<close>, \<^verbatim>\<open>uksd_rl\<close>, injected by
  \<^verbatim>\<open>proot/patches/fakeid0-xattr.py\<close>): write all, read exactly, read a line. Every round
  transfers at least one byte, so the number of bytes bounds the rounds.
\<close>

section \<open>Definitions\<close>

definition LF :: char where "LF = CHR 0x0A"

fun wn_loop :: "'o env \<Rightarrow> nat \<Rightarrow> int \<Rightarrow> bytes \<Rightarrow> 'o \<Rightarrow> bool \<times> 'o" where
  "wn_loop e 0 s b os = (b = [], os)"
| "wn_loop e (Suc k) s b os =
     (if b = [] then (True, os)
      else let (n, o1) = env_write e s b os in
           if n \<le> 0 then (False, o1) else wn_loop e k s (drop (nat n) b) o1)"

definition uksd_wn :: "'o env \<Rightarrow> int \<Rightarrow> bytes \<Rightarrow> 'o rst \<Rightarrow> bool \<times> 'o rst" where
  "uksd_wn e s b r = (let (ok, o1) = wn_loop e (length b) s b (st_os r) in (ok, os_upd r o1))"

fun rn_loop :: "'o env \<Rightarrow> nat \<Rightarrow> int \<Rightarrow> nat \<Rightarrow> bytes \<Rightarrow> 'o \<Rightarrow> bytes option \<times> 'o" where
  "rn_loop e 0 s n acc os = (if n = 0 then Some acc else None, os)"
| "rn_loop e (Suc k) s n acc os =
     (if n = 0 then (Some acc, os)
      else case env_read e s n os of
             (None, o1) \<Rightarrow> (None, o1)
           | (Some d, o1) \<Rightarrow>
               if d = [] then (None, o1) else rn_loop e k s (n - length d) (acc @ take n d) o1)"

definition uksd_rn :: "'o env \<Rightarrow> int \<Rightarrow> nat \<Rightarrow> 'o rst \<Rightarrow> bytes option \<times> 'o rst" where
  "uksd_rn e s n r = (let (x, o1) = rn_loop e n s n [] (st_os r) in (x, os_upd r o1))"

text \<open>\<open>k\<close> bytes of room are left in the line buffer.\<close>

fun rl_loop :: "'o env \<Rightarrow> nat \<Rightarrow> int \<Rightarrow> string \<Rightarrow> 'o \<Rightarrow> string option \<times> 'o" where
  "rl_loop e 0 s acc os = (Some acc, os)"
| "rl_loop e (Suc k) s acc os =
     (case rn_loop e 1 s 1 [] os of
        (None, o1) \<Rightarrow> (None, o1)
      | (Some d, o1) \<Rightarrow> if hd d = LF then (Some acc, o1) else rl_loop e k s (acc @ d) o1)"

text \<open>The caller reads the buffer as a C string.\<close>

definition uksd_rl :: "'o env \<Rightarrow> int \<Rightarrow> nat \<Rightarrow> 'o rst \<Rightarrow> string option \<times> 'o rst" where
  "uksd_rl e s bs r =
     (let (x, o1) = rl_loop e (bs - 1) s [] (st_os r) in (map_option cstr x, os_upd r o1))"

section \<open>Streams\<close>

text \<open>
  What the helpers promise over a stream socket \<open>s\<close>: \<open>at b\<close> is the environment in which
  the bytes \<open>b\<close> are there to be read. Transfers may be short but make progress.
\<close>

locale stream_in =
  fixes e :: "'o env" and s :: int and at :: "bytes \<Rightarrow> 'o"
  assumes read_some: "0 < n \<Longrightarrow> b \<noteq> [] \<Longrightarrow>
    \<exists>m. 0 < m \<and> m \<le> n \<and> m \<le> length b \<and> env_read e s n (at b) = (Some (take m b), at (drop m b))"
begin

lemma rn_loop_reads:
  "n \<le> k \<Longrightarrow> n \<le> length b \<Longrightarrow> rn_loop e k s n acc (at b) = (Some (acc @ take n b), at (drop n b))"
proof (induction k arbitrary: n acc b)
  case (Suc k)
  show ?case
  proof (cases "n = 0")
    case False
    have "b \<noteq> []" using False Suc.prems by auto
    with False obtain m where m: "0 < m" "m \<le> n" "m \<le> length b" "env_read e s n (at b) = (Some (take m b), at (drop m b))"
      using read_some [of n b] by auto
    have "take m b \<noteq> []" using m \<open>b \<noteq> []\<close> by auto
    moreover have "take m b @ take (n - m) (drop m b) = take n b"
      using m(2) by (metis le_add_diff_inverse take_add)
    ultimately show ?thesis using False m Suc.prems Suc.IH [of "n - m" "drop m b" "acc @ take m b"]
      by (simp add: min_absorb2)
  qed simp
qed simp

lemma rl_loop_reads:
  "LF \<notin> set l \<Longrightarrow> length l < k \<Longrightarrow> rl_loop e k s acc (at (l @ LF # rest)) = (Some (acc @ l), at rest)"
proof (induction l arbitrary: k acc)
  case Nil
  then obtain k' where "k = Suc k'" by (cases k) auto
  then show ?case using rn_loop_reads [of 1 1 "LF # rest" "[]"] by simp
next
  case (Cons c l)
  then obtain k' where k: "k = Suc k'" by (cases k) auto
  have "c \<noteq> LF" "LF \<notin> set l" using Cons.prems(1) by auto
  then show ?case using k Cons.IH [of k' "acc @ [c]"] Cons.prems(2) rn_loop_reads [of 1 1 "c # l @ LF # rest" "[]"] by simp
qed

end

text \<open>A pipe that hands out its content two bytes at a time.\<close>

definition pipe_env :: "bytes env" where
  "pipe_env = null_env\<lparr>env_read := (\<lambda>fd n os. (Some (take (min n 2) os), drop (min n 2) os))\<rparr>"

interpretation pipe: stream_in pipe_env s "\<lambda>b. b"
proof unfold_locales
  fix n :: nat and b :: bytes
  assume "0 < n" "b \<noteq> []"
  then show "\<exists>m. 0 < m \<and> m \<le> n \<and> m \<le> length b \<and> env_read pipe_env s n b = (Some (take m b), drop m b)"
    by (intro exI [of _ "min (min n 2) (length b)"]) (auto simp: pipe_env_def null_env_def min_def)
qed

end
