(* ===== verification/MountTable.thy ===== *)
theory MountTable
  imports FuseChannel Sock
begin

text \<open>
  The mount table of \<^verbatim>\<open>proot/patches/uknl_fs_redirect.c\<close>: which guest directory is served by
  which back end. A slot is either a FUSE mount, bound to an engine and its channel,
  or a ukfsd mount, bound to a daemon of the pool and to a connection that is opened
  and told to MOUNT on first use.
\<close>

section \<open>Canonical guest paths\<close>

text \<open>\<^verbatim>\<open>strtok_r\<close> over the slashes, with the stack of at most 256 parts.\<close>

definition canon_push :: "string list \<Rightarrow> string \<Rightarrow> string list" where
  "canon_push parts t =
     (if t = ''.'' then parts
      else if t = ''..'' then butlast parts
      else if length parts < 256 then parts @ [t] else parts)"

function canon_tok :: "string \<Rightarrow> string list \<Rightarrow> string list" where
  "canon_tok s parts =
     (let t = dropWhile (\<lambda>c. c = SLASH) s in
      if t = [] then parts
      else canon_tok (dropWhile (\<lambda>c. c \<noteq> SLASH) t) (canon_push parts (takeWhile (\<lambda>c. c \<noteq> SLASH) t)))"
  by pat_completeness auto

termination canon_tok
  by (relation "measure (\<lambda>(s, parts). length s)") (use dropWhile_twice_shorter [of "\<lambda>c. c = SLASH"] in auto)

declare canon_tok.simps [simp del]

text \<open>\<open>n\<close> counts what \<^verbatim>\<open>snprintf\<close> would have written; the buffer holds \<open>osz - 1\<close> characters.\<close>

fun canon_out :: "nat \<Rightarrow> nat \<Rightarrow> string list \<Rightarrow> string \<Rightarrow> string" where
  "canon_out osz n [] out = out"
| "canon_out osz n (p # ps) out =
     (if n + 1 < osz then canon_out osz (n + 1 + length p) ps (out @ snprintf_n (osz - n) (SLASH # p)) else out)"

definition ukfs_canon :: "string \<Rightarrow> nat \<Rightarrow> string" where
  "ukfs_canon inp osz =
     (let parts = canon_tok (snprintf_n PATH_MAX inp) [] in
      if parts = [] then snprintf_n osz ''/'' else canon_out osz 0 parts [])"

section \<open>Slots\<close>

definition upd_m :: "nat \<Rightarrow> (ukm \<Rightarrow> ukm) \<Rightarrow> 'o rst \<Rightarrow> 'o rst" where
  "upd_m i f r = r\<lparr>g_m := (g_m r)[i := f (g_m r ! i)]\<rparr>"

text \<open>The slot search of both registrations: the same mount point, else the first free slot.\<close>

definition mount_slot :: "string \<Rightarrow> ukm list \<Rightarrow> nat option" where
  "mount_slot tgt ms =
     (case find_idx (\<lambda>m. mt_used m \<and> mt_vmount m = tgt) ms of
        Some i \<Rightarrow> Some i
      | None \<Rightarrow> find_idx (\<lambda>m. \<not> mt_used m) ms)"

definition ukm_register_fuse :: "string \<Rightarrow> nat \<Rightarrow> nat \<Rightarrow> 'o rst \<Rightarrow> nat option \<times> 'o rst" where
  "ukm_register_fuse tgt eng chanidx r =
     (case mount_slot tgt (g_m r) of
        None \<Rightarrow> (None, r)
      | Some i \<Rightarrow>
          let r1 = (if mt_used (g_m r ! i) then r else r\<lparr>g_nm := g_nm r + 1\<rparr>) in
          (Some i, upd_m i (\<lambda>_. ukm_zero\<lparr>mt_used := True, mt_sock := - 1, mt_fuse := Some eng,
             mt_fuse_chan := int chanidx, mt_fuse_inited := False, mt_vmount := snprintf_n PATH_MAX tgt\<rparr>) r1))"

text \<open>\<^verbatim>\<open>(int) strtol(s, NULL, 10)\<close>\<close>

definition strtol_int :: "string \<Rightarrow> int" where
  "strtol_int s = (case scan_long s of None \<Rightarrow> 0 | Some (v, rest) \<Rightarrow> sint (word_of_int v :: u32))"

definition uknl_fuse_mount :: "'o env \<Rightarrow> int \<Rightarrow> 'o rst \<Rightarrow> bool \<times> 'o rst" where
  "uknl_fuse_mount e t r =
     (let fa = t_arg r t 3; oa = t_arg r t 5 in
      case (if fa = 0 then None else env_str e t fa 64 r) of
        None \<Rightarrow> (False, r)
      | Some fstype \<Rightarrow>
          if \<not> starts_with ''fuse'' fstype then (False, r)
          else
            let opts = (if oa = 0 then [] else case env_str e t oa 512 r of None \<Rightarrow> [] | Some s \<Rightarrow> s);
                fdN = (case strstr opts ''fd='' of None \<Rightarrow> - 1 | Some p \<Rightarrow> strtol_int (drop 3 p)) in
            if fdN < 0 then (False, r)
            else case env_path e t 2 r of
                   None \<Rightarrow> (False, r)
                 | Some tgt \<Rightarrow>
                     (case fch_resolve e t fdN r of
                        (None, r1) \<Rightarrow> (False, r1)
                      | (Some ci, r1) \<Rightarrow>
                          (case c_eng (g_fch r1 ! ci) of
                             None \<Rightarrow> (False, r1)
                           | Some en \<Rightarrow>
                               let (s, r2) = ukm_register_fuse tgt en ci r1 in (s \<noteq> None, r2))))"

section \<open>The daemon pool\<close>

definition UK_POOL :: "string list" where
  "UK_POOL = [''io.neoterm.fs'', ''io.neoterm.fs.p1'', ''io.neoterm.fs.p2'', ''io.neoterm.fs.p3'',
     ''io.neoterm.fs.p4'', ''io.neoterm.fs.p5'', ''io.neoterm.fs.p6'', ''io.neoterm.fs.p7'']"

definition daemon_busy :: "ukm list \<Rightarrow> string \<Rightarrow> bool" where
  "daemon_busy ms p \<longleftrightarrow> list_ex (\<lambda>m. mt_used m \<and> mt_fsname m = p) ms"

definition ukfs_alloc_daemon :: "'o rst \<Rightarrow> string option" where
  "ukfs_alloc_daemon r = List.find (\<lambda>p. \<not> daemon_busy (g_m r) p) UK_POOL"

definition ukfs_dev_token :: "string \<Rightarrow> nat \<Rightarrow> nat \<Rightarrow> (string \<times> string) option" where
  "ukfs_dev_token src tcap fcap =
     (let b = basename src in
      if b = ''uksd0'' then Some (snprintf_n tcap ''uksd0'', snprintf_n fcap ''io.neoterm.fs'')
      else if starts_with ''uksd0p'' b \<and> 6 < length b then
        (if list_all is_digit (drop 6 b)
         then Some (snprintf_n tcap b, snprintf_n fcap (''io.neoterm.fs.'' @ drop 5 b)) else None)
      else None)"

definition ukfs_src_is_dev :: "string \<Rightarrow> bool" where
  "ukfs_src_is_dev p \<longleftrightarrow> ukfs_dev_token p 64 64 \<noteq> None"

section \<open>Teardown\<close>

definition am_ok :: "'o rst \<Rightarrow> bool" where
  "am_ok r \<longleftrightarrow> 0 \<le> g_am r \<and> g_am r < int UK_MAXM"

abbreviation am :: "'o rst \<Rightarrow> nat" where
  "am r \<equiv> nat (g_am r)"

definition close_fd :: "'o env \<Rightarrow> int \<Rightarrow> 'o rst \<Rightarrow> 'o rst" where
  "close_fd e fd r = os_upd r (env_close e fd (st_os r))"

definition ukfs_sdrop :: "'o env \<Rightarrow> 'o rst \<Rightarrow> 'o rst" where
  "ukfs_sdrop e r =
     (if \<not> am_ok r then r
      else
        let s = mt_sock (g_m r ! am r);
            r1 = (if 0 \<le> s then upd_m (am r) (\<lambda>m. m\<lparr>mt_sock := - 1\<rparr>) (close_fd e s r) else r) in
        upd_m (am r) (\<lambda>m. m\<lparr>mt_ready := False\<rparr>) r1)"

text \<open>\<^verbatim>\<open>memset(&g_m[i], 0, sizeof g_m[i]); g_m[i].sock = -1; if (g_nm > 0) g_nm--;\<close>\<close>

definition slot_clear :: "nat \<Rightarrow> 'o rst \<Rightarrow> 'o rst" where
  "slot_clear i r =
     (let r1 = upd_m i (\<lambda>_. ukm_zero\<lparr>mt_sock := - 1\<rparr>) r in
      if 0 < g_nm r1 then r1\<lparr>g_nm := g_nm r1 - 1\<rparr> else r1)"

text \<open>The channel of a FUSE mount goes with it, if it still belongs to that engine.\<close>

definition free_channel :: "nat \<Rightarrow> 'o rst \<Rightarrow> 'o rst" where
  "free_channel ci r = fch_forget_forks ci (upd_ch ci (\<lambda>_. ukfch_zero) (fch_resume_eof ci r))"

definition ukfs_unmount_slot :: "'o env \<Rightarrow> int \<Rightarrow> 'o rst \<Rightarrow> 'o rst" where
  "ukfs_unmount_slot e j r =
     (let i = nat j; m = g_m r ! i in
      if j < 0 \<or> int UK_MAXM \<le> j \<or> \<not> mt_used m then r
      else case mt_fuse m of
        Some en \<Rightarrow>
          let r1 = eng_destroy e en r;
              ci = mt_fuse_chan m;
              ch = g_fch r1 ! nat ci;
              r2 = (if 0 \<le> ci \<and> ci < int UK_NFCH \<and> c_used ch \<and> c_eng ch = Some en
                    then free_channel (nat ci) r1 else r1) in
          slot_clear i r2
      | None \<Rightarrow>
          let r1 = (if mt_ready m \<and> 0 \<le> mt_sock m
                    then (case uksd_wn e (mt_sock m) (''UMOUNT'' @ [LF]) r of
                            (ok, r1) \<Rightarrow> if ok then snd (uksd_rl e (mt_sock m) 32 r1) else r1)
                    else r);
              r2 = (if 0 \<le> mt_sock m then close_fd e (mt_sock m) r1 else r1) in
          slot_clear i r2)"

definition owner_teardown :: "'o env \<Rightarrow> nat \<Rightarrow> 'o rst \<Rightarrow> 'o rst" where
  "owner_teardown e i r =
     (case find_idx (\<lambda>m. mt_used m \<and> mt_fuse m \<noteq> None \<and> mt_fuse_chan m = int i) (g_m r) of
        Some s \<Rightarrow> ukfs_unmount_slot e (int s) r
      | None \<Rightarrow>
          if c_used (g_fch r ! i) then
            let r1 = fch_resume_eof i r;
                r2 = (case c_eng (g_fch r1 ! i) of None \<Rightarrow> r1 | Some en \<Rightarrow> eng_destroy e en r1) in
            upd_ch i (\<lambda>_. ukfch_zero) (fch_forget_forks i r2)
          else r)"

definition uknl_fuse_owner_gone :: "'o env \<Rightarrow> int \<Rightarrow> 'o rst \<Rightarrow> 'o rst" where
  "uknl_fuse_owner_gone e pid r =
     for_ch (\<lambda>r i. c_used (g_fch r ! i) \<and> c_app_pid (g_fch r ! i) = pid) (owner_teardown e) [0..<UK_NFCH] r"

section \<open>Connecting\<close>

definition ukfs_do_mount :: "'o env \<Rightarrow> 'o rst \<Rightarrow> bool \<times> 'o rst" where
  "ukfs_do_mount e r =
     (let m = g_m r ! am r in
      if mt_sock m < 0 then (False, r)
      else
        let rq = snprintf_n 700 (''MOUNT auto '' @ mt_token m @
                   (if mt_range m then '' '' @ show_int (mt_base m) @ '' '' @ show_int (mt_size m) else []) @ [LF]) in
        case uksd_wn e (mt_sock m) rq r of
          (False, r1) \<Rightarrow> (False, r1)
        | (True, r1) \<Rightarrow>
            (case uksd_rl e (mt_sock m) 64 r1 of
               (None, r2) \<Rightarrow> (False, r2)
             | (Some line, r2) \<Rightarrow> (starts_with ''OK'' line, r2)))"

text \<open>\<^verbatim>\<open>write(s, "SIZE\n", 5) == 5\<close>, then one \<^verbatim>\<open>read\<close> of at most 7 bytes.\<close>

definition ukfs_block_present :: "'o env \<Rightarrow> 'o rst \<Rightarrow> bool \<times> 'o rst" where
  "ukfs_block_present e r =
     (let (s, o1) = env_socket e (st_os r) in
      if s < 0 then (True, os_upd r o1)
      else case env_connect e s ''io.neoterm.block'' o1 of
        (False, o2) \<Rightarrow> (False, os_upd r (env_close e s o2))
      | (True, o2) \<Rightarrow>
          let (n, o3) = env_write e s (''SIZE'' @ [LF]) o2;
              (d, o4) = (if n = 5 then env_read e s 7 o3 else (None, o3)) in
          (case d of None \<Rightarrow> False | Some b \<Rightarrow> starts_with ''OK'' b, os_upd r (env_close e s o4)))"

definition ukfs_connect :: "'o env \<Rightarrow> string \<Rightarrow> 'o rst \<Rightarrow> int \<times> 'o rst" where
  "ukfs_connect e nm r =
     (let (s, o1) = env_socket e (st_os r) in
      if s < 0 then (- 1, os_upd r o1)
      else case env_connect e s nm o1 of
        (False, o2) \<Rightarrow> (- 1, os_upd r (env_close e s o2))
      | (True, o2) \<Rightarrow> (s, os_upd r o2))"

text \<open>The last part of \<open>ukfs_conn\<close>: MOUNT on the open connection unless that was done.\<close>

definition conn_ready :: "'o env \<Rightarrow> 'o rst \<Rightarrow> int \<times> 'o rst" where
  "conn_ready e r =
     (if mt_ready (g_m r ! am r) then (mt_sock (g_m r ! am r), r)
      else case ukfs_do_mount e r of
        (False, r1) \<Rightarrow> (- 1, ukfs_sdrop e r1)
      | (True, r1) \<Rightarrow> (mt_sock (g_m r1 ! am r1), upd_m (am r1) (\<lambda>m. m\<lparr>mt_ready := True\<rparr>) r1))"

definition ukfs_conn :: "'o env \<Rightarrow> 'o rst \<Rightarrow> int \<times> 'o rst" where
  "ukfs_conn e r =
     (let m = g_m r ! am r in
      if \<not> am_ok r \<or> \<not> mt_used m then (- 1, r)
      else if 0 \<le> mt_sock m \<and> mt_ready m then (mt_sock m, r)
      else if 0 \<le> mt_sock m then conn_ready e r
      else
        let (here, r1) = (if hd (mt_token m @ [NUL]) = SLASH then (True, r) else ukfs_block_present e r) in
        if \<not> here then (- 1, (ukfs_unmount_slot e (g_am r1) r1)\<lparr>g_am := - 1\<rparr>)
        else case ukfs_connect e (mt_fsname m) r1 of
          (s, r2) \<Rightarrow>
            if s < 0 then (- 1, r2)
            else conn_ready e (upd_m (am r2) (\<lambda>m. m\<lparr>mt_sock := s\<rparr>) r2))"

section \<open>Mount points\<close>

text \<open>\<^verbatim>\<open>strncmp(guest, vmount, ml) == 0\<close> and the next character ends a component.\<close>

definition vm_match :: "string \<Rightarrow> string \<Rightarrow> bool" where
  "vm_match vm guest \<longleftrightarrow> starts_with vm guest \<and> (let c = hd (drop (length vm) guest @ [NUL]) in c = NUL \<or> c = SLASH)"

fun rel_loop :: "ukm list \<Rightarrow> nat \<Rightarrow> string \<Rightarrow> nat option \<Rightarrow> nat \<Rightarrow> nat option \<times> nat" where
  "rel_loop [] i guest best bestlen = (best, bestlen)"
| "rel_loop (m # ms) i guest best bestlen =
     (if mt_used m \<and> vm_match (mt_vmount m) guest \<and> bestlen \<le> length (mt_vmount m)
      then rel_loop ms (Suc i) guest (Some i) (length (mt_vmount m))
      else rel_loop ms (Suc i) guest best bestlen)"

definition ukfs_rel :: "string \<Rightarrow> nat \<Rightarrow> 'o rst \<Rightarrow> string option \<times> 'o rst" where
  "ukfs_rel guest osz r =
     (case rel_loop (g_m r) 0 guest None 0 of
        (None, _) \<Rightarrow> (None, r)
      | (Some best, bl) \<Rightarrow>
          let rest = drop bl guest in
          (Some (snprintf_n osz (if rest = [] then ''/'' else rest)), r\<lparr>g_am := int best\<rparr>))"

text \<open>
  On reuse \<^verbatim>\<open>fsname\<close> points into the slot that \<^verbatim>\<open>memset\<close> clears before it is copied back: the
  slot ends with an empty name.
\<close>

definition ukm_register :: "string \<Rightarrow> string \<Rightarrow> int \<Rightarrow> int \<Rightarrow> bool \<Rightarrow> 'o rst \<Rightarrow> nat option \<times> 'o rst" where
  "ukm_register tgt token base sz rng r =
     (case mount_slot tgt (g_m r) of
        None \<Rightarrow> (None, r)
      | Some i \<Rightarrow>
          let reuse = mt_used (g_m r ! i) in
          case (if reuse then Some [] else ukfs_alloc_daemon r) of
            None \<Rightarrow> (None, r)
          | Some fsname \<Rightarrow>
              let r1 = (if reuse then r else r\<lparr>g_nm := g_nm r + 1\<rparr>);
                  r2 = upd_m i (\<lambda>_. ukm_zero\<lparr>mt_used := True, mt_sock := - 1, mt_ready := False, mt_base := base,
                         mt_size := sz, mt_range := rng, mt_vmount := snprintf_n PATH_MAX tgt,
                         mt_token := snprintf_n 600 token, mt_fsname := snprintf_n 64 fsname\<rparr>) r1 in
              (Some i, r2\<lparr>g_am := int i\<rparr>))"

definition ukfs_mount_register :: "string \<Rightarrow> string \<Rightarrow> 'o rst \<Rightarrow> nat option \<times> 'o rst" where
  "ukfs_mount_register src tgt r =
     (case ukfs_dev_token src 64 64 of
        None \<Rightarrow> (None, r)
      | Some (token, fsname) \<Rightarrow> ukm_register tgt token 0 0 False r)"

definition ukfs_umount_target :: "'o env \<Rightarrow> int \<Rightarrow> string \<Rightarrow> 'o rst \<Rightarrow> bool \<times> 'o rst" where
  "ukfs_umount_target e t raw r =
     (let absp = snprintf_n PATH_MAX (if hd (raw @ [NUL]) = SLASH then raw else t_cwd r t @ ''/'' @ raw);
          canon = ukfs_canon absp PATH_MAX in
      case find_idx (\<lambda>m. mt_used m \<and> (mt_vmount m = canon \<or> mt_vmount m = raw)) (g_m r) of
        None \<Rightarrow> (False, r)
      | Some i \<Rightarrow>
          let r1 = ukfs_unmount_slot e (int i) r in
          (True, if g_am r1 = int i then r1\<lparr>g_am := - 1\<rparr> else r1))"

section \<open>The active FUSE engine\<close>

text \<open>
  An operation of the engine \<open>en\<close> over its channel. An engine that was freed is not
  there any more; the code would use freed memory, here the operation fails.
\<close>

definition with_eng :: "'o env \<Rightarrow> nat \<Rightarrow> ('o rst fio \<Rightarrow> ('a, 'o rst) op) \<Rightarrow> 'o rst \<Rightarrow> (int + 'a) \<times> 'o rst" where
  "with_eng e en opn r =
     (case st_eng r en of
        None \<Rightarrow> (Inl (- EIO), r)
      | Some (f, ci) \<Rightarrow>
          let (res, (f', r')) = opn (chan_fio e ci) (f, r) in
          (res, r'\<lparr>st_eng := (st_eng r')(en := Some (f', ci))\<rparr>))"

definition fuse_active :: "'o env \<Rightarrow> 'o rst \<Rightarrow> nat option \<times> 'o rst" where
  "fuse_active e r =
     (let m = g_m r ! am r in
      if \<not> am_ok r \<or> \<not> mt_used m then (None, r)
      else case mt_fuse m of
        None \<Rightarrow> (None, r)
      | Some en \<Rightarrow>
          if mt_fuse_inited m then (Some en, r)
          else case with_eng e en fused_init r of
            (Inl _, r1) \<Rightarrow> (None, r1)
          | (Inr _, r1) \<Rightarrow> (Some en, upd_m (am r) (\<lambda>m. m\<lparr>mt_fuse_inited := True\<rparr>) r1))"

end
