(* ===== verification/ChannelInv.thy ===== *)
theory ChannelInv
  imports ChannelQueue FusedInv MountTable
begin

text \<open>
  The channel as a state machine: every entry point of the redirect that touches a
  channel is a step, in any order, and the invariant that keeps the daemon from
  being stopped for ever is carried through all of them: a parked read means the
  request queue is empty, and after the session leader is gone nothing is parked.
\<close>

section \<open>The invariant\<close>

definition ch_ok :: "bool \<Rightarrow> ukfch \<Rightarrow> bool" where
  "ch_ok gone ch \<longleftrightarrow>
     (c_parked ch \<longrightarrow> c_used ch \<and> c_dmn ch \<noteq> None \<and> fch_oldest_rq ch = None \<and> \<not> gone)"

definition idx_ok :: "'o rst \<Rightarrow> bool" where
  "idx_ok r \<longleftrightarrow> length (g_fch r) = UK_NFCH \<and> list_all (\<lambda>h. fh_chan h < UK_NFCH) (g_fch_fork r) \<and>
     (\<forall>x \<in> ran (st_eng r). snd x < UK_NFCH)"

definition chan_inv :: "'o rst \<Rightarrow> bool" where
  "chan_inv r \<longleftrightarrow> idx_ok r \<and> (\<forall>ci < UK_NFCH. ch_ok (g_fuse_root_gone r) (g_fch r ! ci))"

section \<open>The steps\<close>

text \<open>
  The entry points: the engine hands over a request, any tracee does channel I/O, the
  engine claims a reply from slot \<open>i\<close> and stores its own state back, the notifications
  of the tracer (with the end of the application that owns a mount), and the mount
  table's operations, of which the unmounts tear engines and channels down.
\<close>

inductive chan_step :: "'o env \<Rightarrow> 'o rst \<Rightarrow> 'o rst \<Rightarrow> bool" for e where
  S_send: "ci < UK_NFCH \<Longrightarrow> chan_step e r (snd (snd (fch_send e ci buf (f, r))))"
| S_io: "chan_step e r (snd (uknl_fuse_chan_io e junk t nr fd a2 a3 r))"
| S_claim: "ci < UK_NFCH \<Longrightarrow> chan_step e r (upd_ch ci (\<lambda>ch. ch\<lparr>c_rp := (c_rp ch)[i := msg_free m]\<rparr>) r)"
| S_drain: "chan_step e r (uknl_fuse_drain_parked r)"
| S_reap: "chan_step e r (uknl_fuse_reap_signaled e r)"
| S_fork: "chan_step e r (uknl_fuse_note_fork e pp cp r)"
| S_exec: "chan_step e r (uknl_fuse_note_exec p r)"
| S_take: "chan_step e r (snd (uknl_fuse_take_park p r))"
| S_daemon: "chan_step e r (snd (uknl_fuse_is_daemon e p r))"
| S_enter: "chan_step e r (uknl_fuse_open_enter t r)"
| S_exit: "chan_step e r (uknl_fuse_open_exit e t fd r)"
| S_engine: "st_eng r en = Some (f, ci) \<Longrightarrow> chan_step e r (r\<lparr>st_eng := (st_eng r)(en := Some (f', ci))\<rparr>)"
| S_am: "chan_step e r (r\<lparr>g_am := n\<rparr>)"
| S_gone: "chan_step e r (uknl_fuse_owner_gone e p r)"
| S_mount: "chan_step e r (snd (uknl_fuse_mount e t r))"
| S_register: "chan_step e r (snd (ukm_register tgt token base sz rng r))"
| S_rel: "chan_step e r (snd (ukfs_rel guest osz r))"
| S_unmount: "chan_step e r (ukfs_unmount_slot e j r)"
| S_umount: "chan_step e r (snd (ukfs_umount_target e t raw r))"
| S_conn: "chan_step e r (snd (ukfs_conn e r))"

text \<open>The parts of the state the invariant speaks about.\<close>

lemma scatter_loop_frame:
  "g_fch (scatter_loop k t a2 src r) = g_fch r \<and> g_fuse_root_gone (scatter_loop k t a2 src r) = g_fuse_root_gone r \<and>
   g_fch_fork (scatter_loop k t a2 src r) = g_fch_fork r \<and> st_eng (scatter_loop k t a2 src r) = st_eng r"
  by (induction k arbitrary: a2 src r) (simp_all add: Let_def write_data_def split: option.split)

lemma frame_tracee [simp]:
  "g_fch (write_data p a b r) = g_fch r" "g_fch (poke_void p v r) = g_fch r" "g_fch (resume p r) = g_fch r"
  "g_fch (os_upd r o1) = g_fch r" "g_fch (scatter_loop k t a2 src r) = g_fch r"
  "g_fch (fch_scatter t a2 vec src n r) = g_fch r"
  by (simp_all add: write_data_def poke_void_def resume_def os_upd_def scatter_loop_frame fch_scatter_def)

lemma gone_tracee [simp]:
  "g_fuse_root_gone (write_data p a b r) = g_fuse_root_gone r" "g_fuse_root_gone (poke_void p v r) = g_fuse_root_gone r"
  "g_fuse_root_gone (resume p r) = g_fuse_root_gone r" "g_fuse_root_gone (os_upd r o1) = g_fuse_root_gone r"
  "g_fuse_root_gone (fch_scatter t a2 vec src n r) = g_fuse_root_gone r"
  "g_fuse_root_gone (upd_ch ci f r) = g_fuse_root_gone r"
  by (simp_all add: write_data_def poke_void_def resume_def os_upd_def upd_ch_def scatter_loop_frame fch_scatter_def)

lemma idx_tracee [simp]:
  "idx_ok (write_data p a b r) = idx_ok r" "idx_ok (poke_void p v r) = idx_ok r"
  "idx_ok (resume p r) = idx_ok r" "idx_ok (os_upd r o1) = idx_ok r"
  "idx_ok (fch_scatter t a2 vec src n r) = idx_ok r" "idx_ok (upd_ch ci f r) = idx_ok r"
  by (simp_all add: idx_ok_def write_data_def poke_void_def resume_def os_upd_def upd_ch_def
      scatter_loop_frame fch_scatter_def)

lemma inv_tracee [simp]:
  "chan_inv (poke_void p v r) = chan_inv r" "chan_inv (resume p r) = chan_inv r" "chan_inv (os_upd r o1) = chan_inv r"
  "chan_inv (fch_scatter t a2 vec src n r) = chan_inv r"
  by (simp_all add: chan_inv_def)

lemma idx_len: "idx_ok r \<Longrightarrow> length (g_fch r) = UK_NFCH"
  by (simp add: idx_ok_def)

lemma nth_upd_other [simp]: "j \<noteq> ci \<Longrightarrow> g_fch (upd_ch ci f r) ! j = g_fch r ! j"
  by (simp add: upd_ch_def)

lemma chan_inv_upd:
  assumes "chan_inv r" and "ch_ok (g_fuse_root_gone r) (f (g_fch r ! ci))"
  shows "chan_inv (upd_ch ci f r)"
proof -
  have "ch_ok (g_fuse_root_gone r) (g_fch (upd_ch ci f r) ! j)" if "j < UK_NFCH" for j
    using assms that by (cases "j = ci") (auto simp: chan_inv_def idx_len)
  with assms(1) show ?thesis by (simp add: chan_inv_def)
qed

lemma oldest_cong: "c_rq a = c_rq b \<Longrightarrow> fch_oldest_rq a = fch_oldest_rq b"
  by (simp add: fch_oldest_rq_def)

text \<open>A change that leaves the request slots and the parking alone.\<close>

lemma chan_inv_upd_same:
  assumes "chan_inv r" and "ci < UK_NFCH" and "\<And>ch. c_rq (f ch) = c_rq ch" and "\<And>ch. c_parked (f ch) = c_parked ch"
    and "\<And>ch. c_dmn (f ch) = c_dmn ch" and "\<And>ch. c_used (f ch) = c_used ch"
  shows "chan_inv (upd_ch ci f r)"
  using assms oldest_cong [of "f (g_fch r ! ci)" "g_fch r ! ci"]
  by (intro chan_inv_upd) (auto simp: ch_ok_def chan_inv_def)

section \<open>Preservation\<close>

lemma deliver_parked_inv:
  assumes "idx_ok r" and "\<And>j. j < UK_NFCH \<Longrightarrow> j \<noteq> ci \<Longrightarrow> ch_ok (g_fuse_root_gone r) (g_fch r ! j)"
    and "ci < UK_NFCH" and "c_dmn (g_fch r ! ci) = Some d" and "c_parked (g_fch r ! ci)" and "c_used (g_fch r ! ci)"
    and "\<not> g_fuse_root_gone r"
  shows "chan_inv (fch_deliver_parked ci r)"
proof (cases "fch_oldest_rq (g_fch r ! ci)")
  case None
  have "ch_ok (g_fuse_root_gone r) (g_fch r ! j)" if "j < UK_NFCH" for j
    using that assms None by (cases "j = ci") (auto simp: ch_ok_def)
  with assms(1) None show ?thesis by (simp add: fch_deliver_parked_def Let_def chan_inv_def assms)
next
  case (Some i)
  have "ch_ok (g_fuse_root_gone r) (g_fch (fch_deliver_parked ci r) ! j)" if "j < UK_NFCH" for j
    using that assms Some by (cases "j = ci") (auto simp: fch_deliver_parked_def Let_def idx_len ch_ok_def)
  then show ?thesis using assms Some by (simp add: chan_inv_def fch_deliver_parked_def Let_def)
qed

lemma fch_send_inv:
  assumes "chan_inv r" and "ci < UK_NFCH"
  shows "chan_inv (snd (snd (fch_send e ci buf (f, r))))"
proof (cases "find_idx (\<lambda>m. \<not> m_used m) (c_rq (g_fch r ! ci))")
  case None
  with assms show ?thesis by (simp add: fch_send_def)
next
  case (Some i)
  obtain ok o1 where a: "env_alloc e (length buf) (st_os r) = (ok, o1)" by (rule prod.exhaust)
  let ?g = "\<lambda>ch. ch\<lparr>c_seq := c_seq ch + 1, c_rq := (c_rq ch)[i := \<lparr>m_used = True, m_uniq = fch_uniq buf,
      m_seq = c_seq ch + 1, m_buf = buf\<rparr>]\<rparr>"
  let ?r1 = "upd_ch ci ?g (os_upd r o1)"
  have n: "g_fch ?r1 ! ci = ?g (g_fch r ! ci)" using assms by (simp add: chan_inv_def idx_len)
  have ok: "ch_ok (g_fuse_root_gone r) (g_fch r ! ci)" using assms by (simp add: chan_inv_def)
  have "chan_inv (if c_parked (g_fch ?r1 ! ci) then fch_deliver_parked ci ?r1 else ?r1)"
  proof (cases "c_parked (g_fch r ! ci)")
    case True
    then obtain d where "c_dmn (g_fch r ! ci) = Some d" "c_used (g_fch r ! ci)" "\<not> g_fuse_root_gone r"
      using ok by (auto simp: ch_ok_def)
    then have "chan_inv (fch_deliver_parked ci ?r1)"
      using assms True n by (intro deliver_parked_inv) (simp_all add: chan_inv_def)
    with True n show ?thesis by simp
  next
    case False
    then have "chan_inv ?r1" using assms by (intro chan_inv_upd) (simp_all add: ch_ok_def)
    with False n show ?thesis by simp
  qed
  with assms(1) Some a show ?thesis by (simp add: fch_send_def Let_def)
qed

lemma chan_read_inv:
  assumes "chan_inv r" and "ci < UK_NFCH" and "c_used (g_fch r ! ci)"
  shows "chan_inv (chan_read t v ci a2 a3 r)"
proof (cases "fch_oldest_rq (g_fch r ! ci)")
  case None
  let ?park = "\<lambda>n w ch. ch\<lparr>c_dmn := Some t, c_dbuf := a2, c_dcnt := n, c_parked := True, c_dvec := w\<rparr>"
  have o: "fch_oldest_rq (?park n w (g_fch r ! ci)) = None" for n w
    using None by (simp add: fch_oldest_rq_def)
  have p: "chan_inv (upd_ch ci (?park n w) r)" if "\<not> g_fuse_root_gone r" for n w
    using assms o that by (intro chan_inv_upd) (simp_all add: ch_ok_def)
  have q: "chan_inv (r1\<lparr>g_fuse_park_pid := t\<rparr>) = chan_inv r1" for r1 :: "'a rst"
    by (simp add: chan_inv_def idx_ok_def)
  show ?thesis using None assms(1) p unfolding chan_read_def Let_def by (simp add: q)
next
  case (Some qi)
  then have n: "\<not> c_parked (g_fch r ! ci)" using assms by (auto simp: chan_inv_def ch_ok_def)
  let ?take = "\<lambda>ch. ch\<lparr>c_rq := (c_rq ch)[qi := msg_free (c_rq (g_fch r ! ci) ! qi)]\<rparr>"
  have "chan_inv (upd_ch ci ?take (fch_scatter t a2 w bs k r))" for w bs k
    using assms n by (intro chan_inv_upd) (simp_all add: ch_ok_def)
  then show ?thesis using Some unfolding chan_read_def Let_def by simp
qed

lemma chan_reply_inv: "chan_inv r \<Longrightarrow> ci < UK_NFCH \<Longrightarrow> chan_inv (chan_reply ci rb r)"
  by (auto simp: chan_reply_def split: option.split intro: chan_inv_upd_same)

lemma chan_write_inv: "chan_inv r \<Longrightarrow> ci < UK_NFCH \<Longrightarrow> chan_inv (chan_write e junk t v ci a2 a3 r)"
  by (auto simp: chan_write_def Let_def chan_reply_inv split: prod.split option.split)

lemma tgid_frame [simp]:
  "g_fch (snd (ukfs_tgid e tid r)) = g_fch r" "g_fch_fork (snd (ukfs_tgid e tid r)) = g_fch_fork r"
  "chan_inv (snd (ukfs_tgid e tid r)) = chan_inv r" "st_os (snd (ukfs_tgid e tid r)) = st_os r"
  by (auto simp: ukfs_tgid_def Let_def chan_inv_def idx_ok_def split: option.split)

lemma tgid_invD: "ukfs_tgid e tid r = (tg, r1) \<Longrightarrow> chan_inv r \<Longrightarrow> chan_inv r1"
  using tgid_frame(3) [of e tid r] by simp

text \<open>A resolved channel is in range and in use.\<close>

lemma fch_resolve_used:
  assumes "chan_inv r" and "fch_resolve e pid fd r = (Some ci, r1)"
  shows "ci < UK_NFCH \<and> c_used (g_fch r1 ! ci) \<and> chan_inv r1"
proof -
  obtain tg r0 where t: "ukfs_tgid e pid r = (tg, r0)" by (rule prod.exhaust)
  have f: "g_fch r0 = g_fch r" "g_fch_fork r0 = g_fch_fork r" "chan_inv r0"
    using tgid_frame [of e pid r] assms(1) t by simp_all
  have len: "length (g_fch r0) = UK_NFCH" using f(3) by (simp add: chan_inv_def idx_len)
  show ?thesis
  proof (cases "fch_by_fd tg fd r0")
    case None
    then obtain k where k: "find_idx (hint_ok tg pid fd (g_fch r0)) (g_fch_fork r0) = Some k"
      and ci: "ci = fh_chan (g_fch_fork r0 ! k)" and r1: "r1 = upd_ch ci (\<lambda>ch. ch\<lparr>c_pid := tg\<rparr>) r0"
      using assms(2) t by (auto simp: fch_resolve_def Let_def split: if_splits option.splits)
    have c: "ci < UK_NFCH"
      using f(3) find_idx_less [OF k] ci by (simp add: chan_inv_def idx_ok_def list_all_length)
    have "c_used (g_fch r0 ! ci)" using find_idx_sat [OF k] ci by (simp add: hint_ok_def Let_def)
    moreover have "chan_inv r1" unfolding r1 using f(3) c by (rule chan_inv_upd_same) simp_all
    ultimately show ?thesis using c r1 len by simp
  next
    case (Some i)
    then have "ci = i" "r1 = r0" using assms(2) t by (auto simp: fch_resolve_def Let_def)
    with Some f(3) len show ?thesis
      using find_idx_less [of _ "g_fch r0" i] find_idx_sat [of _ "g_fch r0" i]
      by (auto simp: fch_by_fd_def)
  qed
qed

lemma fch_resolve_None: "fch_resolve e pid fd r = (None, r1) \<Longrightarrow> r1 = snd (ukfs_tgid e pid r)"
  by (auto simp: fch_resolve_def Let_def split: prod.splits option.splits if_splits)

lemma chan_io_inv:
  assumes "chan_inv r"
  shows "chan_inv (snd (uknl_fuse_chan_io e junk t nr fd a2 a3 r))"
proof -
  obtain co r1 where f: "fch_resolve e t fd r = (co, r1)" by (rule prod.exhaust)
  show ?thesis
  proof (cases co)
    case None
    then have "chan_inv r1" using f fch_resolve_None [of e t fd r r1] assms by simp
    with None f assms show ?thesis by (simp add: uknl_fuse_chan_io_def Let_def)
  next
    case (Some ci)
    with f fch_resolve_used [OF assms, of e t fd ci r1]
    have "ci < UK_NFCH" "c_used (g_fch r1 ! ci)" "chan_inv r1" by auto
    with Some f assms show ?thesis
      by (simp add: uknl_fuse_chan_io_def Let_def chan_read_inv chan_write_inv)
  qed
qed

lemma resume_eof_inv: "chan_inv r \<Longrightarrow> chan_inv (fch_resume_eof ci r)"
  by (auto simp: fch_resume_eof_def Let_def ch_ok_def split: option.split intro!: chan_inv_upd)

lemma for_ch_keeps:
  "I r \<Longrightarrow> (\<And>i r. i \<in> set is \<Longrightarrow> I r \<Longrightarrow> I (body i r)) \<Longrightarrow> I (for_ch P body is r)"
  by (induction "is" arbitrary: r) auto

lemma reap_inv: "chan_inv r \<Longrightarrow> chan_inv (uknl_fuse_reap_signaled e r)"
  unfolding uknl_fuse_reap_signaled_def by (rule for_ch_keeps) (simp_all add: resume_eof_inv)

lemma resume_eof_frame [simp]:
  "idx_ok (fch_resume_eof ci r) = idx_ok r" "g_fuse_root_gone (fch_resume_eof ci r) = g_fuse_root_gone r"
  "j \<noteq> ci \<Longrightarrow> g_fch (fch_resume_eof ci r) ! j = g_fch r ! j"
  by (auto simp: fch_resume_eof_def Let_def split: option.split)

lemma resume_eof_unparks:
  "ci < length (g_fch r) \<Longrightarrow> is_parked (g_fch r ! ci) \<Longrightarrow> \<not> c_parked (g_fch (fch_resume_eof ci r) ! ci)"
  by (auto simp: fch_resume_eof_def Let_def is_parked_def)

lemma drain_loop:
  assumes "idx_ok r" and "\<And>j. j < UK_NFCH \<Longrightarrow> c_parked (g_fch r ! j) \<Longrightarrow> j \<in> set is \<and> is_parked (g_fch r ! j)"
    and "set is \<subseteq> {..<UK_NFCH}"
  shows "idx_ok (for_ch (\<lambda>r i. is_parked (g_fch r ! i)) fch_resume_eof is r) \<and>
    (\<forall>j < UK_NFCH. \<not> c_parked (g_fch (for_ch (\<lambda>r i. is_parked (g_fch r ! i)) fch_resume_eof is r) ! j))"
  using assms
proof (induction "is" arbitrary: r)
  case (Cons i "is")
  let ?r = "if is_parked (g_fch r ! i) then fch_resume_eof i r else r"
  have "j \<in> set is \<and> is_parked (g_fch ?r ! j)" if "j < UK_NFCH" "c_parked (g_fch ?r ! j)" for j
  proof -
    have "j \<noteq> i" using that Cons.prems resume_eof_unparks [of i r] by (auto simp: idx_len split: if_splits)
    with that Cons.prems(2) [of j] show ?thesis by (auto split: if_splits)
  qed
  with Cons.IH [of ?r] Cons.prems show ?case by simp
qed auto

lemma drain_inv:
  assumes "chan_inv r"
  shows "chan_inv (uknl_fuse_drain_parked r)"
proof -
  let ?r = "r\<lparr>g_fuse_root_gone := True\<rparr>"
  have i: "idx_ok ?r" using assms by (simp add: chan_inv_def idx_ok_def)
  have p: "j \<in> set [0..<UK_NFCH] \<and> is_parked (g_fch ?r ! j)" if "j < UK_NFCH" "c_parked (g_fch ?r ! j)" for j
    using assms that by (auto simp: chan_inv_def ch_ok_def is_parked_def)
  have "set [0..<UK_NFCH] \<subseteq> {..<UK_NFCH}" by auto
  from drain_loop [OF i p this] show ?thesis
    by (simp add: uknl_fuse_drain_parked_def chan_inv_def ch_ok_def)
qed

lemma chan_of_pid_less: "chan_inv r \<Longrightarrow> fch_chan_of_pid p r = Some c \<Longrightarrow> c < UK_NFCH"
  by (auto simp: fch_chan_of_pid_def chan_inv_def idx_ok_def list_all_length
      split: option.splits dest: find_idx_less)

lemma note_fork_inv:
  assumes "chan_inv r"
  shows "chan_inv (uknl_fuse_note_fork e pp cp r)"
proof -
  let ?c = "case fch_chan_of_pid pp r of Some c \<Rightarrow> (Some c, r)
    | None \<Rightarrow> let (tg, r1) = ukfs_tgid e pp r in (fch_chan_of_pid tg r1, r1)"
  obtain co r1 where c: "?c = (co, r1)" by (rule prod.exhaust)
  have r1: "chan_inv r1"
    using c assms by (auto split: option.splits prod.splits simp: Let_def dest: tgid_invD)
  have lt: "co = Some k \<Longrightarrow> k < UK_NFCH" for k
    using c assms r1 chan_of_pid_less by (auto split: option.splits prod.splits simp: Let_def)
  have "chan_inv (r1\<lparr>g_fch_fork := (g_fch_fork r1)[i := \<lparr>fh_used = True, fh_pid = cp, fh_chan = k\<rparr>]\<rparr>)"
    if "k < UK_NFCH" for i k
    using r1 that by (auto simp: chan_inv_def idx_ok_def list_all_iff dest!: subsetD [OF set_update_subset_insert])
  with r1 lt show ?thesis
    unfolding uknl_fuse_note_fork_def c by (simp split: option.split)
qed

lemma note_exec_inv: "chan_inv r \<Longrightarrow> chan_inv (uknl_fuse_note_exec p r)"
  by (auto simp: chan_inv_def uknl_fuse_note_exec_def idx_ok_def ch_ok_def fch_oldest_rq_def)

lemma small_steps_inv:
  "chan_inv r \<Longrightarrow> chan_inv (snd (uknl_fuse_take_park p r))"
  "chan_inv r \<Longrightarrow> chan_inv (snd (uknl_fuse_is_daemon e p r))"
  "chan_inv r \<Longrightarrow> chan_inv (uknl_fuse_open_enter t r)"
  "chan_inv r \<Longrightarrow> chan_inv (fch_forget_forks c r)"
proof -
  assume r: "chan_inv r"
  then show "chan_inv (snd (uknl_fuse_take_park p r))" "chan_inv (uknl_fuse_open_enter t r)"
    "chan_inv (fch_forget_forks c r)"
    by (auto simp: uknl_fuse_take_park_def uknl_fuse_open_enter_def fch_forget_forks_def chan_inv_def idx_ok_def
        list_all_iff split: option.split)
  show "chan_inv (snd (uknl_fuse_is_daemon e p r))"
    using r by (auto simp: uknl_fuse_is_daemon_def Let_def split: prod.splits dest: tgid_invD)
qed

interpretation ct: teardown_inv "chan_fio e ci" "\<lambda>s. ci < UK_NFCH \<longrightarrow> chan_inv (snd s)" for e ci
proof (unfold_locales, goal_cases)
  case (1 s body opcode nid)
  show ?case
  proof (rule noreply_keeps [where P = "\<lambda>s. ci < UK_NFCH \<longrightarrow> chan_inv (snd s)", OF 1(1)], goal_cases)
    case (3 f s)
    then show ?case
      using fch_send_inv [of "snd s" ci e _ "fst s"] by (auto simp: tx_send_def chan_fio_def split_beta)
  qed (auto simp: chan_fio_def split_beta)
qed

lemma eng_destroy_inv:
  assumes "chan_inv r"
  shows "chan_inv (eng_destroy e en r)"
proof (cases "st_eng r en")
  case (Some x)
  obtain f ci where x: "x = (f, ci)" by (rule prod.exhaust)
  have ci: "ci < UK_NFCH" using assms Some x by (force simp: chan_inv_def idx_ok_def ran_def)
  show ?thesis
  proof (cases "fused_destroy (chan_fio e ci) (f, r)")
    case Nd: (Some r')
    then have "chan_inv r'" using ct.fused_destroy_inv [OF Nd] assms ci by auto
    then have "chan_inv (r'\<lparr>st_eng := (st_eng r')(en := None)\<rparr>)"
      by (auto simp: chan_inv_def idx_ok_def ran_def)
    with Some x Nd show ?thesis by (simp add: eng_destroy_def)
  qed (use assms Some x in \<open>simp add: eng_destroy_def\<close>)
qed (use assms in \<open>simp add: eng_destroy_def\<close>)

lemma open_reset_inv:
  fixes e :: "'o env"
  assumes "chan_inv r" and "ci < UK_NFCH"
  defines "r3 \<equiv> (case c_eng (g_fch r ! ci) of None \<Rightarrow> r | Some en \<Rightarrow> eng_destroy e en r)"
  shows "chan_inv (upd_ch ci (\<lambda>_. ukfch_zero) (fch_forget_forks ci r3))"
    and "\<not> c_parked (g_fch (upd_ch ci (\<lambda>_. ukfch_zero) (fch_forget_forks ci r3)) ! ci)"
proof -
  have "chan_inv r3" unfolding r3_def using assms eng_destroy_inv by (auto split: option.split)
  note f = small_steps_inv(4) [OF this, of ci]
  from f show "chan_inv (upd_ch ci (\<lambda>_. ukfch_zero) (fch_forget_forks ci r3))"
    by (rule chan_inv_upd) (simp add: ch_ok_def ukfch_zero_def)
  from f assms(2) show "\<not> c_parked (g_fch (upd_ch ci (\<lambda>_. ukfch_zero) (fch_forget_forks ci r3)) ! ci)"
    by (simp add: chan_inv_def idx_len) (simp add: ukfch_zero_def)
qed

lemma open_bind_inv:
  assumes "chan_inv r" and "ci < UK_NFCH" and "\<not> c_parked (f (g_fch r ! ci))"
  shows "chan_inv (upd_ch ci f (r\<lparr>st_eng := (st_eng r)(en := Some (g, ci)), st_next := n\<rparr>))"
proof (rule chan_inv_upd)
  show "chan_inv (r\<lparr>st_eng := (st_eng r)(en := Some (g, ci)), st_next := n\<rparr>)"
    using assms by (auto simp: chan_inv_def idx_ok_def ran_def)
qed (use assms in \<open>simp add: ch_ok_def\<close>)

lemma open_exit_inv:
  assumes "chan_inv r"
  shows "chan_inv (uknl_fuse_open_exit e t fd r)"
proof (cases "find_idx (\<lambda>x. x = t) (g_fopen_tid r)")
  case (Some slot)
  let ?r1 = "r\<lparr>g_fopen_tid := (g_fopen_tid r)[slot := 0]\<rparr>"
  obtain pid r2 where t: "ukfs_tgid e t ?r1 = (pid, r2)" by (rule prod.exhaust)
  have r1: "chan_inv ?r1" using assms by (simp add: chan_inv_def idx_ok_def)
  note r2 = tgid_invD [OF t r1]
  let ?c = "case fch_by_fd pid fd r2 of Some i \<Rightarrow> Some i | None \<Rightarrow> find_idx (\<lambda>ch. \<not> c_used ch) (g_fch r2)"
  show ?thesis
  proof (cases ?c)
    case None
    then show ?thesis using Some t r1 r2 by (simp add: uknl_fuse_open_exit_def Let_def)
  next
    case (Some ci)
    have ci: "ci < UK_NFCH"
      using Some r2 by (auto simp: fch_by_fd_def chan_inv_def idx_len split: option.splits dest: find_idx_less)
    define r4 where "r4 = upd_ch ci (\<lambda>_. ukfch_zero) (fch_forget_forks ci
      (case c_eng (g_fch r2 ! ci) of None \<Rightarrow> r2 | Some en \<Rightarrow> eng_destroy e en r2))"
    obtain fo o1 where f: "fused_new (env_alloc e) (- 1) 0 0 (env_getpid e) (st_os r4) = (fo, o1)"
      by (rule prod.exhaust)
    have r4: "chan_inv (os_upd r4 o1)" "\<not> c_parked (g_fch (os_upd r4 o1) ! ci)"
      using open_reset_inv [OF r2 ci] by (simp_all add: r4_def)
    show ?thesis
      unfolding uknl_fuse_open_exit_def Let_def \<open>find_idx _ _ = Some slot\<close> option.case t prod.case Some
        r4_def [symmetric] f
      using r1 r4 ci by (cases fo) (auto intro!: open_bind_inv)
  qed
qed (use assms in \<open>simp add: uknl_fuse_open_exit_def\<close>)

text \<open>The mount table beside the channels.\<close>

lemma inv_table [simp]:
  "chan_inv (upd_m i f r) = chan_inv r" "chan_inv (r\<lparr>g_am := n\<rparr>) = chan_inv r" "chan_inv (r\<lparr>g_nm := k\<rparr>) = chan_inv r"
  by (simp_all add: chan_inv_def idx_ok_def upd_m_def)

lemma inv_sock [simp]:
  "chan_inv (close_fd e s r) = chan_inv r" "chan_inv (snd (uksd_wn e s b r)) = chan_inv r"
  "chan_inv (snd (uksd_rl e s n r)) = chan_inv r"
  by (simp_all add: close_fd_def uksd_wn_def uksd_rl_def split_beta)

lemma inv_slot_clear [simp]: "chan_inv (slot_clear i r) = chan_inv r"
  by (simp add: slot_clear_def Let_def)

lemma free_channel_inv: "chan_inv r \<Longrightarrow> chan_inv (free_channel ci r)"
  unfolding free_channel_def
  by (intro small_steps_inv(4) chan_inv_upd resume_eof_inv) (simp_all add: ch_ok_def ukfch_zero_def)

lemma unmount_slot_chan: "chan_inv r \<Longrightarrow> chan_inv (ukfs_unmount_slot e j r)"
  by (auto simp: ukfs_unmount_slot_def Let_def split_beta free_channel_inv eng_destroy_inv split: option.split)

lemma owner_teardown_chan:
  assumes "chan_inv r" and "i < UK_NFCH"
  shows "chan_inv (owner_teardown e i r)"
  using assms open_reset_inv(1) [OF resume_eof_inv [OF assms(1), of i] assms(2), of e]
  by (auto simp: owner_teardown_def Let_def unmount_slot_chan split: option.split)

lemma owner_gone_chan: "chan_inv r \<Longrightarrow> chan_inv (uknl_fuse_owner_gone e p r)"
  unfolding uknl_fuse_owner_gone_def by (rule for_ch_keeps) (simp_all add: owner_teardown_chan)

lemma register_chan:
  "chan_inv (snd (ukm_register_fuse tgt en ci r)) = chan_inv r"
  "chan_inv (snd (ukm_register tgt token base sz rng r)) = chan_inv r"
  "chan_inv (snd (ukfs_rel guest osz r)) = chan_inv r"
  by (auto simp: ukm_register_fuse_def ukm_register_def ukfs_rel_def Let_def split: option.split prod.split)

lemma fch_resolve_inv: "chan_inv r \<Longrightarrow> chan_inv (snd (fch_resolve e p fd r))"
proof (cases "fch_resolve e p fd r")
  case (Pair co r1)
  assume "chan_inv r"
  then show ?thesis
    using Pair fch_resolve_used [of r e p fd _ r1] fch_resolve_None [of e p fd r r1] by (cases co) auto
qed

lemma fuse_mount_chan:
  assumes "chan_inv r"
  shows "chan_inv (snd (uknl_fuse_mount e t r))"
proof -
  have f: "chan_inv r1" if "fch_resolve e t fd r = (co, r1)" for fd co r1
    using fch_resolve_inv [OF assms, of e t fd] that by simp
  have "chan_inv r2" if "fch_resolve e t fd r = (co, r1)" "ukm_register_fuse tgt en ci r1 = (s, r2)"
    for tgt en ci s r1 r2 fd co
    using register_chan(1) [of tgt en ci r1] f [OF that(1)] that(2) by simp
  with f show ?thesis
    using assms unfolding uknl_fuse_mount_def Let_def by (auto split: option.split prod.split)
qed

lemma umount_target_chan: "chan_inv r \<Longrightarrow> chan_inv (snd (ukfs_umount_target e t raw r))"
  by (simp add: ukfs_umount_target_def Let_def unmount_slot_chan split: option.split)

lemma conn_parts_chan [simp]:
  "chan_inv (snd (ukfs_block_present e r)) = chan_inv r" "chan_inv (snd (ukfs_connect e nm r)) = chan_inv r"
  "chan_inv (ukfs_sdrop e r) = chan_inv r"
  by (auto simp: ukfs_block_present_def ukfs_connect_def ukfs_sdrop_def Let_def split: prod.split bool.split)

lemma do_mount_chan [simp]: "chan_inv (snd (ukfs_do_mount e r)) = chan_inv r"
proof -
  have "chan_inv r1 = chan_inv r" if "uksd_wn e s b r = (x, r1)" for s b x r1
    using that inv_sock(2) [of e s b r] by simp
  moreover have "chan_inv r2 = chan_inv r1" if "uksd_rl e s n r1 = (y, r2)" for s n y r1 r2
    using that inv_sock(3) [of e s n r1] by simp
  ultimately show ?thesis
    by (auto simp: ukfs_do_mount_def Let_def split: prod.split bool.split option.split)
qed

lemma conn_ready_chan [simp]: "chan_inv (snd (conn_ready e r)) = chan_inv r"
proof -
  obtain ok r1 where d: "ukfs_do_mount e r = (ok, r1)" by (rule prod.exhaust)
  then have "chan_inv r1 = chan_inv r" using do_mount_chan [of e r] by (simp del: do_mount_chan)
  with d show ?thesis by (simp add: conn_ready_def split: bool.split)
qed

lemma conn_chan:
  assumes "chan_inv r"
  shows "chan_inv (snd (ukfs_conn e r))"
proof -
  let ?m = "g_m r ! am r"
  obtain here r1 where h: "(if hd (mt_token ?m @ [NUL]) = SLASH then (True, r) else ukfs_block_present e r) = (here, r1)"
    by (rule prod.exhaust)
  have r1: "chan_inv r1" using h assms conn_parts_chan(1) [of e r] by (auto simp del: conn_parts_chan split: if_splits)
  obtain s r2 where c: "ukfs_connect e (mt_fsname ?m) r1 = (s, r2)" by (rule prod.exhaust)
  then have "chan_inv r2" using r1 conn_parts_chan(2) [of e "mt_fsname ?m" r1] by (simp del: conn_parts_chan)
  then show ?thesis
    unfolding ukfs_conn_def Let_def h using assms r1 by (auto simp: c unmount_slot_chan)
qed

lemma engine_store_inv:
  assumes "chan_inv r" and "st_eng r en = Some (f, ci)"
  shows "chan_inv (r\<lparr>st_eng := (st_eng r)(en := Some (f', ci))\<rparr>)"
proof -
  have "ci < UK_NFCH" using assms by (force simp: chan_inv_def idx_ok_def ran_def)
  with assms(1) show ?thesis by (auto simp: chan_inv_def idx_ok_def ran_def)
qed

lemmas mount_chan = owner_gone_chan fuse_mount_chan register_chan unmount_slot_chan umount_target_chan conn_chan

lemma chan_step_inv: "chan_step e r r' \<Longrightarrow> chan_inv r \<Longrightarrow> chan_inv r'"
  by (induction rule: chan_step.induct)
     (simp_all add: fch_send_inv chan_io_inv chan_inv_upd_same drain_inv reap_inv note_fork_inv note_exec_inv
       small_steps_inv open_exit_inv engine_store_inv mount_chan)

lemma chan_inv_init: "chan_inv (rst_init mem mp os)"
  by (simp add: chan_inv_def idx_ok_def ch_ok_def rst_init_def zero_defs tab_defs list_all_length)

lemma chan_reachable_inv: "(chan_step e)\<^sup>*\<^sup>* r r' \<Longrightarrow> chan_inv r \<Longrightarrow> chan_inv r'"
  by (induction rule: rtranclp_induct) (auto dest: chan_step_inv)

section \<open>A sample environment\<close>

text \<open>The state after thread 7 opened \<^verbatim>\<open>/dev/fuse\<close> as descriptor 5.\<close>

definition quiet_env :: "unit env" where
  "quiet_env = null_env"

definition start :: "unit rst" where
  "start = rst_init (\<lambda>_ _. CHR ''x'') (\<lambda>_ _ _. True) ()"

definition opened :: "unit rst" where
  "opened = uknl_fuse_open_exit quiet_env 7 5 (uknl_fuse_open_enter 7 start)"

definition opened_ch :: ukfch where
  "opened_ch = ukfch_zero\<lparr>c_eng := Some 1, c_used := True, c_pid := 7, c_fd := 5, c_owner := 7\<rparr>"

lemma opened_facts:
  "g_fch opened = (replicate UK_NFCH ukfch_zero)[0 := opened_ch]" "t_map opened = (\<lambda>_ _ _. True)"
  "t_resumed opened = []" "\<not> g_fuse_root_gone opened" "g_tgid_cache opened = [(7, 7)]"
  unfolding opened_def start_def opened_ch_def
  by (simp_all add: quiet_env_def null_env_def uknl_fuse_open_exit_def uknl_fuse_open_enter_def rst_init_def ukfs_tgid_def
      proc_field_def Let_def fch_by_fd_def fused_new_def upd_ch_def os_upd_def fch_forget_forks_def fch_ppid_def
      tab_defs(2) ukfch_zero_def)

lemma opened_nth: "g_fch opened ! 0 = opened_ch" "length (g_fch opened) = UK_NFCH"
  by (simp_all add: opened_facts tab_defs)

definition parked1 :: "unit rst" where
  "parked1 = chan_read 7 False 0 4096 8192 opened"

lemma opened_oldest: "fch_oldest_rq opened_ch = None"
proof -
  have "oldest_loop (replicate n ukfmsg_zero) k None (- 1) = None" for n k
    by (induction n arbitrary: k) (simp_all add: ukfmsg_zero_def)
  then show ?thesis by (simp add: fch_oldest_rq_def opened_ch_def ukfch_zero_def)
qed

lemma parked1_facts:
  "g_fch parked1 = (replicate UK_NFCH ukfch_zero)[0 := opened_ch\<lparr>c_dmn := Some 7, c_dbuf := 4096, c_dcnt := 8192,
     c_parked := True, c_dvec := - 1\<rparr>]" "t_map parked1 = (\<lambda>_ _ _. True)" "t_resumed parked1 = []"
  "\<not> g_fuse_root_gone parked1"
  unfolding parked1_def chan_read_def Let_def opened_nth(1) opened_oldest option.case
  by (simp_all add: opened_facts upd_ch_def tab_defs)

lemma parked1_reached: "(chan_step quiet_env)\<^sup>*\<^sup>* start parked1"
proof -
  have r: "fch_resolve quiet_env 7 5 opened = (Some 0, opened)"
    by (simp add: fch_resolve_def ukfs_tgid_def opened_facts(5) fch_by_fd_def opened_facts(1) opened_ch_def tab_defs)
  have "snd (uknl_fuse_chan_io quiet_env (\<lambda>_. NUL) 7 PR_read 5 4096 8192 opened) = parked1"
    by (simp add: uknl_fuse_chan_io_def Let_def r parked1_def)
  then have "chan_step quiet_env opened parked1"
    using S_io [of quiet_env opened "\<lambda>_. NUL" 7 PR_read 5 4096 8192] by simp
  moreover have "chan_step quiet_env start (uknl_fuse_open_enter 7 start)" by (rule S_enter)
  moreover have "chan_step quiet_env (uknl_fuse_open_enter 7 start) opened" unfolding opened_def by (rule S_exit)
  ultimately show ?thesis by (meson rtranclp.rtrancl_into_rtrancl rtranclp.rtrancl_refl)
qed

section \<open>Properties\<close>

text \<open>
  C15. No wake-up is lost. In every state reachable by any interleaving of sends,
  channel reads and writes of any thread, claims of replies, opens, forks, execs,
  signal reaping, mounts and unmounts, the end of the application that owns a mount
  (with the teardown of its engine and channel) and the end of the session leader,
  a channel with a parked read
  is in use, knows whom to resume, holds no request that a delivery would find
  (only the sentinel sequence number 2^64 - 1, which is given out once in 2^64
  sends, is not found), and the session leader is still there.
\<close>

theorem parked_means_idle:
  assumes "(chan_step e)\<^sup>*\<^sup>* (rst_init mem mp os) r" and "ch \<in> set (g_fch r)" and "c_parked ch"
  shows "c_used ch \<and> (\<exists>d. c_dmn ch = Some d) \<and> \<not> g_fuse_root_gone r \<and>
    (\<forall>m \<in> set (c_rq ch). m_used m \<longrightarrow> m_seq m = - 1)"
proof -
  have inv: "chan_inv r" using chan_reachable_inv [OF assms(1) chan_inv_init] .
  obtain ci where "ci < UK_NFCH" "g_fch r ! ci = ch"
    using assms(2) inv by (auto simp: in_set_conv_nth chan_inv_def idx_len)
  then have ok: "ch_ok (g_fuse_root_gone r) ch" using inv by (auto simp: chan_inv_def)
  have "\<forall>m \<in> set (c_rq ch). m_used m \<longrightarrow> - 1 \<le> m_seq m"
    using ok assms(3) oldest_loop_spec [of "c_rq ch" 0 None "- 1" None]
    by (simp add: ch_ok_def fch_oldest_rq_def)
  with ok assms(3) show ?thesis by (auto simp: ch_ok_def word_order.extremum_unique)
qed

theorem parked_means_idle_witness:
  "c_parked (g_fch parked1 ! 0) \<and> c_used (g_fch parked1 ! 0) \<and> (\<exists>d. c_dmn (g_fch parked1 ! 0) = Some d) \<and>
   \<not> g_fuse_root_gone parked1"
proof -
  have p: "c_parked (g_fch parked1 ! 0)" by (simp add: parked1_facts tab_defs)
  have "g_fch parked1 ! 0 \<in> set (g_fch parked1)" by (rule nth_mem) (simp add: parked1_facts tab_defs)
  from parked_means_idle [OF parked1_reached [unfolded start_def] this p] p show ?thesis by simp
qed

end
