(* ===== verification/ChannelServe.thy ===== *)
theory ChannelServe
  imports ChannelInv FusedServer
begin

text \<open>
  What the channel does for its two users, the engine and the daemon: requests reach
  the daemon in the order they were sent, a parked read is completed by the next
  request, a reply reaches the exchange that waits for it, and a whole exchange of
  the engine returns the daemon's answer. Also what goes wrong with a second parked
  read and with a full reply queue.
\<close>

section \<open>Sequences of sends and reads\<close>

fun send_all :: "'o env \<Rightarrow> nat \<Rightarrow> bytes list \<Rightarrow> fused \<times> 'o rst \<Rightarrow> fused \<times> 'o rst" where
  "send_all e ci [] s = s"
| "send_all e ci (m # ms) s = send_all e ci ms (snd (fch_send e ci m s))"

text \<open>The daemon reads \<open>n\<close> times into one buffer; what it finds there each time.\<close>

fun read_all :: "int \<Rightarrow> nat \<Rightarrow> u64 \<Rightarrow> u64 \<Rightarrow> nat \<Rightarrow> 'o rst \<Rightarrow> bytes option list" where
  "read_all t ci a2 a3 0 r = []"
| "read_all t ci a2 a3 (Suc n) r =
     (let r' = chan_read t False ci a2 a3 r in
      read_data t a2 (unat (t_res r' t)) r' # read_all t ci a2 a3 n r')"

section \<open>Sends and reads as queue operations\<close>

lemma length_rq_enq: "rq_enq m ch = Some ch' \<Longrightarrow> length (c_rq ch') = length (c_rq ch) \<and> c_parked ch' = c_parked ch"
  by (auto simp: rq_enq_def split: option.splits)

lemma rq_enq_succeeds:
  assumes "rq_slots ch q" and "length q < length (c_rq ch)"
  shows "\<exists>ch'. rq_enq m ch = Some ch'"
proof (cases "find_idx (\<lambda>m. \<not> m_used m) (c_rq ch)")
  case None
  then have "filter m_used (c_rq ch) = c_rq ch" by (auto simp: find_idx_None filter_id_conv)
  moreover have "length q = length (filter m_used (c_rq ch))"
    using assms(1) unfolding rq_slots_def by (metis size_mset)
  ultimately show ?thesis using assms(2) by simp
qed (simp add: rq_enq_def)

lemma enqs_succeeds:
  assumes "rq_slots ch q" and "length q + length ms \<le> length (c_rq ch)" and "rq_room (length ms) ch"
  shows "\<exists>ch'. rq.enqs ms ch = Some ch'"
  using assms
proof (induction ms arbitrary: ch q)
  case (Cons m ms)
  obtain ch1 where e: "rq_enq m ch = Some ch1" using rq_enq_succeeds [OF Cons.prems(1)] Cons.prems(2) by auto
  obtain x where "rq_slots ch1 (q @ [x])" "rq_room (length ms) ch1"
    using rq_enq_slots [OF Cons.prems(1) _ e, of "length ms"] Cons.prems(3) by auto
  with Cons.IH [of ch1 "q @ [x]"] Cons.prems(2) e length_rq_enq [OF e] show ?case by simp
qed simp

lemma fch_send_map:
  assumes "ci < length (g_fch r)" and "\<not> c_parked (g_fch r ! ci)"
  shows "t_map (snd (snd (fch_send e ci m (f, r)))) = t_map r"
  using assms by (auto simp: fch_send_def os_upd_def upd_ch_def Let_def split: option.splits prod.splits)

lemma send_all_enqs:
  assumes "ci < length (g_fch r)" and "\<not> c_parked (g_fch r ! ci)" and "rq.enqs ms (g_fch r ! ci) = Some ch'"
    and "\<And>m. m \<in> set ms \<Longrightarrow> length m \<le> UK_FUSE_MSGCAP" and "\<And>n os. fst (env_alloc e n os)"
  shows "g_fch (snd (send_all e ci ms (f, r))) = (g_fch r)[ci := ch'] \<and>
    t_map (snd (send_all e ci ms (f, r))) = t_map r"
  using assms(1-4)
proof (induction ms arbitrary: f r)
  case (Cons m ms)
  obtain ch1 where e1: "rq_enq m (g_fch r ! ci) = Some ch1" "rq.enqs ms ch1 = Some ch'"
    using Cons.prems(3) by (auto split: option.splits)
  obtain n f1 r1 where s: "fch_send e ci m (f, r) = (n, (f1, r1))" by (metis prod.exhaust)
  have g: "g_fch r1 = (g_fch r)[ci := ch1]"
    using fch_send_enq(2) [OF Cons.prems(1) _ _ e1(1) Cons.prems(2), of e f] Cons.prems(4) assms(5) s by simp
  have "t_map r1 = t_map r" using fch_send_map [OF Cons.prems(1,2), of e m f] s by simp
  moreover have "\<not> c_parked ch1" using length_rq_enq [OF e1(1)] Cons.prems(2) by simp
  ultimately show ?case using Cons.IH [of r1 f1] Cons.prems g e1 s by simp
qed auto

lemma chan_read_deq:
  assumes "rq_deq (g_fch r ! ci) = Some (m, ch')" and "length m \<le> unat a3"
  shows "chan_read t False ci a2 a3 r =
    poke_void t (int (length m)) (upd_ch ci (\<lambda>_. ch') (if m = [] then r else write_data t a2 m r))"
  using assms by (auto simp: rq_deq_def chan_read_def fch_scatter_def upd_ch_def write_data_def Let_def split: option.splits)

lemma read_data_frame [simp]:
  "read_data p a n (poke_void q v r) = read_data p a n r" "read_data p a n (upd_ch ci f r) = read_data p a n r"
  "read_data p a n (resume q r) = read_data p a n r" "read_data p a n (os_upd r o1) = read_data p a n r"
  by (simp_all add: read_data_def poke_void_def upd_ch_def resume_def os_upd_def)

lemma write_data_map [simp]: "t_map (write_data p a b r) = t_map r" "t_map (upd_ch ci f r) = t_map r"
  "t_map (poke_void p v r) = t_map r"
  by (simp_all add: write_data_def upd_ch_def poke_void_def)

lemma length_upd_ch [simp]: "length (g_fch (upd_ch ci f r)) = length (g_fch r)"
  by (simp add: upd_ch_def)

lemma res_poke [simp]: "t_res (poke_void t v r) t = word_of_int v"
  by (simp add: poke_void_def)

lemma read_all_deqs:
  assumes "ci < length (g_fch r)" and "rq.deqs (length ms) (g_fch r ! ci) = Some (ms, ch')"
    and "\<And>m. m \<in> set ms \<Longrightarrow> length m \<le> unat a3" and "\<And>n. n \<le> unat a3 \<Longrightarrow> t_map r t a2 n"
  shows "read_all t ci a2 a3 (length ms) r = map Some ms"
  using assms
proof (induction ms arbitrary: r)
  case (Cons m ms)
  obtain ch1 where d: "rq_deq (g_fch r ! ci) = Some (m, ch1)" "rq.deqs (length ms) ch1 = Some (ms, ch')"
    using Cons.prems(2) by (auto split: option.splits)
  have l: "length m \<le> unat a3" using Cons.prems(3) by simp
  let ?r = "chan_read t False ci a2 a3 r"
  have w: "unat a3 < 2 ^ 64" using unsigned_less [of a3] by simp
  note r = chan_read_deq [OF d(1) l, of t a2]
  have u: "unat (t_res ?r t) = length m" using l w by (simp add: r unat_u64)
  have m: "read_data t a2 (length m) ?r = Some m"
    using read_write_data [of r t a2 m] Cons.prems(4) [OF l] l w
    by (cases "m = []") (simp_all add: r read_data_def [of t a2 0])
  have "read_all t ci a2 a3 (length ms) ?r = map Some ms"
    using Cons.prems d(2) by (intro Cons.IH) (simp_all add: r)
  with u m show ?case by (simp add: Let_def)
qed simp

lemma slots_empty:
  assumes "list_all (\<lambda>m. \<not> m_used m) (c_rq ch)" and "rq_room n ch"
  shows "rq_slots ch []"
proof -
  have "unat (c_seq ch) < unat (- 1 :: u64)"
    using assms(2) by (simp add: rq_room_def unsigned_minus_1_eq_mask mask_eq_exp_minus_1)
  then show ?thesis using assms(1) by (simp add: rq_slots_def list_all_iff word_less_nat_alt)
qed

text \<open>An empty queue takes a message, which is then the oldest; taking it empties the queue again.\<close>

lemma enq_empty:
  assumes "list_all (\<lambda>m. \<not> m_used m) (c_rq ch)" and "length (c_rq ch) = UK_FQ" and "rq_room 1 ch"
  shows "\<exists>ch1 i. rq_enq buf ch = Some ch1 \<and> fch_oldest_rq ch1 = Some i \<and> m_buf (c_rq ch1 ! i) = buf \<and>
    list_all (\<lambda>m. \<not> m_used m) ((c_rq ch1)[i := msg_free (c_rq ch1 ! i)])"
proof -
  note s = slots_empty [OF assms(1,3)]
  obtain ch1 where e: "rq_enq buf ch = Some ch1"
    using rq_enq_succeeds [OF s, of buf] assms(2) by (auto simp: tab_defs)
  obtain m where m: "rq_slots ch1 [m]" "m_buf m = buf" using rq_enq_slots [OF s _ e, of 0] assms(3) by auto
  obtain i where i: "fch_oldest_rq ch1 = Some i" "c_rq ch1 ! i = m"
    "rq_slots (ch1\<lparr>c_rq := (c_rq ch1)[i := msg_free (c_rq ch1 ! i)]\<rparr>) []"
    using rq_slots_Cons [OF m(1)] by auto
  then have "filter m_used ((c_rq ch1)[i := msg_free (c_rq ch1 ! i)]) = []" by (simp add: rq_slots_def)
  then have "list_all (\<lambda>m. \<not> m_used m) ((c_rq ch1)[i := msg_free (c_rq ch1 ! i)])"
    unfolding filter_empty_conv list_all_iff by blast
  with e i m(2) show ?thesis by blast
qed

lemma fch_send_unfold:
  assumes "length buf \<le> UK_FUSE_MSGCAP" and "fst (env_alloc e (length buf) (st_os r))"
    and "rq_enq buf (g_fch r ! ci) = Some ch1"
  shows "fch_send e ci buf (f, r) =
    (let r1 = upd_ch ci (\<lambda>_. ch1) (os_upd r (snd (env_alloc e (length buf) (st_os r)))) in
     (int (length buf), (f, if c_parked (g_fch r1 ! ci) then fch_deliver_parked ci r1 else r1)))"
  using assms
  by (auto simp: fch_send_def rq_enq_def Let_def upd_ch_def os_upd_def split: option.splits prod.splits)

lemma rq_enq_keeps:
  "rq_enq m ch = Some ch' \<Longrightarrow> c_dmn ch' = c_dmn ch \<and> c_dbuf ch' = c_dbuf ch \<and> c_dcnt ch' = c_dcnt ch \<and>
    c_dvec ch' = c_dvec ch \<and> c_used ch' = c_used ch \<and> c_pid ch' = c_pid ch \<and> c_fd ch' = c_fd ch \<and> c_rp ch' = c_rp ch"
  by (auto simp: rq_enq_def split: option.splits)

lemma upd_ch_commute:
  "write_data p a b (upd_ch ci f r) = upd_ch ci f (write_data p a b r)"
  "poke_void p v (upd_ch ci f r) = upd_ch ci f (poke_void p v r)"
  by (simp_all add: write_data_def poke_void_def upd_ch_def)

lemma upd_ch_twice: "ci < length (g_fch r) \<Longrightarrow> upd_ch ci f (upd_ch ci g r) = upd_ch ci (\<lambda>ch. f (g ch)) r"
  by (simp add: upd_ch_def)

text \<open>The state after a request reaches a parked reader.\<close>

lemma fch_send_parked:
  assumes "ci < length (g_fch r)" and "c_parked (g_fch r ! ci)" and "c_dmn (g_fch r ! ci) = Some d"
    and "list_all (\<lambda>m. \<not> m_used m) (c_rq (g_fch r ! ci))" and "length (c_rq (g_fch r ! ci)) = UK_FQ"
    and "rq_room 1 (g_fch r ! ci)" and "length buf \<le> UK_FUSE_MSGCAP" and "fst (env_alloc e (length buf) (st_os r))"
    and "c_dvec (g_fch r ! ci) < 0"
  defines "ch \<equiv> g_fch r ! ci"
  defines "n \<equiv> min (unat (scast (c_dcnt ch) :: u64)) (length buf)"
  shows "\<exists>ch' o1. fch_send e ci buf (f, r) =
      (int (length buf), (f, resume d (upd_ch ci (\<lambda>_. ch') (poke_void d (int n)
         (if n = 0 then os_upd r o1 else write_data d (c_dbuf ch) (take n buf) (os_upd r o1)))))) \<and>
    \<not> c_parked ch' \<and> c_dmn ch' = None \<and> list_all (\<lambda>m. \<not> m_used m) (c_rq ch')"
proof -
  obtain ch1 i where e: "rq_enq buf ch = Some ch1" "fch_oldest_rq ch1 = Some i" "m_buf (c_rq ch1 ! i) = buf"
    "list_all (\<lambda>m. \<not> m_used m) ((c_rq ch1)[i := msg_free (c_rq ch1 ! i)])"
    using enq_empty [of ch buf] assms(4-6) unfolding ch_def by auto
  let ?o = "snd (env_alloc e (length buf) (st_os r))"
  let ?ch' = "ch1\<lparr>c_rq := (c_rq ch1)[i := msg_free (c_rq ch1 ! i)], c_parked := False, c_dmn := None\<rparr>"
  have k: "c_parked ch1" "c_dmn ch1 = Some d" "c_dbuf ch1 = c_dbuf ch" "c_dcnt ch1 = c_dcnt ch" "c_dvec ch1 < 0"
    using rq_enq_keeps [OF e(1)] length_rq_enq [OF e(1)] assms(2,3,9) by (simp_all add: ch_def)
  have n: "(if unat (scast (c_dcnt ch) :: u64) < length buf then unat (scast (c_dcnt ch) :: u64) else length buf) = n"
    by (simp add: n_def min_def)
  have nth: "g_fch (upd_ch ci (\<lambda>_. ch1) (os_upd r ?o)) ! ci = ch1" using assms(1) by simp
  have "fch_deliver_parked ci (upd_ch ci (\<lambda>_. ch1) (os_upd r ?o)) =
    resume d (upd_ch ci (\<lambda>_. ?ch') (poke_void d (int n)
      (if n = 0 then os_upd r ?o else write_data d (c_dbuf ch) (take n buf) (os_upd r ?o))))"
    unfolding fch_deliver_parked_def Let_def nth k(2-4) e(2,3) option.case n
    using assms(1) k(1,5) by (simp add: fch_scatter_def upd_ch_commute upd_ch_twice)
  then have "fch_send e ci buf (f, r) =
      (int (length buf), (f, resume d (upd_ch ci (\<lambda>_. ?ch') (poke_void d (int n)
         (if n = 0 then os_upd r ?o else write_data d (c_dbuf ch) (take n buf) (os_upd r ?o))))))"
    using fch_send_unfold [OF assms(7,8) e(1) [unfolded ch_def], of f] assms(1) k(1) by (simp add: Let_def)
  then show ?thesis using e(4) by (intro exI [of _ ?ch'] exI [of _ ?o]) simp
qed

section \<open>Waiting for a reply\<close>

text \<open>With no matching reply and an event loop that changes nothing, the wait never returns.\<close>

lemma fch_wait_forever:
  assumes "list_all (\<lambda>m. \<not> (m_used m \<and> m_uniq m = u)) (c_rp (g_fch (snd s) ! ci))" and "env_pump e s = (0, s)"
  shows "fch_wait e ci cap u saved s = None"
proof (rule ccontr)
  assume "fch_wait e ci cap u saved s \<noteq> None"
  then obtain y where y: "fch_wait e ci cap u saved s = Some y" by auto
  have no: "find_idx (\<lambda>m. m_used m \<and> m_uniq m = u) (c_rp (g_fch (snd s) ! ci)) = None"
    using assms(1) by (simp add: find_idx_None list_all_iff)
  have "e = e \<longrightarrow> ci = ci \<longrightarrow> u = u \<longrightarrow> s = s \<longrightarrow> False"
  proof (rule fch_wait.raw_induct [where P = "\<lambda>e' ci' cap u' saved s' y. e' = e \<longrightarrow> ci' = ci \<longrightarrow> u' = u \<longrightarrow> s' = s \<longrightarrow> False",
          OF _ y], goal_cases)
    case (1 w e' ci' cap' u' saved' s' y')
    have False if "e' = e" "ci' = ci" "u' = u" "s' = s"
    proof -
      have "w e ci cap' u saved' s = Some y'" using 1(2) unfolding that by (simp add: no assms(2))
      from 1(1) [OF this] show False by simp
    qed
    then show ?case by blast
  qed
  then show False by simp
qed

section \<open>Properties\<close>

text \<open>
  C18. Requests reach the daemon in the order they were sent: up to 32 outstanding
  messages sent on a channel whose queue is empty come out of the daemon's reads
  whole and in order, in the daemon's buffer and with their length as the result,
  if the buffer takes each of them.
\<close>

theorem requests_fifo:
  assumes "ci < length (g_fch r)" and "\<not> c_parked (g_fch r ! ci)" and "length (c_rq (g_fch r ! ci)) = UK_FQ"
    and "list_all (\<lambda>m. \<not> m_used m) (c_rq (g_fch r ! ci))"
    and "unat (c_seq (g_fch r ! ci)) + UK_FQ < 2 ^ 64 - 1"
    and "length ms \<le> UK_FQ" and "list_all (\<lambda>m. length m \<le> UK_FUSE_MSGCAP \<and> length m \<le> unat a3) ms"
    and "\<And>n. n \<le> unat a3 \<Longrightarrow> t_map r t a2 n" and "\<And>n os. fst (env_alloc e n os)"
  shows "read_all t ci a2 a3 (length ms) (snd (send_all e ci ms (f, r))) = map Some ms"
proof -
  let ?ch = "g_fch r ! ci"
  have room: "rq_room (length ms) ?ch" using assms(5,6) by (simp add: rq_room_def)
  note s = slots_empty [OF assms(4) room]
  then have rep: "rq_rep ?ch []" by (auto simp: rq_rep_def)
  obtain ch' where e: "rq.enqs ms ?ch = Some ch'" using enqs_succeeds [OF s _ room] assms(3,6) by auto
  obtain ch'' where d: "rq.deqs (length ms) ch' = Some (ms, ch'')" using rq.fifo_order [OF rep room e] by auto
  have sa: "g_fch (snd (send_all e ci ms (f, r))) = (g_fch r)[ci := ch']"
    "t_map (snd (send_all e ci ms (f, r))) = t_map r"
    using send_all_enqs [OF assms(1,2) e _ assms(9), of f] assms(7) by (auto simp: list_all_iff)
  show ?thesis
    by (rule read_all_deqs [of _ _ _ ch'']) (use assms sa d in \<open>auto simp: list_all_iff\<close>)
qed

theorem requests_fifo_witness:
  "read_all 7 0 4096 8192 2 (snd (send_all quiet_env 0 [''ab'', ''c''] (fused_zero, opened))) = [Some ''ab'', Some ''c'']"
proof -
  have "read_all 7 0 4096 8192 (length [''ab'', ''c'']) (snd (send_all quiet_env 0 [''ab'', ''c''] (fused_zero, opened))) =
    map Some [''ab'', ''c'']"
    by (rule requests_fifo)
       (simp_all add: opened_nth opened_facts(2) opened_ch_def ukfch_zero_def ukfmsg_zero_def quiet_env_def null_env_def tab_defs
         list_all_iff)
  then show ?thesis by (simp del: read_all.simps send_all.simps add: numeral_2_eq_2)
qed

text \<open>
  C27. A parked read is completed by the next request: the sender returns, the daemon
  is resumed exactly once with its system call cancelled, the request in its buffer
  and the length as the result, and the channel is no longer parked and its queue
  is empty again.
\<close>

theorem parked_read_completed:
  assumes "ci < length (g_fch r)" and "c_parked (g_fch r ! ci)" and "c_dmn (g_fch r ! ci) = Some d"
    and "list_all (\<lambda>m. \<not> m_used m) (c_rq (g_fch r ! ci))" and "length (c_rq (g_fch r ! ci)) = UK_FQ"
    and "unat (c_seq (g_fch r ! ci)) + 1 < 2 ^ 64 - 1" and "c_dvec (g_fch r ! ci) = - 1"
    and "length buf \<le> UK_FUSE_MSGCAP" and "length buf \<le> unat (scast (c_dcnt (g_fch r ! ci)) :: u64)"
    and "fst (env_alloc e (length buf) (st_os r))" and "t_map r d (c_dbuf (g_fch r ! ci)) (length buf)"
  shows "let (n, (f', r')) = fch_send e ci buf (f, r); ch' = g_fch r' ! ci in
    n = int (length buf) \<and> t_resumed r' = t_resumed r @ [d] \<and> t_void r' d \<and> t_res r' d = word_of_nat (length buf) \<and>
    read_data d (c_dbuf (g_fch r ! ci)) (length buf) r' = Some buf \<and>
    \<not> c_parked ch' \<and> c_dmn ch' = None \<and> list_all (\<lambda>m. \<not> m_used m) (c_rq ch')"
proof -
  let ?ch = "g_fch r ! ci"
  have n: "min (unat (scast (c_dcnt ?ch) :: u64)) (length buf) = length buf" using assms(9) by simp
  obtain ch' o1 where s: "fch_send e ci buf (f, r) = (int (length buf), (f, resume d (upd_ch ci (\<lambda>_. ch')
      (poke_void d (int (length buf)) (if length buf = 0 then os_upd r o1 else write_data d (c_dbuf ?ch) buf (os_upd r o1))))))"
    and ch': "\<not> c_parked ch'" "c_dmn ch' = None" "list_all (\<lambda>m. \<not> m_used m) (c_rq ch')"
    using fch_send_parked [OF assms(1-5) _ assms(8,10), of f] assms(6,7) unfolding n rq_room_def take_all [OF order.refl] by auto
  define q where "q = (if length buf = 0 then os_upd r o1 else write_data d (c_dbuf ?ch) buf (os_upd r o1))"
  have "t_map (os_upd r o1) d (c_dbuf ?ch) (length buf)" using assms(11) by (simp add: os_upd_def)
  then have m: "read_data d (c_dbuf ?ch) (length buf) q = Some buf"
    using read_write_data [of "os_upd r o1" d "c_dbuf ?ch" buf] assms(8,11)
    by (auto simp: q_def read_data_def [of _ _ 0] tab_defs)
  have q: "t_resumed q = t_resumed r" "g_fch q = g_fch r"
    by (simp_all add: q_def write_data_def os_upd_def)
  show ?thesis
    unfolding s Let_def prod.case q_def [symmetric]
    using ch' m q assms(1) by simp (simp add: resume_def upd_ch_def poke_void_def)
qed

theorem parked_read_completed_witness:
  "let (n, (f', r')) = fch_send quiet_env 0 ''hello'' (fused_zero, parked1) in
    n = 5 \<and> t_resumed r' = [7] \<and> read_data 7 4096 5 r' = Some ''hello''"
proof -
  have ch: "g_fch parked1 ! 0 = opened_ch\<lparr>c_dmn := Some 7, c_dbuf := 4096, c_dcnt := 8192, c_parked := True, c_dvec := - 1\<rparr>"
    "length (g_fch parked1) = UK_NFCH"
    by (simp_all add: parked1_facts tab_defs)
  have "let (n, (f', r')) = fch_send quiet_env 0 ''hello'' (fused_zero, parked1); ch' = g_fch r' ! 0 in
    n = int (length ''hello'') \<and> t_resumed r' = t_resumed parked1 @ [7] \<and> t_void r' 7 \<and>
    t_res r' 7 = word_of_nat (length ''hello'') \<and>
    read_data 7 (c_dbuf (g_fch parked1 ! 0)) (length ''hello'') r' = Some ''hello'' \<and>
    \<not> c_parked ch' \<and> c_dmn ch' = None \<and> list_all (\<lambda>m. \<not> m_used m) (c_rq ch')"
    by (rule parked_read_completed)
       (simp_all add: ch parked1_facts(2) opened_ch_def ukfch_zero_def ukfmsg_zero_def quiet_env_def null_env_def tab_defs
         list_all_iff)
  moreover have "length ''hello'' = 5" by simp
  ultimately show ?thesis by (simp only: ch parked1_facts(3) Let_def split_beta) simp
qed

text \<open>
  A second thread that parks on the same channel displaces the first: after the
  second read and the next request, the second thread is resumed, while the first
  has not been and no channel remembers it, so nothing will resume it.
\<close>

theorem second_parked_read_lost:
  assumes "ci < length (g_fch r)" and "c_parked (g_fch r ! ci)" and "c_dmn (g_fch r ! ci) = Some d"
    and "list_all (\<lambda>m. \<not> m_used m) (c_rq (g_fch r ! ci))" and "length (c_rq (g_fch r ! ci)) = UK_FQ"
    and "unat (c_seq (g_fch r ! ci)) + 1 < 2 ^ 64 - 1" and "\<not> g_fuse_root_gone r"
    and "\<And>j. j \<noteq> ci \<Longrightarrow> j < length (g_fch r) \<Longrightarrow> c_dmn (g_fch r ! j) \<noteq> Some d" and "d \<notin> set (t_resumed r)" and "t \<noteq> d"
    and "length buf \<le> UK_FUSE_MSGCAP" and "fst (env_alloc e (length buf) (st_os r))"
  shows "let r1 = chan_read t False ci a2 a3 r; r2 = snd (snd (fch_send e ci buf (f, r1))) in
    t \<in> set (t_resumed r2) \<and> d \<notin> set (t_resumed r2) \<and> Some d \<notin> set (map c_dmn (g_fch r2))"
proof -
  let ?ch = "g_fch r ! ci"
  let ?p = "?ch\<lparr>c_dmn := Some t, c_dbuf := a2, c_dcnt := ucast a3, c_parked := True, c_dvec := - 1\<rparr>"
  let ?r1 = "chan_read t False ci a2 a3 r"
  have "fch_oldest_rq ?ch = None" using assms(4,6) slots_empty [of ?ch 1] by (intro rq_slots_Nil) (simp add: rq_room_def)
  then have r1: "?r1 = (upd_ch ci (\<lambda>_. ?p) r)\<lparr>g_fuse_park_pid := t\<rparr>"
    using assms(7) by (simp add: chan_read_def upd_ch_def)
  have n: "g_fch ?r1 = (g_fch r)[ci := ?p]" "t_resumed ?r1 = t_resumed r" "st_os ?r1 = st_os r"
    by (simp_all add: r1 upd_ch_def)
  have nth: "g_fch ?r1 ! ci = ?p" using assms(1) n(1) by simp
  define k where "k = min (unat (scast (c_dcnt ?p) :: u64)) (length buf)"
  obtain ch' o1 where s: "snd (snd (fch_send e ci buf (f, ?r1))) = resume t (upd_ch ci (\<lambda>_. ch') (poke_void t (int k)
      (if k = 0 then os_upd ?r1 o1 else write_data t a2 (take k buf) (os_upd ?r1 o1))))" and ch': "c_dmn ch' = None"
    using fch_send_parked [of ci ?r1 t buf e f, unfolded nth k_def [symmetric]] assms(1,4-6,11,12)
    by (auto simp: n rq_room_def cong: if_cong)
  have res: "t_resumed (snd (snd (fch_send e ci buf (f, ?r1)))) = t_resumed r @ [t]"
    unfolding s using n(2) by (simp add: resume_def upd_ch_def poke_void_def write_data_def os_upd_def)
  have "g_fch (snd (snd (fch_send e ci buf (f, ?r1)))) = (g_fch r)[ci := ch']"
    unfolding s using assms(1) n(1) by (simp add: upd_ch_def [of ci "\<lambda>_. ch'"])
  moreover have "c_dmn ((g_fch r)[ci := ch'] ! j) \<noteq> Some d" if "j < length (g_fch r)" for j
    using that ch' assms(8) [of j] by (cases "j = ci") auto
  then have "Some d \<notin> set (map c_dmn ((g_fch r)[ci := ch']))" by (auto simp: in_set_conv_nth) (metis)
  ultimately show ?thesis using res assms(9,10) by (simp add: Let_def)
qed

theorem second_parked_read_lost_witness:
  "let r1 = chan_read 8 False 0 4096 8192 parked1; r2 = snd (snd (fch_send quiet_env 0 ''hello'' (fused_zero, r1))) in
    8 \<in> set (t_resumed r2) \<and> 7 \<notin> set (t_resumed r2) \<and> Some 7 \<notin> set (map c_dmn (g_fch r2))"
  by (rule second_parked_read_lost)
     (auto simp: parked1_facts opened_ch_def ukfch_zero_def ukfmsg_zero_def quiet_env_def null_env_def tab_defs list_all_iff)

text \<open>
  A reply written while all 32 reply slots are taken is dropped, yet the daemon is told
  that all of it was written; and the exchange that waits for it does not fail: as long
  as the event loop keeps returning, with nothing else happening, it never returns.
\<close>

theorem reply_dropped_when_full:
  assumes "list_all (\<lambda>m. m_used m \<and> m_uniq m \<noteq> fch_uniq rb) (c_rp (g_fch r ! ci))"
    and "fst (env_alloc e UK_FUSE_MSGCAP (st_os r))" and "unat a3 \<le> UK_FUSE_MSGCAP"
    and "read_data t a2 (unat a3) r = Some rb"
    and "\<And>s. env_pump e s = (0, s)"
  shows "let r' = chan_write e junk t False ci a2 a3 r in
    t_res r' t = a3 \<and> g_fch r' = g_fch r \<and> fch_recv e ci cap (fch_uniq rb) (f, r') = None"
proof -
  obtain ok o1 where a: "env_alloc e UK_FUSE_MSGCAP (st_os r) = (ok, o1)" by (rule prod.exhaust)
  have rd: "read_data t a2 (unat a3) (os_upd r o1) = Some rb" using assms(4) by simp
  have "find_idx (\<lambda>m. \<not> m_used m) (c_rp (g_fch r ! ci)) = None"
    using assms(1) by (simp add: find_idx_None list_all_iff)
  then have w: "chan_write e junk t False ci a2 a3 r = poke_void t (uint a3) (os_upd r o1)"
    using a assms(2,3) rd by (simp add: chan_write_def Let_def chan_reply_def)
  have "fch_recv e ci cap (fch_uniq rb) (f, poke_void t (uint a3) (os_upd r o1)) = None"
    unfolding fch_recv_def by (rule fch_wait_forever) (use assms(1,5) in \<open>auto simp: list_all_iff\<close>)
  then show ?thesis by (simp add: w)
qed

text \<open>An idle event loop, and a channel whose reply slots all hold replies nobody claimed.\<close>

definition idle_env :: "unit env" where
  "idle_env = quiet_env\<lparr>env_pump := (\<lambda>s. (0, s))\<rparr>"

definition clogged :: "unit rst" where
  "clogged = upd_ch 0 (\<lambda>ch. ch\<lparr>c_rp := replicate UK_FQ (ukfmsg_zero\<lparr>m_used := True, m_uniq := 9\<rparr>)\<rparr>) opened"

theorem reply_dropped_when_full_witness:
  "let r' = chan_write idle_env (\<lambda>_. NUL) 7 False 0 4096 8 clogged in
    t_res r' 7 = 8 \<and> g_fch r' = g_fch clogged \<and>
    fch_recv idle_env 0 100 (fch_uniq (replicate 8 (CHR ''x''))) (fused_zero, r') = None"
proof -
  have m: "read_data 7 4096 (unat (8 :: u64)) clogged = Some (map (\<lambda>i. t_mem clogged 7 (4096 + word_of_nat i)) [0..<8])"
    by (simp add: read_data_def clogged_def opened_facts)
  have "t_mem opened = (\<lambda>_ _. CHR ''x'')"
    by (simp add: opened_def start_def quiet_env_def null_env_def uknl_fuse_open_exit_def uknl_fuse_open_enter_def rst_init_def
        ukfs_tgid_def proc_field_def Let_def fch_by_fd_def fused_new_def upd_ch_def os_upd_def fch_forget_forks_def
        fch_ppid_def tab_defs(2) ukfch_zero_def)
  then have "read_data 7 4096 (unat (8 :: u64)) clogged = Some (replicate 8 (CHR ''x''))"
    unfolding m by (simp add: clogged_def upd_ch_def map_replicate_const)
  then show ?thesis
    by (intro reply_dropped_when_full)
       (simp_all add: clogged_def opened_nth idle_env_def quiet_env_def null_env_def list_all_iff ukfmsg_zero_def fch_uniq_def tab_defs)
qed

end
