(* ===== verification/ChannelExchange.thy ===== *)
theory ChannelExchange
  imports ChannelServe
begin

text \<open>
  A whole exchange of the engine over the channel, with a daemon thread that reads one
  request, computes its answer and writes it back each time the event loop runs.
\<close>

section \<open>The daemon\<close>

definition daemon_turn :: "'o env \<Rightarrow> int \<Rightarrow> int \<Rightarrow> u64 \<Rightarrow> (bytes \<Rightarrow> bytes) \<Rightarrow> 'o rst \<Rightarrow> 'o rst" where
  "daemon_turn e t fd buf srv r =
     (let r1 = snd (uknl_fuse_chan_io e (\<lambda>_. NUL) t PR_read fd buf (word_of_nat UK_FUSE_MSGCAP) r) in
      case read_data t buf (unat (t_res r1 t)) r1 of
        None \<Rightarrow> r1
      | Some m \<Rightarrow>
          snd (uknl_fuse_chan_io e (\<lambda>_. NUL) t PR_write fd buf (word_of_nat (length (srv m)))
                 (write_data t buf (srv m) r1)))"

text \<open>The channel \<open>ci\<close> belongs to thread \<open>t\<close>, its queues are empty and the daemon's buffer is mapped.\<close>

definition chan_idle :: "int \<Rightarrow> int \<Rightarrow> u64 \<Rightarrow> nat \<Rightarrow> 'o rst \<Rightarrow> bool" where
  "chan_idle t fd buf ci r \<longleftrightarrow>
     fch_by_fd t fd r = Some ci \<and> map_of (g_tgid_cache r) t = Some t \<and>
     (let ch = g_fch r ! ci in
      \<not> c_parked ch \<and> length (c_rq ch) = UK_FQ \<and> list_all (\<lambda>m. \<not> m_used m) (c_rq ch) \<and>
      length (c_rp ch) = UK_FQ \<and> list_all (\<lambda>m. \<not> m_used m) (c_rp ch)) \<and>
     (\<forall>n \<le> UK_FUSE_MSGCAP. t_map r t buf n)"

section \<open>Resolution is stable\<close>

lemma find_idx_update_same:
  "i < length xs \<Longrightarrow> P y = P (xs ! i) \<Longrightarrow> find_idx P (xs[i := y]) = find_idx P xs"
proof (induction xs arbitrary: i)
  case (Cons x xs)
  then show ?case by (cases i) auto
qed simp

lemma by_fd_upd:
  assumes "ci < length (g_fch r)" and "c_used ch = c_used (g_fch r ! ci)" and "c_pid ch = c_pid (g_fch r ! ci)"
    and "c_fd ch = c_fd (g_fch r ! ci)" and "g_fch r' = (g_fch r)[ci := ch]"
  shows "fch_by_fd t fd r' = fch_by_fd t fd r"
  using assms by (simp add: fch_by_fd_def find_idx_update_same)

lemma resolve_own:
  "map_of (g_tgid_cache r) t = Some t \<Longrightarrow> fch_by_fd t fd r = Some ci \<Longrightarrow> fch_resolve e t fd r = (Some ci, r)"
  by (simp add: fch_resolve_def ukfs_tgid_def Let_def)

lemma by_fd_less: "fch_by_fd t fd r = Some ci \<Longrightarrow> ci < length (g_fch r)"
  by (simp add: fch_by_fd_def find_idx_less)

lemma cache_frame [simp]:
  "g_tgid_cache (write_data p a b r) = g_tgid_cache r" "g_tgid_cache (poke_void p v r) = g_tgid_cache r"
  "g_tgid_cache (upd_ch ci f r) = g_tgid_cache r" "g_tgid_cache (os_upd r o1) = g_tgid_cache r"
  "t_map (os_upd r o1) = t_map r"
  by (simp_all add: write_data_def poke_void_def upd_ch_def os_upd_def)

lemma g_fch_upd: "g_fch (upd_ch ci f r) = (g_fch r)[ci := f (g_fch r ! ci)]"
  by (simp add: upd_ch_def)

lemma by_fd_frame [simp]:
  "fch_by_fd t fd (write_data p a b r) = fch_by_fd t fd r" "fch_by_fd t fd (poke_void p v r) = fch_by_fd t fd r"
  "fch_by_fd t fd (os_upd r o1) = fch_by_fd t fd r"
  by (simp_all add: fch_by_fd_def)

lemma rq_deq_keeps:
  "rq_deq ch = Some (m, ch') \<Longrightarrow> c_rp ch' = c_rp ch \<and> c_used ch' = c_used ch \<and> c_pid ch' = c_pid ch \<and>
    c_fd ch' = c_fd ch \<and> c_parked ch' = c_parked ch \<and> c_seq ch' = c_seq ch \<and> length (c_rq ch') = length (c_rq ch)"
  by (auto simp: rq_deq_def split: option.splits)

section \<open>One turn of the daemon\<close>

lemma msgcap_word: "unat (word_of_nat UK_FUSE_MSGCAP :: u64) = UK_FUSE_MSGCAP"
  by (rule unat_u64) (simp add: tab_defs)

lemma chan_write_own:
  assumes "map_of (g_tgid_cache r) t = Some t" and "fch_by_fd t fd r = Some ci" and "\<And>n os. fst (env_alloc e n os)"
    and "length b \<le> UK_FUSE_MSGCAP" and "read_data t buf (length b) r = Some b"
    and "length (c_rp (g_fch r ! ci)) = UK_FQ" and "list_all (\<lambda>m. \<not> m_used m) (c_rp (g_fch r ! ci))"
  shows "\<exists>r'. snd (uknl_fuse_chan_io e junk t PR_write fd buf (word_of_nat (length b)) r) = r' \<and>
    g_fch r' = (g_fch r)[ci := (g_fch r ! ci)\<lparr>c_rp := (c_rp (g_fch r ! ci))[0 := (c_rp (g_fch r ! ci) ! 0)
      \<lparr>m_used := True, m_buf := b, m_uniq := fch_uniq b\<rparr>]\<rparr>] \<and>
    g_tgid_cache r' = g_tgid_cache r \<and> t_map r' = t_map r"
proof -
  obtain o1 where a: "env_alloc e UK_FUSE_MSGCAP (st_os r) = (True, o1)"
    using assms(3) [of UK_FUSE_MSGCAP "st_os r"] by (cases "env_alloc e UK_FUSE_MSGCAP (st_os r)") auto
  have w: "unat (word_of_nat (length b) :: u64) = length b"
    using assms(4) by (intro unat_u64) (simp add: tab_defs)
  have "find_idx (\<lambda>m. \<not> m_used m) (c_rp (g_fch r ! ci)) = Some 0"
    using assms(6,7) by (intro find_idx_eq_SomeI) (simp_all add: list_all_length tab_defs)
  then show ?thesis
    using assms(4,5)
    by (simp add: uknl_fuse_chan_io_def Let_def resolve_own [OF assms(1,2)] chan_write_def a w chan_reply_def upd_ch_def)
qed

lemma chan_read_own:
  assumes "map_of (g_tgid_cache r) t = Some t" and "fch_by_fd t fd r = Some ci"
    and "rq_deq (g_fch r ! ci) = Some (m, ch')" and "length m \<le> UK_FUSE_MSGCAP" and "t_map r t buf (length m)"
  shows "\<exists>r'. snd (uknl_fuse_chan_io e junk t PR_read fd buf (word_of_nat UK_FUSE_MSGCAP) r) = r' \<and>
    g_fch r' = (g_fch r)[ci := ch'] \<and> g_tgid_cache r' = g_tgid_cache r \<and> t_map r' = t_map r \<and>
    unat (t_res r' t) = length m \<and> read_data t buf (length m) r' = Some m"
proof -
  have l: "length m \<le> unat (word_of_nat UK_FUSE_MSGCAP :: u64)" using assms(4) by (simp add: msgcap_word)
  have u: "unat (word_of_nat (length m) :: u64) = length m" using assms(4) by (intro unat_u64) (simp add: tab_defs)
  have "read_data t buf (length m) (if m = [] then r else write_data t buf m r) = Some m"
    using read_write_data [of r t buf m] assms(4,5) by (auto simp: read_data_def [of _ _ 0] tab_defs)
  with u assms(4) show ?thesis
    by (simp add: uknl_fuse_chan_io_def Let_def resolve_own [OF assms(1,2)] chan_read_deq [OF assms(3) l] g_fch_upd split: if_splits)
qed

lemma daemon_turn_reply:
  assumes "map_of (g_tgid_cache r) t = Some t" and "fch_by_fd t fd r = Some ci" and "\<And>n os. fst (env_alloc e n os)"
    and "rq_deq (g_fch r ! ci) = Some (m, ch')" and "length m \<le> UK_FUSE_MSGCAP" and "length (srv m) \<le> UK_FUSE_MSGCAP"
    and "\<And>n. n \<le> UK_FUSE_MSGCAP \<Longrightarrow> t_map r t buf n"
    and "length (c_rp (g_fch r ! ci)) = UK_FQ" and "list_all (\<lambda>m. \<not> m_used m) (c_rp (g_fch r ! ci))"
  shows "\<exists>r'. daemon_turn e t fd buf srv r = r' \<and>
    g_fch r' = (g_fch r)[ci := ch'\<lparr>c_rp := (c_rp (g_fch r ! ci))[0 := (c_rp (g_fch r ! ci) ! 0)
      \<lparr>m_used := True, m_buf := srv m, m_uniq := fch_uniq (srv m)\<rparr>]\<rparr>] \<and>
    g_tgid_cache r' = g_tgid_cache r \<and> t_map r' = t_map r"
proof -
  note ci = by_fd_less [OF assms(2)]
  note k = rq_deq_keeps [OF assms(4)]
  obtain r1 where r1: "snd (uknl_fuse_chan_io e (\<lambda>_. NUL) t PR_read fd buf (word_of_nat UK_FUSE_MSGCAP) r) = r1"
    "g_fch r1 = (g_fch r)[ci := ch']" "g_tgid_cache r1 = g_tgid_cache r" "t_map r1 = t_map r"
    "unat (t_res r1 t) = length m" "read_data t buf (length m) r1 = Some m"
    using chan_read_own [OF assms(1,2,4,5) assms(7) [OF assms(5)], of e] by auto
  let ?r2 = "write_data t buf (srv m) r1"
  have "fch_by_fd t fd r1 = Some ci" using by_fd_upd [OF ci _ _ _ r1(2)] k assms(2) by simp
  then have "\<exists>r'. snd (uknl_fuse_chan_io e (\<lambda>_. NUL) t PR_write fd buf (word_of_nat (length (srv m))) ?r2) = r' \<and>
    g_fch r' = (g_fch ?r2)[ci := (g_fch ?r2 ! ci)\<lparr>c_rp := (c_rp (g_fch ?r2 ! ci))[0 := (c_rp (g_fch ?r2 ! ci) ! 0)
      \<lparr>m_used := True, m_buf := srv m, m_uniq := fch_uniq (srv m)\<rparr>]\<rparr>] \<and>
    g_tgid_cache r' = g_tgid_cache ?r2 \<and> t_map r' = t_map ?r2"
    using r1 assms(1,3,6,8,9) ci k read_write_data [of r1 t buf "srv m"] assms(7) [OF assms(6)]
    by (intro chan_write_own) (simp_all add: tab_defs)
  then show ?thesis using r1 k ci by (simp add: daemon_turn_def Let_def)
qed

lemma list_all_update: "list_all P xs \<Longrightarrow> P y \<Longrightarrow> list_all P (xs[i := y])"
  by (auto simp: list_all_iff dest!: subsetD [OF set_update_subset_insert])

lemma chan_idleI:
  assumes "chan_idle t fd buf ci r" and "g_fch r' = (g_fch r)[ci := ch]" and "g_tgid_cache r' = g_tgid_cache r"
    and "t_map r' = t_map r" and "c_used ch = c_used (g_fch r ! ci)" and "c_pid ch = c_pid (g_fch r ! ci)"
    and "c_fd ch = c_fd (g_fch r ! ci)" and "\<not> c_parked ch" and "length (c_rq ch) = UK_FQ"
    and "list_all (\<lambda>m. \<not> m_used m) (c_rq ch)" and "length (c_rp ch) = UK_FQ" and "list_all (\<lambda>m. \<not> m_used m) (c_rp ch)"
  shows "chan_idle t fd buf ci r'"
proof -
  have ci: "ci < length (g_fch r)" using assms(1) by (auto simp: chan_idle_def by_fd_less)
  have "fch_by_fd t fd r' = fch_by_fd t fd r" by (rule by_fd_upd [OF ci assms(5-7) assms(2)])
  with assms ci show ?thesis by (simp add: chan_idle_def Let_def)
qed

section \<open>The wait\<close>

lemma recv_after_turn:
  assumes "env_pump e (f, r) = (0, (f, r'))" and "list_all (\<lambda>m. \<not> m_used m) (c_rp (g_fch r ! ci))"
    and "c_rp (g_fch r' ! ci) = ms[0 := m]" and "ms \<noteq> []" and "m_used m" and "m_uniq m = u" and "length (m_buf m) \<le> cap"
  shows "fch_recv e ci cap u (f, r) = Some (Inr (m_buf m),
    (f, (upd_ch ci (\<lambda>ch. ch\<lparr>c_rp := (c_rp ch)[0 := msg_free m]\<rparr>) r')\<lparr>g_am := g_am r\<rparr>))"
proof -
  have "find_idx (\<lambda>m. m_used m \<and> m_uniq m = u) (c_rp (g_fch r ! ci)) = None"
    using assms(2) by (auto simp: find_idx_None list_all_iff)
  then have "fch_recv e ci cap u (f, r) = fch_wait e ci cap u (g_am r) (f, r')"
    using assms(1) by (simp add: fch_recv_def fch_wait.simps [of e ci cap u "g_am r" "(f, r)"])
  also have "\<dots> = Some (Inr (m_buf m),
    (f, (upd_ch ci (\<lambda>ch. ch\<lparr>c_rp := (c_rp ch)[0 := msg_free m]\<rparr>) r')\<lparr>g_am := g_am r\<rparr>))"
    using assms(3-7) by (simp add: fch_wait.simps)
  finally show ?thesis .
qed

text \<open>A send on an idle channel: the request is queued, and taking it leaves the queue empty.\<close>

lemma idle_send:
  assumes "chan_idle t fd buf ci r" and "unat (c_seq (g_fch r ! ci)) + 1 < 2 ^ 64 - 1"
    and "\<And>n os. fst (env_alloc e n os)" and "length m \<le> UK_FUSE_MSGCAP"
  defines "ch \<equiv> g_fch r ! ci"
  shows "\<exists>r1 ch1 ch2. fch_send e ci m (f, r) = (int (length m), (f, r1)) \<and> g_fch r1 = (g_fch r)[ci := ch1] \<and>
    g_tgid_cache r1 = g_tgid_cache r \<and> t_map r1 = t_map r \<and> fch_by_fd t fd r1 = Some ci \<and> c_rp ch1 = c_rp ch \<and>
    rq_deq ch1 = Some (m, ch2) \<and> c_used ch2 = c_used ch \<and> c_pid ch2 = c_pid ch \<and> c_fd ch2 = c_fd ch \<and> \<not> c_parked ch2 \<and>
    length (c_rq ch2) = UK_FQ \<and> list_all (\<lambda>m. \<not> m_used m) (c_rq ch2) \<and> c_seq ch2 = c_seq ch + 1"
proof -
  have bf: "fch_by_fd t fd r = Some ci"
    and idle: "\<not> c_parked ch" "length (c_rq ch) = UK_FQ" "list_all (\<lambda>m. \<not> m_used m) (c_rq ch)"
    using assms(1) by (auto simp: chan_idle_def Let_def ch_def)
  note ci = by_fd_less [OF bf]
  obtain ch1 i where e1: "rq_enq m ch = Some ch1" "fch_oldest_rq ch1 = Some i" "m_buf (c_rq ch1 ! i) = m"
    "list_all (\<lambda>m. \<not> m_used m) ((c_rq ch1)[i := msg_free (c_rq ch1 ! i)])"
    using enq_empty [OF idle(3,2), of m] assms(2) by (auto simp: rq_room_def ch_def)
  have k: "c_rp ch1 = c_rp ch" "c_used ch1 = c_used ch" "c_pid ch1 = c_pid ch" "c_fd ch1 = c_fd ch"
    "\<not> c_parked ch1" "length (c_rq ch1) = UK_FQ" "c_seq ch1 = c_seq ch + 1"
    using rq_enq_keeps [OF e1(1)] length_rq_enq [OF e1(1)] idle e1(1) by (auto simp: rq_enq_def split: option.splits)
  define r1 where "r1 = upd_ch ci (\<lambda>_. ch1) (os_upd r (snd (env_alloc e (length m) (st_os r))))"
  have r1: "g_fch r1 = (g_fch r)[ci := ch1]" "g_tgid_cache r1 = g_tgid_cache r" "t_map r1 = t_map r"
    by (simp_all add: r1_def g_fch_upd)
  have "fch_send e ci m (f, r) = (int (length m), (f, r1))"
    using fch_send_unfold [OF assms(4,3) e1(1) [unfolded ch_def], of f] k(5) ci by (simp add: r1_def Let_def)
  moreover have "fch_by_fd t fd r1 = Some ci" using by_fd_upd [OF ci _ _ _ r1(1)] k bf by (simp add: ch_def)
  ultimately show ?thesis using r1 k e1 by (auto simp: rq_deq_def)
qed

section \<open>Properties\<close>

text \<open>
  C4. An exchange over the channel returns the daemon's answer: if the event loop lets a
  daemon thread read a request, answer it with the request's \<open>unique\<close> and write the
  answer back, then the engine's request is queued, read whole, answered, matched and
  returned, and the channel is idle again with one more request counted.
\<close>

theorem channel_exchange:
  assumes "chan_idle t fd buf ci r" and "unat (c_seq (g_fch r ! ci)) + 1 < 2 ^ 64 - 1"
    and "\<And>f r. env_pump e (f, r) = (0, (f, daemon_turn ed t fd buf srv r))"
    and "\<And>n os. fst (env_alloc e n os)" and "\<And>n os. fst (env_alloc ed n os)"
    and "\<And>m. length (srv m) \<le> FUSED_MSGCAP \<and> fch_uniq (srv m) = hdr_unique m"
    and "40 + length body \<le> FUSED_MSGCAP"
  shows "\<exists>r'. exchange (chan_fio e ci) opcode nid body (f, r) =
      (fuse_reply (srv (req f opcode nid body)), (f\<lparr>f_unique := f_unique f + 1\<rparr>, r')) \<and>
    chan_idle t fd buf ci r' \<and> c_seq (g_fch r' ! ci) = c_seq (g_fch r ! ci) + 1"
proof -
  let ?m = "req f opcode nid body" and ?f = "f\<lparr>f_unique := f_unique f + 1\<rparr>" and ?ch = "g_fch r ! ci"
  have ci: "ci < length (g_fch r)" using assms(1) by (auto simp: chan_idle_def by_fd_less)
  have idle: "length (c_rp ?ch) = UK_FQ" "list_all (\<lambda>m. \<not> m_used m) (c_rp ?ch)" "map_of (g_tgid_cache r) t = Some t"
    "\<And>n. n \<le> UK_FUSE_MSGCAP \<Longrightarrow> t_map r t buf n"
    using assms(1) by (auto simp: chan_idle_def Let_def)
  have cap: "FUSED_MSGCAP = UK_FUSE_MSGCAP" by (simp add: cap_defs tab_defs)
  have lm: "length ?m \<le> UK_FUSE_MSGCAP" using assms(7) by (simp add: req_def cap)
  obtain o1 where a1: "env_alloc e FUSED_MSGCAP (st_os r) = (True, o1)"
    using assms(4) [of FUSED_MSGCAP "st_os r"] by (cases "env_alloc e FUSED_MSGCAP (st_os r)") auto
  have "chan_idle t fd buf ci (os_upd r o1)" using assms(1) by (simp add: chan_idle_def)
  from idle_send [OF this _ assms(4) lm, of ?f] assms(2)
  obtain r1 ch1 ch2 where send: "fch_send e ci ?m (?f, os_upd r o1) = (int (length ?m), (?f, r1))"
    and r1: "g_fch r1 = (g_fch r)[ci := ch1]" "g_tgid_cache r1 = g_tgid_cache r" "t_map r1 = t_map r" "fch_by_fd t fd r1 = Some ci"
    and k: "c_rp ch1 = c_rp ?ch" "rq_deq ch1 = Some (?m, ch2)"
    and ch2: "c_used ch2 = c_used ?ch" "c_pid ch2 = c_pid ?ch" "c_fd ch2 = c_fd ?ch" "\<not> c_parked ch2"
      "length (c_rq ch2) = UK_FQ" "list_all (\<lambda>m. \<not> m_used m) (c_rq ch2)" "c_seq ch2 = c_seq ?ch + 1"
    by auto
  let ?slot = "(c_rp ?ch ! 0)\<lparr>m_used := True, m_buf := srv ?m, m_uniq := fch_uniq (srv ?m)\<rparr>"
  obtain r2 where r2: "daemon_turn ed t fd buf srv r1 = r2"
    "g_fch r2 = (g_fch r)[ci := ch2\<lparr>c_rp := (c_rp ?ch)[0 := ?slot]\<rparr>]" "g_tgid_cache r2 = g_tgid_cache r" "t_map r2 = t_map r"
    using daemon_turn_reply [of r1 t fd ci ed ?m ch2 srv buf] r1 assms(5,6) k lm idle ci cap by auto
  have u: "fch_uniq (srv ?m) = f_unique f + 1" using assms(6) [of ?m] by (simp add: req_def)
  let ?r' = "(upd_ch ci (\<lambda>ch. ch\<lparr>c_rp := (c_rp ch)[0 := msg_free ?slot]\<rparr>) r2)\<lparr>g_am := g_am r1\<rparr>"
  have ne: "c_rp ?ch \<noteq> []" using idle(1) by (auto simp: tab_defs)
  have "fch_recv e ci FUSED_MSGCAP (f_unique f + 1) (?f, r1) = Some (Inr (srv ?m), (?f, ?r'))"
    using recv_after_turn [of e ?f r1 r2 ci "c_rp ?ch" ?slot "f_unique f + 1" FUSED_MSGCAP]
      assms(3,6) r1(1) r2(1,2) k(1) idle(2) ci ne u by simp
  with a1 send have "exchange (chan_fio e ci) opcode nid body (f, r) = (fuse_reply (srv ?m), (?f, ?r'))"
    by (simp add: exchange_def chan_fio_def tx_send_def tx_recv_def Let_def req_def)
  moreover have fch: "g_fch ?r' = (g_fch r)[ci := ch2\<lparr>c_rp := (c_rp ?ch)[0 := msg_free ?slot]\<rparr>]"
    using r2(2) ci by (simp add: g_fch_upd)
  moreover have "chan_idle t fd buf ci ?r'"
    by (rule chan_idleI [OF assms(1) fch])
       (use ch2 r2 idle list_all_update [OF idle(2), of "msg_free ?slot" 0] in \<open>simp_all add: msg_free_def\<close>)
  moreover have "c_seq (g_fch ?r' ! ci) = c_seq ?ch + 1" unfolding fch using ci ch2(7) by simp
  ultimately show ?thesis by blast
qed

text \<open>A daemon that implements nothing.\<close>

definition nosys_srv :: "bytes \<Rightarrow> bytes" where
  "nosys_srv m = reply_err (hdr_unique m) (- ENOSYS)"

definition nosys_env :: "unit env" where
  "nosys_env = quiet_env\<lparr>env_pump := (\<lambda>(f, r). (0, (f, daemon_turn quiet_env 7 5 4096 nosys_srv r)))\<rparr>"

theorem channel_exchange_witness:
  "fst (exchange (chan_fio nosys_env 0) FUSE_GETATTR 1 [] (fused_zero, opened)) = Inl (- ENOSYS)"
proof -
  have i: "chan_idle 7 5 4096 0 opened"
    by (simp add: chan_idle_def Let_def opened_nth opened_facts fch_by_fd_def opened_ch_def ukfch_zero_def
        ukfmsg_zero_def list_all_iff tab_defs)
  have u: "fch_uniq (nosys_srv m) = hdr_unique m" and l: "length (nosys_srv m) \<le> FUSED_MSGCAP" for m
    using get64_hd [of "hdr_unique m" "[]"]
    by (simp_all add: nosys_srv_def reply_err_def out_header_def fch_uniq_def get_skips cap_defs)
  have a: "fst (env_alloc quiet_env n os)" "fst (env_alloc nosys_env n os)" for n os
    by (simp_all add: quiet_env_def null_env_def nosys_env_def)
  have "\<exists>r'. exchange (chan_fio nosys_env 0) FUSE_GETATTR 1 [] (fused_zero, opened) =
      (fuse_reply (nosys_srv (req fused_zero FUSE_GETATTR 1 [])), (fused_zero\<lparr>f_unique := f_unique fused_zero + 1\<rparr>, r')) \<and>
    chan_idle 7 5 4096 0 r' \<and> c_seq (g_fch r' ! 0) = c_seq (g_fch opened ! 0) + 1"
    by (rule channel_exchange [where ed = quiet_env, OF i _ _ a(2) a(1)])
       (simp_all add: opened_nth opened_ch_def ukfch_zero_def nosys_env_def u l [unfolded cap_defs, simplified] cap_defs)
  then show ?thesis by (auto simp: nosys_srv_def ENOSYS_def)
qed

text \<open>
  C28. A daemon that forks keeps its channel: after the tracer notes the fork, the first
  channel access of the new process on the inherited descriptor resolves to the parent's
  channel, which is handed over to the child.
\<close>

theorem forked_daemon_keeps_channel:
  assumes "fch_chan_of_pid pp r = Some c" and "c < length (g_fch r)" and "c_used (g_fch r ! c)"
    and "c_eng (g_fch r ! c) \<noteq> None" and "c_fd (g_fch r ! c) = fd"
    and "fch_by_fd cp fd r = None" and "fst (ukfs_tgid e cp r) = cp" and "g_fch_fork r \<noteq> []"
    and "list_all (\<lambda>h. \<not> (fh_used h \<and> fh_pid h = cp)) (g_fch_fork r)"
  shows "let (ci, r') = fch_resolve e cp fd (uknl_fuse_note_fork e pp cp r) in
    ci = Some c \<and> c_pid (g_fch r' ! c) = cp \<and> fch_by_fd cp fd r' = Some c"
proof -
  define i where "i = fork_slot cp (g_fch_fork r)"
  let ?h = "\<lparr>fh_used = True, fh_pid = cp, fh_chan = c\<rparr>"
  let ?hs = "(g_fch_fork r)[i := ?h]"
  let ?r1 = "r\<lparr>g_fch_fork := ?hs\<rparr>"
  have i: "i < length (g_fch_fork r)"
    using assms(8) by (auto simp: i_def fork_slot_def split: option.split dest: find_idx_less)
  have nf: "uknl_fuse_note_fork e pp cp r = ?r1" by (simp add: uknl_fuse_note_fork_def assms(1) i_def)
  obtain r2 where t: "ukfs_tgid e cp ?r1 = (cp, r2)"
    using assms(7) by (auto simp: ukfs_tgid_def proc_field_def Let_def split: option.splits)
  have r2: "g_fch r2 = g_fch r" "g_fch_fork r2 = ?hs"
    using tgid_frame(1,2) [of e cp ?r1] t by simp_all
  have "fch_by_fd cp fd r2 = None" using assms(6) r2(1) by (simp add: fch_by_fd_def)
  moreover have "\<exists>ch \<in> set (g_fch r2). c_used ch \<and> c_eng ch \<noteq> None \<and> c_fd ch = fd"
    using assms(2-5) r2(1) nth_mem by metis
  moreover have "find_idx (hint_ok cp cp fd (g_fch r2)) (g_fch_fork r2) = Some i"
  proof (rule find_idx_unique)
    fix j
    assume "j < length (g_fch_fork r2)" and h: "hint_ok cp cp fd (g_fch r2) (g_fch_fork r2 ! j)"
    then show "j = i" using assms(9) r2 by (cases "j = i") (auto simp: hint_ok_def Let_def list_all_length)
  qed (use i r2 assms(3-5) in \<open>auto simp: hint_ok_def Let_def\<close>)
  ultimately have "fch_resolve e cp fd ?r1 = (Some c, upd_ch c (\<lambda>ch. ch\<lparr>c_pid := cp\<rparr>) r2)"
    using i r2(2) by (simp add: fch_resolve_def t)
  moreover have "fch_by_fd cp fd (upd_ch c (\<lambda>ch. ch\<lparr>c_pid := cp\<rparr>) r2) = Some c"
    unfolding fch_by_fd_def g_fch_upd r2(1)
  proof (rule find_idx_unique)
    fix j
    assume "j < length ((g_fch r)[c := (g_fch r ! c)\<lparr>c_pid := cp\<rparr>])"
      and "c_used ((g_fch r)[c := (g_fch r ! c)\<lparr>c_pid := cp\<rparr>] ! j) \<and> c_pid ((g_fch r)[c := (g_fch r ! c)\<lparr>c_pid := cp\<rparr>] ! j) = cp \<and>
        c_fd ((g_fch r)[c := (g_fch r ! c)\<lparr>c_pid := cp\<rparr>] ! j) = fd"
    then show "j = c" using assms(6) by (cases "j = c") (auto simp: fch_by_fd_def find_idx_None)
  qed (use assms(2,3,5) in simp_all)
  ultimately show ?thesis using assms(2) r2(1) unfolding nf by simp
qed

theorem forked_daemon_keeps_channel_witness:
  "let (ci, r') = fch_resolve quiet_env 9 5 (uknl_fuse_note_fork quiet_env 7 9 opened) in
    ci = Some 0 \<and> c_pid (g_fch r' ! 0) = 9 \<and> fch_by_fd 9 5 r' = Some 0"
proof (rule forked_daemon_keeps_channel)
  show "fch_chan_of_pid 7 opened = Some 0"
    by (simp add: fch_chan_of_pid_def opened_facts opened_ch_def tab_defs)
  show "fch_by_fd 9 5 opened = None"
    by (simp add: fch_by_fd_def find_idx_None opened_facts) (auto simp: opened_ch_def ukfch_zero_def dest!: subsetD [OF set_update_subset_insert])
  show "fst (ukfs_tgid quiet_env 9 opened) = 9"
    by (simp add: ukfs_tgid_def opened_facts proc_field_def quiet_env_def null_env_def Let_def)
  have "g_fch_fork opened = replicate UK_NFORK fork_zero"
    by (simp add: opened_def start_def quiet_env_def null_env_def uknl_fuse_open_exit_def uknl_fuse_open_enter_def rst_init_def
        ukfs_tgid_def proc_field_def Let_def fch_by_fd_def fused_new_def upd_ch_def os_upd_def fch_forget_forks_def
        fch_ppid_def tab_defs(2) ukfch_zero_def fork_zero_def)
  then show "g_fch_fork opened \<noteq> []" "list_all (\<lambda>h. \<not> (fh_used h \<and> fh_pid h = 9)) (g_fch_fork opened)"
    by (simp_all add: tab_defs list_all_iff fork_zero_def)
qed (simp_all add: opened_nth opened_ch_def tab_defs)

end
