(* ===== verification/MountProps.thy ===== *)
theory MountProps
  imports MountTable ChannelExchange
begin

text \<open>
  The mount table keeps its invariant through every operation, resolves a guest path
  to the longest mount point above it, and canonicalises paths as the engine does.
\<close>

section \<open>The invariant\<close>

definition used_set :: "ukm list \<Rightarrow> nat set" where
  "used_set ms = {i. i < length ms \<and> mt_used (ms ! i)}"

text \<open>
  No two mounts share a mount point, nor a daemon's name; \<^verbatim>\<open>g_nm\<close> counts them. A slot that is
  mounted over (\<open>rm\<close> tells whether that is allowed) loses its daemon's name; without that
  every mount of the block device has a daemon of the pool.
\<close>

definition tab_ok :: "bool \<Rightarrow> ukm list \<Rightarrow> bool" where
  "tab_ok rm ms \<longleftrightarrow> length ms = UK_MAXM \<and>
     (\<forall>i \<in> used_set ms. \<forall>j \<in> used_set ms. i \<noteq> j \<longrightarrow>
        mt_vmount (ms ! i) \<noteq> mt_vmount (ms ! j) \<and>
        (mt_fsname (ms ! i) \<noteq> [] \<longrightarrow> mt_fsname (ms ! i) \<noteq> mt_fsname (ms ! j))) \<and>
     (\<not> rm \<longrightarrow> (\<forall>i \<in> used_set ms. mt_fuse (ms ! i) = None \<longrightarrow> mt_fsname (ms ! i) \<in> set UK_POOL))"

definition mount_inv :: "bool \<Rightarrow> 'o rst \<Rightarrow> bool" where
  "mount_inv rm r \<longleftrightarrow> tab_ok rm (g_m r) \<and> g_nm r = int (card (used_set (g_m r))) \<and> - 1 \<le> g_am r \<and> g_am r < int UK_MAXM"

text \<open>A device is mounted over a mount point in use only if \<open>rm\<close> allows it.\<close>

definition fresh_point :: "string \<Rightarrow> 'o rst \<Rightarrow> bool" where
  "fresh_point tgt r \<longleftrightarrow> list_all (\<lambda>m. \<not> (mt_used m \<and> mt_vmount m = tgt)) (g_m r)"

inductive mount_step :: "'o env \<Rightarrow> bool \<Rightarrow> 'o rst \<Rightarrow> 'o rst \<Rightarrow> bool" for e rm where
  M_register: "length tgt < PATH_MAX \<Longrightarrow> rm \<or> fresh_point tgt r \<Longrightarrow> mount_step e rm r (snd (ukm_register tgt token base sz rng r))"
| M_fuse: "length tgt < PATH_MAX \<Longrightarrow> mount_step e rm r (snd (ukm_register_fuse tgt en ci r))"
| M_umount: "mount_step e rm r (snd (ukfs_umount_target e t raw r))"
| M_gone: "mount_step e rm r (uknl_fuse_owner_gone e pid r)"
| M_rel: "mount_step e rm r (snd (ukfs_rel guest osz r))"
| M_conn: "mount_step e rm r (snd (ukfs_conn e r))"

section \<open>What leaves the mount table alone\<close>

definition mkey :: "'o rst \<Rightarrow> ukm list \<times> int \<times> int" where
  "mkey r = (g_m r, g_nm r, g_am r)"

named_theorems mkey_simps "operations that leave the mount table alone"

lemma mkey_basic [mkey_simps]:
  "mkey (write_data p a b r) = mkey r" "mkey (poke_void p v r) = mkey r" "mkey (resume p r) = mkey r"
  "mkey (os_upd r o1) = mkey r" "mkey (upd_ch ci f r) = mkey r" "mkey (close_fd e fd r) = mkey r"
  "mkey (fch_forget_forks c r) = mkey r"
  by (simp_all add: mkey_def write_data_def poke_void_def resume_def os_upd_def upd_ch_def close_fd_def fch_forget_forks_def)

lemma mkey_scatter_loop [mkey_simps]: "mkey (scatter_loop k t a2 src r) = mkey r"
  by (induction k arbitrary: a2 src r) (simp_all add: Let_def mkey_simps split: option.split)

lemma mkey_scatter [mkey_simps]: "mkey (fch_scatter t a2 v src n r) = mkey r"
  by (simp add: fch_scatter_def mkey_simps)

lemma mkey_deliver [mkey_simps]:
  "mkey (fch_deliver_parked ci r) = mkey r" "mkey (fch_resume_eof ci r) = mkey r"
  by (simp_all add: fch_deliver_parked_def fch_resume_eof_def Let_def mkey_simps split: option.split)

lemma mkey_send [mkey_simps]: "mkey (snd (snd (fch_send e ci b (f, r)))) = mkey r"
  by (simp add: fch_send_def Let_def mkey_simps split: option.split prod.split)

lemma mkey_sock [mkey_simps]:
  "mkey (snd (uksd_wn e s b r)) = mkey r" "mkey (snd (uksd_rl e s n r)) = mkey r"
  by (simp_all add: uksd_wn_def uksd_rl_def mkey_simps split_beta)

interpretation cm: teardown_inv "chan_fio e ci" "\<lambda>s. mkey (snd s) = k" for e ci k
proof (unfold_locales, goal_cases)
  case (1 s body opcode nid)
  show ?case
    by (rule noreply_keeps [where P = "\<lambda>s. mkey (snd s) = k", OF 1(1)])
       (auto simp: chan_fio_def tx_send_def split_beta mkey_simps)
qed

lemma mkey_destroy [mkey_simps]: "mkey (eng_destroy e en r) = mkey r"
proof (cases "st_eng r en")
  case (Some x)
  obtain f ci where x: "x = (f, ci)" by (rule prod.exhaust)
  show ?thesis
  proof (cases "fused_destroy (chan_fio e ci) (f, r)")
    case Nd: (Some r')
    then have "mkey r' = mkey r" using cm.fused_destroy_inv [OF Nd, of "mkey r"] by auto
    then show ?thesis using Some x Nd by (simp add: eng_destroy_def mkey_def)
  qed (use Some x in \<open>simp add: eng_destroy_def\<close>)
qed (simp add: eng_destroy_def)

lemma mount_inv_mkey: "mkey r = mkey r' \<Longrightarrow> mount_inv rm r = mount_inv rm r'"
  by (simp add: mount_inv_def mkey_def)

section \<open>Updates of the table\<close>

lemma used_set_upd:
  "i < length ms \<Longrightarrow> used_set (ms[i := m]) = (if mt_used m then insert i (used_set ms) else used_set ms - {i})"
  by (auto simp: used_set_def nth_list_update)

lemma finite_used [simp]: "finite (used_set ms)"
  by (simp add: used_set_def)

lemma tab_ok_clear: "tab_ok rm ms \<Longrightarrow> i < length ms \<Longrightarrow> \<not> mt_used m \<Longrightarrow> tab_ok rm (ms[i := m])"
  by (auto simp: tab_ok_def used_set_upd)

lemma tab_ok_same:
  assumes "tab_ok rm ms" and "mt_used m = mt_used (ms ! i)" and "mt_vmount m = mt_vmount (ms ! i)" and "mt_fsname m = mt_fsname (ms ! i)"
    and "mt_fuse m = mt_fuse (ms ! i)"
  shows "tab_ok rm (ms[i := m]) \<and> used_set (ms[i := m]) = used_set ms"
proof (cases "i < length ms")
  case True
  have u: "used_set (ms[i := m]) = used_set ms" using True assms(2) by (auto simp: used_set_def nth_list_update)
  have n: "mt_vmount (ms[i := m] ! j) = mt_vmount (ms ! j)" "mt_fsname (ms[i := m] ! j) = mt_fsname (ms ! j)"
    "mt_fuse (ms[i := m] ! j) = mt_fuse (ms ! j)" for j
    using True assms(3-5) by (cases "j = i"; simp)+
  show ?thesis using assms(1) unfolding tab_ok_def u n by simp
next
  case False
  then have "ms[i := m] = ms" by (simp add: list_update_beyond)
  with assms(1) show ?thesis by simp
qed

lemma tab_ok_set:
  assumes "tab_ok rm ms" and "i < length ms"
    and "\<And>j. j \<in> used_set ms \<Longrightarrow> j \<noteq> i \<Longrightarrow> mt_vmount (ms ! j) \<noteq> mt_vmount m"
    and "\<And>j. j \<in> used_set ms \<Longrightarrow> j \<noteq> i \<Longrightarrow> mt_fsname m \<noteq> [] \<Longrightarrow> mt_fsname (ms ! j) \<noteq> mt_fsname m"
    and "\<not> rm \<Longrightarrow> mt_fuse m = None \<Longrightarrow> mt_fsname m \<in> set UK_POOL"
  shows "tab_ok rm (ms[i := m])"
proof -
  have u: "j \<in> used_set ms" if "j \<in> used_set (ms[i := m])" "j \<noteq> i" for j
    using that assms(2) by (auto simp: used_set_upd split: if_splits)
  show ?thesis using assms u unfolding tab_ok_def by (auto simp: nth_list_update) metis+
qed

lemma mount_slot_Some:
  assumes "mount_slot tgt ms = Some i" and "tab_ok rm ms"
  shows "i < length ms" and "\<And>j. j \<in> used_set ms \<Longrightarrow> j \<noteq> i \<Longrightarrow> mt_vmount (ms ! j) \<noteq> tgt"
proof -
  show "i < length ms" using assms(1) by (auto simp: mount_slot_def split: option.splits dest: find_idx_less)
  fix j
  assume j: "j \<in> used_set ms" "j \<noteq> i"
  show "mt_vmount (ms ! j) \<noteq> tgt"
  proof (cases "find_idx (\<lambda>m. mt_used m \<and> mt_vmount m = tgt) ms")
    case None
    then show ?thesis using j(1) by (auto simp: find_idx_None used_set_def)
  next
    case (Some k)
    then have "k = i" using assms(1) by (simp add: mount_slot_def)
    then have "i \<in> used_set ms" "mt_vmount (ms ! i) = tgt"
      using find_idx_sat [OF Some] find_idx_less [OF Some] by (auto simp: used_set_def)
    then show ?thesis using assms(2) j by (auto simp: tab_ok_def)
  qed
qed

lemma alloc_daemon_free:
  assumes "ukfs_alloc_daemon r = Some p"
  shows "p \<in> set UK_POOL" and "\<And>m. m \<in> set (g_m r) \<Longrightarrow> mt_used m \<Longrightarrow> mt_fsname m \<noteq> p"
  using assms by (auto simp: ukfs_alloc_daemon_def find_Some_iff daemon_busy_def list_ex_iff)

lemma pool_name: "p \<in> set UK_POOL \<Longrightarrow> snprintf_n 64 p = p \<and> p \<noteq> []"
  by (auto simp: UK_POOL_def snprintf_n_def)

lemma count_set:
  assumes "mount_inv rm r" and "i < length (g_m r)" and "mt_used m" and "tab_ok rm ((g_m r)[i := m])" and "n < int UK_MAXM" and "- 1 \<le> n"
  shows "mount_inv rm ((if mt_used (g_m r ! i) then r else r\<lparr>g_nm := g_nm r + 1\<rparr>)\<lparr>g_m := (g_m r)[i := m], g_am := n\<rparr>)"
proof -
  have "card (insert i (used_set (g_m r))) = (if mt_used (g_m r ! i) then card (used_set (g_m r)) else card (used_set (g_m r)) + 1)"
    using assms(2) by (auto simp: card_insert_if used_set_def)
  then show ?thesis using assms by (simp add: mount_inv_def used_set_upd)
qed

lemma register_inv:
  assumes "mount_inv rm r" and "length tgt < PATH_MAX" and "rm \<or> fresh_point tgt r"
  shows "mount_inv rm (snd (ukm_register tgt token base sz rng r))"
proof (cases "mount_slot tgt (g_m r)")
  case (Some i)
  have ok: "tab_ok rm (g_m r)" using assms(1) by (simp add: mount_inv_def)
  note i = mount_slot_Some [OF Some ok]
  show ?thesis
  proof (cases "if mt_used (g_m r ! i) then Some [] else ukfs_alloc_daemon r")
    case None
    then show ?thesis using assms(1) Some by (simp add: ukm_register_def Let_def)
  next
    case fs: (Some fsname)
    let ?m = "ukm_zero\<lparr>mt_used := True, mt_sock := - 1, mt_ready := False, mt_base := base,
       mt_size := sz, mt_range := rng, mt_vmount := snprintf_n PATH_MAX tgt, mt_token := snprintf_n 600 token,
       mt_fsname := snprintf_n 64 fsname\<rparr>"
    have v: "snprintf_n PATH_MAX tgt = tgt" using assms(2) by (simp add: snprintf_n_def)
    have "mt_fsname (g_m r ! j) \<noteq> snprintf_n 64 fsname" if "j \<in> used_set (g_m r)" "snprintf_n 64 fsname \<noteq> []" for j
    proof (cases "mt_used (g_m r ! i)")
      case False
      then have "ukfs_alloc_daemon r = Some fsname" using fs by simp
      from alloc_daemon_free [OF this] pool_name [of fsname] that show ?thesis by (auto simp: used_set_def)
    qed (use fs that in \<open>auto simp: snprintf_n_def\<close>)
    moreover have "snprintf_n 64 fsname \<in> set UK_POOL" if "\<not> rm"
    proof -
      have "\<not> mt_used (g_m r ! i)"
      proof (cases "find_idx (\<lambda>m. mt_used m \<and> mt_vmount m = tgt) (g_m r)")
        case None
        then show ?thesis using Some find_idx_sat [of _ "g_m r" i] by (auto simp: mount_slot_def)
      next
        case (Some k)
        then show ?thesis
          using find_idx_sat [OF Some] find_idx_less [OF Some] assms(3) that by (auto simp: fresh_point_def list_all_length)
      qed
      then have "ukfs_alloc_daemon r = Some fsname" using fs by simp
      from alloc_daemon_free(1) [OF this] pool_name [of fsname] show ?thesis by simp
    qed
    ultimately have "tab_ok rm ((g_m r)[i := ?m])" using i v by (intro tab_ok_set [OF ok]) auto
    from count_set [OF assms(1) i(1) _ this, of "int i"] i(1) ok show ?thesis
      using Some fs by (simp add: ukm_register_def Let_def upd_m_def tab_ok_def split: if_splits)
  qed
qed (use assms(1) in \<open>simp add: ukm_register_def\<close>)

lemma register_fuse_inv:
  assumes "mount_inv rm r" and "length tgt < PATH_MAX"
  shows "mount_inv rm (snd (ukm_register_fuse tgt en ci r))"
proof (cases "mount_slot tgt (g_m r)")
  case (Some i)
  have ok: "tab_ok rm (g_m r)" using assms(1) by (simp add: mount_inv_def)
  note i = mount_slot_Some [OF Some ok]
  let ?m = "ukm_zero\<lparr>mt_used := True, mt_sock := - 1, mt_fuse := Some en, mt_fuse_chan := int ci,
     mt_fuse_inited := False, mt_vmount := snprintf_n PATH_MAX tgt\<rparr>"
  have v: "snprintf_n PATH_MAX tgt = tgt" using assms(2) by (simp add: snprintf_n_def)
  have "tab_ok rm ((g_m r)[i := ?m])" using i v by (intro tab_ok_set [OF ok]) (auto simp: ukm_zero_def)
  from count_set [OF assms(1) i(1) _ this, of "g_am r"] assms(1) show ?thesis
    using Some by (auto simp: ukm_register_fuse_def Let_def upd_m_def mount_inv_def split: if_splits)
qed (use assms(1) in \<open>simp add: ukm_register_fuse_def\<close>)

lemma slot_clear_inv:
  assumes "mount_inv rm r" and "i < length (g_m r)" and "mt_used (g_m r ! i)"
  shows "mount_inv rm (slot_clear i r)"
proof -
  let ?m = "ukm_zero\<lparr>mt_sock := - 1\<rparr>"
  have m: "i \<in> used_set (g_m r)" using assms(2,3) by (simp add: used_set_def)
  then have c: "card (used_set (g_m r) - {i}) = card (used_set (g_m r)) - 1" "0 < card (used_set (g_m r))"
    by (auto simp: card_gt_0_iff)
  have "\<not> mt_used ?m" by (simp add: ukm_zero_def)
  with assms m c show ?thesis
    by (auto simp: slot_clear_def upd_m_def Let_def mount_inv_def used_set_upd tab_ok_clear)
qed

lemma unmount_slot_inv:
  assumes "mount_inv rm r"
  shows "mount_inv rm (ukfs_unmount_slot e j r)"
proof (cases "j < 0 \<or> int UK_MAXM \<le> j \<or> \<not> mt_used (g_m r ! nat j)")
  case False
  then have j: "nat j < length (g_m r)" "mt_used (g_m r ! nat j)"
    using assms by (auto simp: mount_inv_def tab_ok_def)
  have c: "mount_inv rm (slot_clear (nat j) r')" if "mkey r' = mkey r" for r'
    using that assms j by (intro slot_clear_inv) (simp_all add: mount_inv_mkey [OF that], simp_all add: mkey_def)
  show ?thesis
  proof (cases "mt_fuse (g_m r ! nat j)")
    case None
    then show ?thesis
      using False by (auto simp: ukfs_unmount_slot_def Let_def split_beta mkey_simps intro!: c)
  next
    case (Some en)
    then show ?thesis
      using False by (auto simp: ukfs_unmount_slot_def Let_def free_channel_def mkey_simps intro!: c)
  qed
qed (use assms in \<open>auto simp: ukfs_unmount_slot_def Let_def\<close>)

lemma am_inv: "mount_inv rm r \<Longrightarrow> - 1 \<le> n \<Longrightarrow> n < int UK_MAXM \<Longrightarrow> mount_inv rm (r\<lparr>g_am := n\<rparr>)"
  by (simp add: mount_inv_def)

lemma umount_target_inv: "mount_inv rm r \<Longrightarrow> mount_inv rm (snd (ukfs_umount_target e t raw r))"
  by (auto simp: ukfs_umount_target_def Let_def UK_MAXM_def unmount_slot_inv split: option.split intro!: am_inv)

lemma owner_gone_inv: "mount_inv rm r \<Longrightarrow> mount_inv rm (uknl_fuse_owner_gone e pid r)"
  unfolding uknl_fuse_owner_gone_def
proof (rule for_ch_keeps)
  fix i and r :: "'a rst"
  assume r: "mount_inv rm r"
  let ?r = "upd_ch i (\<lambda>_. ukfch_zero) (fch_forget_forks i (case c_eng (g_fch (fch_resume_eof i r) ! i) of
      None \<Rightarrow> fch_resume_eof i r | Some en \<Rightarrow> eng_destroy e en (fch_resume_eof i r)))"
  have "mkey ?r = mkey r" by (simp add: mkey_simps split: option.split)
  then have "mount_inv rm ?r" using r mount_inv_mkey by blast
  with r show "mount_inv rm (owner_teardown e i r)"
    unfolding owner_teardown_def Let_def by (auto simp: unmount_slot_inv split: option.split_asm option.split)
qed

lemma rel_loop_Some:
  "rel_loop ms k guest best bl = (Some i, n) \<Longrightarrow> best = Some i \<or> (k \<le> i \<and> i < k + length ms)"
proof (induction ms arbitrary: k best bl)
  case (Cons m ms)
  show ?case using Cons.prems Cons.IH by (auto split: if_splits) fastforce+
qed simp

lemma rel_inv: "mount_inv rm r \<Longrightarrow> mount_inv rm (snd (ukfs_rel guest osz r))"
proof -
  assume r: "mount_inv rm r"
  obtain b n where l: "rel_loop (g_m r) 0 guest None 0 = (b, n)" by (rule prod.exhaust)
  show ?thesis
  proof (cases b)
    case (Some i)
    then have "i < UK_MAXM" using l rel_loop_Some [of "g_m r" 0 guest None 0 i n] r by (simp add: mount_inv_def tab_ok_def)
    with l Some r show ?thesis by (auto simp: ukfs_rel_def Let_def intro!: am_inv)
  qed (use l r in \<open>simp add: ukfs_rel_def\<close>)
qed

lemma upd_m_inv:
  assumes "mount_inv rm r" and "\<And>m. mt_used (f m) = mt_used m" and "\<And>m. mt_vmount (f m) = mt_vmount m" and "\<And>m. mt_fsname (f m) = mt_fsname m"
    and "\<And>m. mt_fuse (f m) = mt_fuse m"
  shows "mount_inv rm (upd_m i f r)"
  using assms tab_ok_same [of rm "g_m r" "f (g_m r ! i)" i] by (simp add: mount_inv_def upd_m_def)

lemma mkey_conn [mkey_simps]:
  "mkey (snd (ukfs_block_present e r)) = mkey r" "mkey (snd (ukfs_connect e nm r)) = mkey r" "mkey (snd (ukfs_do_mount e r)) = mkey r"
proof -
  show "mkey (snd (ukfs_block_present e r)) = mkey r" "mkey (snd (ukfs_connect e nm r)) = mkey r"
    by (auto simp: ukfs_block_present_def ukfs_connect_def Let_def mkey_simps split: prod.split bool.split)
  show "mkey (snd (ukfs_do_mount e r)) = mkey r"
  proof -
    have "mkey r2 = mkey r" if "uksd_wn e s b r = (x, r1)" "uksd_rl e s n r1 = (y, r2)" for s b n x y r1 r2
      using that mkey_sock(1) [of e s b r] mkey_sock(2) [of e s n r1] by simp
    moreover have "mkey r1 = mkey r" if "uksd_wn e s b r = (x, r1)" for s b x r1
      using that mkey_sock(1) [of e s b r] by simp
    ultimately show ?thesis by (auto simp: ukfs_do_mount_def Let_def split: prod.split bool.split option.split)
  qed
qed

lemma sdrop_inv: "mount_inv rm r \<Longrightarrow> mount_inv rm (ukfs_sdrop e r)"
proof -
  assume r: "mount_inv rm r"
  then have "mount_inv rm (close_fd e s r)" for s using mount_inv_mkey [of "close_fd e s r" r rm] by (simp add: mkey_simps)
  with r show ?thesis by (auto simp: ukfs_sdrop_def Let_def intro!: upd_m_inv)
qed

lemma conn_ready_inv:
  assumes "mount_inv rm r"
  shows "mount_inv rm (snd (conn_ready e r))"
proof -
  obtain ok r1 where d: "ukfs_do_mount e r = (ok, r1)" by (rule prod.exhaust)
  have "mount_inv rm r1" using assms mkey_conn(3) [of e r] d mount_inv_mkey [of r1 r rm] by simp
  with assms d show ?thesis by (auto simp: conn_ready_def sdrop_inv split: bool.split intro!: upd_m_inv)
qed

lemma conn_inv:
  assumes "mount_inv rm r"
  shows "mount_inv rm (snd (ukfs_conn e r))"
proof -
  let ?m = "g_m r ! am r"
  obtain here r1 where h: "(if hd (mt_token ?m @ [NUL]) = SLASH then (True, r) else ukfs_block_present e r) = (here, r1)"
    by (rule prod.exhaust)
  have "mkey r1 = mkey r" using h mkey_conn(1) [of e r] by (auto split: if_splits)
  then have r1: "mount_inv rm r1" using assms mount_inv_mkey by blast
  obtain s r2 where c: "ukfs_connect e (mt_fsname ?m) r1 = (s, r2)" by (rule prod.exhaust)
  have "mkey r2 = mkey r1" using c mkey_conn(2) [of e "mt_fsname ?m" r1] by simp
  then have r2: "mount_inv rm r2" using r1 mount_inv_mkey by blast
  show ?thesis
    unfolding ukfs_conn_def Let_def h
    using assms r1 r2 by (auto simp: c UK_MAXM_def conn_ready_inv unmount_slot_inv intro!: am_inv conn_ready_inv upd_m_inv)
qed

lemma mount_step_inv: "mount_step e rm r r' \<Longrightarrow> mount_inv rm r \<Longrightarrow> mount_inv rm r'"
  by (induction rule: mount_step.induct)
     (simp_all add: register_inv register_fuse_inv umount_target_inv owner_gone_inv rel_inv conn_inv)

lemma mount_reach_inv: "(mount_step e rm)\<^sup>*\<^sup>* r r' \<Longrightarrow> mount_inv rm r \<Longrightarrow> mount_inv rm r'"
  by (induction rule: rtranclp_induct) (auto dest: mount_step_inv)

lemma used_set_zero: "used_set (replicate n ukm_zero) = {}"
  by (auto simp: used_set_def ukm_zero_def)

lemma mount_inv_init: "mount_inv rm (rst_init mem mp os)"
  by (simp add: mount_inv_def tab_ok_def rst_init_def used_set_zero UK_MAXM_def)

section \<open>Resolution\<close>

text \<open>A guest path is at or under a mount point.\<close>

definition under :: "string \<Rightarrow> string \<Rightarrow> bool" where
  "under vm g \<longleftrightarrow> g = vm \<or> (\<exists>rest. g = vm @ SLASH # rest)"

lemma vm_match_under: "NUL \<notin> set g \<Longrightarrow> vm_match vm g = under vm g"
proof -
  assume g: "NUL \<notin> set g"
  show ?thesis
  proof
    assume m: "vm_match vm g"
    then have e: "g = vm @ drop (length vm) g"
      by (metis append_take_drop_id starts_with_def vm_match_def)
    show "under vm g"
    proof (cases "drop (length vm) g")
      case Nil
      with e show ?thesis by (simp add: under_def)
    next
      case (Cons c rest)
      then have "c \<noteq> NUL" using g by (metis in_set_dropD list.set_intros(1))
      with Cons m have "c = SLASH" by (simp add: vm_match_def Let_def)
      with Cons e show ?thesis by (auto simp: under_def)
    qed
  next
    assume "under vm g"
    then show "vm_match vm g" by (auto simp: under_def vm_match_def starts_with_def Let_def)
  qed
qed

lemma rel_loop_spec:
  "rel_loop ms k g best bl = (b, n) \<Longrightarrow>
   (case b of
      None \<Rightarrow> best = None \<and> (\<forall>m \<in> set ms. mt_used m \<longrightarrow> vm_match (mt_vmount m) g \<longrightarrow> length (mt_vmount m) < bl)
    | Some i \<Rightarrow>
        (best = Some i \<and> n = bl \<and> (\<forall>m \<in> set ms. mt_used m \<longrightarrow> vm_match (mt_vmount m) g \<longrightarrow> length (mt_vmount m) < bl)) \<or>
        (k \<le> i \<and> i < k + length ms \<and> mt_used (ms ! (i - k)) \<and> vm_match (mt_vmount (ms ! (i - k))) g \<and>
         n = length (mt_vmount (ms ! (i - k))) \<and> bl \<le> n \<and>
         (\<forall>m \<in> set ms. mt_used m \<longrightarrow> vm_match (mt_vmount m) g \<longrightarrow> length (mt_vmount m) \<le> n)))"
proof (induction ms arbitrary: k best bl b n)
  case Nil
  then show ?case by (cases b) auto
next
  case (Cons m ms)
  show ?case
  proof (cases "mt_used m \<and> vm_match (mt_vmount m) g \<and> bl \<le> length (mt_vmount m)")
    case True
    then have "rel_loop ms (Suc k) g (Some k) (length (mt_vmount m)) = (b, n)" using Cons.prems by simp
    from Cons.IH [OF this] True show ?thesis
      by (cases b) (auto simp: Suc_diff_le nth_Cons' split: if_splits)
  next
    case False
    then have "rel_loop ms (Suc k) g best bl = (b, n)" using Cons.prems by (auto split: if_splits)
    from Cons.IH [OF this] False show ?thesis
      by (cases b) (auto simp: Suc_diff_le nth_Cons' split: if_splits)
  qed
qed

section \<open>Canonical paths\<close>

lemma canon_push_norm: "canon_push parts t = norm_push parts t"
  by (simp add: canon_push_def norm_push_def)

lemma canon_tok_norm: "canon_tok s parts = norm_scan s parts"
proof (induction s parts rule: canon_tok.induct)
  case (1 s parts)
  show ?case
  proof (cases "dropWhile (\<lambda>c. c = SLASH) s = []")
    case True
    then show ?thesis by (simp add: canon_tok.simps norm_scan.simps)
  next
    case False
    with 1 [OF refl False] show ?thesis
      by (subst canon_tok.simps, subst norm_scan.simps) (auto simp: Let_def canon_push_norm)
  qed
qed

lemma canon_out_take:
  "length out = min n (osz - 1) \<Longrightarrow>
   canon_out osz n ps out = out @ take (osz - 1 - n) (concat (map (\<lambda>p. SLASH # p) ps))"
proof (induction ps arbitrary: n out)
  case (Cons p ps)
  show ?case
  proof (cases "n + 1 < osz")
    case True
    have "length (out @ snprintf_n (osz - n) (SLASH # p)) = min (n + 1 + length p) (osz - 1)"
      using True Cons.prems by (auto simp: snprintf_n_def min_def)
    from Cons.IH [OF this] True show ?thesis
      by (auto simp: snprintf_n_def take_Cons' algebra_simps diff_diff_add)
  next
    case False
    then show ?thesis by simp
  qed
qed simp

section \<open>Properties\<close>

text \<open>
  C5. The mount table stays consistent: in every state reachable by mounts of either kind,
  unmounts, the end of a mount's owner, path resolution and connections, \<^verbatim>\<open>g_nm\<close> is the
  number of slots in use, no two of them have the same mount point, and two of them have
  the same daemon name only if it is empty. A name is empty for a FUSE mount and for a slot
  on which the device was mounted again while it was in use (see \<open>remount_loses_daemon\<close>):
  in every history without such a mount (\<open>rm\<close> false) each mount of the device has a
  daemon of the pool and no two have the same one.
\<close>

theorem mount_table_consistent:
  assumes "(mount_step e rm)\<^sup>*\<^sup>* (rst_init mem mp os) r"
  shows "g_nm r = int (card {i. i < UK_MAXM \<and> mt_used (g_m r ! i)}) \<and>
    (\<forall>i < UK_MAXM. \<forall>j < UK_MAXM. mt_used (g_m r ! i) \<and> mt_used (g_m r ! j) \<and> i \<noteq> j \<longrightarrow>
       mt_vmount (g_m r ! i) \<noteq> mt_vmount (g_m r ! j) \<and>
       (mt_fsname (g_m r ! i) = mt_fsname (g_m r ! j) \<longrightarrow> mt_fsname (g_m r ! i) = []) \<and>
       (\<not> rm \<and> mt_fuse (g_m r ! i) = None \<and> mt_fuse (g_m r ! j) = None \<longrightarrow>
          mt_fsname (g_m r ! i) \<noteq> mt_fsname (g_m r ! j))) \<and>
    (\<not> rm \<longrightarrow> (\<forall>i < UK_MAXM. mt_used (g_m r ! i) \<and> mt_fuse (g_m r ! i) = None \<longrightarrow>
       mt_fsname (g_m r ! i) \<in> set UK_POOL))"
proof -
  have "mount_inv rm r" using mount_reach_inv [OF assms mount_inv_init] .
  then have t: "tab_ok rm (g_m r)" "g_nm r = int (card (used_set (g_m r)))" by (simp_all add: mount_inv_def)
  moreover have "used_set (g_m r) = {i. i < UK_MAXM \<and> mt_used (g_m r ! i)}"
    using t(1) by (simp add: tab_ok_def used_set_def)
  moreover have "[] \<notin> set UK_POOL" by (simp add: UK_POOL_def)
  ultimately show ?thesis unfolding tab_ok_def by (simp, metis)
qed

text \<open>Two mounts of the block device, at two places.\<close>

definition two_mounts :: "unit rst" where
  "two_mounts = snd (ukm_register ''/b'' ''uksd0p2'' 0 0 False (snd (ukm_register ''/a'' ''uksd0p1'' 0 0 False start)))"

lemma replicate_MAXM: "replicate UK_MAXM x = [x, x, x, x, x, x, x, x]"
  by (simp add: UK_MAXM_def numeral_eq_Suc)

lemma two_mounts_facts:
  "g_m two_mounts = (replicate UK_MAXM ukm_zero)
     [0 := ukm_zero\<lparr>mt_used := True, mt_sock := - 1, mt_vmount := ''/a'', mt_token := ''uksd0p1'', mt_fsname := ''io.neoterm.fs''\<rparr>,
      1 := ukm_zero\<lparr>mt_used := True, mt_sock := - 1, mt_vmount := ''/b'', mt_token := ''uksd0p2'', mt_fsname := ''io.neoterm.fs.p1''\<rparr>]"
  by (simp add: two_mounts_def ukm_register_def mount_slot_def start_def rst_init_def replicate_MAXM upd_m_def Let_def
      ukfs_alloc_daemon_def UK_POOL_def daemon_busy_def ukm_zero_def snprintf_n_def PATH_MAX_def)

theorem mount_table_consistent_witness:
  "mt_used (g_m two_mounts ! 0) \<and> mt_used (g_m two_mounts ! 1) \<and>
   mt_fsname (g_m two_mounts ! 0) \<noteq> mt_fsname (g_m two_mounts ! 1) \<and> mt_fsname (g_m two_mounts ! 1) \<in> set UK_POOL"
proof -
  have u: "mt_used (g_m two_mounts ! 0)" "mt_used (g_m two_mounts ! 1)"
    "mt_fuse (g_m two_mounts ! 0) = None" "mt_fuse (g_m two_mounts ! 1) = None"
    by (simp_all add: two_mounts_facts replicate_MAXM ukm_zero_def)
  let ?r1 = "snd (ukm_register ''/a'' ''uksd0p1'' 0 0 False start)"
  have "fresh_point ''/a'' start"
    by (simp add: fresh_point_def start_def rst_init_def replicate_MAXM ukm_zero_def)
  then have "mount_step quiet_env False start ?r1" by (intro M_register) (simp_all add: PATH_MAX_def)
  moreover have "fresh_point ''/b'' ?r1"
    by (simp add: fresh_point_def ukm_register_def mount_slot_def start_def rst_init_def replicate_MAXM upd_m_def Let_def
        ukfs_alloc_daemon_def UK_POOL_def daemon_busy_def ukm_zero_def snprintf_n_def PATH_MAX_def)
  then have "mount_step quiet_env False ?r1 two_mounts"
    unfolding two_mounts_def by (intro M_register) (simp_all add: PATH_MAX_def)
  ultimately have r: "(mount_step quiet_env False)\<^sup>*\<^sup>* (rst_init (\<lambda>_ _. CHR ''x'') (\<lambda>_ _ _. True) ()) two_mounts"
    unfolding start_def [symmetric] by (meson rtranclp.rtrancl_into_rtrancl rtranclp.rtrancl_refl)
  have m: "0 < UK_MAXM" "1 < UK_MAXM" by (simp_all add: UK_MAXM_def)
  note c = mount_table_consistent [OF r, THEN conjunct2]
  from c [THEN conjunct1, rule_format, of 0 1] u m have "mt_fsname (g_m two_mounts ! 0) \<noteq> mt_fsname (g_m two_mounts ! 1)" by simp
  moreover from c [THEN conjunct2, rule_format, of 1] u m have "mt_fsname (g_m two_mounts ! 1) \<in> set UK_POOL" by simp
  ultimately show ?thesis using u by blast
qed

text \<open>
  C10. A guest path is resolved to the longest mount point above it: \<open>ukfs_rel\<close> fails exactly if
  no mount point is the path itself or one of its ancestors; otherwise it activates
  the mount with the longest one and returns the rest of the path below it, or the
  root of that mount for the mount point itself.
\<close>

theorem ukfs_rel_longest:
  assumes "NUL \<notin> set g"
  shows "case ukfs_rel g osz r of
      (None, r') \<Rightarrow> r' = r \<and> (\<forall>m \<in> set (g_m r). mt_used m \<longrightarrow> \<not> under (mt_vmount m) g)
    | (Some p, r') \<Rightarrow> \<exists>i < length (g_m r). g_am r' = int i \<and> mt_used (g_m r ! i) \<and> under (mt_vmount (g_m r ! i)) g \<and>
        (\<forall>m \<in> set (g_m r). mt_used m \<longrightarrow> under (mt_vmount m) g \<longrightarrow> length (mt_vmount m) \<le> length (mt_vmount (g_m r ! i))) \<and>
        p = snprintf_n osz (if g = mt_vmount (g_m r ! i) then ''/'' else drop (length (mt_vmount (g_m r ! i))) g)"
proof -
  obtain b n where l: "rel_loop (g_m r) 0 g None 0 = (b, n)" by (rule prod.exhaust)
  note spec = rel_loop_spec [OF l, unfolded vm_match_under [OF assms]]
  show ?thesis
  proof (cases b)
    case None
    with spec l show ?thesis by (simp add: ukfs_rel_def)
  next
    case (Some i)
    have u: "under (mt_vmount (g_m r ! i)) g" and n: "n = length (mt_vmount (g_m r ! i))" using spec Some by auto
    have "drop n g = [] \<longleftrightarrow> g = mt_vmount (g_m r ! i)" using u n by (auto simp: under_def)
    with spec l Some n show ?thesis by (auto simp: ukfs_rel_def Let_def intro!: exI [of _ i])
  qed
qed

theorem ukfs_rel_longest_witness:
  "case ukfs_rel ''/a/x'' 100 two_mounts of
      (None, r') \<Rightarrow> r' = two_mounts \<and> (\<forall>m \<in> set (g_m two_mounts). mt_used m \<longrightarrow> \<not> under (mt_vmount m) ''/a/x'')
    | (Some p, r') \<Rightarrow> \<exists>i < length (g_m two_mounts). g_am r' = int i \<and> mt_used (g_m two_mounts ! i) \<and> under (mt_vmount (g_m two_mounts ! i)) ''/a/x'' \<and>
        (\<forall>m \<in> set (g_m two_mounts). mt_used m \<longrightarrow> under (mt_vmount m) ''/a/x'' \<longrightarrow> length (mt_vmount m) \<le> length (mt_vmount (g_m two_mounts ! i))) \<and>
        p = snprintf_n 100 (if ''/a/x'' = mt_vmount (g_m two_mounts ! i) then ''/'' else drop (length (mt_vmount (g_m two_mounts ! i))) ''/a/x'')"
  by (rule ukfs_rel_longest) simp

text \<open>
  C29. The two canonicalisations of the program agree: \<open>ukfs_canon\<close>, which the redirect
  applies to guest paths, and the engine's \<open>normpath\<close> give the same result on every input
  the redirect's buffer holds, for every output size.
\<close>

theorem canon_matches_engine: "ukfs_canon p osz = normpath (snprintf_n PATH_MAX p) osz"
proof -
  let ?s = "norm_scan (snprintf_n PATH_MAX p) []"
  have "canon_out osz 0 ?s [] = norm_out osz ?s []" by (simp add: canon_out_take norm_out_take)
  then show ?thesis by (simp add: ukfs_canon_def normpath_def Let_def canon_tok_norm)
qed

text \<open>
  Mounting again on a mount point that is in use cuts the slot off from its daemon: the
  slot is reused, its daemon's name is lost (it is copied from the slot after the slot
  was cleared), so the next connection goes to the empty name, and the connection it
  had is forgotten without being closed.
\<close>

theorem remount_loses_daemon:
  assumes "find_idx (\<lambda>m. mt_used m \<and> mt_vmount m = tgt) (g_m r) = Some i"
  shows "fst (ukm_register tgt token base sz rng r) = Some i \<and>
    mt_fsname (g_m (snd (ukm_register tgt token base sz rng r)) ! i) = [] \<and>
    mt_sock (g_m (snd (ukm_register tgt token base sz rng r)) ! i) = - 1 \<and>
    st_os (snd (ukm_register tgt token base sz rng r)) = st_os r"
  using assms find_idx_less [OF assms] find_idx_sat [OF assms]
  by (simp add: ukm_register_def mount_slot_def Let_def upd_m_def snprintf_n_def)

theorem remount_loses_daemon_witness:
  "mt_fsname (g_m two_mounts ! 1) = ''io.neoterm.fs.p1'' \<and>
   mt_fsname (g_m (snd (ukm_register ''/b'' ''uksd0p2'' 0 0 False two_mounts)) ! 1) = []"
proof -
  have "find_idx (\<lambda>m. mt_used m \<and> mt_vmount m = ''/b'') (g_m two_mounts) = Some 1"
    by (simp add: two_mounts_facts replicate_MAXM)
  from remount_loses_daemon [OF this, of "''uksd0p2''" 0 0 False] show ?thesis
    by (simp add: two_mounts_facts replicate_MAXM)
qed

end
