(* ===== verification/LoopDev.thy ===== *)
theory LoopDev
  imports MountTable
begin

unbundle bit_operations_syntax

text \<open>
  The loop devices of \<^verbatim>\<open>proot/patches/uknl_fs_redirect.c\<close>: the table \<open>g_lo\<close> that the
  emulated loop ioctls keep, the mount sources it gives, and raw reads and writes of
  an open loop node, which are served from the image behind it (\<open>g_lofd\<close>).
\<close>

section \<open>Registers and signed words\<close>

text \<open>\<^verbatim>\<open>(int) peek_reg(...)\<close>\<close>

definition reg_int :: "u64 \<Rightarrow> int" where
  "reg_int w = sint (ucast w :: u32)"

text \<open>A \<^verbatim>\<open>long long\<close> result, wrapped to 64 bits.\<close>

definition s64 :: "int \<Rightarrow> int" where
  "s64 i = sint (word_of_int i :: u64)"

section \<open>Partitions of an image\<close>

definition ukfs_dconn :: "'o env \<Rightarrow> string \<Rightarrow> 'o rst \<Rightarrow> int \<times> 'o rst" where
  "ukfs_dconn e fsname r =
     (let (s, o1) = env_socket e (st_os r) in
      if s < 0 then (- 1, os_upd r o1)
      else case env_connect e s fsname o1 of
        (False, o2) \<Rightarrow> (- 1, os_upd r (env_close e s o2))
      | (True, o2) \<Rightarrow> (s, os_upd r o2))"

text \<open>\<^verbatim>\<open>%x\<close>: an optional sign and \<^verbatim>\<open>0x\<close>, then hexadecimal digits; only the rest of the text is used.\<close>

definition scan_hex :: "string \<Rightarrow> string option" where
  "scan_hex s =
     (let (neg, s1) = scan_sign (skip_ws s);
          s2 = (if (starts_with ''0x'' s1 \<or> starts_with ''0X'' s1) \<and> hex_val (hd (drop 2 s1 @ [NUL])) \<noteq> None
                then drop 2 s1 else s1) in
      if hex_val (hd (s2 @ [NUL])) = None then None else Some (dropWhile (\<lambda>c. hex_val c \<noteq> None) s2))"

text \<open>\<^verbatim>\<open>sscanf(pl, "p%u 0x%x %llu %llu", ...) >= 3\<close>; a missing size stays 0.\<close>

definition scan_part :: "string \<Rightarrow> (int \<times> u64 \<times> u64) option" where
  "scan_part pl =
     (case pl of [] \<Rightarrow> None | c # s1 \<Rightarrow>
        if c \<noteq> CHR ''p'' then None
        else case scan_uint s1 of None \<Rightarrow> None | Some (idx, s2) \<Rightarrow>
          let s3 = skip_ws s2 in
          if \<not> starts_with ''0x'' s3 then None
          else case scan_hex (drop 2 s3) of None \<Rightarrow> None | Some s4 \<Rightarrow>
            (case scan_ulong s4 of None \<Rightarrow> None | Some (st, s5) \<Rightarrow>
               Some (sint idx, st, case scan_ulong s5 of None \<Rightarrow> 0 | Some (sz, s6) \<Rightarrow> sz)))"

fun parts_loop :: "'o env \<Rightarrow> nat \<Rightarrow> int \<Rightarrow> int \<Rightarrow> (int \<times> int) option \<Rightarrow> 'o rst \<Rightarrow> (int \<times> int) option \<times> 'o rst" where
  "parts_loop e 0 s want found r = (found, r)"
| "parts_loop e (Suc k) s want found r =
     (case uksd_rl e s 96 r of
        (None, r1) \<Rightarrow> (found, r1)
      | (Some pl, r1) \<Rightarrow>
          parts_loop e k s want
            (case scan_part pl of
               None \<Rightarrow> found
             | Some (idx, st, sz) \<Rightarrow> if idx = want then Some (sint st, sint sz) else found) r1)"

definition ukfs_image_part :: "'o env \<Rightarrow> string \<Rightarrow> int \<Rightarrow> 'o rst \<Rightarrow> (int \<times> int) option \<times> 'o rst" where
  "ukfs_image_part e hostimg want r =
     (let fsname = (case ukfs_alloc_daemon r of None \<Rightarrow> UK_POOL ! 0 | Some p \<Rightarrow> p);
          (s, r1) = ukfs_dconn e fsname r in
      if s < 0 then (None, r1)
      else
        let (found, r2) =
          (case uksd_wn e s (snprintf_n 700 (''PARTS '' @ hostimg @ [LF])) r1 of
             (False, r2) \<Rightarrow> (None, r2)
           | (True, r2) \<Rightarrow>
               (case uksd_rl e s 64 r2 of
                  (None, r3) \<Rightarrow> (None, r3)
                | (Some line, r3) \<Rightarrow>
                    if \<not> starts_with ''OK'' line then (None, r3)
                    else case scan_int (drop 2 line) of
                           None \<Rightarrow> (None, r3)
                         | Some (cnt, _) \<Rightarrow> parts_loop e (nat cnt) s want None r3)) in
        (found, close_fd e s r2))"

section \<open>Loop nodes as mount sources\<close>

text \<open>\<^verbatim>\<open>n = n * 10 + (*d++ - '0')\<close> over a run of digits, in an \<^verbatim>\<open>int\<close>.\<close>

definition digits_s32 :: "string \<Rightarrow> int" where
  "digits_s32 ds = sint (word_of_nat (digits_val ds) :: u32)"

text \<open>The device number and the partition (0 for the whole device); \<open>None\<close> is the result -1.\<close>

definition ukfs_loop_parse :: "string \<Rightarrow> (int \<times> int) option" where
  "ukfs_loop_parse path =
     (let b = basename path; d = drop 4 b; d1 = dropWhile is_digit d in
      if \<not> starts_with ''loop'' b \<or> takeWhile is_digit d = [] then None
      else
        let n = digits_s32 (takeWhile is_digit d) in
        case d1 of
          [] \<Rightarrow> Some (n, 0)
        | c # d2 \<Rightarrow>
            if c \<noteq> CHR ''p'' \<or> takeWhile is_digit d2 = [] \<or> dropWhile is_digit d2 \<noteq> [] then None
            else Some (n, digits_s32 d2))"

definition ukfs_loop_resolve :: "'o env \<Rightarrow> string \<Rightarrow> nat \<Rightarrow> 'o rst \<Rightarrow> (string \<times> int \<times> int) option \<times> 'o rst" where
  "ukfs_loop_resolve e src icap r =
     (case ukfs_loop_parse src of
        None \<Rightarrow> (None, r)
      | Some (n, part) \<Rightarrow>
          let L = g_lo r ! nat n in
          if n < 0 \<or> int UK_NLOOP \<le> n \<or> \<not> lo_used L \<or> lo_img L = [] then (None, r)
          else if part = 0 then (Some (snprintf_n icap (lo_img L), lo_off L, lo_sizelimit L), r)
          else case ukfs_image_part e (lo_img L) part r of
            (None, r1) \<Rightarrow> (None, r1)
          | (Some (ps, pz), r1) \<Rightarrow> (Some (snprintf_n icap (lo_img L), s64 (lo_off L + ps), pz), r1))"

definition ukfs_register_any :: "'o env \<Rightarrow> string \<Rightarrow> string \<Rightarrow> 'o rst \<Rightarrow> nat option \<times> 'o rst" where
  "ukfs_register_any e src tgt r =
     (if ukfs_src_is_dev src then ukfs_mount_register src tgt r
      else case ukfs_loop_resolve e src 600 r of
        (None, r1) \<Rightarrow> (None, r1)
      | (Some (img, base, sz), r1) \<Rightarrow> ukm_register tgt img base sz True r1)"

definition ukfs_src_mountable :: "'o env \<Rightarrow> string \<Rightarrow> 'o rst \<Rightarrow> bool \<times> 'o rst" where
  "ukfs_src_mountable e src r =
     (if ukfs_src_is_dev src then (True, r)
      else let (x, r1) = ukfs_loop_resolve e src 600 r in (x \<noteq> None, r1))"

definition ukfs_loop_node_size :: "'o env \<Rightarrow> string \<Rightarrow> 'o rst \<Rightarrow> int \<times> 'o rst" where
  "ukfs_loop_node_size e gpath r =
     (case ukfs_loop_resolve e gpath 600 r of
        (None, r1) \<Rightarrow> (- 1, r1)
      | (Some (img, base, sz), r1) \<Rightarrow>
          (if 0 < sz then sz
           else case env_stsize e img (st_os r1) of None \<Rightarrow> - 1 | Some n \<Rightarrow> s64 (n - base), r1))"

section \<open>The loop ioctls\<close>

abbreviation UK_LOOP_SET_FD :: u64 where "UK_LOOP_SET_FD \<equiv> 0x4C00"
abbreviation UK_LOOP_CLR_FD :: u64 where "UK_LOOP_CLR_FD \<equiv> 0x4C01"
abbreviation UK_LOOP_SET_STATUS :: u64 where "UK_LOOP_SET_STATUS \<equiv> 0x4C02"
abbreviation UK_LOOP_SET_STATUS64 :: u64 where "UK_LOOP_SET_STATUS64 \<equiv> 0x4C04"
abbreviation UK_LOOP_GET_STATUS64 :: u64 where "UK_LOOP_GET_STATUS64 \<equiv> 0x4C05"
abbreviation UK_LOOP_SET_CAPACITY :: u64 where "UK_LOOP_SET_CAPACITY \<equiv> 0x4C07"
abbreviation UK_LOOP_SET_DIRECT_IO :: u64 where "UK_LOOP_SET_DIRECT_IO \<equiv> 0x4C08"
abbreviation UK_LOOP_SET_BLOCK_SIZE :: u64 where "UK_LOOP_SET_BLOCK_SIZE \<equiv> 0x4C09"
abbreviation UK_LOOP_CONFIGURE :: u64 where "UK_LOOP_CONFIGURE \<equiv> 0x4C0A"
abbreviation UK_LOOP_CTL_ADD :: u64 where "UK_LOOP_CTL_ADD \<equiv> 0x4C80"
abbreviation UK_LOOP_CTL_REMOVE :: u64 where "UK_LOOP_CTL_REMOVE \<equiv> 0x4C81"
abbreviation UK_LOOP_CTL_GET_FREE :: u64 where "UK_LOOP_CTL_GET_FREE \<equiv> 0x4C82"

abbreviation UK_LO_FLAGS_PARTSCAN :: u32 where "UK_LO_FLAGS_PARTSCAN \<equiv> 8"

definition ukfs_fd_hostpath :: "'o env \<Rightarrow> int \<Rightarrow> int \<Rightarrow> nat \<Rightarrow> 'o rst \<Rightarrow> string option" where
  "ukfs_fd_hostpath e t fd cap r =
     (case env_readlink e t fd (st_os r) of
        None \<Rightarrow> None
      | Some p \<Rightarrow> if take (cap - 1) p = [] then None else Some (take (cap - 1) p))"

definition upd_lo :: "nat \<Rightarrow> (uklo \<Rightarrow> uklo) \<Rightarrow> 'o rst \<Rightarrow> 'o rst" where
  "upd_lo n f r = r\<lparr>g_lo := (g_lo r)[n := f (g_lo r ! n)]\<rparr>"

text \<open>\<^verbatim>\<open>/dev/loop-control\<close>; the first component tells whether the call was handled.\<close>

definition loop_control :: "int \<Rightarrow> u64 \<Rightarrow> u64 \<Rightarrow> 'o rst \<Rightarrow> bool \<times> 'o rst" where
  "loop_control t cmd arg r =
     (let i = reg_int arg in
      if cmd = UK_LOOP_CTL_GET_FREE then
        (case find_idx (\<lambda>L. \<not> lo_used L) (g_lo r) of
           Some n \<Rightarrow> (True, poke_void t (int n) (upd_lo n (\<lambda>_. uklo_zero\<lparr>lo_used := True\<rparr>) r))
         | None \<Rightarrow> (True, poke_void t (- ENODEV) r))
      else if cmd = UK_LOOP_CTL_ADD then
        (True, if 0 \<le> i \<and> i < int UK_NLOOP
               then poke_void t i (upd_lo (nat i) (\<lambda>_. uklo_zero\<lparr>lo_used := True\<rparr>) r)
               else poke_void t (- EINVAL) r)
      else if cmd = UK_LOOP_CTL_REMOVE then
        (True, poke_void t 0 (if 0 \<le> i \<and> i < int UK_NLOOP then upd_lo (nat i) (\<lambda>L. L\<lparr>lo_used := False\<rparr>) r else r))
      else (False, r))"

text \<open>\<^verbatim>\<open>struct loop_info64\<close> as the status call fills it.\<close>

definition loop_info :: "nat \<Rightarrow> uklo \<Rightarrow> bytes" where
  "loop_info n L =
     put_at 56 (snprintf_n 64 (lo_img L) @ [NUL])
       (put_at 40 (le32 (word_of_nat n))
         (put_at 32 (le64 (word_of_int (lo_sizelimit L)))
           (put_at 24 (le64 (word_of_int (lo_off L))) (replicate 232 NUL))))"

text \<open>The binding calls on \<^verbatim>\<open>/dev/loopN\<close>.\<close>

definition loop_set_fd :: "'o env \<Rightarrow> int \<Rightarrow> nat \<Rightarrow> u64 \<Rightarrow> 'o rst \<Rightarrow> 'o rst" where
  "loop_set_fd e t n arg r =
     (case ukfs_fd_hostpath e t (reg_int arg) PATH_MAX r of
        None \<Rightarrow> poke_void t (- EBADF) r
      | Some ip \<Rightarrow>
          poke_void t 0 ((upd_lo n (\<lambda>L. L\<lparr>lo_used := True, lo_off := 0, lo_sizelimit := 0, lo_partscan := False,
            lo_img := snprintf_n 600 ip\<rparr>) r)\<lparr>g_lo_any := True\<rparr>))"

definition loop_configure :: "'o env \<Rightarrow> int \<Rightarrow> nat \<Rightarrow> u64 \<Rightarrow> 'o rst \<Rightarrow> 'o rst" where
  "loop_configure e t n arg r =
     (case read_data t arg 72 r of
        None \<Rightarrow> poke_void t (- EFAULT) r
      | Some cfg \<Rightarrow>
          (case ukfs_fd_hostpath e t (sint (get32 0 cfg)) PATH_MAX r of
             None \<Rightarrow> poke_void t (- EBADF) r
           | Some ip \<Rightarrow>
               poke_void t 0 ((upd_lo n (\<lambda>L. L\<lparr>lo_used := True, lo_img := snprintf_n 600 ip,
                 lo_off := sint (get64 32 cfg), lo_sizelimit := sint (get64 40 cfg),
                 lo_partscan := (get32 60 cfg AND UK_LO_FLAGS_PARTSCAN \<noteq> 0)\<rparr>) r)\<lparr>g_lo_any := True\<rparr>)))"

definition loop_set_status :: "int \<Rightarrow> nat \<Rightarrow> u64 \<Rightarrow> 'o rst \<Rightarrow> 'o rst" where
  "loop_set_status t n arg r =
     (case read_data t arg 56 r of
        None \<Rightarrow> poke_void t (- EFAULT) r
      | Some info \<Rightarrow>
          poke_void t 0 (upd_lo n (\<lambda>L. L\<lparr>lo_off := sint (get64 24 info), lo_sizelimit := sint (get64 32 info),
            lo_partscan := (get32 52 info AND UK_LO_FLAGS_PARTSCAN \<noteq> 0 \<or> lo_partscan L)\<rparr>) r))"

definition loop_get_status :: "int \<Rightarrow> nat \<Rightarrow> u64 \<Rightarrow> 'o rst \<Rightarrow> 'o rst" where
  "loop_get_status t n arg r =
     (if t_map r t arg 232 then poke_void t 0 (write_data t arg (loop_info n (g_lo r ! n)) r)
      else poke_void t (- EFAULT) r)"

definition loop_command :: "'o env \<Rightarrow> int \<Rightarrow> nat \<Rightarrow> u64 \<Rightarrow> u64 \<Rightarrow> 'o rst \<Rightarrow> bool \<times> 'o rst" where
  "loop_command e t n cmd arg r =
     (if cmd = UK_LOOP_SET_FD then (True, loop_set_fd e t n arg r)
      else if cmd = UK_LOOP_CONFIGURE then (True, loop_configure e t n arg r)
      else if cmd = UK_LOOP_SET_STATUS \<or> cmd = UK_LOOP_SET_STATUS64 then (True, loop_set_status t n arg r)
      else if cmd = UK_LOOP_GET_STATUS64 then (True, loop_get_status t n arg r)
      else if cmd = UK_LOOP_CLR_FD then (True, poke_void t 0 (upd_lo n (\<lambda>L. L\<lparr>lo_used := False, lo_img := []\<rparr>) r))
      else if cmd = UK_LOOP_SET_CAPACITY \<or> cmd = UK_LOOP_SET_DIRECT_IO \<or> cmd = UK_LOOP_SET_BLOCK_SIZE
      then (True, poke_void t 0 r)
      else (False, r))"

definition ukfs_loop_ioctl :: "'o env \<Rightarrow> int \<Rightarrow> 'o rst \<Rightarrow> bool \<times> 'o rst" where
  "ukfs_loop_ioctl e t r =
     (let cmd = t_arg r t 2; fd = reg_int (t_arg r t 1); arg = t_arg r t 3 in
      if cmd AND 0xFF00 \<noteq> 0x4C00 then (False, r)
      else case ukfs_fd_hostpath e t fd PATH_MAX r of
        None \<Rightarrow> (False, r)
      | Some pp \<Rightarrow>
          let b = basename pp in
          if b = ''loop-control'' then loop_control t cmd arg r
          else case ukfs_loop_parse b of
            None \<Rightarrow> (False, r)
          | Some (n, part) \<Rightarrow>
              if n < 0 \<or> part \<noteq> 0 \<or> int UK_NLOOP \<le> n then (False, r)
              else loop_command e t (nat n) cmd arg r)"

section \<open>Raw I/O on a loop node\<close>

definition uklofd_find :: "int \<Rightarrow> int \<Rightarrow> 'o rst \<Rightarrow> nat option" where
  "uklofd_find pid fd r = find_idx (\<lambda>x. lf_used x \<and> lf_pid x = pid \<and> lf_fd x = fd) (g_lofd r)"

definition upd_lofd :: "nat \<Rightarrow> (uklofd \<Rightarrow> uklofd) \<Rightarrow> 'o rst \<Rightarrow> 'o rst" where
  "upd_lofd i f r = r\<lparr>g_lofd := (g_lofd r)[i := f (g_lofd r ! i)]\<rparr>"

text \<open>The size the marker node reports: the range, or what is left of the image.\<close>

definition mark_node :: "'o env \<Rightarrow> string \<Rightarrow> nat \<Rightarrow> int \<Rightarrow> int \<Rightarrow> int \<Rightarrow> 'o rst \<Rightarrow> 'o rst" where
  "mark_node e gpath i hf base sz r =
     (let marklen = (if sz \<le> 0 then (case env_fsize e hf (st_os r) of None \<Rightarrow> sz | Some n \<Rightarrow> s64 (n - base)) else sz) in
      if marklen \<le> 0 then r
      else
        let (mf, o1) = env_open e gpath RdWr (st_os r);
            o2 = (if 0 \<le> mf then env_close e mf (snd (env_ftruncate e mf marklen o1)) else o1) in
        upd_lofd i (\<lambda>x. x\<lparr>lf_size := marklen\<rparr>) (os_upd r o2))"

definition open_image :: "'o env \<Rightarrow> string \<Rightarrow> 'o rst \<Rightarrow> int \<times> 'o rst" where
  "open_image e img r =
     (let (hf, o1) = env_open e img RdWr (st_os r);
          (hf', o2) = (if hf < 0 then env_open e img Rd o1 else (hf, o1)) in
      (hf', os_upd r o2))"

definition uklofd_record :: "'o env \<Rightarrow> int \<Rightarrow> int \<Rightarrow> string \<Rightarrow> 'o rst \<Rightarrow> 'o rst" where
  "uklofd_record e t fd gpath r =
     (if \<not> g_lo_any r then r
      else case ukfs_loop_parse gpath of None \<Rightarrow> r
      | Some (n, part) \<Rightarrow>
        if n < 0 then r
        else case ukfs_loop_resolve e gpath 600 r of
          (None, r1) \<Rightarrow> r1
        | (Some (img, base, sz), r1) \<Rightarrow>
            let (hf, r2) = open_image e img r1 in
            if hf < 0 then r2
            else
              let (pid, r3) = ukfs_tgid e t r2;
                  old = uklofd_find pid fd r3;
                  r4 = (case old of None \<Rightarrow> r3 | Some i \<Rightarrow> close_fd e (lf_hostfd (g_lofd r3 ! i)) r3) in
              case (case old of Some i \<Rightarrow> Some i | None \<Rightarrow> find_idx (\<lambda>x. \<not> lf_used x) (g_lofd r4)) of
                None \<Rightarrow> close_fd e hf r4
              | Some i \<Rightarrow>
                  mark_node e gpath i hf base sz
                    (upd_lofd i (\<lambda>x. x\<lparr>lf_used := True, lf_pid := pid, lf_fd := fd, lf_hostfd := hf,
                       lf_base := base, lf_size := sz, lf_cur := 0\<rparr>) r4))"

text \<open>The geometry calls, answered from the range of the node (C division rounds towards 0).\<close>

definition blk_ioctl :: "int \<Rightarrow> u64 \<Rightarrow> u64 \<Rightarrow> int \<Rightarrow> 'o rst \<Rightarrow> bool \<times> 'o rst" where
  "blk_ioctl t cmd arg avail r =
     (if cmd = 0x80081272 then (True, poke_void t 0 (write_data t arg (le64 (word_of_int avail)) r))
      else if cmd = 0x1260 then
        (True, poke_void t 0 (write_data t arg
           (le64 (word_of_int (if avail < 0 then - ((- avail) div 512) else avail div 512))) r))
      else if cmd = 0x1268 \<or> cmd = 0x127B \<or> cmd = 0x1278 then (True, poke_void t 0 (write_data t arg (le32 512) r))
      else if cmd = 0x1279 \<or> cmd = 0x127A then (True, poke_void t 0 (write_data t arg (le32 0) r))
      else if cmd = 0x125F \<or> cmd = 0x1261 \<or> cmd = 0x127C then (True, poke_void t 0 r)
      else (False, r))"

definition loop_lseek :: "int \<Rightarrow> nat \<Rightarrow> int \<Rightarrow> int \<Rightarrow> 'o rst \<Rightarrow> 'o rst" where
  "loop_lseek t i off whence r =
     (let x = g_lofd r ! i; avail = lf_size x;
          np = (if whence = 1 then s64 (lf_cur x + off) else if whence = 2 \<and> 0 < avail then s64 (avail + off) else off) in
      if np < 0 then poke_void t (- 22) r
      else poke_void t np (upd_lofd i (\<lambda>x. x\<lparr>lf_cur := np\<rparr>) r))"

text \<open>The length a transfer at \<open>pos\<close> is cut to.\<close>

definition loop_len :: "int \<Rightarrow> int \<Rightarrow> u64 \<Rightarrow> u64" where
  "loop_len avail pos len =
     (let len1 = (if 0 < avail \<and> avail < s64 (pos + sint len)
                  then (if pos < avail then word_of_int (avail - pos) else 0) else len) in
      if 0x800000 < len1 then 0x800000 else len1)"

text \<open>The end of a transfer that moved \<open>k\<close> bytes, or failed.\<close>

definition loop_end :: "int \<Rightarrow> nat \<Rightarrow> sysnr \<Rightarrow> int \<Rightarrow> int \<Rightarrow> 'o rst \<Rightarrow> 'o rst" where
  "loop_end t i nr pos k r =
     (if k < 0 then poke_void t (- 5) r
      else poke_void t k (if nr = PR_read \<or> nr = PR_write then upd_lofd i (\<lambda>x. x\<lparr>lf_cur := s64 (pos + k)\<rparr>) r else r))"

definition loop_rw :: "'o env \<Rightarrow> int \<Rightarrow> nat \<Rightarrow> sysnr \<Rightarrow> 'o rst \<Rightarrow> bool \<times> 'o rst" where
  "loop_rw e t i nr r =
     (let x = g_lofd r ! i;
          isread = (nr = PR_read \<or> nr = PR_pread64);
          pos = (if nr = PR_pread64 \<or> nr = PR_pwrite64 then sint (t_arg r t 4) else lf_cur x);
          ubuf = t_arg r t 2;
          len = loop_len (lf_size x) pos (t_arg r t 3);
          hpos = s64 (lf_base x + pos) in
      if len = 0 then (True, poke_void t 0 r)
      else case env_alloc e (unat len) (st_os r) of
        (False, o1) \<Rightarrow> (False, os_upd r o1)
      | (True, o1) \<Rightarrow>
          let r1 = os_upd r o1 in
          if isread then
            (case env_pread e (lf_hostfd x) (unat len) hpos o1 of
               (None, o2) \<Rightarrow> (True, loop_end t i nr pos (- 1) (os_upd r1 o2))
             | (Some d, o2) \<Rightarrow>
                 (True, loop_end t i nr pos (int (length d))
                    (if d = [] then os_upd r1 o2 else write_data t ubuf d (os_upd r1 o2))))
          else
            (case read_data t ubuf (unat len) r1 of
               None \<Rightarrow> (True, poke_void t (- 14) r1)
             | Some d \<Rightarrow>
                 let (k, o2) = env_pwrite e (lf_hostfd x) d hpos o1 in (True, loop_end t i nr pos k (os_upd r1 o2))))"

definition ukfs_loopfd_op :: "'o env \<Rightarrow> int \<Rightarrow> sysnr \<Rightarrow> 'o rst \<Rightarrow> bool \<times> 'o rst" where
  "ukfs_loopfd_op e t nr r =
     (if \<not> g_lo_any r \<or> nr \<notin> {PR_read, PR_pread64, PR_write, PR_pwrite64, PR_lseek, PR_close, PR_ioctl} then (False, r)
      else
        let (pid, r1) = ukfs_tgid e t r; fd = reg_int (t_arg r t 1) in
        case uklofd_find pid fd r1 of
          None \<Rightarrow> (False, r1)
        | Some i \<Rightarrow>
            let x = g_lofd r1 ! i in
            if nr = PR_close then (False, upd_lofd i (\<lambda>x. x\<lparr>lf_used := False\<rparr>) (close_fd e (lf_hostfd x) r1))
            else if nr = PR_ioctl then blk_ioctl t (t_arg r t 2) (t_arg r t 3) (lf_size x) r1
            else if nr = PR_lseek then (True, loop_lseek t i (sint (t_arg r t 2)) (reg_int (t_arg r t 3)) r1)
            else loop_rw e t i nr r1)"

end
