(* ===== verification/LoopProps.thy ===== *)
theory LoopProps
  imports LoopDev
begin

text \<open>
  Properties of the loop devices: what is configured is what is mounted and reported, and
  transfers on a loop node stay inside its range of the image.
\<close>

section \<open>Definitions\<close>

text \<open>The same environment with the host file cut to the bytes from \<open>a\<close> to \<open>b\<close>.\<close>

definition guard_env :: "int \<Rightarrow> int \<Rightarrow> 'o env \<Rightarrow> 'o env" where
  "guard_env a b e =
     e\<lparr>env_pread := (\<lambda>fd n off os. if a \<le> off \<and> off + int n \<le> b then env_pread e fd n off os else (None, os)),
       env_pwrite := (\<lambda>fd d off os. if a \<le> off \<and> off + int (length d) \<le> b then env_pwrite e fd d off os else (- 1, os))\<rparr>"

text \<open>The position a read or write starts at.\<close>

definition loop_pos :: "int \<Rightarrow> sysnr \<Rightarrow> uklofd \<Rightarrow> 'o rst \<Rightarrow> int" where
  "loop_pos t nr x r = (if nr = PR_pread64 \<or> nr = PR_pwrite64 then sint (t_arg r t 4) else lf_cur x)"

section \<open>Words\<close>

lemma s64_id: "- (2 ^ 63) \<le> i \<Longrightarrow> i < 2 ^ 63 \<Longrightarrow> s64 i = i"
  by (simp add: s64_def sint_sbintrunc' signed_take_bit_int_eq_self)

lemma sint_u64_bounds: "- (2 ^ 63) \<le> sint (w :: u64)" "sint (w :: u64) < 2 ^ 63"
  using sint_greater_eq [of w] sint_less [of w] by simp_all

lemma sint_nonneg_unat: "0 \<le> sint (w :: u64) \<Longrightarrow> sint w = int (unat w)"
  using sint_u64_bounds(2) [of w] by (simp add: uint_sint [of w] take_bit_int_eq_self unat_eq_nat_uint)

section \<open>Transfers stay inside the range\<close>

lemma loop_len_le: "unat (loop_len avail pos len) \<le> 8388608"
  by (simp add: loop_len_def Let_def word_less_nat_alt)

lemma loop_len_inside:
  assumes "0 < avail" and "avail < 2 ^ 63" and "0 \<le> pos" and "0 \<le> sint len" and "pos + sint len < 2 ^ 63"
    and "loop_len avail pos len \<noteq> 0"
  shows "pos + int (unat (loop_len avail pos len)) \<le> avail"
proof -
  have s: "s64 (pos + sint len) = pos + sint len" using assms by (simp add: s64_id)
  show ?thesis
  proof (cases "avail < pos + sint len")
    case True
    then have "pos < avail" using assms s by (auto simp: loop_len_def Let_def split: if_splits)
    have "uint (word_of_int (avail - pos) :: u64) = avail - pos"
      unfolding uint_word_of_int_eq by (rule take_bit_int_eq_self) (use assms \<open>pos < avail\<close> in simp_all)
    with True \<open>pos < avail\<close> s assms(1) show ?thesis
      by (auto simp: loop_len_def Let_def word_less_def)
  next
    case False
    with s sint_nonneg_unat [OF assms(4)] show ?thesis by (auto simp: loop_len_def Let_def word_less_def)
  qed
qed

lemma guard_env_simps [simp]:
  "env_alloc (guard_env a b e) = env_alloc e" "env_close (guard_env a b e) = env_close e"
  "env_status (guard_env a b e) = env_status e"
  "env_pread (guard_env a b e) fd n off os = (if a \<le> off \<and> off + int n \<le> b then env_pread e fd n off os else (None, os))"
  "env_pwrite (guard_env a b e) fd d off os = (if a \<le> off \<and> off + int (length d) \<le> b then env_pwrite e fd d off os else (- 1, os))"
  by (simp_all add: guard_env_def)

lemma guard_tgid [simp]: "ukfs_tgid (guard_env a b e) = ukfs_tgid e"
  by (rule ext)+ (simp add: ukfs_tgid_def proc_field_def split: option.split)

lemma length_read_data: "read_data t a n r = Some d \<Longrightarrow> length d = n"
  by (auto simp: read_data_def split: if_splits)

lemma read_data_poke: "read_data p a n (poke_void q v r) = read_data p a n r"
  by (simp add: read_data_def poke_void_def)

lemma loop_rw_guard:
  assumes x: "g_lofd r ! i = x" and b: "0 < lf_size x" "0 \<le> lf_base x" "lf_base x + lf_size x < 2 ^ 63"
    and p: "0 \<le> loop_pos t nr x r" "0 \<le> sint (t_arg r t 3)" "loop_pos t nr x r + sint (t_arg r t 3) < 2 ^ 63"
  shows "loop_rw (guard_env (lf_base x) (lf_base x + lf_size x) e) t i nr r = loop_rw e t i nr r"
proof -
  define pos where "pos = loop_pos t nr x r"
  define len where "len = loop_len (lf_size x) pos (t_arg r t 3)"
  have pos: "(if nr = PR_pread64 \<or> nr = PR_pwrite64 then sint (t_arg r t 4) else lf_cur x) = pos"
    by (simp add: pos_def loop_pos_def)
  show ?thesis
  proof (cases "len = 0")
    case True
    then show ?thesis by (simp add: loop_rw_def Let_def x pos len_def cong: if_cong)
  next
    case False
    have i: "pos + int (unat len) \<le> lf_size x" unfolding len_def
      by (rule loop_len_inside) (use b p False in \<open>simp_all add: pos_def len_def\<close>)
    have p0: "0 \<le> pos" using p by (simp add: pos_def)
    from i have "pos \<le> lf_size x" by linarith
    with p0 b have h: "s64 (lf_base x + pos) = lf_base x + pos" by (intro s64_id) simp_all
    obtain ok o1 where a: "env_alloc e (unat len) (st_os r) = (ok, o1)" by (rule prod.exhaust)
    have w: "length d = unat len" if "read_data t (t_arg r t 2) (unat len) (os_upd r o1) = Some d" for d
      using that by (rule length_read_data)
    show ?thesis
      unfolding loop_rw_def Let_def x pos len_def [symmetric] h guard_env_simps(1) a
      by (cases ok; cases "read_data t (t_arg r t 2) (unat len) (os_upd r o1)") (use i p0 in \<open>simp_all add: w\<close>)
  qed
qed

lemma tgid_lofd [simp]:
  "g_lofd (snd (ukfs_tgid e t r)) = g_lofd r" "t_arg (snd (ukfs_tgid e t r)) = t_arg r"
  "g_lo_any (snd (ukfs_tgid e t r)) = g_lo_any r"
  by (simp_all add: ukfs_tgid_def Let_def split: option.split)

section \<open>The status block\<close>

lemma length_loop_info [simp]: "length (loop_info n L) = 232"
  using length_snprintf_n_le [of 64 "lo_img L"] by (simp add: loop_info_def)

lemma loop_info_off: "get64 24 (loop_info n L) = word_of_int (lo_off L)"
  using length_snprintf_n_le [of 64 "lo_img L"]
  by (simp add: loop_info_def get64_put_other get64_put_same)

lemma loop_info_size: "get64 32 (loop_info n L) = word_of_int (lo_sizelimit L)"
  using length_snprintf_n_le [of 64 "lo_img L"]
  by (simp add: loop_info_def get64_put_other get64_put_same)

lemma loop_info_number: "get32 40 (loop_info n L) = word_of_nat n"
  using length_snprintf_n_le [of 64 "lo_img L"]
  by (simp add: loop_info_def get32_put_other get32_put_same)

lemma loop_info_name: "NUL \<notin> set (lo_img L) \<Longrightarrow> cstr (drop 56 (loop_info n L)) = snprintf_n 64 (lo_img L)"
  using length_snprintf_n_le [of 64 "lo_img L"] set_take_subset [of 63 "lo_img L"]
  by (auto simp: loop_info_def put_at_def snprintf_n_def intro!: cstr_append_NUL)

section \<open>Properties\<close>

text \<open>
  C19. A transfer on a loop node never leaves the node's range of the image: for a node whose
  range lies within the file, a read or write at a position that is not negative and
  whose end is representable behaves the same if the host file is cut to that range.
\<close>

theorem loop_io_stays_in_range:
  assumes "uklofd_find (fst (ukfs_tgid e t r)) (reg_int (t_arg r t 1)) r = Some i" and "g_lofd r ! i = x"
    and "0 < lf_size x" "0 \<le> lf_base x" "lf_base x + lf_size x < 2 ^ 63"
    and "0 \<le> loop_pos t nr x r" "0 \<le> sint (t_arg r t 3)" "loop_pos t nr x r + sint (t_arg r t 3) < 2 ^ 63"
  shows "ukfs_loopfd_op (guard_env (lf_base x) (lf_base x + lf_size x) e) t nr r = ukfs_loopfd_op e t nr r"
proof -
  obtain pid r1 where t: "ukfs_tgid e t r = (pid, r1)" by (rule prod.exhaust)
  have f: "g_lofd r1 = g_lofd r" "t_arg r1 = t_arg r" using tgid_lofd [of e t r] t by simp_all
  have lp: "loop_pos t nr x r1 = loop_pos t nr x r" by (simp add: loop_pos_def f)
  have "uklofd_find pid (reg_int (t_arg r t 1)) r1 = Some i" using assms(1) t f by (simp add: uklofd_find_def)
  moreover have "loop_rw (guard_env (lf_base x) (lf_base x + lf_size x) e) t i nr r1 = loop_rw e t i nr r1"
    by (rule loop_rw_guard) (use assms f lp in simp_all)
  ultimately show ?thesis by (simp add: ukfs_loopfd_op_def t close_fd_def f assms(2))
qed

text \<open>A process with one open loop node: bytes 1024 to 5119 of the image behind descriptor 7.\<close>

definition loop_node :: uklofd where
  "loop_node = \<lparr>lf_used = True, lf_pid = 5, lf_fd = 3, lf_hostfd = 7, lf_base = 1024, lf_size = 4096, lf_cur = 0\<rparr>"

definition loop_state :: "(nat \<Rightarrow> u64) \<Rightarrow> unit rst" where
  "loop_state args = (rst_init (\<lambda>_ _. CHR ''x'') (\<lambda>_ _ _. True) ())
     \<lparr>g_lo_any := True, g_lofd := (replicate 64 uklofd_zero)[0 := loop_node], t_arg := (\<lambda>_. args)\<rparr>"

lemma loop_state_find:
  "reg_int (args 1) = 3 \<Longrightarrow> uklofd_find (fst (ukfs_tgid null_env 5 (loop_state args))) (reg_int (t_arg (loop_state args) 5 1)) (loop_state args) = Some 0"
  by (simp add: uklofd_find_def loop_state_def rst_init_def ukfs_tgid_def proc_field_def null_env_def loop_node_def Let_def)

theorem loop_io_stays_in_range_witness:
  "ukfs_loopfd_op (guard_env 1024 5120 null_env) 5 PR_read (loop_state ((\<lambda>_. 3)(3 := 9000))) =
   ukfs_loopfd_op null_env 5 PR_read (loop_state ((\<lambda>_. 3)(3 := 9000)))"
proof -
  let ?r = "loop_state ((\<lambda>_. 3)(3 := 9000))"
  have "g_lofd ?r ! 0 = loop_node" "t_arg ?r 5 3 = 9000" by (simp_all add: loop_state_def)
  with loop_io_stays_in_range [OF loop_state_find, of "(\<lambda>_. 3)(3 := 9000)" loop_node PR_read]
  show ?thesis by (simp add: reg_int_def loop_node_def loop_pos_def)
qed

text \<open>
  A positioned read with a negative offset leaves the range of its loop node: it returns
  bytes of the image that lie before the node's first byte (the next partition's
  neighbour, or the partition table), where a block device fails with EINVAL.
\<close>

theorem loop_pread_before_range:
  assumes "g_lofd r ! i = x" and "sint (t_arg r t 4) < 0" and "0 \<le> lf_base x + sint (t_arg r t 4)" and "lf_base x < 2 ^ 63"
    and "0 < lf_size x" and "0 < sint (t_arg r t 3)" and "sint (t_arg r t 3) \<le> 0x800000" and "sint (t_arg r t 3) \<le> lf_size x"
    and "env_alloc e (unat (t_arg r t 3)) (st_os r) = (True, o1)"
    and "env_pread e (lf_hostfd x) (unat (t_arg r t 3)) (lf_base x + sint (t_arg r t 4)) o1 = (Some d, o2)" and "d \<noteq> []"
  shows "loop_rw e t i PR_pread64 r =
    (True, poke_void t (int (length d)) (write_data t (t_arg r t 2) d (os_upd (os_upd r o1) o2)))"
proof -
  let ?p = "sint (t_arg r t 4)" and ?n = "t_arg r t 3"
  have "s64 (?p + sint ?n) = ?p + sint ?n" by (rule s64_id) (use assms(2,6,7) sint_u64_bounds(1) [of "t_arg r t 4"] in simp_all)
  moreover have "sint ?n = int (unat ?n)" using assms(6) by (simp add: sint_nonneg_unat)
  ultimately have l: "loop_len (lf_size x) ?p ?n = ?n" using assms(2,6,7,8)
    by (auto simp: loop_len_def Let_def word_less_def)
  have h: "s64 (lf_base x + ?p) = lf_base x + ?p" by (rule s64_id) (use assms(2-4) in simp_all)
  have "?n \<noteq> 0" using assms(6) by auto
  then show ?thesis by (simp add: loop_rw_def assms(1) l h assms(9-11) loop_end_def)
qed

text \<open>A host file with some bytes at offset 0.\<close>

definition host_env :: "unit env" where
  "host_env = null_env\<lparr>env_pread := (\<lambda>fd n off os. (if off = 0 then Some ''EFI PART'' else None, os)),
     env_readlink := (\<lambda>pid fd os. Some (if fd = 3 then ''/dev/loop2'' else ''/sdcard/d.img''))\<rparr>"

theorem loop_pread_before_range_witness:
  "t_res (snd (loop_rw host_env 5 0 PR_pread64 (loop_state ((\<lambda>_. 3)(3 := 512, 4 := - 1024))))) 5 = 8"
proof -
  let ?a = "(\<lambda>_. 3)(3 := 512, 4 := - 1024)"
  have g: "g_lofd (loop_state ?a) ! 0 = loop_node" "t_arg (loop_state ?a) 5 3 = 512" "t_arg (loop_state ?a) 5 4 = - 1024"
    by (simp_all add: loop_state_def)
  have "loop_rw host_env 5 0 PR_pread64 (loop_state ?a) =
    (True, poke_void 5 (int (length ''EFI PART'')) (write_data 5 (t_arg (loop_state ?a) 5 2) ''EFI PART''
       (os_upd (os_upd (loop_state ?a) ()) ())))"
    by (rule loop_pread_before_range [OF g(1)])
       (simp_all add: g(2,3) loop_node_def host_env_def null_env_def)
  then show ?thesis by (simp add: poke_void_def)
qed

text \<open>
  C30. What LOOP_CONFIGURE binds is what is mounted and reported: after it succeeds on a loop
  device, the device resolves as a mount source to the image and the byte range given,
  and LOOP_GET_STATUS64 returns that range, the device's number and the image's name
  (its first 63 bytes).
\<close>

theorem loop_configure_roundtrip:
  assumes "n < UK_NLOOP" and "length (g_lo r) = UK_NLOOP" and "ukfs_loop_parse src = Some (int n, 0)"
    and "read_data t arg 72 r = Some cfg" and "env_readlink e t (sint (get32 0 cfg)) (st_os r) = Some ip"
    and "ip \<noteq> []" and "length ip < 600" and "NUL \<notin> set ip" and "t_map r t buf 232"
  shows "case loop_command e t n UK_LOOP_CONFIGURE arg r of (ok, r1) \<Rightarrow> ok \<and>
    ukfs_loop_resolve e src 600 r1 = (Some (ip, sint (get64 32 cfg), sint (get64 40 cfg)), r1) \<and>
    (case loop_command e t n UK_LOOP_GET_STATUS64 buf r1 of (ok', r2) \<Rightarrow>
       ok' \<and> t_res r2 t = 0 \<and>
       (\<exists>info. read_data t buf 232 r2 = Some info \<and> get64 24 info = get64 32 cfg \<and> get64 32 info = get64 40 cfg \<and>
          get32 40 info = word_of_nat n \<and> cstr (drop 56 info) = snprintf_n 64 ip))"
proof -
  define r1 where "r1 = loop_configure e t n arg r"
  have hp: "ukfs_fd_hostpath e t (sint (get32 0 cfg)) PATH_MAX r = Some ip"
    using assms(5-7) by (simp add: ukfs_fd_hostpath_def PATH_MAX_def)
  have L: "g_lo r1 ! n = \<lparr>lo_used = True, lo_img = ip, lo_off = sint (get64 32 cfg), lo_sizelimit = sint (get64 40 cfg),
      lo_partscan = (get32 60 cfg AND UK_LO_FLAGS_PARTSCAN \<noteq> 0)\<rparr>" and m: "t_map r1 = t_map r"
    using assms(1,2,4,7) hp
    by (simp_all add: r1_def loop_configure_def upd_lo_def poke_void_def snprintf_n_fits)
  let ?info = "loop_info n (g_lo r1 ! n)"
  have "ukfs_loop_resolve e src 600 r1 = (Some (ip, sint (get64 32 cfg), sint (get64 40 cfg)), r1)"
    using assms(1,3,6,7) by (simp add: ukfs_loop_resolve_def L snprintf_n_fits)
  moreover have "read_data t buf 232 (write_data t buf ?info r1) = Some ?info"
    using read_write_data [of r1 t buf ?info] assms(9) m by simp
  then have "read_data t buf 232 (poke_void t 0 (write_data t buf ?info r1)) = Some ?info"
    by (simp add: read_data_poke)
  moreover have "get64 24 ?info = get64 32 cfg" "get64 32 ?info = get64 40 cfg" "get32 40 ?info = word_of_nat n"
    "cstr (drop 56 ?info) = snprintf_n 64 ip"
    using loop_info_name [of "g_lo r1 ! n" n] assms(8)
    by (simp_all add: loop_info_off loop_info_size loop_info_number L)
  ultimately show ?thesis using assms(9) m
    by (simp add: loop_command_def loop_get_status_def r1_def [symmetric]) (simp add: poke_void_def)
qed

theorem loop_configure_roundtrip_witness:
  "fst (ukfs_loop_resolve host_env ''/dev/loop2'' 600
     (snd (loop_command host_env 5 2 UK_LOOP_CONFIGURE 4096 (loop_state (\<lambda>_. 3))))) =
   Some (''/sdcard/d.img'', sint (0x7878787878787878 :: u64), sint (0x7878787878787878 :: u64))"
proof -
  let ?r = "loop_state (\<lambda>_. 3)" and ?cfg = "replicate 72 CHR ''x''"
  have c: "read_data 5 4096 72 ?r = Some ?cfg"
    by (simp add: read_data_def loop_state_def rst_init_def map_replicate_const)
  have rep: "replicate 4 CHR ''x'' = ''xxxx''" "replicate 8 CHR ''x'' = ''xxxxxxxx''" by (simp_all add: numeral_eq_Suc)
  have g: "get32 0 ?cfg = 0x78787878" "get64 32 ?cfg = 0x7878787878787878" "get64 40 ?cfg = 0x7878787878787878"
    by (simp_all add: get32_def get64_def rep)
  have p: "ukfs_loop_parse ''/dev/loop2'' = Some (int 2, 0)"
    by (simp add: ukfs_loop_parse_def basename_def starts_with_def is_digit_def digits_s32_def digits_val_def digit_val_def)
  show ?thesis
    using loop_configure_roundtrip [OF _ _ p c, of host_env "''/sdcard/d.img''" 8192]
    by (simp add: g loop_state_def rst_init_def host_env_def UK_NLOOP_def split: prod.splits)
qed

end
