(* ===== verification/UkClient.thy ===== *)
theory UkClient
  imports LoopDev "HOL-Library.Monad_Syntax"
begin

unbundle bit_operations_syntax

text \<open>
  The file operations of \<^verbatim>\<open>proot/patches/uknl_fs_redirect.c\<close> on the active mount
  (\<open>ukfs_query_stat\<close> to \<open>ukfs_two_path\<close>): a FUSE mount goes through the engine, any other
  through the line protocol of its ukfsd daemon. The blocks \<open>struct stat\<close>,
  \<open>struct statx\<close> and \<open>struct statfs\<close> are written to the guest as bytes.
\<close>

section \<open>Values\<close>

record ukstat =
  qs_mode :: u32
  qs_uid :: u32
  qs_gid :: u32
  qs_size :: int
  qs_ino :: u64
  qs_mtime :: int
  qs_atime :: int
  qs_nlink :: u32
  qs_rdev :: u64
  qs_blocks :: u64

record ukstatfs =
  sf_bsize :: u64
  sf_blocks :: u64
  sf_bfree :: u64
  sf_bavail :: u64
  sf_files :: u64
  sf_ffree :: u64
  sf_namelen :: int
  sf_frsize :: int
  sf_ftype :: int

section \<open>Replies\<close>

text \<open>\<^verbatim>\<open>"OK %..."\<close> and \<^verbatim>\<open>"ERR %d"\<close>\<close>

definition scan_ok :: "string \<Rightarrow> string option" where
  "scan_ok line = (if starts_with ''OK'' line then Some (drop 2 line) else None)"

definition scan_err :: "string \<Rightarrow> int option" where
  "scan_err line = (if starts_with ''ERR'' line then map_option fst (scan_int (drop 3 line)) else None)"

definition scan_stat :: "string \<Rightarrow> ukstat option" where
  "scan_stat line = do {
     s0 \<leftarrow> scan_ok line;
     (mode, s1) \<leftarrow> scan_uint s0;
     (uid, s2) \<leftarrow> scan_uint s1;
     (gid, s3) \<leftarrow> scan_uint s2;
     (sz, s4) \<leftarrow> scan_long s3;
     (ino, s5) \<leftarrow> scan_ulong s4;
     (mtime, s6) \<leftarrow> scan_long s5;
     (atime, s7) \<leftarrow> scan_long s6;
     (nlink, s8) \<leftarrow> scan_uint s7;
     (rdev, s9) \<leftarrow> scan_ulong s8;
     (blocks, s10) \<leftarrow> scan_ulong s9;
     Some \<lparr>qs_mode = mode, qs_uid = uid, qs_gid = gid, qs_size = sz, qs_ino = ino, qs_mtime = mtime,
           qs_atime = atime, qs_nlink = nlink, qs_rdev = rdev, qs_blocks = blocks\<rparr> }"

definition scan_statfs :: "string \<Rightarrow> ukstatfs option" where
  "scan_statfs line = do {
     s0 \<leftarrow> scan_ok line;
     (bsize, s1) \<leftarrow> scan_ulong s0;
     (blocks, s2) \<leftarrow> scan_ulong s1;
     (bfree, s3) \<leftarrow> scan_ulong s2;
     (bavail, s4) \<leftarrow> scan_ulong s3;
     (files, s5) \<leftarrow> scan_ulong s4;
     (ffree, s6) \<leftarrow> scan_ulong s5;
     (namelen, s7) \<leftarrow> scan_long s6;
     (frsize, s8) \<leftarrow> scan_long s7;
     (ftype, s9) \<leftarrow> scan_long s8;
     Some \<lparr>sf_bsize = bsize, sf_blocks = blocks, sf_bfree = bfree, sf_bavail = bavail, sf_files = files,
           sf_ffree = ffree, sf_namelen = namelen, sf_frsize = frsize, sf_ftype = ftype\<rparr> }"

section \<open>One request\<close>

fun wn_all :: "'o env \<Rightarrow> int \<Rightarrow> bytes list \<Rightarrow> 'o rst \<Rightarrow> bool \<times> 'o rst" where
  "wn_all e s [] r = (True, r)"
| "wn_all e s (b # bs) r = (case uksd_wn e s b r of (False, r1) \<Rightarrow> (False, r1) | (True, r1) \<Rightarrow> wn_all e s bs r1)"

text \<open>
  Connect, send the request, read the line that answers it; a transport error drops the
  connection. The socket comes back with the line, for the data that may follow.
\<close>

definition ukfs_ask :: "'o env \<Rightarrow> bytes list \<Rightarrow> nat \<Rightarrow> 'o rst \<Rightarrow> (int \<times> string) option \<times> 'o rst" where
  "ukfs_ask e req lcap r =
     (case ukfs_conn e r of (s, r1) \<Rightarrow>
        if s < 0 then (None, r1)
        else case wn_all e s req r1 of
          (False, r2) \<Rightarrow> (None, ukfs_sdrop e r2)
        | (True, r2) \<Rightarrow>
            (case uksd_rl e s lcap r2 of
               (None, r3) \<Rightarrow> (None, ukfs_sdrop e r3)
             | (Some line, r3) \<Rightarrow> (Some (s, line), r3)))"

text \<open>The reply \<^verbatim>\<open>OK n\<close> and then \<^verbatim>\<open>n\<close> bytes, at most \<open>cap\<close> of which are read.\<close>

definition ukfs_data :: "'o env \<Rightarrow> int \<Rightarrow> string \<Rightarrow> nat \<Rightarrow> 'o rst \<Rightarrow> bytes option \<times> 'o rst" where
  "ukfs_data e s line cap r =
     (case scan_ok line \<bind> scan_long of
        None \<Rightarrow> (None, r)
      | Some (n, _) \<Rightarrow>
          if n < 0 then (None, r)
          else
            let k = min (nat n) cap in
            if k = 0 then (Some [], r)
            else case uksd_rn e s k r of
              (None, r1) \<Rightarrow> (None, ukfs_sdrop e r1)
            | (Some d, r1) \<Rightarrow> (Some d, r1))"

text \<open>The status of a reply without data: 0, the negated errno, or -1.\<close>

definition reply_rc :: "string \<Rightarrow> int" where
  "reply_rc line =
     (if starts_with ''OK'' line then 0 else case scan_err line of None \<Rightarrow> - 1 | Some x \<Rightarrow> - x)"

definition unit_rc :: "int + unit \<Rightarrow> int" where
  "unit_rc x = (case x of Inl rc \<Rightarrow> rc | Inr _ \<Rightarrow> 0)"

section \<open>Operations on the active mount\<close>

text \<open>\<open>Inl (-2)\<close> is "no such file", \<open>Inl (-1)\<close> any other failure.\<close>

definition ukfs_query_stat :: "'o env \<Rightarrow> string \<Rightarrow> 'o rst \<Rightarrow> (int + ukstat) \<times> 'o rst" where
  "ukfs_query_stat e rel r =
     (case fuse_active e r of
        (Some en, r1) \<Rightarrow>
          (case with_eng e en (\<lambda>io. fused_getattr io rel) r1 of
             (Inl rc, r2) \<Rightarrow> (Inl (if rc = - ENOENT then - 2 else - 1), r2)
           | (Inr st, r2) \<Rightarrow>
               (Inr \<lparr>qs_mode = st_mode st, qs_uid = st_uid st, qs_gid = st_gid st, qs_size = st_size st,
                  qs_ino = st_ino st, qs_mtime = st_mtime st, qs_atime = st_atime st, qs_nlink = st_nlink st,
                  qs_rdev = ucast (st_rdev st), qs_blocks = word_of_int (st_blocks st)\<rparr>, r2))
      | (None, r1) \<Rightarrow>
          (case ukfs_ask e [snprintf_n (PATH_MAX + 16) (''STAT '' @ rel @ [LF])] 256 r1 of
             (None, r2) \<Rightarrow> (Inl (- 1), r2)
           | (Some (s, line), r2) \<Rightarrow> (case scan_stat line of None \<Rightarrow> Inl (- 2) | Some q \<Rightarrow> Inr q, r2)))"

definition FUSE_SUPER_MAGIC :: int where "FUSE_SUPER_MAGIC = 0x65735546"

definition ukfs_query_statfs :: "'o env \<Rightarrow> 'o rst \<Rightarrow> ukstatfs option \<times> 'o rst" where
  "ukfs_query_statfs e r =
     (case fuse_active e r of
        (Some en, r1) \<Rightarrow>
          (case with_eng e en (\<lambda>io. fused_statfs io ''/'') r1 of
             (Inl rc, r2) \<Rightarrow> (None, r2)
           | (Inr sv, r2) \<Rightarrow>
               (Some \<lparr>sf_bsize = f_bsize sv, sf_blocks = f_blocks sv, sf_bfree = f_bfree sv, sf_bavail = f_bavail sv,
                  sf_files = f_files sv, sf_ffree = f_ffree sv, sf_namelen = sint (f_namemax sv),
                  sf_frsize = sint (f_frsize sv), sf_ftype = FUSE_SUPER_MAGIC\<rparr>, r2))
      | (None, r1) \<Rightarrow>
          (case ukfs_ask e [''STATFS'' @ [LF]] 224 r1 of
             (None, r2) \<Rightarrow> (None, r2)
           | (Some (s, line), r2) \<Rightarrow> (scan_statfs line, r2)))"

definition ukfs_read_at :: "'o env \<Rightarrow> string \<Rightarrow> int \<Rightarrow> nat \<Rightarrow> 'o rst \<Rightarrow> bytes option \<times> 'o rst" where
  "ukfs_read_at e rel off len r =
     (case fuse_active e r of
        (Some en, r1) \<Rightarrow>
          (case with_eng e en (\<lambda>io. fused_pread io rel len off) r1 of
             (Inl rc, r2) \<Rightarrow> (None, r2) | (Inr d, r2) \<Rightarrow> (Some d, r2))
      | (None, r1) \<Rightarrow>
          (case ukfs_ask e [snprintf_n (PATH_MAX + 48) (''READ '' @ show_int off @ '' '' @ show_nat len @ '' '' @ rel @ [LF])] 64 r1 of
             (None, r2) \<Rightarrow> (None, r2)
           | (Some (s, line), r2) \<Rightarrow> ukfs_data e s line len r2))"

definition ukfs_readlink_at :: "'o env \<Rightarrow> string \<Rightarrow> nat \<Rightarrow> 'o rst \<Rightarrow> bytes option \<times> 'o rst" where
  "ukfs_readlink_at e rel bufsz r =
     (case fuse_active e r of
        (Some en, r1) \<Rightarrow>
          (case with_eng e en (\<lambda>io. fused_readlink io rel PATH_MAX) r1 of
             (Inl rc, r2) \<Rightarrow> (None, r2) | (Inr d, r2) \<Rightarrow> (Some (take bufsz (cstr d)), r2))
      | (None, r1) \<Rightarrow>
          (case ukfs_ask e [snprintf_n (PATH_MAX + 16) (''READLINK '' @ rel @ [LF])] 64 r1 of
             (None, r2) \<Rightarrow> (None, r2)
           | (Some (s, line), r2) \<Rightarrow> ukfs_data e s line bufsz r2))"

text \<open>\<^verbatim>\<open>O_WRONLY | O_CREAT | O_TRUNC\<close>\<close>

definition O_NEWFILE :: int where "O_NEWFILE = 0x241"

definition ukfs_create_at :: "'o env \<Rightarrow> string \<Rightarrow> u32 \<Rightarrow> 'o rst \<Rightarrow> int \<times> 'o rst" where
  "ukfs_create_at e rel mode r =
     (case fuse_active e r of
        (Some en, r1) \<Rightarrow>
          (case with_eng e en (\<lambda>io. fused_create io rel O_NEWFILE mode) r1 of
             (Inl rc, r2) \<Rightarrow> (rc, r2)
           | (Inr fh, r2) \<Rightarrow> (0, snd (with_eng e en (\<lambda>io. fused_release io rel fh) r2)))
      | (None, r1) \<Rightarrow>
          (case ukfs_ask e [snprintf_n (PATH_MAX + 32) (''CREATE '' @ show_nat (unat mode) @ '' '' @ rel @ [LF])] 32 r1 of
             (None, r2) \<Rightarrow> (- 1, r2)
           | (Some (s, line), r2) \<Rightarrow> (reply_rc line, r2)))"

definition ukfs_write_at :: "'o env \<Rightarrow> string \<Rightarrow> int \<Rightarrow> bytes \<Rightarrow> 'o rst \<Rightarrow> int \<times> 'o rst" where
  "ukfs_write_at e rel off buf r =
     (case fuse_active e r of
        (Some en, r1) \<Rightarrow>
          (case with_eng e en (\<lambda>io. fused_pwrite io rel buf off) r1 of
             (Inl rc, r2) \<Rightarrow> (- 1, r2) | (Inr n, r2) \<Rightarrow> (if n < 0 then - 1 else n, r2))
      | (None, r1) \<Rightarrow>
          (case ukfs_ask e [snprintf_n (PATH_MAX + 48)
                  (''WRITE '' @ show_int off @ '' '' @ show_nat (length buf) @ '' '' @ rel @ [LF]), buf] 64 r1 of
             (None, r2) \<Rightarrow> (- 1, r2)
           | (Some (s, line), r2) \<Rightarrow>
               (case scan_ok line \<bind> scan_long of None \<Rightarrow> - 1 | Some (n, _) \<Rightarrow> n, r2)))"

text \<open>\<^verbatim>\<open>sscanf(p, "%u", &a)\<close>, \<open>a\<close> staying 0 if there is no number.\<close>

definition uint_or_0 :: "string \<Rightarrow> u32" where
  "uint_or_0 s = (case scan_uint s of None \<Rightarrow> 0 | Some (v, _) \<Rightarrow> v)"

definition fuse_simple_op :: "string \<Rightarrow> string \<Rightarrow> 'w fio \<Rightarrow> (unit, 'w) op" where
  "fuse_simple_op prefix rel io =
     (if starts_with ''MKDIR '' prefix then
        (let a = uint_or_0 (drop 6 prefix) in fused_mkdir io rel (if a \<noteq> 0 then a else 0x1ED))
      else if starts_with ''RMDIR'' prefix then fused_rmdir io rel
      else if starts_with ''UNLINK'' prefix then fused_unlink io rel
      else if starts_with ''TRUNCATE '' prefix then
        fused_truncate io rel (case scan_long (drop 9 prefix) of None \<Rightarrow> 0 | Some (v, _) \<Rightarrow> v)
      else if starts_with ''CHMOD '' prefix then fused_chmod io rel (uint_or_0 (drop 6 prefix))
      else if starts_with ''CHOWN '' prefix then
        (case scan_uint (drop 6 prefix) of
           None \<Rightarrow> fused_chown io rel 0 0
         | Some (a, rest) \<Rightarrow> fused_chown io rel a (uint_or_0 rest))
      else rret ())"

definition ukfs_simple :: "'o env \<Rightarrow> string \<Rightarrow> string \<Rightarrow> 'o rst \<Rightarrow> int \<times> 'o rst" where
  "ukfs_simple e prefix rel r =
     (case fuse_active e r of
        (Some en, r1) \<Rightarrow> (let (x, r2) = with_eng e en (fuse_simple_op prefix rel) r1 in (unit_rc x, r2))
      | (None, r1) \<Rightarrow>
          (case ukfs_ask e [snprintf_n (PATH_MAX + 64) (prefix @ rel @ [LF])] 64 r1 of
             (None, r2) \<Rightarrow> (- 1, r2)
           | (Some (s, line), r2) \<Rightarrow> (reply_rc line, r2)))"

definition ukfs_two_path :: "'o env \<Rightarrow> string \<Rightarrow> string \<Rightarrow> string \<Rightarrow> 'o rst \<Rightarrow> int \<times> 'o rst" where
  "ukfs_two_path e cmd a b r =
     (case fuse_active e r of
        (Some en, r1) \<Rightarrow>
          if cmd = ''RENAME'' then (let (x, r2) = with_eng e en (\<lambda>io. fused_rename io a b) r1 in (unit_rc x, r2))
          else if cmd = ''SYMLINK'' then (let (x, r2) = with_eng e en (\<lambda>io. fused_symlink io a b) r1 in (unit_rc x, r2))
          else (- EINVAL, r1)
      | (None, r1) \<Rightarrow>
          (case ukfs_ask e [snprintf_n 64 (cmd @ '' '' @ show_nat (length a) @ '' '' @ show_nat (length b) @ [LF]), a, b] 64 r1 of
             (None, r2) \<Rightarrow> (- 1, r2)
           | (Some (s, line), r2) \<Rightarrow> (reply_rc line, r2)))"

section \<open>The guest's structures\<close>

definition statfs_bytes :: "ukstatfs \<Rightarrow> bytes" where
  "statfs_bytes q =
     (let namelen = (if sf_namelen q \<noteq> 0 then sf_namelen q else 255);
          frsize = (if sf_frsize q \<noteq> 0 then sf_frsize q else sint (sf_bsize q)) in
      le64 (word_of_int (sf_ftype q)) @ le64 (sf_bsize q) @ le64 (sf_blocks q) @ le64 (sf_bfree q) @
      le64 (sf_bavail q) @ le64 (sf_files q) @ le64 (sf_ffree q) @ replicate 8 NUL @
      le64 (word_of_int namelen) @ le64 (word_of_int frsize) @ replicate 40 NUL)"

definition ukfs_put_statfs :: "int \<Rightarrow> u64 \<Rightarrow> ukstatfs \<Rightarrow> 'o rst \<Rightarrow> 'o rst" where
  "ukfs_put_statfs t addr q r = write_data t addr (statfs_bytes q) r"

definition nlink_of :: "ukstat \<Rightarrow> u32" where
  "nlink_of q = (if qs_nlink q \<noteq> 0 then qs_nlink q else 1)"

text \<open>The aarch64 layout, 128 bytes; the x86-64 build of the host tests has another (144 bytes).\<close>

definition stat_aarch64 :: "ukstat \<Rightarrow> bytes" where
  "stat_aarch64 q =
     replicate 8 NUL @ le64 (qs_ino q) @ le32 (qs_mode q) @ le32 (nlink_of q) @ le32 (qs_uid q) @ le32 (qs_gid q) @
     le64 (qs_rdev q) @ replicate 8 NUL @ le64 (word_of_int (qs_size q)) @ le32 512 @ replicate 4 NUL @
     le64 (qs_blocks q) @ le64 (word_of_int (qs_atime q)) @ replicate 8 NUL @ le64 (word_of_int (qs_mtime q)) @
     replicate 8 NUL @ le64 (word_of_int (qs_mtime q)) @ replicate 16 NUL"

definition stat_x86_64 :: "ukstat \<Rightarrow> bytes" where
  "stat_x86_64 q =
     replicate 8 NUL @ le64 (qs_ino q) @ le64 (ucast (nlink_of q)) @ le32 (qs_mode q) @ le32 (qs_uid q) @ le32 (qs_gid q) @
     replicate 4 NUL @ le64 (qs_rdev q) @ le64 (word_of_int (qs_size q)) @ le64 512 @ le64 (qs_blocks q) @
     le64 (word_of_int (qs_atime q)) @ replicate 8 NUL @ le64 (word_of_int (qs_mtime q)) @ replicate 8 NUL @
     le64 (word_of_int (qs_mtime q)) @ replicate 32 NUL"

definition ukfs_put_stat :: "int \<Rightarrow> u64 \<Rightarrow> ukstat \<Rightarrow> 'o rst \<Rightarrow> 'o rst" where
  "ukfs_put_stat t addr q r = write_data t addr (stat_aarch64 q) r"

definition statx_bytes :: "ukstat \<Rightarrow> bytes" where
  "statx_bytes q =
     le32 0x7ff @ le32 512 @ replicate 8 NUL @ le32 (nlink_of q) @ le32 (qs_uid q) @ le32 (qs_gid q) @
     le16 (ucast (qs_mode q)) @ replicate 2 NUL @ le64 (qs_ino q) @ le64 (word_of_int (qs_size q)) @ le64 (qs_blocks q) @
     replicate 8 NUL @ le64 (word_of_int (qs_atime q)) @ replicate 24 NUL @ le64 (word_of_int (qs_mtime q)) @
     replicate 8 NUL @ le64 (word_of_int (qs_mtime q)) @ replicate 8 NUL @
     le32 (ucast (drop_bit 8 (qs_rdev q) AND 0xfff)) @ le32 (ucast (qs_rdev q AND 0xff)) @ replicate 120 NUL"

definition ukfs_put_statx :: "int \<Rightarrow> u64 \<Rightarrow> ukstat \<Rightarrow> 'o rst \<Rightarrow> 'o rst" where
  "ukfs_put_statx t addr q r = write_data t addr (statx_bytes q) r"

end
