(* ===== verification/Ukfsd.thy ===== *)
theory Ukfsd
  imports UkClient
begin

text \<open>
  The file server \<^verbatim>\<open>app/src/main/cpp/ukfs/shim/fs/ukfsd.c\<close>: one connection, its requests
  and replies. The file system engine behind it (\<^verbatim>\<open>uk_fs_api.h\<close>, \<^verbatim>\<open>vfs.c\<close> over the vendored
  drivers) is a parameter: a record of operations on an engine state \<open>'v\<close>. The record
  also has the outcome of \<^verbatim>\<open>malloc\<close> and the two environment variables.
\<close>

section \<open>The engine interface\<close>

record ukfs_dirent =
  dn_name :: string
  dn_ino :: u64
  dn_type :: int
  dn_size :: int

record ukfs_part =
  pt_idx :: u32
  pt_type :: u32
  pt_start :: u64
  pt_size :: u64

record 'v vfs =
  vf_malloc :: "nat \<Rightarrow> bool"
  vf_devdir :: "string option"
  vf_blocksock :: "string option"
  vf_mount :: "string \<Rightarrow> string \<Rightarrow> 'v \<Rightarrow> int \<times> 'v"
  vf_mount_part :: "string \<Rightarrow> string \<Rightarrow> int \<Rightarrow> int \<Rightarrow> 'v \<Rightarrow> int \<times> 'v"
  vf_probe :: "string \<Rightarrow> nat \<Rightarrow> 'v \<Rightarrow> ukfs_part list option"
  vf_statfs :: "'v \<Rightarrow> ukstatfs option"
  vf_stat :: "string \<Rightarrow> 'v \<Rightarrow> ukstat option"
  vf_list_dir :: "string \<Rightarrow> 'v \<Rightarrow> ukfs_dirent list option"
  vf_read_file :: "string \<Rightarrow> nat \<Rightarrow> int \<Rightarrow> 'v \<Rightarrow> bytes option"
  vf_readlink :: "string \<Rightarrow> nat \<Rightarrow> 'v \<Rightarrow> int + bytes"
  vf_write_file :: "string \<Rightarrow> bytes \<Rightarrow> 'v \<Rightarrow> int \<times> 'v"
  vf_write_file_at :: "string \<Rightarrow> bytes \<Rightarrow> int \<Rightarrow> 'v \<Rightarrow> int \<times> 'v"
  vf_sync :: "string option \<Rightarrow> 'v \<Rightarrow> 'v"
  vf_mkdir :: "string \<Rightarrow> 'v \<Rightarrow> int \<times> 'v"
  vf_unlink :: "string \<Rightarrow> 'v \<Rightarrow> int \<times> 'v"
  vf_rmdir :: "string \<Rightarrow> 'v \<Rightarrow> int \<times> 'v"
  vf_rename :: "string \<Rightarrow> string \<Rightarrow> 'v \<Rightarrow> int \<times> 'v"
  vf_symlink :: "string \<Rightarrow> string \<Rightarrow> 'v \<Rightarrow> int \<times> 'v"
  vf_truncate :: "string \<Rightarrow> int \<Rightarrow> 'v \<Rightarrow> int \<times> 'v"
  vf_chmod :: "string \<Rightarrow> u32 \<Rightarrow> 'v \<Rightarrow> int \<times> 'v"
  vf_chown :: "string \<Rightarrow> u32 \<Rightarrow> u32 \<Rightarrow> 'v \<Rightarrow> int \<times> 'v"
  vf_utime :: "string \<Rightarrow> int \<Rightarrow> int \<Rightarrow> int \<Rightarrow> int \<Rightarrow> 'v \<Rightarrow> int \<times> 'v"

text \<open>
  A connection: the bytes the client sent and the server has not read, the bytes the
  server wrote, whether the client still reads, and the engine.
\<close>

record 'v conn =
  cn_in :: bytes
  cn_out :: bytes
  cn_peer :: bool
  cn_fs :: 'v

section \<open>Transport\<close>

text \<open>The end of the input is the end of the connection.\<close>

definition read_n :: "nat \<Rightarrow> 'v conn \<Rightarrow> bytes option \<times> 'v conn" where
  "read_n n c =
     (if n \<le> length (cn_in c) then (Some (take n (cn_in c)), c\<lparr>cn_in := drop n (cn_in c)\<rparr>)
      else (None, c\<lparr>cn_in := []\<rparr>))"

definition write_n :: "bytes \<Rightarrow> 'v conn \<Rightarrow> bool \<times> 'v conn" where
  "write_n b c = (if b = [] \<or> cn_peer c then (True, c\<lparr>cn_out := cn_out c @ b\<rparr>) else (False, c))"

datatype rline = RL_eof | RL_long | RL_line string

fun line_loop :: "nat \<Rightarrow> string \<Rightarrow> bytes \<Rightarrow> rline \<times> bytes" where
  "line_loop cap acc [] = (RL_eof, [])"
| "line_loop cap acc (c # s) =
     (if c = LF then (RL_line acc, s)
      else if cap \<le> length acc + 1 then (RL_long, s)
      else line_loop cap (acc @ [c]) s)"

definition read_line :: "nat \<Rightarrow> 'v conn \<Rightarrow> rline \<times> 'v conn" where
  "read_line cap c = (let (l, s) = line_loop cap [] (cn_in c) in (l, c\<lparr>cn_in := s\<rparr>))"

section \<open>Replies\<close>

abbreviation reply :: "string \<Rightarrow> 'v conn \<Rightarrow> bool \<times> 'v conn" where
  "reply \<equiv> write_n"

definition reply_ok :: "'v conn \<Rightarrow> bool \<times> 'v conn" where
  "reply_ok c = reply (''OK'' @ [LF]) c"

definition reply_err :: "int \<Rightarrow> 'v conn \<Rightarrow> bool \<times> 'v conn" where
  "reply_err x c =
     (let x1 = (if x < 0 then - x else x); x2 = (if x1 = 0 then EIO else x1) in
      reply (snprintf_n 32 (''ERR '' @ show_int x2 @ [LF])) c)"

definition as_errno :: "int \<Rightarrow> int \<Rightarrow> int" where
  "as_errno ret dflt = (if ret = - 1 then dflt else if ret < 0 then sint (word_of_int (- ret) :: u32) else dflt)"

text \<open>The common end of an operation: \<^verbatim>\<open>r < 0 ? reply_err(fd, as_errno(r, dflt)) : reply_ok(fd)\<close>\<close>

definition reply_res :: "int \<Rightarrow> int \<times> 'v \<Rightarrow> 'v conn \<Rightarrow> bool \<times> 'v conn" where
  "reply_res dflt res c =
     (case res of (rc, v) \<Rightarrow>
        if rc < 0 then reply_err (as_errno rc dflt) (c\<lparr>cn_fs := v\<rparr>) else reply_ok (c\<lparr>cn_fs := v\<rparr>))"

text \<open>A header line and then data.\<close>

definition reply_data :: "string \<Rightarrow> bytes \<Rightarrow> 'v conn \<Rightarrow> bool \<times> 'v conn" where
  "reply_data hdr d c =
     (case reply hdr c of (False, c1) \<Rightarrow> (False, c1) | (True, c1) \<Rightarrow> if d = [] then (True, c1) else write_n d c1)"

definition np :: "string \<Rightarrow> string" where
  "np p = dropWhile (\<lambda>c. c = SLASH) p"

definition dev_path :: "'v vfs \<Rightarrow> string \<Rightarrow> nat \<Rightarrow> string" where
  "dev_path vf token cap =
     (let h = hd (token @ [NUL]) in
      if h = SLASH \<or> h = CHR ''@'' then snprintf_n cap token
      else case vf_devdir vf of
        Some dir \<Rightarrow> snprintf_n cap (dir @ token)
      | None \<Rightarrow> snprintf_n cap (CHR ''@'' # (case vf_blocksock vf of Some s \<Rightarrow> s | None \<Rightarrow> ''io.neoterm.block'')))"

section \<open>Operations\<close>

definition dirent_blob :: "ukfs_dirent \<Rightarrow> bytes" where
  "dirent_blob d =
     (let nm = take 256 (dn_name d) in
      [char_of (nat (dn_type d mod 256))] @ le64 (dn_ino d) @ le64 (word_of_int (dn_size d)) @
      le16 (word_of_nat (length nm)) @ nm)"

definition do_list :: "'v vfs \<Rightarrow> string \<Rightarrow> 'v conn \<Rightarrow> bool \<times> 'v conn" where
  "do_list vf path c =
     (case vf_list_dir vf path (cn_fs c) of
        None \<Rightarrow> reply_err ENOENT c
      | Some ents \<Rightarrow>
          let blob = concat (map dirent_blob ents) in
          if \<not> vf_malloc vf (max 1 (length blob)) then reply_err ENOMEM c
          else reply_data (snprintf_n 64 (''OK '' @ show_nat (length ents) @ '' '' @ show_nat (length blob) @ [LF])) blob c)"

definition do_read :: "'v vfs \<Rightarrow> int \<Rightarrow> nat \<Rightarrow> string \<Rightarrow> 'v conn \<Rightarrow> bool \<times> 'v conn" where
  "do_read vf off len path c =
     (if \<not> vf_malloc vf (max 1 len) then reply_err ENOMEM c
      else case vf_read_file vf path len off (cn_fs c) of
        None \<Rightarrow> reply_err ENOENT c
      | Some d \<Rightarrow> reply_data (snprintf_n 48 (''OK '' @ show_nat (length d) @ [LF])) d c)"

definition do_write :: "'v vfs \<Rightarrow> int \<Rightarrow> nat \<Rightarrow> string \<Rightarrow> 'v conn \<Rightarrow> bool \<times> 'v conn" where
  "do_write vf off len path c =
     (if \<not> vf_malloc vf (max 1 len) then reply_err ENOMEM c
      else case read_n len c of
        (None, c1) \<Rightarrow> (False, c1)
      | (Some buf, c1) \<Rightarrow>
          let (n, v) = vf_write_file_at vf path buf off (cn_fs c1); c2 = c1\<lparr>cn_fs := v\<rparr> in
          if n < 0 then reply_err (as_errno n EIO) c2
          else reply (snprintf_n 48 (''OK '' @ show_int (sint (word_of_nat len :: u64)) @ [LF])) c2)"

definition do_readlink :: "'v vfs \<Rightarrow> string \<Rightarrow> 'v conn \<Rightarrow> bool \<times> 'v conn" where
  "do_readlink vf path c =
     (case vf_readlink vf path 4096 (cn_fs c) of
        Inl n \<Rightarrow> reply_err (as_errno n EINVAL) c
      | Inr d \<Rightarrow> reply_data (snprintf_n 48 (''OK '' @ show_nat (length d) @ [LF])) d c)"

definition stat_line :: "ukstat \<Rightarrow> string" where
  "stat_line q =
     ''OK '' @ show_nat (unat (qs_mode q)) @ '' '' @ show_nat (unat (qs_uid q)) @ '' '' @ show_nat (unat (qs_gid q)) @ '' '' @
     show_int (qs_size q) @ '' '' @ show_nat (unat (qs_ino q)) @ '' '' @ show_int (qs_mtime q) @ '' '' @ show_int (qs_atime q) @ '' '' @
     show_nat (unat (qs_nlink q)) @ '' '' @ show_nat (unat (qs_rdev q)) @ '' '' @ show_nat (unat (qs_blocks q)) @ [LF]"

definition do_stat :: "'v vfs \<Rightarrow> string \<Rightarrow> 'v conn \<Rightarrow> bool \<times> 'v conn" where
  "do_stat vf path c =
     (case vf_stat vf path (cn_fs c) of
        None \<Rightarrow> reply_err ENOENT c
      | Some q \<Rightarrow> reply (snprintf_n 192 (stat_line q)) c)"

definition statfs_line :: "ukstatfs \<Rightarrow> string" where
  "statfs_line q =
     ''OK '' @ show_nat (unat (sf_bsize q)) @ '' '' @ show_nat (unat (sf_blocks q)) @ '' '' @ show_nat (unat (sf_bfree q)) @ '' '' @
     show_nat (unat (sf_bavail q)) @ '' '' @ show_nat (unat (sf_files q)) @ '' '' @ show_nat (unat (sf_ffree q)) @ '' '' @
     show_int (sf_namelen q) @ '' '' @ show_int (sf_frsize q) @ '' '' @ show_int (sf_ftype q) @ [LF]"

definition do_statfs :: "'v vfs \<Rightarrow> 'v conn \<Rightarrow> bool \<times> 'v conn" where
  "do_statfs vf c =
     (case vf_statfs vf (cn_fs c) of
        None \<Rightarrow> reply_err EIO c
      | Some q \<Rightarrow> reply (snprintf_n 224 (statfs_line q)) c)"

definition do_two_path :: "'v vfs \<Rightarrow> bool \<Rightarrow> nat \<Rightarrow> nat \<Rightarrow> 'v conn \<Rightarrow> bool \<times> 'v conn" where
  "do_two_path vf is_rename alen blen c =
     (if \<not> vf_malloc vf ((alen + 1) mod 2 ^ 64) \<or> \<not> vf_malloc vf ((blen + 1) mod 2 ^ 64) then reply_err ENOMEM c
      else case read_n alen c of
        (None, c1) \<Rightarrow> (False, c1)
      | (Some a, c1) \<Rightarrow>
          (case read_n blen c1 of
             (None, c2) \<Rightarrow> (False, c2)
           | (Some b, c2) \<Rightarrow>
               reply_res EIO
                 (if is_rename then vf_rename vf (np (cstr a)) (np (cstr b)) (cn_fs c2)
                  else vf_symlink vf (cstr a) (np (cstr b)) (cn_fs c2)) c2))"

section \<open>Mounting\<close>

definition part_suffix :: "string \<Rightarrow> nat \<Rightarrow> int \<times> string" where
  "part_suffix token cap =
     (let ds = rev (takeWhile is_digit (rev token)); i = length token - length ds in
      if i < length token \<and> 2 \<le> i \<and> token ! (i - 1) = CHR ''p'' then
        (let pn = atoi ds in (if 0 < pn then pn else 0, take (min (i - 1) (cap - 1)) token))
      else (0, snprintf_n cap token))"

definition mount_one :: "'v vfs \<Rightarrow> string \<Rightarrow> string \<Rightarrow> bool \<Rightarrow> int \<Rightarrow> int \<Rightarrow> 'v \<Rightarrow> int \<times> 'v" where
  "mount_one vf fstype path is_part base sz v =
     (if is_part then vf_mount_part vf fstype path base sz v else vf_mount vf fstype path v)"

fun mount_cands :: "'v vfs \<Rightarrow> string list \<Rightarrow> string \<Rightarrow> bool \<Rightarrow> int \<Rightarrow> int \<Rightarrow> 'v \<Rightarrow> int \<times> 'v" where
  "mount_cands vf [] path is_part base sz v = (- 1, v)"
| "mount_cands vf (t # ts) path is_part base sz v =
     (case mount_one vf t path is_part base sz v of (rc, v1) \<Rightarrow>
        if rc = 0 then (0, v1) else mount_cands vf ts path is_part base sz v1)"

definition mount_at :: "'v vfs \<Rightarrow> string \<Rightarrow> string \<Rightarrow> bool \<Rightarrow> int \<Rightarrow> int \<Rightarrow> 'v \<Rightarrow> int \<times> 'v" where
  "mount_at vf fstype path is_part base sz v =
     (if fstype = ''auto'' then mount_cands vf [''vfat'', ''exfat'', ''ntfs3'', ''ext4''] path is_part base sz v
      else mount_one vf fstype path is_part base sz v)"

text \<open>The end of both MOUNT forms.\<close>

definition mount_reply :: "int \<times> 'v \<Rightarrow> 'v conn \<Rightarrow> bool \<times> 'v conn" where
  "mount_reply res c =
     (case res of (rc, v) \<Rightarrow> if rc = 0 then reply_ok (c\<lparr>cn_fs := v\<rparr>) else reply_err ENODEV (c\<lparr>cn_fs := v\<rparr>))"

definition do_mount_token :: "'v vfs \<Rightarrow> string \<Rightarrow> string \<Rightarrow> 'v conn \<Rightarrow> bool \<times> 'v conn" where
  "do_mount_token vf fstype token c =
     (let (pn, bare) = part_suffix token 512; path = dev_path vf bare 600 in
      if 0 < pn then
        (case List.find (\<lambda>p. pt_idx p = word_of_int pn)
                (case vf_probe vf path 64 (cn_fs c) of None \<Rightarrow> [] | Some ps \<Rightarrow> ps) of
           None \<Rightarrow> reply_err ENODEV c
         | Some p \<Rightarrow> mount_reply (mount_at vf fstype path True (sint (pt_start p)) (sint (pt_size p)) (cn_fs c)) c)
      else mount_reply (mount_at vf fstype path False 0 0 (cn_fs c)) c)"

text \<open>\<^verbatim>\<open>%02x\<close>\<close>

definition hex_digit :: "nat \<Rightarrow> char" where
  "hex_digit n = (if n < 10 then char_of (48 + n) else char_of (87 + n))"

fun show_hex :: "nat \<Rightarrow> string" where
  "show_hex n = (if n < 16 then [hex_digit n] else show_hex (n div 16) @ [hex_digit (n mod 16)])"

declare show_hex.simps [simp del]

definition show_02x :: "nat \<Rightarrow> string" where
  "show_02x n = (if n < 16 then ''0'' @ show_hex n else show_hex n)"

definition part_line :: "ukfs_part \<Rightarrow> string" where
  "part_line p =
     snprintf_n 96 (''p'' @ show_nat (unat (pt_idx p)) @ '' 0x'' @ show_02x (unat (pt_type p)) @ '' '' @
       show_nat (unat (pt_start p)) @ '' '' @ show_nat (unat (pt_size p)) @ [LF])"

fun parts_reply :: "ukfs_part list \<Rightarrow> 'v conn \<Rightarrow> bool \<times> 'v conn" where
  "parts_reply [] c = (True, c)"
| "parts_reply (p # ps) c = (case reply (part_line p) c of (False, c1) \<Rightarrow> (False, c1) | (True, c1) \<Rightarrow> parts_reply ps c1)"

definition do_parts :: "'v vfs \<Rightarrow> string \<Rightarrow> 'v conn \<Rightarrow> bool \<times> 'v conn" where
  "do_parts vf token c =
     (case vf_probe vf (dev_path vf (snd (part_suffix token 512)) 600) 64 (cn_fs c) of
        None \<Rightarrow> reply_err ENODEV c
      | Some ps \<Rightarrow>
          (case reply (snprintf_n 32 (''OK '' @ show_nat (length ps) @ [LF])) c of
             (False, c1) \<Rightarrow> (False, c1)
           | (True, c1) \<Rightarrow> parts_reply ps c1))"

section \<open>Requests\<close>

text \<open>\<^verbatim>\<open>%63s\<close>: skip white space, then up to \<open>n\<close> other characters.\<close>

definition scan_word :: "nat \<Rightarrow> string \<Rightarrow> (string \<times> string) option" where
  "scan_word n s =
     (let s1 = skip_ws s; w = take n (takeWhile (\<lambda>c. \<not> is_space c) s1) in
      if w = [] then None else Some (w, drop (length w) s1))"

definition scan_lit :: "string \<Rightarrow> string \<Rightarrow> string option" where
  "scan_lit p s = (if starts_with p s then Some (drop (length p) s) else None)"

definition scan_mount :: "string \<Rightarrow> (string \<times> string \<times> string) option" where
  "scan_mount line = do {
     s0 \<leftarrow> scan_lit ''MOUNT'' line;
     (fstype, s1) \<leftarrow> scan_word 63 s0;
     (token, s2) \<leftarrow> scan_word 511 s1;
     Some (fstype, token, s2) }"

text \<open>\<^verbatim>\<open>"CMD %lld %n"\<close> and \<^verbatim>\<open>"CMD %lld %zu %n"\<close>: the path is what follows the white space.\<close>

definition scan_num_path :: "string \<Rightarrow> string \<Rightarrow> (int \<times> string) option" where
  "scan_num_path cmd line = do {
     s0 \<leftarrow> scan_lit cmd line;
     (n1, s1) \<leftarrow> scan_long s0;
     Some (n1, np (skip_ws s1)) }"

definition scan_num2_path :: "string \<Rightarrow> string \<Rightarrow> (int \<times> nat \<times> string) option" where
  "scan_num2_path cmd line = do {
     s0 \<leftarrow> scan_lit cmd line;
     (n1, s1) \<leftarrow> scan_long s0;
     (l1, s2) \<leftarrow> scan_ulong s1;
     Some (n1, unat l1, np (skip_ws s2)) }"

definition scan_chown :: "string \<Rightarrow> (int \<times> int \<times> string) option" where
  "scan_chown line = do {
     s0 \<leftarrow> scan_lit ''CHOWN'' line;
     (n1, s1) \<leftarrow> scan_long s0;
     (n2, s2) \<leftarrow> scan_long s1;
     Some (n1, n2, np (skip_ws s2)) }"

definition scan_utime :: "string \<Rightarrow> (int \<times> int \<times> int \<times> int \<times> string) option" where
  "scan_utime line = do {
     s0 \<leftarrow> scan_lit ''UTIME'' line;
     (n1, s1) \<leftarrow> scan_long s0;
     (n2, s2) \<leftarrow> scan_long s1;
     (n3, s3) \<leftarrow> scan_long s2;
     (n4, s4) \<leftarrow> scan_long s3;
     Some (n1, n2, n3, n4, np (skip_ws s4)) }"

definition scan_two :: "string \<Rightarrow> string \<Rightarrow> (nat \<times> nat) option" where
  "scan_two cmd line = do {
     s0 \<leftarrow> scan_lit cmd line;
     (l1, s1) \<leftarrow> scan_ulong s0;
     (l2, s2) \<leftarrow> scan_ulong s1;
     Some (unat l1, unat l2) }"

text \<open>The requests with numbers in front of the path, in the order they are tried.\<close>

definition handle_num :: "'v vfs \<Rightarrow> string \<Rightarrow> 'v conn \<Rightarrow> bool \<times> 'v conn" where
  "handle_num vf line c =
     (case scan_num2_path ''READ'' line of Some (off, len, p) \<Rightarrow> do_read vf off len p c | None \<Rightarrow>
      (case scan_num2_path ''WRITE'' line of Some (off, len, p) \<Rightarrow> do_write vf off len p c | None \<Rightarrow>
      (case scan_num_path ''CREATE'' line of Some (n1, p) \<Rightarrow> reply_res EIO (vf_write_file vf p [] (cn_fs c)) c | None \<Rightarrow>
      (case scan_num_path ''MKDIR'' line of Some (n1, p) \<Rightarrow>
        (let (rc, v) = vf_mkdir vf p (cn_fs c);
             v1 = (if rc = 0 \<and> n1 \<noteq> 0 then snd (vf_chmod vf p (word_of_int n1) v) else v) in
         reply_res EIO (rc, v1) c) | None \<Rightarrow>
      (case scan_num_path ''TRUNCATE'' line of Some (n1, p) \<Rightarrow> reply_res EIO (vf_truncate vf p n1 (cn_fs c)) c | None \<Rightarrow>
      (case scan_num_path ''CHMOD'' line of Some (n1, p) \<Rightarrow> reply_res EIO (vf_chmod vf p (word_of_int n1) (cn_fs c)) c | None \<Rightarrow>
      (case scan_chown line of Some (n1, n2, p) \<Rightarrow>
        reply_res EIO (vf_chown vf p (word_of_int n1) (word_of_int n2) (cn_fs c)) c | None \<Rightarrow>
      (case scan_utime line of Some (n1, n2, n3, n4, p) \<Rightarrow> reply_res EIO (vf_utime vf p n1 n2 n3 n4 (cn_fs c)) c | None \<Rightarrow>
      (case scan_two ''RENAME'' line of Some (l1, l2) \<Rightarrow> do_two_path vf True l1 l2 c | None \<Rightarrow>
      (case scan_two ''SYMLINK'' line of Some (l1, l2) \<Rightarrow> do_two_path vf False l1 l2 c | None \<Rightarrow>
      reply (''ERR 22'' @ [LF]) c))))))))))"

text \<open>The requests without numbers.\<close>

definition handle_path :: "'v vfs \<Rightarrow> string \<Rightarrow> 'v conn \<Rightarrow> bool \<times> 'v conn" where
  "handle_path vf line c =
     (if line = ''UMOUNT'' then reply_ok c
      else if line = ''STATFS'' then do_statfs vf c
      else if line = ''SYNC'' then reply_ok (c\<lparr>cn_fs := vf_sync vf None (cn_fs c)\<rparr>)
      else if starts_with ''SYNC '' line then reply_ok (c\<lparr>cn_fs := vf_sync vf (Some (np (drop 5 line))) (cn_fs c)\<rparr>)
      else if starts_with ''STAT '' line then do_stat vf (np (drop 5 line)) c
      else if starts_with ''LIST '' line then do_list vf (np (drop 5 line)) c
      else if starts_with ''READLINK '' line then do_readlink vf (np (drop 9 line)) c
      else if starts_with ''UNLINK '' line then reply_res ENOENT (vf_unlink vf (np (drop 7 line)) (cn_fs c)) c
      else if starts_with ''RMDIR '' line then reply_res ENOTEMPTY (vf_rmdir vf (np (drop 6 line)) (cn_fs c)) c
      else handle_num vf line c)"

text \<open>\<open>False\<close> drops the connection.\<close>

definition handle :: "'v vfs \<Rightarrow> string \<Rightarrow> 'v conn \<Rightarrow> bool \<times> 'v conn" where
  "handle vf line c =
     (case scan_mount line of
        Some (fstype, token, s2) \<Rightarrow>
          (case do { (b, s3) \<leftarrow> scan_long s2; (z, s4) \<leftarrow> scan_long s3; Some (b, z) } of
             Some (ebase, esize) \<Rightarrow>
               mount_reply (mount_at vf fstype (dev_path vf token 600) (ebase \<noteq> 0 \<or> esize \<noteq> 0) ebase esize (cn_fs c)) c
           | None \<Rightarrow> do_mount_token vf fstype token c)
      | None \<Rightarrow>
          (case scan_lit ''PARTS'' line \<bind> scan_word 511 of
             Some (token, _) \<Rightarrow> do_parts vf token c
           | None \<Rightarrow> handle_path vf line c))"

text \<open>One round of \<open>serve\<close>, and the loop.\<close>

definition serve_one :: "'v vfs \<Rightarrow> 'v conn \<Rightarrow> bool \<times> 'v conn" where
  "serve_one vf c =
     (case read_line 8192 c of
        (RL_eof, c1) \<Rightarrow> (False, c1)
      | (RL_long, c1) \<Rightarrow> (True, snd (reply (''ERR 36'' @ [LF]) c1))
      | (RL_line l, c1) \<Rightarrow> handle vf (cstr l) c1)"

partial_function (option) serve :: "'v vfs \<Rightarrow> 'v conn \<Rightarrow> 'v conn option" where
  "serve vf c = (let (ok, c1) = serve_one vf c in if ok then serve vf c1 else Some c1)"

end
