(* ===== verification/ClientServer.thy ===== *)
theory ClientServer
  imports Ukfsd LoopProps
begin

text \<open>
  The redirect's file operations over a connection to ukfsd: both ends of the line
  protocol composed. Shown: what a request returns is what the engine behind the server
  computes, for paths without newlines; what a newline in a path does; that serving a
  connection ends.
\<close>

section \<open>Definitions\<close>

text \<open>The connection after the server has handled everything the client sent.\<close>

definition served :: "'v vfs \<Rightarrow> 'v conn \<Rightarrow> 'v conn" where
  "served vf c = (the (serve vf c))\<lparr>cn_in := []\<rparr>"

text \<open>An environment whose sockets lead to the server: what is read is what it has answered.\<close>

definition srv_env :: "'v vfs \<Rightarrow> 'v conn env" where
  "srv_env vf = null_env
     \<lparr>env_write := (\<lambda>fd b c. (int (length b), c\<lparr>cn_in := cn_in c @ b\<rparr>)),
      env_read := (\<lambda>fd n c. let c1 = served vf c in (Some (take n (cn_out c1)), c1\<lparr>cn_out := drop n (cn_out c1)\<rparr>))\<rparr>"

definition idle :: "'v \<Rightarrow> 'v conn" where
  "idle v = \<lparr>cn_in = [], cn_out = [], cn_peer = True, cn_fs = v\<rparr>"

definition srv_at :: "'v \<Rightarrow> bytes \<Rightarrow> 'v conn" where
  "srv_at v b = (idle v)\<lparr>cn_out := b\<rparr>"

text \<open>The active mount is served by a daemon and connected.\<close>

definition linked :: "'o rst \<Rightarrow> bool" where
  "linked r \<longleftrightarrow> am_ok r \<and> mt_used (g_m r ! am r) \<and> mt_fuse (g_m r ! am r) = None \<and>
     0 \<le> mt_sock (g_m r ! am r) \<and> mt_ready (g_m r ! am r)"

text \<open>The ranges of the C types behind the integers.\<close>

definition stat_ok :: "ukstat \<Rightarrow> bool" where
  "stat_ok q \<longleftrightarrow> list_all (\<lambda>i. - (2 ^ 63) \<le> i \<and> i < 2 ^ 63) [qs_size q, qs_mtime q, qs_atime q]"

definition plain_path :: "string \<Rightarrow> bool" where
  "plain_path p \<longleftrightarrow> LF \<notin> set p \<and> NUL \<notin> set p \<and> length p < PATH_MAX"

text \<open>A small engine, files by name, and a mount connected to it.\<close>

definition mem_vfs :: "(string \<rightharpoonup> bytes) vfs" where
  "mem_vfs = \<lparr>vf_malloc = (\<lambda>n. True), vf_devdir = None, vf_blocksock = None, vf_mount = (\<lambda>t p v. (0, v)),
     vf_mount_part = (\<lambda>t p b s v. (0, v)), vf_probe = (\<lambda>p n v. None), vf_statfs = (\<lambda>v. None),
     vf_stat = (\<lambda>p v. map_option (\<lambda>d. \<lparr>qs_mode = 0x81A4, qs_uid = 0, qs_gid = 0, qs_size = int (length d), qs_ino = 1,
        qs_mtime = 0, qs_atime = 0, qs_nlink = 1, qs_rdev = 0, qs_blocks = 1\<rparr>) (v p)),
     vf_list_dir = (\<lambda>p v. None), vf_read_file = (\<lambda>p n off v. map_option (\<lambda>d. take n (drop (nat off) d)) (v p)),
     vf_readlink = (\<lambda>p n v. Inl (- 22)), vf_write_file = (\<lambda>p d v. (int (length d), v(p \<mapsto> d))),
     vf_write_file_at = (\<lambda>p d off v. (int (length d), v(p \<mapsto> d))), vf_sync = (\<lambda>p v. v), vf_mkdir = (\<lambda>p v. (- 38, v)),
     vf_unlink = (\<lambda>p v. (if v p = None then - 2 else 0, v(p := None))), vf_rmdir = (\<lambda>p v. (- 38, v)),
     vf_rename = (\<lambda>a b v. (if v a = None then - 2 else 0, v(b := v a, a := None))), vf_symlink = (\<lambda>a b v. (- 38, v)),
     vf_truncate = (\<lambda>p n v. (- 38, v)), vf_chmod = (\<lambda>p m v. (- 38, v)), vf_chown = (\<lambda>p u g v. (- 38, v)),
     vf_utime = (\<lambda>p a b c d v. (- 38, v))\<rparr>"

definition mem_mount :: "(string \<rightharpoonup> bytes) \<Rightarrow> (string \<rightharpoonup> bytes) conn rst" where
  "mem_mount v = (rst_init (\<lambda>_ _. CHR ''x'') (\<lambda>_ _ _. True) (idle v))
     \<lparr>g_m := (replicate UK_MAXM ukm_zero)[0 := ukm_zero\<lparr>mt_used := True, mt_sock := 4, mt_ready := True\<rparr>], g_am := 0\<rparr>"

section \<open>Text\<close>

lemma length_show_nat: "n < 10 ^ Suc k \<Longrightarrow> length (show_nat n) \<le> Suc k"
proof (induction k arbitrary: n)
  case (Suc k)
  show ?case
  proof (cases "n < 10")
    case False
    have "n div 10 < 10 ^ Suc k" using Suc.prems by (simp add: less_mult_imp_div_less)
    with Suc.IH [OF this] False show ?thesis by (simp add: show_nat_big)
  qed (simp add: show_nat_small)
qed (simp add: show_nat_small)

lemma length_show_u64: "length (show_nat (unat (w :: u64))) \<le> 20"
  using length_show_nat [of "unat w" 19] unsigned_less [of w, where ?'a = nat] by simp

lemma length_show_u32: "length (show_nat (unat (w :: u32))) \<le> 10"
  using length_show_nat [of "unat w" 9] unsigned_less [of w, where ?'a = nat] by simp

lemma length_show_s64: "- (2 ^ 63) \<le> i \<Longrightarrow> i < 2 ^ 63 \<Longrightarrow> length (show_int i) \<le> 20"
  using length_show_nat [of "nat (- i)" 18] length_show_nat [of "nat i" 18] by (auto simp: show_int_def nat_less_iff)

lemma show_nat_plain: "LF \<notin> set (show_nat n)" "NUL \<notin> set (show_nat n)"
  using show_nat_digits [of _ n] digit_not_special by (auto simp: LF_def)

lemma show_int_plain: "LF \<notin> set (show_int i)" "NUL \<notin> set (show_int i)"
  using show_nat_plain by (auto simp: show_int_def LF_def)

section \<open>The server's loop\<close>

lemma line_loop_line:
  "LF \<notin> set l \<Longrightarrow> length acc + length l < cap \<Longrightarrow> line_loop cap acc (l @ LF # rest) = (RL_line (acc @ l), rest)"
  by (induction l arbitrary: acc) auto

lemma line_loop_shorter: "line_loop cap acc s = (l, s') \<Longrightarrow> s \<noteq> [] \<Longrightarrow> length s' < length s"
  by (induction cap acc s rule: line_loop.induct) (auto split: if_splits, fastforce)

lemma line_loop_eof: "line_loop cap acc s = (RL_eof, s') \<Longrightarrow> s' = []"
  by (induction cap acc s rule: line_loop.induct) (auto split: if_splits)

lemma serve_one_empty: "cn_in c = [] \<Longrightarrow> serve_one vf c = (False, c)"
  by (simp add: serve_one_def read_line_def)

lemma serve_empty: "cn_in c = [] \<Longrightarrow> serve vf c = Some c"
  by (simp add: serve.simps [of vf c] serve_one_empty)

text \<open>One request, with its payload, on an idle connection.\<close>

lemma serve_line:
  assumes "LF \<notin> set l" and "length l < 8192" and "handle vf (cstr l) (c\<lparr>cn_in := payload\<rparr>) = (True, c1)"
  shows "serve vf (c\<lparr>cn_in := l @ LF # payload\<rparr>) = serve vf c1"
  using assms
  by (subst serve.simps) (simp add: serve_one_def read_line_def line_loop_line [of _ "[]", simplified])

lemma serve_request:
  assumes "LF \<notin> set l" and "length l < 8192" and "handle vf (cstr l) ((idle v)\<lparr>cn_in := payload\<rparr>) = (True, c1)" and "cn_in c1 = []"
  shows "served vf ((idle v)\<lparr>cn_in := l @ LF # payload\<rparr>) = c1"
  using serve_line [OF assms(1-3)] assms(4) by (simp add: served_def serve_empty)

text \<open>Requests only consume input.\<close>

lemma reply_in [simp]:
  "cn_in (snd (write_n b c)) = cn_in c" "cn_in (snd (reply_ok c)) = cn_in c" "cn_in (snd (reply_err x c)) = cn_in c"
  "cn_in (snd (reply_res x res c)) = cn_in c" "cn_in (snd (mount_reply res c)) = cn_in c"
  by (simp_all add: write_n_def reply_ok_def reply_err_def reply_res_def mount_reply_def Let_def split: prod.split)

lemma reply_data_in [simp]: "cn_in (snd (reply_data h d c)) = cn_in c"
  using reply_in(1) [of h c] reply_in(1) [of d "snd (write_n h c)"]
  by (cases "write_n h c") (auto simp: reply_data_def split: bool.split)

lemma parts_reply_in [simp]: "cn_in (snd (parts_reply ps c)) = cn_in c"
proof (induction ps arbitrary: c)
  case (Cons p ps)
  then show ?case using reply_in(1) [of "part_line p" c] by (cases "write_n (part_line p) c") (auto split: bool.split)
qed simp

lemma read_n_in: "length (cn_in (snd (read_n n c))) \<le> length (cn_in c)"
  by (simp add: read_n_def)

lemma do_ops_in [simp]:
  "cn_in (snd (do_stat vf p c)) = cn_in c" "cn_in (snd (do_statfs vf c)) = cn_in c" "cn_in (snd (do_list vf p c)) = cn_in c"
  "cn_in (snd (do_readlink vf p c)) = cn_in c" "cn_in (snd (do_read vf off len p c)) = cn_in c"
  "cn_in (snd (do_mount_token vf fs p c)) = cn_in c"
  by (simp_all add: do_stat_def do_statfs_def do_list_def do_readlink_def do_read_def do_mount_token_def Let_def
      split: option.split sum.split prod.split)

lemma do_parts_in [simp]: "cn_in (snd (do_parts vf p c)) = cn_in c"
  by (auto simp: do_parts_def split: option.split prod.split bool.split) (metis reply_in(1) snd_conv)+

lemma do_write_in: "length (cn_in (snd (do_write vf off len p c))) \<le> length (cn_in c)"
  using read_n_in [of len c] by (cases "read_n len c") (auto simp: do_write_def Let_def split: option.split prod.split)

lemma do_two_path_in: "length (cn_in (snd (do_two_path vf rn a b c))) \<le> length (cn_in c)"
  using read_n_in [of a c] read_n_in [of b "snd (read_n a c)"]
  by (cases "read_n a c"; cases "read_n b (snd (read_n a c))") (auto simp: do_two_path_def split: option.split)

lemma handle_in: "length (cn_in (snd (handle vf l c))) \<le> length (cn_in c)"
proof -
  have "length (cn_in (snd (handle_num vf l c))) \<le> length (cn_in c)"
    by (simp add: handle_num_def do_write_in do_two_path_in Let_def split: option.split prod.split)
  then have "length (cn_in (snd (handle_path vf l c))) \<le> length (cn_in c)" by (simp add: handle_path_def)
  then show ?thesis by (simp add: handle_def split: option.split prod.split)
qed

lemma serve_one_in: "cn_in c \<noteq> [] \<Longrightarrow> length (cn_in (snd (serve_one vf c))) < length (cn_in c)"
proof -
  assume ne: "cn_in c \<noteq> []"
  obtain l s where l: "line_loop 8192 [] (cn_in c) = (l, s)" by (rule prod.exhaust)
  have "length s < length (cn_in c)" using line_loop_shorter [OF l ne] .
  moreover have "length (cn_in (snd (handle vf x (c\<lparr>cn_in := s\<rparr>)))) \<le> length s" for x
    using handle_in [of vf x "c\<lparr>cn_in := s\<rparr>"] by simp
  ultimately show ?thesis by (auto simp: serve_one_def read_line_def l split: rline.split intro: le_less_trans)
qed

section \<open>One exchange\<close>

interpretation srv: stream_in "srv_env vf" s "srv_at v"
proof unfold_locales
  fix n :: nat and b :: bytes
  assume "0 < n" "b \<noteq> []"
  then show "\<exists>m. 0 < m \<and> m \<le> n \<and> m \<le> length b \<and> env_read (srv_env vf) s n (srv_at v b) = (Some (take m b), srv_at v (drop m b))"
    by (intro exI [of _ "min n (length b)"])
       (auto simp: srv_env_def null_env_def srv_at_def idle_def served_def serve_empty min_def)
qed

lemma served_once: "env_read (srv_env vf) s n c = env_read (srv_env vf) s n (served vf c)"
  by (simp add: srv_env_def null_env_def served_def serve_empty)

lemma rl_loop_served: "0 < k \<Longrightarrow> rl_loop (srv_env vf) k s acc c = rl_loop (srv_env vf) k s acc (served vf c)"
  by (cases k) (simp_all add: served_once [of vf s "Suc 0" c])

lemma srv_write: "env_write (srv_env vf) fd b c = (int (length b), c\<lparr>cn_in := cn_in c @ b\<rparr>)"
  by (simp add: srv_env_def null_env_def)

lemma wn_loop_nil: "wn_loop e k s [] c = (True, c)"
  by (cases k) simp_all

lemma wn_loop_srv: "length b \<le> k \<Longrightarrow> wn_loop (srv_env vf) k s b c = (True, c\<lparr>cn_in := cn_in c @ b\<rparr>)"
  by (cases k; cases b) (simp_all add: wn_loop_nil srv_write)

lemma wn_all_srv:
  "wn_all (srv_env vf) s bs r = (True, os_upd r ((st_os r)\<lparr>cn_in := cn_in (st_os r) @ concat bs\<rparr>))"
proof (induction bs arbitrary: r)
  case (Cons b bs)
  then show ?case by (simp add: uksd_wn_def wn_loop_srv os_upd_def)
qed (simp add: os_upd_def)

lemma linked_active:
  assumes "linked r"
  shows "fuse_active e r = (None, r)" and "ukfs_conn e r = (mt_sock (g_m r ! am r), r)"
  using assms by (simp_all add: linked_def fuse_active_def ukfs_conn_def Let_def)

lemma ask_raw:
  assumes "linked r" and "st_os r = idle v" and "served vf ((idle v)\<lparr>cn_in := concat req\<rparr>) = srv_at v' (a @ LF # rest)"
    and "LF \<notin> set a" and "Suc (length a) < lcap"
  shows "ukfs_ask (srv_env vf) req lcap r = (Some (mt_sock (g_m r ! am r), cstr a), os_upd r (srv_at v' rest))"
proof -
  have la: "length a < lcap - 1" using assms(5) by simp
  have "rl_loop (srv_env vf) (lcap - 1) s [] ((idle v)\<lparr>cn_in := concat req\<rparr>) = (Some a, srv_at v' rest)" for s
    using rl_loop_served [of "lcap - 1" vf s "[]" "(idle v)\<lparr>cn_in := concat req\<rparr>"]
      srv.rl_loop_reads [OF assms(4) la, of vf s "[]" v' rest] assms(3,5) by simp
  moreover have "0 \<le> mt_sock (g_m r ! am r)" using assms(1) by (simp add: linked_def)
  ultimately show ?thesis using assms(2)
    by (simp add: ukfs_ask_def linked_active [OF assms(1)] wn_all_srv uksd_rl_def os_upd_def idle_def)
qed

lemma ask_served:
  assumes "linked r" and "st_os r = idle v" and "concat req = l @ LF # payload"
    and "LF \<notin> set l" and "length l < 8192"
    and "handle vf (cstr l) ((idle v)\<lparr>cn_in := payload\<rparr>) = (True, srv_at v' (a @ LF # rest))"
    and "LF \<notin> set a" and "Suc (length a) < lcap"
  shows "ukfs_ask (srv_env vf) req lcap r = (Some (mt_sock (g_m r ! am r), cstr a), os_upd r (srv_at v' rest))"
  using ask_raw [OF assms(1,2) _ assms(7,8)] serve_request [OF assms(4,5,6)] assms(3) by (simp add: srv_at_def idle_def)

section \<open>Reading back what was printed\<close>

lemma scan_ws:
  "scan_long (CHR '' '' # s) = scan_long s" "scan_ulong (CHR '' '' # s) = scan_ulong s" "scan_uint (CHR '' '' # s) = scan_uint s"
  "scan_int (CHR '' '' # s) = scan_int s"
  by (simp_all add: scan_long_def scan_ulong_def scan_uint_def scan_int_def skip_ws_def is_space_def)

lemma scan_u64: "r = [] \<or> \<not> is_digit (hd r) \<Longrightarrow> scan_ulong (show_nat (unat (w :: u64)) @ r) = Some (w, r)"
  using scan_ulong_show_nat [of "unat w" r] unsigned_less [of w, where ?'a = nat] by simp

lemma sint_s32: "- (2 ^ 31) \<le> i \<Longrightarrow> i < 2 ^ 31 \<Longrightarrow> sint (word_of_int i :: u32) = i"
  by (simp add: sint_sbintrunc' signed_take_bit_int_eq_self)

lemma ucast_u32_u64: "ucast (ucast (w :: u32) :: u64) = w"
  by transfer (simp add: take_bit_int_eq_self)

lemma scan_u32: "r = [] \<or> \<not> is_digit (hd r) \<Longrightarrow> scan_uint (show_nat (unat (w :: u32)) @ r) = Some (w, r)"
  using scan_ulong_show_nat [of "unat w" r] unsigned_less [of w, where ?'a = nat] by (simp add: scan_uint_def ucast_u32_u64)

lemma sp_not_digit [simp]: "\<not> is_digit (CHR '' '')"
  by (simp add: is_digit_def)

lemmas scan_simps = scan_ws scan_u64 scan_u32 scan_long_show_int

definition stat_text :: "ukstat \<Rightarrow> string" where
  "stat_text q = butlast (stat_line q)"

lemma stat_line_text: "stat_line q = stat_text q @ [LF]"
  by (simp add: stat_text_def stat_line_def butlast_append)

lemma stat_text_eq:
  "stat_text q = ''OK '' @ show_nat (unat (qs_mode q)) @ '' '' @ show_nat (unat (qs_uid q)) @ '' '' @ show_nat (unat (qs_gid q)) @ '' '' @
     show_int (qs_size q) @ '' '' @ show_nat (unat (qs_ino q)) @ '' '' @ show_int (qs_mtime q) @ '' '' @ show_int (qs_atime q) @ '' '' @
     show_nat (unat (qs_nlink q)) @ '' '' @ show_nat (unat (qs_rdev q)) @ '' '' @ show_nat (unat (qs_blocks q))"
  using stat_line_text [of q] by (simp add: stat_line_def)

lemma scan_stat_text: "stat_ok q \<Longrightarrow> scan_stat (stat_text q) = Some q"
  using scan_u64 [of "[]" "qs_blocks q"]
  by (simp add: scan_stat_def scan_ok_def starts_with_def stat_text_eq scan_simps stat_ok_def)

lemma stat_text_plain: "LF \<notin> set (stat_text q)" "NUL \<notin> set (stat_text q)"
  by (auto simp: stat_text_eq show_nat_plain show_int_plain) (auto simp: LF_def)

lemma length_stat_text: "stat_ok q \<Longrightarrow> length (stat_text q) \<le> 172"
  using length_show_u32 [of "qs_mode q"] length_show_u32 [of "qs_uid q"] length_show_u32 [of "qs_gid q"]
    length_show_u32 [of "qs_nlink q"] length_show_u64 [of "qs_ino q"] length_show_u64 [of "qs_rdev q"]
    length_show_u64 [of "qs_blocks q"] length_show_s64 [of "qs_size q"] length_show_s64 [of "qs_mtime q"] length_show_s64 [of "qs_atime q"]
  by (simp add: stat_text_eq stat_ok_def)

section \<open>Requests on an idle connection\<close>

lemma idle_simps [simp]: "(idle v)\<lparr>cn_in := []\<rparr> = idle v" "cn_fs (idle v) = v" "cn_peer (idle v)" "srv_at v [] = idle v"
  by (simp_all add: idle_def srv_at_def)

lemma reply_idle: "write_n b ((idle v)\<lparr>cn_out := o1\<rparr>) = (True, (idle v)\<lparr>cn_out := o1 @ b\<rparr>)"
  "write_n b (idle v) = (True, srv_at v b)"
  by (simp_all add: write_n_def idle_def srv_at_def)

lemma plain_pathD: "plain_path p \<Longrightarrow> LF \<notin> set p" "plain_path p \<Longrightarrow> NUL \<notin> set p" "plain_path p \<Longrightarrow> length p < 4096"
  by (simp_all add: plain_path_def PATH_MAX_def)

definition err_line :: "int \<Rightarrow> string" where
  "err_line x = ''ERR '' @ show_int x"

lemma err_text: "0 < x \<Longrightarrow> x < 2 ^ 31 \<Longrightarrow> reply_err x (idle v) = (True, srv_at v (err_line x @ [LF]))"
  using length_show_nat [of "nat x" 9]
  by (simp add: reply_err_def reply_idle snprintf_n_fits show_int_def nat_less_iff err_line_def)

lemma err_line_scan: "scan_ok (err_line x) = None" "0 < x \<Longrightarrow> x < 2 ^ 31 \<Longrightarrow> reply_rc (err_line x) = - x"
  using scan_int_show_int [of x "[]"]
  by (simp_all add: err_line_def scan_ok_def starts_with_def reply_rc_def scan_err_def scan_ws)

lemma err_line_plain: "LF \<notin> set (err_line x)" "cstr (err_line x) = err_line x"
  using show_int_plain [of x] by (auto simp: err_line_def LF_def intro!: cstr_id)

lemma length_err: "0 < x \<Longrightarrow> x < 2 ^ 31 \<Longrightarrow> length (err_line x) \<le> 14"
  using length_show_nat [of "nat x" 9] by (simp add: show_int_def nat_less_iff err_line_def)

lemma os_upd_same: "st_os r = os \<Longrightarrow> os_upd r os = r"
  by (simp add: os_upd_def)

lemma ask_err:
  assumes "linked r" and "st_os r = idle v" and "concat req = l @ LF # payload" and "LF \<notin> set l" and "length l < 8192"
    and "handle vf (cstr l) ((idle v)\<lparr>cn_in := payload\<rparr>) = reply_err x (idle v')" and "0 < x" "x < 2 ^ 31" "16 < lcap"
  shows "ukfs_ask (srv_env vf) req lcap r = (Some (mt_sock (g_m r ! am r), err_line x), os_upd r (idle v'))"
  using ask_served [OF assms(1-5) assms(6) [unfolded err_text [OF assms(7,8)]] err_line_plain(1), of lcap]
    length_err [OF assms(7,8)] assms(9) by (simp add: err_line_plain(2))

text \<open>A status request and a read, from the client to the engine and back.\<close>

lemma wire_stat:
  assumes "linked r" and "st_os r = idle v" and "plain_path rel" and "\<And>q. vf_stat vf (np rel) v = Some q \<Longrightarrow> stat_ok q"
  shows "ukfs_query_stat (srv_env vf) rel r =
    (case vf_stat vf (np rel) v of None \<Rightarrow> Inl (- 2) | Some q \<Rightarrow> Inr q, r)"
proof -
  note pp = plain_pathD [OF assms(3)]
  let ?l = "''STAT '' @ rel"
  have q: "concat [snprintf_n (PATH_MAX + 16) (''STAT '' @ rel @ [LF])] = ?l @ LF # []"
    using pp(3) by (simp add: snprintf_n_fits PATH_MAX_def)
  have l: "LF \<notin> set ?l" "length ?l < 8192" "cstr ?l = ?l" using pp by (auto simp: LF_def intro!: cstr_id)
  have h: "handle vf ?l (idle v) = do_stat vf (np rel) (idle v)"
    by (simp add: handle_def scan_mount_def scan_lit_def starts_with_def handle_path_def)
  show ?thesis
  proof (cases "vf_stat vf (np rel) v")
    case None
    have "handle vf (cstr ?l) ((idle v)\<lparr>cn_in := []\<rparr>) = reply_err ENOENT (idle v)"
      using None unfolding l(3) idle_simps h by (simp add: do_stat_def)
    from ask_err [OF assms(1,2) q l(1,2) this, of 256] show ?thesis using None assms(1,2)
      by (simp add: ukfs_query_stat_def linked_active ENOENT_def scan_stat_def err_line_scan os_upd_same)
  next
    case (Some a)
    note a = assms(4) [OF Some]
    have "handle vf (cstr ?l) ((idle v)\<lparr>cn_in := []\<rparr>) = (True, srv_at v (stat_text a @ LF # []))"
      using Some length_stat_text [OF a] unfolding l(3) idle_simps h
      by (simp add: do_stat_def stat_line_text snprintf_n_fits reply_idle)
    from ask_served [OF assms(1,2) q l(1,2) this stat_text_plain(1), of 256] length_stat_text [OF a]
    show ?thesis using Some assms(1,2)
      by (simp add: ukfs_query_stat_def linked_active scan_stat_text [OF a] cstr_id stat_text_plain(2)
          srv_at_def idle_def os_upd_same)
  qed
qed

lemma wire_read:
  assumes "linked r" and "st_os r = idle v" and "plain_path rel" "rel = SLASH # p" and "- (2 ^ 63) \<le> off" "off < 2 ^ 63" "len < 2 ^ 63"
    and "vf_malloc vf (max 1 len)" and "\<And>d. vf_read_file vf (np rel) len off v = Some d \<Longrightarrow> length d \<le> len"
  shows "ukfs_read_at (srv_env vf) rel off len r = (vf_read_file vf (np rel) len off v, r)"
proof -
  note pp = plain_pathD [OF assms(3)]
  let ?l = "''READ '' @ show_int off @ '' '' @ show_nat len @ '' '' @ rel"
  have n: "length (show_int off) \<le> 20" "length (show_nat len) \<le> 19"
    using length_show_s64 [OF assms(5,6)] length_show_nat [of len 18] assms(7) by simp_all
  have q: "concat [snprintf_n (PATH_MAX + 48) (''READ '' @ show_int off @ '' '' @ show_nat len @ '' '' @ rel @ [LF])] = ?l @ LF # []"
    using n pp(3) by (simp add: snprintf_n_fits PATH_MAX_def)
  have l: "LF \<notin> set ?l" "length ?l < 8192" "cstr ?l = ?l"
    using n pp by (auto simp: show_nat_plain show_int_plain intro!: cstr_id) (auto simp: LF_def)
  have sc: "scan_num2_path ''READ'' ?l = Some (off, len, np rel)"
    using scan_long_show_int [OF assms(5,6), of "'' '' @ show_nat len @ '' '' @ rel"] scan_ulong_show_nat [of len "'' '' @ rel"] assms(4,7)
    by (simp add: scan_num2_path_def scan_lit_def starts_with_def scan_ws skip_ws_def is_space_def unat_u64)
  have h: "handle vf ?l c = do_read vf off len (np rel) c" for c
    using sc by (simp add: handle_def scan_mount_def scan_lit_def starts_with_def handle_path_def handle_num_def)
  show ?thesis
  proof (cases "vf_read_file vf (np rel) len off v")
    case None
    have "handle vf (cstr ?l) ((idle v)\<lparr>cn_in := []\<rparr>) = reply_err ENOENT (idle v)"
      unfolding l(3) idle_simps h using None assms(8) by (simp add: do_read_def)
    from ask_err [OF assms(1,2) q l(1,2) this, of 64] show ?thesis using None assms(1,2)
      by (simp add: ukfs_read_at_def linked_active ENOENT_def ukfs_data_def err_line_scan os_upd_same)
  next
    case (Some d)
    note d = assms(9) [OF Some]
    let ?a = "''OK '' @ show_nat (length d)"
    have nd: "length (show_nat (length d)) \<le> 19" using length_show_nat [of "length d" 18] d assms(7) by simp
    have a: "LF \<notin> set ?a" "cstr ?a = ?a" by (auto simp: show_nat_plain intro!: cstr_id) (auto simp: LF_def)
    have "handle vf (cstr ?l) ((idle v)\<lparr>cn_in := []\<rparr>) = (True, srv_at v (?a @ LF # d))"
      unfolding l(3) idle_simps h using Some assms(8) nd
      by (simp add: do_read_def reply_data_def snprintf_n_fits reply_idle) (simp add: write_n_def srv_at_def idle_def)
    from ask_served [OF assms(1,2) q l(1,2) this a(1), of 64] nd have
      "ukfs_read_at (srv_env vf) rel off len r = ukfs_data (srv_env vf) (mt_sock (g_m r ! am r)) ?a len (os_upd r (srv_at v d))"
      unfolding a(2) using assms(1) by (simp add: ukfs_read_at_def linked_active)
    also have "... = (Some d, r)"
      using scan_long_show_int [of "int (length d)" "[]"] d assms(2,7)
        srv.rn_loop_reads [of "length d" "length d" d vf "mt_sock (g_m r ! am r)" "[]" v]
      by (auto simp: ukfs_data_def scan_ok_def starts_with_def scan_ws show_int_def min_absorb1 uksd_rn_def os_upd_def Let_def)
    finally show ?thesis using Some by simp
  qed
qed

lemma mem_mount_linked: "linked (mem_mount v)" "st_os (mem_mount v) = idle v"
  by (simp_all add: linked_def am_ok_def mem_mount_def UK_MAXM_def rst_init_def ukm_zero_def)

lemma mem_plain: "plain_path ''/a''" "plain_path ''/b''" "np ''/a'' = ''a''" "np ''/b'' = ''b''"
  by (simp_all add: plain_path_def LF_def PATH_MAX_def np_def)

section \<open>Image names the requests do not carry\<close>

text \<open>A suffix \<^verbatim>\<open>pN\<close> is cut off any token, also off the name of an image file.\<close>

lemma image_name_cut_at_suffix: "do_parts vf ''/sdcard/backup2'' c = do_parts vf ''/sdcard/backu'' c"
proof -
  have "snd (part_suffix ''/sdcard/backup2'' 512) = ''/sdcard/backu''" "snd (part_suffix ''/sdcard/backu'' 512) = ''/sdcard/backu''"
    by (simp_all add: part_suffix_def is_digit_def snprintf_n_def Let_def)
  then show ?thesis by (simp add: do_parts_def)
qed

text \<open>A space ends the token: the image of a loop device with a space in its name is not mounted.\<close>

lemma image_name_cut_at_space:
  "handle vf ''MOUNT auto /sdcard/my disk.img 0 0'' c = do_mount_token vf ''auto'' ''/sdcard/my'' c"
  by (simp add: handle_def scan_mount_def scan_lit_def starts_with_def scan_word_def skip_ws_def is_space_def
      scan_long_def scan_sign_def scan_digits_def is_digit_def)

section \<open>Properties\<close>

text \<open>
  C7. A stat through the redirect and the daemon is a stat of the engine: on a connected
  mount, \<open>ukfs_query_stat\<close> of a path without newlines returns exactly the attributes the
  engine behind ukfsd has for it (all ten fields survive printing and parsing), or "no
  such file" if it has none, and leaves the connection idle.
\<close>

theorem stat_over_the_wire:
  assumes "linked r" and "st_os r = idle v" and "plain_path rel" and "\<And>q. vf_stat vf (np rel) v = Some q \<Longrightarrow> stat_ok q"
  shows "ukfs_query_stat (srv_env vf) rel r =
    (case vf_stat vf (np rel) v of None \<Rightarrow> Inl (- 2) | Some q \<Rightarrow> Inr q, r)"
  using assms by (rule wire_stat)

theorem stat_over_the_wire_witness:
  "ukfs_query_stat (srv_env mem_vfs) ''/a'' (mem_mount [''a'' \<mapsto> ''data'']) =
   (Inr \<lparr>qs_mode = 0x81A4, qs_uid = 0, qs_gid = 0, qs_size = 4, qs_ino = 1, qs_mtime = 0, qs_atime = 0,
      qs_nlink = 1, qs_rdev = 0, qs_blocks = 1\<rparr>, mem_mount [''a'' \<mapsto> ''data''])"
  by (subst stat_over_the_wire [OF mem_mount_linked mem_plain(1)]) (simp_all add: mem_vfs_def mem_plain stat_ok_def)

text \<open>
  C16. A read through the redirect and the daemon returns the engine's bytes, whatever they
  are: the data of a file at an offset comes back unchanged and complete, and a file the
  engine cannot read gives an error; the connection is idle again in both cases.
\<close>

theorem read_over_the_wire:
  assumes "linked r" and "st_os r = idle v" and "plain_path rel" "rel = SLASH # p" and "- (2 ^ 63) \<le> off" "off < 2 ^ 63" "len < 2 ^ 63"
    and "vf_malloc vf (max 1 len)" and "\<And>d. vf_read_file vf (np rel) len off v = Some d \<Longrightarrow> length d \<le> len"
  shows "ukfs_read_at (srv_env vf) rel off len r = (vf_read_file vf (np rel) len off v, r)"
  using assms by (rule wire_read)

theorem read_over_the_wire_witness:
  "ukfs_read_at (srv_env mem_vfs) ''/a'' 1 100 (mem_mount [''a'' \<mapsto> [LF, NUL, LF]]) = (Some [NUL, LF], mem_mount [''a'' \<mapsto> [LF, NUL, LF]])"
  by (subst read_over_the_wire [OF mem_mount_linked mem_plain(1), of "''a''"]) (auto simp: mem_vfs_def mem_plain)

text \<open>
  C6. A write through the redirect and the daemon is a write of the engine: the engine gets
  exactly the guest's bytes at the guest's offset, its state afterwards is the one after
  its write, and the number of bytes returned is the length of the buffer, or -1 if the
  engine failed.
\<close>

theorem write_over_the_wire:
  assumes "linked r" and "st_os r = idle v" and "plain_path rel" "rel = SLASH # p" and "- (2 ^ 63) \<le> off" "off < 2 ^ 63" "length buf < 2 ^ 63"
    and "vf_malloc vf (max 1 (length buf))" and "vf_write_file_at vf (np rel) buf off v = (n, v')" and "- 4095 \<le> n"
  shows "ukfs_write_at (srv_env vf) rel off buf r = (if n < 0 then - 1 else int (length buf), os_upd r (idle v'))"
proof -
  note pp = plain_pathD [OF assms(3)]
  let ?l = "''WRITE '' @ show_int off @ '' '' @ show_nat (length buf) @ '' '' @ rel"
  have n: "length (show_int off) \<le> 20" "length (show_nat (length buf)) \<le> 19"
    using length_show_s64 [OF assms(5,6)] length_show_nat [of "length buf" 18] assms(7) by simp_all
  have q: "concat [snprintf_n (PATH_MAX + 48) (''WRITE '' @ show_int off @ '' '' @ show_nat (length buf) @ '' '' @ rel @ [LF]), buf] = ?l @ LF # buf"
    using n pp(3) by (simp add: snprintf_n_fits PATH_MAX_def)
  have l: "LF \<notin> set ?l" "length ?l < 8192" "cstr ?l = ?l"
    using n pp by (auto simp: show_nat_plain show_int_plain intro!: cstr_id) (auto simp: LF_def)
  have sc: "scan_num2_path ''WRITE'' ?l = Some (off, length buf, np rel)"
    using scan_long_show_int [OF assms(5,6), of "'' '' @ show_nat (length buf) @ '' '' @ rel"]
      scan_ulong_show_nat [of "length buf" "'' '' @ rel"] assms(4,7)
    by (simp add: scan_num2_path_def scan_lit_def starts_with_def scan_ws skip_ws_def is_space_def unat_u64)
  have "handle vf ?l c = do_write vf off (length buf) (np rel) c" for c
    using sc by (simp add: handle_def scan_mount_def scan_lit_def starts_with_def handle_path_def handle_num_def scan_num2_path_def)
  then have h: "handle vf (cstr ?l) ((idle v)\<lparr>cn_in := buf\<rparr>) = do_write vf off (length buf) (np rel) ((idle v)\<lparr>cn_in := buf\<rparr>)"
    unfolding l(3) by simp
  have i: "(idle v)\<lparr>cn_in := [], cn_fs := v'\<rparr> = idle v'" "sint (word_of_nat (length buf) :: u64) = int (length buf)"
    using assms(7) s64_id [of "int (length buf)"] by (simp_all add: idle_def s64_def)
  show ?thesis
  proof (cases "n < 0")
    case True
    define k where "k = as_errno n EIO"
    have x: "0 < k" "k < 2 ^ 31" using True assms(10) sint_s32 [of "- n"] by (auto simp: k_def as_errno_def EIO_def)
    have "handle vf (cstr ?l) ((idle v)\<lparr>cn_in := buf\<rparr>) = reply_err k (idle v')"
      unfolding h using True assms(8,9) by (simp add: do_write_def read_n_def k_def) (simp add: idle_def)
    from ask_err [OF assms(1,2) q l(1,2) this x, of 64] show ?thesis using True assms(1)
      by (simp add: ukfs_write_at_def linked_active err_line_scan)
  next
    case False
    let ?a = "''OK '' @ show_nat (length buf)"
    have a: "LF \<notin> set ?a" "cstr ?a = ?a" by (auto simp: show_nat_plain intro!: cstr_id) (auto simp: LF_def)
    have "handle vf (cstr ?l) ((idle v)\<lparr>cn_in := buf\<rparr>) = (True, srv_at v' (?a @ LF # []))"
      unfolding h using False assms(8,9) n
      by (simp add: do_write_def read_n_def i snprintf_n_fits show_int_def) (simp add: write_n_def srv_at_def idle_def)
    from ask_served [OF assms(1,2) q l(1,2) this a(1), of 64] n show ?thesis unfolding a(2)
      using False assms(1,7) scan_long_show_int [of "int (length buf)" "[]"]
      by (simp add: ukfs_write_at_def linked_active scan_ok_def starts_with_def scan_ws show_int_def)
  qed
qed

theorem write_over_the_wire_witness:
  "ukfs_write_at (srv_env mem_vfs) ''/a'' 0 [LF, NUL, LF] (mem_mount Map.empty) =
   (3, os_upd (mem_mount Map.empty) (idle [''a'' \<mapsto> [LF, NUL, LF]]))"
  by (subst write_over_the_wire [OF mem_mount_linked mem_plain(1), where p = "''a''" and n = 3 and v' = "[''a'' \<mapsto> [LF, NUL, LF]]"])
     (simp_all add: mem_vfs_def mem_plain)

text \<open>
  C8. A rename through the redirect and the daemon is a rename of the engine, whatever bytes
  the two names consist of (newlines included): the names travel with their lengths. The
  engine's state is the one after its rename, and the result is its error number; a bare
  -1 of the engine becomes EIO.
\<close>

theorem rename_over_the_wire:
  assumes "linked r" and "st_os r = idle v" and "NUL \<notin> set a" "NUL \<notin> set b" "length a < 2 ^ 63" "length b < 2 ^ 63"
    and "vf_malloc vf (length a + 1)" "vf_malloc vf (length b + 1)"
    and "vf_rename vf (np a) (np b) v = (rc, v')" and "- 4095 \<le> rc"
  shows "ukfs_two_path (srv_env vf) ''RENAME'' a b r =
    (if 0 \<le> rc then 0 else if rc = - 1 then - EIO else rc, os_upd r (idle v'))"
proof -
  let ?l = "''RENAME '' @ show_nat (length a) @ '' '' @ show_nat (length b)"
  have n: "length (show_nat (length a)) \<le> 19" "length (show_nat (length b)) \<le> 19"
    using length_show_nat [of "length a" 18] length_show_nat [of "length b" 18] assms(5,6) by simp_all
  have q: "concat [snprintf_n 64 (''RENAME'' @ '' '' @ show_nat (length a) @ '' '' @ show_nat (length b) @ [LF]), a, b] = ?l @ LF # (a @ b)"
    using n by (simp add: snprintf_n_fits)
  have l: "LF \<notin> set ?l" "length ?l < 8192" "cstr ?l = ?l"
    using n by (auto simp: show_nat_plain LF_def [symmetric] intro!: cstr_id) (auto simp: LF_def)
  have w: "unat (word_of_nat (length a) :: u64) = length a" "unat (word_of_nat (length b) :: u64) = length b"
    using assms(5,6) by (simp_all add: unat_u64)
  have sc: "scan_two ''RENAME'' ?l = Some (length a, length b)"
    using scan_ulong_show_nat [of "length a" "'' '' @ show_nat (length b)"] scan_ulong_show_nat [of "length b" "[]"] assms(5,6) w
    by (simp add: scan_two_def scan_lit_def starts_with_def scan_ws)
  have "handle vf ?l c = do_two_path vf True (length a) (length b) c" for c
    using sc
    by (simp add: handle_def scan_mount_def scan_lit_def starts_with_def handle_path_def handle_num_def
        scan_num2_path_def scan_num_path_def scan_chown_def scan_utime_def)
  moreover have "do_two_path vf True (length a) (length b) ((idle v)\<lparr>cn_in := a @ b\<rparr>) = reply_res EIO (rc, v') (idle v)"
    using assms(3-9) by (simp add: do_two_path_def read_n_def cstr_id idle_def)
  ultimately have h: "handle vf (cstr ?l) ((idle v)\<lparr>cn_in := a @ b\<rparr>) =
      (if rc < 0 then reply_err (as_errno rc EIO) (idle v') else reply_ok (idle v'))"
    unfolding l(3) by (simp add: reply_res_def idle_def)
  show ?thesis
  proof (cases "rc < 0")
    case True
    define k where "k = as_errno rc EIO"
    have x: "k = (if rc = - 1 then EIO else - rc)" "0 < k" "k < 2 ^ 31"
      using True assms(10) sint_s32 [of "- rc"] by (auto simp: k_def as_errno_def EIO_def)
    from ask_err [OF assms(1,2) q l(1,2) _ x(2,3), of vf v' 64] h [folded k_def] True show ?thesis using assms(1)
      by (simp add: ukfs_two_path_def linked_active err_line_scan(2) [OF x(2,3)]) (simp add: x(1))
  next
    case False
    with h have "handle vf (cstr ?l) ((idle v)\<lparr>cn_in := a @ b\<rparr>) = (True, srv_at v' (''OK'' @ LF # []))"
      by (simp add: reply_ok_def reply_idle)
    from ask_served [OF assms(1,2) q l(1,2) this, of 64] False show ?thesis using assms(1)
      by (simp add: ukfs_two_path_def linked_active LF_def reply_rc_def starts_with_def cstr_id)
  qed
qed

theorem rename_over_the_wire_witness:
  "ukfs_two_path (srv_env mem_vfs) ''RENAME'' ''/a'' (''/b'' @ [LF]) (mem_mount [''a'' \<mapsto> ''data'']) =
   (0, os_upd (mem_mount [''a'' \<mapsto> ''data'']) (idle [''b'' @ [LF] \<mapsto> ''data'']))"
  by (subst rename_over_the_wire [OF mem_mount_linked, where rc = 0 and v' = "[''b'' @ [LF] \<mapsto> ''data'']"])
     (simp_all add: mem_vfs_def np_def LF_def fun_eq_iff)

text \<open>
  A newline in a path is a new request: a stat of a name with a newline and the text of an
  UNLINK request removes that other file, and its reply is still in the connection when
  the stat returns, so that every later operation of the mount reads the reply of an
  earlier one.
\<close>

theorem newline_injects_request:
  assumes "linked r" and "st_os r = idle v" and "plain_path p" "plain_path f" "length p + length f + 8 < PATH_MAX"
    and "vf_stat vf (np p) v = Some q" "stat_ok q" and "vf_unlink vf (np f) v = (0, v')"
  shows "ukfs_query_stat (srv_env vf) (p @ LF # ''UNLINK '' @ f) r = (Inr q, os_upd r (srv_at v' (''OK'' @ [LF])))"
proof -
  note pp = plain_pathD [OF assms(3)] and pf = plain_pathD [OF assms(4)]
  let ?l = "''STAT '' @ p" and ?m = "''UNLINK '' @ f"
  let ?c = "(idle v)\<lparr>cn_in := ?l @ LF # (?m @ LF # [])\<rparr>" and ?c1 = "(idle v)\<lparr>cn_in := ?m @ LF # [], cn_out := stat_text q @ [LF]\<rparr>"
    and ?c2 = "(idle v')\<lparr>cn_out := stat_text q @ LF # ''OK'' @ [LF]\<rparr>"
  have l: "LF \<notin> set ?l" "length ?l < 8192" "cstr ?l = ?l" "LF \<notin> set ?m" "length ?m < 8192" "cstr ?m = ?m"
    using pp pf by (auto simp: LF_def intro!: cstr_id)
  have "handle vf ?l ((idle v)\<lparr>cn_in := ?m @ LF # []\<rparr>) = (True, ?c1)"
    using assms(6) length_stat_text [OF assms(7)]
    by (simp add: handle_def scan_mount_def scan_lit_def starts_with_def handle_path_def do_stat_def stat_line_text snprintf_n_fits)
       (simp add: write_n_def idle_def)
  moreover have "handle vf ?m ((idle v)\<lparr>cn_in := [], cn_out := stat_text q @ [LF]\<rparr>) = (True, ?c2)"
    using assms(8)
    by (simp add: handle_def scan_mount_def scan_lit_def starts_with_def handle_path_def reply_res_def reply_ok_def)
       (simp add: write_n_def idle_def)
  ultimately have "serve vf ?c = Some ?c2"
    using serve_line [OF l(1,2), of vf "?m @ LF # []" "idle v" ?c1]
      serve_line [OF l(4,5), of vf "[]" "(idle v)\<lparr>cn_out := stat_text q @ [LF]\<rparr>" ?c2] l(3,6)
    by (simp add: serve_empty idle_def)
  then have s: "served vf ?c = srv_at v' (stat_text q @ LF # ''OK'' @ [LF])" by (simp add: served_def srv_at_def idle_def)
  have "concat [snprintf_n (PATH_MAX + 16) (''STAT '' @ (p @ LF # ''UNLINK '' @ f) @ [LF])] = ?l @ LF # (?m @ LF # [])"
    using assms(5) by (simp add: snprintf_n_fits)
  with s have "served vf ((idle v)\<lparr>cn_in := concat [snprintf_n (PATH_MAX + 16) (''STAT '' @ (p @ LF # ''UNLINK '' @ f) @ [LF])]\<rparr>) =
      srv_at v' (stat_text q @ LF # ''OK'' @ [LF])" by metis
  from ask_raw [OF assms(1,2) this stat_text_plain(1), of 256] length_stat_text [OF assms(7)] show ?thesis
    by (simp add: ukfs_query_stat_def linked_active [OF assms(1)] cstr_id stat_text_plain(2) scan_stat_text [OF assms(7)])
qed

theorem newline_injects_request_witness:
  "\<exists>q. ukfs_query_stat (srv_env mem_vfs) (''/a'' @ LF # ''UNLINK '' @ ''/b'') (mem_mount [''a'' \<mapsto> ''x'', ''b'' \<mapsto> ''y'']) =
     (Inr q, os_upd (mem_mount [''a'' \<mapsto> ''x'', ''b'' \<mapsto> ''y'']) (srv_at [''a'' \<mapsto> ''x''] (''OK'' @ [LF])))"
  by (rule exI, rule newline_injects_request [OF mem_mount_linked mem_plain(1,2)])
     (simp_all add: mem_vfs_def mem_plain stat_ok_def PATH_MAX_def fun_eq_iff, simp)

text \<open>
  C20. Serving a connection ends: whatever bytes the client sent, the loop of \<open>serve\<close> returns
  once they are consumed, because every request takes at least one byte of them.
\<close>

theorem serve_terminates: "\<exists>c'. serve vf c = Some c'"
proof (induction "length (cn_in c)" arbitrary: c rule: less_induct)
  case less
  obtain ok c1 where s: "serve_one vf c = (ok, c1)" by (rule prod.exhaust)
  show ?case
  proof (cases "cn_in c = []")
    case False
    have "length (cn_in c1) < length (cn_in c)" using serve_one_in [OF False, of vf] s by simp
    then show ?thesis using less [of c1] s by (subst serve.simps) simp
  qed (simp add: serve_empty)
qed

end
