(* ===== verification/Vfd.thy ===== *)
theory Vfd
  imports UkClient
begin

unbundle bit_operations_syntax

text \<open>
  Virtual descriptors of \<^verbatim>\<open>proot/patches/uknl_fs_redirect.c\<close>: the table that binds a guest
  descriptor to a path of a mount, its inheritance by forked processes, the pending opens
  and results, directory listings, the resolution of paths relative to a descriptor, the
  redirection of an open, and the two copies between a placeholder file and the mount.
\<close>

section \<open>The table\<close>

definition upd_v :: "nat \<Rightarrow> (ukfs_vfd \<Rightarrow> ukfs_vfd) \<Rightarrow> 'o rst \<Rightarrow> 'o rst" where
  "upd_v i f r = r\<lparr>g_vfd := (g_vfd r)[i := f (g_vfd r ! i)]\<rparr>"

definition vfd_find :: "int \<Rightarrow> int \<Rightarrow> 'o rst \<Rightarrow> nat option" where
  "vfd_find pid fd r = find_idx (\<lambda>v. v_used v \<and> v_pid v = pid \<and> v_fd v = fd) (g_vfd r)"

definition vfd_alloc :: "'o rst \<Rightarrow> nat option" where
  "vfd_alloc r = find_idx (\<lambda>v. \<not> v_used v) (g_vfd r)"

definition vfd_free :: "nat \<Rightarrow> 'o rst \<Rightarrow> 'o rst" where
  "vfd_free i r = upd_v i (\<lambda>_. vfd_zero) r"

text \<open>The two loops of \<open>uknl_fs_pid_gone\<close>: descriptors of the mount, then loop nodes.\<close>

definition lofd_gone :: "'o env \<Rightarrow> int \<Rightarrow> 'o rst \<Rightarrow> nat \<Rightarrow> 'o rst" where
  "lofd_gone e pid r i =
     (let x = g_lofd r ! i in
      if lf_used x \<and> lf_pid x = pid then upd_lofd i (\<lambda>_. uklofd_zero) (close_fd e (lf_hostfd x) r) else r)"

definition uknl_fs_pid_gone :: "'o env \<Rightarrow> int \<Rightarrow> 'o rst \<Rightarrow> 'o rst" where
  "uknl_fs_pid_gone e pid r =
     foldl (lofd_gone e pid)
       (r\<lparr>g_vfd := map (\<lambda>v. if v_used v \<and> v_pid v = pid then vfd_zero else v) (g_vfd r)\<rparr>) [0..<length (g_lofd r)]"

section \<open>Inheritance\<close>

text \<open>\<open>g_inh_tgid\<close> is the live part of the array; the result tells whether the group was there.\<close>

definition inh_mark :: "int \<Rightarrow> 'o rst \<Rightarrow> bool \<times> 'o rst" where
  "inh_mark tg r =
     (if tg \<in> set (g_inh_tgid r) then (True, r)
      else (False, r\<lparr>g_inh_tgid := (if 512 \<le> length (g_inh_tgid r) then [] else g_inh_tgid r) @ [tg]\<rparr>))"

text \<open>Copying the descriptors \<open>is\<close> of an ancestor to the group \<open>tg\<close>.\<close>

fun inh_copy :: "int \<Rightarrow> nat list \<Rightarrow> 'o rst \<Rightarrow> 'o rst" where
  "inh_copy tg [] r = r"
| "inh_copy tg (i # is) r =
     (let v = g_vfd r ! i in
      if vfd_find tg (v_fd v) r \<noteq> None then inh_copy tg is r
      else case vfd_alloc r of
        None \<Rightarrow> r
      | Some n \<Rightarrow> inh_copy tg is (upd_v n (\<lambda>_. v\<lparr>v_pid := tg, v_dents := None, v_dent_n := 0, v_dent_idx := 0\<rparr>) r))"

definition group_vfds :: "int \<Rightarrow> 'o rst \<Rightarrow> nat list" where
  "group_vfds ptg r = filter (\<lambda>i. v_used (g_vfd r ! i) \<and> v_pid (g_vfd r ! i) = ptg) [0..<length (g_vfd r)]"

fun inh_walk :: "'o env \<Rightarrow> nat \<Rightarrow> int \<Rightarrow> int \<Rightarrow> 'o rst \<Rightarrow> 'o rst" where
  "inh_walk e 0 tg tid r = r"
| "inh_walk e (Suc k) tg tid r =
     (let ppid = ukfs_ppid e tid r in
      if ppid \<le> 1 then r
      else
        let (ptg, r1) = ukfs_tgid e ppid r in
        if ptg \<noteq> tg \<and> group_vfds ptg r1 \<noteq> [] then inh_copy tg (group_vfds ptg r1) r1
        else inh_walk e k tg ppid r1)"

text \<open>The search activates the mount of the descriptor it finds.\<close>

definition vfd_lookup :: "'o env \<Rightarrow> int \<Rightarrow> int \<Rightarrow> 'o rst \<Rightarrow> nat option \<times> 'o rst" where
  "vfd_lookup e t fd r =
     (let (tg, r1) = ukfs_tgid e t r in
      case vfd_find tg fd r1 of
        Some i \<Rightarrow> (Some i, r1\<lparr>g_am := v_mnt (g_vfd r1 ! i)\<rparr>)
      | None \<Rightarrow>
          (case inh_mark tg r1 of
             (True, r2) \<Rightarrow> (None, r2)
           | (False, r2) \<Rightarrow>
               let r3 = inh_walk e 16 tg t r2 in
               (case vfd_find tg fd r3 of
                  None \<Rightarrow> (None, r3)
                | Some i \<Rightarrow> (Some i, r3\<lparr>g_am := v_mnt (g_vfd r3 ! i)\<rparr>))))"

section \<open>Pending results and opens\<close>

definition pend_res_set :: "int \<Rightarrow> sysnr \<Rightarrow> int \<Rightarrow> 'o rst \<Rightarrow> 'o rst" where
  "pend_res_set pid nr res r =
     (case find_idx (\<lambda>p. pr_used p \<and> pr_pid p = pid) (g_pend_res r) of
        Some i \<Rightarrow> r\<lparr>g_pend_res := (g_pend_res r)[i := (g_pend_res r ! i)\<lparr>pr_nr := nr, pr_res := res\<rparr>]\<rparr>
      | None \<Rightarrow>
          (case find_idx (\<lambda>p. \<not> pr_used p) (g_pend_res r) of
             None \<Rightarrow> r
           | Some i \<Rightarrow> r\<lparr>g_pend_res := (g_pend_res r)[i := \<lparr>pr_used = True, pr_pid = pid, pr_nr = nr, pr_res = res\<rparr>]\<rparr>))"

definition pend_res_take :: "int \<Rightarrow> sysnr \<Rightarrow> 'o rst \<Rightarrow> int option \<times> 'o rst" where
  "pend_res_take pid nr r =
     (case find_idx (\<lambda>p. pr_used p \<and> pr_pid p = pid \<and> pr_nr p = nr) (g_pend_res r) of
        None \<Rightarrow> (None, r)
      | Some i \<Rightarrow> (Some (pr_res (g_pend_res r ! i)), r\<lparr>g_pend_res := (g_pend_res r)[i := (g_pend_res r ! i)\<lparr>pr_used := False\<rparr>]\<rparr>))"

definition open_pending_set :: "int \<Rightarrow> bool \<Rightarrow> bool \<Rightarrow> string \<Rightarrow> string \<Rightarrow> 'o rst \<Rightarrow> 'o rst" where
  "open_pending_set pid isdir app path backing r =
     (case (case find_idx (\<lambda>p. op_used p \<and> op_pid p = pid) (g_open_pending r) of
              Some i \<Rightarrow> Some i | None \<Rightarrow> find_idx (\<lambda>p. \<not> op_used p) (g_open_pending r)) of
        None \<Rightarrow> r
      | Some i \<Rightarrow> r\<lparr>g_open_pending := (g_open_pending r)[i :=
          \<lparr>op_used = True, op_pid = pid, op_isdir = isdir, op_append = app, op_mnt = g_am r,
           op_path = snprintf_n PATH_MAX path, op_backing = snprintf_n 64 backing\<rparr>]\<rparr>)"

section \<open>Directories\<close>

definition dot_dents :: "ukfs_dent list" where
  "dot_dents = [\<lparr>de_ino = 0, de_type = 1, de_name = ''.''\<rparr>, \<lparr>de_ino = 0, de_type = 1, de_name = ''..''\<rparr>]"

text \<open>The callback of the engine's listing, entry by entry; \<open>cap\<close> is the room in the array.\<close>

fun fuse_dir_emit :: "'o env \<Rightarrow> (string \<times> u32) list \<Rightarrow> nat \<Rightarrow> ukfs_dent list \<Rightarrow> 'o \<Rightarrow> ukfs_dent list option \<times> 'o" where
  "fuse_dir_emit e [] cap ds os = (Some ds, os)"
| "fuse_dir_emit e ((nm, ty) # es) cap ds os =
     (if nm = ''.'' \<or> nm = ''..'' then fuse_dir_emit e es cap ds os
      else
        let nc = (if cap \<noteq> 0 then 2 * cap else 16);
            (ok, o1) = (if cap \<le> length ds then env_alloc e (nc * 272) os else (True, os)) in
        if \<not> ok then (None, o1)
        else fuse_dir_emit e es (if cap \<le> length ds then nc else cap)
               (ds @ [\<lparr>de_ino = 0, de_type = (if ty = 4 then 1 else if ty = 8 then 2 else 0), de_name = snprintf_n 256 nm\<rparr>]) o1)"

text \<open>The engine's listing as an operation on the redirect's state; \<open>None\<close> if it does not return.\<close>

definition eng_readdir :: "'o env \<Rightarrow> nat \<Rightarrow> string \<Rightarrow> 'o rst \<Rightarrow> ((int \<times> (string \<times> u32) list) \<times> 'o rst) option" where
  "eng_readdir e en path r =
     (case st_eng r en of
        None \<Rightarrow> Some ((- EIO, []), r)
      | Some (f, ci) \<Rightarrow>
          map_option (\<lambda>(res, (f', r')). (res, r'\<lparr>st_eng := (st_eng r')(en := Some (f', ci))\<rparr>))
            (fused_readdir (chan_fio e ci) path (f, r)))"

definition set_dents :: "nat \<Rightarrow> ukfs_dent list \<Rightarrow> 'o rst \<Rightarrow> 'o rst" where
  "set_dents i ds r = upd_v i (\<lambda>v. v\<lparr>v_dents := Some ds, v_dent_n := length ds, v_dent_idx := 0\<rparr>) r"

definition load_dir_fuse :: "'o env \<Rightarrow> nat \<Rightarrow> nat \<Rightarrow> 'o rst \<Rightarrow> (bool \<times> 'o rst) option" where
  "load_dir_fuse e en i r =
     (let (ok, o1) = env_alloc e (2 * 272) (st_os r); r1 = os_upd r o1 in
      if \<not> ok then Some (False, r1)
      else case eng_readdir e en (v_path (g_vfd r1 ! i)) r1 of
        None \<Rightarrow> None
      | Some ((rc, es), r2) \<Rightarrow>
          let (ds, o2) = fuse_dir_emit e es 2 dot_dents (st_os r2); r3 = os_upd r2 o2 in
          Some (case ds of
                  Some ds \<Rightarrow> if rc = 0 then (True, set_dents i ds r3)
                             else (False, upd_v i (\<lambda>v. v\<lparr>v_dents := None, v_dent_n := 0\<rparr>) r3)
                | None \<Rightarrow> (False, upd_v i (\<lambda>v. v\<lparr>v_dents := None, v_dent_n := 0\<rparr>) r3)))"

text \<open>The entries of the LIST reply: type, inode number, size, name length, name.\<close>

fun parse_blob :: "nat \<Rightarrow> bytes \<Rightarrow> ukfs_dent list" where
  "parse_blob 0 b = []"
| "parse_blob (Suc k) b =
     (if length b < 19 then []
      else
        let nl = unat (get16 17 b) in
        if length b < 19 + nl then []
        else \<lparr>de_ino = get64 1 b, de_type = int (of_char (b ! 0)), de_name = cstr (take (min nl 255) (drop 19 b))\<rparr>
               # parse_blob k (drop (19 + nl) b))"

definition load_dir_ukfsd :: "'o env \<Rightarrow> nat \<Rightarrow> 'o rst \<Rightarrow> bool \<times> 'o rst" where
  "load_dir_ukfsd e i r =
     (case ukfs_ask e [snprintf_n (PATH_MAX + 16) (''LIST '' @ v_path (g_vfd r ! i) @ [LF])] 64 r of
        (None, r1) \<Rightarrow> (False, r1)
      | (Some (s, line), r1) \<Rightarrow>
          (case do { s0 \<leftarrow> scan_ok line; (cnt, s1) \<leftarrow> scan_int s0; (n, s2) \<leftarrow> scan_ulong s1; Some (cnt, unat n) } of
             None \<Rightarrow> (False, r1)
           | Some (cnt, n) \<Rightarrow>
               if cnt < 0 then (False, r1)
               else
                 let (ok, o1) = (if n = 0 then (True, st_os r1) else env_alloc e n (st_os r1));
                     (blob, r2) = (if \<not> ok then (None, os_upd r1 o1)
                                   else if n = 0 then (Some [], r1)
                                   else case uksd_rn e s n (os_upd r1 o1) of
                                     (None, r2) \<Rightarrow> (None, ukfs_sdrop e r2) | (Some b, r2) \<Rightarrow> (Some b, r2)) in
                 (case blob of
                    None \<Rightarrow> (False, r2)
                  | Some b \<Rightarrow>
                      let (ok2, o2) = env_alloc e ((nat cnt + 2) * 272) (st_os r2); r3 = os_upd r2 o2 in
                      if ok2 then (True, set_dents i (dot_dents @ parse_blob (nat cnt) b) r3) else (False, r3))))"

definition ukfs_load_dir :: "'o env \<Rightarrow> nat \<Rightarrow> 'o rst \<Rightarrow> (bool \<times> 'o rst) option" where
  "ukfs_load_dir e i r =
     (case fuse_active e (r\<lparr>g_am := v_mnt (g_vfd r ! i)\<rparr>) of
        (Some en, r1) \<Rightarrow> load_dir_fuse e en i r1
      | (None, r1) \<Rightarrow> Some (load_dir_ukfsd e i r1))"

text \<open>\<open>struct linux_dirent64\<close> of the entry at position \<open>k\<close>, padded to a multiple of 8.\<close>

definition dirent64 :: "nat \<Rightarrow> ukfs_dent \<Rightarrow> bytes" where
  "dirent64 k d =
     (let nl = length (de_name d); reclen = (19 + nl + 1 + 7) div 8 * 8 in
      le64 (if de_ino d \<noteq> 0 then de_ino d else word_of_nat (k + 1)) @ le64 (word_of_nat (k + 1)) @
      le16 (word_of_nat reclen) @ [char_of (if de_type d = 1 then 4 else if de_type d = 2 then 8 else 0 :: nat)] @
      de_name d @ replicate (reclen - 19 - nl) NUL)"

text \<open>The records from position \<open>k\<close> on that fit; the new position and the bytes.\<close>

fun emit_loop :: "nat \<Rightarrow> ukfs_dent list \<Rightarrow> nat \<Rightarrow> bytes \<Rightarrow> nat \<times> bytes" where
  "emit_loop k [] cap out = (k, out)"
| "emit_loop k (d # ds) cap out =
     (let p = dirent64 k d in
      if cap < length out + length p then (k, out) else emit_loop (Suc k) ds cap (out @ p))"

definition ukfs_emit_dents :: "nat \<Rightarrow> nat \<Rightarrow> 'o rst \<Rightarrow> bytes \<times> 'o rst" where
  "ukfs_emit_dents i cap r =
     (let v = g_vfd r ! i;
          (k, out) = emit_loop (v_dent_idx v) (drop (v_dent_idx v) (take (v_dent_n v) (case v_dents v of None \<Rightarrow> [] | Some ds \<Rightarrow> ds))) cap [] in
      (out, upd_v i (\<lambda>v. v\<lparr>v_dent_idx := k\<rparr>) r))"

section \<open>Mount hooks\<close>

definition uknl_fs_mount_hook :: "'o env \<Rightarrow> int \<Rightarrow> 'o rst \<Rightarrow> bool \<times> 'o rst" where
  "uknl_fs_mount_hook e t r =
     (if \<not> env_fs_on e then (False, r)
      else case uknl_fuse_mount e t r of
        (True, r1) \<Rightarrow> (True, r1)
      | (False, r1) \<Rightarrow>
          (case env_path e t 1 r1 of
             None \<Rightarrow> (False, r1)
           | Some src \<Rightarrow>
               (case ukfs_src_mountable e src r1 of
                  (False, r2) \<Rightarrow> (False, r2)
                | (True, r2) \<Rightarrow>
                    (case env_path e t 2 r2 of
                       None \<Rightarrow> (False, r2)
                     | Some tgt \<Rightarrow> let (s, r3) = ukfs_register_any e src tgt r2 in (s \<noteq> None, r3)))))"

definition uknl_fs_umount_hook :: "'o env \<Rightarrow> int \<Rightarrow> 'o rst \<Rightarrow> bool \<times> 'o rst" where
  "uknl_fs_umount_hook e t r =
     (if \<not> env_fs_on e \<or> g_nm r = 0 then (False, r)
      else case env_path e t 1 r of
        None \<Rightarrow> (False, r)
      | Some tgt \<Rightarrow> ukfs_umount_target e t tgt r)"

section \<open>Paths relative to a descriptor\<close>

definition AT_FDCWD :: int where "AT_FDCWD = - 100"

definition ukfs_rel_at :: "'o env \<Rightarrow> int \<Rightarrow> int \<Rightarrow> string \<Rightarrow> nat \<Rightarrow> 'o rst \<Rightarrow> string option \<times> 'o rst" where
  "ukfs_rel_at e t dirfd path rsz r =
     (if hd (path @ [NUL]) = SLASH then ukfs_rel path rsz r
      else if dirfd = AT_FDCWD then ukfs_rel (snprintf_n PATH_MAX (t_cwd r t @ ''/'' @ path)) rsz r
      else case vfd_lookup e t dirfd r of
        (None, r1) \<Rightarrow> (None, r1)
      | (Some i, r1) \<Rightarrow>
          let v = g_vfd r1 ! i in
          (Some (snprintf_n rsz (if path = [] then v_path v
                                 else if v_path v = ''/'' then ''/'' @ path
                                 else v_path v @ ''/'' @ path)),
           r1\<lparr>g_am := v_mnt v\<rparr>))"

section \<open>Opening\<close>

definition O_CREAT :: u32 where "O_CREAT = 0x40"
definition O_EXCL :: u32 where "O_EXCL = 0x80"
definition O_TRUNC :: u32 where "O_TRUNC = 0x200"
definition O_APPEND :: u32 where "O_APPEND = 0x400"

text \<open>The value of \<^verbatim>\<open>O_DIRECTORY\<close> on aarch64.\<close>

definition O_DIRECTORY :: u32 where "O_DIRECTORY = 0x4000"

lemmas oflag_defs = O_CREAT_def O_EXCL_def O_TRUNC_def O_APPEND_def O_DIRECTORY_def

definition s_isdir :: "u32 \<Rightarrow> bool" where "s_isdir mode \<longleftrightarrow> mode AND 0xF000 = 0x4000"
definition s_isreg :: "u32 \<Rightarrow> bool" where "s_isreg mode \<longleftrightarrow> mode AND 0xF000 = 0x8000"

text \<open>\<open>set_sysarg_path\<close>: argument \<open>n\<close> of the call now names \<open>p\<close>.\<close>

definition set_sysarg_path :: "int \<Rightarrow> string \<Rightarrow> nat \<Rightarrow> 'o rst \<Rightarrow> 'o rst" where
  "set_sysarg_path t p n r = r\<lparr>t_argpath := (t_argpath r)(t := (t_argpath r t)(n := Some p))\<rparr>"

definition poke_arg :: "int \<Rightarrow> nat \<Rightarrow> u64 \<Rightarrow> 'o rst \<Rightarrow> 'o rst" where
  "poke_arg t n v r = r\<lparr>t_arg := (t_arg r)(t := (t_arg r t)(n := v))\<rparr>"

text \<open>The last part of the redirection: the placeholder and the note for the exit hook.\<close>

definition open_placeholder :: "int \<Rightarrow> string \<Rightarrow> bool \<Rightarrow> u32 \<Rightarrow> nat \<Rightarrow> 'o rst \<Rightarrow> int \<times> 'o rst" where
  "open_placeholder t rel isdir flags patharg r =
     (if isdir then
        (2, open_pending_set t True (flags AND O_APPEND \<noteq> 0) rel [] (set_sysarg_path t ''/'' patharg r))
      else
        let sq = g_ph_seq r + 1;
            backing = snprintf_n 64 (''/.ukfs_ph_'' @ show_int t @ ''_'' @ show_int sq) in
        (0, open_pending_set t False (flags AND O_APPEND \<noteq> 0) rel backing
              (set_sysarg_path t backing patharg (r\<lparr>g_ph_seq := sq\<rparr>))))"

text \<open>1: answered; 0: a file placeholder; 2: a directory placeholder; -1: not intercepted.\<close>

definition ukfs_open_redirect_arg :: "'o env \<Rightarrow> int \<Rightarrow> string \<Rightarrow> u32 \<Rightarrow> nat \<Rightarrow> 'o rst \<Rightarrow> int \<times> 'o rst" where
  "ukfs_open_redirect_arg e t rel flags patharg r =
     (case ukfs_query_stat e rel r of
        (Inl q, r1) \<Rightarrow>
          if q = - 1 then (- 1, r1)
          else if flags AND O_CREAT = 0 then (1, poke_void t (- ENOENT) r1)
          else
            (case ukfs_create_at e rel 0x81A4 r1 of
               (ce, r2) \<Rightarrow>
                 if ce < 0 then (1, poke_void t (if ce = - 1 then - EIO else ce) r2)
                 else if flags AND O_DIRECTORY \<noteq> 0 then (1, poke_void t (- ENOTDIR) r2)
                 else open_placeholder t rel False flags patharg r2)
      | (Inr q, r1) \<Rightarrow>
          let isdir = s_isdir (qs_mode q) in
          if flags AND O_CREAT \<noteq> 0 \<and> flags AND O_EXCL \<noteq> 0 then (1, poke_void t (- EEXIST) r1)
          else if flags AND O_DIRECTORY \<noteq> 0 \<and> \<not> isdir then (1, poke_void t (- ENOTDIR) r1)
          else
            let r2 = (if \<not> isdir \<and> flags AND O_TRUNC \<noteq> 0 then snd (ukfs_simple e ''TRUNCATE 0 '' rel r1) else r1) in
            open_placeholder t rel isdir flags patharg r2)"

definition ukfs_open_redirect :: "'o env \<Rightarrow> int \<Rightarrow> string \<Rightarrow> u32 \<Rightarrow> 'o rst \<Rightarrow> int \<times> 'o rst" where
  "ukfs_open_redirect e t rel flags r = ukfs_open_redirect_arg e t rel flags 2 r"

section \<open>Placeholder contents\<close>

definition proc_fd :: "int \<Rightarrow> int \<Rightarrow> string" where
  "proc_fd t fd = snprintf_n 64 (''/proc/'' @ show_int t @ ''/fd/'' @ show_int fd)"

text \<open>\<^verbatim>\<open>while (w < n) { k = pwrite(...); if (k <= 0) fail; w += k; }\<close>\<close>

function pwrite_all :: "'o env \<Rightarrow> int \<Rightarrow> bytes \<Rightarrow> int \<Rightarrow> 'o \<Rightarrow> bool \<times> 'o" where
  "pwrite_all e fd b off os =
     (if b = [] then (True, os)
      else case env_pwrite e fd b off os of (k, o1) \<Rightarrow>
        if k \<le> 0 then (False, o1) else pwrite_all e fd (drop (nat k) b) (off + k) o1)"
  by pat_completeness auto

termination
  by (relation "measure (\<lambda>(e, fd, b, off, os). length b)") auto

declare pwrite_all.simps [simp del]

text \<open>A read that returned nothing is repeated up to \<open>k\<close> times.\<close>

fun read_retry :: "'o env \<Rightarrow> nat \<Rightarrow> string \<Rightarrow> int \<Rightarrow> nat \<Rightarrow> bytes option \<times> 'o rst \<Rightarrow> bytes option \<times> 'o rst" where
  "read_retry e 0 rel off len (n, r) = (n, r)"
| "read_retry e (Suc k) rel off len (n, r) =
     (if n = Some [] then read_retry e k rel off len (ukfs_read_at e rel off len r) else (n, r))"

text \<open>The copy into the placeholder; the results are the position reached and whether it failed.\<close>

function populate_loop :: "'o env \<Rightarrow> string \<Rightarrow> int \<Rightarrow> int \<Rightarrow> int \<Rightarrow> 'o rst \<Rightarrow> int \<times> bool \<times> 'o rst" where
  "populate_loop e rel bfd sz off r =
     (if sz \<le> off then (off, False, r)
      else case read_retry e 16 rel off 65536 (ukfs_read_at e rel off 65536 r) of
        (None, r1) \<Rightarrow> (off, True, r1)
      | (Some d, r1) \<Rightarrow>
          if d = [] then (off, True, r1)
          else case pwrite_all e bfd d off (st_os r1) of
            (False, o1) \<Rightarrow> (off, True, os_upd r1 o1)
          | (True, o1) \<Rightarrow> populate_loop e rel bfd sz (off + int (length d)) (os_upd r1 o1))"
  by pat_completeness auto

termination
  by (relation "measure (\<lambda>(e, rel, bfd, sz, off, r). nat (sz - off))") (auto simp: nat_less_iff)

declare populate_loop.simps [simp del]

definition ukfs_populate_fd :: "'o env \<Rightarrow> int \<Rightarrow> int \<Rightarrow> string \<Rightarrow> 'o rst \<Rightarrow> 'o rst" where
  "ukfs_populate_fd e t fd rel r =
     (case ukfs_query_stat e rel r of
        (Inl _, r1) \<Rightarrow> r1
      | (Inr q, r1) \<Rightarrow>
          let (bfd, o1) = env_open e (proc_fd t fd) Wr (st_os r1) in
          if bfd < 0 then os_upd r1 o1
          else
            let (ok, o2) = env_alloc e 65536 o1;
                (off, failed, r2) = (if ok then populate_loop e rel bfd (qs_size q) 0 (os_upd r1 o2) else (0, True, os_upd r1 o2)) in
            close_fd e bfd (os_upd r2 (snd (env_ftruncate e bfd (qs_size q) (st_os r2)))))"

function flush_loop :: "'o env \<Rightarrow> string \<Rightarrow> int \<Rightarrow> int \<Rightarrow> int \<Rightarrow> 'o rst \<Rightarrow> 'o rst" where
  "flush_loop e path bfd en off r =
     (if en \<le> off then r
      else case env_pread e bfd 65536 off (st_os r) of
        (None, o1) \<Rightarrow> os_upd r o1
      | (Some d, o1) \<Rightarrow>
          if d = [] then os_upd r o1
          else case ukfs_write_at e path off d (os_upd r o1) of
            (n, r1) \<Rightarrow> if n < 0 then r1 else flush_loop e path bfd en (off + int (length d)) r1)"
  by pat_completeness auto

termination
  by (relation "measure (\<lambda>(e, path, bfd, en, off, r). nat (en - off))") (auto simp: nat_less_iff)

declare flush_loop.simps [simp del]

definition ukfs_flush_mmap :: "'o env \<Rightarrow> int \<Rightarrow> nat \<Rightarrow> int \<Rightarrow> 'o rst \<Rightarrow> 'o rst" where
  "ukfs_flush_mmap e t i fd r =
     (let (bfd, o1) = env_open e (proc_fd t fd) Rd (st_os r) in
      if bfd < 0 then os_upd r o1
      else
        let en = (case env_fsize e bfd o1 of None \<Rightarrow> - 1 | Some n \<Rightarrow> n);
            (ok, o2) = env_alloc e 65536 o1;
            r1 = (if ok \<and> 0 < en
                  then upd_v i (\<lambda>v. v\<lparr>v_wrote := True\<rparr>) (flush_loop e (v_path (g_vfd r ! i)) bfd en 0 (os_upd r o2))
                  else os_upd r o2) in
        close_fd e bfd r1)"

end
