(* ===== verification/FdOps.thy ===== *)
theory FdOps
  imports Vfd
begin

unbundle bit_operations_syntax

text \<open>
  The system calls of \<open>uknl_fs_dispatch\<close> that take a descriptor: each handler is one branch of
  the dispatcher. \<open>False\<close> lets the call run natively, \<open>True\<close> means that it was answered.
\<close>

section \<open>Answers\<close>

text \<open>\<open>answer\<close> is also noted for the exit hook (\<^verbatim>\<open>pend_res_set\<close>, then the poke).\<close>

definition answer :: "int \<Rightarrow> sysnr \<Rightarrow> int \<Rightarrow> 'o rst \<Rightarrow> bool \<times> 'o rst" where
  "answer t nr v r = (True, poke_void t v (pend_res_set t nr v r))"

definition answer_now :: "int \<Rightarrow> int \<Rightarrow> 'o rst \<Rightarrow> bool \<times> 'o rst" where
  "answer_now t v r = (True, poke_void t v r)"

definition path_arg :: "'o env \<Rightarrow> int \<Rightarrow> nat \<Rightarrow> 'o rst \<Rightarrow> string option" where
  "path_arg e t n r = (if t_arg r t n = 0 then None else env_str e t (t_arg r t n) PATH_MAX r)"

abbreviation fd_arg :: "int \<Rightarrow> nat \<Rightarrow> 'o rst \<Rightarrow> int" where
  "fd_arg t n r \<equiv> reg_int (t_arg r t n)"

abbreviation u32_arg :: "int \<Rightarrow> nat \<Rightarrow> 'o rst \<Rightarrow> u32" where
  "u32_arg t n r \<equiv> ucast (t_arg r t n)"

section \<open>Working directory\<close>

definition set_cwd :: "'o env \<Rightarrow> int \<Rightarrow> string \<Rightarrow> 'o rst \<Rightarrow> 'o rst" where
  "set_cwd e t p r =
     (let (ok, o1) = env_alloc e (length p + 1) (st_os r); r1 = os_upd r o1 in
      if ok then r1\<lparr>t_cwd := (t_cwd r1)(t := p)\<rparr> else r1)"

definition h_chdir :: "'o env \<Rightarrow> int \<Rightarrow> 'o rst \<Rightarrow> bool \<times> 'o rst" where
  "h_chdir e t r =
     (case path_arg e t 1 r of
        None \<Rightarrow> (False, r)
      | Some gp \<Rightarrow>
          let absp = snprintf_n (2 * PATH_MAX) (if hd (gp @ [NUL]) = SLASH then gp else t_cwd r t @ ''/'' @ gp);
              canon = ukfs_canon absp PATH_MAX in
          (case ukfs_rel canon PATH_MAX r of
             (None, r1) \<Rightarrow> (False, r1)
           | (Some rel, r1) \<Rightarrow>
               (case ukfs_query_stat e rel r1 of
                  (Inl _, r2) \<Rightarrow> (False, r2)
                | (Inr q, r2) \<Rightarrow>
                    if \<not> s_isdir (qs_mode q) then (False, r2) else answer_now t 0 (set_cwd e t canon r2))))"

definition h_fchdir :: "'o env \<Rightarrow> int \<Rightarrow> 'o rst \<Rightarrow> bool \<times> 'o rst" where
  "h_fchdir e t r =
     (case vfd_lookup e t (fd_arg t 1 r) r of
        (None, r1) \<Rightarrow> (False, r1)
      | (Some i, r1) \<Rightarrow>
          let v = g_vfd r1 ! i; r2 = r1\<lparr>g_am := v_mnt v\<rparr>;
              vm = (if am_ok r2 then mt_vmount (g_m r2 ! am r2) else []) in
          if \<not> v_isdir v then (False, r1)
          else answer_now t 0 (set_cwd e t (snprintf_n PATH_MAX (if v_path v = ''/'' then vm else vm @ v_path v)) r2))"

definition h_getcwd :: "'o env \<Rightarrow> int \<Rightarrow> sysnr \<Rightarrow> 'o rst \<Rightarrow> bool \<times> 'o rst" where
  "h_getcwd e t nr r =
     (let cwd = t_cwd r t in
      case ukfs_rel cwd PATH_MAX r of
        (None, r1) \<Rightarrow> (False, r1)
      | (Some rel, r1) \<Rightarrow>
          let buf = t_arg r1 t 1; len = length cwd + 1;
              k = (if unat (t_arg r1 t 2) < len then - ERANGE else int len) in
          answer t nr k (if 0 < k \<and> buf \<noteq> 0 then write_data t buf (cwd @ [NUL]) r1 else r1))"

section \<open>File system statistics\<close>

definition statfs_answer :: "'o env \<Rightarrow> int \<Rightarrow> sysnr \<Rightarrow> 'o rst \<Rightarrow> bool \<times> 'o rst" where
  "statfs_answer e t nr r =
     (case ukfs_query_statfs e r of
        (None, r1) \<Rightarrow> (False, r1)
      | (Some q, r1) \<Rightarrow> answer t nr 0 (ukfs_put_statfs t (t_arg r1 t 2) q r1))"

definition h_statfs :: "'o env \<Rightarrow> int \<Rightarrow> sysnr \<Rightarrow> 'o rst \<Rightarrow> bool \<times> 'o rst" where
  "h_statfs e t nr r =
     (case path_arg e t 1 r of
        None \<Rightarrow> (False, r)
      | Some gp \<Rightarrow>
          (case ukfs_rel gp PATH_MAX r of (None, r1) \<Rightarrow> (False, r1) | (Some rel, r1) \<Rightarrow> statfs_answer e t nr r1))"

definition h_fstatfs :: "'o env \<Rightarrow> int \<Rightarrow> sysnr \<Rightarrow> 'o rst \<Rightarrow> bool \<times> 'o rst" where
  "h_fstatfs e t nr r =
     (case vfd_lookup e t (fd_arg t 1 r) r of (None, r1) \<Rightarrow> (False, r1) | (Some i, r1) \<Rightarrow> statfs_answer e t nr r1)"

section \<open>Mappings\<close>

definition h_mmap :: "'o env \<Rightarrow> int \<Rightarrow> 'o rst \<Rightarrow> bool \<times> 'o rst" where
  "h_mmap e t r =
     (let fd = fd_arg t 5 r in
      case (if 0 \<le> fd then vfd_lookup e t fd r else (None, r)) of
        (None, r1) \<Rightarrow> (False, r1)
      | (Some i, r1) \<Rightarrow>
          if v_isdir (g_vfd r1 ! i) then (False, r1)
          else
            let r2 = ukfs_populate_fd e t fd (v_path (g_vfd r1 ! i)) r1 in
            (False, if u32_arg t 3 r2 AND 2 \<noteq> 0 \<and> u32_arg t 4 r2 AND 1 \<noteq> 0
                    then upd_v i (\<lambda>v. v\<lparr>v_mmapw := True\<rparr>) r2 else r2))"

fun msync_loop :: "'o env \<Rightarrow> int \<Rightarrow> int \<Rightarrow> nat list \<Rightarrow> bool \<Rightarrow> 'o rst \<Rightarrow> bool \<times> 'o rst" where
  "msync_loop e t tg [] found r = (found, r)"
| "msync_loop e t tg (i # is) found r =
     (let v = g_vfd r ! i in
      if v_used v \<and> v_pid v = tg \<and> v_mmapw v
      then msync_loop e t tg is True (ukfs_flush_mmap e t i (v_fd v) (r\<lparr>g_am := v_mnt v\<rparr>))
      else msync_loop e t tg is found r)"

definition h_msync :: "'o env \<Rightarrow> int \<Rightarrow> 'o rst \<Rightarrow> bool \<times> 'o rst" where
  "h_msync e t r =
     (let (tg, r1) = ukfs_tgid e t r;
          (found, r2) = msync_loop e t tg [0..<length (g_vfd r1)] False r1 in
      if found then answer_now t 0 r2 else (False, r2))"

section \<open>Reading\<close>

definition read_fsize :: "'o env \<Rightarrow> nat \<Rightarrow> int \<Rightarrow> int \<Rightarrow> 'o rst \<Rightarrow> int \<times> 'o rst" where
  "read_fsize e i off fsize r =
     (if 0 \<le> fsize then (fsize, r)
      else case ukfs_query_stat e (v_path (g_vfd r ! i)) r of
        (Inl _, r1) \<Rightarrow> (off, r1) | (Inr q, r1) \<Rightarrow> (qs_size q, r1))"

text \<open>The fill loop: the bytes so far, and whether the last read failed.\<close>

function read_loop :: "'o env \<Rightarrow> nat \<Rightarrow> int \<Rightarrow> nat \<Rightarrow> bytes \<Rightarrow> int \<Rightarrow> 'o rst \<Rightarrow> bytes \<times> bool \<times> 'o rst" where
  "read_loop e i pos len acc fsize r =
     (if len \<le> length acc then (acc, False, r)
      else
        let off = s64 (pos + int (length acc)); want = len - length acc in
        case ukfs_read_at e (v_path (g_vfd r ! i)) off want r of
          (None, r1) \<Rightarrow> (acc, True, r1)
        | (Some d, r1) \<Rightarrow>
            if d \<noteq> [] then read_loop e i pos len (acc @ d) fsize r1
            else case read_fsize e i off fsize r1 of
              (fs, r2) \<Rightarrow>
                if fs \<le> off then (acc, False, r2)
                else case read_retry e 16 (v_path (g_vfd r2 ! i)) off want (Some [], r2) of
                  (None, r3) \<Rightarrow> (acc, True, r3)
                | (Some d', r3) \<Rightarrow>
                    if d' = [] then (acc, False, r3) else read_loop e i pos len (acc @ d') fs r3)"
  by pat_completeness auto

termination
  by (relation "measure (\<lambda>(e, i, pos, len, acc, fsize, r). len - length acc)") (auto intro!: diff_less_mono2)

declare read_loop.simps [simp del]

definition io_cap :: "u64 \<Rightarrow> nat" where
  "io_cap len = unat (if 0x800000 < len then 0x800000 else len)"

definition h_read :: "'o env \<Rightarrow> int \<Rightarrow> sysnr \<Rightarrow> 'o rst \<Rightarrow> bool \<times> 'o rst" where
  "h_read e t nr r =
     (case vfd_lookup e t (fd_arg t 1 r) r of
        (None, r1) \<Rightarrow> (False, r1)
      | (Some i, r1) \<Rightarrow>
          let v = g_vfd r1 ! i;
              pos = (if nr = PR_pread64 then sint (t_arg r1 t 4) else v_off v);
              len = io_cap (t_arg r1 t 3); buf = t_arg r1 t 2 in
          if v_isdir v then (False, r1)
          else if len = 0 then answer_now t 0 r1
          else case env_alloc e len (st_os r1) of
            (False, o1) \<Rightarrow> (False, os_upd r1 o1)
          | (True, o1) \<Rightarrow>
              (case read_loop e i pos len [] (- 1) (os_upd r1 o1) of
                 (acc, neg, r2) \<Rightarrow>
                   let r3 = (if acc = [] then r2 else write_data t buf acc r2) in
                   if acc = [] \<and> neg then answer_now t (- EIO) r3
                   else answer_now t (int (length acc))
                          (if nr = PR_read then upd_v i (\<lambda>v. v\<lparr>v_off := s64 (v_off v + int (length acc))\<rparr>) r3 else r3)))"

section \<open>Writing\<close>

text \<open>The position of a write: the live size for an appending \<open>write\<close>.\<close>

definition write_pos :: "'o env \<Rightarrow> int \<Rightarrow> sysnr \<Rightarrow> nat \<Rightarrow> 'o rst \<Rightarrow> int \<times> 'o rst" where
  "write_pos e t nr i r =
     (let v = g_vfd r ! i; pos = (if nr = PR_pwrite64 then sint (t_arg r t 4) else v_off v) in
      if nr = PR_write \<and> v_append v
      then case ukfs_query_stat e (v_path v) r of (Inl _, r1) \<Rightarrow> (pos, r1) | (Inr q, r1) \<Rightarrow> (qs_size q, r1)
      else (pos, r))"

definition write_done :: "int \<Rightarrow> sysnr \<Rightarrow> nat \<Rightarrow> int \<Rightarrow> int \<Rightarrow> 'o rst \<Rightarrow> bool \<times> 'o rst" where
  "write_done t nr i pos n r =
     (if n < 0 then answer_now t (- EIO) r
      else answer_now t n
             (upd_v i (\<lambda>v. v\<lparr>v_off := (if nr = PR_write then s64 ((if v_append v then pos else v_off v) + n) else v_off v),
                             v_wrote := True\<rparr>) r))"

definition h_write :: "'o env \<Rightarrow> int \<Rightarrow> sysnr \<Rightarrow> 'o rst \<Rightarrow> bool \<times> 'o rst" where
  "h_write e t nr r =
     (case vfd_lookup e t (fd_arg t 1 r) r of
        (None, r1) \<Rightarrow> (False, r1)
      | (Some i, r1) \<Rightarrow>
          if v_isdir (g_vfd r1 ! i) then (False, r1)
          else
            let (pos, r2) = write_pos e t nr i r1; len = io_cap (t_arg r2 t 3); buf = t_arg r2 t 2 in
            if len = 0 then answer_now t 0 r2
            else case env_alloc e len (st_os r2) of
              (False, o1) \<Rightarrow> (False, os_upd r2 o1)
            | (True, o1) \<Rightarrow>
                let r3 = os_upd r2 o1 in
                (case read_data t buf len r3 of
                   None \<Rightarrow> answer_now t (- EFAULT) r3
                 | Some d \<Rightarrow>
                     let (n, r4) = ukfs_write_at e (v_path (g_vfd r3 ! i)) pos d r3 in
                     write_done t nr i pos n r4))"

definition h_copy :: "'o env \<Rightarrow> int \<Rightarrow> sysnr \<Rightarrow> 'o rst \<Rightarrow> bool \<times> 'o rst" where
  "h_copy e t nr r =
     (let in_fd = (if nr = PR_copy_file_range then fd_arg t 1 r else fd_arg t 2 r);
          out_fd = (if nr = PR_copy_file_range then fd_arg t 3 r else fd_arg t 1 r) in
      case vfd_lookup e t in_fd r of
        (Some i, r1) \<Rightarrow> answer t nr (- ENOSYS) r1
      | (None, r1) \<Rightarrow>
          (case vfd_lookup e t out_fd r1 of
             (None, r2) \<Rightarrow> (False, r2)
           | (Some i, r2) \<Rightarrow> answer t nr (- ENOSYS) r2))"

section \<open>Position, size, listing\<close>

definition h_ftruncate :: "'o env \<Rightarrow> int \<Rightarrow> 'o rst \<Rightarrow> bool \<times> 'o rst" where
  "h_ftruncate e t r =
     (case vfd_lookup e t (fd_arg t 1 r) r of
        (None, r1) \<Rightarrow> (False, r1)
      | (Some i, r1) \<Rightarrow>
          let (rc, r2) = ukfs_simple e (snprintf_n 48 (''TRUNCATE '' @ show_int (sint (t_arg r1 t 2)) @ '' ''))
                           (v_path (g_vfd r1 ! i)) r1 in
          answer_now t rc r2)"

definition seek_base :: "'o env \<Rightarrow> int \<Rightarrow> nat \<Rightarrow> 'o rst \<Rightarrow> int \<times> 'o rst" where
  "seek_base e whence i r =
     (if whence = 1 then (v_off (g_vfd r ! i), r)
      else if whence = 2
      then case ukfs_query_stat e (v_path (g_vfd r ! i)) r of (Inl _, r1) \<Rightarrow> (0, r1) | (Inr q, r1) \<Rightarrow> (qs_size q, r1)
      else (0, r))"

definition h_lseek :: "'o env \<Rightarrow> int \<Rightarrow> 'o rst \<Rightarrow> bool \<times> 'o rst" where
  "h_lseek e t r =
     (case vfd_lookup e t (fd_arg t 1 r) r of
        (None, r1) \<Rightarrow> (False, r1)
      | (Some i, r1) \<Rightarrow>
          let (base, r2) = seek_base e (fd_arg t 3 r1) i r1; no = s64 (base + sint (t_arg r1 t 2)) in
          if no < 0 then answer_now t (- EINVAL) r2
          else answer_now t no (upd_v i (\<lambda>v. v\<lparr>v_off := no\<rparr>) r2))"

definition dents_out :: "'o env \<Rightarrow> int \<Rightarrow> sysnr \<Rightarrow> nat \<Rightarrow> 'o rst \<Rightarrow> bool \<times> 'o rst" where
  "dents_out e t nr i r =
     (let buf = t_arg r t 2; cap = unat (if 0x100000 < t_arg r t 3 then 0x100000 else t_arg r t 3) in
      case env_alloc e (if cap = 0 then 1 else cap) (st_os r) of
        (False, o1) \<Rightarrow> (False, os_upd r o1)
      | (True, o1) \<Rightarrow>
          let (out, r1) = ukfs_emit_dents i cap (os_upd r o1) in
          if out = [] \<and> v_dent_idx (g_vfd r1 ! i) < v_dent_n (g_vfd r1 ! i) then answer_now t (- EINVAL) r1
          else answer t nr (int (length out)) (if out = [] then r1 else write_data t buf out r1))"

definition h_getdents64 :: "'o env \<Rightarrow> int \<Rightarrow> sysnr \<Rightarrow> 'o rst \<Rightarrow> (bool \<times> 'o rst) option" where
  "h_getdents64 e t nr r =
     (case vfd_lookup e t (fd_arg t 1 r) r of
        (None, r1) \<Rightarrow> Some (False, r1)
      | (Some i, r1) \<Rightarrow>
          if \<not> v_isdir (g_vfd r1 ! i) then Some (False, r1)
          else if v_dents (g_vfd r1 ! i) \<noteq> None then Some (dents_out e t nr i r1)
          else map_option (\<lambda>(ok, r2). if ok then dents_out e t nr i r2 else answer_now t (- EIO) r2) (ukfs_load_dir e i r1))"

section \<open>Closing and flushing\<close>

definition sync_vfd :: "'o env \<Rightarrow> nat \<Rightarrow> 'o rst \<Rightarrow> 'o rst" where
  "sync_vfd e i r = (if v_wrote (g_vfd r ! i) then snd (ukfs_simple e ''SYNC '' (v_path (g_vfd r ! i)) r) else r)"

definition h_close :: "'o env \<Rightarrow> int \<Rightarrow> 'o rst \<Rightarrow> bool \<times> 'o rst" where
  "h_close e t r =
     (let fd = fd_arg t 1 r in
      case vfd_lookup e t fd r of
        (None, r1) \<Rightarrow> (False, r1)
      | (Some i, r1) \<Rightarrow>
          (False, vfd_free i (sync_vfd e i (if v_mmapw (g_vfd r1 ! i) then ukfs_flush_mmap e t i fd r1 else r1))))"

definition h_fsync :: "'o env \<Rightarrow> int \<Rightarrow> 'o rst \<Rightarrow> bool \<times> 'o rst" where
  "h_fsync e t r =
     (case vfd_lookup e t (fd_arg t 1 r) r of
        (None, r1) \<Rightarrow> (False, r1)
      | (Some i, r1) \<Rightarrow>
          answer_now t 0 (if v_wrote (g_vfd r1 ! i) then upd_v i (\<lambda>v. v\<lparr>v_wrote := False\<rparr>) (sync_vfd e i r1) else r1))"

section \<open>Attributes\<close>

definition chmod_pfx :: "u32 \<Rightarrow> string" where
  "chmod_pfx mode = snprintf_n 48 (''CHMOD '' @ show_nat (unat (mode AND 0xFFF)) @ '' '')"

definition chown_pfx :: "u32 \<Rightarrow> u32 \<Rightarrow> string" where
  "chown_pfx uid gid = snprintf_n 64 (''CHOWN '' @ show_nat (unat uid) @ '' '' @ show_nat (unat gid) @ '' '')"

definition h_fchmod :: "'o env \<Rightarrow> int \<Rightarrow> 'o rst \<Rightarrow> bool \<times> 'o rst" where
  "h_fchmod e t r =
     (case vfd_lookup e t (fd_arg t 1 r) r of
        (None, r1) \<Rightarrow> (False, r1)
      | (Some i, r1) \<Rightarrow> answer_now t 0 (snd (ukfs_simple e (chmod_pfx (u32_arg t 2 r1)) (v_path (g_vfd r1 ! i)) r1)))"

definition h_fchown :: "'o env \<Rightarrow> int \<Rightarrow> 'o rst \<Rightarrow> bool \<times> 'o rst" where
  "h_fchown e t r =
     (case vfd_lookup e t (fd_arg t 1 r) r of
        (None, r1) \<Rightarrow> (False, r1)
      | (Some i, r1) \<Rightarrow>
          answer_now t 0 (snd (ukfs_simple e (chown_pfx (u32_arg t 2 r1) (u32_arg t 3 r1)) (v_path (g_vfd r1 ! i)) r1)))"

definition h_fstat :: "'o env \<Rightarrow> int \<Rightarrow> 'o rst \<Rightarrow> bool \<times> 'o rst" where
  "h_fstat e t r =
     (case vfd_lookup e t (fd_arg t 1 r) r of
        (None, r1) \<Rightarrow> (False, r1)
      | (Some i, r1) \<Rightarrow>
          (case ukfs_query_stat e (v_path (g_vfd r1 ! i)) r1 of
             (Inl _, r2) \<Rightarrow> (False, r2)
           | (Inr q, r2) \<Rightarrow> answer_now t 0 (ukfs_put_stat t (t_arg r2 t 2) q r2)))"

end
