(* ===== verification/PathOps.thy ===== *)
theory PathOps
  imports FdOps
begin

unbundle bit_operations_syntax

text \<open>
  The system calls of \<open>uknl_fs_dispatch\<close> that take a path, one handler for each branch: those
  with a directory descriptor first, then the older forms that resolve against the working
  directory.
\<close>

section \<open>Path arguments\<close>

text \<open>The path in argument \<open>n\<close>, relative to its mount; \<open>None\<close> if it is unreadable or under none.\<close>

definition rel_arg :: "'o env \<Rightarrow> int \<Rightarrow> int \<Rightarrow> nat \<Rightarrow> 'o rst \<Rightarrow> string option \<times> 'o rst" where
  "rel_arg e t dirfd n r =
     (case path_arg e t n r of None \<Rightarrow> (None, r) | Some gp \<Rightarrow> ukfs_rel_at e t dirfd gp PATH_MAX r)"

definition simple_at :: "'o env \<Rightarrow> int \<Rightarrow> sysnr \<Rightarrow> int \<Rightarrow> nat \<Rightarrow> string \<Rightarrow> 'o rst \<Rightarrow> bool \<times> 'o rst" where
  "simple_at e t nr dirfd n pfx r =
     (case rel_arg e t dirfd n r of
        (None, r1) \<Rightarrow> (False, r1)
      | (Some rel, r1) \<Rightarrow> let (rc, r2) = ukfs_simple e pfx rel r1 in answer t nr rc r2)"

definition mkdir_pfx :: "u32 \<Rightarrow> string" where
  "mkdir_pfx mode = snprintf_n 48 (''MKDIR '' @ show_nat (unat (mode AND 0xFFF)) @ '' '')"

definition truncate_pfx :: "int \<Rightarrow> string" where
  "truncate_pfx sz = snprintf_n 48 (''TRUNCATE '' @ show_int sz @ '' '')"

section \<open>Status\<close>

text \<open>The path of a \<open>newfstatat\<close> or \<open>statx\<close>; the empty path stands for the descriptor.\<close>

definition statat_rel :: "'o env \<Rightarrow> int \<Rightarrow> sysnr \<Rightarrow> 'o rst \<Rightarrow> string option \<times> 'o rst" where
  "statat_rel e t nr r =
     (let dirfd = fd_arg t 1 r; gp = (case path_arg e t 2 r of None \<Rightarrow> [] | Some gp \<Rightarrow> gp) in
      if gp \<noteq> [] then ukfs_rel_at e t dirfd gp PATH_MAX r
      else if u32_arg t (if nr = PR_statx then 3 else 4) r AND 0x1000 = 0 then (None, r)
      else case vfd_lookup e t dirfd r of
        (None, r1) \<Rightarrow> (None, r1) | (Some i, r1) \<Rightarrow> (Some (snprintf_n PATH_MAX (v_path (g_vfd r1 ! i))), r1))"

definition h_statat :: "'o env \<Rightarrow> int \<Rightarrow> sysnr \<Rightarrow> 'o rst \<Rightarrow> bool \<times> 'o rst" where
  "h_statat e t nr r =
     (case statat_rel e t nr r of
        (None, r1) \<Rightarrow> (False, r1)
      | (Some rel, r1) \<Rightarrow>
          (case ukfs_query_stat e rel r1 of
             (Inl q, r2) \<Rightarrow> if q = - 1 then (False, r2) else answer t nr (- ENOENT) r2
           | (Inr q, r2) \<Rightarrow>
               answer t nr 0 (if nr = PR_statx then ukfs_put_statx t (t_arg r2 t 5) q r2
                              else ukfs_put_stat t (t_arg r2 t 3) q r2)))"

definition h_stat :: "'o env \<Rightarrow> int \<Rightarrow> sysnr \<Rightarrow> 'o rst \<Rightarrow> bool \<times> 'o rst" where
  "h_stat e t nr r =
     (case rel_arg e t AT_FDCWD 1 r of
        (None, r1) \<Rightarrow> (False, r1)
      | (Some rel, r1) \<Rightarrow>
          (case ukfs_query_stat e rel r1 of
             (Inl q, r2) \<Rightarrow> if q = - 1 then (False, r2) else answer_now t (- ENOENT) r2
           | (Inr q, r2) \<Rightarrow> answer t nr 0 (ukfs_put_stat t (t_arg r2 t 2) q r2)))"

section \<open>Extended attributes, times, access\<close>

definition h_xattr :: "'o env \<Rightarrow> int \<Rightarrow> sysnr \<Rightarrow> int \<Rightarrow> 'o rst \<Rightarrow> bool \<times> 'o rst" where
  "h_xattr e t nr rc r =
     (case rel_arg e t AT_FDCWD 1 r of (None, r1) \<Rightarrow> (False, r1) | (Some rel, r1) \<Rightarrow> answer t nr rc r1)"

definition utime_rel :: "'o env \<Rightarrow> int \<Rightarrow> sysnr \<Rightarrow> 'o rst \<Rightarrow> string option \<times> 'o rst" where
  "utime_rel e t nr r =
     (let gp = (case path_arg e t (if nr = PR_utimes then 1 else 2) r of None \<Rightarrow> [] | Some gp \<Rightarrow> gp) in
      if gp \<noteq> [] then ukfs_rel_at e t (fd_arg t 1 r) gp PATH_MAX r
      else if nr = PR_utimes then (None, r)
      else case vfd_lookup e t (fd_arg t 1 r) r of
        (None, r1) \<Rightarrow> (None, r1) | (Some i, r1) \<Rightarrow> (Some (snprintf_n PATH_MAX (v_path (g_vfd r1 ! i))), r1))"

text \<open>One of the two times: \<open>(-1, -1)\<close> leaves it unchanged.\<close>

definition utime_pair :: "bool \<Rightarrow> int \<Rightarrow> int \<Rightarrow> int \<Rightarrow> int \<times> int" where
  "utime_pair is_ts nowt sec frac =
     (if is_ts \<and> frac = 0x3ffffffe then (- 1, - 1)
      else if is_ts \<and> frac = 0x3fffffff then (nowt, 0)
      else (sec, if is_ts then frac else s64 (frac * 1000)))"

definition utime_args :: "'o env \<Rightarrow> int \<Rightarrow> sysnr \<Rightarrow> 'o rst \<Rightarrow> (int \<times> int) \<times> (int \<times> int)" where
  "utime_args e t nr r =
     (let nowt = env_time e (st_os r); tp = t_arg r t (if nr = PR_utimes then 2 else 3) in
      case (if tp = 0 then None else read_data t tp 32 r) of
        None \<Rightarrow> ((nowt, 0), (nowt, 0))
      | Some b \<Rightarrow>
          (utime_pair (nr = PR_utimensat) nowt (sint (get64 0 b)) (sint (get64 8 b)),
           utime_pair (nr = PR_utimensat) nowt (sint (get64 16 b)) (sint (get64 24 b))))"

definition h_utime :: "'o env \<Rightarrow> int \<Rightarrow> sysnr \<Rightarrow> 'o rst \<Rightarrow> bool \<times> 'o rst" where
  "h_utime e t nr r =
     (case utime_rel e t nr r of
        (None, r1) \<Rightarrow> (False, r1)
      | (Some rel, r1) \<Rightarrow>
          (case utime_args e t nr r1 of
             ((asec, ansec), (msec, mnsec)) \<Rightarrow>
               let (rc, r2) = ukfs_simple e (snprintf_n 160 (''UTIME '' @ show_int asec @ '' '' @ show_int ansec @ '' '' @
                                show_int msec @ '' '' @ show_int mnsec @ '' '')) rel r1 in
               answer t nr rc r2))"

definition h_access :: "'o env \<Rightarrow> int \<Rightarrow> sysnr \<Rightarrow> 'o rst \<Rightarrow> bool \<times> 'o rst" where
  "h_access e t nr r =
     (case (if nr = PR_access then rel_arg e t AT_FDCWD 1 r else rel_arg e t (fd_arg t 1 r) 2 r) of
        (None, r1) \<Rightarrow> (False, r1)
      | (Some rel, r1) \<Rightarrow>
          (case ukfs_query_stat e rel r1 of
             (Inl q, r2) \<Rightarrow> if q = - 1 then (False, r2) else answer t nr (- ENOENT) r2
           | (Inr q, r2) \<Rightarrow> answer t nr 0 r2))"

section \<open>Symbolic links\<close>

definition readlink_at :: "'o env \<Rightarrow> int \<Rightarrow> sysnr \<Rightarrow> int \<Rightarrow> nat \<Rightarrow> 'o rst \<Rightarrow> bool \<times> 'o rst" where
  "readlink_at e t nr dirfd n r =
     (case rel_arg e t dirfd n r of
        (None, r1) \<Rightarrow> (False, r1)
      | (Some rel, r1) \<Rightarrow>
          (case ukfs_readlink_at e rel PATH_MAX r1 of
             (None, r2) \<Rightarrow>
               (case ukfs_query_stat e rel r2 of
                  (q2, r3) \<Rightarrow> answer t nr (if q2 = Inl (- 2) then - ENOENT else - EINVAL) r3)
           | (Some tgt, r2) \<Rightarrow>
               let out = take (unat (t_arg r2 t (n + 2))) tgt in
               answer t nr (int (length out)) (if out = [] then r2 else write_data t (t_arg r2 t (n + 1)) out r2)))"

definition h_readlinkat :: "'o env \<Rightarrow> int \<Rightarrow> sysnr \<Rightarrow> 'o rst \<Rightarrow> bool \<times> 'o rst" where
  "h_readlinkat e t nr r = readlink_at e t nr (fd_arg t 1 r) 2 r"

definition h_readlink :: "'o env \<Rightarrow> int \<Rightarrow> sysnr \<Rightarrow> 'o rst \<Rightarrow> bool \<times> 'o rst" where
  "h_readlink e t nr r = readlink_at e t nr AT_FDCWD 1 r"

definition symlink_at :: "'o env \<Rightarrow> int \<Rightarrow> sysnr \<Rightarrow> int \<Rightarrow> nat \<Rightarrow> 'o rst \<Rightarrow> bool \<times> 'o rst" where
  "symlink_at e t nr dirfd n r =
     (case path_arg e t 1 r of
        None \<Rightarrow> (False, r)
      | Some target \<Rightarrow>
          (case rel_arg e t dirfd n r of
             (None, r1) \<Rightarrow> (False, r1)
           | (Some rel, r1) \<Rightarrow> let (rc, r2) = ukfs_two_path e ''SYMLINK'' target rel r1 in answer t nr rc r2))"

definition h_symlinkat :: "'o env \<Rightarrow> int \<Rightarrow> sysnr \<Rightarrow> 'o rst \<Rightarrow> bool \<times> 'o rst" where
  "h_symlinkat e t nr r = symlink_at e t nr (fd_arg t 2 r) 3 r"

definition h_symlink :: "'o env \<Rightarrow> int \<Rightarrow> sysnr \<Rightarrow> 'o rst \<Rightarrow> bool \<times> 'o rst" where
  "h_symlink e t nr r = symlink_at e t nr AT_FDCWD 2 r"

section \<open>Names and attributes\<close>

definition h_mkdirat :: "'o env \<Rightarrow> int \<Rightarrow> sysnr \<Rightarrow> 'o rst \<Rightarrow> bool \<times> 'o rst" where
  "h_mkdirat e t nr r = simple_at e t nr (fd_arg t 1 r) 2 (mkdir_pfx (u32_arg t 3 r)) r"

definition h_mkdir :: "'o env \<Rightarrow> int \<Rightarrow> sysnr \<Rightarrow> 'o rst \<Rightarrow> bool \<times> 'o rst" where
  "h_mkdir e t nr r = simple_at e t nr AT_FDCWD 1 (mkdir_pfx (u32_arg t 2 r)) r"

definition h_unlinkat :: "'o env \<Rightarrow> int \<Rightarrow> sysnr \<Rightarrow> 'o rst \<Rightarrow> bool \<times> 'o rst" where
  "h_unlinkat e t nr r =
     simple_at e t nr (fd_arg t 1 r) 2 (if u32_arg t 3 r AND 0x200 \<noteq> 0 then ''RMDIR '' else ''UNLINK '') r"

definition h_unlink :: "'o env \<Rightarrow> int \<Rightarrow> sysnr \<Rightarrow> 'o rst \<Rightarrow> bool \<times> 'o rst" where
  "h_unlink e t nr r = simple_at e t nr AT_FDCWD 1 (if nr = PR_rmdir then ''RMDIR '' else ''UNLINK '') r"

definition h_fchmodat :: "'o env \<Rightarrow> int \<Rightarrow> sysnr \<Rightarrow> 'o rst \<Rightarrow> bool \<times> 'o rst" where
  "h_fchmodat e t nr r = simple_at e t nr (fd_arg t 1 r) 2 (chmod_pfx (u32_arg t 3 r)) r"

definition h_chmod :: "'o env \<Rightarrow> int \<Rightarrow> sysnr \<Rightarrow> 'o rst \<Rightarrow> bool \<times> 'o rst" where
  "h_chmod e t nr r = simple_at e t nr AT_FDCWD 1 (chmod_pfx (u32_arg t 2 r)) r"

definition h_fchownat :: "'o env \<Rightarrow> int \<Rightarrow> sysnr \<Rightarrow> 'o rst \<Rightarrow> bool \<times> 'o rst" where
  "h_fchownat e t nr r = simple_at e t nr (fd_arg t 1 r) 2 (chown_pfx (u32_arg t 3 r) (u32_arg t 4 r)) r"

definition h_chown :: "'o env \<Rightarrow> int \<Rightarrow> sysnr \<Rightarrow> 'o rst \<Rightarrow> bool \<times> 'o rst" where
  "h_chown e t nr r = simple_at e t nr AT_FDCWD 1 (chown_pfx (u32_arg t 2 r) (u32_arg t 3 r)) r"

definition h_truncate :: "'o env \<Rightarrow> int \<Rightarrow> sysnr \<Rightarrow> 'o rst \<Rightarrow> bool \<times> 'o rst" where
  "h_truncate e t nr r = simple_at e t nr AT_FDCWD 1 (truncate_pfx (sint (t_arg r t 2))) r"

section \<open>Renaming\<close>

text \<open>Both paths, resolved in turn: each resolution may activate another mount.\<close>

definition two_rels :: "'o env \<Rightarrow> int \<Rightarrow> int \<Rightarrow> nat \<Rightarrow> int \<Rightarrow> nat \<Rightarrow> 'o rst \<Rightarrow> (string option \<times> string option) \<times> 'o rst" where
  "two_rels e t ofd oi nfd ni r =
     (case (path_arg e t oi r, path_arg e t ni r) of
        (Some og, Some ng) \<Rightarrow>
          (case ukfs_rel_at e t ofd og PATH_MAX r of
             (uo, r1) \<Rightarrow> (case ukfs_rel_at e t nfd ng PATH_MAX r1 of (un, r2) \<Rightarrow> ((uo, un), r2)))
      | _ \<Rightarrow> ((None, None), r))"

definition h_renameat :: "'o env \<Rightarrow> int \<Rightarrow> sysnr \<Rightarrow> 'o rst \<Rightarrow> bool \<times> 'o rst" where
  "h_renameat e t nr r =
     (case two_rels e t (fd_arg t 1 r) 2 (fd_arg t 3 r) 4 r of
        ((Some orel, Some nrel), r1) \<Rightarrow> let (rr, r2) = ukfs_two_path e ''RENAME'' orel nrel r1 in answer t nr rr r2
      | ((None, None), r1) \<Rightarrow> (False, r1)
      | (_, r1) \<Rightarrow> answer_now t (- EXDEV) r1)"

definition h_rename :: "'o env \<Rightarrow> int \<Rightarrow> sysnr \<Rightarrow> 'o rst \<Rightarrow> bool \<times> 'o rst" where
  "h_rename e t nr r =
     (case two_rels e t AT_FDCWD 1 AT_FDCWD 2 r of
        ((Some orel, Some nrel), r1) \<Rightarrow> let (rr, r2) = ukfs_two_path e ''RENAME'' orel nrel r1 in answer t nr rr r2
      | ((None, None), r1) \<Rightarrow> (False, r1)
      | (_, r1) \<Rightarrow> answer t nr (- EXDEV) r1)"

end
