(* ===== verification/Dispatch.thy ===== *)
theory Dispatch
  imports PathOps
begin

unbundle bit_operations_syntax

text \<open>
  The entry points of the redirect that proot calls at every system call: \<open>uknl_fs_dispatch\<close>
  on entry, \<open>uknl_fs_open_exit\<close> and \<open>uknl_fs_exit_final\<close> on exit. The handlers that change the
  arguments of a call instead of answering it (the opens and \<open>execve\<close>) are here too. The
  dispatcher returns \<open>None\<close> when the listing of a directory by a FUSE server does not end.
\<close>

section \<open>Opening\<close>

definition h_openat :: "'o env \<Rightarrow> int \<Rightarrow> 'o rst \<Rightarrow> bool \<times> 'o rst" where
  "h_openat e t r =
     (case rel_arg e t (fd_arg t 1 r) 2 r of
        (None, r1) \<Rightarrow> (False, r1)
      | (Some rel, r1) \<Rightarrow>
          let flags = u32_arg t 3 r1; (k, r2) = ukfs_open_redirect e t rel flags r1 in
          (k = 1,
           if k = 0 then poke_arg t 4 0x180 (poke_arg t 3 (ucast ((flags AND NOT (O_EXCL OR O_TRUNC OR O_DIRECTORY)) OR O_CREAT)) r2)
           else if k = 2 then poke_arg t 3 (ucast (flags AND NOT (O_CREAT OR O_EXCL OR O_TRUNC OR O_DIRECTORY))) r2
           else r2))"

text \<open>\<open>struct open_how\<close> with its flags, mode and resolve fields, cut to the caller's size.\<close>

definition how_rewrite :: "int \<Rightarrow> bytes \<Rightarrow> bytes" where
  "how_rewrite k how =
     (let fl = get64 0 how AND NOT (ucast (O_CREAT OR O_EXCL OR O_TRUNC OR O_DIRECTORY)) in
      le64 (if k = 0 then fl OR ucast O_CREAT else fl) @ le64 (if k = 0 then 0x180 else get64 8 how) @ le64 0)"

definition h_openat2 :: "'o env \<Rightarrow> int \<Rightarrow> 'o rst \<Rightarrow> bool \<times> 'o rst" where
  "h_openat2 e t r =
     (case rel_arg e t (fd_arg t 1 r) 2 r of
        (None, r1) \<Rightarrow> (False, r1)
      | (Some rel, r1) \<Rightarrow>
          let howp = t_arg r1 t 3; n = min 24 (unat (t_arg r1 t 4)) in
          (case (if howp = 0 \<or> n < 8 then None else read_data t howp n r1) of
             None \<Rightarrow> (False, r1)
           | Some b \<Rightarrow>
               let how = b @ replicate (24 - n) NUL;
                   (k, r2) = ukfs_open_redirect e t rel (ucast (get64 0 how)) r1 in
               (k = 1, if k = 0 \<or> k = 2 then write_data t howp (take n (how_rewrite k how)) r2 else r2)))"

definition h_creat :: "'o env \<Rightarrow> int \<Rightarrow> 'o rst \<Rightarrow> bool \<times> 'o rst" where
  "h_creat e t r =
     (case rel_arg e t AT_FDCWD 1 r of
        (None, r1) \<Rightarrow> (False, r1)
      | (Some rel, r1) \<Rightarrow>
          let (k, r2) = ukfs_open_redirect_arg e t rel (1 OR O_CREAT OR O_TRUNC) 1 r1 in
          if k = 2 then answer_now t (- EISDIR) r2 else (k = 1, r2))"

section \<open>Running a program\<close>

abbreviation blank :: "char \<Rightarrow> bool" where "blank c \<equiv> c = CHR '' '' \<or> c = CHR 0x09"

text \<open>The interpreter and its argument in the first line of a script.\<close>

definition shebang :: "bytes \<Rightarrow> (string \<times> string) option" where
  "shebang hdr =
     (if take 2 hdr \<noteq> ''#!'' then None
      else
        let line = cstr (take 255 (takeWhile (\<lambda>c. c \<noteq> LF) (drop 2 hdr)));
            q = dropWhile blank line;
            interp = take 255 (takeWhile (\<lambda>c. \<not> blank c) q) in
        Some (interp, dropWhile blank (drop (length interp) q)))"

text \<open>The guest's argument vector, at most \<open>k\<close> pointers; \<open>None\<close> if it cannot be read.\<close>

fun argv_ptrs :: "int \<Rightarrow> nat \<Rightarrow> u64 \<Rightarrow> 'o rst \<Rightarrow> u64 list option" where
  "argv_ptrs t 0 a r = Some []"
| "argv_ptrs t (Suc k) a r =
     (case read_data t a 8 r of
        None \<Rightarrow> None
      | Some b \<Rightarrow> if get64 0 b = 0 then Some [] else map_option ((#) (get64 0 b)) (argv_ptrs t k (a + 8) r))"

definition exec_script :: "'o env \<Rightarrow> int \<Rightarrow> nat \<Rightarrow> nat \<Rightarrow> string \<Rightarrow> string \<Rightarrow> string \<Rightarrow> u64 list \<Rightarrow> 'o rst \<Rightarrow> bool \<times> 'o rst" where
  "exec_script e t patharg argvarg gp interp iarg optr r =
     (let (s_i, r1) = env_alloc_mem e t (length interp + 1) r;
          (s_p, r2) = env_alloc_mem e t (length gp + 1) r1;
          (s_a, r3) = (if iarg = [] then (1, r2) else env_alloc_mem e t (length iarg + 1) r2);
          (s_v, r4) = env_alloc_mem e t ((length optr + 4) * 8) r3 in
      if s_i = 0 \<or> s_p = 0 \<or> s_a = 0 \<or> s_v = 0 then (False, r4)
      else
        let r5 = write_data t s_p (gp @ [NUL]) (write_data t s_i (interp @ [NUL]) r4);
            r6 = (if iarg = [] then r5 else write_data t s_a (iarg @ [NUL]) r5);
            arr = [s_i] @ (if iarg = [] then [] else [s_a]) @ [s_p] @ drop 1 optr @ [0] in
        (True, poke_arg t argvarg s_v (set_sysarg_path t interp patharg (write_data t s_v (concat (map le64 arr)) r6))))"

text \<open>The copy of a program into a host file; position reached, and whether a write fell short.\<close>

function exec_copy :: "'o env \<Rightarrow> string \<Rightarrow> int \<Rightarrow> int \<Rightarrow> int \<Rightarrow> 'o rst \<Rightarrow> int \<times> bool \<times> 'o rst" where
  "exec_copy e rel bfd sz off r =
     (if sz \<le> off then (off, True, r)
      else case ukfs_read_at e rel off 65536 r of
        (None, r1) \<Rightarrow> (off, True, r1)
      | (Some d, r1) \<Rightarrow>
          if d = [] then (off, True, r1)
          else case env_write e bfd d (st_os r1) of
            (n, o1) \<Rightarrow>
              if n \<noteq> int (length d) then (off, False, os_upd r1 o1)
              else exec_copy e rel bfd sz (off + int (length d)) (os_upd r1 o1))"
  by pat_completeness auto

termination
  by (relation "measure (\<lambda>(e, rel, bfd, sz, off, r). nat (sz - off))") (auto simp: nat_less_iff)

declare exec_copy.simps [simp del]

definition exec_materialise :: "'o env \<Rightarrow> int \<Rightarrow> nat \<Rightarrow> string \<Rightarrow> int \<Rightarrow> 'o rst \<Rightarrow> 'o rst" where
  "exec_materialise e t patharg rel sz r =
     (let gtmp = snprintf_n 64 (''/.ukfs_exec_'' @ show_int t) in
      case env_translate e t gtmp (st_os r) of
        None \<Rightarrow> r
      | Some htmp \<Rightarrow>
          (case env_open e htmp WrNew (st_os r) of
             (bfd, o1) \<Rightarrow>
               if bfd < 0 then os_upd r o1
               else
                 let (mok, o2) = env_alloc e 65536 o1;
                     (off, ok, r1) = (if mok then exec_copy e rel bfd sz 0 (os_upd r o2) else (0, False, os_upd r o2));
                     r2 = close_fd e bfd r1 in
                 if \<not> ok \<or> off < sz then os_upd r2 (env_unlink e htmp (st_os r2))
                 else set_sysarg_path t gtmp patharg r2))"

definition exec_file :: "'o env \<Rightarrow> int \<Rightarrow> nat \<Rightarrow> nat \<Rightarrow> string \<Rightarrow> string \<Rightarrow> int \<Rightarrow> 'o rst \<Rightarrow> 'o rst" where
  "exec_file e t patharg argvarg gp rel sz r =
     (case ukfs_read_at e rel 0 255 r of
        (hdr, r1) \<Rightarrow>
          (case (case hdr of None \<Rightarrow> None | Some h \<Rightarrow> shebang h) of
             None \<Rightarrow> exec_materialise e t patharg rel sz r1
           | Some (interp, iarg) \<Rightarrow>
               let oargv = t_arg r1 t argvarg in
               (case (if oargv = 0 then Some [] else argv_ptrs t 250 oargv r1) of
                  None \<Rightarrow> exec_materialise e t patharg rel sz r1
                | Some optr \<Rightarrow>
                    if hd (interp @ [NUL]) \<noteq> SLASH then exec_materialise e t patharg rel sz r1
                    else (case exec_script e t patharg argvarg gp interp iarg optr r1 of
                            (True, r2) \<Rightarrow> r2
                          | (False, r2) \<Rightarrow> exec_materialise e t patharg rel sz r2))))"

definition h_exec :: "'o env \<Rightarrow> int \<Rightarrow> sysnr \<Rightarrow> 'o rst \<Rightarrow> bool \<times> 'o rst" where
  "h_exec e t nr r0 =
     (let (tg, r1) = ukfs_tgid e t r0; r = uknl_fuse_note_exec tg r1;
          patharg = (if nr = PR_execveat then 2 else 1); argvarg = (if nr = PR_execveat then 3 else 2);
          dirfd = (if nr = PR_execveat then fd_arg t 1 r else AT_FDCWD) in
      case path_arg e t patharg r of
        None \<Rightarrow> (False, r)
      | Some gp \<Rightarrow>
          (case ukfs_rel_at e t dirfd gp PATH_MAX r of
             (None, r2) \<Rightarrow> (False, r2)
           | (Some rel, r2) \<Rightarrow>
               (case ukfs_query_stat e rel r2 of
                  (Inl _, r3) \<Rightarrow> (False, r3)
                | (Inr q, r3) \<Rightarrow>
                    (False, if s_isreg (qs_mode q) then exec_file e t patharg argvarg gp rel (qs_size q) r3 else r3))))"

section \<open>Before the first mount\<close>

definition note_fuse_open :: "'o env \<Rightarrow> int \<Rightarrow> sysnr \<Rightarrow> 'o rst \<Rightarrow> 'o rst" where
  "note_fuse_open e t nr r =
     (if nr \<in> {PR_openat, PR_openat2, PR_open, PR_creat} \<and>
         path_arg e t (if nr = PR_open \<or> nr = PR_creat then 1 else 2) r = Some ''/dev/fuse''
      then uknl_fuse_open_enter t r else r)"

definition path_stats :: "sysnr set" where
  "path_stats = {PR_stat, PR_lstat, PR_stat64, PR_lstat64}"

definition all_stats :: "sysnr set" where
  "all_stats = {PR_newfstatat, PR_fstatat64, PR_statx, PR_fstat} \<union> path_stats"

definition stat_node :: "'o env \<Rightarrow> int \<Rightarrow> sysnr \<Rightarrow> 'o rst \<Rightarrow> string option" where
  "stat_node e t nr r =
     (if nr = PR_fstat then ukfs_fd_hostpath e t (fd_arg t 1 r) PATH_MAX r
      else path_arg e t (if nr \<in> path_stats then 1 else 2) r)"

definition loop_stat :: "int \<Rightarrow> ukstat" where
  "loop_stat lsz = \<lparr>qs_mode = 0x61B0, qs_uid = 0, qs_gid = 0, qs_size = lsz, qs_ino = 0xb10c0, qs_mtime = 0,
     qs_atime = 0, qs_nlink = 1, qs_rdev = 0x800, qs_blocks = word_of_int (lsz div 512)\<rparr>"

definition h_loop_stat :: "'o env \<Rightarrow> int \<Rightarrow> sysnr \<Rightarrow> 'o rst \<Rightarrow> bool \<times> 'o rst" where
  "h_loop_stat e t nr r =
     (if \<not> g_lo_any r \<or> nr \<notin> all_stats then (False, r)
      else
        let (lsz, r1) = (case stat_node e t nr r of None \<Rightarrow> (- 1, r) | Some p \<Rightarrow> ukfs_loop_node_size e p r) in
        if lsz < 0 then (False, r1)
        else answer t nr 0
               (if nr = PR_statx then ukfs_put_statx t (t_arg r1 t 5) (loop_stat lsz) r1
                else ukfs_put_stat t (t_arg r1 t (if nr = PR_newfstatat \<or> nr = PR_fstatat64 then 3 else 2)) (loop_stat lsz) r1))"

definition h_mount :: "'o env \<Rightarrow> int \<Rightarrow> 'o rst \<Rightarrow> bool \<times> 'o rst" where
  "h_mount e t r =
     (case uknl_fuse_mount e t r of
        (True, r1) \<Rightarrow> answer_now t 0 r1
      | (False, r1) \<Rightarrow>
          (case path_arg e t 1 r1 of
             None \<Rightarrow> (False, r1)
           | Some src \<Rightarrow>
               (case ukfs_src_mountable e src r1 of
                  (False, r2) \<Rightarrow> (False, r2)
                | (True, r2) \<Rightarrow>
                    (case path_arg e t 2 r2 of
                       None \<Rightarrow> (False, r2)
                     | Some tgt \<Rightarrow>
                         (case ukfs_register_any e src tgt r2 of
                            (None, r3) \<Rightarrow> (False, r3) | (Some _, r3) \<Rightarrow> answer_now t 0 r3)))))"

definition h_umount2 :: "'o env \<Rightarrow> int \<Rightarrow> 'o rst \<Rightarrow> bool \<times> 'o rst" where
  "h_umount2 e t r =
     (if g_nm r = 0 then (False, r)
      else case path_arg e t 1 r of
        None \<Rightarrow> (False, r)
      | Some tgt \<Rightarrow>
          (case ukfs_umount_target e t tgt r of (False, r1) \<Rightarrow> (False, r1) | (True, r1) \<Rightarrow> answer_now t 0 r1))"

section \<open>The dispatcher\<close>

text \<open>The branches after the guard \<^verbatim>\<open>g_nm == 0\<close>: descriptors, then paths.\<close>

definition fd_call :: "'o env \<Rightarrow> int \<Rightarrow> sysnr \<Rightarrow> 'o rst \<Rightarrow> (bool \<times> 'o rst) option" where
  "fd_call e t nr r =
     (if nr = PR_execve \<or> nr = PR_execveat then Some (h_exec e t nr r)
      else if nr = PR_chdir then Some (h_chdir e t r)
      else if nr = PR_fchdir then Some (h_fchdir e t r)
      else if nr = PR_getcwd then Some (h_getcwd e t nr r)
      else if nr = PR_statfs \<or> nr = PR_statfs64 then Some (h_statfs e t nr r)
      else if nr = PR_fstatfs \<or> nr = PR_fstatfs64 then Some (h_fstatfs e t nr r)
      else if nr = PR_mmap \<or> nr = PR_mmap2 then Some (h_mmap e t r)
      else if nr = PR_msync then Some (h_msync e t r)
      else if nr = PR_read \<or> nr = PR_pread64 then Some (h_read e t nr r)
      else if nr = PR_write \<or> nr = PR_pwrite64 then Some (h_write e t nr r)
      else if nr = PR_copy_file_range \<or> nr = PR_sendfile \<or> nr = PR_sendfile64 then Some (h_copy e t nr r)
      else if nr = PR_ftruncate then Some (h_ftruncate e t r)
      else if nr = PR_lseek then Some (h_lseek e t r)
      else if nr = PR_getdents64 then h_getdents64 e t nr r
      else if nr = PR_close then Some (h_close e t r)
      else if nr = PR_fsync \<or> nr = PR_fdatasync then Some (h_fsync e t r)
      else if nr = PR_fchmod then Some (h_fchmod e t r)
      else if nr = PR_fchown then Some (h_fchown e t r)
      else if nr = PR_fstat then Some (h_fstat e t r)
      else Some (False, r))"

definition path_call :: "'o env \<Rightarrow> int \<Rightarrow> sysnr \<Rightarrow> 'o rst \<Rightarrow> bool \<times> 'o rst" where
  "path_call e t nr r =
     (if nr = PR_newfstatat \<or> nr = PR_fstatat64 \<or> nr = PR_statx then h_statat e t nr r
      else if nr = PR_getxattr \<or> nr = PR_lgetxattr then h_xattr e t nr (- ENOTSUP) r
      else if nr = PR_listxattr \<or> nr = PR_llistxattr then h_xattr e t nr 0 r
      else if nr = PR_setxattr \<or> nr = PR_lsetxattr \<or> nr = PR_removexattr \<or> nr = PR_lremovexattr then h_xattr e t nr 0 r
      else if nr = PR_utimensat \<or> nr = PR_futimesat \<or> nr = PR_utimes then h_utime e t nr r
      else if nr = PR_access \<or> nr = PR_faccessat \<or> nr = PR_faccessat2 then h_access e t nr r
      else if nr = PR_readlinkat then h_readlinkat e t nr r
      else if nr = PR_mkdirat then h_mkdirat e t nr r
      else if nr = PR_unlinkat then h_unlinkat e t nr r
      else if nr = PR_symlinkat then h_symlinkat e t nr r
      else if nr = PR_fchmodat \<or> nr = PR_fchmodat2 then h_fchmodat e t nr r
      else if nr = PR_fchownat then h_fchownat e t nr r
      else if nr = PR_truncate then h_truncate e t nr r
      else if nr = PR_renameat \<or> nr = PR_renameat2 then h_renameat e t nr r
      else if nr = PR_openat then h_openat e t r
      else if nr = PR_openat2 then h_openat2 e t r
      else if nr = PR_creat then h_creat e t r
      else if nr = PR_mkdir then h_mkdir e t nr r
      else if nr = PR_rmdir \<or> nr = PR_unlink then h_unlink e t nr r
      else if nr = PR_rename then h_rename e t nr r
      else if nr = PR_chmod then h_chmod e t nr r
      else if nr = PR_chown \<or> nr = PR_lchown then h_chown e t nr r
      else if nr \<in> path_stats then h_stat e t nr r
      else if nr = PR_readlink then h_readlink e t nr r
      else if nr = PR_symlink then h_symlink e t nr r
      else (False, r))"

text \<open>The calls that \<open>fd_call\<close> takes; every other call goes to \<open>path_call\<close>.\<close>

definition fd_nrs :: "sysnr set" where
  "fd_nrs = {PR_execve, PR_execveat, PR_chdir, PR_fchdir, PR_getcwd, PR_statfs, PR_statfs64, PR_fstatfs, PR_fstatfs64,
     PR_mmap, PR_mmap2, PR_msync, PR_read, PR_pread64, PR_write, PR_pwrite64, PR_copy_file_range, PR_sendfile,
     PR_sendfile64, PR_ftruncate, PR_lseek, PR_getdents64, PR_close, PR_fsync, PR_fdatasync, PR_fchmod, PR_fchown, PR_fstat}"

text \<open>The branches before the guard; \<open>Inl\<close> returns, \<open>Inr\<close> goes on.\<close>

definition early_call ::
  "'o env \<Rightarrow> (nat \<Rightarrow> char) \<Rightarrow> int \<Rightarrow> sysnr \<Rightarrow> 'o rst \<Rightarrow> (bool \<times> 'o rst) + 'o rst" where
  "early_call e junk t nr r =
     (case uknl_fuse_chan_io e junk t nr (fd_arg t 1 r) (t_arg r t 2) (t_arg r t 3) r of
        (True, r1) \<Rightarrow> Inl (True, r1)
      | (False, r1) \<Rightarrow>
          let r2 = note_fuse_open e t nr r1 in
          (case (if nr = PR_ioctl then ukfs_loop_ioctl e t r2 else (False, r2)) of
             (True, r3) \<Rightarrow> Inl (True, r3)
           | (False, r3) \<Rightarrow>
               (case ukfs_loopfd_op e t nr r3 of
                  (True, r4) \<Rightarrow> Inl (True, r4)
                | (False, r4) \<Rightarrow>
                    (case h_loop_stat e t nr r4 of
                       (True, r5) \<Rightarrow> Inl (True, r5)
                     | (False, r5) \<Rightarrow>
                         if nr = PR_mount then Inl (h_mount e t r5)
                         else if nr = PR_umount2 then Inl (h_umount2 e t r5)
                         else Inr r5))))"

definition uknl_fs_dispatch ::
  "'o env \<Rightarrow> (nat \<Rightarrow> char) \<Rightarrow> int \<Rightarrow> sysnr \<Rightarrow> 'o rst \<Rightarrow> (bool \<times> 'o rst) option" where
  "uknl_fs_dispatch e junk t nr r =
     (if \<not> env_fs_on e then Some (False, r)
      else case early_call e junk t nr r of
        Inl a \<Rightarrow> Some a
      | Inr r1 \<Rightarrow>
          if g_nm r1 = 0 then Some (False, r1)
          else if nr \<in> fd_nrs then fd_call e t nr r1
          else Some (path_call e t nr r1))"

section \<open>Exit of a call\<close>

definition uknl_fs_exit_final :: "'o env \<Rightarrow> int \<Rightarrow> sysnr \<Rightarrow> 'o rst \<Rightarrow> 'o rst" where
  "uknl_fs_exit_final e t nr r =
     (if \<not> env_fs_on e \<or> g_nm r = 0 then r
      else case pend_res_take t nr r of
        (None, r1) \<Rightarrow> r1
      | (Some want, r1) \<Rightarrow>
          if reg_int (t_res r1 t) \<noteq> reg_int (word_of_int want)
          then r1\<lparr>t_res := (t_res r1)(t := word_of_int want)\<rparr> else r1)"

definition free_fd :: "int \<Rightarrow> int \<Rightarrow> 'o rst \<Rightarrow> 'o rst" where
  "free_fd pid fd r = (case vfd_find pid fd r of None \<Rightarrow> r | Some i \<Rightarrow> vfd_free i r)"

definition vfd_put :: "ukfs_vfd \<Rightarrow> 'o rst \<Rightarrow> 'o rst" where
  "vfd_put v r = (case vfd_alloc r of None \<Rightarrow> r | Some i \<Rightarrow> upd_v i (\<lambda>_. v) r)"

text \<open>\<open>dup\<close>, \<open>dup2\<close>, \<open>dup3\<close> and the duplicating commands of \<open>fcntl\<close>.\<close>

definition dup_exit :: "int \<Rightarrow> int \<Rightarrow> 'o rst \<Rightarrow> 'o rst" where
  "dup_exit pid t r =
     (let newfd = reg_int (t_res r t); oldfd = reg_int (t_oarg r t 1) in
      if newfd < 0 \<or> newfd = oldfd then r
      else
        let r1 = free_fd pid newfd r in
        (case vfd_find pid oldfd r1 of
           None \<Rightarrow> r1
         | Some s \<Rightarrow>
             let src = g_vfd r1 ! s in
             vfd_put (vfd_zero\<lparr>v_used := True, v_pid := pid, v_fd := newfd, v_isdir := v_isdir src, v_off := v_off src,
                        v_append := v_append src, v_mnt := v_mnt src, v_path := snprintf_n PATH_MAX (v_path src)\<rparr>) r1))"

definition open_exit :: "'o env \<Rightarrow> int \<Rightarrow> int \<Rightarrow> 'o rst \<Rightarrow> 'o rst" where
  "open_exit e pid t r =
     (case find_idx (\<lambda>p. op_used p \<and> op_pid p = t) (g_open_pending r) of
        None \<Rightarrow> r
      | Some k \<Rightarrow>
          let pp = g_open_pending r ! k; fd = reg_int (t_res r t);
              r1 = (if fd < 0 then r
                    else
                      let r2 = vfd_put (vfd_zero\<lparr>v_used := True, v_pid := pid, v_fd := fd, v_isdir := op_isdir pp,
                                 v_append := op_append pp, v_mnt := op_mnt pp,
                                 v_path := snprintf_n PATH_MAX (op_path pp), v_backing := snprintf_n 64 (op_backing pp)\<rparr>)
                                 (free_fd pid fd r) in
                      if op_backing pp = [] then r2
                      else case env_translate e t (op_backing pp) (st_os r2) of
                        None \<Rightarrow> r2 | Some host \<Rightarrow> os_upd r2 (env_unlink e host (st_os r2))) in
          r1\<lparr>g_open_pending := (g_open_pending r1)[k := pp\<lparr>op_used := False\<rparr>]\<rparr>)"

definition loop_open_exit :: "'o env \<Rightarrow> int \<Rightarrow> sysnr \<Rightarrow> 'o rst \<Rightarrow> 'o rst" where
  "loop_open_exit e t nr r =
     (let fd = reg_int (t_res r t) in
      if g_lo_any r \<and> nr \<in> {PR_openat, PR_openat2, PR_creat} \<and> 0 \<le> fd
      then case ukfs_fd_hostpath e t fd PATH_MAX r of None \<Rightarrow> r | Some p \<Rightarrow> uklofd_record e t fd p r
      else r)"

definition uknl_fs_open_exit :: "'o env \<Rightarrow> int \<Rightarrow> sysnr \<Rightarrow> 'o rst \<Rightarrow> 'o rst" where
  "uknl_fs_open_exit e t nr r0 =
     (if \<not> env_fs_on e then r0
      else
        let (pid, r1) = ukfs_tgid e t (uknl_fuse_open_exit e t (reg_int (t_res r0 t)) r0);
            r = loop_open_exit e t nr r1 in
        if nr \<in> {PR_dup, PR_dup2, PR_dup3} then dup_exit pid t r
        else if nr \<in> {PR_fcntl, PR_fcntl64} then
          if reg_int (t_oarg r t 2) \<in> {0, 1030} then dup_exit pid t r else r
        else if nr \<in> {PR_openat, PR_openat2, PR_creat} then open_exit e pid t r
        else r)"

end
