(* ===== verification/VfdFrame.thy ===== *)
theory VfdFrame
  imports MountProps Dispatch
begin

text \<open>
  What the parts of the redirect leave alone: everything outside the descriptor code keeps the
  table of virtual descriptors and the table of pending opens. The engine's calls may run other
  operations in between (\<open>env_pump\<close>); for these the locale \<open>desc_inv\<close> carries an invariant of
  the two tables through every file operation.
\<close>

section \<open>The two tables\<close>

definition vkey :: "'o rst \<Rightarrow> ukfs_vfd list \<times> ukfs_pending list" where
  "vkey r = (g_vfd r, g_open_pending r)"

named_theorems vkey_simps "operations that leave the descriptor tables alone"

lemma vkey_fields [vkey_simps]:
  "vkey (r\<lparr>g_am := n\<rparr>) = vkey r" "vkey (r\<lparr>g_m := ms\<rparr>) = vkey r" "vkey (r\<lparr>g_nm := n\<rparr>) = vkey r"
  "vkey (r\<lparr>g_lo_any := b\<rparr>) = vkey r" "vkey (r\<lparr>g_ph_seq := n\<rparr>) = vkey r" "vkey (r\<lparr>g_inh_tgid := l\<rparr>) = vkey r"
  "vkey (r\<lparr>g_pend_res := pr\<rparr>) = vkey r" "vkey (r\<lparr>t_cwd := c\<rparr>) = vkey r" "vkey (r\<lparr>t_res := x\<rparr>) = vkey r"
  "vkey (r\<lparr>st_eng := h\<rparr>) = vkey r" "vkey (r\<lparr>st_next := nx\<rparr>) = vkey r" "vkey (r\<lparr>g_fopen_tid := ft\<rparr>) = vkey r"
  "vkey (r\<lparr>g_fch := cs\<rparr>) = vkey r" "vkey (r\<lparr>g_fuse_park_pid := n\<rparr>) = vkey r" "vkey (r\<lparr>g_tgid_cache := tc\<rparr>) = vkey r"
  "vkey (r\<lparr>g_fuse_root_gone := rg\<rparr>) = vkey r" "vkey (r\<lparr>g_fch_fork := fh\<rparr>) = vkey r"
  "vkey (r\<lparr>g_lofd := lf\<rparr>) = vkey r" "vkey (r\<lparr>g_lo := lo\<rparr>) = vkey r" "vkey (r\<lparr>st_os := w\<rparr>) = vkey r"
  by (simp_all add: vkey_def)

lemma vkey_basic [vkey_simps]:
  "vkey (write_data p a b r) = vkey r" "vkey (poke_void p v r) = vkey r" "vkey (resume p r) = vkey r"
  "vkey (os_upd r o1) = vkey r" "vkey (upd_ch ci f r) = vkey r" "vkey (close_fd e fd r) = vkey r"
  "vkey (fch_forget_forks c r) = vkey r" "vkey (upd_m i g r) = vkey r" "vkey (upd_lo i h r) = vkey r"
  "vkey (upd_lofd i k r) = vkey r" "vkey (set_sysarg_path p s n r) = vkey r" "vkey (poke_arg p n w r) = vkey r"
  by (simp_all add: vkey_def write_data_def poke_void_def resume_def os_upd_def upd_ch_def close_fd_def fch_forget_forks_def
      upd_m_def upd_lo_def upd_lofd_def set_sysarg_path_def poke_arg_def)

lemma vkey_pend [vkey_simps]:
  "vkey (pend_res_set p nr v r) = vkey r" "vkey (snd (pend_res_take p nr r)) = vkey r"
  by (simp_all add: pend_res_set_def pend_res_take_def vkey_simps split: option.split)

section \<open>The channel\<close>

lemma vkey_scatter_loop [vkey_simps]: "vkey (scatter_loop k t a2 src r) = vkey r"
  by (induction k arbitrary: a2 src r) (simp_all add: Let_def vkey_simps split: option.split)

lemma vkey_scatter [vkey_simps]: "vkey (fch_scatter t a2 v src n r) = vkey r"
  by (simp add: fch_scatter_def vkey_simps)

lemma vkey_deliver [vkey_simps]:
  "vkey (fch_deliver_parked ci r) = vkey r" "vkey (fch_resume_eof ci r) = vkey r"
  by (simp_all add: fch_deliver_parked_def fch_resume_eof_def Let_def vkey_simps split: option.split)

lemma vkey_send [vkey_simps]: "vkey (snd (snd (fch_send e ci b s))) = vkey (snd s)"
  by (cases s) (simp add: fch_send_def Let_def vkey_simps split: option.split prod.split)

lemma vkey_tgid [vkey_simps]: "vkey (snd (ukfs_tgid e tid r)) = vkey r"
  by (simp add: ukfs_tgid_def Let_def vkey_simps split: option.split)

lemma vkey_resolve [vkey_simps]: "vkey (snd (fch_resolve e pid fd r)) = vkey r"
  by (simp add: fch_resolve_def Let_def split_beta vkey_simps split: option.split)

lemma vkey_chan_io [vkey_simps]: "vkey (snd (uknl_fuse_chan_io e junk t nr fd a2 a3 r)) = vkey r"
  by (simp add: uknl_fuse_chan_io_def chan_read_def chan_write_def chan_reply_def Let_def split_beta vkey_simps
      split: option.split bool.split)

lemma vkey_open_note [vkey_simps]: "vkey (uknl_fuse_open_enter t r) = vkey r" "vkey (uknl_fuse_note_exec p r) = vkey r"
  by (simp_all add: uknl_fuse_open_enter_def uknl_fuse_note_exec_def vkey_simps split: option.split)

interpretation cv: teardown_inv "chan_fio e ci" "\<lambda>s. vkey (snd s) = k" for e ci k
proof (unfold_locales, goal_cases)
  case (1 s body opcode nid)
  show ?case
    by (rule noreply_keeps [where P = "\<lambda>s. vkey (snd s) = k", OF 1(1)])
       (auto simp: chan_fio_def tx_send_def split_beta vkey_simps)
qed

lemma vkey_destroy [vkey_simps]: "vkey (eng_destroy e en r) = vkey r"
proof (cases "st_eng r en")
  case (Some x)
  obtain f ci where x: "x = (f, ci)" by (rule prod.exhaust)
  show ?thesis
  proof (cases "fused_destroy (chan_fio e ci) (f, r)")
    case Nd: (Some r')
    then have "vkey r' = vkey r" using cv.fused_destroy_inv [OF Nd, of "vkey r"] by auto
    then show ?thesis using Some x Nd by (simp add: eng_destroy_def vkey_simps)
  qed (use Some x in \<open>simp add: eng_destroy_def\<close>)
qed (simp add: eng_destroy_def)

lemma vkey_fuse_open_exit [vkey_simps]: "vkey (uknl_fuse_open_exit e t fd r) = vkey r"
  by (simp add: uknl_fuse_open_exit_def Let_def split_beta vkey_simps split: option.split)

section \<open>Sockets and mounts\<close>

lemma vkey_sock [vkey_simps]:
  "vkey (snd (uksd_wn e s b r)) = vkey r" "vkey (snd (uksd_rl e s n r)) = vkey r" "vkey (snd (uksd_rn e s n r)) = vkey r"
  by (simp_all add: uksd_wn_def uksd_rl_def uksd_rn_def vkey_simps split_beta)

lemma vkey_slots [vkey_simps]:
  "vkey (ukfs_sdrop e r) = vkey r" "vkey (slot_clear i r) = vkey r" "vkey (free_channel ci r) = vkey r"
  by (simp_all add: ukfs_sdrop_def slot_clear_def free_channel_def Let_def vkey_simps)

lemma vkey_unmount [vkey_simps]: "vkey (ukfs_unmount_slot e j r) = vkey r"
  by (simp add: ukfs_unmount_slot_def Let_def split_beta vkey_simps split: option.split)

lemma vkey_conn [vkey_simps]:
  "vkey (snd (ukfs_block_present e r)) = vkey r" "vkey (snd (ukfs_connect e nm r)) = vkey r" "vkey (snd (ukfs_do_mount e r)) = vkey r"
  by (simp_all add: ukfs_block_present_def ukfs_connect_def ukfs_do_mount_def Let_def split_beta vkey_simps
      split: bool.split option.split)

lemma vkey_ready [vkey_simps]: "vkey (snd (conn_ready e r)) = vkey r"
  by (simp add: conn_ready_def split_beta vkey_simps split: bool.split)

lemma vkey_ukfs_conn [vkey_simps]: "vkey (snd (ukfs_conn e r)) = vkey r"
  by (simp add: ukfs_conn_def Let_def split_beta vkey_simps split: bool.split option.split)

lemma vkey_register [vkey_simps]:
  "vkey (snd (ukfs_rel g n r)) = vkey r" "vkey (snd (ukm_register tgt tok b sz rng r)) = vkey r"
  "vkey (snd (ukm_register_fuse tgt en ci r)) = vkey r"
  by (simp_all add: ukfs_rel_def ukm_register_def ukm_register_fuse_def Let_def split_beta vkey_simps split: option.split)

lemma vkey_mounts [vkey_simps]:
  "vkey (snd (ukfs_mount_register src tgt r)) = vkey r" "vkey (snd (ukfs_umount_target e t raw r)) = vkey r"
  "vkey (snd (uknl_fuse_mount e t r)) = vkey r"
  by (simp_all add: ukfs_mount_register_def ukfs_umount_target_def uknl_fuse_mount_def Let_def split_beta vkey_simps split: option.split)

lemma vkey_for_ch: "(\<And>i r. vkey (body i r) = vkey r) \<Longrightarrow> vkey (for_ch P body is r) = vkey r"
  by (induction "is" arbitrary: r) auto

lemma vkey_owner_gone [vkey_simps]: "vkey (uknl_fuse_owner_gone e pid r) = vkey r"
  unfolding uknl_fuse_owner_gone_def
  by (rule vkey_for_ch) (simp add: owner_teardown_def Let_def vkey_simps split: option.split)

lemma chan_step_vkey: "chan_step e r r' \<Longrightarrow> vkey r' = vkey r"
proof (induction rule: chan_step.induct)
  case (S_drain r)
  show ?case
    unfolding uknl_fuse_drain_parked_def
    using vkey_for_ch [where body = fch_resume_eof and r = "r\<lparr>g_fuse_root_gone := True\<rparr>"] by (simp add: vkey_simps)
next
  case (S_reap r)
  show ?case unfolding uknl_fuse_reap_signaled_def by (rule vkey_for_ch) (simp add: vkey_simps)
next
  case (S_fork r pp cp)
  show ?case by (simp add: uknl_fuse_note_fork_def split_beta Let_def vkey_simps split: option.split)
next
  case (S_take r p)
  show ?case by (simp add: uknl_fuse_take_park_def vkey_simps)
next
  case (S_daemon r p)
  show ?case by (simp add: uknl_fuse_is_daemon_def split_beta Let_def vkey_simps)
qed (simp_all add: vkey_simps)

section \<open>Loop devices\<close>

lemma vkey_dconn [vkey_simps]: "vkey (snd (ukfs_dconn e nm r)) = vkey r"
  by (simp add: ukfs_dconn_def Let_def split_beta vkey_simps split: bool.split option.split)

lemma vkey_parts_loop [vkey_simps]: "vkey (snd (parts_loop e k s want found r)) = vkey r"
proof (induction k arbitrary: found r)
  case (Suc k)
  then show ?case by (simp add: Let_def split_beta vkey_simps split: option.split prod.split)
qed simp

lemma vkey_image_part [vkey_simps]: "vkey (snd (ukfs_image_part e img p r)) = vkey r"
  by (simp add: ukfs_image_part_def Let_def split_beta vkey_simps split: bool.split option.split)

lemma vkey_loop_resolve [vkey_simps]: "vkey (snd (ukfs_loop_resolve e g n r)) = vkey r"
  by (simp add: ukfs_loop_resolve_def Let_def split_beta vkey_simps split: option.split)

lemma vkey_loop_nodes [vkey_simps]:
  "vkey (snd (ukfs_register_any e src tgt r)) = vkey r" "vkey (snd (ukfs_src_mountable e src r)) = vkey r"
  "vkey (snd (ukfs_loop_node_size e g r)) = vkey r"
  by (simp_all add: ukfs_register_any_def ukfs_src_mountable_def ukfs_loop_node_size_def Let_def split_beta vkey_simps split: option.split)

lemma vkey_loop_cmds [vkey_simps]:
  "vkey (snd (loop_control t a b r)) = vkey r" "vkey (loop_set_fd e t n a r) = vkey r" "vkey (loop_configure e t n a r) = vkey r"
  "vkey (loop_set_status t n a r) = vkey r" "vkey (loop_get_status t n a r) = vkey r"
  by (simp_all add: loop_control_def loop_set_fd_def loop_configure_def loop_set_status_def loop_get_status_def Let_def vkey_simps
      split: option.split)

lemma vkey_loop_command [vkey_simps]: "vkey (snd (loop_command e t n a b r)) = vkey r"
  by (simp add: loop_command_def Let_def vkey_simps)

lemma vkey_loop_ioctl [vkey_simps]: "vkey (snd (ukfs_loop_ioctl e t r)) = vkey r"
  by (simp add: ukfs_loop_ioctl_def Let_def vkey_simps split: option.split)

lemma vkey_loop_io [vkey_simps]:
  "vkey (snd (blk_ioctl t a b n r)) = vkey r" "vkey (loop_lseek t i x y r) = vkey r" "vkey (loop_end t i nr x y r) = vkey r"
  by (simp_all add: blk_ioctl_def loop_lseek_def loop_end_def Let_def vkey_simps)

lemma vkey_loop_rw [vkey_simps]: "vkey (snd (loop_rw e t i nr r)) = vkey r"
  by (simp add: loop_rw_def Let_def split_beta vkey_simps split: option.split bool.split)

lemma vkey_loopfd_op [vkey_simps]: "vkey (snd (ukfs_loopfd_op e t nr r)) = vkey r"
  by (simp add: ukfs_loopfd_op_def Let_def split_beta vkey_simps split: option.split)

lemma vkey_marks [vkey_simps]: "vkey (mark_node e p n a b c r) = vkey r" "vkey (snd (open_image e p r)) = vkey r"
  by (simp_all add: mark_node_def open_image_def Let_def split_beta vkey_simps split: option.split)

lemma vkey_lofd_record [vkey_simps]: "vkey (uklofd_record e t fd p r) = vkey r"
  by (simp add: uklofd_record_def Let_def split_beta vkey_simps split: option.split)

section \<open>The tracee\<close>

lemma vkey_put [vkey_simps]:
  "vkey (ukfs_put_stat t a q r) = vkey r" "vkey (ukfs_put_statx t a q r) = vkey r" "vkey (ukfs_put_statfs t a sf r) = vkey r"
  by (simp_all add: ukfs_put_stat_def ukfs_put_statx_def ukfs_put_statfs_def vkey_simps)

lemma vkey_answer [vkey_simps]: "vkey (snd (answer t nr v r)) = vkey r" "vkey (snd (answer_now t v r)) = vkey r"
  by (simp_all add: answer_def answer_now_def vkey_simps)

lemma vkey_set_cwd [vkey_simps]: "vkey (set_cwd e t p r) = vkey r"
  by (simp add: set_cwd_def Let_def split_beta vkey_simps)

lemma vkey_early [vkey_simps]:
  "vkey (note_fuse_open e t nr r) = vkey r" "vkey (snd (h_loop_stat e t nr r)) = vkey r" "vkey (snd (h_mount e t r)) = vkey r"
  "vkey (snd (h_umount2 e t r)) = vkey r"
  by (simp_all add: note_fuse_open_def h_loop_stat_def h_mount_def h_umount2_def Let_def split_beta vkey_simps split: option.split bool.split)

lemma vkey_loop_open_exit [vkey_simps]: "vkey (loop_open_exit e t nr r) = vkey r"
  by (simp add: loop_open_exit_def Let_def vkey_simps split: option.split)

lemma early_call_vkey:
  "early_call e junk t nr r = Inl x \<Longrightarrow> vkey (snd x) = vkey r" "early_call e junk t nr r = Inr r1 \<Longrightarrow> vkey r1 = vkey r"
  by (auto simp: early_call_def Let_def split_beta vkey_simps split: bool.splits if_splits)

end
