(* ===== verification/VfdInv.thy ===== *)
theory VfdInv
  imports VfdFrame LoopProps
begin

text \<open>
  The descriptor tables are well typed in every reachable state: sizes and buffers within their
  C bounds, at most one entry for a descriptor of a thread group, listings with their position
  inside. The locale \<open>desc_inv\<close> carries any invariant of the two tables through the file
  operations; the handlers follow.
\<close>

section \<open>The invariant\<close>

definition dent_ok :: "ukfs_dent \<Rightarrow> bool" where
  "dent_ok d \<longleftrightarrow> length (de_name d) \<le> 255"

definition vfd_ok :: "ukfs_vfd \<Rightarrow> bool" where
  "vfd_ok v \<longleftrightarrow> length (v_path v) < PATH_MAX \<and> length (v_backing v) < 64 \<and> - (2 ^ 63) \<le> v_off v \<and> v_off v < 2 ^ 63 \<and>
     (v_used v \<longrightarrow> 0 \<le> v_fd v) \<and>
     (\<forall>ds. v_dents v = Some ds \<longrightarrow> list_all dent_ok ds \<and> v_dent_n v = length ds \<and> v_dent_idx v \<le> length ds)"

definition pending_ok :: "ukfs_pending \<Rightarrow> bool" where
  "pending_ok p \<longleftrightarrow> length (op_path p) < PATH_MAX \<and> length (op_backing p) < 64"

definition one_each :: "ukfs_vfd list \<Rightarrow> bool" where
  "one_each vs \<longleftrightarrow> (\<forall>i<length vs. \<forall>j<length vs. v_used (vs ! i) \<and> v_used (vs ! j) \<and>
     v_pid (vs ! i) = v_pid (vs ! j) \<and> v_fd (vs ! i) = v_fd (vs ! j) \<longrightarrow> i = j)"

definition vfds_ok :: "'o rst \<Rightarrow> bool" where
  "vfds_ok r \<longleftrightarrow> length (g_vfd r) = 128 \<and> list_all vfd_ok (g_vfd r) \<and> one_each (g_vfd r) \<and>
     length (g_open_pending r) = 64 \<and> list_all pending_ok (g_open_pending r)"

text \<open>
  What proot's event loop and its allocator promise: waiting for a FUSE reply ends, and what
  runs meanwhile keeps the tables well typed.
\<close>

definition tame :: "'o env \<Rightarrow> bool" where
  "tame e \<longleftrightarrow> (\<forall>s. vfds_ok (snd s) \<longrightarrow> vfds_ok (snd (snd (env_pump e s)))) \<and>
     (\<forall>ci cap u s. fch_recv e ci cap u s \<noteq> None) \<and>
     (\<forall>t n r. vfds_ok r \<longrightarrow> vfds_ok (snd (env_alloc_mem e t n r)))"

section \<open>File operations\<close>

named_theorems keep_intros "operations that keep an invariant of the descriptor tables"

locale desc_inv =
  fixes e :: "'o env" and I :: "'o rst \<Rightarrow> bool"
  assumes tables: "vkey r' = vkey r \<Longrightarrow> I r \<Longrightarrow> I r'"
    and pumped: "I (snd s) \<Longrightarrow> I (snd (snd (env_pump e s)))"
    and waits: "I (snd s) \<Longrightarrow> fch_recv e ci cap u s \<noteq> None"
    and in_tracee: "I r \<Longrightarrow> I (snd (env_alloc_mem e t n r))"
begin

lemma same: "vkey r' = vkey r \<Longrightarrow> I r' = I r"
  using tables [of r' r] tables [of r r'] by auto

lemmas frames [simp] = vkey_simps [THEN same]

lemma wait_keeps:
  assumes "fch_wait e ci cap u saved s = Some y" and "I (snd s)"
  shows "I (snd (snd y))"
proof -
  have "e = e \<longrightarrow> I (snd s) \<longrightarrow> I (snd (snd y))"
  proof (rule fch_wait.raw_induct [where P = "\<lambda>e' ci cap u saved s y. e' = e \<longrightarrow> I (snd s) \<longrightarrow> I (snd (snd y))", OF _ assms(1)], goal_cases)
    case (1 fw e' ci cap u saved s y)
    show ?case
    proof (cases "find_idx (\<lambda>m. m_used m \<and> m_uniq m = u) (c_rp (g_fch (snd s) ! ci))")
      case (Some i)
      then show ?thesis using 1(2) by (auto simp: Let_def)
    next
      case None
      obtain x s' where p: "env_pump e' s = (x, s')" by (rule prod.exhaust)
      then show ?thesis using 1(1) [of e' ci cap u saved s' y] 1(2) None pumped [of s] by (auto split: if_splits)
    qed
  qed
  with assms(2) show ?thesis by simp
qed

lemma recv_keeps: "I (snd s) \<Longrightarrow> I (snd (snd (tx_recv (chan_fio e ci) n u s)))"
  using wait_keeps [of ci n u "g_am (snd s)" s] waits [of s ci n u] by (auto simp: tx_recv_def chan_fio_def fch_recv_def split_beta)

lemma send_keeps: "I (snd s) \<Longrightarrow> I (snd (snd (tx_send (chan_fio e ci) m s)))"
  by (simp add: tx_send_def chan_fio_def split_beta)

lemma alloc_keeps: "I w \<Longrightarrow> I (snd (sys_alloc (chan_fio e ci) n w))"
  by (simp add: chan_fio_def split_beta)

end

sublocale desc_inv \<subseteq> ch: engine_inv "chan_fio e ci" "\<lambda>s. I (snd s)" for ci
proof (unfold_locales, goal_cases)
  case (1 s body opcode nid)
  show ?case by (rule exchange_keeps [where P = "\<lambda>s. I (snd s)", OF 1(1)]) (simp_all add: alloc_keeps send_keeps recv_keeps)
next
  case (2 s body opcode nid)
  show ?case by (rule noreply_keeps [where P = "\<lambda>s. I (snd s)", OF 2(1)]) (simp_all add: alloc_keeps send_keeps)
next
  case (3 s path nid)
  then show ?case using cache_put_world [of I "snd s" "sys_alloc (chan_fio e ci)" path nid "fst s"] alloc_keeps by simp
qed simp_all

context desc_inv
begin

lemma with_eng_keeps:
  assumes "I r" and "\<And>ci s. I (snd s) \<Longrightarrow> I (snd (snd (opn (chan_fio e ci) s)))"
  shows "I (snd (with_eng e en opn r))"
  using assms by (auto simp: with_eng_def split_beta Let_def split: option.split)

lemma fuse_active_keeps [keep_intros]: "I r \<Longrightarrow> I (snd (fuse_active e r))"
  using with_eng_keeps [of r fused_init] by (simp add: fuse_active_def Let_def split_beta ch.fused_init_inv split: option.split sum.split)

lemma wn_all_keeps [simp]: "I (snd (wn_all e s bs r)) = I r"
  by (induction bs arbitrary: r) (simp_all add: split_beta split: bool.split)

lemma ask_keeps [simp]: "I (snd (ukfs_ask e lines n r)) = I r"
  by (simp add: ukfs_ask_def split_beta split: bool.split option.split)

lemma data_keeps [simp]: "I (snd (ukfs_data e s line n r)) = I r"
  by (simp add: ukfs_data_def Let_def split_beta split: option.split)

lemma client_keeps [keep_intros]:
  assumes "I r"
  shows "I (snd (ukfs_query_stat e rel r))" and "I (snd (ukfs_query_statfs e r))" and "I (snd (ukfs_read_at e rel off len r))"
    and "I (snd (ukfs_readlink_at e rel n r))" and "I (snd (ukfs_write_at e rel off buf r))" and "I (snd (ukfs_two_path e cmd a b r))"
  by (simp_all add: ukfs_query_stat_def ukfs_query_statfs_def ukfs_read_at_def ukfs_readlink_at_def ukfs_write_at_def ukfs_two_path_def
      split_beta Let_def with_eng_keeps fuse_active_keeps ch.call_inv assms split: option.split sum.split)

lemma create_keeps [keep_intros]: "I r \<Longrightarrow> I (snd (ukfs_create_at e rel mode r))"
  by (simp add: ukfs_create_at_def split_beta with_eng_keeps fuse_active_keeps ch.call_inv split: option.split sum.split)

lemma simple_op_keeps: "I (snd s) \<Longrightarrow> I (snd (snd (fuse_simple_op pfx rel (chan_fio e ci) s)))"
  by (simp add: fuse_simple_op_def Let_def fused_rmdir_def fused_unlink_def fused_chmod_def fused_truncate_def ch.call_inv ch.rret_inv ch.setattr_inv ch.name_op_inv split: option.split)

lemma simple_keeps [keep_intros]: "I r \<Longrightarrow> I (snd (ukfs_simple e pfx rel r))"
  by (simp add: ukfs_simple_def split_beta Let_def with_eng_keeps fuse_active_keeps simple_op_keeps split: option.split)

end

section \<open>Updates of the tables\<close>

lemma vfds_ok_vkey: "vkey r' = vkey r \<Longrightarrow> vfds_ok r' = vfds_ok r"
  by (simp add: vfds_ok_def vkey_def)

lemmas vfds_frames [simp] = vkey_simps [THEN vfds_ok_vkey]

lemma vfd_ok_zero: "vfd_ok vfd_zero"
  by (simp add: vfd_ok_def vfd_zero_def PATH_MAX_def)

lemma one_each_upd:
  assumes "one_each vs" and "v_used v \<longrightarrow> (\<forall>j<length vs. j \<noteq> i \<longrightarrow> v_used (vs ! j) \<longrightarrow> \<not> (v_pid (vs ! j) = v_pid v \<and> v_fd (vs ! j) = v_fd v))"
  shows "one_each (vs[i := v])"
proof (cases "i < length vs")
  case True
  have "a = b" if "a < length vs" "b < length vs" "v_used (vs[i := v] ! a)" "v_used (vs[i := v] ! b)"
    "v_pid (vs[i := v] ! a) = v_pid (vs[i := v] ! b)" "v_fd (vs[i := v] ! a) = v_fd (vs[i := v] ! b)" for a b
    using assms that True unfolding one_each_def by (cases "a = i"; cases "b = i") (auto simp: eq_commute)
  then show ?thesis unfolding one_each_def by simp
qed (use assms(1) in \<open>simp add: list_update_beyond\<close>)

lemma upd_v_ok:
  assumes "vfds_ok r" and "vfd_ok (f (g_vfd r ! i))"
    and "v_used (f (g_vfd r ! i)) \<longrightarrow> (\<forall>j<length (g_vfd r). j \<noteq> i \<longrightarrow> v_used (g_vfd r ! j) \<longrightarrow>
      \<not> (v_pid (g_vfd r ! j) = v_pid (f (g_vfd r ! i)) \<and> v_fd (g_vfd r ! j) = v_fd (f (g_vfd r ! i))))"
  shows "vfds_ok (upd_v i f r)"
proof -
  have "list_all vfd_ok ((g_vfd r)[i := f (g_vfd r ! i)])"
    using assms(1,2) set_update_subset_insert [of "g_vfd r" i "f (g_vfd r ! i)"] by (auto simp: vfds_ok_def list_all_iff)
  then show ?thesis using assms one_each_upd [of "g_vfd r" "f (g_vfd r ! i)" i] by (simp add: vfds_ok_def upd_v_def)
qed

text \<open>An update that keeps the entry's identity.\<close>

lemma entry_keeps:
  assumes "vfds_ok r" and "\<And>v. vfd_ok v \<Longrightarrow> vfd_ok (f v)"
    and "\<And>v. v_used (f v) = v_used v" and "\<And>v. v_pid (f v) = v_pid v" and "\<And>v. v_fd (f v) = v_fd v"
  shows "vfds_ok (upd_v i f r)"
proof (cases "i < length (g_vfd r)")
  case True
  then have "vfd_ok (g_vfd r ! i)" using assms(1) by (simp add: vfds_ok_def list_all_length)
  then show ?thesis using assms True by (intro upd_v_ok) (auto simp: vfds_ok_def one_each_def)
next
  case False
  then show ?thesis using assms(1) by (simp add: upd_v_def list_update_beyond)
qed

lemma s64_range: "- (2 ^ 63) \<le> s64 x" "s64 x < 2 ^ 63"
  using sint_u64_bounds [of "word_of_int x"] by (simp_all add: s64_def)

lemma small_updates:
  assumes "vfds_ok r"
  shows "vfds_ok (upd_v i (\<lambda>v. v\<lparr>v_off := s64 (g v)\<rparr>) r)" and "vfds_ok (upd_v i (\<lambda>v. v\<lparr>v_wrote := b\<rparr>) r)"
    and "vfds_ok (upd_v i (\<lambda>v. v\<lparr>v_mmapw := b\<rparr>) r)" and "vfds_ok (upd_v i (\<lambda>v. v\<lparr>v_dents := None, v_dent_n := n\<rparr>) r)"
    and "vfds_ok (upd_v i (\<lambda>v. v\<lparr>v_off := (if c then s64 (g v) else v_off v), v_wrote := b\<rparr>) r)"
  using s64_range by (auto intro!: entry_keeps [OF assms] simp: vfd_ok_def)

lemma free_ok: "vfds_ok r \<Longrightarrow> vfds_ok (vfd_free i r)"
  unfolding vfd_free_def by (rule upd_v_ok) (simp_all add: vfd_ok_zero, simp add: vfd_zero_def)

lemma set_dents_ok:
  assumes "vfds_ok r" and "list_all dent_ok ds"
  shows "vfds_ok (set_dents i ds r)"
  unfolding set_dents_def by (rule entry_keeps [OF assms(1)]) (use assms(2) in \<open>auto simp: vfd_ok_def\<close>)

lemma find_none: "vfd_find pid fd r = None \<longleftrightarrow> (\<forall>j<length (g_vfd r). \<not> (v_used (g_vfd r ! j) \<and> v_pid (g_vfd r ! j) = pid \<and> v_fd (g_vfd r ! j) = fd))"
  by (simp add: vfd_find_def find_idx_None all_set_conv_all_nth)

lemma find_some:
  "vfd_find pid fd r = Some i \<Longrightarrow> i < length (g_vfd r) \<and> v_used (g_vfd r ! i) \<and> v_pid (g_vfd r ! i) = pid \<and> v_fd (g_vfd r ! i) = fd"
  unfolding vfd_find_def using find_idx_sat find_idx_less by fastforce

lemma put_at_free:
  assumes "vfds_ok r" and "vfd_ok v" and "vfd_find (v_pid v) (v_fd v) r = None" 
  shows "vfds_ok (upd_v i (\<lambda>_. v) r)"
  using assms find_none [of "v_pid v" "v_fd v" r] by (intro upd_v_ok) auto

lemma vfd_put_ok: "vfds_ok r \<Longrightarrow> vfd_ok v \<Longrightarrow> vfd_find (v_pid v) (v_fd v) r = None \<Longrightarrow> vfds_ok (vfd_put v r)"
  by (simp add: vfd_put_def put_at_free split: option.split)

lemma free_fd_ok: "vfds_ok r \<Longrightarrow> vfds_ok (free_fd pid fd r)"
  by (simp add: free_fd_def free_ok split: option.split)

lemma free_fd_find: "vfds_ok r \<Longrightarrow> vfd_find pid fd (free_fd pid fd r) = None"
proof (cases "vfd_find pid fd r")
  case (Some i)
  assume "vfds_ok r"
  with find_some [OF Some] Some show ?thesis
    by (auto simp: free_fd_def vfd_free_def find_none upd_v_def nth_list_update vfd_zero_def vfds_ok_def one_each_def)
qed (simp add: free_fd_def)

lemma inh_copy_ok: "vfds_ok r \<Longrightarrow> \<forall>i\<in>set is. i < length (g_vfd r) \<Longrightarrow> vfds_ok (inh_copy tg is r)"
proof (induction "is" arbitrary: r)
  case (Cons i "is")
  let ?v = "(g_vfd r ! i)\<lparr>v_pid := tg, v_dents := None, v_dent_n := 0, v_dent_idx := 0\<rparr>"
  have l: "length (g_vfd (upd_v n f r)) = length (g_vfd r)" for n f by (simp add: upd_v_def)
  have "vfd_ok ?v" using Cons.prems by (auto simp: vfds_ok_def list_all_length vfd_ok_def)
  then have "vfds_ok (upd_v n (\<lambda>_. ?v) r)" if "vfd_find tg (v_fd (g_vfd r ! i)) r = None" for n
    using that Cons.prems(1) by (intro put_at_free) auto
  then show ?case using Cons by (auto simp: Let_def l split: option.split)
qed simp

lemma inh_walk_ok: "vfds_ok r \<Longrightarrow> vfds_ok (inh_walk e k tg tid r)"
proof (induction k arbitrary: tid r)
  case (Suc k)
  then show ?case
    using inh_copy_ok [of "snd (ukfs_tgid e (ukfs_ppid e tid r) r)" "group_vfds (fst (ukfs_tgid e (ukfs_ppid e tid r) r)) (snd (ukfs_tgid e (ukfs_ppid e tid r) r))" tg]
    by (auto simp: Let_def split_beta group_vfds_def)
qed simp

lemma inh_mark_ok [simp]: "vfds_ok (snd (inh_mark tg r)) = vfds_ok r"
  by (simp add: inh_mark_def)

lemma lookup_ok: "vfds_ok r \<Longrightarrow> vfds_ok (snd (vfd_lookup e t fd r))"
  using inh_walk_ok [of "snd (inh_mark (fst (ukfs_tgid e t r)) (snd (ukfs_tgid e t r)))" e 16 "fst (ukfs_tgid e t r)" t]
  by (simp add: vfd_lookup_def split_beta Let_def split: option.split bool.split)

lemma pid_gone_ok:
  assumes "vfds_ok r"
  shows "vfds_ok (uknl_fs_pid_gone e pid r)"
proof -
  have "vfds_ok (foldl (lofd_gone e pid) r' is) = vfds_ok r'" for r' :: "'a rst" and "is"
    by (induction "is" arbitrary: r') (simp_all add: lofd_gone_def Let_def)
  then show ?thesis
    using assms vfd_ok_zero by (auto simp: uknl_fs_pid_gone_def vfds_ok_def list_all_length one_each_def vfd_zero_def)
qed

lemma pending_set_ok:
  assumes "vfds_ok r"
  shows "vfds_ok (open_pending_set t d a p b r)"
proof -
  have "list_all pending_ok ((g_open_pending r)[i := \<lparr>op_used = True, op_pid = t, op_isdir = d, op_append = a, op_mnt = g_am r,
           op_path = snprintf_n PATH_MAX p, op_backing = snprintf_n 64 b\<rparr>])" for i
    using assms set_update_subset_insert [of "g_open_pending r" i]
    by (fastforce simp: vfds_ok_def list_all_iff pending_ok_def snprintf_n_def PATH_MAX_def)
  then show ?thesis using assms by (simp add: open_pending_set_def vfds_ok_def Let_def split: option.split)
qed

section \<open>Listings\<close>

lemma cstr_length: "length (cstr b) \<le> length b"
  by (simp add: cstr_def length_takeWhile_le)

lemma dot_dents_ok: "list_all dent_ok dot_dents"
  by (simp add: dot_dents_def dent_ok_def)

lemma parse_blob_ok: "list_all dent_ok (parse_blob n b)"
proof (induction n arbitrary: b)
  case (Suc n)
  have "length (cstr (take (min k 255) c)) \<le> 255" for k c
    using cstr_length [of "take (min k 255) c"] by simp
  with Suc show ?case by (simp add: Let_def dent_ok_def)
qed simp

lemma dir_emit_ok: "list_all dent_ok ds \<Longrightarrow> fst (fuse_dir_emit e es cap ds os) = Some ds' \<Longrightarrow> list_all dent_ok ds'"
proof (induction es arbitrary: cap ds os)
  case (Cons x es)
  obtain nm ty where x: "x = (nm, ty)" by (rule prod.exhaust)
  have "dent_ok \<lparr>de_ino = 0, de_type = k, de_name = snprintf_n 256 nm\<rparr>" for k
    by (simp add: dent_ok_def snprintf_n_def)
  then have "list_all dent_ok (ds @ [\<lparr>de_ino = 0, de_type = k, de_name = snprintf_n 256 nm\<rparr>])" for k
    using Cons.prems(1) by simp
  from Cons.IH [OF this] Cons.IH [OF Cons.prems(1)] Cons.prems(2) show ?case
    by (simp add: x Let_def split_beta split: if_split_asm)
qed simp

lemma emit_loop_pos: "emit_loop k ds cap out = (k', out') \<Longrightarrow> k \<le> k' \<and> k' \<le> k + length ds"
  by (induction k ds cap out rule: emit_loop.induct) (fastforce simp: Let_def split: if_splits)+

lemma emit_dents_ok:
  assumes "vfds_ok r" and "v_dents (g_vfd r ! i) \<noteq> None" and "i < length (g_vfd r)"
  shows "vfds_ok (snd (ukfs_emit_dents i cap r))"
proof -
  obtain ds where ds: "v_dents (g_vfd r ! i) = Some ds" using assms(2) by blast
  obtain k out where k: "emit_loop (v_dent_idx (g_vfd r ! i)) (drop (v_dent_idx (g_vfd r ! i)) (take (v_dent_n (g_vfd r ! i)) ds)) cap [] = (k, out)"
    by (rule prod.exhaust)
  have v: "vfd_ok (g_vfd r ! i)" using assms by (simp add: vfds_ok_def list_all_length)
  then have "k \<le> length ds" using emit_loop_pos [OF k] ds by (auto simp: vfd_ok_def)
  with v ds have "vfd_ok ((g_vfd r ! i)\<lparr>v_dent_idx := k\<rparr>)" by (auto simp: vfd_ok_def)
  then have "vfds_ok (upd_v i (\<lambda>v. v\<lparr>v_dent_idx := k\<rparr>) r)"
    using assms by (intro upd_v_ok) (auto simp: vfds_ok_def one_each_def)
  then show ?thesis using k ds by (simp add: ukfs_emit_dents_def Let_def)
qed

section \<open>The handlers\<close>

lemma pred_if: "pred_option P a \<Longrightarrow> pred_option P b \<Longrightarrow> pred_option P (if c then a else b)"
  by simp

lemma pred_some: "P (snd x) \<Longrightarrow> pred_option (P \<circ> snd) (Some x)"
  by simp

lemma ok_if: "vfds_ok (snd a) \<Longrightarrow> vfds_ok (snd b) \<Longrightarrow> vfds_ok (snd (if c then a else b))"
  by simp

locale tame_env =
  fixes e :: "'o env"
  assumes tame_e: "tame e"

sublocale tame_env \<subseteq> desc_inv e vfds_ok
proof (unfold_locales, goal_cases)
  case (1 r' r)
  then show ?case using vfds_ok_vkey [of r' r] by blast
next
  case (2 s)
  then show ?case using tame_e unfolding tame_def by blast
next
  case (3 s ci cap u)
  then show ?case using tame_e unfolding tame_def by blast
next
  case (4 r t n)
  then show ?case using tame_e unfolding tame_def by blast
qed

context tame_env
begin

lemmas keeps = keep_intros lookup_ok small_updates free_ok set_dents_ok pending_set_ok

lemma read_retry_keeps: "vfds_ok (snd nr) \<Longrightarrow> vfds_ok (snd (read_retry e k rel off len nr))"
proof (induction k arbitrary: nr)
  case (Suc k)
  then show ?case using client_keeps(3) [of "snd nr" rel off len] by (cases nr) simp
next
  case 0
  then show ?case by (cases nr) simp
qed

lemma read_loop_keeps: "e' = e \<Longrightarrow> vfds_ok r \<Longrightarrow> vfds_ok (snd (snd (read_loop e' i pos len acc fsize r)))"
proof (induction e' i pos len acc fsize r rule: read_loop.induct)
  case (1 e' i pos len acc fsize r)
  let ?off = "s64 (pos + int (length acc))" and ?want = "len - length acc"
  obtain a r1 where a: "ukfs_read_at e (v_path (g_vfd r ! i)) ?off ?want r = (a, r1)" by (rule prod.exhaust)
  have k1: "vfds_ok r1" using client_keeps(3) [OF 1(4), of "v_path (g_vfd r ! i)" ?off ?want] a by simp
  obtain fs r2 where b: "read_fsize e i ?off fsize r1 = (fs, r2)" by (rule prod.exhaust)
  have k2: "vfds_ok r2"
    using client_keeps(1) [OF k1, of "v_path (g_vfd r1 ! i)"] k1 b by (auto simp: read_fsize_def split: if_splits prod.splits sum.splits)
  obtain c r3 where c: "read_retry e 16 (v_path (g_vfd r2 ! i)) ?off ?want (Some [], r2) = (c, r3)" by (rule prod.exhaust)
  have k3: "vfds_ok r3" using read_retry_keeps [of "(Some [], r2)" 16 "v_path (g_vfd r2 ! i)" ?off ?want] k2 c by simp
  show ?case
    using 1(1) [OF _ _ _ a [unfolded 1(3) [symmetric], symmetric]] 1(2) [OF _ _ _ a [unfolded 1(3) [symmetric], symmetric] _ _ b [unfolded 1(3) [symmetric], symmetric] _ c [unfolded 1(3) [symmetric], symmetric]]
      1(3,4) a b c k1 k2 k3
    by (subst read_loop.simps) (auto simp: Let_def split: option.split)
qed

lemma populate_loop_keeps: "e' = e \<Longrightarrow> vfds_ok r \<Longrightarrow> vfds_ok (snd (snd (populate_loop e' rel bfd sz off r)))"
proof (induction e' rel bfd sz off r rule: populate_loop.induct)
  case (1 e' rel bfd sz off r)
  obtain a r1 where a: "read_retry e 16 rel off 65536 (ukfs_read_at e rel off 65536 r) = (a, r1)" by (rule prod.exhaust)
  have k: "vfds_ok r1"
    using read_retry_keeps [OF client_keeps(3) [OF 1(3)], of 16 rel off 65536 rel off 65536] a by simp
  show ?case
    using 1(1) [OF _ a [unfolded 1(2) [symmetric], symmetric]] 1(2,3) a k
    by (subst populate_loop.simps) (simp split: option.split prod.split bool.split)
qed

lemma flush_loop_keeps: "e' = e \<Longrightarrow> vfds_ok r \<Longrightarrow> vfds_ok (flush_loop e' path bfd en off r)"
proof (induction e' path bfd en off r rule: flush_loop.induct)
  case (1 e' path bfd en off r)
  have "vfds_ok r1" if "ukfs_write_at e path off d (os_upd r o1) = (n, r1)" for d o1 n r1
    using client_keeps(5) [of "os_upd r o1" path off d] 1(3) that by simp
  with 1 show ?case by (subst flush_loop.simps) (simp split: option.split prod.split)
qed

lemma exec_copy_keeps: "e' = e \<Longrightarrow> vfds_ok r \<Longrightarrow> vfds_ok (snd (snd (exec_copy e' rel bfd sz off r)))"
proof (induction e' rel bfd sz off r rule: exec_copy.induct)
  case (1 e' rel bfd sz off r)
  obtain a r1 where a: "ukfs_read_at e rel off 65536 r = (a, r1)" by (rule prod.exhaust)
  have k: "vfds_ok r1" using client_keeps(3) [OF 1(3), of rel off 65536] a by simp
  show ?case
    using 1(1) [OF _ a [unfolded 1(2) [symmetric], symmetric]] 1(2,3) a k
    by (subst exec_copy.simps) (simp split: option.split prod.split)
qed

lemma populate_keeps: "vfds_ok r \<Longrightarrow> vfds_ok (ukfs_populate_fd e t fd rel r)"
  by (simp add: ukfs_populate_fd_def split_beta Let_def client_keeps populate_loop_keeps split: sum.split)

lemma flush_keeps: "vfds_ok r \<Longrightarrow> vfds_ok (ukfs_flush_mmap e t i fd r)"
  by (simp add: ukfs_flush_mmap_def split_beta Let_def flush_loop_keeps small_updates)

lemma rel_at_keeps: "vfds_ok r \<Longrightarrow> vfds_ok (snd (ukfs_rel_at e t dirfd p n r))"
  by (simp add: ukfs_rel_at_def split_beta Let_def lookup_ok split: option.split)

lemma rel_arg_keeps: "vfds_ok r \<Longrightarrow> vfds_ok (snd (rel_arg e t dirfd n r))"
  by (simp add: rel_arg_def rel_at_keeps split: option.split)

lemma placeholder_keeps: "vfds_ok r \<Longrightarrow> vfds_ok (snd (open_placeholder t rel d fl n r))"
  by (simp add: open_placeholder_def Let_def pending_set_ok)

lemma open_redirect_keeps:
  assumes "vfds_ok r"
  shows "vfds_ok (snd (ukfs_open_redirect_arg e t rel fl n r))" and "vfds_ok (snd (ukfs_open_redirect e t rel fl r))"
proof -
  have k: "vfds_ok (snd (ukfs_open_redirect_arg e t rel fl n r))" for n
    by (simp add: ukfs_open_redirect_arg_def split_beta Let_def client_keeps create_keeps simple_keeps placeholder_keeps assms split: sum.split)
  then show "vfds_ok (snd (ukfs_open_redirect_arg e t rel fl n r))" .
  from k show "vfds_ok (snd (ukfs_open_redirect e t rel fl r))" by (simp add: ukfs_open_redirect_def)
qed

lemma eng_readdir_keeps: "eng_readdir e en p r = Some (x, r1) \<Longrightarrow> vfds_ok r \<Longrightarrow> vfds_ok r1"
  using ch.fused_readdir_inv by (fastforce simp: eng_readdir_def split: option.splits prod.splits)

lemma set_dents_loaded: "vfds_ok r \<Longrightarrow> i < 128 \<Longrightarrow> v_dents (g_vfd (set_dents i ds r) ! i) = Some ds"
  by (simp add: set_dents_def upd_v_def vfds_ok_def)

lemma load_fuse_keeps:
  assumes "load_dir_fuse e en i r = Some (ok, r1)" and "vfds_ok r" and "i < 128"
  shows "vfds_ok r1 \<and> (ok \<longrightarrow> v_dents (g_vfd r1 ! i) \<noteq> None)"
proof -
  let ?a = "env_alloc e (2 * 272) (st_os r)"
  show ?thesis
  proof (cases "fst ?a")
    case True
    then obtain rc es r2 where d: "eng_readdir e en (v_path (g_vfd (os_upd r (snd ?a)) ! i)) (os_upd r (snd ?a)) = Some ((rc, es), r2)"
      using assms(1) by (auto simp: load_dir_fuse_def split_beta Let_def split: option.splits)
    have k: "vfds_ok r2" using eng_readdir_keeps [OF d] assms(2) by simp
    then show ?thesis
      using assms(1,3) d True dir_emit_ok [OF dot_dents_ok, of e es 2 "st_os r2"]
      by (auto simp: load_dir_fuse_def split_beta Let_def set_dents_ok small_updates set_dents_loaded split: option.splits if_splits)
  qed (use assms in \<open>auto simp: load_dir_fuse_def split_beta Let_def\<close>)
qed

lemma load_ukfsd_keeps:
  assumes "vfds_ok r" and "i < 128"
  shows "vfds_ok (snd (load_dir_ukfsd e i r)) \<and> (fst (load_dir_ukfsd e i r) \<longrightarrow> v_dents (g_vfd (snd (load_dir_ukfsd e i r)) ! i) \<noteq> None)"
proof -
  have "list_all dent_ok (dot_dents @ parse_blob n b)" for n b using dot_dents_ok parse_blob_ok by simp
  then show ?thesis using assms
    by (simp add: load_dir_ukfsd_def split_beta Let_def set_dents_ok set_dents_loaded split: option.split)
qed

lemma load_dir_keeps:
  assumes "ukfs_load_dir e i r = Some (ok, r1)" and "vfds_ok r" and "i < 128"
  shows "vfds_ok r1 \<and> (ok \<longrightarrow> v_dents (g_vfd r1 ! i) \<noteq> None)"
proof -
  obtain a r2 where a: "fuse_active e (r\<lparr>g_am := v_mnt (g_vfd r ! i)\<rparr>) = (a, r2)" by (rule prod.exhaust)
  have "vfds_ok r2" using fuse_active_keeps [of "r\<lparr>g_am := v_mnt (g_vfd r ! i)\<rparr>"] assms(2) a by simp
  then show ?thesis
    using assms a load_fuse_keeps [of _ i r2 ok r1] load_ukfsd_keeps [of r2 i] by (auto simp: ukfs_load_dir_def split: option.splits)
qed

lemma dents_out_keeps:
  assumes "vfds_ok r" and "i < 128" and "v_dents (g_vfd r ! i) \<noteq> None"
  shows "vfds_ok (snd (dents_out e t nr i r))"
proof -
  have "vfds_ok (snd (ukfs_emit_dents i cap (os_upd r o1)))" for cap o1
    using assms emit_dents_ok [of "os_upd r o1" i cap] by (simp add: os_upd_def vfds_ok_def)
  then show ?thesis using assms(1) by (simp add: dents_out_def split_beta Let_def split: bool.split)
qed

lemma lookup_less: "vfd_lookup e' t fd r = (Some i, r1) \<Longrightarrow> vfds_ok r \<Longrightarrow> vfds_ok r1 \<and> i < 128"
  using lookup_ok [of r e' t fd] find_some
  by (fastforce simp: vfd_lookup_def vfds_ok_def split_beta Let_def split: option.splits bool.splits)

lemma getdents_keeps: "h_getdents64 e t nr r = Some (b, r1) \<Longrightarrow> vfds_ok r \<Longrightarrow> vfds_ok r1"
proof -
  assume h: "h_getdents64 e t nr r = Some (b, r1)" and r: "vfds_ok r"
  obtain x r2 where l: "vfd_lookup e t (reg_int (t_arg r t 1)) r = (x, r2)" by (rule prod.exhaust)
  show ?thesis
  proof (cases x)
    case None
    then show ?thesis using h r l lookup_ok [of r e t "reg_int (t_arg r t 1)"] by (simp add: h_getdents64_def)
  next
    case (Some i)
    note i = lookup_less [OF l [unfolded Some] r]
    show ?thesis
    proof (cases "v_isdir (g_vfd r2 ! i) \<and> v_dents (g_vfd r2 ! i) = None")
      case True
      then obtain ok r3 where d: "ukfs_load_dir e i r2 = Some (ok, r3)"
        using h l Some by (auto simp: h_getdents64_def)
      from load_dir_keeps [OF d] i dents_out_keeps [of r3 i t nr] show ?thesis
        using h l Some True d by (auto simp: h_getdents64_def answer_now_def split: if_splits)
    next
      case False
      then show ?thesis using h l Some i dents_out_keeps [of r2 i t nr] by (auto simp: h_getdents64_def split: if_splits)
    qed
  qed
qed

lemma dir_calls_keep:
  assumes "vfds_ok r"
  shows "vfds_ok (snd (h_chdir e t r))" and "vfds_ok (snd (h_fchdir e t r))" and "vfds_ok (snd (h_getcwd e t nr r))"
    and "vfds_ok (snd (h_statfs e t nr r))" and "vfds_ok (snd (h_fstatfs e t nr r))"
  by (simp_all add: h_chdir_def h_fchdir_def h_getcwd_def h_statfs_def h_fstatfs_def statfs_answer_def split_beta Let_def
      client_keeps lookup_ok assms split: option.split sum.split)

lemma msync_loop_keeps: "vfds_ok r \<Longrightarrow> vfds_ok (snd (msync_loop e t tg is found r))"
  by (induction "is" arbitrary: found r) (simp_all add: Let_def flush_keeps)

lemma map_calls_keep:
  assumes "vfds_ok r"
  shows "vfds_ok (snd (h_mmap e t r))" and "vfds_ok (snd (h_msync e t r))" and "vfds_ok (snd (h_copy e t nr r))"
  by (simp_all add: h_mmap_def h_msync_def h_copy_def split_beta Let_def populate_keeps msync_loop_keeps lookup_ok small_updates assms
      split: option.split)

lemma read_keeps: "vfds_ok r \<Longrightarrow> vfds_ok (snd (h_read e t nr r))"
  by (simp add: h_read_def split_beta Let_def lookup_ok read_loop_keeps small_updates split: option.split bool.split)

lemma write_keeps:
  assumes "vfds_ok r"
  shows "vfds_ok (snd (h_write e t nr r))"
proof -
  have p: "vfds_ok (snd (write_pos e t nr i r))" if "vfds_ok r" for i r
    using that by (simp add: write_pos_def split_beta Let_def client_keeps split: sum.split)
  have d: "vfds_ok (snd (write_done t nr i pos n r))" if "vfds_ok r" for i pos n and r :: "'o rst"
    using that by (simp add: write_done_def small_updates)
  show ?thesis
    by (simp add: h_write_def split_beta Let_def lookup_ok client_keeps p d assms split: option.split bool.split)
qed

lemma sync_keeps: "vfds_ok r \<Longrightarrow> vfds_ok (sync_vfd e i r)"
  by (simp add: sync_vfd_def simple_keeps)

lemma lseek_keeps: "vfds_ok r \<Longrightarrow> vfds_ok (snd (h_lseek e t r))"
proof -
  assume r: "vfds_ok r"
  have b: "vfds_ok (snd (seek_base e w i r))" if "vfds_ok r" for w i r
    using that by (simp add: seek_base_def split_beta client_keeps split: sum.split)
  have "vfds_ok (upd_v i (\<lambda>v. v\<lparr>v_off := s64 x\<rparr>) r)" if "vfds_ok r" for i x and r :: "'o rst"
    using small_updates(1) [OF that, of i "\<lambda>_. x"] by simp
  with r b show ?thesis by (simp add: h_lseek_def split_beta Let_def lookup_ok split: option.split)
qed

lemma fd_calls_keep:
  assumes "vfds_ok r"
  shows "vfds_ok (snd (h_ftruncate e t r))" and "vfds_ok (snd (h_close e t r))" and "vfds_ok (snd (h_fsync e t r))"
    and "vfds_ok (snd (h_fchmod e t r))" and "vfds_ok (snd (h_fchown e t r))" and "vfds_ok (snd (h_fstat e t r))"
  by (simp_all add: h_ftruncate_def h_close_def h_fsync_def h_fchmod_def h_fchown_def h_fstat_def split_beta Let_def
      lookup_ok client_keeps simple_keeps flush_keeps sync_keeps free_ok small_updates assms split: option.split sum.split)

lemma materialise_keeps: "vfds_ok r \<Longrightarrow> vfds_ok (exec_materialise e t n rel sz r)"
  by (simp add: exec_materialise_def split_beta Let_def exec_copy_keeps split: option.split)

lemma script_keeps: "vfds_ok r \<Longrightarrow> vfds_ok (snd (exec_script e t n m gp ip ia ps r))"
  by (simp add: exec_script_def split_beta Let_def in_tracee)

lemma exec_file_keeps: "vfds_ok r \<Longrightarrow> vfds_ok (exec_file e t n m gp rel sz r)"
  by (simp add: exec_file_def split_beta Let_def client_keeps materialise_keeps script_keeps split: option.split bool.split)

lemma exec_keeps: "vfds_ok r \<Longrightarrow> vfds_ok (snd (h_exec e t nr r))"
  by (simp add: h_exec_def split_beta Let_def rel_at_keeps client_keeps exec_file_keeps split: option.split sum.split)

lemma getdents_pred: "vfds_ok r \<Longrightarrow> pred_option (vfds_ok \<circ> snd) (h_getdents64 e t nr r)"
  using getdents_keeps [of t nr r] by (cases "h_getdents64 e t nr r") auto

lemma fd_call_keeps: "vfds_ok r \<Longrightarrow> pred_option (vfds_ok \<circ> snd) (fd_call e t nr r)"
  unfolding fd_call_def
  by (intro pred_if pred_some exec_keeps dir_calls_keep map_calls_keep read_keeps write_keeps lseek_keeps fd_calls_keep getdents_pred)
     simp_all

lemma stat_calls_keep:
  assumes "vfds_ok r"
  shows "vfds_ok (snd (h_statat e t nr r))" and "vfds_ok (snd (h_stat e t nr r))" and "vfds_ok (snd (h_xattr e t nr rc r))"
    and "vfds_ok (snd (h_access e t nr r))"
  by (simp_all add: h_statat_def statat_rel_def h_stat_def h_xattr_def h_access_def split_beta Let_def
      rel_at_keeps rel_arg_keeps lookup_ok client_keeps assms split: option.split sum.split)

lemma utime_keeps: "vfds_ok r \<Longrightarrow> vfds_ok (snd (h_utime e t nr r))"
proof -
  assume r: "vfds_ok r"
  have "vfds_ok (snd (utime_rel e t nr r))"
    using r by (simp add: utime_rel_def split_beta Let_def rel_at_keeps lookup_ok split: option.split)
  then show ?thesis by (simp add: h_utime_def split_beta Let_def simple_keeps split: option.split)
qed

lemma simple_at_keeps: "vfds_ok r \<Longrightarrow> vfds_ok (snd (simple_at e t nr d n pfx r))"
  by (simp add: simple_at_def split_beta Let_def rel_arg_keeps simple_keeps split: option.split)

lemma name_calls_keep:
  assumes "vfds_ok r"
  shows "vfds_ok (snd (h_mkdirat e t nr r))" and "vfds_ok (snd (h_mkdir e t nr r))" and "vfds_ok (snd (h_unlinkat e t nr r))"
    and "vfds_ok (snd (h_unlink e t nr r))" and "vfds_ok (snd (h_fchmodat e t nr r))" and "vfds_ok (snd (h_chmod e t nr r))"
    and "vfds_ok (snd (h_fchownat e t nr r))" and "vfds_ok (snd (h_chown e t nr r))" and "vfds_ok (snd (h_truncate e t nr r))"
  by (simp_all add: h_mkdirat_def h_mkdir_def h_unlinkat_def h_unlink_def h_fchmodat_def h_chmod_def h_fchownat_def h_chown_def
      h_truncate_def simple_at_keeps assms)

lemma link_calls_keep:
  assumes "vfds_ok r"
  shows "vfds_ok (snd (h_readlinkat e t nr r))" and "vfds_ok (snd (h_readlink e t nr r))"
    and "vfds_ok (snd (h_symlinkat e t nr r))" and "vfds_ok (snd (h_symlink e t nr r))"
  by (simp_all add: h_readlinkat_def h_readlink_def h_symlinkat_def h_symlink_def readlink_at_def symlink_at_def split_beta Let_def
      rel_arg_keeps client_keeps assms split: option.split)

lemma rename_calls_keep:
  assumes "vfds_ok r"
  shows "vfds_ok (snd (h_renameat e t nr r))" and "vfds_ok (snd (h_rename e t nr r))"
proof -
  have "vfds_ok (snd (two_rels e t a i b j r))" for a i b j
    using assms by (simp add: two_rels_def split_beta rel_at_keeps split: option.split)
  then show "vfds_ok (snd (h_renameat e t nr r))" and "vfds_ok (snd (h_rename e t nr r))"
    by (simp_all add: h_renameat_def h_rename_def split_beta Let_def client_keeps split: option.split)
qed

lemma open_calls_keep:
  assumes "vfds_ok r"
  shows "vfds_ok (snd (h_openat e t r))" and "vfds_ok (snd (h_openat2 e t r))" and "vfds_ok (snd (h_creat e t r))"
  by (simp_all add: h_openat_def h_openat2_def h_creat_def split_beta Let_def rel_arg_keeps open_redirect_keeps assms split: option.split)

lemma path_call_keeps: "vfds_ok r \<Longrightarrow> vfds_ok (snd (path_call e t nr r))"
  unfolding path_call_def
  by (intro ok_if stat_calls_keep utime_keeps name_calls_keep link_calls_keep rename_calls_keep open_calls_keep) simp_all

lemma dispatch_keeps: "vfds_ok r \<Longrightarrow> pred_option (vfds_ok \<circ> snd) (uknl_fs_dispatch e junk t nr r)"
  using early_call_vkey [of e junk t nr r, THEN vfds_ok_vkey] fd_call_keeps path_call_keeps
  by (auto simp: uknl_fs_dispatch_def split: sum.split)

end

section \<open>Exits\<close>

lemma dup_exit_ok:
  assumes "vfds_ok r"
  shows "vfds_ok (dup_exit pid t r)"
proof -
  let ?new = "reg_int (t_res r t)" and ?old = "reg_int (t_oarg r t 1)"
  let ?r = "free_fd pid ?new r"
  have k: "vfds_ok ?r" "vfd_find pid ?new ?r = None" using assms by (simp_all add: free_fd_ok free_fd_find)
  have "vfds_ok (vfd_put (vfd_zero\<lparr>v_used := True, v_pid := pid, v_fd := ?new, v_isdir := v_isdir v, v_off := v_off v,
      v_append := v_append v, v_mnt := v_mnt v, v_path := snprintf_n PATH_MAX (v_path v)\<rparr>) ?r)"
    if "0 \<le> ?new" "vfd_ok v" for v
    using that k by (intro vfd_put_ok) (auto simp: vfd_ok_def vfd_zero_def snprintf_n_def PATH_MAX_def)
  moreover have "vfd_ok (g_vfd ?r ! i)" if "vfd_find pid ?old ?r = Some i" for i
    using find_some [OF that] k(1) by (simp add: vfds_ok_def list_all_length)
  ultimately show ?thesis using assms k(1) by (simp add: dup_exit_def Let_def split: option.split)
qed

lemma open_exit_ok:
  assumes "vfds_ok r"
  shows "vfds_ok (open_exit e pid t r)"
proof (cases "find_idx (\<lambda>p. op_used p \<and> op_pid p = t) (g_open_pending r)")
  case (Some k)
  let ?p = "g_open_pending r ! k" and ?fd = "reg_int (t_res r t)"
  have p: "pending_ok ?p" using find_idx_less [OF Some] assms by (simp add: vfds_ok_def list_all_length)
  define nv where "nv = vfd_zero\<lparr>v_used := True, v_pid := pid, v_fd := ?fd, v_isdir := op_isdir ?p, v_append := op_append ?p,
      v_mnt := op_mnt ?p, v_path := snprintf_n PATH_MAX (op_path ?p), v_backing := snprintf_n 64 (op_backing ?p)\<rparr>"
  have "vfds_ok (vfd_put nv (free_fd pid ?fd r))" if "0 \<le> ?fd" using assms that
    by (intro vfd_put_ok) (auto simp: nv_def vfd_ok_def vfd_zero_def snprintf_n_def PATH_MAX_def free_fd_ok free_fd_find)
  moreover have "vfds_ok (r'\<lparr>g_open_pending := (g_open_pending r')[k := ?p\<lparr>op_used := False\<rparr>]\<rparr>)" if "vfds_ok r'" for r' :: "'a rst"
    using that p set_update_subset_insert [of "g_open_pending r'" k "?p\<lparr>op_used := False\<rparr>"]
    by (auto simp: vfds_ok_def list_all_iff pending_ok_def)
  ultimately show ?thesis using assms Some by (simp add: open_exit_def Let_def nv_def [symmetric] split: option.split)
qed (simp add: open_exit_def assms)

lemma exits_ok:
  assumes "vfds_ok r"
  shows "vfds_ok (uknl_fs_open_exit e t nr r)" and "vfds_ok (uknl_fs_exit_final e t nr r)"
  by (simp_all add: uknl_fs_open_exit_def uknl_fs_exit_final_def split_beta Let_def dup_exit_ok open_exit_ok assms split: option.split)

lemma hooks_ok:
  assumes "vfds_ok r"
  shows "vfds_ok (snd (uknl_fs_mount_hook e t r))" and "vfds_ok (snd (uknl_fs_umount_hook e t r))"
  by (simp_all add: uknl_fs_mount_hook_def uknl_fs_umount_hook_def split_beta Let_def assms split: option.split bool.split)

section \<open>Every reachable state\<close>

text \<open>
  The calls proot makes, in any order and for any threads, and the kernel's own work in between,
  which changes registers, memory and the working directory of the guest.
\<close>

inductive fs_step :: "'o env \<Rightarrow> 'o rst \<Rightarrow> 'o rst \<Rightarrow> bool" for e where
  F_entry: "uknl_fs_dispatch e junk t nr r = Some (b, r') \<Longrightarrow> fs_step e r r'"
| F_exit: "fs_step e r (uknl_fs_open_exit e t nr r)"
| F_final: "fs_step e r (uknl_fs_exit_final e t nr r)"
| F_mount: "fs_step e r (snd (uknl_fs_mount_hook e t r))"
| F_umount: "fs_step e r (snd (uknl_fs_umount_hook e t r))"
| F_gone: "fs_step e r (uknl_fs_pid_gone e pid r)"
| F_owner: "fs_step e r (uknl_fuse_owner_gone e pid r)"
| F_chan: "chan_step e r r' \<Longrightarrow> fs_step e r r'"
| F_kernel: "fs_step e r (r\<lparr>t_res := a, t_mem := m, t_map := p, t_arg := x, t_oarg := y, t_void := v, t_argpath := ap, t_cwd := c, st_os := w\<rparr>)"

lemma fs_step_ok:
  assumes "tame e" and "fs_step e r r'" and "vfds_ok r"
  shows "vfds_ok r'"
  using assms(2)
proof (cases rule: fs_step.cases)
  case (F_entry junk t nr b)
  then show ?thesis using tame_env.dispatch_keeps [OF tame_env.intro [OF assms(1)] assms(3), of junk t nr] by simp
next
  case (F_gone pid)
  then show ?thesis using assms(3) by (simp add: pid_gone_ok)
next
  case F_chan
  then show ?thesis using assms(3) vfds_ok_vkey [OF chan_step_vkey [OF F_chan]] by simp
next
  case (F_kernel a m p x y v ap c w)
  then show ?thesis using assms(3) by (simp add: vfds_ok_def)
qed (use assms(3) in \<open>simp_all add: exits_ok hooks_ok\<close>)

lemma vfds_ok_init: "vfds_ok (rst_init mem mp os)"
  by (simp add: vfds_ok_def rst_init_def one_each_def list_all_length vfd_ok_zero pending_ok_def pending_zero_def PATH_MAX_def)
     (simp add: vfd_zero_def)

text \<open>An environment in which no FUSE server answers: a wait fails at once.\<close>

lemma null_tame: "tame (null_env\<lparr>env_write := w, env_read := rd, env_str := sr, env_translate := tr\<rparr>)"
proof -
  have "fch_recv (null_env\<lparr>env_write := w, env_read := rd, env_str := sr, env_translate := tr\<rparr>) ci cap u s \<noteq> None" for ci cap u s
    unfolding fch_recv_def by (subst fch_wait.simps) (simp add: null_env_def Let_def split: option.split)
  then show ?thesis by (simp add: tame_def null_env_def)
qed

interpretation nt: tame_env "null_env\<lparr>env_write := w, env_read := rd, env_str := sr, env_translate := tr\<rparr>" for w rd sr tr
  by unfold_locales (rule null_tame)

lemma null_env_tame: "tame null_env"
  using null_tame [where w = "env_write null_env" and rd = "env_read null_env" and sr = "env_str null_env" and tr = "env_translate null_env"] by simp

text \<open>A process that has a file of a mount open as descriptor 3 and asks for \<open>dup2(3, 1)\<close>.\<close>

definition one_open :: "unit rst" where
  "one_open = (rst_init (\<lambda>_ _. NUL) (\<lambda>_ _ _. True) ())\<lparr>g_vfd :=
     vfd_zero\<lparr>v_used := True, v_pid := 7, v_fd := 3, v_path := ''/a'', v_off := 2\<rparr> # replicate 127 vfd_zero,
     t_res := (\<lambda>_. 1), t_oarg := (\<lambda>_ n. if n = 1 then 3 else 1)\<rparr>"

lemma one_open_ok: "vfds_ok one_open"
proof -
  have "one_each (v # replicate 127 vfd_zero)" for v
    by (auto simp: one_each_def nth_Cons vfd_zero_def split: nat.splits)
  moreover have "vfd_ok (vfd_zero\<lparr>v_used := True, v_pid := 7, v_fd := 3, v_path := ''/a'', v_off := 2\<rparr>)"
    by (simp add: vfd_ok_def vfd_zero_def PATH_MAX_def)
  ultimately show ?thesis
    using vfd_ok_zero by (simp add: vfds_ok_def one_open_def rst_init_def list_all_iff pending_ok_def pending_zero_def PATH_MAX_def)
qed

lemma one_open_dup:
  "vfd_find 7 1 (uknl_fs_open_exit null_env 7 PR_dup2 one_open) = Some 1"
  "v_path (g_vfd (uknl_fs_open_exit null_env 7 PR_dup2 one_open) ! 1) = ''/a''"
proof -
  have n: "replicate 127 vfd_zero = vfd_zero # replicate 126 vfd_zero"
    using replicate_Suc [of 126 vfd_zero] by simp
  have "env_fs_on null_env" "uknl_fuse_open_exit null_env 7 (reg_int (t_res one_open 7)) one_open = one_open"
    "ukfs_tgid null_env 7 one_open = (7, one_open\<lparr>g_tgid_cache := [(7, 7)]\<rparr>)"
    by (simp_all add: null_env_def uknl_fuse_open_exit_def one_open_def rst_init_def ukfs_tgid_def proc_field_def)
  then show "vfd_find 7 1 (uknl_fs_open_exit null_env 7 PR_dup2 one_open) = Some 1"
    "v_path (g_vfd (uknl_fs_open_exit null_env 7 PR_dup2 one_open) ! 1) = ''/a''"
    by (simp_all add: uknl_fs_open_exit_def loop_open_exit_def dup_exit_def free_fd_def vfd_put_def vfd_find_def vfd_alloc_def upd_v_def
        one_open_def rst_init_def reg_int_def n vfd_zero_def snprintf_n_def PATH_MAX_def)
qed

text \<open>
  C2. The tables of open descriptors are well typed in every reachable state: 128 and 64
  entries, paths and placeholder names that fit their buffers, offsets that fit their type,
  descriptors that are not negative, listings whose position is inside and whose names fit, and
  at most one entry for each descriptor of a thread group. It holds at the start and through
  every system call the dispatcher handles, every exit hook, mount, unmount, process exit and
  channel event, in any order and for any threads.
\<close>

theorem vfd_table_typed:
  "vfds_ok (rst_init mem mp os) \<and> (tame e \<longrightarrow> (fs_step e)\<^sup>*\<^sup>* r r' \<longrightarrow> vfds_ok r \<longrightarrow> vfds_ok r')"
proof (intro conjI impI)
  assume t: "tame e" and s: "(fs_step e)\<^sup>*\<^sup>* r r'" and r: "vfds_ok r"
  from s show "vfds_ok r'" by induction (use t r fs_step_ok in blast)+
qed (rule vfds_ok_init)

theorem vfd_table_typed_witness:
  "let r = uknl_fs_open_exit null_env 7 PR_dup2 one_open in vfds_ok r \<and> vfd_find 7 1 r = Some 1 \<and> v_path (g_vfd r ! 1) = ''/a''"
proof -
  let ?r = "uknl_fs_open_exit null_env 7 PR_dup2 one_open"
  have "vfds_ok ?r"
    using vfd_table_typed [of "\<lambda>_ _. NUL" "\<lambda>_ _ _. True" "()" null_env one_open ?r] one_open_ok
      r_into_rtranclp [of "fs_step null_env" one_open ?r, OF F_exit] by (simp add: null_env_tame)
  then show ?thesis unfolding Let_def one_open_dup by simp
qed

end
