(* ===== verification/DispatchProps.thy ===== *)
theory DispatchProps
  imports VfdInv ClientServer "HOL-Library.Sublist"
begin

text \<open>
  What a guest sees through the dispatcher: a read returns the bytes of the file behind the
  daemon, a directory listing arrives complete and in order, a duplicated descriptor keeps its
  file, an answer reaches the guest although the result register was overwritten. Two
  exceptions are shown as well: a result that is delivered to a later call, and a rename between
  two mounts.
\<close>

section \<open>Definitions\<close>

text \<open>The engine has the file \<open>rel\<close> with contents \<open>data\<close>; a read may stop short, but not at once.\<close>

definition some_of :: "nat \<Rightarrow> nat \<Rightarrow> bytes \<Rightarrow> bytes \<Rightarrow> bool" where
  "some_of want off data d \<longleftrightarrow> prefix d (take want (drop off data)) \<and> (d = [] \<longrightarrow> want = 0 \<or> length data \<le> off)"

definition serves :: "'v vfs \<Rightarrow> 'v \<Rightarrow> string \<Rightarrow> bytes \<Rightarrow> bool" where
  "serves vf v rel data \<longleftrightarrow> (\<forall>n. vf_malloc vf n) \<and> length data < 2 ^ 63 \<and>
     (\<forall>want off. 0 \<le> off \<longrightarrow> (\<exists>d. vf_read_file vf (np rel) want off v = Some d \<and> some_of want (nat off) data d)) \<and>
     (\<exists>q. vf_stat vf (np rel) v = Some q \<and> stat_ok q \<and> qs_size q = int (length data))"

text \<open>Descriptor entry \<open>i\<close> names that file on the connected mount.\<close>

definition opened_on :: "'v vfs \<Rightarrow> nat \<Rightarrow> string \<Rightarrow> bytes \<Rightarrow> 'v conn rst \<Rightarrow> bool" where
  "opened_on vf i rel data r \<longleftrightarrow> linked r \<and> plain_path rel \<and> hd rel = SLASH \<and> rel \<noteq> [] \<and> v_path (g_vfd r ! i) = rel \<and>
     (\<exists>v. st_os r = idle v \<and> serves vf v rel data)"

text \<open>How a guest reads a buffer of \<^verbatim>\<open>struct linux_dirent64\<close>: position, type and name of each record.\<close>

fun guest_dents :: "nat \<Rightarrow> bytes \<Rightarrow> (u64 \<times> nat \<times> string) list" where
  "guest_dents 0 b = []"
| "guest_dents (Suc k) b =
     (if b = [] then [] else
        (get64 8 b, of_char (b ! 18), cstr (drop 19 b)) # guest_dents k (drop (unat (get16 16 b)) b))"

definition guest_type :: "int \<Rightarrow> nat" where
  "guest_type ty = (if ty = 1 then 4 else if ty = 2 then 8 else 0)"

section \<open>Reading a file\<close>

lemma prefix_full: "prefix a b \<Longrightarrow> length b \<le> length a \<Longrightarrow> a = b"
  by (auto simp: prefix_def)

lemma prefix_extend:
  assumes "prefix acc (take len xs)" and "prefix d (take (len - length acc) (drop (length acc) xs))"
  shows "prefix (acc @ d) (take len xs)"
proof -
  have l: "length acc \<le> len" using prefix_length_le [OF assms(1)] by simp
  have "take (length acc) (take len xs) = acc" using assms(1) unfolding prefix_def by (metis append_eq_conv_conj)
  then have "acc = take (length acc) xs" using l by (simp add: min_absorb1)
  then have "take len xs = acc @ take (len - length acc) (drop (length acc) xs)" using l by (metis le_add_diff_inverse take_add)
  with assms(2) show ?thesis by simp
qed

locale file_source =
  fixes e :: "'o env" and i :: nat and rel :: string and data :: bytes and I :: "'o rst \<Rightarrow> bool"
  assumes reads: "I r \<Longrightarrow> 0 \<le> off \<Longrightarrow> off < 2 ^ 63 \<Longrightarrow> want < 2 ^ 63 \<Longrightarrow>
      \<exists>d r'. ukfs_read_at e rel off want r = (Some d, r') \<and> I r' \<and> some_of want (nat off) data d"
    and stats: "I r \<Longrightarrow> \<exists>q r'. ukfs_query_stat e rel r = (Inr q, r') \<and> I r' \<and> qs_size q = int (length data)"
    and names: "I r \<Longrightarrow> v_path (g_vfd r ! i) = rel"
    and short: "I r \<Longrightarrow> length data < 2 ^ 63"
begin

lemma fsize_eof:
  assumes "I r" and "fsize = - 1 \<or> fsize = int (length data)"
  shows "\<exists>r'. read_fsize e i off fsize r = (int (length data), r') \<and> I r'"
  using assms stats [OF assms(1)] names [OF assms(1)] by (auto simp: read_fsize_def)

text \<open>The loop returns exactly the requested part of the file, however short the single reads are.\<close>

lemma read_loop_fills:
  assumes "I r" and "0 \<le> pos" "pos < 2 ^ 63" "len < 2 ^ 63" and "prefix acc (take len (drop (nat pos) data))"
    and "fsize = - 1 \<or> fsize = int (length data)"
  shows "\<exists>r'. read_loop e i pos len acc fsize r = (take len (drop (nat pos) data), False, r') \<and> I r'"
  using assms
proof (induction "len - length acc" arbitrary: acc fsize r rule: less_induct)
  case less
  let ?all = "take len (drop (nat pos) data)" and ?off = "pos + int (length acc)" and ?want = "len - length acc"
  have al: "length acc \<le> len" "acc = [] \<or> nat pos + length acc \<le> length data"
    using less.prems(5) prefix_length_le [OF less.prems(5)] by auto
  have off: "s64 ?off = ?off" "?off < 2 ^ 63" "nat ?off = nat pos + length acc"
    using al less.prems(2,3) short [OF less.prems(1)] s64_id [of ?off] by (auto simp: nat_add_distrib)
  show ?case
  proof (cases "length acc = len")
    case True
    then have "acc = ?all" using less.prems(5) by (intro prefix_full) auto
    then show ?thesis using True less.prems(1) by (subst read_loop.simps) simp
  next
    case False
    obtain d r1 where d: "ukfs_read_at e rel ?off ?want r = (Some d, r1)" "I r1" "some_of ?want (nat ?off) data d"
      using reads [OF less.prems(1), of ?off ?want] less.prems(2) off(2) less_imp_diff_less [OF less.prems(4)] by auto
    show ?thesis
    proof (cases "d = []")
      case True
      obtain r2 where f: "read_fsize e i ?off fsize r1 = (int (length data), r2)" "I r2"
        using fsize_eof [OF d(2) less.prems(6)] by blast
      have "length data \<le> nat ?off" using d(3) True False al(1) by (auto simp: some_of_def)
      then have eof: "acc = ?all" "int (length data) \<le> ?off"
        using less.prems(2,5) off(3) by (auto intro!: prefix_full)
      have "read_loop e i pos len acc fsize r = (acc, False, r2)"
        using f d True False al(1) eof(2) names [OF less.prems(1)] by (subst read_loop.simps) (simp add: Let_def off(1))
      then show ?thesis using eof(1) f(2) by simp
    next
      case ne: False
      have "prefix (acc @ d) ?all"
        using less.prems(5) d(3) off(3) by (intro prefix_extend) (auto simp: some_of_def add.commute)
      moreover have "len - length (acc @ d) < len - length acc" using ne False al(1) by (cases d) auto
      ultimately show ?thesis
        using less.hyps [of "acc @ d" r1 fsize] less.prems d ne False al(1) names [OF less.prems(1)]
        by (subst read_loop.simps) (simp add: Let_def off(1))
    qed
  qed
qed

end

interpretation src: file_source "srv_env vf" i rel data "\<lambda>r. r = r0 \<and> opened_on vf i rel data r0" for vf i rel data r0
proof (unfold_locales, goal_cases)
  case (1 r off want)
  then obtain v where v: "linked r" "plain_path rel" "hd rel = SLASH" "rel \<noteq> []" "st_os r = idle v" "serves vf v rel data"
    by (auto simp: opened_on_def)
  then obtain p where p: "rel = SLASH # p" by (cases rel) auto
  obtain d where d: "vf_read_file vf (np rel) want off v = Some d" "some_of want (nat off) data d"
    using v(6) 1(2) unfolding serves_def by blast
  have "length d \<le> want" using d(2) prefix_length_le by (fastforce simp: some_of_def)
  then have "ukfs_read_at (srv_env vf) rel off want r = (Some d, r)"
    using wire_read [OF v(1,5,2) p, of off want vf] 1 v(6) d(1) by (simp add: serves_def)
  with 1 d(2) show ?case by auto
next
  case (2 r)
  then obtain v where v: "linked r" "plain_path rel" "st_os r = idle v" "serves vf v rel data"
    by (auto simp: opened_on_def)
  then obtain q where q: "vf_stat vf (np rel) v = Some q" "stat_ok q" "qs_size q = int (length data)"
    by (auto simp: serves_def)
  have "ukfs_query_stat (srv_env vf) rel r = (Inr q, r)"
    using wire_stat [OF v(1,3,2), of vf] q(1,2) by simp
  with 2 q(3) show ?case by auto
qed (auto simp: opened_on_def serves_def)

lemma srv_alloc: "env_alloc (srv_env vf) n os = (True, os)" "env_fs_on (srv_env vf)"
  by (simp_all add: srv_env_def null_env_def)

lemma upd_v_id: "f (g_vfd r ! i) = g_vfd r ! i \<Longrightarrow> upd_v i f r = r"
  by (simp add: upd_v_def)

lemma guest_read:
  assumes "vfd_lookup (srv_env vf) t (reg_int (t_arg r t 1)) r = (Some i, r1)" and "opened_on vf i rel data r1"
    and "\<not> v_isdir (g_vfd r1 ! i)" and "0 \<le> v_off (g_vfd r1 ! i)" "v_off (g_vfd r1 ! i) < 2 ^ 63"
    and "out = take (io_cap (t_arg r1 t 3)) (drop (nat (v_off (g_vfd r1 ! i))) data)"
  shows "h_read (srv_env vf) t PR_read r = answer_now t (int (length out))
    (upd_v i (\<lambda>v. v\<lparr>v_off := s64 (v_off v + int (length out))\<rparr>) (if out = [] then r1 else write_data t (t_arg r1 t 2) out r1))"
proof (cases "io_cap (t_arg r1 t 3) = 0")
  case True
  then have "out = []" using assms(6) by simp
  moreover have "s64 (v_off (g_vfd r1 ! i)) = v_off (g_vfd r1 ! i)" using assms(4,5) by (intro s64_id) simp_all
  ultimately show ?thesis using assms(1,3) True upd_v_id [of "\<lambda>v. v\<lparr>v_off := s64 (v_off v)\<rparr>" r1 i]
    by (simp add: h_read_def Let_def)
next
  case False
  have c: "io_cap w < 2 ^ 63" for w by (simp add: io_cap_def word_less_nat_alt)
  have "read_loop (srv_env vf) i (v_off (g_vfd r1 ! i)) (io_cap (t_arg r1 t 3)) [] (- 1) r1 = (out, False, r1)"
    using src.read_loop_fills [of r1 r1 vf i rel data "v_off (g_vfd r1 ! i)" "io_cap (t_arg r1 t 3)" "[]" "- 1"] assms c by auto
  then show ?thesis using assms(1,3) False
    by (simp add: h_read_def Let_def srv_alloc os_upd_same)
qed

section \<open>Directory records\<close>

lemma reclen_bounds:
  assumes "n \<le> (255 :: nat)"
  shows "20 + n \<le> (19 + n + 1 + 7) div 8 * 8" and "(19 + n + 1 + 7) div 8 * 8 \<le> 280"
  using assms by presburger+

lemma length_dirent64: "dent_ok d \<Longrightarrow> length (dirent64 k d) = (19 + length (de_name d) + 1 + 7) div 8 * 8"
  using reclen_bounds(1) [of "length (de_name d)"] by (simp add: dirent64_def Let_def dent_ok_def)

lemma dirent64_small: "dent_ok d \<Longrightarrow> length (dirent64 k d) \<le> 280 \<and> 20 \<le> length (dirent64 k d)"
  using reclen_bounds [of "length (de_name d)"] by (simp add: length_dirent64 dent_ok_def)

text \<open>The fields of one record.\<close>

lemma dirent64_fields:
  assumes "dent_ok d" and "NUL \<notin> set (de_name d)"
  shows "get64 8 (dirent64 k d @ rest) = word_of_nat (k + 1)" and "unat (get16 16 (dirent64 k d @ rest)) = length (dirent64 k d)"
    and "of_char ((dirent64 k d @ rest) ! 18) = guest_type (de_type d)" and "cstr (drop 19 (dirent64 k d @ rest)) = de_name d"
proof -
  define z where "z = (19 + length (de_name d) + 1 + 7) div 8 * 8 - 19 - length (de_name d)"
  have z: "0 < z" and l: "length (dirent64 k d) < 65536"
    using assms(1) reclen_bounds [of "length (de_name d)"] by (simp_all add: z_def dent_ok_def length_dirent64)
  let ?ino = "le64 (if de_ino d \<noteq> 0 then de_ino d else word_of_nat (k + 1))" and ?off = "le64 (word_of_nat (k + 1))"
    and ?len = "le16 (word_of_nat (length (dirent64 k d)))"
    and ?ty = "[char_of (guest_type (de_type d))]"
  have e: "dirent64 k d @ rest = ?ino @ ?off @ ?len @ ?ty @ de_name d @ replicate z NUL @ rest"
    unfolding length_dirent64 [OF assms(1)] by (simp add: dirent64_def Let_def z_def guest_type_def)
  show "get64 8 (dirent64 k d @ rest) = word_of_nat (k + 1)" unfolding e by (simp add: get_skips)
  show "unat (get16 16 (dirent64 k d @ rest)) = length (dirent64 k d)"
    unfolding e using l by (simp add: get_skips unat_of_nat take_bit_nat_eq_self)
  show "of_char ((dirent64 k d @ rest) ! 18) = guest_type (de_type d)"
    unfolding e by (simp add: nth_append guest_type_def)
  have "drop 19 (dirent64 k d @ rest) = de_name d @ replicate z NUL @ rest"
    unfolding e by simp
  moreover obtain m where "z = Suc m" using z by (cases z) auto
  moreover have "takeWhile (\<lambda>c. c \<noteq> NUL) (de_name d @ NUL # w) = de_name d" for w
    using assms(2) by (subst takeWhile_append2) auto
  ultimately show "cstr (drop 19 (dirent64 k d @ rest)) = de_name d" by (simp add: cstr_def)
qed

definition seen :: "ukfs_dent list \<Rightarrow> nat \<Rightarrow> u64 \<times> nat \<times> string" where
  "seen ds j = (word_of_nat (j + 1), guest_type (de_type (ds ! j)), de_name (ds ! j))"

text \<open>
  \<open>records ds a b\<close> are the bytes for the entries \<open>a\<close> to \<open>b - 1\<close>; the loop emits such a run, the
  guest reads it back.
\<close>

definition records :: "ukfs_dent list \<Rightarrow> nat \<Rightarrow> nat \<Rightarrow> bytes" where
  "records ds a b = concat (map (\<lambda>j. dirent64 j (ds ! j)) [a..<b])"

lemma guest_reads_records:
  assumes "list_all dent_ok ds" and "\<forall>d\<in>set ds. NUL \<notin> set (de_name d)" and "b \<le> length ds" and "b - a \<le> n"
  shows "guest_dents n (records ds a b) = map (seen ds) [a..<b]"
  using assms(4)
proof (induction n arbitrary: a)
  case (Suc n)
  show ?case
  proof (cases "a < b")
    case True
    have d: "dent_ok (ds ! a)" "NUL \<notin> set (de_name (ds ! a))" using assms(1-3) True by (auto simp: list_all_length)
    have r: "records ds a b = dirent64 a (ds ! a) @ records ds (Suc a) b" using True by (simp add: records_def upt_rec [of a b])
    have ne: "dirent64 a (ds ! a) \<noteq> []" using dirent64_small [OF d(1), of a] by auto
    show ?thesis
      using Suc.IH [of "Suc a"] Suc.prems True ne dirent64_fields(4) [OF d, of a "records ds (Suc a) b"] by (simp add: r dirent64_fields [OF d] upt_rec [of a b] seen_def)
  qed (simp add: records_def)
qed (simp add: records_def)

lemma emit_loop_records:
  assumes "emit_loop a (drop a ds) cap out = (b, out')" and "a \<le> length ds" and "length out \<le> cap" and "list_all dent_ok ds"
  shows "out' = out @ records ds a b" and "length out' \<le> cap" and "a \<le> b" and "b \<le> length ds"
    and "length out + 280 \<le> cap \<Longrightarrow> a < length ds \<Longrightarrow> a < b"
proof -
  have "out' = out @ records ds a b \<and> length out' \<le> cap \<and> a \<le> b \<and> b \<le> length ds \<and> (length out + 280 \<le> cap \<longrightarrow> a < length ds \<longrightarrow> a < b)"
    using assms
  proof (induction "length ds - a" arbitrary: a out)
    case 0
    then show ?case by (simp add: records_def)
  next
    case (Suc m)
    then have a: "a < length ds" by simp
    have d: "dent_ok (ds ! a)" using a Suc.prems(4) by (simp add: list_all_length)
    have dr: "drop a ds = ds ! a # drop (Suc a) ds" using a by (simp add: Cons_nth_drop_Suc)
    show ?case
    proof (cases "cap < length out + length (dirent64 a (ds ! a))")
      case True
      then show ?thesis using Suc.prems dirent64_small [OF d, of a] by (simp add: dr records_def)
    next
      case False
      then have n: "emit_loop (Suc a) (drop (Suc a) ds) cap (out @ dirent64 a (ds ! a)) = (b, out')"
        using Suc.prems(1) by (simp add: dr)
      have "m = length ds - Suc a" using Suc.hyps(2) by simp
      from Suc.hyps(1) [OF this n] Suc.prems False a show ?thesis
        by (auto simp: records_def upt_rec [of a b])
    qed
  qed
  then show "out' = out @ records ds a b" "length out' \<le> cap" "a \<le> b" "b \<le> length ds"
    "length out + 280 \<le> cap \<Longrightarrow> a < length ds \<Longrightarrow> a < b" by auto
qed

section \<open>Duplicated descriptors\<close>

lemma find_unique:
  assumes "vfds_ok r" and "i < length (g_vfd r)" and "v_used (g_vfd r ! i)" and "v_pid (g_vfd r ! i) = pid" and "v_fd (g_vfd r ! i) = fd"
  shows "vfd_find pid fd r = Some i"
proof (cases "vfd_find pid fd r")
  case None
  then show ?thesis using assms by (simp add: find_none)
next
  case (Some j)
  from find_some [OF Some] assms have "j = i" by (auto simp: vfds_ok_def one_each_def)
  with Some show ?thesis by simp
qed

lemma find_free_other: "vfds_ok r \<Longrightarrow> vfd_find pid fd r = Some i \<Longrightarrow> j \<noteq> i \<Longrightarrow> vfd_find pid fd (vfd_free j r) = Some i"
  using find_some [of pid fd r i] free_ok [of r j] by (intro find_unique) (auto simp: vfd_free_def upd_v_def)

lemma find_free_same: "vfds_ok r \<Longrightarrow> vfd_find pid fd r = Some i \<Longrightarrow> vfd_find pid fd (vfd_free i r) = None"
  using free_fd_find [of r pid fd] by (simp add: free_fd_def)

lemma dup_aliases:
  assumes "vfds_ok r" and "vfd_find pid (reg_int (t_oarg r t 1)) r = Some s" and "0 \<le> reg_int (t_res r t)"
    and "reg_int (t_res r t) \<noteq> reg_int (t_oarg r t 1)" and "vfd_alloc (free_fd pid (reg_int (t_res r t)) r) = Some i"
  shows "vfd_find pid (reg_int (t_res r t)) (dup_exit pid t r) = Some i" and "i \<noteq> s" and "g_vfd (dup_exit pid t r) ! s = g_vfd r ! s"
    and "vfd_find pid (reg_int (t_oarg r t 1)) (dup_exit pid t r) = Some s"
    and "g_vfd (dup_exit pid t r) ! i = vfd_zero\<lparr>v_used := True, v_pid := pid, v_fd := reg_int (t_res r t),
       v_isdir := v_isdir (g_vfd r ! s), v_off := v_off (g_vfd r ! s), v_append := v_append (g_vfd r ! s),
       v_mnt := v_mnt (g_vfd r ! s), v_path := v_path (g_vfd r ! s)\<rparr>"
proof -
  let ?new = "reg_int (t_res r t)" and ?old = "reg_int (t_oarg r t 1)"
  let ?r = "free_fd pid ?new r"
  note s = find_some [OF assms(2)]
  have ok: "vfds_ok ?r" "vfds_ok (dup_exit pid t r)" using assms(1) by (simp_all add: free_fd_ok dup_exit_ok)
  have keep: "vfd_find pid ?old ?r = Some s \<and> g_vfd ?r ! s = g_vfd r ! s"
  proof (cases "vfd_find pid ?new r")
    case (Some k)
    then have "k \<noteq> s" using find_some [OF Some] s assms(4) by auto
    with Some show ?thesis using find_free_other [OF assms(1,2), of k] by (simp add: free_fd_def vfd_free_def upd_v_def)
  qed (use assms(2) in \<open>simp add: free_fd_def\<close>)
  have i: "i < length (g_vfd ?r)" "\<not> v_used (g_vfd ?r ! i)"
    using find_idx_less find_idx_sat assms(5) unfolding vfd_alloc_def by fastforce+
  show ne: "i \<noteq> s" using i(2) keep s by auto
  have p: "snprintf_n PATH_MAX (v_path (g_vfd r ! s)) = v_path (g_vfd r ! s)"
    using assms(1) s by (auto simp: vfds_ok_def list_all_length vfd_ok_def snprintf_n_def)
  define nv where "nv = vfd_zero\<lparr>v_used := True, v_pid := pid, v_fd := ?new, v_isdir := v_isdir (g_vfd r ! s), v_off := v_off (g_vfd r ! s),
    v_append := v_append (g_vfd r ! s), v_mnt := v_mnt (g_vfd r ! s), v_path := v_path (g_vfd r ! s)\<rparr>"
  have d: "dup_exit pid t r = upd_v i (\<lambda>_. nv) ?r"
    using assms(3-5) keep by (simp add: dup_exit_def Let_def vfd_put_def p nv_def)
  show g: "g_vfd (dup_exit pid t r) ! i = vfd_zero\<lparr>v_used := True, v_pid := pid, v_fd := reg_int (t_res r t),
       v_isdir := v_isdir (g_vfd r ! s), v_off := v_off (g_vfd r ! s), v_append := v_append (g_vfd r ! s),
       v_mnt := v_mnt (g_vfd r ! s), v_path := v_path (g_vfd r ! s)\<rparr>"
    using i(1) by (simp add: d upd_v_def nv_def)
  show h: "g_vfd (dup_exit pid t r) ! s = g_vfd r ! s" using ne keep by (simp add: d upd_v_def)
  have l: "length (g_vfd (dup_exit pid t r)) = length (g_vfd r)" using ok(2) assms(1) by (simp add: vfds_ok_def)
  show "vfd_find pid ?new (dup_exit pid t r) = Some i"
    using i(1) ok by (intro find_unique) (simp_all add: g, simp_all add: l vfds_ok_def)
  show "vfd_find pid ?old (dup_exit pid t r) = Some s"
    using s ok by (intro find_unique) (simp_all add: h l)
qed

section \<open>Pending results\<close>

text \<open>The table has an entry of the thread or a free one.\<close>

definition pend_room :: "int \<Rightarrow> 'o rst \<Rightarrow> bool" where
  "pend_room t r \<longleftrightarrow> (\<exists>p\<in>set (g_pend_res r). pr_used p \<and> pr_pid p = t) \<or> (\<exists>p\<in>set (g_pend_res r). \<not> pr_used p)"

lemma pend_stored:
  assumes "pend_room t r" and "g_pend_res r2 = g_pend_res (pend_res_set t nr v r)"
  shows "\<exists>r3. pend_res_take t nr r2 = (Some v, r3) \<and> t_res r3 = t_res r2"
proof -
  let ?mine = "\<lambda>p. pr_used p \<and> pr_pid p = t" and ?tagged = "\<lambda>p. pr_used p \<and> pr_pid p = t \<and> pr_nr p = nr"
  have "\<exists>i<length (g_pend_res r2). find_idx ?tagged (g_pend_res r2) = Some i \<and> pr_res (g_pend_res r2 ! i) = v"
  proof (cases "find_idx ?mine (g_pend_res r)")
    case (Some i)
    note i = find_idx_SomeD [OF Some]
    have "find_idx ?tagged (g_pend_res r2) = Some i"
      using i Some assms(2) by (intro find_idx_eq_SomeI) (auto simp: pend_res_set_def)
    then show ?thesis using i Some assms(2) by (auto simp: pend_res_set_def)
  next
    case None
    then obtain i where f: "find_idx (\<lambda>p. \<not> pr_used p) (g_pend_res r) = Some i"
      using assms(1) by (cases "find_idx (\<lambda>p. \<not> pr_used p) (g_pend_res r)") (auto simp: pend_room_def find_idx_None)
    note i = find_idx_SomeD [OF f]
    have n: "\<not> ?mine (g_pend_res r ! j)" if "j < i" for j
      using None that i by (auto simp: find_idx_None)
    have "find_idx ?tagged (g_pend_res r2) = Some i"
      using i None f n assms(2) by (intro find_idx_eq_SomeI) (auto simp: pend_res_set_def)
    then show ?thesis using i None f assms(2) by (auto simp: pend_res_set_def)
  qed
  then show ?thesis by (auto simp: pend_res_take_def)
qed

lemma pend_none:
  assumes "\<not> pend_room t r" and "g_pend_res r2 = g_pend_res (pend_res_set t nr v r)"
  shows "pend_res_take t nr r2 = (None, r2)"
proof -
  have "find_idx (\<lambda>p. pr_used p \<and> pr_pid p = t) (g_pend_res r) = None" "find_idx (\<lambda>p. \<not> pr_used p) (g_pend_res r) = None"
    using assms(1) by (auto simp: pend_room_def find_idx_None)
  then have "g_pend_res r2 = g_pend_res r" using assms(2) by (simp add: pend_res_set_def)
  moreover have "find_idx (\<lambda>p. pr_used p \<and> pr_pid p = t \<and> pr_nr p = nr) (g_pend_res r) = None"
    using assms(1) by (auto simp: pend_room_def find_idx_None)
  ultimately show ?thesis by (simp add: pend_res_take_def)
qed

lemma final_delivers:
  assumes "env_fs_on e" and "g_nm r2 \<noteq> 0" and "pend_room t r" and "g_pend_res r2 = g_pend_res (pend_res_set t nr v r)"
  shows "reg_int (t_res (uknl_fs_exit_final e t nr r2) t) = reg_int (word_of_int v)"
proof -
  obtain r3 where "pend_res_take t nr r2 = (Some v, r3)" using pend_stored [OF assms(3,4)] by blast
  then show ?thesis using assms(1,2) by (simp add: uknl_fs_exit_final_def)
qed

lemma pend_frame [simp]:
  "g_pend_res (snd (uksd_wn e s b r)) = g_pend_res r" "g_pend_res (snd (uksd_rl e s n r)) = g_pend_res r"
  "g_pend_res (close_fd e fd r) = g_pend_res r" "g_pend_res (os_upd r o1) = g_pend_res r"
  "g_pend_res (write_data t a d r) = g_pend_res r" "g_pend_res (poke_void t v r) = g_pend_res r"
  by (simp_all add: uksd_wn_def uksd_rl_def close_fd_def os_upd_def write_data_def poke_void_def split_beta)

lemma pend_dconn [simp]: "g_pend_res (snd (ukfs_dconn e nm r)) = g_pend_res r"
  by (simp add: ukfs_dconn_def split_beta Let_def split: bool.split option.split)

lemma pend_parts [simp]: "g_pend_res (snd (parts_loop e k s want found r)) = g_pend_res r"
proof (induction k arbitrary: found r)
  case (Suc k)
  then show ?case by (simp add: Let_def split_beta split: option.split prod.split)
qed simp

lemma pend_node_size [simp]: "g_pend_res (snd (ukfs_loop_node_size e p r)) = g_pend_res r"
  by (simp add: ukfs_loop_node_size_def ukfs_loop_resolve_def ukfs_image_part_def split_beta Let_def split: option.split bool.split)

lemma loop_stat_pends:
  fixes r :: "'o rst"
  assumes "h_loop_stat e t nr r = (True, r1)"
  shows "\<exists>r0 :: 'o rst. g_pend_res r0 = g_pend_res r \<and> g_pend_res r1 = g_pend_res (pend_res_set t nr 0 r0)"
proof -
  define l where "l = (case stat_node e t nr r of None \<Rightarrow> (- 1, r) | Some p \<Rightarrow> ukfs_loop_node_size e p r)"
  define x where "x = (if nr = PR_statx then ukfs_put_statx t (t_arg (snd l) t 5) (loop_stat (fst l)) (snd l)
    else ukfs_put_stat t (t_arg (snd l) t (if nr = PR_newfstatat \<or> nr = PR_fstatat64 then 3 else 2)) (loop_stat (fst l)) (snd l))"
  have "answer t nr 0 x = (True, r1)"
    using assms unfolding h_loop_stat_def l_def [symmetric] split_beta Let_def x_def [symmetric] by (simp split: if_split_asm)
  moreover have "g_pend_res (snd l) = g_pend_res r" by (simp add: l_def split: option.split)
  then have "g_pend_res x = g_pend_res r" by (simp add: x_def ukfs_put_stat_def ukfs_put_statx_def)
  ultimately show ?thesis by (auto simp: answer_def intro!: exI [of _ x])
qed

section \<open>Renaming between mounts\<close>

text \<open>
  Both paths lie under mounts, but under different ones: the rename is sent to the daemon of the
  second path's mount, with the first path relative to its own mount, and the daemon's answer is
  returned. (Between a mount and the host the call fails with EXDEV.)
\<close>

lemma rename_across_mounts:
  assumes "path_arg e t 2 r = Some (SLASH # og)" and "path_arg e t 4 r = Some (SLASH # ng)"
    and "ukfs_rel (SLASH # og) PATH_MAX r = (Some a, r1)" and "ukfs_rel (SLASH # ng) PATH_MAX r1 = (Some b, r2)" and "g_am r1 \<noteq> g_am r2"
  shows "h_renameat e t nr r = (let (rc, r3) = ukfs_two_path e ''RENAME'' a b r2 in answer t nr rc r3)"
  using assms(1-4) by (simp add: h_renameat_def two_rels_def ukfs_rel_at_def)

section \<open>Concrete states\<close>

text \<open>The mount of \<open>mem_mount\<close> with a file open as descriptor 3 of process 7, and a \<open>read(3, 4096, 100)\<close>.\<close>

definition mem_open :: "(string \<rightharpoonup> bytes) \<Rightarrow> (string \<rightharpoonup> bytes) conn rst" where
  "mem_open v = (mem_mount v)\<lparr>g_nm := 1, g_vfd := vfd_zero\<lparr>v_used := True, v_pid := 7, v_fd := 3, v_path := ''/a'', v_off := 1\<rparr> # replicate 127 vfd_zero,
     t_arg := (\<lambda>_ n. if n = 1 then 3 else if n = 2 then 4096 else 100)\<rparr>"

definition mem_looked :: "(string \<rightharpoonup> bytes) \<Rightarrow> (string \<rightharpoonup> bytes) conn rst" where
  "mem_looked v = (mem_open v)\<lparr>g_tgid_cache := [(7, 7)]\<rparr>"

lemma mem_serves: "v ''a'' = Some d \<Longrightarrow> length d < 2 ^ 63 \<Longrightarrow> serves mem_vfs v ''/a'' d"
  by (auto simp: serves_def mem_vfs_def mem_plain some_of_def stat_ok_def)

lemma mem_tgid: "ukfs_tgid (srv_env mem_vfs) 7 (mem_open v) = (7, mem_looked v)" "ukfs_tgid (srv_env mem_vfs) 7 (mem_looked v) = (7, mem_looked v)"
  by (simp_all add: mem_looked_def mem_open_def mem_mount_def rst_init_def ukfs_tgid_def proc_field_def srv_env_def null_env_def)

lemma mem_lookup: "vfd_lookup (srv_env mem_vfs) 7 3 (mem_looked v) = (Some 0, mem_looked v)"
  by (simp add: vfd_lookup_def mem_tgid) (simp add: vfd_find_def mem_looked_def mem_open_def mem_mount_def vfd_zero_def rst_init_def)

lemma mem_opened: "v ''a'' = Some d \<Longrightarrow> length d < 2 ^ 63 \<Longrightarrow> opened_on mem_vfs 0 ''/a'' d (mem_looked v)"
  using mem_mount_linked [of v] mem_serves [of v d]
  by (auto simp: opened_on_def mem_plain linked_def am_ok_def mem_looked_def mem_open_def)

lemma mem_early: "early_call (srv_env mem_vfs) junk 7 PR_read (mem_open v) = Inr (mem_looked v)"
proof -
  have "fch_resolve (srv_env mem_vfs) 7 3 (mem_open v) = (None, mem_looked v)"
    by (simp add: fch_resolve_def mem_tgid) (simp add: fch_by_fd_def mem_looked_def mem_open_def mem_mount_def rst_init_def ukfch_zero_def fork_zero_def)
  moreover have "reg_int (t_arg (mem_open v) 7 1) = 3" "\<not> g_lo_any (mem_looked v)"
    by (simp_all add: mem_looked_def mem_open_def mem_mount_def rst_init_def reg_int_def)
  ultimately show ?thesis
    by (simp add: early_call_def uknl_fuse_chan_io_def note_fuse_open_def ukfs_loopfd_op_def h_loop_stat_def)
qed

section \<open>Properties\<close>

text \<open>
  C1. A guest's read returns the bytes of the file: for a \<open>read(fd, buf, n)\<close> on a descriptor
  of a regular file, with the request going through the dispatcher, the line protocol and the
  server to the engine, the guest's buffer gets exactly the bytes of the file from the
  descriptor's position on, min(n, 8 MiB) of them or up to the end of the file, however short
  the engine's single reads are; the result is their number and the position moves past them.
\<close>

theorem guest_read_gets_file:
  assumes "early_call (srv_env vf) junk t PR_read r = Inr r0" and "g_nm r0 \<noteq> 0"
    and "vfd_lookup (srv_env vf) t (reg_int (t_arg r0 t 1)) r0 = (Some i, r1)" and "opened_on vf i rel data r1"
    and "\<not> v_isdir (g_vfd r1 ! i)" and "0 \<le> v_off (g_vfd r1 ! i)" "v_off (g_vfd r1 ! i) < 2 ^ 63"
    and "out = take (io_cap (t_arg r1 t 3)) (drop (nat (v_off (g_vfd r1 ! i))) data)"
  shows "uknl_fs_dispatch (srv_env vf) junk t PR_read r = Some (True, poke_void t (int (length out))
    (upd_v i (\<lambda>v. v\<lparr>v_off := s64 (v_off v + int (length out))\<rparr>) (if out = [] then r1 else write_data t (t_arg r1 t 2) out r1)))"
  using guest_read [OF assms(3-8)] assms(1,2)
  by (simp add: uknl_fs_dispatch_def srv_alloc fd_nrs_def fd_call_def answer_now_def)

theorem guest_read_gets_file_witness:
  "uknl_fs_dispatch (srv_env mem_vfs) (\<lambda>_. NUL) 7 PR_read (mem_open [''a'' \<mapsto> ''xyz'']) =
   Some (True, poke_void 7 2 (upd_v 0 (\<lambda>v. v\<lparr>v_off := s64 (v_off v + 2)\<rparr>) (write_data 7 4096 ''yz'' (mem_looked [''a'' \<mapsto> ''xyz'']))))"
proof -
  let ?r = "mem_looked [''a'' \<mapsto> ''xyz'']"
  have r: "g_nm ?r = 1" "v_off (g_vfd ?r ! 0) = 1" "\<not> v_isdir (g_vfd ?r ! 0)" "t_arg ?r 7 1 = 3" "t_arg ?r 7 2 = 4096" "t_arg ?r 7 3 = 100"
    by (simp_all add: mem_looked_def mem_open_def vfd_zero_def)
  have l: "vfd_lookup (srv_env mem_vfs) 7 (reg_int (t_arg ?r 7 1)) ?r = (Some 0, ?r)"
    unfolding r(4) using mem_lookup by (simp add: reg_int_def)
  show ?thesis
    using guest_read_gets_file [OF mem_early _ l mem_opened [where d = "''xyz''"], where out = "''yz''"] r
    by (simp add: io_cap_def)
qed

text \<open>
  C11. A directory listing reaches the guest complete and in order: one \<open>getdents64\<close> fills at
  most the guest's buffer with whole records; read back as the guest reads them, they are the
  entries from the descriptor's position on, each with its name, its type and its number as the
  offset cookie, and the position moves past exactly these. With room for one record (280
  bytes) and an entry left, at least one is returned.
\<close>

theorem getdents_roundtrip:
  assumes "vfds_ok r" and "i < 128" and "v_dents (g_vfd r ! i) = Some ds" and "\<forall>d\<in>set ds. NUL \<notin> set (de_name d)"
    and "ukfs_emit_dents i cap r = (out, r')"
  shows "let a = v_dent_idx (g_vfd r ! i); b = v_dent_idx (g_vfd r' ! i) in
    a \<le> b \<and> b \<le> length ds \<and> length out \<le> cap \<and> guest_dents (length ds) out = map (seen ds) [a..<b] \<and>
    (280 \<le> cap \<longrightarrow> a < length ds \<longrightarrow> a < b)"
proof -
  let ?v = "g_vfd r ! i"
  have l: "i < length (g_vfd r)" using assms(1,2) by (simp add: vfds_ok_def)
  then have v: "vfd_ok ?v" using assms(1) by (simp add: vfds_ok_def list_all_length)
  then have ds: "list_all dent_ok ds" "v_dent_n ?v = length ds" "v_dent_idx ?v \<le> length ds"
    using assms(3) by (simp_all add: vfd_ok_def)
  obtain b o1 where e: "emit_loop (v_dent_idx ?v) (drop (v_dent_idx ?v) ds) cap [] = (b, o1)" by (rule prod.exhaust)
  have r: "out = o1" "v_dent_idx (g_vfd r' ! i) = b"
    using assms(3,5) e ds(2) l by (auto simp: ukfs_emit_dents_def upd_v_def Let_def)
  note e = emit_loop_records [OF e ds(3) _ ds(1)]
  have "guest_dents (length ds) out = map (seen ds) [v_dent_idx ?v..<b]"
    using e(1,4) guest_reads_records [OF ds(1) assms(4), of b "v_dent_idx ?v" "length ds"] by (simp add: r(1))
  then show ?thesis using e(2-5) by (simp add: r Let_def)
qed

definition listing :: "unit rst" where
  "listing = one_open\<lparr>g_vfd := vfd_zero\<lparr>v_used := True, v_pid := 7, v_fd := 3, v_isdir := True, v_path := ''/'',
     v_dents := Some dot_dents, v_dent_n := 2\<rparr> # replicate 127 vfd_zero\<rparr>"

lemma listing_ok: "vfds_ok listing"
proof -
  have "one_each (v # replicate 127 vfd_zero)" for v
    by (auto simp: one_each_def nth_Cons vfd_zero_def split: nat.splits)
  moreover have "vfd_ok (vfd_zero\<lparr>v_used := True, v_pid := 7, v_fd := 3, v_isdir := True, v_path := ''/'', v_dents := Some dot_dents, v_dent_n := 2\<rparr>)"
    by (simp add: vfd_ok_def vfd_zero_def PATH_MAX_def dot_dents_def dent_ok_def)
  ultimately show ?thesis
    using one_open_ok by (simp add: vfds_ok_def listing_def list_all_iff vfd_ok_zero)
qed

theorem getdents_roundtrip_witness:
  "guest_dents 2 (fst (ukfs_emit_dents 0 30 listing)) = [(1, 4, ''.'')]"
proof -
  obtain out r' where e: "ukfs_emit_dents 0 30 listing = (out, r')" by (rule prod.exhaust)
  have g: "v_dents (g_vfd listing ! 0) = Some dot_dents" "v_dent_idx (g_vfd listing ! 0) = 0" "length dot_dents = 2"
    by (simp_all add: listing_def dot_dents_def vfd_zero_def)
  have i: "v_dent_idx (g_vfd r' ! 0) = 1"
    using e by (auto simp: ukfs_emit_dents_def listing_def dot_dents_def upd_v_def dirent64_def vfd_zero_def Let_def)
  have "\<forall>d\<in>set dot_dents. NUL \<notin> set (de_name d)" by (simp add: dot_dents_def)
  with getdents_roundtrip [OF listing_ok _ g(1) _ e] g i show ?thesis
    by (simp add: e seen_def) (simp add: dot_dents_def guest_type_def)
qed

text \<open>
  C12. A duplicated descriptor stands for the same file, also after the original is closed (as a
  shell does for \<^verbatim>\<open>echo > file\<close>): after \<open>dup\<close>, \<open>dup2\<close> or \<open>fcntl(F_DUPFD)\<close> of a descriptor of a
  mount, the new number has the path, mount, kind, append mode and position of the original,
  whatever it stood for before, and the original is untouched; once the original is freed, the
  new number still finds the same entry and the old one finds none.
\<close>

theorem dup_then_close:
  assumes "vfds_ok r" and "vfd_find pid (reg_int (t_oarg r t 1)) r = Some s" and "0 \<le> reg_int (t_res r t)"
    and "reg_int (t_res r t) \<noteq> reg_int (t_oarg r t 1)" and "vfd_alloc (free_fd pid (reg_int (t_res r t)) r) = Some i"
  shows "let r1 = dup_exit pid t r; r2 = vfd_free s r1; old = g_vfd r ! s; new = g_vfd r1 ! i in
    vfd_find pid (reg_int (t_res r t)) r1 = Some i \<and> g_vfd r1 ! s = old \<and>
    (v_path new, v_mnt new, v_isdir new, v_append new, v_off new) = (v_path old, v_mnt old, v_isdir old, v_append old, v_off old) \<and>
    vfd_find pid (reg_int (t_res r t)) r2 = Some i \<and> g_vfd r2 ! i = new \<and> vfd_find pid (reg_int (t_oarg r t 1)) r2 = None"
proof -
  note d = dup_aliases [OF assms]
  have ok: "vfds_ok (dup_exit pid t r)" using assms(1) by (rule dup_exit_ok)
  have "g_vfd (vfd_free s (dup_exit pid t r)) ! i = g_vfd (dup_exit pid t r) ! i"
    using d(2) by (simp add: vfd_free_def upd_v_def)
  then show ?thesis
    using d(1) d(3) find_free_other [OF ok d(1), of s] d(2) find_free_same [OF ok d(4)] unfolding Let_def by (simp add: d(5))
qed

theorem dup_then_close_witness:
  "vfd_find 7 1 (vfd_free 0 (dup_exit 7 7 one_open)) = Some 1 \<and> v_path (g_vfd (dup_exit 7 7 one_open) ! 1) = ''/a''"
proof -
  have r: "reg_int (t_oarg one_open 7 1) = 3" "reg_int (t_res one_open 7) = 1" "v_path (g_vfd one_open ! 0) = ''/a''"
    by (simp_all add: one_open_def reg_int_def)
  have n: "replicate 127 vfd_zero = vfd_zero # replicate 126 vfd_zero" using replicate_Suc [of 126 vfd_zero] by simp
  have f: "vfd_find 7 (reg_int (t_oarg one_open 7 1)) one_open = Some 0"
    unfolding r by (simp add: vfd_find_def one_open_def)
  have a: "vfd_alloc (free_fd 7 (reg_int (t_res one_open 7)) one_open) = Some 1"
    unfolding r by (simp add: vfd_alloc_def free_fd_def vfd_find_def one_open_def n vfd_zero_def)
  from dup_then_close [OF one_open_ok f _ _ a] show ?thesis unfolding r Let_def by simp
qed

text \<open>
  C17. What becomes of an answer when proot overwrites the result register on the way out: let
  the dispatcher note a result for the exit (\<open>answer\<close>) and the registers then hold \<open>x\<close> when the last
  exit hook runs. The hook writes the result into the thread's register, sign-extended to the
  register's width, exactly if the redirect is on, a mount exists, the table of pending results
  had an entry of the thread or a free one, and the register's low 32 bits (which the hook
  compares as C ints) are not those of the result; otherwise, and for every other thread, the
  registers are left as they are. Without a mount the note stays in the table, for a later call.
\<close>

theorem answer_survives:
  "let r1 = (snd (answer t nr v r))\<lparr>t_res := x\<rparr>; rf = uknl_fs_exit_final e t nr r1 in
     t_res rf = (if env_fs_on e \<and> g_nm r \<noteq> 0 \<and> pend_room t r \<and> reg_int (x t) \<noteq> reg_int (word_of_int v)
                 then x(t := word_of_int v) else x) \<and>
     (g_nm r = 0 \<and> pend_room t r \<longrightarrow> fst (pend_res_take t nr rf) = Some v)"
proof -
  let ?r1 = "(snd (answer t nr v r))\<lparr>t_res := x\<rparr>"
  have n: "g_nm ?r1 = g_nm r" "g_pend_res ?r1 = g_pend_res (pend_res_set t nr v r)"
    by (simp_all add: answer_def poke_void_def pend_res_set_def split: option.split)
  show ?thesis
  proof (cases "pend_room t r")
    case True
    then obtain r3 where "pend_res_take t nr ?r1 = (Some v, r3)" "t_res r3 = x" using pend_stored [OF True n(2)] by auto
    then show ?thesis using n(1) True by (auto simp: uknl_fs_exit_final_def Let_def)
  next
    case False
    then have "pend_res_take t nr ?r1 = (None, ?r1)" using pend_none [OF False n(2)] by simp
    then show ?thesis using False by (simp add: uknl_fs_exit_final_def Let_def)
  qed
qed

theorem answer_survives_witness:
  "t_res (uknl_fs_exit_final null_env 7 PR_rename ((snd (answer 7 PR_rename 0 (one_open\<lparr>g_nm := 1\<rparr>)))\<lparr>t_res := (\<lambda>_. - 1)\<rparr>)) 7 = 0 \<and>
   fst (pend_res_take 7 PR_rename (uknl_fs_exit_final null_env 7 PR_rename
     ((snd (answer 7 PR_rename 0 (one_open\<lparr>g_nm := 0\<rparr>)))\<lparr>t_res := (\<lambda>_. - 1)\<rparr>))) = Some 0"
proof -
  have "pend_room 7 (one_open\<lparr>g_nm := k\<rparr>)" for k by (simp add: pend_room_def one_open_def rst_init_def pend_res_zero_def)
  moreover have "env_fs_on null_env" by (simp add: null_env_def)
  moreover have "reg_int (- 1) \<noteq> reg_int 0" by code_simp
  ultimately show ?thesis
    using answer_survives [where e = null_env and r = "one_open\<lparr>g_nm := 1\<rparr>" and t = 7 and v = 0 and nr = PR_rename and x = "\<lambda>_. - 1"]
      answer_survives [where e = null_env and r = "one_open\<lparr>g_nm := 0\<rparr>" and t = 7 and v = 0 and nr = PR_rename and x = "\<lambda>_. - 1"]
    by (simp add: Let_def)
qed

text \<open>
  A result noted while no mount exists is delivered to a later call: the status of a loop
  node is answered before any mount, and its result is noted, but the exit hook returns early
  without mounts and leaves the note. The next call of the same thread with the same number that
  ends after a mount gets the result 0, whatever the kernel returned for it.
\<close>

theorem stale_stat_result:
  fixes r :: "'o rst"
  assumes "h_loop_stat e t nr r = (True, r1)" and "g_nm r1 = 0" and "env_fs_on e" and "pend_room t r"
    and "g_pend_res r2 = g_pend_res r1" and "g_nm r2 \<noteq> 0"
  shows "uknl_fs_exit_final e t nr r1 = r1 \<and> reg_int (t_res (uknl_fs_exit_final e t nr r2) t) = 0"
proof -
  obtain r0 :: "'o rst" where r0: "g_pend_res r0 = g_pend_res r" "g_pend_res r1 = g_pend_res (pend_res_set t nr 0 r0)"
    using loop_stat_pends [OF assms(1)] by blast
  have "pend_room t r0" using assms(4) r0(1) by (simp add: pend_room_def)
  from final_delivers [OF assms(3,6) this, of nr 0] r0(2) assms(2,5) show ?thesis
    by (simp add: uknl_fs_exit_final_def reg_int_def)
qed

text \<open>A guest that asks for the status of a bound loop device, then, after a mount, of a missing file.\<close>

definition loop_env :: "unit env" where
  "loop_env = null_env\<lparr>env_str := (\<lambda>p a n r. Some ''/dev/loop0'')\<rparr>"

definition loop_bound :: "unit rst" where
  "loop_bound = one_open\<lparr>g_lo_any := True, t_arg := (\<lambda>_ _. 64),
     g_lo := (replicate UK_NLOOP uklo_zero)[0 := \<lparr>lo_used = True, lo_img = ''/img'', lo_off = 0, lo_sizelimit = 1024, lo_partscan = False\<rparr>]\<rparr>"

theorem stale_stat_result_witness:
  "reg_int (t_res (uknl_fs_exit_final loop_env 7 PR_stat
     ((snd (h_loop_stat loop_env 7 PR_stat loop_bound))\<lparr>g_nm := 1, t_res := (\<lambda>_. - 2)\<rparr>)) 7) = 0"
proof -
  let ?h = "h_loop_stat loop_env 7 PR_stat loop_bound"
  have p: "ukfs_loop_parse ''/dev/loop0'' = Some (0, 0)"
    by (simp add: ukfs_loop_parse_def basename_def digits_s32_def is_digit_def starts_with_def digits_val_def digit_val_def Let_def)
  have l: "ukfs_loop_node_size loop_env ''/dev/loop0'' loop_bound = (1024, loop_bound)"
    unfolding ukfs_loop_node_size_def ukfs_loop_resolve_def p by (simp add: loop_bound_def UK_NLOOP_def snprintf_n_def)
  have n: "stat_node loop_env 7 PR_stat loop_bound = Some ''/dev/loop0''"
    by (simp add: stat_node_def path_stats_def path_arg_def loop_env_def loop_bound_def)
  have h: "?h = (True, snd ?h)"
    unfolding h_loop_stat_def n using l by (simp add: all_stats_def path_stats_def answer_def loop_bound_def)
  have "g_nm (snd ?h) = 0"
    unfolding h_loop_stat_def n using l
    by (simp add: all_stats_def path_stats_def answer_def ukfs_put_stat_def loop_bound_def one_open_def rst_init_def poke_void_def
        pend_res_set_def write_data_def split: option.split)
  moreover have "pend_room 7 loop_bound"
    by (simp add: pend_room_def loop_bound_def one_open_def rst_init_def pend_res_zero_def)
  ultimately show ?thesis
    using stale_stat_result [OF h, of "(snd ?h)\<lparr>g_nm := 1, t_res := (\<lambda>_. - 2)\<rparr>"] by (simp add: loop_env_def null_env_def)
qed

end
