(* ===== verification/JavaBase.thy ===== *)
theory JavaBase
  imports Prelude "HOL-Library.Monad_Syntax"
begin

text \<open>
  What the terminal emulator (Java, under
  \<^verbatim>\<open>src/app/src/main/java/io/neoterm/backend\<close>) takes from its language: 32 and 16 bit
  two's complement integers, arrays whose accesses are bounds-checked,
  \<^verbatim>\<open>System.arraycopy\<close>, UTF-16 text, and ASCII literals. A run that ends in an
  uncaught exception is \<^const>\<open>None\<close>; the emulator catches none of the
  exceptions that its own code raises while it draws.
\<close>

declare bind_option_cong [fundef_cong]

section \<open>Integers\<close>

definition jint :: "int \<Rightarrow> int" where
  "jint x = signed_take_bit 31 x"

definition jshort :: "int \<Rightarrow> int" where
  "jshort x = signed_take_bit 15 x"

lemma jint_id: "- (2 ^ 31) \<le> x \<Longrightarrow> x < 2 ^ 31 \<Longrightarrow> jint x = x"
  unfolding jint_def by (simp add: signed_take_bit_int_eq_self)

lemma jshort_id: "- (2 ^ 15) \<le> x \<Longrightarrow> x < 2 ^ 15 \<Longrightarrow> jshort x = x"
  unfolding jshort_def by (simp add: signed_take_bit_int_eq_self)

section \<open>Arrays\<close>

definition aget :: "'a list \<Rightarrow> int \<Rightarrow> 'a option" where
  "aget xs i = (if 0 \<le> i \<and> i < int (length xs) then Some (xs ! nat i) else None)"

definition aset :: "'a list \<Rightarrow> int \<Rightarrow> 'a \<Rightarrow> 'a list option" where
  "aset xs i v = (if 0 \<le> i \<and> i < int (length xs) then Some (xs[nat i := v]) else None)"

text \<open>
  \<^verbatim>\<open>System.arraycopy(src, sp, dst, dp, n)\<close> throws unless both ranges are inside
  their arrays; overlapping ranges of one array are copied as if through a
  temporary.
\<close>

definition arraycopy :: "'a list \<Rightarrow> int \<Rightarrow> 'a list \<Rightarrow> int \<Rightarrow> int \<Rightarrow> 'a list option" where
  "arraycopy src sp dst dp n =
     (if 0 \<le> sp \<and> 0 \<le> dp \<and> 0 \<le> n \<and> sp + n \<le> int (length src) \<and> dp + n \<le> int (length dst)
      then Some (take (nat dp) dst @ take (nat n) (drop (nat sp) src) @ drop (nat (dp + n)) dst)
      else None)"

lemma aget_int [simp]: "aget xs (int n) = (if n < length xs then Some (xs ! n) else None)"
  by (simp add: aget_def)

lemma aset_int [simp]: "aset xs (int n) v = (if n < length xs then Some (xs[n := v]) else None)"
  by (simp add: aset_def)

lemma aget_Some: "0 \<le> i \<Longrightarrow> i < int (length xs) \<Longrightarrow> aget xs i = Some (xs ! nat i)"
  by (simp add: aget_def)

lemma aset_Some: "0 \<le> i \<Longrightarrow> i < int (length xs) \<Longrightarrow> aset xs i v = Some (xs[nat i := v])"
  by (simp add: aset_def)

lemma aset_SomeD: "aset xs i v = Some ys \<Longrightarrow> 0 \<le> i \<and> i < int (length xs) \<and> ys = xs[nat i := v]"
  by (simp add: aset_def split: if_splits)

lemma aget_SomeD: "aget xs i = Some v \<Longrightarrow> 0 \<le> i \<and> i < int (length xs) \<and> v = xs ! nat i"
  by (simp add: aget_def split: if_splits)

lemma length_aset: "aset xs i v = Some ys \<Longrightarrow> length ys = length xs"
  by (auto dest: aset_SomeD)

lemma length_arraycopy: "arraycopy src sp dst dp n = Some d \<Longrightarrow> length d = length dst"
  by (auto simp: arraycopy_def split: if_splits)

section \<open>UTF-16 text\<close>

type_synonym jstring = "int list"

definition isHighSurrogate :: "int \<Rightarrow> bool" where
  "isHighSurrogate c \<longleftrightarrow> 0xD800 \<le> c \<and> c \<le> 0xDBFF"

definition toCodePoint :: "int \<Rightarrow> int \<Rightarrow> int" where
  "toCodePoint h l = (h - 0xD800) * 0x400 + (l - 0xDC00) + 0x10000"

definition charCount :: "int \<Rightarrow> int" where
  "charCount cp = (if 0x10000 \<le> cp then 2 else 1)"

definition highSurrogate :: "int \<Rightarrow> int" where
  "highSurrogate cp = (cp - 0x10000) div 0x400 + 0xD800"

definition lowSurrogate :: "int \<Rightarrow> int" where
  "lowSurrogate cp = (cp - 0x10000) mod 0x400 + 0xDC00"

text \<open>The UTF-16 units of a code point, as \<^verbatim>\<open>Character.toChars\<close> writes them.\<close>

definition units :: "int \<Rightarrow> jstring" where
  "units cp = (if 0x10000 \<le> cp then [highSurrogate cp, lowSurrogate cp] else [cp])"

definition is_cp :: "int \<Rightarrow> bool" where
  "is_cp cp \<longleftrightarrow> 0 \<le> cp \<and> cp \<le> 0x10FFFF"

definition scalar :: "int \<Rightarrow> bool" where
  "scalar cp \<longleftrightarrow> is_cp cp \<and> \<not> (0xD800 \<le> cp \<and> cp \<le> 0xDFFF)"

definition toChars :: "int \<Rightarrow> jstring \<Rightarrow> int \<Rightarrow> jstring option" where
  "toChars cp dst i =
     (if \<not> is_cp cp then None
      else if 0x10000 \<le> cp then do { d \<leftarrow> aset dst (i + 1) (lowSurrogate cp); aset d i (highSurrogate cp) }
      else aset dst i cp)"

lemma length_units: "int (length (units cp)) = charCount cp"
  by (simp add: units_def charCount_def)

lemma units_nonempty [simp]: "units cp \<noteq> []"
  by (simp add: units_def)

lemma high_surrogate: "0x10000 \<le> cp \<Longrightarrow> cp \<le> 0x10FFFF \<Longrightarrow> isHighSurrogate (highSurrogate cp)"
proof -
  assume a: "0x10000 \<le> cp" "cp \<le> 0x10FFFF"
  then have "0 \<le> (cp - 0x10000) div 0x400" "(cp - 0x10000) div 0x400 < 0x400" by simp_all
  then show ?thesis by (simp add: isHighSurrogate_def highSurrogate_def)
qed

lemma toCodePoint_units: "toCodePoint (highSurrogate cp) (lowSurrogate cp) = cp"
  using div_mult_mod_eq [of "cp - 0x10000" "0x400"]
  by (simp add: toCodePoint_def highSurrogate_def lowSurrogate_def)

lemma scalar_bmp: "scalar cp \<Longrightarrow> \<not> 0x10000 \<le> cp \<Longrightarrow> \<not> isHighSurrogate cp"
  by (auto simp: scalar_def isHighSurrogate_def)

section \<open>ASCII literals\<close>

text \<open>The code points of an ASCII literal.\<close>

definition ascii :: "string \<Rightarrow> jstring" where
  "ascii s = map (\<lambda>c. int (of_char c)) s"

definition chr :: "string \<Rightarrow> int" where
  "chr s = int (of_char (hd s))"

lemma length_ascii [simp]: "length (ascii s) = length s"
  by (simp add: ascii_def)

end
