(* ===== verification/TextStyle.thy ===== *)
theory TextStyle
  imports JavaBase
begin

text \<open>
  \<^verbatim>\<open>TextStyle.java\<close>: the effects, the two colours and the underline style of a
  cell, or the tile of an inline image, packed into one 64 bit word. A colour
  is an index below 512 or a true colour, whose top byte is \<^verbatim>\<open>0xff\<close>. The lemmas
  show that the fields do not overlap: each is read back as it was packed.
\<close>

unbundle bit_operations_syntax

definition ATTR_BOLD :: u32 where "ATTR_BOLD = 1"
definition ATTR_ITALIC :: u32 where "ATTR_ITALIC = 2"
definition ATTR_UNDERLINE :: u32 where "ATTR_UNDERLINE = 4"
definition ATTR_BLINK :: u32 where "ATTR_BLINK = 8"
definition ATTR_INVERSE :: u32 where "ATTR_INVERSE = 16"
definition ATTR_INVISIBLE :: u32 where "ATTR_INVISIBLE = 32"
definition ATTR_STRIKETHROUGH :: u32 where "ATTR_STRIKETHROUGH = 64"
definition ATTR_PROTECTED :: u32 where "ATTR_PROTECTED = 128"
definition ATTR_DIM :: u32 where "ATTR_DIM = 256"
definition TRUECOLOR_FOREGROUND :: u64 where "TRUECOLOR_FOREGROUND = 512"
definition TRUECOLOR_BACKGROUND :: u64 where "TRUECOLOR_BACKGROUND = 1024"
definition ATTR_IMAGE :: u64 where "ATTR_IMAGE = 2048"
definition COLOR_FOREGROUND :: u32 where "COLOR_FOREGROUND = 256"
definition COLOR_BACKGROUND :: u32 where "COLOR_BACKGROUND = 257"
definition COLOR_CURSOR :: u32 where "COLOR_CURSOR = 258"
definition NUM_INDEXED_COLORS :: int where "NUM_INDEXED_COLORS = 259"
definition UNDERLINE_SINGLE :: int where "UNDERLINE_SINGLE = 1"

definition encodeUnderlineStyle :: "u32 \<Rightarrow> u64" where
  "encodeUnderlineStyle u = push_bit 12 (ucast (u AND 7))"

definition decodeUnderlineStyle :: "u64 \<Rightarrow> u32" where
  "decodeUnderlineStyle s = ucast (drop_bit 12 s AND 7)"

definition encode :: "u32 \<Rightarrow> u32 \<Rightarrow> u32 \<Rightarrow> u64" where
  "encode foreColor backColor effect =
     (let result = ucast (effect AND 0x1FF);
          result = result OR
            (if foreColor AND 0xff000000 = 0xff000000
             then TRUECOLOR_FOREGROUND OR push_bit 40 (ucast foreColor AND 0x00ffffff)
             else push_bit 40 (ucast foreColor AND 0x1FF))
      in result OR
            (if backColor AND 0xff000000 = 0xff000000
             then TRUECOLOR_BACKGROUND OR push_bit 16 (ucast backColor AND 0x00ffffff)
             else push_bit 16 (ucast backColor AND 0x1FF)))"

definition decodeForeColor :: "u64 \<Rightarrow> u32" where
  "decodeForeColor s = (if s AND TRUECOLOR_FOREGROUND = 0 then ucast (drop_bit 40 s AND 0x1FF)
                        else 0xff000000 OR ucast (drop_bit 40 s AND 0x00ffffff))"

definition decodeBackColor :: "u64 \<Rightarrow> u32" where
  "decodeBackColor s = (if s AND TRUECOLOR_BACKGROUND = 0 then ucast (drop_bit 16 s AND 0x1FF)
                        else 0xff000000 OR ucast (drop_bit 16 s AND 0x00ffffff))"

definition decodeEffect :: "u64 \<Rightarrow> u32" where
  "decodeEffect s = ucast (s AND 0x7FF)"

definition NORMAL :: u64 where
  "NORMAL = encode COLOR_FOREGROUND COLOR_BACKGROUND 0"

definition encodeImage :: "u32 \<Rightarrow> u32 \<Rightarrow> u32 \<Rightarrow> u64" where
  "encodeImage i tileCol tileRow =
     ATTR_IMAGE OR push_bit 16 (ucast i AND 0xffff) OR push_bit 32 (ucast tileCol AND 0xfff)
       OR push_bit 44 (ucast tileRow AND 0xfff)"

definition isImage :: "u64 \<Rightarrow> bool" where
  "isImage s \<longleftrightarrow> s AND ATTR_IMAGE \<noteq> 0"

definition decodeImageId :: "u64 \<Rightarrow> u32" where
  "decodeImageId s = ucast (drop_bit 16 s AND 0xffff)"

definition decodeImageCol :: "u64 \<Rightarrow> u32" where
  "decodeImageCol s = ucast (drop_bit 32 s AND 0xfff)"

definition decodeImageRow :: "u64 \<Rightarrow> u32" where
  "decodeImageRow s = ucast (drop_bit 44 s AND 0xfff)"

section \<open>Lemmas\<close>

lemma mask_lits:
  "(0x1FF :: 'a::len word) = mask 9" "(0x7FF :: 'a word) = mask 11" "(0x00ffffff :: 'a word) = mask 24"
  "(7 :: 'a word) = mask 3" "(0xffff :: 'a word) = mask 16" "(0xfff :: 'a word) = mask 12"
  by (simp_all add: mask_eq_exp_minus_1)

lemma flag_lits:
  "TRUECOLOR_FOREGROUND = push_bit 9 1" "TRUECOLOR_BACKGROUND = push_bit 10 1" "ATTR_IMAGE = push_bit 11 1"
  "(0xff000000 :: u32) = push_bit 24 (mask 8)"
  by (simp_all add: TRUECOLOR_FOREGROUND_def TRUECOLOR_BACKGROUND_def ATTR_IMAGE_def mask_eq_exp_minus_1)

lemma word_bits_eq: "(a :: 'a::len word) = b \<longleftrightarrow> (\<forall>n < LENGTH('a). bit a n \<longleftrightarrow> bit b n)"
  by (auto intro: bit_word_eqI)

lemma and_flag_0: "(s AND push_bit n 1 = (0 :: 'a::len word)) \<longleftrightarrow> (n < LENGTH('a) \<longrightarrow> \<not> bit s n)"
  by (auto simp: word_bits_eq bit_simps)

text \<open>A colour as the emulator keeps it: true colour, or an index below 512.\<close>

definition colour :: "u32 \<Rightarrow> bool" where
  "colour c \<longleftrightarrow> c AND 0xff000000 = 0xff000000 \<or> c AND 0x1FF = c"

definition true_colour :: "u32 \<Rightarrow> bool" where
  "true_colour c \<longleftrightarrow> c AND 0xff000000 = 0xff000000"

lemma true_colour_bits: "true_colour c \<longleftrightarrow> (\<forall>n. 24 \<le> n \<longrightarrow> n < 32 \<longrightarrow> bit c n)"
  unfolding true_colour_def flag_lits by (auto simp: word_bits_eq bit_simps)

lemma index_bits: "(c :: u32) AND 0x1FF = c \<longleftrightarrow> (\<forall>n. 9 \<le> n \<longrightarrow> \<not> bit c n)"
proof -
  have "c AND 0x1FF = c \<longleftrightarrow> (\<forall>n < 32. bit c n \<longrightarrow> n < 9)"
    unfolding mask_lits by (auto simp: word_bits_eq bit_simps)
  also have "\<dots> \<longleftrightarrow> (\<forall>n. 9 \<le> n \<longrightarrow> \<not> bit c n)"
  proof -
    have "n < 32" if "bit c n" for n using bit_imp_le_length [OF that] by simp
    then show ?thesis by (meson not_less)
  qed
  finally show ?thesis .
qed

lemma bit_packed:
  "bit (push_bit k (ucast (c :: u32) AND mask w) :: u64) n \<longleftrightarrow> k \<le> n \<and> n < 64 \<and> n - k < w \<and> bit c (n - k)"
  by (auto simp: bit_simps)

lemma bit_flag: "bit (push_bit k 1 :: u64) n \<longleftrightarrow> n = k \<and> k < 64"
  by (auto simp: bit_simps)

lemma bit_flags:
  "bit (push_bit 9 1 :: u64) n \<longleftrightarrow> n = 9" "bit (push_bit 10 1 :: u64) n \<longleftrightarrow> n = 10"
  "bit (push_bit 11 1 :: u64) n \<longleftrightarrow> n = 11"
  using bit_flag [of 9 n] bit_flag [of 10 n] bit_flag [of 11 n] by simp_all

lemma bit_effect: "bit (ucast ((e :: u32) AND mask 9) :: u64) n \<longleftrightarrow> n < 9 \<and> bit e n"
  by (auto simp: bit_simps)

lemma bit_encode:
  "bit (encode f b e) n \<longleftrightarrow>
     n < 9 \<and> bit e n \<or> n = 9 \<and> true_colour f \<or> n = 10 \<and> true_colour b \<or>
     40 \<le> n \<and> n < 64 \<and> n - 40 < (if true_colour f then 24 else 9) \<and> bit f (n - 40) \<or>
     16 \<le> n \<and> n < 64 \<and> n - 16 < (if true_colour b then 24 else 9) \<and> bit b (n - 16)"
  unfolding encode_def Let_def true_colour_def [symmetric] mask_lits flag_lits(1-3)
  by (cases "true_colour f"; cases "true_colour b";
      simp only: bit_or_iff bit_packed bit_flags bit_effect if_True if_False simp_thms; blast)

lemma bit_underline: "bit (encodeUnderlineStyle u) n \<longleftrightarrow> 12 \<le> n \<and> n < 15 \<and> bit u (n - 12)"
  unfolding encodeUnderlineStyle_def mask_lits by (auto simp: bit_simps)

text \<open>
  C33. A cell's style word keeps what was packed into it: both colours, the nine
  effect bits and the underline style are read back unchanged, and the cell is
  not mistaken for part of an image.
\<close>

theorem style_roundtrip:
  assumes "colour f" and "colour b"
  shows "let s = encode f b e OR encodeUnderlineStyle u in
         decodeForeColor s = f \<and> decodeBackColor s = b \<and> decodeEffect s AND 0x1FF = e AND 0x1FF \<and>
         decodeUnderlineStyle s = u AND 7 \<and> \<not> isImage s"
proof -
  define s where "s = encode f b e OR encodeUnderlineStyle u"
  have bs: "bit s n \<longleftrightarrow> bit (encode f b e) n \<or> bit (encodeUnderlineStyle u) n" for n
    by (simp add: s_def bit_or_iff)
  note bits = bs bit_encode bit_underline
  have tf: "(s AND TRUECOLOR_FOREGROUND = 0) \<longleftrightarrow> \<not> true_colour f"
    unfolding flag_lits and_flag_0 by (simp add: bits)
  have tb: "(s AND TRUECOLOR_BACKGROUND = 0) \<longleftrightarrow> \<not> true_colour b"
    unfolding flag_lits and_flag_0 by (simp add: bits)
  have "decodeForeColor s = f"
  proof (cases "true_colour f")
    case True
    then have "decodeForeColor s = 0xff000000 OR ucast (drop_bit 40 s AND 0x00ffffff)"
      by (simp add: decodeForeColor_def tf)
    also have "\<dots> = f"
      unfolding mask_lits flag_lits using True
      by (auto simp: word_bits_eq bit_simps bits true_colour_bits)
    finally show ?thesis .
  next
    case False
    with assms(1) have "\<forall>n. 9 \<le> n \<longrightarrow> \<not> bit f n"
      using index_bits [of f] by (simp add: colour_def true_colour_def)
    then have i: "n < 9" if "bit f n" for n using that not_less by blast
    from False have "decodeForeColor s = ucast (drop_bit 40 s AND 0x1FF)"
      by (simp add: decodeForeColor_def tf)
    also have "\<dots> = f"
      unfolding mask_lits using False
      by (auto simp: word_bits_eq bit_simps bits dest: i)
    finally show ?thesis .
  qed
  moreover have "decodeBackColor s = b"
  proof (cases "true_colour b")
    case True
    then have "decodeBackColor s = 0xff000000 OR ucast (drop_bit 16 s AND 0x00ffffff)"
      by (simp add: decodeBackColor_def tb)
    also have "\<dots> = b"
      unfolding mask_lits flag_lits using True
      by (auto simp: word_bits_eq bit_simps bits true_colour_bits)
    finally show ?thesis .
  next
    case False
    with assms(2) have "\<forall>n. 9 \<le> n \<longrightarrow> \<not> bit b n"
      using index_bits [of b] by (simp add: colour_def true_colour_def)
    then have i: "n < 9" if "bit b n" for n using that not_less by blast
    from False have "decodeBackColor s = ucast (drop_bit 16 s AND 0x1FF)"
      by (simp add: decodeBackColor_def tb)
    also have "\<dots> = b"
      unfolding mask_lits using False
      by (auto simp: word_bits_eq bit_simps bits dest: i)
    finally show ?thesis .
  qed
  moreover have "decodeEffect s AND 0x1FF = e AND 0x1FF"
    unfolding decodeEffect_def mask_lits by (auto simp: word_bits_eq bit_simps bits)
  moreover have "decodeUnderlineStyle s = u AND 7"
    unfolding decodeUnderlineStyle_def mask_lits by (auto simp: word_bits_eq bit_simps bits)
  moreover have "\<not> isImage s"
    unfolding isImage_def flag_lits and_flag_0 by (simp add: bits)
  ultimately show ?thesis by (simp add: s_def Let_def)
qed

theorem style_roundtrip_witness:
  "colour 0xff102030 \<and> colour 257 \<and>
   (let s = encode 0xff102030 257 5 OR encodeUnderlineStyle 3 in
    decodeForeColor s = 0xff102030 \<and> decodeBackColor s = 257 \<and> decodeEffect s AND 0x1FF = 5 AND 0x1FF \<and>
    decodeUnderlineStyle s = 3 AND 7 \<and> \<not> isImage s)"
proof -
  have c: "colour 0xff102030" "colour 257" by (simp_all add: colour_def)
  from style_roundtrip [OF this, of 5 3] c show ?thesis by simp
qed

text \<open>The tile of an image cell is read back as well.\<close>

lemma image_roundtrip:
  "isImage (encodeImage i c r) \<and> decodeImageId (encodeImage i c r) = i AND 0xffff \<and>
   decodeImageCol (encodeImage i c r) = c AND 0xfff \<and> decodeImageRow (encodeImage i c r) = r AND 0xfff"
proof -
  have b: "bit (encodeImage i c r) n \<longleftrightarrow>
      n = 11 \<or> 16 \<le> n \<and> n < 64 \<and> n - 16 < 16 \<and> bit i (n - 16) \<or>
      32 \<le> n \<and> n < 64 \<and> n - 32 < 12 \<and> bit c (n - 32) \<or>
      44 \<le> n \<and> n < 64 \<and> n - 44 < 12 \<and> bit r (n - 44)" for n
    unfolding encodeImage_def mask_lits flag_lits(3)
    by (simp only: bit_or_iff bit_packed bit_flags simp_thms disj_assoc)
  have "isImage (encodeImage i c r)"
    unfolding isImage_def flag_lits and_flag_0 by (simp add: b)
  moreover have "decodeImageId (encodeImage i c r) = i AND 0xffff"
    unfolding decodeImageId_def mask_lits by (auto simp: word_bits_eq bit_simps b)
  moreover have "decodeImageCol (encodeImage i c r) = c AND 0xfff"
    unfolding decodeImageCol_def mask_lits by (auto simp: word_bits_eq bit_simps b)
  moreover have "decodeImageRow (encodeImage i c r) = r AND 0xfff"
    unfolding decodeImageRow_def mask_lits by (auto simp: word_bits_eq bit_simps b)
  ultimately show ?thesis by blast
qed

end
