(* ===== verification/WcWidth.thy ===== *)
theory WcWidth
  imports JavaBase
begin

text \<open>
  \<^verbatim>\<open>WcWidth.java\<close>: how many columns a code point occupies. The tables are those of
  the source; \<open>inRanges\<close> is its binary search, which the lemmas show to
  decide membership in one of the ranges of any sorted table.
\<close>

section \<open>Tables\<close>

definition DIRECT_LUT :: "int list" where
  "DIRECT_LUT = [
     0, - 1, - 1, - 1, - 1, - 1, - 1, - 1, - 1, - 1, - 1, - 1, - 1, - 1, - 1, - 1,
     - 1, - 1, - 1, - 1, - 1, - 1, - 1, - 1, - 1, - 1, - 1, - 1, - 1, - 1, - 1, - 1,
     1, 1, 1, 1, 1, 1, 1, 1, 1, 1, 1, 1, 1, 1, 1, 1,
     1, 1, 1, 1, 1, 1, 1, 1, 1, 1, 1, 1, 1, 1, 1, 1,
     1, 1, 1, 1, 1, 1, 1, 1, 1, 1, 1, 1, 1, 1, 1, 1,
     1, 1, 1, 1, 1, 1, 1, 1, 1, 1, 1, 1, 1, 1, 1, 1,
     1, 1, 1, 1, 1, 1, 1, 1, 1, 1, 1, 1, 1, 1, 1, 1,
     1, 1, 1, 1, 1, 1, 1, 1, 1, 1, 1, 1, 1, 1, 1, - 1,
     - 1, - 1, - 1, - 1, - 1, - 1, - 1, - 1, - 1, - 1, - 1, - 1, - 1, - 1, - 1, - 1,
     - 1, - 1, - 1, - 1, - 1, - 1, - 1, - 1, - 1, - 1, - 1, - 1, - 1, - 1, - 1, - 1,
     1, 1, 1, 1, 1, 1, 1, 1, 1, 1, 1, 1, 1, 1, 1, 1,
     1, 1, 1, 1, 1, 1, 1, 1, 1, 1, 1, 1, 1, 1, 1, 1,
     1, 1, 1, 1, 1, 1, 1, 1, 1, 1, 1, 1, 1, 1, 1, 1,
     1, 1, 1, 1, 1, 1, 1, 1, 1, 1, 1, 1, 1, 1, 1, 1,
     1, 1, 1, 1, 1, 1, 1, 1, 1, 1, 1, 1, 1, 1, 1, 1,
     1, 1, 1, 1, 1, 1, 1, 1, 1, 1, 1, 1, 1, 1, 1, 1]"

definition NONPRINTABLE :: "int list" where
  "NONPRINTABLE = [0xD800, 0xDFFF]"

definition WIDE :: "int list" where
  "WIDE = [
     0x1100, 0x115F, 0x231A, 0x231B, 0x2329, 0x232A, 0x23E9, 0x23EC,
     0x23F0, 0x23F0, 0x23F3, 0x23F3, 0x25FD, 0x25FE, 0x2614, 0x2615,
     0x2648, 0x2653, 0x267F, 0x267F, 0x2693, 0x2693, 0x26A1, 0x26A1,
     0x26AA, 0x26AB, 0x26BD, 0x26BE, 0x26C4, 0x26C5, 0x26CE, 0x26CE,
     0x26D4, 0x26D4, 0x26EA, 0x26EA, 0x26F2, 0x26F3, 0x26F5, 0x26F5,
     0x26FA, 0x26FA, 0x26FD, 0x26FD, 0x2705, 0x2705, 0x270A, 0x270B,
     0x2728, 0x2728, 0x274C, 0x274C, 0x274E, 0x274E, 0x2753, 0x2755,
     0x2757, 0x2757, 0x2795, 0x2797, 0x27B0, 0x27B0, 0x27BF, 0x27BF,
     0x2B1B, 0x2B1C, 0x2B50, 0x2B50, 0x2B55, 0x2B55, 0x2E80, 0x2E99,
     0x2E9B, 0x2EF3, 0x2F00, 0x2FD5, 0x2FF0, 0x2FFB, 0x3000, 0x3029,
     0x302E, 0x303E, 0x3041, 0x3096, 0x309B, 0x30FF, 0x3105, 0x312F,
     0x3131, 0x318E, 0x3190, 0x31E3, 0x31F0, 0x321E, 0x3220, 0x3247,
     0x3250, 0xA48C, 0xA490, 0xA4C6, 0xA960, 0xA97C, 0xAC00, 0xD7A3,
     0xF900, 0xFAFF, 0xFE10, 0xFE19, 0xFE30, 0xFE52, 0xFE54, 0xFE66,
     0xFE68, 0xFE6B, 0xFF01, 0xFF60, 0xFFE0, 0xFFE6, 0x16FE0, 0x16FE3,
     0x16FF0, 0x16FF1, 0x17000, 0x187F7, 0x18800, 0x18CD5, 0x18D00, 0x18D08,
     0x1AFF0, 0x1AFF3, 0x1AFF5, 0x1AFFB, 0x1AFFD, 0x1AFFE, 0x1B000, 0x1B122,
     0x1B132, 0x1B132, 0x1B150, 0x1B152, 0x1B155, 0x1B155, 0x1B164, 0x1B167,
     0x1B170, 0x1B2FB, 0x1F004, 0x1F004, 0x1F0CF, 0x1F0CF, 0x1F18E, 0x1F18E,
     0x1F191, 0x1F19A, 0x1F1E6, 0x1F202, 0x1F210, 0x1F23B, 0x1F240, 0x1F248,
     0x1F250, 0x1F251, 0x1F260, 0x1F265, 0x1F300, 0x1F320, 0x1F32D, 0x1F335,
     0x1F337, 0x1F37C, 0x1F37E, 0x1F393, 0x1F3A0, 0x1F3CA, 0x1F3CF, 0x1F3D3,
     0x1F3E0, 0x1F3F0, 0x1F3F4, 0x1F3F4, 0x1F3F8, 0x1F43E, 0x1F440, 0x1F440,
     0x1F442, 0x1F4FC, 0x1F4FF, 0x1F53D, 0x1F54B, 0x1F54E, 0x1F550, 0x1F567,
     0x1F57A, 0x1F57A, 0x1F595, 0x1F596, 0x1F5A4, 0x1F5A4, 0x1F5FB, 0x1F64F,
     0x1F680, 0x1F6C5, 0x1F6CC, 0x1F6CC, 0x1F6D0, 0x1F6D2, 0x1F6D5, 0x1F6D7,
     0x1F6DC, 0x1F6DF, 0x1F6EB, 0x1F6EC, 0x1F6F4, 0x1F6FC, 0x1F7E0, 0x1F7EB,
     0x1F7F0, 0x1F7F0, 0x1F90C, 0x1F93A, 0x1F93C, 0x1F945, 0x1F947, 0x1F9FF,
     0x1FA70, 0x1FA7C, 0x1FA80, 0x1FA88, 0x1FA90, 0x1FABD, 0x1FABF, 0x1FAC5,
     0x1FACE, 0x1FADB, 0x1FAE0, 0x1FAE8, 0x1FAF0, 0x1FAF8, 0x20000, 0x2FFFD,
     0x30000, 0x3FFFD]"

definition ZERO :: "int list" where
  "ZERO = [
     0x300, 0x36F, 0x483, 0x489, 0x591, 0x5BD, 0x5BF, 0x5BF,
     0x5C1, 0x5C2, 0x5C4, 0x5C5, 0x5C7, 0x5C7, 0x600, 0x605,
     0x610, 0x61A, 0x61C, 0x61C, 0x64B, 0x65F, 0x670, 0x670,
     0x6D6, 0x6DD, 0x6DF, 0x6E4, 0x6E7, 0x6E8, 0x6EA, 0x6ED,
     0x70F, 0x70F, 0x711, 0x711, 0x730, 0x74A, 0x7A6, 0x7B0,
     0x7EB, 0x7F3, 0x7FD, 0x7FD, 0x816, 0x819, 0x81B, 0x823,
     0x825, 0x827, 0x829, 0x82D, 0x859, 0x85B, 0x890, 0x891,
     0x898, 0x89F, 0x8CA, 0x902, 0x93A, 0x93A, 0x93C, 0x93C,
     0x941, 0x948, 0x94D, 0x94D, 0x951, 0x957, 0x962, 0x963,
     0x981, 0x981, 0x9BC, 0x9BC, 0x9C1, 0x9C4, 0x9CD, 0x9CD,
     0x9E2, 0x9E3, 0x9FE, 0x9FE, 0xA01, 0xA02, 0xA3C, 0xA3C,
     0xA41, 0xA42, 0xA47, 0xA48, 0xA4B, 0xA4D, 0xA51, 0xA51,
     0xA70, 0xA71, 0xA75, 0xA75, 0xA81, 0xA82, 0xABC, 0xABC,
     0xAC1, 0xAC5, 0xAC7, 0xAC8, 0xACD, 0xACD, 0xAE2, 0xAE3,
     0xAFA, 0xAFF, 0xB01, 0xB01, 0xB3C, 0xB3C, 0xB3F, 0xB3F,
     0xB41, 0xB44, 0xB4D, 0xB4D, 0xB55, 0xB56, 0xB62, 0xB63,
     0xB82, 0xB82, 0xBC0, 0xBC0, 0xBCD, 0xBCD, 0xC00, 0xC00,
     0xC04, 0xC04, 0xC3C, 0xC3C, 0xC3E, 0xC40, 0xC46, 0xC48,
     0xC4A, 0xC4D, 0xC55, 0xC56, 0xC62, 0xC63, 0xC81, 0xC81,
     0xCBC, 0xCBC, 0xCBF, 0xCBF, 0xCC6, 0xCC6, 0xCCC, 0xCCD,
     0xCE2, 0xCE3, 0xD00, 0xD01, 0xD3B, 0xD3C, 0xD41, 0xD44,
     0xD4D, 0xD4D, 0xD62, 0xD63, 0xD81, 0xD81, 0xDCA, 0xDCA,
     0xDD2, 0xDD4, 0xDD6, 0xDD6, 0xE31, 0xE31, 0xE34, 0xE3A,
     0xE47, 0xE4E, 0xEB1, 0xEB1, 0xEB4, 0xEBC, 0xEC8, 0xECE,
     0xF18, 0xF19, 0xF35, 0xF35, 0xF37, 0xF37, 0xF39, 0xF39,
     0xF71, 0xF7E, 0xF80, 0xF84, 0xF86, 0xF87, 0xF8D, 0xF97,
     0xF99, 0xFBC, 0xFC6, 0xFC6, 0x102D, 0x1030, 0x1032, 0x1037,
     0x1039, 0x103A, 0x103D, 0x103E, 0x1058, 0x1059, 0x105E, 0x1060,
     0x1071, 0x1074, 0x1082, 0x1082, 0x1085, 0x1086, 0x108D, 0x108D,
     0x109D, 0x109D, 0x1160, 0x11FF, 0x135D, 0x135F, 0x1712, 0x1714,
     0x1732, 0x1733, 0x1752, 0x1753, 0x1772, 0x1773, 0x17B4, 0x17B5,
     0x17B7, 0x17BD, 0x17C6, 0x17C6, 0x17C9, 0x17D3, 0x17DD, 0x17DD,
     0x180B, 0x180F, 0x1885, 0x1886, 0x18A9, 0x18A9, 0x1920, 0x1922,
     0x1927, 0x1928, 0x1932, 0x1932, 0x1939, 0x193B, 0x1A17, 0x1A18,
     0x1A1B, 0x1A1B, 0x1A56, 0x1A56, 0x1A58, 0x1A5E, 0x1A60, 0x1A60,
     0x1A62, 0x1A62, 0x1A65, 0x1A6C, 0x1A73, 0x1A7C, 0x1A7F, 0x1A7F,
     0x1AB0, 0x1ACE, 0x1B00, 0x1B03, 0x1B34, 0x1B34, 0x1B36, 0x1B3A,
     0x1B3C, 0x1B3C, 0x1B42, 0x1B42, 0x1B6B, 0x1B73, 0x1B80, 0x1B81,
     0x1BA2, 0x1BA5, 0x1BA8, 0x1BA9, 0x1BAB, 0x1BAD, 0x1BE6, 0x1BE6,
     0x1BE8, 0x1BE9, 0x1BED, 0x1BED, 0x1BEF, 0x1BF1, 0x1C2C, 0x1C33,
     0x1C36, 0x1C37, 0x1CD0, 0x1CD2, 0x1CD4, 0x1CE0, 0x1CE2, 0x1CE8,
     0x1CED, 0x1CED, 0x1CF4, 0x1CF4, 0x1CF8, 0x1CF9, 0x1DC0, 0x1DFF,
     0x200B, 0x200F, 0x202A, 0x202E, 0x2060, 0x2064, 0x2066, 0x206F,
     0x20D0, 0x20F0, 0x2CEF, 0x2CF1, 0x2D7F, 0x2D7F, 0x2DE0, 0x2DFF,
     0x302A, 0x302D, 0x3099, 0x309A, 0xA66F, 0xA672, 0xA674, 0xA67D,
     0xA69E, 0xA69F, 0xA6F0, 0xA6F1, 0xA802, 0xA802, 0xA806, 0xA806,
     0xA80B, 0xA80B, 0xA825, 0xA826, 0xA82C, 0xA82C, 0xA8C4, 0xA8C5,
     0xA8E0, 0xA8F1, 0xA8FF, 0xA8FF, 0xA926, 0xA92D, 0xA947, 0xA951,
     0xA980, 0xA982, 0xA9B3, 0xA9B3, 0xA9B6, 0xA9B9, 0xA9BC, 0xA9BD,
     0xA9E5, 0xA9E5, 0xAA29, 0xAA2E, 0xAA31, 0xAA32, 0xAA35, 0xAA36,
     0xAA43, 0xAA43, 0xAA4C, 0xAA4C, 0xAA7C, 0xAA7C, 0xAAB0, 0xAAB0,
     0xAAB2, 0xAAB4, 0xAAB7, 0xAAB8, 0xAABE, 0xAABF, 0xAAC1, 0xAAC1,
     0xAAEC, 0xAAED, 0xAAF6, 0xAAF6, 0xABE5, 0xABE5, 0xABE8, 0xABE8,
     0xABED, 0xABED, 0xD7B0, 0xD7C6, 0xD7CB, 0xD7FB, 0xFB1E, 0xFB1E,
     0xFE00, 0xFE0F, 0xFE20, 0xFE2F, 0xFEFF, 0xFEFF, 0xFFF9, 0xFFFB,
     0x101FD, 0x101FD, 0x102E0, 0x102E0, 0x10376, 0x1037A, 0x10A01, 0x10A03,
     0x10A05, 0x10A06, 0x10A0C, 0x10A0F, 0x10A38, 0x10A3A, 0x10A3F, 0x10A3F,
     0x10AE5, 0x10AE6, 0x10D24, 0x10D27, 0x10EAB, 0x10EAC, 0x10EFD, 0x10EFF,
     0x10F46, 0x10F50, 0x10F82, 0x10F85, 0x11001, 0x11001, 0x11038, 0x11046,
     0x11070, 0x11070, 0x11073, 0x11074, 0x1107F, 0x11081, 0x110B3, 0x110B6,
     0x110B9, 0x110BA, 0x110BD, 0x110BD, 0x110C2, 0x110C2, 0x110CD, 0x110CD,
     0x11100, 0x11102, 0x11127, 0x1112B, 0x1112D, 0x11134, 0x11173, 0x11173,
     0x11180, 0x11181, 0x111B6, 0x111BE, 0x111C9, 0x111CC, 0x111CF, 0x111CF,
     0x1122F, 0x11231, 0x11234, 0x11234, 0x11236, 0x11237, 0x1123E, 0x1123E,
     0x11241, 0x11241, 0x112DF, 0x112DF, 0x112E3, 0x112EA, 0x11300, 0x11301,
     0x1133B, 0x1133C, 0x11340, 0x11340, 0x11366, 0x1136C, 0x11370, 0x11374,
     0x11438, 0x1143F, 0x11442, 0x11444, 0x11446, 0x11446, 0x1145E, 0x1145E,
     0x114B3, 0x114B8, 0x114BA, 0x114BA, 0x114BF, 0x114C0, 0x114C2, 0x114C3,
     0x115B2, 0x115B5, 0x115BC, 0x115BD, 0x115BF, 0x115C0, 0x115DC, 0x115DD,
     0x11633, 0x1163A, 0x1163D, 0x1163D, 0x1163F, 0x11640, 0x116AB, 0x116AB,
     0x116AD, 0x116AD, 0x116B0, 0x116B5, 0x116B7, 0x116B7, 0x1171D, 0x1171F,
     0x11722, 0x11725, 0x11727, 0x1172B, 0x1182F, 0x11837, 0x11839, 0x1183A,
     0x1193B, 0x1193C, 0x1193E, 0x1193E, 0x11943, 0x11943, 0x119D4, 0x119D7,
     0x119DA, 0x119DB, 0x119E0, 0x119E0, 0x11A01, 0x11A0A, 0x11A33, 0x11A38,
     0x11A3B, 0x11A3E, 0x11A47, 0x11A47, 0x11A51, 0x11A56, 0x11A59, 0x11A5B,
     0x11A8A, 0x11A96, 0x11A98, 0x11A99, 0x11C30, 0x11C36, 0x11C38, 0x11C3D,
     0x11C3F, 0x11C3F, 0x11C92, 0x11CA7, 0x11CAA, 0x11CB0, 0x11CB2, 0x11CB3,
     0x11CB5, 0x11CB6, 0x11D31, 0x11D36, 0x11D3A, 0x11D3A, 0x11D3C, 0x11D3D,
     0x11D3F, 0x11D45, 0x11D47, 0x11D47, 0x11D90, 0x11D91, 0x11D95, 0x11D95,
     0x11D97, 0x11D97, 0x11EF3, 0x11EF4, 0x11F00, 0x11F01, 0x11F36, 0x11F3A,
     0x11F40, 0x11F40, 0x11F42, 0x11F42, 0x13430, 0x13440, 0x13447, 0x13455,
     0x16AF0, 0x16AF4, 0x16B30, 0x16B36, 0x16F4F, 0x16F4F, 0x16F8F, 0x16F92,
     0x16FE4, 0x16FE4, 0x1BC9D, 0x1BC9E, 0x1BCA0, 0x1BCA3, 0x1CF00, 0x1CF2D,
     0x1CF30, 0x1CF46, 0x1D167, 0x1D169, 0x1D173, 0x1D182, 0x1D185, 0x1D18B,
     0x1D1AA, 0x1D1AD, 0x1D242, 0x1D244, 0x1DA00, 0x1DA36, 0x1DA3B, 0x1DA6C,
     0x1DA75, 0x1DA75, 0x1DA84, 0x1DA84, 0x1DA9B, 0x1DA9F, 0x1DAA1, 0x1DAAF,
     0x1E000, 0x1E006, 0x1E008, 0x1E018, 0x1E01B, 0x1E021, 0x1E023, 0x1E024,
     0x1E026, 0x1E02A, 0x1E08F, 0x1E08F, 0x1E130, 0x1E136, 0x1E2AE, 0x1E2AE,
     0x1E2EC, 0x1E2EF, 0x1E4EC, 0x1E4EF, 0x1E8D0, 0x1E8D6, 0x1E944, 0x1E94A,
     0xE0001, 0xE0001, 0xE0020, 0xE007F, 0xE0100, 0xE01EF]"

section \<open>Operations\<close>

text \<open>The loop of the binary search between the pair indices \<open>lo\<close> and \<open>hi\<close>.\<close>

function search :: "int list \<Rightarrow> int \<Rightarrow> int \<Rightarrow> int \<Rightarrow> bool" where
  "search r c lo hi =
     (if lo \<le> hi then
        let m = (lo + hi) div 2; first = r ! nat (2 * m); last = r ! nat (2 * m + 1) in
        if last < c then search r c (m + 1) hi
        else if c < first then search r c lo (m - 1)
        else True
      else False)"
  by pat_completeness auto
termination
  by (relation "measure (\<lambda>(r, c, lo, hi). nat (hi - lo + 1))") auto

declare search.simps [simp del]

definition inRanges :: "int list \<Rightarrow> int \<Rightarrow> bool" where
  "inRanges r c = search r c 0 (int (length r) div 2 - 1)"

definition width :: "int \<Rightarrow> int" where
  "width ucs =
     (if 0 \<le> ucs \<and> ucs < int (length DIRECT_LUT) then
        let w = DIRECT_LUT ! nat ucs in if w < 0 then 0 else w
      else if inRanges NONPRINTABLE ucs then 0
      else if inRanges WIDE ucs then 2
      else if inRanges ZERO ucs then 0
      else 1)"

text \<open>The width at an index of a character array.\<close>

definition width_at :: "jstring \<Rightarrow> int \<Rightarrow> int option" where
  "width_at chars index = do {
     c \<leftarrow> aget chars index;
     if isHighSurrogate c then do { d \<leftarrow> aget chars (index + 1); Some (width (toCodePoint c d)) }
     else Some (width c) }"

definition joinsPreviousGrapheme :: "int \<Rightarrow> int \<Rightarrow> bool" where
  "joinsPreviousGrapheme prevCp cp \<longleftrightarrow>
     cp = 0x200D \<or> prevCp = 0x200D \<or> (0x1F3FB \<le> cp \<and> cp \<le> 0x1F3FF)"

section \<open>Lemmas\<close>

text \<open>A table of ranges, its pairs sorted and disjoint.\<close>

fun range_table :: "int list \<Rightarrow> bool" where
  "range_table [] = True"
| "range_table [a] = False"
| "range_table [a, b] = (a \<le> b)"
| "range_table (a # b # c # r) = (a \<le> b \<and> b < c \<and> range_table (c # r))"

fun in_some_range :: "int list \<Rightarrow> int \<Rightarrow> bool" where
  "in_some_range (a # b # r) c = (a \<le> c \<and> c \<le> b \<or> in_some_range r c)"
| "in_some_range _ c = False"

lemma range_table_nth:
  "range_table r \<Longrightarrow> i < j \<Longrightarrow> j < length r \<Longrightarrow> r ! i \<le> r ! j \<and> (odd i \<longrightarrow> r ! i < r ! j)"
proof (induction r arbitrary: i j rule: range_table.induct)
  case (3 a b)
  then show ?case by (auto simp: less_Suc_eq)
next
  case (4 a b c r)
  note ih = 4(1)
  from 4(2) have ab: "a \<le> b" "b < c" and rt: "range_table (c # r)" by simp_all
  have hd: "c \<le> (c # r) ! k" if "k < length (c # r)" for k
    using ih [OF rt, of 0 k] that by (cases k) auto
  show ?case
  proof (cases "j < 2")
    case True
    with 4(3) ab show ?thesis by (cases j) auto
  next
    case False
    then obtain k where k: "j = Suc (Suc k)" by (metis Suc_1 add_2_eq_Suc le_Suc_ex not_less)
    with 4(4) have kl: "k < length (c # r)" by simp
    consider "i = 0" | "i = 1" | l where "i = Suc (Suc l)"
      by (metis One_nat_def not0_implies_Suc)
    then show ?thesis
      using hd [OF kl] ab ih [OF rt, of _ k] 4(3) kl k by cases auto
  qed
qed simp_all

lemma in_some_range_iff:
  "even (length r) \<Longrightarrow> in_some_range r c \<longleftrightarrow> (\<exists>m. 2 * m + 1 < length r \<and> r ! (2 * m) \<le> c \<and> c \<le> r ! (2 * m + 1))"
proof (induction r c rule: in_some_range.induct)
  case (1 a b r c)
  have "(\<exists>m. 2 * m + 1 < length (a # b # r) \<and> (a # b # r) ! (2 * m) \<le> c \<and> c \<le> (a # b # r) ! (2 * m + 1)) \<longleftrightarrow>
        a \<le> c \<and> c \<le> b \<or> (\<exists>m. 2 * m + 1 < length r \<and> r ! (2 * m) \<le> c \<and> c \<le> r ! (2 * m + 1))"
    (is "(\<exists>m. ?P m) \<longleftrightarrow> _ \<or> (\<exists>m. ?Q m)")
  proof -
    have "?P (Suc m) \<longleftrightarrow> ?Q m" for m by simp
    moreover have "?P 0 \<longleftrightarrow> a \<le> c \<and> c \<le> b" by simp
    ultimately show ?thesis by (metis not0_implies_Suc)
  qed
  with 1 show ?case by simp
qed auto

lemma even_range_table: "range_table r \<Longrightarrow> even (length r)"
  by (induction r rule: range_table.induct) auto

text \<open>The loop misses no range between its bounds and accepts nothing else.\<close>

lemma search_correct:
  assumes "range_table r"
  shows "0 \<le> lo \<Longrightarrow> 2 * hi + 1 < int (length r) \<Longrightarrow>
    search r c lo hi \<longleftrightarrow> (\<exists>m. lo \<le> int m \<and> int m \<le> hi \<and> r ! (2 * m) \<le> c \<and> c \<le> r ! (2 * m + 1))"
  using assms
proof (induction r c lo hi rule: search.induct)
  case (1 r c lo hi)
  let ?hit = "\<lambda>m. r ! (2 * m) \<le> c \<and> c \<le> r ! (2 * m + 1)"
  show ?case
  proof (cases "lo \<le> hi")
    case False
    then show ?thesis by (subst search.simps) auto
  next
    case True
    define m where "m = (lo + hi) div 2"
    have m: "lo \<le> m" "m \<le> hi" using True by (simp_all add: m_def)
    define k where "k = nat m"
    have k: "m = int k" "nat (2 * m) = 2 * k" "nat (2 * m + 1) = 2 * k + 1"
      using m 1(3) by (simp_all add: k_def)
    have step: "search r c lo hi =
      (if r ! (2 * k + 1) < c then search r c (m + 1) hi
       else if c < r ! (2 * k) then search r c lo (m - 1) else True)"
      by (subst search.simps) (simp only: True m_def [symmetric] k(2,3) Let_def if_True)
    have kl: "2 * k + 1 < length r" using m 1(4) k(1) by simp
    have below: "\<not> ?hit j" if "j \<le> k" and "r ! (2 * k + 1) < c" for j
      using range_table_nth [OF 1(5), of "2 * j + 1" "2 * k + 1"] that kl by (cases "j = k") auto
    have above: "\<not> ?hit j" if "k \<le> j" and "c < r ! (2 * k)" and "2 * j + 1 < length r" for j
      using range_table_nth [OF 1(5), of "2 * k" "2 * j"] that by (cases "j = k") auto
    consider (right) "r ! (2 * k + 1) < c" | (left) "\<not> r ! (2 * k + 1) < c" "c < r ! (2 * k)"
      | (hit) "?hit k" by linarith
    then show ?thesis
    proof cases
      case right
      have "search r c lo hi = search r c (m + 1) hi" using step right by simp
      also have "\<dots> \<longleftrightarrow> (\<exists>j. m + 1 \<le> int j \<and> int j \<le> hi \<and> ?hit j)"
        using 1(1) [OF True m_def refl refl] right k m 1(3-5) by simp
      also have "\<dots> \<longleftrightarrow> (\<exists>j. lo \<le> int j \<and> int j \<le> hi \<and> ?hit j)"
        using below right m k(1) by (smt (verit) of_nat_le_iff)
      finally show ?thesis .
    next
      case left
      have "search r c lo hi = search r c lo (m - 1)" using step left by simp
      also have "\<dots> \<longleftrightarrow> (\<exists>j. lo \<le> int j \<and> int j \<le> m - 1 \<and> ?hit j)"
        using 1(2) [OF True m_def refl refl] left k m 1(3-5) by simp
      also have "\<dots> \<longleftrightarrow> (\<exists>j. lo \<le> int j \<and> int j \<le> hi \<and> ?hit j)"
      proof -
        have "2 * j + 1 < length r" if "int j \<le> hi" for j using that 1(4) by simp
        then show ?thesis using above left m k(1) by (smt (verit) of_nat_le_iff)
      qed
      finally show ?thesis .
    next
      case hit
      then show ?thesis using step m k(1) by auto
    qed
  qed
qed

lemma inRanges_iff:
  assumes "range_table r"
  shows "inRanges r c = in_some_range r c"
proof -
  obtain n where n: "length r = 2 * n" using even_range_table [OF assms] by (elim evenE)
  have "inRanges r c \<longleftrightarrow> (\<exists>m. 0 \<le> int m \<and> int m \<le> int (length r) div 2 - 1 \<and> r ! (2 * m) \<le> c \<and> c \<le> r ! (2 * m + 1))"
    unfolding inRanges_def using n by (intro search_correct [OF assms]) auto
  also have "\<dots> \<longleftrightarrow> in_some_range r c"
  proof -
    have "int m \<le> int (length r) div 2 - 1 \<longleftrightarrow> 2 * m + 1 < length r" for m using n by auto
    then show ?thesis using in_some_range_iff [OF even_range_table [OF assms]] by simp
  qed
  finally show ?thesis .
qed

lemma tables_sorted [simp]: "range_table NONPRINTABLE" "range_table WIDE" "range_table ZERO"
  by code_simp+

lemma width_direct: "list_all (\<lambda>w. w \<le> 1) DIRECT_LUT"
  by code_simp

lemma width_space [simp]: "width 32 = 1"
  by code_simp

lemma width_cases: "width c = 0 \<or> width c = 1 \<or> width c = 2"
proof (cases "0 \<le> c \<and> c < int (length DIRECT_LUT)")
  case True
  then have "DIRECT_LUT ! nat c \<le> 1" using width_direct by (auto simp: list_all_length)
  then show ?thesis using True by (auto simp: width_def Let_def)
next
  case False
  then show ?thesis by (auto simp: width_def)
qed

lemma width_nonneg [simp]: "0 \<le> width c"
  using width_cases [of c] by auto

lemma width_le_2 [simp]: "width c \<le> 2"
  using width_cases [of c] by auto

text \<open>
  C34. The width of a code point is what the source's tables say: the binary search
  finds a code point in a table exactly when one of the table's ranges contains
  it, so beyond Latin-1 a code point is two columns wide iff a range of the wide
  table has it, and the result is always 0, 1 or 2.
\<close>

theorem width_by_tables:
  "(\<forall>T c. T \<in> {NONPRINTABLE, WIDE, ZERO} \<longrightarrow> inRanges T c = in_some_range T c) \<and>
   (\<forall>c. 256 \<le> c \<longrightarrow> width c =
      (if in_some_range NONPRINTABLE c then 0 else if in_some_range WIDE c then 2
       else if in_some_range ZERO c then 0 else 1)) \<and>
   (\<forall>c. width c \<in> {0, 1, 2})"
proof -
  have "int (length DIRECT_LUT) = 256" by (simp add: DIRECT_LUT_def)
  then have "width c = (if in_some_range NONPRINTABLE c then 0 else if in_some_range WIDE c then 2
       else if in_some_range ZERO c then 0 else 1)" if "256 \<le> c" for c
    using that by (simp add: width_def inRanges_iff)
  then show ?thesis using width_cases by (auto simp: inRanges_iff)
qed

theorem width_by_tables_witness:
  "(256 :: int) \<le> 0x4E2D \<and> width 0x4E2D = 2"
proof -
  have "in_some_range WIDE 0x4E2D" "\<not> in_some_range NONPRINTABLE 0x4E2D" by code_simp+
  with width_by_tables show ?thesis by auto
qed

end
