(* ===== verification/TerminalRow.thy ===== *)
theory TerminalRow
  imports TextStyle WcWidth
begin

text \<open>
  \<^verbatim>\<open>TerminalRow.java\<close>: one line of the terminal. The text of the cells lies in one
  array of UTF-16 units, a cell taking as many units as its base character and
  its combining characters need; columns are found by scanning. Every operation
  of the class is a definition here; \<^const>\<open>None\<close> is an exception.
\<close>

record trow =
  r_columns :: int
  r_text :: jstring
  r_used :: int
  r_wrap :: bool
  r_style :: "u64 list"
  r_wide :: bool
  r_link :: "jstring option list option"
  r_ucolor :: "u32 list option"

definition VS16 :: int where "VS16 = 0xFE0F"

section \<open>Clearing\<close>

definition row_clear :: "u64 \<Rightarrow> trow \<Rightarrow> trow" where
  "row_clear style r =
     r\<lparr>r_text := replicate (length (r_text r)) 32, r_style := replicate (length (r_style r)) style,
       r_used := jshort (r_columns r), r_wide := False, r_link := None, r_ucolor := None\<rparr>"

definition newRow :: "int \<Rightarrow> u64 \<Rightarrow> trow" where
  "newRow columns style =
     row_clear style \<lparr>r_columns = columns, r_text = replicate (nat (3 * columns div 2)) 0, r_used = 0,
       r_wrap = False, r_style = replicate (nat columns) 0, r_wide = False, r_link = None, r_ucolor = None\<rparr>"

section \<open>Underline colours and hyperlinks\<close>

definition getUnderlineColor :: "int \<Rightarrow> trow \<Rightarrow> u32" where
  "getUnderlineColor column r =
     (case r_ucolor r of
        None \<Rightarrow> 0
      | Some u \<Rightarrow> if column < 0 \<or> r_columns r \<le> column then 0 else u ! nat column)"

definition setUnderlineColor :: "int \<Rightarrow> u32 \<Rightarrow> trow \<Rightarrow> trow" where
  "setUnderlineColor column color r =
     (if column < 0 \<or> r_columns r \<le> column then r
      else if color = 0 then r\<lparr>r_ucolor := map_option (\<lambda>u. u[nat column := 0]) (r_ucolor r)\<rparr>
      else let u = (case r_ucolor r of None \<Rightarrow> replicate (nat (r_columns r)) 0 | Some u \<Rightarrow> u)
           in r\<lparr>r_ucolor := Some (u[nat column := color])\<rparr>)"

definition getHyperlink :: "int \<Rightarrow> trow \<Rightarrow> jstring option" where
  "getHyperlink column r =
     (case r_link r of
        None \<Rightarrow> None
      | Some l \<Rightarrow> if column < 0 \<or> r_columns r \<le> column then None else l ! nat column)"

definition row_setHyperlink :: "int \<Rightarrow> jstring option \<Rightarrow> trow \<Rightarrow> trow" where
  "row_setHyperlink column uri r =
     (if column < 0 \<or> r_columns r \<le> column then r
      else if uri = None then r\<lparr>r_link := map_option (\<lambda>l. l[nat column := None]) (r_link r)\<rparr>
      else let l = (case r_link r of None \<Rightarrow> replicate (nat (r_columns r)) None | Some l \<Rightarrow> l)
           in r\<lparr>r_link := Some (l[nat column := uri])\<rparr>)"

definition row_getStyle :: "int \<Rightarrow> trow \<Rightarrow> u64 option" where
  "row_getStyle column r = aget (r_style r) column"

section \<open>Finding columns\<close>

definition cellWidth :: "int \<Rightarrow> trow \<Rightarrow> int option" where
  "cellWidth charIndex r = do {
     c \<leftarrow> aget (r_text r) charIndex;
     let high = isHighSurrogate c;
     codePoint \<leftarrow> (if high then do { d \<leftarrow> aget (r_text r) (charIndex + 1); Some (toCodePoint c d) } else Some c);
     let w = width codePoint;
     let next = charIndex + (if high then 2 else 1);
     if w = 1 \<and> next < r_used r then do {
       x \<leftarrow> aget (r_text r) next;
       Some (if x = VS16 then 2 else w) }
     else Some w }"

text \<open>The inner loop of \<^verbatim>\<open>findStartOfColumn\<close>: pass the combining characters.\<close>

function skip_combining :: "trow \<Rightarrow> int \<Rightarrow> int option" where
  "skip_combining r i =
     (if i < r_used r then do {
        c \<leftarrow> aget (r_text r) i;
        if isHighSurrogate c then do {
          d \<leftarrow> aget (r_text r) (i + 1);
          if width (toCodePoint c d) \<le> 0 then skip_combining r (i + 2) else Some i }
        else if width c \<le> 0 then skip_combining r (i + 1)
        else Some i }
      else Some i)"
  by pat_completeness auto
termination
  by (relation "measure (\<lambda>(r, i). nat (r_used r - i))") auto

declare skip_combining.simps [simp del]

function find_loop :: "int \<Rightarrow> trow \<Rightarrow> int \<Rightarrow> int \<Rightarrow> int option" where
  "find_loop column r currentColumn i =
     (if i < 0 \<or> int (length (r_text r)) \<le> i then None else do {
        c \<leftarrow> aget (r_text r) i;
        let new = i + (if isHighSurrogate c then 2 else 1);
        wcwidth \<leftarrow> cellWidth i r;
        if 0 < wcwidth then
          (let currentColumn = currentColumn + wcwidth in
           if currentColumn = column then skip_combining r new
           else if column < currentColumn then Some i
           else find_loop column r currentColumn new)
        else find_loop column r currentColumn new })"
  by pat_completeness auto
termination
  by (relation "measure (\<lambda>(column, r, k, i). nat (int (length (r_text r)) - i))") auto

declare find_loop.simps [simp del]

definition findStartOfColumn :: "int \<Rightarrow> trow \<Rightarrow> int option" where
  "findStartOfColumn column r = (if column = r_columns r then Some (r_used r) else find_loop column r 0 0)"

function wide_loop :: "int \<Rightarrow> trow \<Rightarrow> int \<Rightarrow> int \<Rightarrow> bool option" where
  "wide_loop column r currentColumn i =
     (if i < r_used r then do {
        c \<leftarrow> aget (r_text r) i;
        let new = i + (if isHighSurrogate c then 2 else 1);
        wcwidth \<leftarrow> cellWidth i r;
        if 0 < wcwidth then
          (if currentColumn = column \<and> wcwidth = 2 then Some True
           else if column < currentColumn + wcwidth then Some False
           else wide_loop column r (currentColumn + wcwidth) new)
        else wide_loop column r currentColumn new }
      else Some False)"
  by pat_completeness auto
termination
  by (relation "measure (\<lambda>(column, r, k, i). nat (r_used r - i))") auto

declare wide_loop.simps [simp del]

definition wideDisplayCharacterStartingAt :: "int \<Rightarrow> trow \<Rightarrow> bool option" where
  "wideDisplayCharacterStartingAt column r = wide_loop column r 0 0"

section \<open>Writing a cell\<close>

text \<open>
  Making room for, or closing the gap left by, a cell whose number of units
  changes from \<open>old\<close> to \<open>new\<close>.
\<close>

definition row_shift :: "int \<Rightarrow> int \<Rightarrow> int \<Rightarrow> trow \<Rightarrow> jstring option" where
  "row_shift start old new r =
     (let text = r_text r; oldNext = start + old; newNext = start + new; after = r_used r - oldNext in
      if 0 < new - old then
        if int (length text) < r_used r + (new - old) then do {
          a \<leftarrow> arraycopy text 0 (replicate (length text + nat (r_columns r)) 0) 0 (start + old);
          arraycopy text oldNext a newNext after }
        else arraycopy text oldNext text newNext after
      else if new - old < 0 then arraycopy text oldNext text newNext after
      else Some text)"

text \<open>After a wide cell was overwritten by a narrow one: a blank for its second half.\<close>

definition row_fill_half :: "int \<Rightarrow> trow \<Rightarrow> trow option" where
  "row_fill_half newNext r = do {
     let text = r_text r;
     text1 \<leftarrow> (if int (length text) < r_used r + 1 then do {
                a \<leftarrow> arraycopy text 0 (replicate (length text + nat (r_columns r)) 0) 0 newNext;
                arraycopy text newNext a (newNext + 1) (r_used r - newNext) }
              else arraycopy text newNext text (newNext + 1) (r_used r - newNext));
     text2 \<leftarrow> aset text1 newNext 32;
     Some (r\<lparr>r_text := text2, r_used := jshort (r_used r + 1)\<rparr>) }"

text \<open>After a narrow cell was overwritten by a wide one: the next column goes.\<close>

definition row_eat_next :: "int \<Rightarrow> int \<Rightarrow> trow \<Rightarrow> trow option" where
  "row_eat_next col newNext r =
     (if col = r_columns r - 1 then None
      else if col = r_columns r - 2 then Some (r\<lparr>r_used := jshort newNext\<rparr>)
      else do {
        c \<leftarrow> aget (r_text r) newNext;
        let nextNext = newNext + (if isHighSurrogate c then 2 else 1);
        text \<leftarrow> arraycopy (r_text r) nextNext (r_text r) newNext (r_used r - nextNext);
        Some (r\<lparr>r_text := text, r_used := jshort (r_used r - (nextNext - newNext))\<rparr>) })"

definition row_neighbour :: "int \<Rightarrow> int \<Rightarrow> int \<Rightarrow> int \<Rightarrow> trow \<Rightarrow> trow option" where
  "row_neighbour oldWidth newWidth col newNext r =
     (if oldWidth = 2 \<and> newWidth = 1 then row_fill_half newNext r
      else if oldWidth = 1 \<and> newWidth = 2 then row_eat_next col newNext r
      else Some r)"

definition row_store :: "int \<Rightarrow> int \<Rightarrow> trow \<Rightarrow> trow option" where
  "row_store col cp r = do {
     let newWidth = width cp;
     let combining = newWidth \<le> 0;
     start \<leftarrow> findStartOfColumn col r;
     oldWidth \<leftarrow> (if start < r_used r then cellWidth start r else width_at (r_text r) start);
     old \<leftarrow> (if col + oldWidth < r_columns r then do {
                e \<leftarrow> findStartOfColumn (col + oldWidth) r; Some (e - start) }
             else Some (r_used r - start));
     let new = charCount cp + (if combining then old else 0);
     text \<leftarrow> row_shift start old new r;
     text \<leftarrow> toChars cp text (start + (if combining then old else 0));
     let r = r\<lparr>r_text := text, r_used := jshort (r_used r + (new - old))\<rparr>;
     row_neighbour oldWidth newWidth col (start + new) r }"

definition row_mark :: "int \<Rightarrow> u64 \<Rightarrow> trow \<Rightarrow> trow option" where
  "row_mark col style r = do {
     st \<leftarrow> aset (r_style r) col style;
     lk \<leftarrow> (case r_link r of None \<Rightarrow> Some None | Some l \<Rightarrow> map_option Some (aset l col None));
     uc \<leftarrow> (case r_ucolor r of None \<Rightarrow> Some None | Some u \<Rightarrow> map_option Some (aset u col 0));
     Some (r\<lparr>r_style := st, r_link := lk, r_ucolor := uc\<rparr>) }"

function row_setChar :: "int \<Rightarrow> int \<Rightarrow> u64 \<Rightarrow> trow \<Rightarrow> trow option" where
  "row_setChar col cp style r = do {
     r \<leftarrow> row_mark col style r;
     let newWidth = width cp;
     if \<not> r_wide r \<and> \<not> (0x10000 \<le> cp \<or> newWidth \<noteq> 1) then do {
       t \<leftarrow> aset (r_text r) col (cp mod 0x10000);
       Some (r\<lparr>r_text := t\<rparr>) }
     else do {
       let r = r\<lparr>r_wide := True\<rparr>;
       wasExtra \<leftarrow> (if 0 < col then wideDisplayCharacterStartingAt (col - 1) r else Some False);
       if newWidth \<le> 0 then row_store (if wasExtra then col - 1 else col) cp r
       else do {
         r \<leftarrow> (if wasExtra \<and> 0 < col then row_setChar (col - 1) 32 style r else Some r);
         overwriting \<leftarrow> (if newWidth = 2 then wideDisplayCharacterStartingAt (col + 1) r else Some False);
         r \<leftarrow> (if overwriting \<and> newWidth = 2 then row_setChar (col + 1) 32 style r else Some r);
         row_store col cp r } } }"
  by pat_completeness auto
termination
  by (relation "measures [\<lambda>(col, cp, style, r). if width cp = 2 then 1 else 0, \<lambda>(col, cp, style, r). nat col]") auto

declare row_setChar.simps [simp del]

section \<open>Copying a part of a row\<close>

text \<open>
  The loop of \<^verbatim>\<open>copyInterval\<close> from unit \<open>i\<close> to \<open>x2\<close> of the source text. When a row is
  copied onto itself the text was saved before the loop, while the styles, links
  and underline colours are read from the row that is being written.
\<close>

function copy_loop ::
  "trow option \<Rightarrow> jstring \<Rightarrow> int \<Rightarrow> int \<Rightarrow> bool \<Rightarrow> int \<Rightarrow> int \<Rightarrow> int \<Rightarrow> trow \<Rightarrow> trow option" where
  "copy_loop line chars i x2 half latest sourceX1 destX r =
     (if i < x2 then do {
        c \<leftarrow> aget chars i;
        let high = isHighSurrogate c;
        codePoint \<leftarrow> (if high then do { d \<leftarrow> aget chars (i + 1); Some (toCodePoint c d) } else Some c);
        let codePoint = (if half then 32 else codePoint);
        let w = width codePoint;
        let destX = (if 0 < w then destX + latest else destX);
        let sourceX1 = (if 0 < w then sourceX1 + latest else sourceX1);
        let latest = (if 0 < w then w else latest);
        st \<leftarrow> row_getStyle sourceX1 (case line of None \<Rightarrow> r | Some l \<Rightarrow> l);
        r \<leftarrow> row_setChar destX codePoint st r;
        let link = getHyperlink sourceX1 (case line of None \<Rightarrow> r | Some l \<Rightarrow> l);
        let r = (if link \<noteq> None then row_setHyperlink destX link r else r);
        let ucolor = getUnderlineColor sourceX1 (case line of None \<Rightarrow> r | Some l \<Rightarrow> l);
        let r = (if ucolor \<noteq> 0 then setUnderlineColor destX ucolor r else r);
        copy_loop line chars (i + (if high then 2 else 1)) x2 False latest sourceX1 destX r }
      else Some r)"
  by pat_completeness auto
termination
  by (relation "measure (\<lambda>(line, chars, i, x2, half, latest, sourceX1, destX, r). nat (x2 - i))") auto

declare copy_loop.simps [simp del]

text \<open>\<open>line = None\<close> is the row itself (\<^verbatim>\<open>this == line\<close>).\<close>

definition copyInterval :: "trow option \<Rightarrow> int \<Rightarrow> int \<Rightarrow> int \<Rightarrow> trow \<Rightarrow> trow option" where
  "copyInterval line sourceX1 sourceX2 destinationX r = do {
     let src = (case line of None \<Rightarrow> r | Some l \<Rightarrow> l);
     let r = r\<lparr>r_wide := (r_wide r \<or> r_wide src)\<rparr>;
     let src = (case line of None \<Rightarrow> r | Some l \<Rightarrow> l);
     x1 \<leftarrow> findStartOfColumn sourceX1 src;
     x2 \<leftarrow> findStartOfColumn sourceX2 src;
     half \<leftarrow> (if 0 < sourceX1 then wideDisplayCharacterStartingAt (sourceX1 - 1) src else Some False);
     copy_loop line (r_text src) x1 x2 half 0 sourceX1 destinationX r }"

definition isBlank :: "trow \<Rightarrow> bool option" where
  "isBlank r = (if r_used r \<le> int (length (r_text r)) then Some (list_all (\<lambda>c. c = 32) (take (nat (r_used r)) (r_text r)))
     else if list_all (\<lambda>c. c = 32) (r_text r) then None else Some False)"

end
