(* ===== verification/RowCells.thy ===== *)
theory RowCells
  imports TerminalRow
begin

text \<open>
  What a row shows: the sequence of cells that its text encodes, each a base
  character with its combining characters, and the columns they occupy. The
  lemmas show that the column searches of the row find the cells, and that
  writing a character replaces exactly the cell it should.
\<close>

named_theorems cell_simps \<open>encoded cells\<close>

section \<open>Cells\<close>

type_synonym cell = "int \<times> int list"

definition enc_cell :: "cell \<Rightarrow> jstring" where
  "enc_cell c = units (fst c) @ concat (map units (snd c))"

definition enc :: "cell list \<Rightarrow> jstring" where
  "enc cs = concat (map enc_cell cs)"

definition cell_ok :: "cell \<Rightarrow> bool" where
  "cell_ok c \<longleftrightarrow> scalar (fst c) \<and> 0 < width (fst c) \<and> (\<forall>z \<in> set (snd c). scalar z \<and> width z = 0)"

text \<open>The width of a cell, emoji presentation included.\<close>

definition cw :: "cell \<Rightarrow> int" where
  "cw c = (if width (fst c) = 1 \<and> snd c \<noteq> [] \<and> hd (snd c) = VS16 then 2 else width (fst c))"

definition cws :: "cell list \<Rightarrow> int" where
  "cws cs = sum_list (map cw cs)"

lemma cws_simps [simp, cell_simps]:
  "cws [] = 0" "cws (c # cs) = cw c + cws cs" "cws (xs @ ys) = cws xs + cws ys"
  by (simp_all add: cws_def)

lemma enc_simps [simp, cell_simps]:
  "enc [] = []" "enc (c # cs) = enc_cell c @ enc cs" "enc (xs @ ys) = enc xs @ enc ys"
  by (simp_all add: enc_def)

lemma cw_pos: "cell_ok c \<Longrightarrow> 1 \<le> cw c \<and> cw c \<le> 2"
  using width_cases [of "fst c"] by (auto simp: cell_ok_def cw_def)

lemma cws_nonneg: "list_all cell_ok cs \<Longrightarrow> 0 \<le> cws cs"
  by (induction cs) (auto dest: cw_pos)

lemma cws_length: "list_all cell_ok cs \<Longrightarrow> int (length cs) \<le> cws cs"
  by (induction cs) (auto dest: cw_pos)

lemma enc_cell_nonempty [simp]: "enc_cell c \<noteq> []"
  by (simp add: enc_cell_def)

section \<open>Scanning encoded text\<close>

text \<open>The text of a row as a prefix, the units at hand and the rest.\<close>

definition text_at :: "trow \<Rightarrow> jstring \<Rightarrow> jstring \<Rightarrow> bool" where
  "text_at r pre us \<longleftrightarrow> (\<exists>junk. r_text r = pre @ us @ junk) \<and> r_used r = int (length (pre @ us))"

lemma text_at_app: "text_at r (pre @ a) b \<longleftrightarrow> text_at r pre (a @ b)"
  by (simp add: text_at_def)

lemma text_at_get: "text_at r pre (u # us) \<Longrightarrow> aget (r_text r) (int (length pre)) = Some u"
  by (auto simp: text_at_def)

lemma text_at_get1: "text_at r pre (u # v # us) \<Longrightarrow> aget (r_text r) (int (length pre) + 1) = Some v"
  using aget_int [of "r_text r" "Suc (length pre)"] by (auto simp: text_at_def nth_append add.commute)

lemma text_at_get2: "text_at r pre (u # v # x # us) \<Longrightarrow> aget (r_text r) (int (length pre) + 2) = Some x"
  using aget_int [of "r_text r" "Suc (Suc (length pre))"] by (auto simp: text_at_def nth_append add.commute)

lemma text_at_used: "text_at r pre us \<Longrightarrow> int (length pre) < r_used r \<longleftrightarrow> us \<noteq> []"
  by (auto simp: text_at_def)

lemma text_at_len: "text_at r pre (u # us) \<Longrightarrow> int (length pre) < int (length (r_text r))"
  by (auto simp: text_at_def)

lemma units_cases:
  assumes "scalar cp"
  obtains (bmp) "units cp = [cp]" "\<not> isHighSurrogate cp" "charCount cp = 1"
    | (sup) h l where "units cp = [h, l]" "isHighSurrogate h" "toCodePoint h l = cp" "charCount cp = 2"
proof (cases "0x10000 \<le> cp")
  case True
  with assms have "isHighSurrogate (highSurrogate cp)"
    by (simp add: high_surrogate scalar_def is_cp_def)
  with True show thesis by (intro sup [of "highSurrogate cp" "lowSurrogate cp"])
      (simp_all add: units_def toCodePoint_units charCount_def)
next
  case False
  with assms show thesis by (intro bmp) (simp_all add: units_def charCount_def scalar_bmp)
qed

lemma VS16_facts [simp]: "scalar VS16" "width VS16 = 0" "units VS16 = [VS16]"
  by (simp_all add: VS16_def scalar_def is_cp_def units_def) code_simp

text \<open>Whether a code point starts with the variation selector's unit: only itself.\<close>

lemma units_hd_VS16: "scalar cp \<Longrightarrow> hd (units cp) = VS16 \<longleftrightarrow> cp = VS16"
proof (elim units_cases)
  assume "units cp = [cp]"
  then show ?thesis by simp
next
  fix h l
  assume "units cp = [h, l]" "isHighSurrogate h" "charCount cp = 2"
  then show ?thesis by (auto simp: isHighSurrogate_def VS16_def charCount_def split: if_splits)
qed

lemma cellWidth_at:
  assumes "text_at r pre (units cp @ us)" and "scalar cp"
  shows "cellWidth (int (length pre)) r =
    Some (if width cp = 1 \<and> us \<noteq> [] \<and> hd us = VS16 then 2 else width cp)"
  using assms(2)
proof (cases rule: units_cases)
  case bmp
  with assms(1) have t: "text_at r pre (cp # us)" by simp
  have "int (length pre) + 1 < r_used r \<longleftrightarrow> us \<noteq> []" using t by (auto simp: text_at_def)
  then show ?thesis
    using bmp text_at_get [OF t] text_at_get1 [of r pre cp "hd us" "tl us"] t
    by (cases us) (simp_all add: cellWidth_def Let_def)
next
  case (sup h l)
  with assms(1) have t: "text_at r pre (h # l # us)" by simp
  have "int (length pre) + 2 < r_used r \<longleftrightarrow> us \<noteq> []" using t by (auto simp: text_at_def)
  then show ?thesis
    using sup text_at_get [OF t] text_at_get1 [OF t] text_at_get2 [of r pre h l "hd us" "tl us"] t
    by (cases us) (simp_all add: cellWidth_def Let_def)
qed

lemma cellWidth_base:
  assumes "text_at r pre (enc_cell c @ us)" and "cell_ok c"
    and "us = [] \<or> hd us \<noteq> VS16"
  shows "cellWidth (int (length pre)) r = Some (cw c)"
proof -
  have s: "scalar (fst c)" "\<forall>z \<in> set (snd c). scalar z" using assms(2) by (simp_all add: cell_ok_def)
  have t: "text_at r pre (units (fst c) @ (concat (map units (snd c)) @ us))"
    using assms(1) by (simp add: enc_cell_def)
  show ?thesis
  proof (cases "snd c")
    case Nil
    then show ?thesis using cellWidth_at [OF t s(1)] assms(3) by (auto simp: cw_def)
  next
    case (Cons z zs)
    with s(2) have "hd (units z) = VS16 \<longleftrightarrow> z = VS16" by (intro units_hd_VS16) simp
    then show ?thesis using cellWidth_at [OF t s(1)] Cons by (auto simp: cw_def hd_append)
  qed
qed

text \<open>The unit at the start of a code point, and how far to move past it.\<close>

lemma unit_at:
  assumes "text_at r pre (units cp @ us)" and "scalar cp"
  obtains u where "aget (r_text r) (int (length pre)) = Some u"
    and "int (length pre) + (if isHighSurrogate u then 2 else 1) = int (length (pre @ units cp))"
    and "text_at r (pre @ units cp) us"
    and "if isHighSurrogate u then \<exists>d. aget (r_text r) (int (length pre) + 1) = Some d \<and> toCodePoint u d = cp
         else u = cp"
  using assms(2)
proof (cases rule: units_cases)
  case bmp
  with assms(1) have t: "text_at r pre (cp # us)" by simp
  show thesis using that [of cp] bmp text_at_get [OF t] t by (simp add: text_at_def)
next
  case (sup h l)
  with assms(1) have t: "text_at r pre (h # l # us)" by simp
  show thesis using that [of h] sup text_at_get [OF t] text_at_get1 [OF t] t by (simp add: text_at_def)
qed

lemma unit_less:
  assumes "text_at r pre (units cp @ us)"
  shows "int (length pre) < r_used r" "int (length pre) < int (length (r_text r))"
proof -
  have "0 < length (units cp)" by simp
  then show "int (length pre) < r_used r" "int (length pre) < int (length (r_text r))"
    using assms by (auto simp: text_at_def simp del: units_nonempty length_greater_0_conv)
qed

lemma skip_combining_zs:
  assumes "\<forall>z \<in> set zs. scalar z \<and> width z = 0"
    and "us = [] \<or> (\<exists>b vs. us = units b @ vs \<and> scalar b \<and> 0 < width b)"
  shows "text_at r pre (concat (map units zs) @ us) \<Longrightarrow>
    skip_combining r (int (length pre)) = Some (int (length (pre @ concat (map units zs))))"
  using assms(1)
proof (induction zs arbitrary: pre)
  case Nil
  from assms(2) show ?case
  proof
    assume "us = []"
    with Nil(1) show ?thesis by (subst skip_combining.simps) (simp add: text_at_used)
  next
    assume "\<exists>b vs. us = units b @ vs \<and> scalar b \<and> 0 < width b"
    then obtain b vs where b: "us = units b @ vs" "scalar b" "0 < width b" by blast
    with Nil(1) have t: "text_at r pre (units b @ vs)" by simp
    from unit_at [OF t b(2)] obtain u where u: "aget (r_text r) (int (length pre)) = Some u"
      "if isHighSurrogate u then \<exists>d. aget (r_text r) (int (length pre) + 1) = Some d \<and> toCodePoint u d = b
       else u = b" by metis
    then show ?thesis using b(3) unit_less [OF t]
      by (subst skip_combining.simps) (auto split: if_splits)
  qed
next
  case (Cons z zs)
  then have z: "scalar z" "width z = 0" and zs: "\<forall>z \<in> set zs. scalar z \<and> width z = 0" by simp_all
  from Cons(2) have t: "text_at r pre (units z @ (concat (map units zs) @ us))" by simp
  from unit_at [OF t z(1)] obtain u where u: "aget (r_text r) (int (length pre)) = Some u"
      "int (length pre) + (if isHighSurrogate u then 2 else 1) = int (length (pre @ units z))"
      "text_at r (pre @ units z) (concat (map units zs) @ us)"
      "if isHighSurrogate u then \<exists>d. aget (r_text r) (int (length pre) + 1) = Some d \<and> toCodePoint u d = z
       else u = z" by metis
  from Cons(1) [OF u(3) zs]
  have "skip_combining r (int (length pre) + (if isHighSurrogate u then 2 else 1)) =
        Some (int (length (pre @ concat (map units (z # zs)))))" unfolding u(2) by simp
  then show ?case using u(1,4) z(2) unit_less [OF t]
    by (subst skip_combining.simps) (auto split: if_splits)
qed

lemma enc_hd: "list_all cell_ok cs \<Longrightarrow> enc cs = [] \<or> hd (enc cs) \<noteq> VS16"
proof (cases cs)
  case (Cons c cs')
  assume "list_all cell_ok cs"
  with Cons have "scalar (fst c)" "fst c \<noteq> VS16" by (auto simp: cell_ok_def)
  then show ?thesis using Cons units_hd_VS16 [of "fst c"] by (simp add: enc_cell_def)
qed simp

lemma enc_starts: "list_all cell_ok cs \<Longrightarrow> enc cs = [] \<or> (\<exists>b vs. enc cs = units b @ vs \<and> scalar b \<and> 0 < width b)"
  by (cases cs) (auto simp: enc_cell_def cell_ok_def)

lemma find_loop_zs:
  "text_at r pre (concat (map units zs) @ us) \<Longrightarrow> \<forall>z \<in> set zs. scalar z \<and> width z = 0 \<Longrightarrow>
   find_loop column r k (int (length pre)) = find_loop column r k (int (length (pre @ concat (map units zs))))"
proof (induction zs arbitrary: pre)
  case (Cons z zs)
  then have z: "scalar z" "width z = 0" and zs: "\<forall>z \<in> set zs. scalar z \<and> width z = 0" by simp_all
  from Cons(2) have t: "text_at r pre (units z @ (concat (map units zs) @ us))" by simp
  from unit_at [OF t z(1)] obtain u where u: "aget (r_text r) (int (length pre)) = Some u"
      "int (length pre) + (if isHighSurrogate u then 2 else 1) = int (length (pre @ units z))"
      "text_at r (pre @ units z) (concat (map units zs) @ us)" by metis
  have "find_loop column r k (int (length pre)) = find_loop column r k (int (length (pre @ units z)))"
    using u(1,2) z(2) unit_less [OF t] cellWidth_at [OF t z(1)]
    by (subst find_loop.simps) (simp add: Let_def)
  also have "\<dots> = find_loop column r k (int (length ((pre @ units z) @ concat (map units zs))))"
    by (rule Cons(1) [OF u(3) zs])
  finally show ?case by simp
qed simp

lemma wide_loop_zs:
  "text_at r pre (concat (map units zs) @ us) \<Longrightarrow> \<forall>z \<in> set zs. scalar z \<and> width z = 0 \<Longrightarrow>
   wide_loop column r k (int (length pre)) = wide_loop column r k (int (length (pre @ concat (map units zs))))"
proof (induction zs arbitrary: pre)
  case (Cons z zs)
  then have z: "scalar z" "width z = 0" and zs: "\<forall>z \<in> set zs. scalar z \<and> width z = 0" by simp_all
  from Cons(2) have t: "text_at r pre (units z @ (concat (map units zs) @ us))" by simp
  from unit_at [OF t z(1)] obtain u where u: "aget (r_text r) (int (length pre)) = Some u"
      "int (length pre) + (if isHighSurrogate u then 2 else 1) = int (length (pre @ units z))"
      "text_at r (pre @ units z) (concat (map units zs) @ us)" by metis
  have "wide_loop column r k (int (length pre)) = wide_loop column r k (int (length (pre @ units z)))"
    using u(1,2) z(2) unit_less [OF t] cellWidth_at [OF t z(1)]
    by (subst wide_loop.simps) (simp add: Let_def)
  also have "\<dots> = wide_loop column r k (int (length ((pre @ units z) @ concat (map units zs))))"
    by (rule Cons(1) [OF u(3) zs])
  finally show ?case by simp
qed simp

text \<open>One cell of the two column loops.\<close>

lemma find_loop_cell:
  assumes t: "text_at r pre (enc_cell c @ enc cs)" and ok: "list_all cell_ok (c # cs)"
  shows "find_loop column r k (int (length pre)) =
    (if k + cw c = column then Some (int (length (pre @ enc_cell c)))
     else if column < k + cw c then Some (int (length pre))
     else find_loop column r (k + cw c) (int (length (pre @ enc_cell c))))"
proof -
  let ?zs = "concat (map units (snd c))"
  from ok have c: "scalar (fst c)" "\<forall>z \<in> set (snd c). scalar z \<and> width z = 0" "cell_ok c"
    and cs: "list_all cell_ok cs" by (simp_all add: cell_ok_def)
  have t1: "text_at r pre (units (fst c) @ (?zs @ enc cs))" using t by (simp add: enc_cell_def)
  from unit_at [OF t1 c(1)] obtain u where u: "aget (r_text r) (int (length pre)) = Some u"
      "int (length pre) + (if isHighSurrogate u then 2 else 1) = int (length (pre @ units (fst c)))"
      "text_at r (pre @ units (fst c)) (?zs @ enc cs)" by metis
  have w: "cellWidth (int (length pre)) r = Some (cw c)"
    by (rule cellWidth_base [OF t c(3) enc_hd [OF cs]])
  have s: "skip_combining r (int (length (pre @ units (fst c)))) = Some (int (length (pre @ enc_cell c)))"
    using skip_combining_zs [OF c(2) enc_starts [OF cs] u(3)] by (simp add: enc_cell_def)
  have n: "find_loop column r k' (int (length (pre @ units (fst c)))) =
    find_loop column r k' (int (length (pre @ enc_cell c)))" for k'
    using find_loop_zs [OF u(3) c(2)] by (simp add: enc_cell_def)
  have "0 < cw c" using cw_pos [OF c(3)] by simp
  then show ?thesis
    using unit_less [OF t1]
      s [folded u(2)] n [folded u(2)] u(1)
    by (subst find_loop.simps; cases "isHighSurrogate u") (simp_all add: w Let_def del: aget_int)
qed

lemma wide_loop_cell:
  assumes t: "text_at r pre (enc_cell c @ enc cs)" and ok: "list_all cell_ok (c # cs)"
  shows "wide_loop column r k (int (length pre)) =
    (if k = column \<and> cw c = 2 then Some True
     else if column < k + cw c then Some False
     else wide_loop column r (k + cw c) (int (length (pre @ enc_cell c))))"
proof -
  let ?zs = "concat (map units (snd c))"
  from ok have c: "scalar (fst c)" "\<forall>z \<in> set (snd c). scalar z \<and> width z = 0" "cell_ok c"
    and cs: "list_all cell_ok cs" by (simp_all add: cell_ok_def)
  have t1: "text_at r pre (units (fst c) @ (?zs @ enc cs))" using t by (simp add: enc_cell_def)
  from unit_at [OF t1 c(1)] obtain u where u: "aget (r_text r) (int (length pre)) = Some u"
      "int (length pre) + (if isHighSurrogate u then 2 else 1) = int (length (pre @ units (fst c)))"
      "text_at r (pre @ units (fst c)) (?zs @ enc cs)" by metis
  have w: "cellWidth (int (length pre)) r = Some (cw c)"
    by (rule cellWidth_base [OF t c(3) enc_hd [OF cs]])
  have n: "wide_loop column r k' (int (length (pre @ units (fst c)))) =
    wide_loop column r k' (int (length (pre @ enc_cell c)))" for k'
    using wide_loop_zs [OF u(3) c(2)] by (simp add: enc_cell_def)
  have "0 < cw c" using cw_pos [OF c(3)] by simp
  then show ?thesis
    using unit_less [OF t1]
      n [folded u(2)] u(1)
    by (subst wide_loop.simps; cases "isHighSurrogate u") (simp_all add: w Let_def del: aget_int)
qed

lemma find_loop_cells:
  "text_at r pre (enc (xs @ c # ys)) \<Longrightarrow> list_all cell_ok (xs @ c # ys) \<Longrightarrow>
   k + cws xs \<le> column \<Longrightarrow> column < k + cws xs + cw c \<Longrightarrow>
   find_loop column r k (int (length pre)) = Some (int (length (pre @ enc xs)))"
proof (induction xs arbitrary: pre k)
  case Nil
  then show ?case using find_loop_cell [of r pre c ys column k] by simp
next
  case (Cons x xs)
  have t: "text_at r pre (enc_cell x @ enc (xs @ c # ys))" and ok: "list_all cell_ok (x # (xs @ c # ys))"
    using Cons.prems by simp_all
  have t2: "text_at r (pre @ enc_cell x) (enc (xs @ c # ys))" using t by (simp add: text_at_def)
  have xs: "list_all cell_ok xs" using ok by simp
  show ?case
  proof (cases "k + cw x = column")
    case True
    with Cons.prems(3) cws_length [OF xs] have "xs = []" by (cases xs) auto
    then show ?thesis using find_loop_cell [OF t ok, of column k] True by simp
  next
    case False
    with Cons.prems(3) cws_nonneg [OF xs] have "\<not> column < k + cw x" by simp
    then show ?thesis
      using find_loop_cell [OF t ok, of column k] False Cons.IH [OF t2, of "k + cw x"] Cons.prems(2-4)
      by (simp add: add.assoc)
  qed
qed

lemma wide_loop_cells:
  "text_at r pre (enc (xs @ c # ys)) \<Longrightarrow> list_all cell_ok (xs @ c # ys) \<Longrightarrow>
   k + cws xs \<le> column \<Longrightarrow> column < k + cws xs + cw c \<Longrightarrow>
   wide_loop column r k (int (length pre)) = Some (k + cws xs = column \<and> cw c = 2)"
proof (induction xs arbitrary: pre k)
  case Nil
  then show ?case using wide_loop_cell [of r pre c ys column k] by simp
next
  case (Cons x xs)
  have t: "text_at r pre (enc_cell x @ enc (xs @ c # ys))" and ok: "list_all cell_ok (x # (xs @ c # ys))"
    using Cons.prems by simp_all
  have t2: "text_at r (pre @ enc_cell x) (enc (xs @ c # ys))" using t by (simp add: text_at_def)
  have xs: "list_all cell_ok xs" "cell_ok x" using ok by simp_all
  have "\<not> column < k + cw x" "k \<noteq> column" using Cons.prems(3) cws_nonneg [OF xs(1)] cw_pos [OF xs(2)] by simp_all
  then show ?case
    using wide_loop_cell [OF t ok, of column k] Cons.IH [OF t2, of "k + cw x"] Cons.prems(2-4)
    by (simp add: add.assoc)
qed

lemma wide_loop_beyond:
  "text_at r pre (enc cs) \<Longrightarrow> list_all cell_ok cs \<Longrightarrow> k + cws cs \<le> column \<Longrightarrow>
   wide_loop column r k (int (length pre)) = Some False"
proof (induction cs arbitrary: pre k)
  case Nil
  then show ?case by (subst wide_loop.simps) (simp add: text_at_used)
next
  case (Cons x xs)
  have t: "text_at r pre (enc_cell x @ enc xs)" and ok: "list_all cell_ok (x # xs)"
    using Cons.prems by simp_all
  have t2: "text_at r (pre @ enc_cell x) (enc xs)" using t by (simp add: text_at_def)
  have xs: "list_all cell_ok xs" "cell_ok x" using ok by simp_all
  have "\<not> column < k + cw x" "k \<noteq> column" using Cons.prems(3) cws_nonneg [OF xs(1)] cw_pos [OF xs(2)] by simp_all
  then show ?case
    using wide_loop_cell [OF t ok, of column k] Cons.IH [OF t2, of "k + cw x"] Cons.prems(2-3)
    by (simp add: add.assoc)
qed

end
