(* ===== verification/RowStore.thy ===== *)
theory RowStore
  imports RowCells
begin

text \<open>
  The cell-level meaning of \<^const>\<open>row_store\<close> and \<^const>\<open>row_setChar\<close>: shifting the
  units of the text replaces one cell, fills the uncovered half of a wide
  character and removes the column that a wide character covers.
\<close>

section \<open>Moving units\<close>

lemma arraycopy_gap:
  assumes "dst = A @ B" and "n = int (length Q)" and "length A = nat dp" and "0 \<le> dp" and "length Q \<le> length B"
    and "src = S @ Q @ T" and "sp = int (length S)"
  shows "arraycopy src sp dst dp n = Some (A @ Q @ drop (length Q) B)"
  using assms by (auto simp: arraycopy_def nat_add_distrib)

lemma row_shift_ok:
  assumes t: "text_at r P (U @ Q)" and "0 \<le> new" and "new - int (length U) \<le> r_columns r" and "0 \<le> r_columns r"
  shows "\<exists>G J. row_shift (int (length P)) (int (length U)) new r = Some (P @ G @ Q @ J) \<and>
    int (length G) = new \<and> (int (length U) \<le> new \<longrightarrow> take (length U) G = U)"
proof -
  from t obtain J where J: "r_text r = P @ U @ Q @ J" and used: "r_used r = int (length P + length U + length Q)"
    by (auto simp: text_at_def)
  define d where "d = nat new"
  have d: "new = int d" using assms(2) by (simp add: d_def)
  consider (grow) "length U < d" "int (length (r_text r)) < r_used r + (new - int (length U))"
    | (right) "length U < d" "\<not> int (length (r_text r)) < r_used r + (new - int (length U))"
    | (left) "d < length U" | (same) "d = length U" by linarith
  then show ?thesis
  proof cases
    case grow
    define z where "z = replicate (length (r_text r) + nat (r_columns r)) (0 :: int)"
    define a where "a = P @ U @ drop (length P + length U) z"
    have lz: "length z = length (r_text r) + nat (r_columns r)" by (simp add: z_def)
    have room: "d - length U + length (r_text r) \<le> length z"
      using assms(3,4) d grow(1) lz by (simp add: nat_le_iff)
    have a: "arraycopy (r_text r) 0 z 0 (int (length P) + int (length U)) = Some a"
      using arraycopy_gap [of z "[]" z _ "P @ U" 0 "r_text r" "[]" "Q @ J" 0] lz
      by (simp add: a_def J)
    have len: "length a = length z" using length_arraycopy [OF a] .
    define B where "B = drop (length P + d) a"
    have split: "a = (P @ U @ take (d - length U) (drop (length P + length U) z)) @ B"
      using grow(1) by (simp add: a_def B_def append_take_drop_id drop_drop [symmetric] del: drop_drop)
    let ?G = "U @ take (d - length U) (drop (length P + length U) z)"
    have G: "length ?G = d" using room grow(1) lz J by simp
    have "length Q \<le> length B" using room len J grow(1) by (simp add: B_def)
    then have "arraycopy (r_text r) (int (length P) + int (length U)) a (int (length P) + new)
        (r_used r - (int (length P) + int (length U))) = Some ((P @ ?G) @ Q @ drop (length Q) B)"
      using G split J used d
      by (intro arraycopy_gap [of a "P @ ?G" B _ Q _ "r_text r" "P @ U" J])
         (simp_all add: nat_add_distrib)
    then have h: "row_shift (int (length P)) (int (length U)) new r = Some (P @ ?G @ Q @ drop (length Q) B)"
      unfolding row_shift_def using grow d a by (simp add: z_def Let_def)
    show ?thesis by (rule exI [of _ ?G], rule exI [of _ "drop (length Q) B"]) (use h G d in simp)
  next
    case right
    let ?G = "U @ take (d - length U) (Q @ J)"
    define B where "B = drop (d - length U) (Q @ J)"
    have G: "length ?G = d" using right d used J by simp
    have split: "r_text r = (P @ ?G) @ B" by (simp add: J B_def del: take_append drop_append)
    have "length Q \<le> length B" using right d used J by (simp add: B_def)
    then have "arraycopy (r_text r) (int (length P) + int (length U)) (r_text r) (int (length P) + new)
        (r_used r - (int (length P) + int (length U))) = Some ((P @ ?G) @ Q @ drop (length Q) B)"
      using G used d J
      by (intro arraycopy_gap [OF split, of _ Q _ "r_text r" "P @ U" J])
         (simp_all add: nat_add_distrib del: take_append)
    then have h: "row_shift (int (length P)) (int (length U)) new r = Some (P @ ?G @ Q @ drop (length Q) B)"
      unfolding row_shift_def using right d by (simp add: Let_def)
    show ?thesis by (rule exI [of _ ?G], rule exI [of _ "drop (length Q) B"]) (use h G d in simp)
  next
    case left
    let ?B = "drop d U @ Q @ J"
    have "arraycopy (r_text r) (int (length P) + int (length U)) (r_text r) (int (length P) + new)
        (r_used r - (int (length P) + int (length U))) = Some ((P @ take d U) @ Q @ drop (length Q) ?B)"
      using left J used d
      by (intro arraycopy_gap [of _ "P @ take d U" ?B _ Q _ "r_text r" "P @ U" J]) (simp_all add: nat_add_distrib)
    then have h: "row_shift (int (length P)) (int (length U)) new r = Some (P @ take d U @ Q @ drop (length Q) ?B)"
      unfolding row_shift_def using left d by (simp add: Let_def)
    show ?thesis by (rule exI [of _ "take d U"], rule exI [of _ "drop (length Q) ?B"]) (use h left d in simp)
  next
    case same
    then have h: "row_shift (int (length P)) (int (length U)) new r = Some (P @ U @ Q @ J)"
      unfolding row_shift_def using d J by (simp add: Let_def)
    show ?thesis by (rule exI [of _ U], rule exI [of _ J]) (use h same d in simp)
  qed
qed

lemma toChars_ok:
  assumes "is_cp cp" and "int (length B) = charCount cp" and "i = int (length A)"
  shows "toChars cp (A @ B @ C) i = Some (A @ units cp @ C)"
proof (cases "0x10000 \<le> cp")
  case True
  with assms(2) obtain x y where B: "B = [x, y]"
    by (auto simp: charCount_def numeral_2_eq_2 length_Suc_conv)
  have a: "aset (A @ B @ C) (i + 1) v = Some (A @ x # v # C)" for v
    using assms(3) by (simp add: aset_def B nat_add_distrib list_update_append)
  show ?thesis using assms(1,3) True a by (simp add: toChars_def units_def list_update_append)
next
  case False
  with assms(2) obtain x where B: "B = [x]"
    by (auto simp: charCount_def length_Suc_conv)
  show ?thesis using assms(1,3) False B by (simp add: toChars_def units_def list_update_append)
qed

lemma text_at_upd:
  "text_at (r\<lparr>r_text := P @ us @ J, r_used := int (length (P @ us))\<rparr>) P us"
  by (simp add: text_at_def)

lemma row_fill_half_ok:
  assumes t: "text_at r P Q" and "r_used r < 32767" and "1 \<le> r_columns r"
  shows "\<exists>J. row_fill_half (int (length P)) r = Some (r\<lparr>r_text := P @ (32 # Q) @ J, r_used := int (length (P @ 32 # Q))\<rparr>)"
proof -
  from t obtain J where J: "r_text r = P @ Q @ J" and used: "r_used r = int (length P + length Q)"
    by (auto simp: text_at_def)
  have s: "jshort (r_used r + 1) = int (length (P @ 32 # Q))"
    using used assms(2) by (subst jshort_id) simp_all
  have "\<exists>x J'. (if int (length (r_text r)) < r_used r + 1 then do {
                a \<leftarrow> arraycopy (r_text r) 0 (replicate (length (r_text r) + nat (r_columns r)) 0) 0 (int (length P));
                arraycopy (r_text r) (int (length P)) a (int (length P) + 1) (r_used r - int (length P)) }
              else arraycopy (r_text r) (int (length P)) (r_text r) (int (length P) + 1) (r_used r - int (length P)))
        = Some (P @ x # Q @ J')"
  proof (cases "int (length (r_text r)) < r_used r + 1")
    case True
    with J used have [simp]: "J = []" by simp
    define z where "z = replicate (length (r_text r) + nat (r_columns r)) (0 :: int)"
    have lz: "length (r_text r) + 1 \<le> length z" using assms(3) by (simp add: z_def)
    have a: "arraycopy (r_text r) 0 z 0 (int (length P)) = Some (P @ drop (length P) z)"
      using arraycopy_gap [of z "[]" z _ P 0 "r_text r" "[]" Q 0] lz J by simp
    obtain x B where B: "drop (length P) z = x # B" using lz J by (cases "drop (length P) z") auto
    have "Suc (length B) = length z - length P" using B by (metis length_Cons length_drop)
    then have "length Q \<le> length B" using lz J by simp
    then have "arraycopy (r_text r) (int (length P)) (P @ drop (length P) z) (int (length P) + 1)
        (r_used r - int (length P)) = Some ((P @ [x]) @ Q @ drop (length Q) B)"
      using B J used by (intro arraycopy_gap [of _ "P @ [x]" B _ Q _ _ P "[]"]) (simp_all add: nat_add_distrib)
    with True a show ?thesis by (auto simp: z_def)
  next
    case False
    with J used obtain x B where B: "Q @ J = x # B" by (cases "Q @ J") auto
    have "length Q \<le> length B" using B False J used
      by (metis (no_types) length_append length_Cons add.commute add_Suc_right le_add1 not_less_eq_eq of_nat_less_iff
          of_nat_Suc of_nat_add not_le add_less_cancel_left less_Suc_eq_le)
    then have "arraycopy (r_text r) (int (length P)) (r_text r) (int (length P) + 1)
        (r_used r - int (length P)) = Some ((P @ [x]) @ Q @ drop (length Q) B)"
      using B J used by (intro arraycopy_gap [of _ "P @ [x]" B _ Q _ _ P J]) (simp_all add: nat_add_distrib)
    with False show ?thesis by auto
  qed
  then obtain x J' where h: "(if int (length (r_text r)) < r_used r + 1 then do {
                a \<leftarrow> arraycopy (r_text r) 0 (replicate (length (r_text r) + nat (r_columns r)) 0) 0 (int (length P));
                arraycopy (r_text r) (int (length P)) a (int (length P) + 1) (r_used r - int (length P)) }
              else arraycopy (r_text r) (int (length P)) (r_text r) (int (length P) + 1) (r_used r - int (length P)))
        = Some (P @ x # Q @ J')" by blast
  show ?thesis unfolding row_fill_half_def Let_def h
    using s by (auto simp: list_update_append)
qed

lemma row_eat_next_ok:
  assumes t: "text_at r P (units b @ Q)" and "scalar b" and "col < r_columns r - 2" and "r_used r \<le> 32767"
  shows "\<exists>J. row_eat_next col (int (length P)) r = Some (r\<lparr>r_text := P @ Q @ J, r_used := int (length (P @ Q))\<rparr>)"
proof -
  from t obtain J where J: "r_text r = P @ units b @ Q @ J"
    and used: "r_used r = int (length P + length (units b) + length Q)"
    by (auto simp: text_at_def)
  from unit_at [OF t assms(2)] obtain u where u: "aget (r_text r) (int (length P)) = Some u"
    "int (length P) + (if isHighSurrogate u then 2 else 1) = int (length (P @ units b))" by metis
  define k :: int where "k = (if isHighSurrogate u then 2 else 1)"
  define J' where "J' = drop (length Q) (units b @ Q @ J)"
  have k: "k = int (length (units b))" using u(2) by (simp add: k_def)
  have "arraycopy (r_text r) (int (length P) + k) (r_text r) (int (length P))
      (r_used r - (int (length P) + k)) = Some (P @ Q @ J')"
    unfolding J'_def k
    using J used by (intro arraycopy_gap [of _ P "units b @ Q @ J" _ Q _ _ "P @ units b" J]) simp_all
  moreover have "jshort (r_used r - k) = int (length (P @ Q))"
    using used assms(4) k by (subst jshort_id) simp_all
  ultimately have "row_eat_next col (int (length P)) r = Some (r\<lparr>r_text := P @ Q @ J', r_used := int (length (P @ Q))\<rparr>)"
    unfolding row_eat_next_def using assms(3) u(1)
    by (simp add: Let_def k_def [symmetric] del: aget_int length_append)
  then show ?thesis by blast
qed

section \<open>Storing a character\<close>

definition narrow :: "cell \<Rightarrow> bool" where
  "narrow c \<longleftrightarrow> snd c = [] \<and> width (fst c) = 1 \<and> fst c < 0x10000"

text \<open>
  The cells that a row encodes. They cover all its columns; as long as no wide,
  combining or supplementary character was stored, there is one unit per column.
\<close>

definition row_rep :: "trow \<Rightarrow> cell list \<Rightarrow> bool" where
  "row_rep r cs \<longleftrightarrow>
     2 \<le> r_columns r \<and> r_columns r \<le> 32767 \<and> r_columns r \<le> int (length (r_text r)) \<and>
     length (r_style r) = nat (r_columns r) \<and>
     (\<forall>l. r_link r = Some l \<longrightarrow> length l = nat (r_columns r)) \<and>
     (\<forall>u. r_ucolor r = Some u \<longrightarrow> length u = nat (r_columns r)) \<and>
     text_at r [] (enc cs) \<and> list_all cell_ok cs \<and> r_columns r \<le> cws cs \<and> r_used r \<le> 32767 \<and>
     (\<not> r_wide r \<longrightarrow> list_all narrow cs \<and> length cs = nat (r_columns r))"

definition row_ok :: "trow \<Rightarrow> bool" where
  "row_ok r \<longleftrightarrow> (\<exists>cs. row_rep r cs)"

lemma rep_find:
  assumes "row_rep r (xs @ c # ys)" and "cws xs \<le> col" and "col < cws xs + cw c" and "col < r_columns r"
  shows "findStartOfColumn col r = Some (int (length (enc xs)))"
  using find_loop_cells [of r "[]" xs c ys 0 col] assms by (simp add: row_rep_def findStartOfColumn_def)

lemma rep_wide:
  assumes "row_rep r (xs @ c # ys)" and "cws xs \<le> col" and "col < cws xs + cw c"
  shows "wideDisplayCharacterStartingAt col r = Some (cws xs = col \<and> cw c = 2)"
  using wide_loop_cells [of r "[]" xs c ys 0 col] assms by (simp add: row_rep_def wideDisplayCharacterStartingAt_def)

lemma rep_wide_beyond:
  assumes "row_rep r cs" and "cws cs \<le> col"
  shows "wideDisplayCharacterStartingAt col r = Some False"
  using wide_loop_beyond [of r "[]" cs 0 col] assms by (simp add: row_rep_def wideDisplayCharacterStartingAt_def)

text \<open>Every column lies in a cell.\<close>

lemma split_column:
  "list_all cell_ok cs \<Longrightarrow> 0 \<le> col \<Longrightarrow> col < cws cs \<Longrightarrow>
   \<exists>xs c ys. cs = xs @ c # ys \<and> cws xs \<le> col \<and> col < cws xs + cw c"
proof (induction cs arbitrary: col)
  case (Cons x cs)
  show ?case
  proof (cases "col < cw x")
    case True
    with Cons.prems show ?thesis by (intro exI [of _ "[]"] exI [of _ x] exI [of _ cs]) simp
  next
    case False
    with Cons.prems Cons.IH [of "col - cw x"] obtain xs c ys where
      "cs = xs @ c # ys" "cws xs \<le> col - cw x" "col - cw x < cws xs + cw c" by auto
    then show ?thesis by (intro exI [of _ "x # xs"] exI [of _ c] exI [of _ ys]) simp
  qed
qed simp

lemma rep_split:
  assumes "row_rep r cs" and "0 \<le> col" and "col < r_columns r"
  obtains xs c ys where "cs = xs @ c # ys" "cws xs \<le> col" "col < cws xs + cw c"
  using assms split_column [of cs col] by (auto simp: row_rep_def)

text \<open>
  The cells after storing \<open>cp\<close> in the cell \<open>c\<close> that starts at the column \<open>cws xs\<close>. When
  that cell reaches the last column, whatever lay behind it goes with it.
\<close>

definition add_mark :: "int \<Rightarrow> cell \<Rightarrow> cell" where
  "add_mark cp c = (fst c, snd c @ [cp])"

definition store_cells :: "int \<Rightarrow> int \<Rightarrow> cell list \<Rightarrow> cell \<Rightarrow> cell list \<Rightarrow> cell list" where
  "store_cells cols cp xs c ys =
     (let inside = cws xs + cw c < cols; ys1 = (if inside then ys else []) in
      if width cp = 0 then
        (if inside then xs @ add_mark cp c # ys
         else xs @ butlast (c # ys) @ [add_mark cp (last (c # ys))])
      else if width cp = 1 then xs @ (cp, []) # (if cw c = 2 then (32, []) # ys1 else ys1)
      else if cw c = 2 then xs @ (cp, []) # ys1
      else if cws xs = cols - 2 then xs @ [(cp, [])]
      else xs @ (cp, snd (hd ys)) # tl ys)"

lemma enc_add_mark [simp]: "enc_cell (add_mark cp c) = enc_cell c @ units cp"
  by (simp add: enc_cell_def add_mark_def)

lemma enc_last_mark: "ys \<noteq> [] \<Longrightarrow> enc (butlast ys @ [add_mark cp (last ys)]) = enc ys @ units cp"
  by (induction ys) auto

lemma enc_plain [simp]: "enc_cell (cp, []) = units cp"
  by (simp add: enc_cell_def)

text \<open>The common part: finding the cell, moving the rest and writing the units.\<close>

lemma row_store_front:
  assumes rep: "row_rep r (xs @ c # ys)" and col: "cws xs < r_columns r" and cp: "scalar cp"
    and room: "r_used r \<le> 32764"
    and inside: "inside = (cws xs + cw c < r_columns r)"
    and U: "U = enc (c # (if inside then [] else ys))" and Q: "Q = enc (if inside then ys else [])"
    and N: "N = (if width cp \<le> 0 then U @ units cp else units cp)"
  shows "\<exists>J. row_store (cws xs) cp r =
    (let r1 = r\<lparr>r_text := enc xs @ (N @ Q) @ J, r_used := int (length (enc xs @ N @ Q))\<rparr> in
     if cw c = 2 \<and> width cp = 1 then row_fill_half (int (length (enc xs @ N))) r1
     else if cw c = 1 \<and> width cp = 2 then row_eat_next (cws xs) (int (length (enc xs @ N))) r1
     else Some r1)"
proof -
  let ?P = "enc xs"
  from rep have cells: "list_all cell_ok (xs @ c # ys)" and cols: "2 \<le> r_columns r" "r_columns r \<le> cws (xs @ c # ys)"
    and t: "text_at r [] (enc (xs @ c # ys))" by (simp_all add: row_rep_def)
  have c: "cell_ok c" and ys: "list_all cell_ok ys" using cells by simp_all
  have cwc: "1 \<le> cw c" "cw c \<le> 2" using cw_pos [OF c] by simp_all
  have tc: "text_at r ?P (enc_cell c @ enc ys)" using t text_at_app [of r "[]" ?P] by simp
  have tU: "text_at r ?P (U @ Q)" using tc by (simp add: U Q)
  have used: "r_used r = int (length ?P + length U + length Q)" using tU by (simp add: text_at_def)
  have find: "findStartOfColumn (cws xs) r = Some (int (length ?P))"
    using rep_find [OF rep, of "cws xs"] cwc col by simp
  have w: "cellWidth (int (length ?P)) r = Some (cw c)"
    by (rule cellWidth_base [OF tc c enc_hd [OF ys]])
  have lt: "int (length ?P) < r_used r" using tc by (simp add: text_at_used)
  have old: "(if cws xs + cw c < r_columns r then do {
                e \<leftarrow> findStartOfColumn (cws xs + cw c) r; Some (e - int (length ?P)) }
             else Some (r_used r - int (length ?P))) = Some (int (length U))"
  proof (cases inside)
    case True
    with cols inside have "ys \<noteq> []" by (cases ys) auto
    then obtain y ys' where y: "ys = y # ys'" by (cases ys) auto
    with ys have "1 \<le> cw y" using cw_pos by auto
    then have "findStartOfColumn (cws xs + cw c) r = Some (int (length (enc (xs @ [c]))))"
      using rep_find [of r "xs @ [c]" y ys' "cws xs + cw c"] rep y True inside by simp
    with True inside show ?thesis by (simp add: U)
  next
    case False
    with inside used show ?thesis by (simp add: Q)
  qed
  define new where "new = charCount cp + (if width cp \<le> 0 then int (length U) else 0)"
  have cc: "charCount cp = int (length (units cp))" "1 \<le> charCount cp" "charCount cp \<le> 2"
    by (simp_all add: length_units) (simp_all add: charCount_def)
  have new: "new = int (length N)" using cc(1) by (simp add: new_def N)
  have "\<exists>G J. row_shift (int (length ?P)) (int (length U)) new r = Some (?P @ G @ Q @ J) \<and>
    int (length G) = new \<and> (int (length U) \<le> new \<longrightarrow> take (length U) G = U)"
  proof (rule row_shift_ok [OF tU])
    show "0 \<le> new" "0 \<le> r_columns r" using new cols(1) by simp_all
    show "new - int (length U) \<le> r_columns r" using cc(3) cols(1) by (simp add: new_def)
  qed
  then obtain G J where G: "row_shift (int (length ?P)) (int (length U)) new r = Some (?P @ G @ Q @ J)"
    "int (length G) = new" "int (length U) \<le> new \<longrightarrow> take (length U) G = U" by blast
  define A where "A = (if width cp \<le> 0 then U else [])"
  define B where "B = drop (length A) G"
  have "take (length A) G = A" using G(2,3) cc(2) by (auto simp: A_def new_def)
  then have GA: "G = A @ B" unfolding B_def by (metis append_take_drop_id)
  have "int (length B) = charCount cp" using G(2) cc(2)
    by (cases "width cp \<le> 0") (simp_all add: B_def A_def new_def)
  then have "toChars cp ((?P @ A) @ B @ (Q @ J)) (int (length (?P @ A))) = Some ((?P @ A) @ units cp @ (Q @ J))"
    using cp by (intro toChars_ok) (simp_all add: scalar_def)
  then have tch: "toChars cp (?P @ G @ Q @ J) (int (length ?P) + (if width cp \<le> 0 then int (length U) else 0))
      = Some (?P @ (N @ Q) @ J)"
    unfolding GA A_def N by (cases "width cp \<le> 0") simp_all
  have ju: "jshort (r_used r + (new - int (length U))) = int (length (?P @ N @ Q))"
  proof -
    have "r_used r + (new - int (length U)) = int (length (?P @ N @ Q))" using used new by simp
    moreover have "new - int (length U) \<le> 2" using cc by (simp add: new_def)
    ultimately show ?thesis using room by (subst jshort_id) simp_all
  qed
  have sn: "int (length ?P) + new = int (length (?P @ N))" using new by simp
  show ?thesis
    unfolding row_store_def Let_def
    by (intro exI [of _ J])
       (simp only: find bind.bind_lunit lt w old new_def [symmetric] G(1) tch ju sn if_True row_neighbour_def)
qed

lemma row_store_cells:
  assumes rep: "row_rep r (xs @ c # ys)" and col: "cws xs < r_columns r" and cp: "scalar cp"
    and room: "r_used r \<le> 32764"
    and wide: "width cp = 2 \<Longrightarrow> cws xs < r_columns r - 1 \<and> (cw c = 1 \<longrightarrow> cws xs < r_columns r - 2 \<longrightarrow> cell_ok (hd ys))"
  shows "\<exists>T U. row_store (cws xs) cp r = Some (r\<lparr>r_text := T, r_used := U\<rparr>) \<and> U \<le> r_used r + 3 \<and>
    text_at (r\<lparr>r_text := T, r_used := U\<rparr>) [] (enc (store_cells (r_columns r) cp xs c ys))"
proof -
  let ?P = "enc xs" and ?cells = "store_cells (r_columns r) cp xs c ys"
  define inside where "inside = (cws xs + cw c < r_columns r)"
  define U where "U = enc (c # (if inside then [] else ys))"
  define Q where "Q = enc (if inside then ys else [])"
  define N where "N = (if width cp \<le> 0 then U @ units cp else units cp)"
  from rep have ok: "list_all cell_ok (xs @ c # ys)" and cols: "2 \<le> r_columns r" "r_columns r \<le> cws (xs @ c # ys)"
    and used: "r_used r = int (length (enc (xs @ c # ys)))" by (simp_all add: row_rep_def text_at_def)
  have c: "cell_ok c" using ok by simp
  have cwc: "cw c = 1 \<or> cw c = 2" using cw_pos [OF c] by auto
  have lenc: "charCount cp = int (length (units cp))" "charCount cp \<le> 2"
    by (simp_all add: length_units) (simp add: charCount_def)
  have lU: "int (length (enc xs @ N @ Q)) \<le> r_used r + 2"
    using lenc used by (cases inside) (auto simp: N_def U_def Q_def)
  obtain J where st: "row_store (cws xs) cp r =
    (let r1 = r\<lparr>r_text := enc xs @ (N @ Q) @ J, r_used := int (length (enc xs @ N @ Q))\<rparr> in
     if cw c = 2 \<and> width cp = 1 then row_fill_half (int (length (enc xs @ N))) r1
     else if cw c = 1 \<and> width cp = 2 then row_eat_next (cws xs) (int (length (enc xs @ N))) r1
     else Some r1)"
    using row_store_front [OF rep col cp room inside_def U_def Q_def N_def] by blast
  define r1 where "r1 = r\<lparr>r_text := enc xs @ (N @ Q) @ J, r_used := int (length (enc xs @ N @ Q))\<rparr>"
  have t1: "text_at r1 (enc xs @ N) Q" by (simp add: r1_def text_at_def)
  have t0: "text_at r1 [] (enc xs @ N @ Q)" by (simp add: r1_def text_at_def)
  show ?thesis
  proof (cases "cw c = 2 \<and> width cp = 1")
    case True
    have "r_used r1 < 32767" "1 \<le> r_columns r1" using lU room cols(1) by (simp_all add: r1_def)
    from row_fill_half_ok [OF t1 this] obtain J' where
      f: "row_fill_half (int (length (enc xs @ N))) r1 =
        Some (r1\<lparr>r_text := (enc xs @ N) @ (32 # Q) @ J', r_used := int (length ((enc xs @ N) @ 32 # Q))\<rparr>)" by blast
    have e: "enc ?cells = (enc xs @ N) @ 32 # Q"
      using True by (simp add: store_cells_def Let_def N_def Q_def inside_def units_def)
    show ?thesis
      using st True f lU e
      by (intro exI [of _ "(enc xs @ N) @ (32 # Q) @ J'"] exI [of _ "int (length ((enc xs @ N) @ 32 # Q))"])
         (simp add: r1_def text_at_def)
  next
    case F: False
    show ?thesis
    proof (cases "cw c = 1 \<and> width cp = 2")
      case False
      have e: "enc ?cells = enc xs @ N @ Q"
      proof (cases "width cp = 0")
        case True
        show ?thesis
        proof (cases inside)
          case i: True
          then show ?thesis using True by (simp add: store_cells_def Let_def N_def U_def Q_def inside_def)
        next
          case i: False
          have "enc (butlast (c # ys) @ [add_mark cp (last (c # ys))]) = enc (c # ys) @ units cp"
            by (rule enc_last_mark) simp
          with i True show ?thesis by (simp add: store_cells_def Let_def N_def U_def Q_def inside_def)
        qed
      next
        case n: False
        then show ?thesis using F False cwc width_cases [of cp]
          by (auto simp: store_cells_def Let_def N_def U_def Q_def inside_def)
      qed
      then show ?thesis using st F False t0 lU
        by (intro exI [of _ "enc xs @ (N @ Q) @ J"] exI [of _ "int (length (enc xs @ N @ Q))"])
           (simp add: r1_def)
    next
      case True
      with wide have w: "cws xs < r_columns r - 1"
        "cws xs < r_columns r - 2 \<longrightarrow> cell_ok (hd ys)" by simp_all
      have N2: "N = units cp" using True by (simp add: N_def)
      show ?thesis
      proof (cases "cws xs = r_columns r - 2")
        case last: True
        have e: "enc ?cells = enc xs @ N" using True last by (simp add: store_cells_def Let_def N2)
        have "int (length (enc xs @ N)) \<le> int (length (enc xs @ N @ Q))" by simp
        with lU room have "jshort (int (length (enc xs @ N))) = int (length (enc xs @ N))"
          by (subst jshort_id) simp_all
        then show ?thesis using st True last e lU
          by (intro exI [of _ "enc xs @ (N @ Q) @ J"] exI [of _ "int (length (enc xs @ N))"])
             (simp add: row_eat_next_def text_at_def)
      next
        case mid: False
        with w have m: "cws xs < r_columns r - 2" "cell_ok (hd ys)" by simp_all
        with True have i: inside by (simp add: inside_def)
        with cols inside_def have "ys \<noteq> []" by (cases ys) auto
        then obtain b zs ys' where y: "ys = (b, zs) # ys'" by (cases ys) auto
        define Q' where "Q' = concat (map units zs) @ enc ys'"
        have Q': "Q = units b @ Q'" using i y by (simp add: Q_def Q'_def enc_cell_def)
        have b: "scalar b" using m(2) y by (simp add: cell_ok_def)
        have "text_at r1 (enc xs @ N) (units b @ Q')" using t1 by (simp only: Q')
        from row_eat_next_ok [OF this b, of "cws xs"] obtain J' where
          f: "row_eat_next (cws xs) (int (length (enc xs @ N))) r1 =
            Some (r1\<lparr>r_text := (enc xs @ N) @ Q' @ J', r_used := int (length ((enc xs @ N) @ Q'))\<rparr>)"
          using m(1) lU room by (auto simp: r1_def)
        have e: "enc ?cells = (enc xs @ N) @ Q'"
          using True mid y by (simp add: store_cells_def Let_def N2 Q'_def enc_cell_def)
        show ?thesis
          using st True F f e lU Q'
          by (intro exI [of _ "(enc xs @ N) @ Q' @ J'"] exI [of _ "int (length ((enc xs @ N) @ Q'))"])
             (simp add: r1_def text_at_def)
      qed
    qed
  qed
qed

text \<open>The text array only grows.\<close>

lemma row_shift_length: "row_shift s old new r = Some t \<Longrightarrow> length (r_text r) \<le> length t"
  by (auto simp: row_shift_def Let_def bind_eq_Some_conv split: if_splits dest!: length_arraycopy)

lemma toChars_length: "toChars cp t i = Some t' \<Longrightarrow> length t' = length t"
  by (auto simp: toChars_def bind_eq_Some_conv split: if_splits dest!: length_aset)

lemma row_fill_half_length: "row_fill_half n r = Some r' \<Longrightarrow> length (r_text r) \<le> length (r_text r')"
  by (auto simp: row_fill_half_def Let_def bind_eq_Some_conv split: if_splits dest!: length_arraycopy length_aset)

lemma row_eat_next_length: "row_eat_next c n r = Some r' \<Longrightarrow> length (r_text r) \<le> length (r_text r')"
  by (auto simp: row_eat_next_def Let_def bind_eq_Some_conv split: if_splits dest!: length_arraycopy)

lemma row_neighbour_length: "row_neighbour o1 n1 c n r = Some r' \<Longrightarrow> length (r_text r) \<le> length (r_text r')"
  by (auto simp: row_neighbour_def split: if_splits dest: row_fill_half_length row_eat_next_length)

lemma row_store_length: "row_store col cp r = Some r' \<Longrightarrow> length (r_text r) \<le> length (r_text r')"
  unfolding row_store_def Let_def bind_eq_Some_conv
  by (elim exE conjE) (drule row_shift_length, drule toChars_length, drule row_neighbour_length, simp)

end
