(* ===== verification/RowSetChar.thy ===== *)
theory RowSetChar
  imports RowStore
begin

text \<open>
  Rows as grids of columns: \<^const>\<open>row_setChar\<close> keeps the row well formed, never
  throws inside the row, and changes the columns as a terminal should.
\<close>

section \<open>Stored rows are well formed\<close>

lemma cell_ok_plain [simp]: "cell_ok (cp, []) \<longleftrightarrow> scalar cp \<and> 0 < width cp"
  by (simp add: cell_ok_def)

lemma cw_plain [simp]: "cw (cp, []) = width cp"
  by (simp add: cw_def)

lemma scalar_space [simp]: "scalar 32"
  by (simp add: scalar_def is_cp_def)

lemma cell_ok_mark: "cell_ok c \<Longrightarrow> scalar cp \<Longrightarrow> width cp = 0 \<Longrightarrow> cell_ok (add_mark cp c)"
  by (auto simp: cell_ok_def add_mark_def)

lemma cw_mark: "cell_ok c \<Longrightarrow> cw c \<le> cw (add_mark cp c)"
  by (cases "snd c") (auto simp: cw_def add_mark_def)

lemma cws_last_mark:
  "ys \<noteq> [] \<Longrightarrow> list_all cell_ok ys \<Longrightarrow> cws ys \<le> cws (butlast ys @ [add_mark cp (last ys)])"
proof (induction ys)
  case (Cons y ys)
  then show ?case using cw_mark [of y cp] by (cases ys) simp_all
qed simp

lemma list_all_last_mark:
  "ys \<noteq> [] \<Longrightarrow> list_all cell_ok ys \<Longrightarrow> scalar cp \<Longrightarrow> width cp = 0 \<Longrightarrow>
   list_all cell_ok (butlast ys @ [add_mark cp (last ys)])"
  by (induction ys) (auto simp: cell_ok_mark)

lemma cell_ok_wide: "cell_ok c \<Longrightarrow> scalar cp \<Longrightarrow> width cp = 2 \<Longrightarrow> cell_ok (cp, snd c)"
  by (simp add: cell_ok_def)

lemma cw_wide: "width cp = 2 \<Longrightarrow> cw (cp, zs) = 2"
  by (simp add: cw_def)

lemma store_cells_ok:
  assumes ok: "list_all cell_ok (xs @ c # ys)" and cols: "cols \<le> cws (xs @ c # ys)" and cp: "scalar cp"
    and col: "cws xs < cols"
    and wide: "width cp = 2 \<Longrightarrow> cws xs < cols - 1 \<and> (cw c = 1 \<longrightarrow> cws xs < cols - 2 \<longrightarrow> cw (hd ys) = 1)"
  shows "list_all cell_ok (store_cells cols cp xs c ys) \<and> cols \<le> cws (store_cells cols cp xs c ys)"
proof -
  have c: "cw c = 1 \<or> cw c = 2" using ok cw_pos [of c] by auto
  consider (0) "width cp = 0" | (1) "width cp = 1" | (2) "width cp = 2" using width_cases [of cp] by blast
  then show ?thesis
  proof cases
    case 0
    have "list_all cell_ok (butlast (c # ys) @ [add_mark cp (last (c # ys))])"
      using ok cp 0 by (intro list_all_last_mark) simp_all
    moreover have "cws (c # ys) \<le> cws (butlast (c # ys) @ [add_mark cp (last (c # ys))])"
      using ok by (intro cws_last_mark) simp_all
    ultimately show ?thesis using ok cols cp 0 cw_mark [of c cp]
      by (auto simp: store_cells_def Let_def cell_ok_mark)
  next
    case 1
    then show ?thesis using ok cols cp col c by (auto simp: store_cells_def Let_def)
  next
    case 2
    note w = wide [OF 2]
    show ?thesis
    proof (cases "cw c = 2 \<or> cws xs = cols - 2")
      case True
      then show ?thesis using 2 ok cols cp col w c by (auto simp: store_cells_def Let_def)
    next
      case False
      with w c have m: "cws xs < cols - 2" "cw (hd ys) = 1" "cw c = 1" by auto
      with cols obtain y ys' where y: "ys = y # ys'" by (cases ys) auto
      have "store_cells cols cp xs c ys = xs @ (cp, snd y) # ys'"
        using False m 2 y by (simp add: store_cells_def Let_def)
      then show ?thesis using ok cols cp 2 m y by (auto simp: cell_ok_wide cw_wide)
    qed
  qed
qed

text \<open>
  The units that a row needs for combining characters, and what a character adds
  to them. The base of a cell takes at most two units more.
\<close>

definition cell_extra :: "cell \<Rightarrow> int" where
  "cell_extra c = int (length (concat (map units (snd c))))"

definition extras :: "cell list \<Rightarrow> int" where
  "extras cs = sum_list (map cell_extra cs)"

definition extra :: "int \<Rightarrow> int" where
  "extra cp = (if width cp = 0 then int (length (units cp)) else 0)"

lemma extras_simps [simp]:
  "extras [] = 0" "extras (c # cs) = cell_extra c + extras cs" "extras (xs @ ys) = extras xs + extras ys"
  by (simp_all add: extras_def)

lemma units_pos: "1 \<le> int (length (units cp))"
  by (simp add: units_def)

lemma cell_extra_nonneg: "0 \<le> cell_extra c"
  by (simp add: cell_extra_def)

lemma extras_nonneg: "0 \<le> extras cs"
  by (induction cs) (simp_all add: cell_extra_nonneg)

lemma extra_nonneg: "0 \<le> extra cp"
  by (simp add: extra_def)

lemma extra_le: "extra cp \<le> 2"
  by (simp add: extra_def units_def)

lemma extra_base: "width cp \<noteq> 0 \<Longrightarrow> extra cp = 0"
  by (simp add: extra_def)

lemma extra_space [simp]: "extra 32 = 0"
  by (simp add: extra_base)

lemma cell_extra_plain: "width cp \<noteq> 0 \<Longrightarrow> cell_extra (cp, []) = extra cp"
  by (simp add: cell_extra_def extra_def)

lemma cell_extra_space [simp]: "cell_extra (32, []) = 0"
  by (simp add: cell_extra_plain)

text \<open>
  Rows whose cells fill their columns exactly, need at most \<open>k\<close> units for combining characters and
  carry no emoji variation selector.
\<close>

definition tight_cells :: "int \<Rightarrow> int \<Rightarrow> cell list \<Rightarrow> bool" where
  "tight_cells cols k cs \<longleftrightarrow> cws cs = cols \<and> list_all (\<lambda>c. VS16 \<notin> set (snd c)) cs \<and> extras cs \<le> k"

lemma cw_flat: "VS16 \<notin> set (snd c) \<Longrightarrow> cw c = width (fst c)"
  by (cases "snd c") (auto simp: cw_def)

lemma cws_last_mark_eq:
  "ys \<noteq> [] \<Longrightarrow> list_all (\<lambda>c. VS16 \<notin> set (snd c)) ys \<Longrightarrow> cp \<noteq> VS16 \<Longrightarrow>
   cws (butlast ys @ [add_mark cp (last ys)]) = cws ys \<and>
   list_all (\<lambda>c. VS16 \<notin> set (snd c)) (butlast ys @ [add_mark cp (last ys)])"
proof (induction ys)
  case (Cons y ys)
  then show ?case using cw_flat [of y] cw_flat [of "add_mark cp y"] by (cases ys) (auto simp: add_mark_def)
qed simp

lemma extras_last_mark:
  "ys \<noteq> [] \<Longrightarrow> extras (butlast ys @ [add_mark cp (last ys)]) = extras ys + int (length (units cp))"
  by (induction ys) (auto simp: cell_extra_def add_mark_def)

lemma store_cells_tight:
  assumes tight: "tight_cells cols k (xs @ c # ys)" and ok: "list_all cell_ok (xs @ c # ys)" and cp: "cp \<noteq> VS16"
    and col: "cws xs < cols"
    and wide: "width cp = 2 \<Longrightarrow> cws xs < cols - 1 \<and> (cw c = 1 \<longrightarrow> cws xs < cols - 2 \<longrightarrow> cw (hd ys) = 1)"
  shows "tight_cells cols (k + extra cp) (store_cells cols cp xs c ys)"
proof -
  have flat: "list_all (\<lambda>c. VS16 \<notin> set (snd c)) (xs @ c # ys)" and sum: "cws xs + cw c + cws ys = cols"
    and ex: "extras xs + cell_extra c + extras ys \<le> k"
    using tight by (simp_all add: tight_cells_def)
  have c: "cw c = 1 \<or> cw c = 2" using ok cw_pos [of c] by auto
  have ys: "0 \<le> cws ys" "ys \<noteq> [] \<Longrightarrow> 0 < cws ys" using ok cws_length [of ys] by (cases ys; auto)+
  note pos = cell_extra_nonneg [of c] extras_nonneg [of ys]
  consider (0) "width cp = 0" | (1) "width cp = 1" | (2) "width cp = 2" using width_cases [of cp] by blast
  then show ?thesis
  proof cases
    case 0
    have "cw (add_mark cp c) = cw c" using flat cp cw_flat [of c] cw_flat [of "add_mark cp c"] by (auto simp: add_mark_def)
    moreover have "extra cp = int (length (units cp))" "cell_extra (add_mark cp c) = cell_extra c + int (length (units cp))"
      using 0 by (simp_all add: extra_def cell_extra_def add_mark_def)
    ultimately show ?thesis using 0 flat sum cp ex cws_last_mark_eq [of "c # ys" cp] extras_last_mark [of "c # ys" cp]
      by (auto simp: store_cells_def Let_def tight_cells_def add_mark_def)
  next
    case 1
    then show ?thesis using flat sum cp c ys ex pos cell_extra_plain [of cp] extra_nonneg [of cp]
      by (cases ys) (auto simp: store_cells_def Let_def tight_cells_def)
  next
    case 2
    note w = wide [OF 2]
    show ?thesis
    proof (cases "cw c = 2 \<or> cws xs = cols - 2")
      case True
      then show ?thesis using 2 flat sum cp w c ys ex pos cell_extra_plain [of cp] extra_nonneg [of cp]
        by (cases ys) (auto simp: store_cells_def Let_def tight_cells_def)
    next
      case False
      with w c have m: "cws xs < cols - 2" "cw (hd ys) = 1" "cw c = 1" by auto
      with sum obtain y zs where y: "ys = y # zs" by (cases ys) auto
      have st: "store_cells cols cp xs c ys = xs @ (cp, snd y) # zs"
        using False m 2 y by (simp add: store_cells_def Let_def)
      have "cell_extra (cp, snd y) \<le> cell_extra y + extra cp"
        using extra_nonneg [of cp] by (simp add: cell_extra_def)
      then have "extras (xs @ (cp, snd y) # zs) \<le> k + extra cp" using ex y pos(1) by simp
      then show ?thesis using flat sum 2 m y st by (simp add: tight_cells_def cw_wide)
    qed
  qed
qed

text \<open>Storing into a well-formed row gives a well-formed row.\<close>

lemma row_store_rep:
  assumes rep: "row_rep r (xs @ c # ys)" and wd: "r_wide r" and col: "cws xs < r_columns r" and cp: "scalar cp"
    and room: "r_used r \<le> 32764"
    and wide: "width cp = 2 \<Longrightarrow> cws xs < r_columns r - 1 \<and> (cw c = 1 \<longrightarrow> cws xs < r_columns r - 2 \<longrightarrow> cw (hd ys) = 1)"
  shows "\<exists>r'. row_store (cws xs) cp r = Some r' \<and> row_rep r' (store_cells (r_columns r) cp xs c ys) \<and>
    r_columns r' = r_columns r \<and> r_wrap r' = r_wrap r \<and> r_style r' = r_style r \<and> r_wide r' \<and> r_used r' \<le> r_used r + 3"
proof -
  from rep have ok: "list_all cell_ok (xs @ c # ys)" and cols: "r_columns r \<le> cws (xs @ c # ys)"
    by (simp_all add: row_rep_def)
  have "cell_ok (hd ys)" if "width cp = 2" "cw c = 1" "cws xs < r_columns r - 2"
    using ok cols that by (cases ys) auto
  then obtain T U where s: "row_store (cws xs) cp r = Some (r\<lparr>r_text := T, r_used := U\<rparr>)" "U \<le> r_used r + 3"
    "text_at (r\<lparr>r_text := T, r_used := U\<rparr>) [] (enc (store_cells (r_columns r) cp xs c ys))"
    using row_store_cells [OF rep col cp room] wide by blast
  have "row_rep (r\<lparr>r_text := T, r_used := U\<rparr>) (store_cells (r_columns r) cp xs c ys)"
    using rep s store_cells_ok [OF ok cols cp col wide] wd room row_store_length [OF s(1)] by (auto simp: row_rep_def)
  with s wd show ?thesis by (intro exI [of _ "r\<lparr>r_text := T, r_used := U\<rparr>"]) simp
qed

section \<open>Columns\<close>

text \<open>
  The columns of a row: a cell in its first column, \<^const>\<open>None\<close> in the second
  column of a wide one.
\<close>

definition columns :: "cell list \<Rightarrow> cell option list" where
  "columns cs = concat (map (\<lambda>c. Some c # replicate (nat (cw c) - 1) None) cs)"

abbreviation blank :: "cell option" where
  "blank \<equiv> Some (32, [])"

text \<open>Writing a narrow character at column \<open>i\<close>: a wide character of which it takes one half leaves a blank.\<close>

definition put1 :: "cell option list \<Rightarrow> nat \<Rightarrow> cell \<Rightarrow> cell option list" where
  "put1 v i x =
     (let v1 = (if v ! i = None then v[i - 1 := blank] else v);
          v2 = (if i + 1 < length v \<and> v ! (i + 1) = None then v1[i + 1 := blank] else v1)
      in v2[i := Some x])"

text \<open>
  What overwriting should do: the character alone at its columns, and a blank for the
  other half of every wide character it cuts.
\<close>

definition overwrite :: "cell option list \<Rightarrow> nat \<Rightarrow> int \<Rightarrow> cell option list" where
  "overwrite v i cp =
     (let n = nat (width cp);
          v1 = (if v ! i = None then v[i - 1 := blank] else v);
          v2 = (if i + n < length v \<and> v ! (i + n) = None then v1[i + n := blank] else v1);
          v3 = v2[i := Some (cp, [])]
      in if n = 2 then v3[i + 1 := None] else v3)"

text \<open>
  The code does not remove the combining characters of a narrow cell that the second half
  of a wide character covers, unless that cell is the last of the row: they stay behind,
  on the wide character.
\<close>

definition kept_marks :: "cell option list \<Rightarrow> nat \<Rightarrow> int list" where
  "kept_marks v i =
     (case v ! (i + 1) of
        None \<Rightarrow> []
      | Some d \<Rightarrow> if cw d = 1 \<and> i + 2 < length v then snd d else [])"

text \<open>What the code does with a wide character at the columns \<open>i\<close> and \<open>i + 1\<close>.\<close>

definition put2 :: "cell option list \<Rightarrow> nat \<Rightarrow> int \<Rightarrow> cell option list" where
  "put2 v i cp =
     (let v1 = (if v ! i = None then v[i - 1 := blank] else v);
          v2 = (if i + 2 < length v \<and> v ! (i + 2) = None then v1[i + 2 := blank] else v1)
      in v2[i := Some (cp, kept_marks v i), i + 1 := None])"

lemma columns_simps [simp]:
  "columns [] = []" "columns (xs @ ys) = columns xs @ columns ys"
  by (simp_all add: columns_def)

lemma columns_Cons:
  "cell_ok c \<Longrightarrow> columns (c # cs) = Some c # (if cw c = 2 then [None] else []) @ columns cs"
  using cw_pos [of c] by (auto simp: columns_def)

lemma length_columns: "list_all cell_ok cs \<Longrightarrow> length (columns cs) = nat (cws cs)"
proof (induction cs)
  case (Cons c cs)
  then show ?case using cw_pos [of c] cws_nonneg [of cs] by (auto simp: columns_Cons nat_add_distrib)
qed simp

lemma columns_hd: "list_all cell_ok cs \<Longrightarrow> cs \<noteq> [] \<Longrightarrow> columns cs \<noteq> [] \<and> hd (columns cs) \<noteq> None"
  by (cases cs) (auto simp: columns_Cons)

lemma put1_append: "B \<noteq> [] \<Longrightarrow> hd B \<noteq> None \<Longrightarrow> put1 (A @ B) (length A) x = A @ put1 B 0 x"
  by (cases B) (auto simp: put1_def Let_def nth_append list_update_append)

lemma put2_append: "B \<noteq> [] \<Longrightarrow> hd B \<noteq> None \<Longrightarrow> put2 (A @ B) (length A) x = A @ put2 B 0 x"
  by (cases B) (auto simp: put2_def kept_marks_def Let_def nth_append list_update_append split: option.split)

lemma put1_Cons: "put1 (Some c # B) 0 x = Some x # (if B \<noteq> [] \<and> hd B = None then blank # tl B else B)"
  by (cases B) (auto simp: put1_def Let_def)

lemma store_view1:
  assumes ok: "list_all cell_ok (xs @ c # ys)" and cols: "cols \<le> cws (xs @ c # ys)"
    and col: "cws xs < cols" and w: "width cp = 1"
  shows "take (nat cols) (columns (store_cells cols cp xs c ys)) =
    put1 (take (nat cols) (columns (xs @ c # ys))) (nat (cws xs)) (cp, [])"
proof -
  have oks: "list_all cell_ok xs" "cell_ok c" "list_all cell_ok ys" using ok by simp_all
  define k where "k = nat (cws xs)"
  define n where "n = nat cols - k"
  have k: "length (columns xs) = k" using length_columns [OF oks(1)] by (simp add: k_def)
  have pos: "0 \<le> cws xs" using cws_nonneg [OF oks(1)] .
  have n: "nat cols = k + n" "0 < n" using col pos by (simp_all add: k_def n_def)
  have c: "cw c = 1 \<or> cw c = 2" using cw_pos [OF oks(2)] by auto
  have cp: "cell_ok (cp, [])" if "scalar cp" using that w by simp
  have col1: "columns ((cp, []) # zs) = Some (cp, []) # columns zs" for zs
    using w by (simp add: columns_def)
  have col32: "columns ((32, []) # zs) = blank # columns zs" for zs
    by (simp add: columns_def)
  have ly: "length (columns ys) = nat (cws ys)" using length_columns [OF oks(3)] .
  have st: "store_cells cols cp xs c ys = xs @ (cp, []) # (if cw c = 2 then [(32, [])] else []) @
      (if cws xs + cw c < cols then ys else [])"
    using w by (simp add: store_cells_def Let_def)
  obtain m where m: "n = Suc m" using n(2) by (cases n) auto
  have inside: "cws xs + cw c < cols \<longleftrightarrow> nat (cw c) < n" using n c col pos by (auto simp: k_def n_def)
  have cover: "n \<le> nat (cw c) + length (columns ys)"
    using cols ly cws_nonneg [OF oks(3)] c pos by (auto simp: n_def k_def)
  have "take n (columns ((cp, []) # (if cw c = 2 then [(32, [])] else []) @ (if nat (cw c) < n then ys else []))) =
        put1 (take n (columns (c # ys))) 0 (cp, [])"
  proof (cases "cw c = 2")
    case True
    then show ?thesis using oks(2) m cover
      by (cases m) (auto simp: columns_Cons put1_Cons col1 col32)
  next
    case False
    with c have 1: "cw c = 1" by simp
    have "hd (columns ys) \<noteq> None" if "m \<noteq> 0"
      using columns_hd [OF oks(3)] that cover m 1 by (cases ys) auto
    then show ?thesis using oks(2) m cover 1
      by (cases "columns ys"; cases m) (auto simp: columns_Cons put1_Cons col1 col32)
  qed
  then have "take (nat cols) (columns (store_cells cols cp xs c ys)) =
    columns xs @ put1 (take n (columns (c # ys))) 0 (cp, [])"
    unfolding st n(1) inside using k by simp
  also have "\<dots> = put1 (columns xs @ take n (columns (c # ys))) (length (columns xs)) (cp, [])"
    using oks(2) m by (subst put1_append) (auto simp: columns_Cons)
  also have "\<dots> = put1 (take (nat cols) (columns (xs @ c # ys))) (nat (cws xs)) (cp, [])"
    using k n(1) by (simp add: k_def)
  finally show ?thesis .
qed

lemma put2_Cons2:
  "put2 (Some x # b # B) 0 cp =
     Some (cp, case b of None \<Rightarrow> [] | Some d \<Rightarrow> if cw d = 1 \<and> B \<noteq> [] then snd d else []) # None #
     (if B \<noteq> [] \<and> hd B = None then blank # tl B else B)"
  by (cases B; cases b) (auto simp: put2_def kept_marks_def Let_def)

lemma store_view2:
  assumes ok: "list_all cell_ok (xs @ c # ys)" and cols: "cols \<le> cws (xs @ c # ys)"
    and col: "cws xs < cols - 1" and w: "width cp = 2"
    and nxt: "cw c = 1 \<Longrightarrow> cws xs < cols - 2 \<Longrightarrow> cw (hd ys) = 1"
  shows "take (nat cols) (columns (store_cells cols cp xs c ys)) =
    put2 (take (nat cols) (columns (xs @ c # ys))) (nat (cws xs)) cp"
proof -
  have oks: "list_all cell_ok xs" "cell_ok c" "list_all cell_ok ys" using ok by simp_all
  define k where "k = nat (cws xs)"
  define n where "n = nat cols - k"
  have k: "length (columns xs) = k" using length_columns [OF oks(1)] by (simp add: k_def)
  have pos: "0 \<le> cws xs" using cws_nonneg [OF oks(1)] .
  have n: "nat cols = k + n" "2 \<le> n" using col pos by (simp_all add: k_def n_def)
  have c: "cw c = 1 \<or> cw c = 2" using cw_pos [OF oks(2)] by auto
  have colw: "columns ((cp, zs) # ds) = Some (cp, zs) # None # columns ds" for zs ds
    using w by (simp add: columns_def cw_def)
  have ly: "length (columns ys) = nat (cws ys)" using length_columns [OF oks(3)] .
  have inside: "cws xs + cw c < cols \<longleftrightarrow> nat (cw c) < n" using n c col pos by (auto simp: k_def n_def)
  have cover: "n \<le> nat (cw c) + length (columns ys)"
    using cols ly cws_nonneg [OF oks(3)] c pos by (auto simp: n_def k_def)
  obtain m where m: "n = Suc (Suc m)" using n(2) by (metis add_2_eq_Suc le_Suc_ex)
  define tail where "tail = (if cw c = 2 then (cp, []) # (if nat (cw c) < n then ys else [])
      else if n = 2 then [(cp, [])] else (cp, snd (hd ys)) # tl ys)"
  have st: "store_cells cols cp xs c ys = xs @ tail"
  proof -
    have "cws xs = cols - 2 \<longleftrightarrow> n = 2" using pos col by (auto simp: n_def k_def)
    then show ?thesis unfolding tail_def inside [symmetric] using w by (simp add: store_cells_def Let_def)
  qed
  have "take n (columns tail) = put2 (take n (columns (c # ys))) 0 cp"
  proof (cases "cw c = 2")
    case True
    have "hd (columns ys) \<noteq> None" if "m \<noteq> 0"
      using columns_hd [OF oks(3)] that cover m True by (cases ys) auto
    then show ?thesis using True oks(2) m cover
      by (cases "columns ys"; cases m) (auto simp: tail_def columns_Cons colw put2_Cons2)
  next
    case False
    with c have 1: "cw c = 1" by simp
    obtain y ys' where y: "ys = y # ys'" using cover m 1 by (cases ys) auto
    with oks(3) have yok: "cell_ok y" "list_all cell_ok ys'" by simp_all
    show ?thesis
    proof (cases m)
      case 0
      have "take n (columns (c # ys)) = [Some c, Some y]" using 0 1 oks(2) yok m y by (simp add: columns_Cons)
      moreover have "take n (columns tail) = [Some (cp, []), None]" using 0 1 m by (simp add: tail_def colw)
      ultimately show ?thesis by (simp add: put2_Cons2)
    next
      case (Suc j)
      have "cws xs < cols - 2" using n(1) m Suc pos k_def by linarith
      then have cy: "cw y = 1" using nxt [OF 1] y by simp
      have "columns ys' \<noteq> []" using cover m Suc 1 cy y yok by (auto simp: columns_Cons)
      then obtain e B where e: "columns ys' = e # B" by (cases "columns ys'") auto
      have "e \<noteq> None" using columns_hd [OF yok(2)] e by (cases ys') auto
      moreover have "take n (columns (c # ys)) = Some c # Some y # e # take j B"
        using Suc 1 oks(2) yok m y cy e by (simp add: columns_Cons)
      moreover have "take n (columns tail) = Some (cp, snd y) # None # e # take j B"
        using Suc 1 m y e by (simp add: tail_def colw)
      ultimately show ?thesis using cy by (simp add: put2_Cons2)
    qed
  qed
  then have "take (nat cols) (columns (store_cells cols cp xs c ys)) =
    columns xs @ put2 (take n (columns (c # ys))) 0 cp"
    unfolding st n(1) using k by simp
  also have "\<dots> = put2 (columns xs @ take n (columns (c # ys))) (length (columns xs)) cp"
    using oks(2) m by (subst put2_append) (auto simp: columns_Cons)
  also have "\<dots> = put2 (take (nat cols) (columns (xs @ c # ys))) (nat (cws xs)) cp"
    using k n(1) by (simp add: k_def)
  finally show ?thesis .
qed

text \<open>Blanking the wide character of which one half is about to be overwritten changes nothing in the end.\<close>

lemma put1_blank_wide:
  "Suc j < length v \<Longrightarrow> v ! Suc j = None \<Longrightarrow> v ! j = Some e \<Longrightarrow>
   put1 v j (32, []) = v[j := blank, Suc j := blank]"
  by (simp add: put1_def Let_def list_update_swap [of j "Suc j"])

lemma put1_left:
  assumes "Suc j < length v" and "v ! Suc j = None" and "v ! j = Some e"
  shows "put1 (put1 v j (32, [])) (Suc j) x = put1 v (Suc j) x"
  unfolding put1_blank_wide [OF assms] using assms
  by (simp add: put1_def Let_def list_update_swap)

lemma put2_left:
  assumes "Suc (Suc j) < length v" and "v ! Suc j = None" and "v ! j = Some e"
  shows "put2 (put1 v j (32, [])) (Suc j) cp = put2 v (Suc j) cp"
proof -
  have "Suc j < length v" using assms(1) by simp
  note b = put1_blank_wide [OF this assms(2,3)]
  show ?thesis unfolding b using assms
    by (cases "v ! Suc (Suc j)") (auto simp: put2_def kept_marks_def Let_def list_update_swap intro!: nth_equalityI simp: nth_list_update)
qed

lemma put2_right:
  assumes "Suc j < length v" and "v ! j = Some e" and "v ! Suc j = Some d" and "cw d = 2"
    and "Suc (Suc j) < length v \<Longrightarrow> v ! Suc (Suc j) = None"
  shows "put2 (put1 v (Suc j) (32, [])) j cp = put2 v j cp"
proof (cases "Suc (Suc j) < length v")
  case True
  from put1_blank_wide [OF True] assms True show ?thesis
    by (simp add: put2_def kept_marks_def Let_def list_update_swap)
next
  case False
  then have "put1 v (Suc j) (32, []) = v[Suc j := blank]" using assms by (simp add: put1_def Let_def)
  then show ?thesis using assms False by (simp add: put2_def kept_marks_def Let_def list_update_swap)
qed

section \<open>Setting a character\<close>

definition row_frame :: "trow \<Rightarrow> trow \<Rightarrow> bool" where
  "row_frame r r' \<longleftrightarrow> r_columns r' = r_columns r \<and> r_wrap r' = r_wrap r"

definition view :: "trow \<Rightarrow> cell list \<Rightarrow> cell option list" where
  "view r cs = take (nat (r_columns r)) (columns cs)"

lemma length_view: "row_rep r cs \<Longrightarrow> length (view r cs) = nat (r_columns r)"
  by (auto simp: view_def row_rep_def length_columns)

lemma row_mark_ok:
  assumes "row_rep r cs" and "0 \<le> col" and "col < r_columns r"
  shows "\<exists>r1. row_mark col style r = Some r1 \<and> row_rep r1 cs \<and> row_frame r r1 \<and>
    r_style r1 = (r_style r)[nat col := style] \<and> r_wide r1 = r_wide r \<and> r_used r1 = r_used r \<and> r_text r1 = r_text r"
  using assms
  by (cases "r_link r"; cases "r_ucolor r")
     (auto simp: row_mark_def row_rep_def row_frame_def aset_Some text_at_def)

lemma row_rep_wide: "row_rep r cs \<Longrightarrow> row_rep (r\<lparr>r_wide := True\<rparr>) cs"
  by (simp add: row_rep_def text_at_def)

lemma narrow_enc: "list_all narrow cs \<Longrightarrow> enc cs = map fst cs"
  by (induction cs) (auto simp: narrow_def enc_cell_def units_def)

lemma narrow_cws: "list_all narrow cs \<Longrightarrow> cws cs = int (length cs)"
  by (induction cs) (auto simp: narrow_def cw_def)

text \<open>The fast path, for rows with one unit per column.\<close>

lemma setChar_fast:
  assumes rep: "row_rep r (xs @ c # ys)" and nw: "\<not> r_wide r" and col: "cws xs < r_columns r"
    and cp: "scalar cp" "cp < 0x10000" "width cp = 1"
  shows "\<exists>r'. row_setChar (cws xs) cp style r = Some r' \<and> row_rep r' (store_cells (r_columns r) cp xs c ys) \<and>
    row_frame r r' \<and> r_used r' = r_used r \<and> r_style r' = (r_style r)[nat (cws xs) := style] \<and> r_wide r' = r_wide r"
proof -
  from rep nw have nar: "list_all narrow (xs @ c # ys)" and len: "length (xs @ c # ys) = nat (r_columns r)"
    and ok: "list_all cell_ok (xs @ c # ys)" by (simp_all add: row_rep_def)
  have cx: "cws xs = int (length xs)" "cw c = 1"
    using nar narrow_cws [of xs] by (simp_all add: narrow_def cw_def)
  have st: "store_cells (r_columns r) cp xs c ys = xs @ (cp, []) # ys"
    using cp(3) cx len by (cases ys) (auto simp: store_cells_def Let_def)
  obtain r1 where r1: "row_mark (cws xs) style r = Some r1" "row_rep r1 (xs @ c # ys)" "row_frame r r1"
    "r_style r1 = (r_style r)[nat (cws xs) := style]" "r_wide r1 = r_wide r" "r_used r1 = r_used r"
    "r_text r1 = r_text r"
    using row_mark_ok [OF rep, of "cws xs" style] cx col by auto
  obtain J where J: "r_text r1 = map fst xs @ fst c # map fst ys @ J" and used: "r_used r1 = int (length (xs @ c # ys))"
    using r1(2) narrow_enc [OF nar] by (auto simp: row_rep_def text_at_def simp del: enc_simps)
  have m: "cp mod 0x10000 = cp" using cp by (simp add: scalar_def is_cp_def)
  let ?r = "r1\<lparr>r_text := map fst xs @ cp # map fst ys @ J\<rparr>"
  have "aset (r_text r1) (cws xs) cp = Some (map fst xs @ cp # map fst ys @ J)"
    unfolding cx(1) J by (simp add: list_update_append)
  then have s: "row_setChar (cws xs) cp style r = Some ?r"
    using r1(1,5) nw cp m by (subst row_setChar.simps) (simp add: Let_def)
  have nar': "list_all narrow (xs @ (cp, []) # ys)" using nar cp by (simp add: narrow_def)
  have "row_rep ?r (xs @ (cp, []) # ys)"
    using r1(2,3) nar' narrow_enc [OF nar'] ok cp used cx len narrow_cws [OF nar']
    by (auto simp: row_rep_def text_at_def row_frame_def simp del: enc_simps cws_simps)
  then show ?thesis using s st r1 by (auto simp: row_frame_def)
qed

lemma aligned_not_extra:
  assumes "row_rep r (xs @ c # ys)" and "0 < cws xs"
  shows "wideDisplayCharacterStartingAt (cws xs - 1) r = Some False"
proof -
  have "xs \<noteq> []" using assms(2) by auto
  then obtain zs x where x: "xs = zs @ [x]" by (metis rev_exhaust)
  from assms have "cell_ok x" by (simp add: row_rep_def x)
  with cw_pos have "1 \<le> cw x" by blast
  with rep_wide [of r zs x "c # ys" "cws xs - 1"] cw_pos [OF \<open>cell_ok x\<close>] assms show ?thesis by (auto simp: x)
qed

text \<open>On the slow path a narrow character at the start of a cell is stored directly.\<close>

lemma setChar_aligned1:
  assumes rep: "row_rep r (xs @ c # ys)" and wd: "r_wide r" and col: "cws xs < r_columns r"
    and cp: "scalar cp" "width cp = 1" and room: "r_used r \<le> 32764"
  shows "\<exists>r'. row_setChar (cws xs) cp style r = Some r' \<and> row_rep r' (store_cells (r_columns r) cp xs c ys) \<and>
    row_frame r r' \<and> r_used r' \<le> r_used r + 3 \<and> r_style r' = (r_style r)[nat (cws xs) := style] \<and> r_wide r'"
proof -
  have pos: "0 \<le> cws xs" using rep cws_nonneg [of xs] by (simp add: row_rep_def)
  obtain r1 where r1: "row_mark (cws xs) style r = Some r1" "row_rep r1 (xs @ c # ys)" "row_frame r r1"
    "r_style r1 = (r_style r)[nat (cws xs) := style]" "r_wide r1 = r_wide r" "r_used r1 = r_used r"
    using row_mark_ok [OF rep pos col, of style] by auto
  let ?r1 = "r1\<lparr>r_wide := True\<rparr>"
  have cols: "r_columns r1 = r_columns r" using r1(3) by (simp add: row_frame_def)
  have rep1: "row_rep ?r1 (xs @ c # ys)" by (rule row_rep_wide [OF r1(2)])
  have ex: "(if 0 < cws xs then wideDisplayCharacterStartingAt (cws xs - 1) ?r1 else Some False) = Some False"
    using aligned_not_extra [OF rep1] by simp
  have s: "row_setChar (cws xs) cp style r = row_store (cws xs) cp ?r1"
    using r1(1,5) wd cp ex by (subst row_setChar.simps) (simp add: Let_def)
  show ?thesis
    using row_store_rep [OF rep1, of cp] col cp room r1 cols unfolding s by (auto simp: row_frame_def)
qed

lemma view_nth:
  assumes rep: "row_rep r (xs @ c # ys)" and col: "cws xs < r_columns r"
  shows "view r (xs @ c # ys) ! nat (cws xs) = Some c"
    and "cw c = 2 \<Longrightarrow> cws xs + 1 < r_columns r \<Longrightarrow> view r (xs @ c # ys) ! Suc (nat (cws xs)) = None"
proof -
  from rep have ok: "list_all cell_ok xs" "cell_ok c" by (simp_all add: row_rep_def)
  have k: "length (columns xs) = nat (cws xs)" "0 \<le> cws xs"
    using length_columns [OF ok(1)] cws_nonneg [OF ok(1)] by simp_all
  show "view r (xs @ c # ys) ! nat (cws xs) = Some c"
    using k col ok(2) by (simp add: view_def nth_append columns_Cons)
  show "view r (xs @ c # ys) ! Suc (nat (cws xs)) = None" if "cw c = 2" "cws xs + 1 < r_columns r"
    using k that ok(2) by (simp add: view_def nth_append columns_Cons)
qed

text \<open>Writing a character of positive width into the grid.\<close>

definition put :: "cell option list \<Rightarrow> nat \<Rightarrow> int \<Rightarrow> cell option list" where
  "put v i cp = (if width cp = 1 then put1 v i (cp, []) else put2 v i cp)"

text \<open>It is plain overwriting unless combining characters stay behind.\<close>

lemma put_overwrite:
  assumes "0 < width cp" and "width cp = 2 \<longrightarrow> kept_marks v i = []"
  shows "put v i cp = overwrite v i cp"
proof (cases "width cp = 1")
  case False
  with assms width_cases [of cp] have "width cp = 2" by auto
  with assms(2) show ?thesis by (simp add: put_def put2_def overwrite_def)
qed (simp add: put_def put1_def overwrite_def Let_def)

lemma put_wide:
  assumes "width cp = 2"
  shows "put v i cp = (overwrite v i cp)[i := Some (cp, kept_marks v i)]"
  using assms by (simp add: put_def put2_def overwrite_def Let_def list_update_swap)

text \<open>The part of \<^const>\<open>row_setChar\<close> after the left neighbour was dealt with.\<close>

definition set_right :: "int \<Rightarrow> int \<Rightarrow> u64 \<Rightarrow> trow \<Rightarrow> trow option" where
  "set_right col cp style r = do {
     overwriting \<leftarrow> (if width cp = 2 then wideDisplayCharacterStartingAt (col + 1) r else Some False);
     r \<leftarrow> (if overwriting \<and> width cp = 2 then row_setChar (col + 1) 32 style r else Some r);
     row_store col cp r }"

lemma set_right_ok:
  assumes rep: "row_rep r (xs @ c # ys)" and wd: "r_wide r" and col: "cws xs < r_columns r"
    and cp: "scalar cp" "0 < width cp" and wide: "width cp = 2 \<Longrightarrow> cws xs < r_columns r - 1"
    and room: "r_used r \<le> 32761"
  shows "\<exists>r' cs. set_right (cws xs) cp style r = Some r' \<and> row_rep r' cs \<and> row_frame r r' \<and>
    r_used r' \<le> r_used r + 6 \<and> r_wide r' \<and> r_style r' ! nat (cws xs) = r_style r ! nat (cws xs) \<and>
    view r' cs = put (view r (xs @ c # ys)) (nat (cws xs)) cp \<and>
    (\<forall>k. tight_cells (r_columns r) k (xs @ c # ys) \<longrightarrow> cp \<noteq> VS16 \<longrightarrow> tight_cells (r_columns r) (k + extra cp) cs)"
proof -
  let ?v = "view r (xs @ c # ys)"
  from rep have ok: "list_all cell_ok (xs @ c # ys)" and cols: "r_columns r \<le> cws (xs @ c # ys)"
    by (simp_all add: row_rep_def)
  have c: "cell_ok c" "cw c = 1 \<or> cw c = 2" using ok cw_pos [of c] by auto
  have pos: "0 \<le> cws xs" using ok cws_nonneg [of xs] by simp
  consider (1) "width cp = 1" | (2) "width cp = 2" using width_cases [of cp] cp(2) by auto
  then show ?thesis
  proof cases
    case 1
    then have "set_right (cws xs) cp style r = row_store (cws xs) cp r" by (simp add: set_right_def)
    with row_store_rep [OF rep wd col cp(1)] room 1 store_view1 [OF ok cols col 1]
      store_cells_tight [OF _ ok _ col, of _ cp]
    show ?thesis by (fastforce simp: view_def put_def row_frame_def)
  next
    case 2
    note w = wide [OF 2]
    have direct: "\<exists>r' cs. row_store (cws xs) cp r = Some r' \<and> row_rep r' cs \<and> row_frame r r' \<and>
      r_used r' \<le> r_used r + 3 \<and> r_wide r' \<and> r_style r' = r_style r \<and> view r' cs = put2 ?v (nat (cws xs)) cp \<and>
      (\<forall>k. tight_cells (r_columns r) k (xs @ c # ys) \<longrightarrow> cp \<noteq> VS16 \<longrightarrow> tight_cells (r_columns r) (k + extra cp) cs)"
      if "cw c = 1 \<Longrightarrow> cws xs < r_columns r - 2 \<Longrightarrow> cw (hd ys) = 1"
      using row_store_rep [OF rep wd col cp(1)] room w that store_view2 [OF ok cols w 2]
        store_cells_tight [OF _ ok _ col, of _ cp]
      by (fastforce simp: view_def row_frame_def)
    show ?thesis
    proof (cases "cw c = 2")
      case True
      have "wideDisplayCharacterStartingAt (cws xs + 1) r = Some False"
        using rep_wide [OF rep, of "cws xs + 1"] True by simp
      then have "set_right (cws xs) cp style r = row_store (cws xs) cp r" using 2 by (simp add: set_right_def)
      with direct True 2 show ?thesis by (fastforce simp: put_def)
    next
      case False
      with c have c1: "cw c = 1" by simp
      with cols w obtain y zs where y: "ys = y # zs" by (cases ys) auto
      have yok: "cell_ok y" using ok y by simp
      have rep2: "row_rep r ((xs @ [c]) @ y # zs)" using rep y by simp
      have wa: "wideDisplayCharacterStartingAt (cws xs + 1) r = Some (cw y = 2)"
        using rep_wide [OF rep2, of "cws xs + 1"] cw_pos [OF yok] c1 by simp
      show ?thesis
      proof (cases "cw y = 2")
        case F: False
        then have "cw y = 1" using cw_pos [OF yok] by simp
        moreover have "set_right (cws xs) cp style r = row_store (cws xs) cp r"
          using 2 wa F by (simp add: set_right_def)
        ultimately show ?thesis using direct 2 y by (fastforce simp: put_def)
      next
        case T: True
        have col2: "cws (xs @ [c]) < r_columns r" using w c1 by simp
        define cs1 where "cs1 = (32, []) # (32, []) # (if cws xs + 3 < r_columns r then zs else [])"
        have st: "store_cells (r_columns r) 32 (xs @ [c]) y zs = xs @ c # cs1"
          using T c1 by (simp add: store_cells_def Let_def cs1_def)
        obtain r1 where r1: "row_setChar (cws xs + 1) 32 style r = Some r1" "row_rep r1 (xs @ c # cs1)"
          "row_frame r r1" "r_used r1 \<le> r_used r + 3" "r_style r1 = (r_style r)[Suc (nat (cws xs)) := style]" "r_wide r1"
          using setChar_aligned1 [OF rep2 wd col2, of 32 style] room c1 st pos by (auto simp: nat_add_distrib)
        have fr: "r_columns r1 = r_columns r" using r1(3) by (simp add: row_frame_def)
        have s: "set_right (cws xs) cp style r = row_store (cws xs) cp r1"
          using 2 wa T r1(1) by (simp add: set_right_def)
        from r1(2) have ok1: "list_all cell_ok (xs @ c # cs1)" and cols1: "r_columns r \<le> cws (xs @ c # cs1)"
          using fr by (simp_all add: row_rep_def)
        have nxt: "cw (hd cs1) = 1" by (simp add: cs1_def)
        have v1: "view r1 (xs @ c # cs1) = put1 ?v (Suc (nat (cws xs))) (32, [])"
          using store_view1 [of "xs @ [c]" y zs "r_columns r" 32] ok cols y c1 col2 st fr pos
          by (simp add: view_def nat_add_distrib)
        have v2: "take (nat (r_columns r)) (columns (store_cells (r_columns r) cp xs c cs1)) =
          put2 (view r1 (xs @ c # cs1)) (nat (cws xs)) cp"
          using store_view2 [OF ok1 cols1 w 2] nxt fr by (simp add: view_def)
        have "put2 (put1 ?v (Suc (nat (cws xs))) (32, [])) (nat (cws xs)) cp = put2 ?v (nat (cws xs)) cp"
        proof (rule put2_right)
          show "Suc (nat (cws xs)) < length ?v" using length_view [OF rep] w pos by simp
          show "?v ! nat (cws xs) = Some c" using view_nth(1) [OF rep col] .
          show "?v ! Suc (nat (cws xs)) = Some y" using view_nth(1) [OF rep2 col2] y c1 pos by (simp add: nat_add_distrib)
          show "cw y = 2" by fact
          show "?v ! Suc (Suc (nat (cws xs))) = None" if "Suc (Suc (nat (cws xs))) < length ?v"
            using view_nth(2) [OF rep2 col2 T] that length_view [OF rep] y c1 pos by (simp add: nat_add_distrib)
        qed
        moreover have "tight_cells (r_columns r) (k + extra cp) (store_cells (r_columns r) cp xs c cs1)"
          if "tight_cells (r_columns r) k (xs @ c # ys)" "cp \<noteq> VS16" for k
        proof (rule store_cells_tight [OF _ ok1 that(2) col])
          have "(32 :: int) \<noteq> VS16" by (simp add: VS16_def)
          then show "tight_cells (r_columns r) k (xs @ c # cs1)"
            using store_cells_tight [of "r_columns r" k "xs @ [c]" y zs 32] that ok y col2 st by simp
          show "cws xs < r_columns r - 1 \<and> (cw c = 1 \<longrightarrow> cws xs < r_columns r - 2 \<longrightarrow> cw (hd cs1) = 1)"
            using w nxt by simp
        qed
        moreover obtain r' where "row_store (cws xs) cp r1 = Some r'" "row_rep r' (store_cells (r_columns r) cp xs c cs1)"
          "r_columns r' = r_columns r1" "r_wrap r' = r_wrap r1" "r_style r' = r_style r1" "r_wide r'" "r_used r' \<le> r_used r1 + 3"
          using row_store_rep [OF r1(2,6) _ cp(1)] w nxt fr r1(4) room col by auto
        ultimately show ?thesis using s v1 v2 r1 2 fr
          by (intro exI [of _ r'] exI [of _ "store_cells (r_columns r) cp xs c cs1"])
             (simp add: put_def view_def row_frame_def)
      qed
    qed
  qed
qed

lemma setChar_wide_path:
  assumes mark: "row_mark col style r = Some r1" and slow: "r_wide r1 \<or> 0x10000 \<le> cp \<or> width cp \<noteq> 1"
    and extra: "(if 0 < col then wideDisplayCharacterStartingAt (col - 1) (r1\<lparr>r_wide := True\<rparr>) else Some False) = Some e"
  shows "row_setChar col cp style r =
    (let r2 = r1\<lparr>r_wide := True\<rparr> in
     if width cp \<le> 0 then row_store (if e then col - 1 else col) cp r2
     else do { r3 \<leftarrow> (if e \<and> 0 < col then row_setChar (col - 1) 32 style r2 else Some r2);
               set_right col cp style r3 })"
proof -
  have "(\<not> r_wide r1 \<and> \<not> (0x10000 \<le> cp \<or> width cp \<noteq> 1)) = False" using slow by blast
  then show ?thesis
    by (subst row_setChar.simps) (simp only: mark bind.bind_lunit Let_def extra set_right_def [abs_def] if_False)
qed

text \<open>What \<^const>\<open>row_setChar\<close> does with a character that occupies columns.\<close>

lemma setChar_printing:
  assumes rep: "row_rep r cs" and col: "0 \<le> col" "col < r_columns r" and cp: "scalar cp" "0 < width cp"
    and wide: "width cp = 2 \<Longrightarrow> col < r_columns r - 1" and room: "r_used r \<le> 32755"
  shows "\<exists>r' cs'. row_setChar col cp style r = Some r' \<and> row_rep r' cs' \<and> row_frame r r' \<and>
    r_used r' \<le> r_used r + 9 \<and> r_style r' ! nat col = style \<and> view r' cs' = put (view r cs) (nat col) cp \<and>
    (\<forall>k. tight_cells (r_columns r) k cs \<longrightarrow> cp \<noteq> VS16 \<longrightarrow> tight_cells (r_columns r) (k + extra cp) cs')"
proof -
  obtain xs c ys where cs: "cs = xs @ c # ys" "cws xs \<le> col" "col < cws xs + cw c"
    using rep_split [OF rep col] .
  have rep': "row_rep r (xs @ c # ys)" using rep cs(1) by simp
  have ok: "list_all cell_ok (xs @ c # ys)" and cols: "r_columns r \<le> cws (xs @ c # ys)"
    and lst: "length (r_style r) = nat (r_columns r)" using rep' by (simp_all add: row_rep_def)
  have c: "cell_ok c" using ok by simp
  have pos: "0 \<le> cws xs" using ok cws_nonneg [of xs] by simp
  have nc: "nat col < length (r_style r)" using col lst by simp
  show ?thesis
  proof (cases "r_wide r \<or> 0x10000 \<le> cp \<or> width cp \<noteq> 1")
    case False
    then have "list_all narrow (xs @ c # ys)" using rep' by (simp add: row_rep_def)
    then have "cw c = 1" by (simp add: narrow_def cw_def)
    with cs(2,3) have a: "col = cws xs" by simp
    from False setChar_fast [OF rep' _ _ cp(1), of style] col a obtain r' where
      "row_setChar col cp style r = Some r'" "row_rep r' (store_cells (r_columns r) cp xs c ys)" "row_frame r r'"
      "r_used r' = r_used r" "r_style r' = (r_style r)[nat col := style]" by auto
    with store_view1 [OF ok cols, of cp] store_cells_tight [OF _ ok, of "r_columns r" _ cp] False a col cs(1) nc show ?thesis
      by (intro exI [of _ r'] exI [of _ "store_cells (r_columns r) cp xs c ys"])
         (auto simp: view_def put_def row_frame_def)
  next
    case True
    obtain r1 where r1: "row_mark col style r = Some r1" "row_rep r1 (xs @ c # ys)" "row_frame r r1"
      "r_style r1 = (r_style r)[nat col := style]" "r_wide r1 = r_wide r" "r_used r1 = r_used r"
      using row_mark_ok [OF rep' col, of style] by auto
    define r2 where "r2 = r1\<lparr>r_wide := True\<rparr>"
    have rep2: "row_rep r2 (xs @ c # ys)" using row_rep_wide [OF r1(2)] by (simp add: r2_def)
    have r2: "r_columns r2 = r_columns r" "r_wrap r2 = r_wrap r" "r_wide r2" "r_used r2 = r_used r"
      "r_style r2 = (r_style r)[nat col := style]" using r1 by (simp_all add: r2_def row_frame_def)
    have slow: "r_wide r1 \<or> 0x10000 \<le> cp \<or> width cp \<noteq> 1" using True r1(5) by simp
    have np: "\<not> width cp \<le> 0" using cp(2) by simp
    have sty: "r_style r2 ! nat col = style" using r2(5) nc by simp
    have v2: "view r2 (xs @ c # ys) = view r (xs @ c # ys)" using r2(1) by (simp add: view_def)
    show ?thesis
    proof (cases "cws xs = col")
      case a: True
      have ex: "(if 0 < col then wideDisplayCharacterStartingAt (col - 1) r2 else Some False) = Some False"
        using aligned_not_extra [OF rep2] a by simp
      have s: "row_setChar col cp style r = set_right col cp style r2"
        using setChar_wide_path [OF r1(1) slow ex [unfolded r2_def]] np by (simp add: r2_def Let_def)
      from set_right_ok [OF rep2 r2(3), of cp style] col cp wide room r2 a obtain r' cs' where
        "set_right col cp style r2 = Some r'" "row_rep r' cs'" "row_frame r2 r'" "r_used r' \<le> r_used r2 + 6"
        "r_style r' ! nat col = r_style r2 ! nat col" "view r' cs' = put (view r2 (xs @ c # ys)) (nat col) cp"
        "\<forall>k. tight_cells (r_columns r) k cs \<longrightarrow> cp \<noteq> VS16 \<longrightarrow> tight_cells (r_columns r) (k + extra cp) cs'" using cs(1) by auto
      with s sty v2 r2 cs(1) show ?thesis by (intro exI [of _ r'] exI [of _ cs']) (simp add: row_frame_def)
    next
      case n: False
      with cs cw_pos [OF c] have a: "cws xs = col - 1" "cw c = 2" by auto
      have p: "0 < col" using a pos by simp
      have ex: "(if 0 < col then wideDisplayCharacterStartingAt (col - 1) r2 else Some False) = Some True"
        using rep_wide [OF rep2, of "col - 1"] a p by simp
      define ys1 where "ys1 = (if col + 1 < r_columns r then ys else [])"
      have st: "store_cells (r_columns r) 32 xs c ys = (xs @ [(32, [])]) @ (32, []) # ys1"
        using a by (simp add: store_cells_def Let_def ys1_def)
      obtain r3 where r3: "row_setChar (col - 1) 32 style r2 = Some r3" "row_rep r3 ((xs @ [(32, [])]) @ (32, []) # ys1)"
        "row_frame r2 r3" "r_used r3 \<le> r_used r2 + 3" "r_style r3 = (r_style r2)[nat (col - 1) := style]" "r_wide r3"
        using setChar_aligned1 [OF rep2 r2(3), of 32 style] a col r2 room unfolding st [symmetric] by auto
      have s: "row_setChar col cp style r = set_right col cp style r3"
        using setChar_wide_path [OF r1(1) slow ex [unfolded r2_def]] np p r3(1) by (simp add: r2_def Let_def)
      have fr: "r_columns r3 = r_columns r" "r_wrap r3 = r_wrap r" using r3(3) r2 by (simp_all add: row_frame_def)
      have cx: "cws (xs @ [(32, [])]) = col" using a by simp
      obtain r' cs' where r': "set_right col cp style r3 = Some r'" "row_rep r' cs'" "row_frame r3 r'"
        "r_used r' \<le> r_used r3 + 6" "r_style r' ! nat col = r_style r3 ! nat col"
        "view r' cs' = put (view r3 ((xs @ [(32, [])]) @ (32, []) # ys1)) (nat col) cp"
        "\<forall>k. tight_cells (r_columns r) k ((xs @ [(32, [])]) @ (32, []) # ys1) \<longrightarrow> cp \<noteq> VS16 \<longrightarrow> tight_cells (r_columns r) (k + extra cp) cs'"
        using set_right_ok [OF r3(2,6), of cp style] col cp wide room r2 r3(4) fr unfolding cx by auto
      have n1: "nat col = Suc (nat (col - 1))" using p by simp
      have v3: "view r3 ((xs @ [(32, [])]) @ (32, []) # ys1) = put1 (view r cs) (nat (col - 1)) (32, [])"
        using store_view1 [OF ok cols, of 32] a col fr(1) st cs(1) by (simp add: view_def)
      have facts: "Suc (nat (col - 1)) < length (view r cs)" "view r cs ! nat (col - 1) = Some c"
        "view r cs ! Suc (nat (col - 1)) = None"
        using view_nth [OF rep'] a col p length_view [OF rep] cs(1) by auto
      have "put (put1 (view r cs) (nat (col - 1)) (32, [])) (nat col) cp = put (view r cs) (nat col) cp"
      proof (cases "width cp = 1")
        case w1: True
        then show ?thesis using put1_left [OF facts(1,3,2)] by (simp add: put_def n1)
      next
        case w2: False
        then have "width cp = 2" using cp(2) width_cases [of cp] by auto
        from wide [OF this] have "Suc (Suc (nat (col - 1))) < length (view r cs)"
          using length_view [OF rep] col p by simp
        with w2 put2_left [OF this facts(3,2)] show ?thesis by (simp add: put_def n1)
      qed
      moreover have "tight_cells (r_columns r) k ((xs @ [(32, [])]) @ (32, []) # ys1)" if "tight_cells (r_columns r) k cs" for k
      proof -
        have "(32 :: int) \<noteq> VS16" by (simp add: VS16_def)
        then show ?thesis using store_cells_tight [OF _ ok, of "r_columns r" k 32] that a col st cs(1) by simp
      qed
      moreover have "r_style r3 ! nat col = style"
        using sty r3(5) n1 by simp
      ultimately show ?thesis using s r' v3 r2 r3(4) fr
        by (intro exI [of _ r'] exI [of _ cs']) (simp add: row_frame_def)
    qed
  qed
qed

end
