(* ===== verification/RowProps.thy ===== *)
theory RowProps
  imports RowSetChar
begin

text \<open>
  The contract of a terminal row: which cells it holds, read back from its text,
  and what every operation of \<^verbatim>\<open>TerminalRow.java\<close> does to them. Rows that were
  written without the emoji variation selector fill their columns exactly; on
  these no operation fails while there is room for the text.
\<close>

section \<open>Reading the cells back\<close>

fun decode16 :: "jstring \<Rightarrow> int list" where
  "decode16 [] = []"
| "decode16 [u] = [u]"
| "decode16 (u # v # us) = (if isHighSurrogate u then toCodePoint u v # decode16 us else u # decode16 (v # us))"

function group_cells :: "int list \<Rightarrow> cell list" where
  "group_cells [] = []"
| "group_cells (b # cps) = (b, takeWhile (\<lambda>c. width c \<le> 0) cps) # group_cells (dropWhile (\<lambda>c. width c \<le> 0) cps)"
  by pat_completeness auto
termination
  by (relation "measure length") (simp_all add: length_dropWhile_le le_imp_less_Suc)

definition cells_of :: "trow \<Rightarrow> cell list" where
  "cells_of r = group_cells (decode16 (take (nat (r_used r)) (r_text r)))"

definition shown :: "trow \<Rightarrow> cell option list" where
  "shown r = view r (cells_of r)"

lemma decode16_units: "scalar cp \<Longrightarrow> decode16 (units cp @ us) = cp # decode16 us"
  using high_surrogate [of cp] toCodePoint_units [of cp] scalar_bmp [of cp]
  by (cases us) (auto simp: units_def scalar_def is_cp_def)

lemma decode16_concat: "list_all scalar cps \<Longrightarrow> decode16 (concat (map units cps) @ us) = cps @ decode16 us"
  by (induction cps) (simp_all add: decode16_units)

definition cps_of :: "cell list \<Rightarrow> int list" where
  "cps_of cs = concat (map (\<lambda>c. fst c # snd c) cs)"

lemma enc_cps: "enc cs = concat (map units (cps_of cs))"
  by (induction cs) (simp_all add: cps_of_def enc_cell_def)

lemma cps_scalar: "list_all cell_ok cs \<Longrightarrow> list_all scalar (cps_of cs)"
  by (induction cs) (auto simp: cps_of_def cell_ok_def list_all_iff)

lemma group_cps: "list_all cell_ok cs \<Longrightarrow> group_cells (cps_of cs) = cs"
proof (induction cs)
  case (Cons c cs)
  have z: "\<forall>z \<in> set (snd c). width z \<le> 0" using Cons.prems by (simp add: cell_ok_def)
  have "cps_of cs = [] \<or> \<not> width (hd (cps_of cs)) \<le> 0"
    using Cons.prems by (cases cs) (auto simp: cps_of_def cell_ok_def)
  then have "takeWhile (\<lambda>c. width c \<le> 0) (snd c @ cps_of cs) = snd c"
    "dropWhile (\<lambda>c. width c \<le> 0) (snd c @ cps_of cs) = cps_of cs"
    using z by (cases "cps_of cs"; simp)+
  with Cons show ?case by (simp add: cps_of_def)
qed (simp add: cps_of_def)

lemma cells_of_rep: "row_rep r cs \<Longrightarrow> cells_of r = cs"
proof -
  assume rep: "row_rep r cs"
  then have "take (nat (r_used r)) (r_text r) = enc cs" and ok: "list_all cell_ok cs"
    by (auto simp: row_rep_def text_at_def)
  then show ?thesis
    using decode16_concat [OF cps_scalar [OF ok], of "[]"] group_cps [OF ok] by (simp add: cells_of_def enc_cps)
qed

lemma row_ok_cells: "row_ok r \<longleftrightarrow> row_rep r (cells_of r)"
  using cells_of_rep by (auto simp: row_ok_def)

section \<open>Combining characters\<close>

text \<open>A combining character joins the cell of its column.\<close>

definition put0 :: "cell option list \<Rightarrow> nat \<Rightarrow> int \<Rightarrow> cell option list" where
  "put0 v i cp =
     (let j = (if v ! i = None then i - 1 else i)
      in v[j := map_option (add_mark cp) (v ! j)])"

lemma store_view0:
  assumes ok: "list_all cell_ok (xs @ c # ys)" and tight: "tight_cells cols k (xs @ c # ys)"
    and cp: "scalar cp" "width cp = 0" "cp \<noteq> VS16"
  shows "columns (store_cells cols cp xs c ys) = (columns (xs @ c # ys))[nat (cws xs) := Some (add_mark cp c)]"
proof -
  have "cell_ok (add_mark cp c)" "cell_ok c" "list_all cell_ok xs" "list_all cell_ok ys"
    using ok cp by (auto simp: cell_ok_def add_mark_def)
  moreover have "cw (add_mark cp c) = cw c"
    using tight cp(3) cw_flat [of c] cw_flat [of "add_mark cp c"] by (auto simp: tight_cells_def add_mark_def)
  moreover have "ys = []" if "\<not> cws xs + cw c < cols"
    using tight that cws_length [OF \<open>list_all cell_ok ys\<close>] by (cases ys) (auto simp: tight_cells_def)
  ultimately show ?thesis using cp length_columns [of xs]
    by (auto simp: store_cells_def Let_def columns_Cons list_update_append)
qed

lemma setChar_combining:
  assumes rep: "row_rep r cs" and col: "0 \<le> col" "col < r_columns r" and cp: "scalar cp" "width cp = 0"
    and room: "r_used r \<le> 32755"
  shows "\<exists>r' cs'. row_setChar col cp style r = Some r' \<and> row_rep r' cs' \<and> row_frame r r' \<and>
    r_used r' \<le> r_used r + 3 \<and> r_style r' = (r_style r)[nat col := style] \<and>
    (\<forall>k. tight_cells (r_columns r) k cs \<longrightarrow> cp \<noteq> VS16 \<longrightarrow>
     tight_cells (r_columns r) (k + extra cp) cs' \<and> view r' cs' = put0 (view r cs) (nat col) cp)"
proof -
  obtain xs c ys where cs: "cs = xs @ c # ys" "cws xs \<le> col" "col < cws xs + cw c"
    using rep_split [OF rep col] .
  have rep': "row_rep r (xs @ c # ys)" using rep cs(1) by simp
  have ok: "list_all cell_ok (xs @ c # ys)" using rep' by (simp add: row_rep_def)
  have c: "cell_ok c" using ok by simp
  have pos: "0 \<le> cws xs" using ok cws_nonneg [of xs] by simp
  obtain r1 where r1: "row_mark col style r = Some r1" "row_rep r1 (xs @ c # ys)" "row_frame r r1"
    "r_style r1 = (r_style r)[nat col := style]" "r_used r1 = r_used r"
    using row_mark_ok [OF rep' col, of style] by auto
  define r2 where "r2 = r1\<lparr>r_wide := True\<rparr>"
  have rep2: "row_rep r2 (xs @ c # ys)" using row_rep_wide [OF r1(2)] by (simp add: r2_def)
  have r2: "r_columns r2 = r_columns r" "r_wrap r2 = r_wrap r" "r_wide r2" "r_used r2 = r_used r"
    "r_style r2 = (r_style r)[nat col := style]" using r1 by (simp_all add: r2_def row_frame_def)
  have slow: "r_wide r1 \<or> 0x10000 \<le> cp \<or> width cp \<noteq> 1" using cp(2) by simp
  have ex: "(if 0 < col then wideDisplayCharacterStartingAt (col - 1) r2 else Some False) = Some (cws xs = col - 1)"
  proof (cases "cws xs = col")
    case True
    then show ?thesis using aligned_not_extra [OF rep2] by simp
  next
    case False
    with cs cw_pos [OF c] have "cws xs = col - 1" "cw c = 2" by auto
    then show ?thesis using rep_wide [OF rep2, of "col - 1"] pos by simp
  qed
  have at: "(if cws xs = col - 1 then col - 1 else col) = cws xs"
    using cs(2,3) cw_pos [OF c] by auto
  have s: "row_setChar col cp style r = row_store (cws xs) cp r2"
    using setChar_wide_path [OF r1(1) slow ex [unfolded r2_def]] cp(2) at by (simp add: r2_def Let_def)
  have lt: "cws xs < r_columns r" using cs(2) col(2) by simp
  obtain r' where r': "row_store (cws xs) cp r2 = Some r'" "row_rep r' (store_cells (r_columns r) cp xs c ys)"
    "r_columns r' = r_columns r" "r_wrap r' = r_wrap r" "r_style r' = (r_style r)[nat col := style]" "r_used r' \<le> r_used r + 3"
    using row_store_rep [OF rep2 r2(3), of cp] r2 lt cp room by auto
  have "tight_cells (r_columns r) (k + extra cp) (store_cells (r_columns r) cp xs c ys) \<and>
      view r' (store_cells (r_columns r) cp xs c ys) = put0 (view r cs) (nat col) cp"
    if t: "tight_cells (r_columns r) k cs" "cp \<noteq> VS16" for k
  proof
    show "tight_cells (r_columns r) (k + extra cp) (store_cells (r_columns r) cp xs c ys)"
      using store_cells_tight [OF _ ok t(2) lt] t(1) cs(1) cp(2) by simp
    have "view r cs ! nat (cws xs) = Some c" "col \<noteq> cws xs \<Longrightarrow> view r cs ! nat col = None"
    proof -
      show "view r cs ! nat (cws xs) = Some c" using view_nth(1) [OF rep' lt] cs(1) by simp
      assume "col \<noteq> cws xs"
      then have "cw c = 2" "cws xs + 1 = col" "nat col = Suc (nat (cws xs))" using cs(2,3) cw_pos [OF c] pos by auto
      then show "view r cs ! nat col = None" using view_nth(2) [OF rep' lt] cs(1) col(2) by simp
    qed
    moreover have "nat col - Suc 0 = nat (cws xs)" if "col \<noteq> cws xs" using that cs(2,3) cw_pos [OF c] by auto
    ultimately have "put0 (view r cs) (nat col) cp = (view r cs)[nat (cws xs) := Some (add_mark cp c)]"
      by (cases "col = cws xs") (auto simp: put0_def Let_def)
    then show "view r' (store_cells (r_columns r) cp xs c ys) = put0 (view r cs) (nat col) cp"
      using store_view0 [OF ok _ cp t(2)] t(1) cs(1) r'(3) by (simp add: view_def take_update_swap)
  qed
  with s r' show ?thesis by (intro exI [of _ r'] exI [of _ "store_cells (r_columns r) cp xs c ys"]) (simp add: row_frame_def)
qed

section \<open>Rows that fill their columns\<close>

definition row_tight :: "int \<Rightarrow> trow \<Rightarrow> bool" where
  "row_tight k r \<longleftrightarrow> row_rep r (cells_of r) \<and> tight_cells (r_columns r) k (cells_of r)"

definition put_char :: "cell option list \<Rightarrow> nat \<Rightarrow> int \<Rightarrow> cell option list" where
  "put_char v i cp = (if width cp = 0 then put0 v i cp else put v i cp)"

lemma row_tightI: "row_rep r cs \<Longrightarrow> tight_cells (r_columns r) k cs \<Longrightarrow> row_tight k r"
  using cells_of_rep by (simp add: row_tight_def)

lemma row_tight_mono: "row_tight k r \<Longrightarrow> k \<le> k' \<Longrightarrow> row_tight k' r"
  by (auto simp: row_tight_def tight_cells_def)

lemma length_enc: "int (length (enc cs)) \<le> 2 * int (length cs) + extras cs"
proof (induction cs)
  case (Cons c cs)
  have "int (length (units (fst c))) \<le> 2" by (simp add: units_def)
  with Cons show ?case by (simp add: cell_extra_def enc_cell_def)
qed simp

lemma row_tight_used: "row_tight k r \<Longrightarrow> r_used r \<le> 2 * r_columns r + k"
  using length_enc [of "cells_of r"] cws_length [of "cells_of r"]
  by (auto simp: row_tight_def tight_cells_def row_rep_def text_at_def)

lemma row_tight_nonneg: "row_tight k r \<Longrightarrow> 0 \<le> k"
  using extras_nonneg [of "cells_of r"] by (simp add: row_tight_def tight_cells_def)

lemma row_tight_frame:
  "row_tight k r \<Longrightarrow> r_text r' = r_text r \<Longrightarrow> r_used r' = r_used r \<Longrightarrow> r_columns r' = r_columns r \<Longrightarrow>
   (r_wide r \<longrightarrow> r_wide r') \<Longrightarrow> length (r_style r') = length (r_style r) \<Longrightarrow>
   (\<forall>l. r_link r' = Some l \<longrightarrow> length l = nat (r_columns r)) \<Longrightarrow>
   (\<forall>u. r_ucolor r' = Some u \<longrightarrow> length u = nat (r_columns r)) \<Longrightarrow> row_tight k r'"
  by (auto simp: row_tight_def row_rep_def cells_of_def text_at_def)

text \<open>Writing any character except the variation selector into such a row.\<close>

lemma setChar_tight:
  assumes r: "row_tight k r" and col: "0 \<le> col" "col < r_columns r" and cp: "scalar cp" "cp \<noteq> VS16"
    and wide: "width cp = 2 \<Longrightarrow> col < r_columns r - 1" and room: "2 * r_columns r + k \<le> 32755"
  shows "\<exists>r'. row_setChar col cp style r = Some r' \<and> row_tight (k + extra cp) r' \<and> row_frame r r' \<and>
    r_style r' ! nat col = style \<and> shown r' = put_char (shown r) (nat col) cp"
proof -
  from r have rep: "row_rep r (cells_of r)" and t: "tight_cells (r_columns r) k (cells_of r)" by (simp_all add: row_tight_def)
  have l: "nat col < length (r_style r)" using rep col by (simp add: row_rep_def)
  have rm: "r_used r \<le> 32755" using row_tight_used [OF r] room by simp
  show ?thesis
  proof (cases "width cp = 0")
    case True
    obtain r' cs' where r': "row_setChar col cp style r = Some r'" "row_rep r' cs'" "row_frame r r'"
      "r_style r' = (r_style r)[nat col := style]"
      "tight_cells (r_columns r) (k + extra cp) cs'" "view r' cs' = put0 (view r (cells_of r)) (nat col) cp"
      using setChar_combining [OF rep col cp(1) True rm] t cp(2) by blast
    then show ?thesis using True l row_tightI [OF r'(2)] cells_of_rep [OF r'(2)]
      by (intro exI [of _ r']) (auto simp: row_frame_def shown_def put_char_def)
  next
    case False
    then have w: "0 < width cp" using width_cases [of cp] by auto
    obtain r' cs' where r': "row_setChar col cp style r = Some r'" "row_rep r' cs'" "row_frame r r'"
      "r_style r' ! nat col = style"
      "tight_cells (r_columns r) (k + extra cp) cs'" "view r' cs' = put (view r (cells_of r)) (nat col) cp"
      using setChar_printing [OF rep col cp(1) w wide rm] t cp(2) by blast
    then show ?thesis using w row_tightI [OF r'(2)] cells_of_rep [OF r'(2)]
      by (intro exI [of _ r']) (auto simp: row_frame_def shown_def put_char_def)
  qed
qed

section \<open>Fresh rows\<close>

lemma blank_cells:
  "enc (replicate n (32, [])) = replicate n 32" "cws (replicate n (32, [])) = int n"
  "list_all cell_ok (replicate n (32, []))" "list_all narrow (replicate n (32, []))"
  "columns (replicate n (32, [])) = replicate n blank" "extras (replicate n (32, [])) = 0"
  by (induction n) (simp_all add: enc_cell_def units_def cw_def cell_ok_def narrow_def scalar_def is_cp_def columns_def)

lemma row_clear_rep:
  assumes "2 \<le> r_columns r" and "r_columns r \<le> 32767" and "r_columns r \<le> int (length (r_text r))"
    and "length (r_style r) = nat (r_columns r)"
  shows "row_rep (row_clear style r) (replicate (nat (r_columns r)) (32, []))"
proof -
  have "\<exists>junk. replicate (length (r_text r)) 32 = replicate (nat (r_columns r)) (32 :: int) @ junk"
    using assms(3) by (intro exI [of _ "replicate (length (r_text r) - nat (r_columns r)) 32"])
      (simp add: replicate_add [symmetric])
  then show ?thesis using assms
    by (simp add: row_rep_def row_clear_def text_at_def blank_cells jshort_id)
qed

lemma row_clear_tight:
  assumes "2 \<le> r_columns r" and "r_columns r \<le> 32767" and "r_columns r \<le> int (length (r_text r))"
    and "length (r_style r) = nat (r_columns r)"
  shows "row_tight 0 (row_clear style r)" and "shown (row_clear style r) = replicate (nat (r_columns r)) blank"
    and "r_used (row_clear style r) = r_columns r" and "row_frame r (row_clear style r)"
    and "r_style (row_clear style r) = replicate (nat (r_columns r)) style"
proof -
  note rep = row_clear_rep [OF assms, of style]
  have t: "tight_cells (r_columns r) 0 (replicate (nat (r_columns r)) (32, []))"
    using assms(1) blank_cells(2,6) by (simp add: tight_cells_def list_all_length)
  show "row_tight 0 (row_clear style r)"
    by (rule row_tightI [OF rep]) (use t in \<open>simp add: row_clear_def\<close>)
  show "shown (row_clear style r) = replicate (nat (r_columns r)) blank"
    using cells_of_rep [OF rep] blank_cells(5) by (simp add: shown_def view_def row_clear_def)
qed (use assms in \<open>simp_all add: row_clear_def row_frame_def jshort_id\<close>)

lemma row_clear_of_tight:
  assumes "row_tight k r"
  shows "row_tight 0 (row_clear style r)" and "shown (row_clear style r) = replicate (nat (r_columns r)) blank"
    and "r_used (row_clear style r) = r_columns r" and "row_frame r (row_clear style r)"
    and "r_style (row_clear style r) = replicate (nat (r_columns r)) style"
  using row_clear_tight [of r style] assms by (simp_all add: row_tight_def row_rep_def)

lemma newRow_tight:
  assumes "2 \<le> c" and "c \<le> 32767"
  shows "row_tight 0 (newRow c style)" and "shown (newRow c style) = replicate (nat c) blank"
    and "r_used (newRow c style) = c" and "r_columns (newRow c style) = c" and "\<not> r_wrap (newRow c style)"
    and "r_style (newRow c style) = replicate (nat c) style"
  using assms unfolding newRow_def
  by (simp_all add: row_clear_tight(1-3,5)) (simp_all add: row_clear_def)

section \<open>Links and underline colours\<close>

lemma setHyperlink_tight: "row_tight k r \<Longrightarrow> row_tight k (row_setHyperlink c u r)"
  by (rule row_tight_frame, assumption)
     (auto simp: row_setHyperlink_def Let_def row_tight_def row_rep_def split: option.splits)

lemma setUnderlineColor_tight: "row_tight k r \<Longrightarrow> row_tight k (setUnderlineColor c u r)"
  by (rule row_tight_frame, assumption)
     (auto simp: setUnderlineColor_def Let_def row_tight_def row_rep_def split: option.splits)

lemma decoration_frame [simp]:
  "row_frame r (row_setHyperlink c l r)" "r_used (row_setHyperlink c l r) = r_used r"
  "r_text (row_setHyperlink c l r) = r_text r" "r_style (row_setHyperlink c l r) = r_style r"
  "row_frame r (setUnderlineColor c u r)" "r_used (setUnderlineColor c u r) = r_used r"
  "r_text (setUnderlineColor c u r) = r_text r" "r_style (setUnderlineColor c u r) = r_style r"
  by (simp_all add: row_setHyperlink_def setUnderlineColor_def row_frame_def Let_def)

section \<open>The contract\<close>

lemma setChar_shown:
  assumes "row_ok r" and "0 \<le> col" and "col < r_columns r" and "scalar cp" and "0 < width cp"
    and "width cp = 2 \<longrightarrow> col < r_columns r - 1" and "r_used r \<le> 32755"
  shows "\<exists>r'. row_setChar col cp style r = Some r' \<and> row_ok r' \<and> r_columns r' = r_columns r \<and>
    r_style r' ! nat col = style \<and> shown r' = put (shown r) (nat col) cp"
proof -
  have rep: "row_rep r (cells_of r)" using assms(1) by (simp add: row_ok_cells)
  obtain r' cs' where r': "row_setChar col cp style r = Some r'" "row_rep r' cs'" "row_frame r r'"
    "r_style r' ! nat col = style" "view r' cs' = put (view r (cells_of r)) (nat col) cp"
    using setChar_printing [OF rep assms(2-5)] assms(6,7) by blast
  then show ?thesis using cells_of_rep [OF r'(2)]
    by (intro exI [of _ r']) (auto simp: row_ok_def row_frame_def shown_def)
qed

text \<open>
  C31. Writing a printing character into any well-formed row, emoji presentation
  and combining characters included, never fails while the text has room, and
  afterwards the row shows what it showed overwritten with that character alone at
  that column: a wide character of which one half was overwritten leaves a blank, and
  the style of the column is the given one. The hypothesis on \<open>kept_marks\<close> excludes a wide
  character whose second half falls on a narrow cell with combining characters (see
  \<open>wide_keeps_marks\<close>).
\<close>

theorem row_setChar_correct:
  assumes "row_ok r" and "0 \<le> col" and "col < r_columns r" and "scalar cp" and "0 < width cp"
    and "width cp = 2 \<longrightarrow> col < r_columns r - 1 \<and> kept_marks (shown r) (nat col) = []" and "r_used r \<le> 32755"
  shows "\<exists>r'. row_setChar col cp style r = Some r' \<and> row_ok r' \<and> r_columns r' = r_columns r \<and>
    r_style r' ! nat col = style \<and> shown r' = overwrite (shown r) (nat col) cp"
  using setChar_shown [OF assms(1-5) _ assms(7)] assms(6) put_overwrite [OF assms(5), of "shown r" "nat col"] by simp

theorem row_setChar_correct_witness:
  "row_ok (newRow 4 0) \<and>
   (\<exists>r'. row_setChar 1 0x4E00 7 (newRow 4 0) = Some r' \<and> row_ok r' \<and> r_style r' ! 1 = 7 \<and>
         shown r' = [blank, Some (0x4E00, []), None, blank])"
proof -
  have w: "width 0x4E00 = 2" by code_simp
  have t: "row_tight 0 (newRow 4 0)" "shown (newRow 4 0) = replicate 4 blank" "r_used (newRow 4 0) = 4"
    "r_columns (newRow 4 0) = 4" using newRow_tight [of 4 0] by simp_all
  then have ok: "row_ok (newRow 4 0)" by (auto simp: row_tight_def row_ok_def)
  moreover have "overwrite (replicate 4 blank) 1 0x4E00 = [blank, Some (0x4E00, []), None, blank]"
    using w by (simp add: overwrite_def Let_def numeral_eq_Suc)
  moreover have "kept_marks (replicate 4 blank) 1 = []"
    by (simp add: kept_marks_def numeral_eq_Suc)
  ultimately show ?thesis
    using row_setChar_correct [OF ok, of 1 "0x4E00" 7] w t by (auto simp: scalar_def is_cp_def)
qed

text \<open>
  The second half of a wide character covers the next cell, but of a narrow cell that is not
  the last of the row only the base is removed: its combining characters are shown on the
  new wide character.
\<close>

theorem wide_keeps_marks:
  assumes "row_ok r" and "0 \<le> col" and "col < r_columns r - 1" and "scalar cp" and "width cp = 2"
    and "r_used r \<le> 32755"
  shows "\<exists>r'. row_setChar col cp style r = Some r' \<and>
    shown r' = (overwrite (shown r) (nat col) cp)[nat col := Some (cp, kept_marks (shown r) (nat col))]"
  using setChar_shown [of r col cp style] assms put_wide [OF assms(5), of "shown r" "nat col"] by auto

theorem wide_keeps_marks_witness:
  "map_option shown (Option.bind (Option.bind (row_setChar 2 97 0 (newRow 4 0)) (row_setChar 2 0x301 0)) (row_setChar 1 0x4E00 0)) =
     Some [blank, Some (0x4E00, [0x301]), None, blank]"
  by code_simp

end
