(* ===== verification/RowCopy.thy ===== *)
theory RowCopy
  imports RowProps
begin

text \<open>
  Copying a part of a row (\<^verbatim>\<open>TerminalRow.copyInterval\<close>): on rows that fill their
  columns it never leaves the destination, and a copied row shows what its source
  showed.
\<close>

lemma unit_at_list:
  assumes "scalar b"
  shows "\<exists>u. aget (P @ units b @ R) (int (length P)) = Some u \<and>
    (if isHighSurrogate u then do { d \<leftarrow> aget (P @ units b @ R) (int (length P) + 1); Some (toCodePoint u d) } else Some u) = Some b \<and>
    int (length P) + (if isHighSurrogate u then 2 else 1) = int (length (P @ units b))"
proof (cases "0x10000 \<le> b")
  case True
  then have "isHighSurrogate (highSurrogate b)" using assms high_surrogate by (simp add: scalar_def is_cp_def)
  moreover have "aget (P @ units b @ R) (int (length P) + 1) = Some (lowSurrogate b)"
    using aget_int [of "P @ units b @ R" "Suc (length P)"] True by (simp add: units_def nth_append add.commute)
  ultimately show ?thesis using True toCodePoint_units [of b] by (simp add: units_def)
next
  case False
  then show ?thesis using scalar_bmp [OF assms] by (simp add: units_def)
qed

definition wsum :: "int list \<Rightarrow> int" where
  "wsum cps = sum_list (map width cps)"

lemma wsum_simps [simp]: "wsum [] = 0" "wsum (c # cps) = width c + wsum cps" "wsum (a @ b) = wsum a + wsum b"
  by (simp_all add: wsum_def)

lemma wsum_nonneg: "0 \<le> wsum cps"
  by (induction cps) simp_all

definition esum :: "int list \<Rightarrow> int" where
  "esum cps = sum_list (map extra cps)"

lemma esum_simps [simp]: "esum [] = 0" "esum (c # cps) = extra c + esum cps" "esum (a @ b) = esum a + esum b"
  by (simp_all add: esum_def)

lemma esum_nonneg: "0 \<le> esum cps"
  by (induction cps) (simp_all add: extra_nonneg)

definition halved :: "bool \<Rightarrow> int list \<Rightarrow> int list" where
  "halved half cps = (if half \<and> cps \<noteq> [] then 32 # tl cps else cps)"

abbreviation drawn :: "int \<Rightarrow> bool" where
  "drawn c \<equiv> scalar c \<and> c \<noteq> VS16"

lemma copy_loop_ok:
  assumes "list_all drawn cps" and "row_tight k r" and "r_columns r = cols"
    and "\<forall>l. line = Some l \<longrightarrow> length (r_style l) = nat cols"
    and "0 \<le> dx" and "dx < cols" and "0 \<le> sx" and "sx < cols" and "0 \<le> latest"
    and "dx + latest + wsum (halved half cps) \<le> cols" and "sx + latest + wsum (halved half cps) \<le> cols"
    and "2 * cols + k + esum (halved half cps) \<le> 32755"
  shows "\<exists>r'. copy_loop line (P @ concat (map units cps) @ R) (int (length P)) (int (length (P @ concat (map units cps))))
      half latest sx dx r = Some r' \<and> row_tight (k + esum (halved half cps)) r' \<and> row_frame r r'"
  using assms
proof (induction cps arbitrary: P half latest sx dx r k)
  case Nil
  then show ?case by (subst copy_loop.simps) (simp add: row_frame_def halved_def)
next
  case (Cons b cps)
  let ?chars = "P @ concat (map units (b # cps)) @ R"
  define cp where "cp = (if half then 32 else b)"
  define dx' where "dx' = (if 0 < width cp then dx + latest else dx)"
  define sx' where "sx' = (if 0 < width cp then sx + latest else sx)"
  define latest' where "latest' = (if 0 < width cp then width cp else latest)"
  have cp: "scalar cp" "cp \<noteq> VS16" using Cons.prems(1) by (auto simp: cp_def scalar_def is_cp_def VS16_def)
  have h: "halved half (b # cps) = cp # cps" by (simp add: halved_def cp_def)
  have sums: "dx + latest + width cp + wsum cps \<le> cols" "sx + latest + width cp + wsum cps \<le> cols"
    using Cons.prems(10,11) h by simp_all
  have dx: "0 \<le> dx'" "dx' < cols" "dx' + latest' + wsum cps \<le> cols" "width cp = 2 \<Longrightarrow> dx' < cols - 1"
    using Cons.prems(5,6,9) sums wsum_nonneg [of cps] width_cases [of cp] by (auto simp: dx'_def latest'_def)
  have sx: "0 \<le> sx'" "sx' < cols" "sx' + latest' + wsum cps \<le> cols"
    using Cons.prems(7,8,9) sums wsum_nonneg [of cps] width_cases [of cp] by (auto simp: sx'_def latest'_def)
  have ch: "?chars = P @ units b @ (concat (map units cps) @ R)" by simp
  have sb: "scalar b" using Cons.prems(1) by simp
  obtain u where u: "aget ?chars (int (length P)) = Some u"
    "(if isHighSurrogate u then do { d \<leftarrow> aget ?chars (int (length P) + 1); Some (toCodePoint u d) } else Some u) = Some b"
    "int (length P) + (if isHighSurrogate u then 2 else 1) = int (length (P @ units b))"
    unfolding ch using unit_at_list [OF sb] by blast
  have "length (r_style r) = nat cols" using Cons.prems(2,3) by (simp add: row_tight_def row_rep_def)
  then obtain st where st: "row_getStyle sx' (case line of None \<Rightarrow> r | Some l \<Rightarrow> l) = Some st"
    using sx Cons.prems(4) by (cases line) (auto simp: row_getStyle_def aget_Some)
  have rm: "2 * cols + k + extra cp + esum cps \<le> 32755" using Cons.prems(12) h by simp
  obtain r1 where r1: "row_setChar dx' cp st r = Some r1" "row_tight (k + extra cp) r1" "row_frame r r1"
    using setChar_tight [OF Cons.prems(2) dx(1) _ cp, of st] dx Cons.prems(3) rm extra_nonneg [of cp] esum_nonneg [of cps] by auto
  define link where "link = getHyperlink sx' (case line of None \<Rightarrow> r1 | Some l \<Rightarrow> l)"
  define r2 where "r2 = (if link \<noteq> None then row_setHyperlink dx' link r1 else r1)"
  define uc where "uc = getUnderlineColor sx' (case line of None \<Rightarrow> r2 | Some l \<Rightarrow> l)"
  define r3 where "r3 = (if uc \<noteq> 0 then setUnderlineColor dx' uc r2 else r2)"
  have r3: "row_tight (k + extra cp) r3" "row_frame r r3"
    using r1 setHyperlink_tight [of _ r1] setUnderlineColor_tight [of _ r2] decoration_frame(1) [of r1]
      decoration_frame(5) [of r2] by (auto simp: r3_def r2_def row_frame_def)
  have lt: "int (length P) < int (length (P @ concat (map units (b # cps))))" by (simp add: units_def)
  have step: "copy_loop line ?chars (int (length P)) (int (length (P @ concat (map units (b # cps))))) half latest sx dx r =
      copy_loop line ?chars (int (length (P @ units b))) (int (length (P @ concat (map units (b # cps)))))
        False latest' sx' dx' r3"
    unfolding r3_def uc_def r2_def link_def u(3) [symmetric]
    by (subst copy_loop.simps)
       (simp only: lt if_True u(1,2) bind.bind_lunit Let_def cp_def [symmetric] dx'_def [symmetric] sx'_def [symmetric]
         latest'_def [symmetric] st r1(1))
  have "\<exists>r'. copy_loop line ((P @ units b) @ concat (map units cps) @ R) (int (length (P @ units b)))
      (int (length ((P @ units b) @ concat (map units cps)))) False latest' sx' dx' r3 = Some r' \<and>
      row_tight (k + extra cp + esum (halved False cps)) r' \<and> row_frame r3 r'"
    using Cons.prems(1,3,4,9) dx sx r3 rm by (intro Cons.IH) (auto simp: row_frame_def halved_def latest'_def)
  then obtain r' where r': "copy_loop line ?chars (int (length (P @ units b)))
      (int (length (P @ concat (map units (b # cps))))) False latest' sx' dx' r3 = Some r'"
      "row_tight (k + extra cp + esum cps) r'" "row_frame r3 r'"
    by (auto simp: halved_def)
  show ?case unfolding step using r' r3 by (intro exI [of _ r']) (simp add: row_frame_def h add.assoc)
qed

text \<open>The cells that an interval of columns selects; its first one may be cut in half.\<close>

lemma interval_cells:
  assumes r: "row_tight k r" and x: "0 \<le> x1" "x1 < x2" "x2 \<le> r_columns r"
  shows "\<exists>xs mid ys. cells_of r = xs @ mid @ ys \<and> findStartOfColumn x1 r = Some (int (length (enc xs))) \<and>
    findStartOfColumn x2 r = Some (int (length (enc (xs @ mid)))) \<and>
    (if 0 < x1 then wideDisplayCharacterStartingAt (x1 - 1) r else Some False) = Some (cws xs = x1 - 1) \<and>
    (cws xs = x1 \<or> cws xs = x1 - 1 \<and> (mid \<noteq> [] \<longrightarrow> cw (hd mid) = 2)) \<and> cws (xs @ mid) \<le> x2"
proof -
  from r have rep: "row_rep r (cells_of r)" and sum: "cws (cells_of r) = r_columns r"
    by (simp_all add: row_tight_def tight_cells_def)
  obtain xs c ys where cs: "cells_of r = xs @ c # ys" "cws xs \<le> x1" "x1 < cws xs + cw c"
    using rep_split [OF rep x(1)] x(2,3) by (metis less_le_trans)
  have rep1: "row_rep r (xs @ c # ys)" using rep cs(1) by simp
  have ok: "list_all cell_ok (xs @ c # ys)" using rep1 by (simp add: row_rep_def)
  have c: "1 \<le> cw c" "cw c \<le> 2" using ok cw_pos [of c] by simp_all
  have pos: "0 \<le> cws xs" using ok cws_nonneg [of xs] by simp
  have f1: "findStartOfColumn x1 r = Some (int (length (enc xs)))" using rep_find [OF rep1 cs(2,3)] x by simp
  have w: "(if 0 < x1 then wideDisplayCharacterStartingAt (x1 - 1) r else Some False) = Some (cws xs = x1 - 1)"
  proof (cases "cws xs = x1")
    case True
    then show ?thesis using aligned_not_extra [OF rep1] by simp
  next
    case False
    then have "cws xs = x1 - 1" "cw c = 2" using cs(2,3) c by auto
    then show ?thesis using rep_wide [OF rep1, of "x1 - 1"] pos by simp
  qed
  have "\<exists>mid zs. c # ys = mid @ zs \<and> findStartOfColumn x2 r = Some (int (length (enc (xs @ mid)))) \<and> cws (xs @ mid) \<le> x2"
  proof (cases "x2 = r_columns r")
    case True
    then show ?thesis using rep1 sum cs(1)
      by (intro exI [of _ "c # ys"] exI [of _ "[]"]) (simp add: findStartOfColumn_def row_rep_def text_at_def)
  next
    case False
    with x have "0 \<le> x2" "x2 < r_columns r" by simp_all
    from rep_split [OF rep this] obtain xs2 c2 ys2 where
      cs2: "cells_of r = xs2 @ c2 # ys2" "cws xs2 \<le> x2" "x2 < cws xs2 + cw c2" .
    have f2: "findStartOfColumn x2 r = Some (int (length (enc xs2)))"
      using rep_find [of r xs2 c2 ys2 x2] rep cs2 \<open>x2 < r_columns r\<close> by simp
    have "xs @ c # ys = xs2 @ c2 # ys2" using cs(1) cs2(1) by simp
    then consider (later) us where "xs2 = xs @ us" "c # ys = us @ c2 # ys2"
      | (before) us where "xs = xs2 @ c2 # us"
      by (fastforce simp: append_eq_append_conv2 Cons_eq_append_conv append_eq_Cons_conv)
    then show ?thesis
    proof cases
      case later
      then show ?thesis using f2 cs2(2) by (intro exI [of _ us] exI [of _ "c2 # ys2"]) simp
    next
      case before
      then have "0 \<le> cws us" using ok cws_nonneg [of us] by simp
      then show ?thesis using before cs(2) cs2(3) x by simp
    qed
  qed
  then obtain mid zs where m: "c # ys = mid @ zs" "findStartOfColumn x2 r = Some (int (length (enc (xs @ mid))))"
    "cws (xs @ mid) \<le> x2" by blast
  have "cws xs = x1 \<or> cws xs = x1 - 1 \<and> (mid \<noteq> [] \<longrightarrow> cw (hd mid) = 2)"
    using cs(2,3) c m(1) by (cases mid) auto
  with cs(1) f1 w m show ?thesis by (intro exI [of _ xs] exI [of _ mid] exI [of _ zs]) simp
qed

lemma wsum_cells:
  "list_all cell_ok cs \<Longrightarrow> list_all (\<lambda>c. VS16 \<notin> set (snd c)) cs \<Longrightarrow> wsum (cps_of cs) = cws cs"
proof (induction cs)
  case (Cons c cs)
  have "wsum zs = 0" if "\<forall>z \<in> set zs. width z = 0" for zs using that by (induction zs) simp_all
  with Cons cw_flat [of c] show ?case by (simp add: cps_of_def cell_ok_def)
qed (simp add: cps_of_def)

lemma esum_cells: "list_all cell_ok cs \<Longrightarrow> esum (cps_of cs) = extras cs"
proof (induction cs)
  case (Cons c cs)
  have "esum zs = int (length (concat (map units zs)))" if "\<forall>z \<in> set zs. width z = 0" for zs
    using that by (induction zs) (simp_all add: extra_def)
  then have "esum (snd c) = int (length (concat (map units (snd c))))" using Cons.prems by (simp add: cell_ok_def)
  with Cons show ?case by (simp add: cps_of_def cell_ok_def extra_def cell_extra_def enc_cell_def)
qed (simp add: cps_of_def)

lemma esum_halved: "esum (halved half cps) \<le> esum cps"
  using extra_nonneg [of "hd cps"] by (cases cps) (simp_all add: halved_def)

lemma cps_drawn:
  "list_all cell_ok cs \<Longrightarrow> list_all (\<lambda>c. VS16 \<notin> set (snd c)) cs \<Longrightarrow> list_all drawn (cps_of cs)"
proof (induction cs)
  case (Cons c cs)
  have "width VS16 = 0" by (simp add: VS16_def) code_simp
  with Cons show ?case by (auto simp: cps_of_def cell_ok_def list_all_iff)
qed (simp add: cps_of_def)

lemma copyInterval_ok:
  assumes r: "row_tight k r" and cols: "r_columns r = cols"
    and line: "\<forall>l. line = Some l \<longrightarrow> row_tight k l \<and> r_columns l = cols"
    and x: "0 \<le> x1" "x1 < x2" "x2 \<le> cols" "0 \<le> dx" "dx + (x2 - x1) \<le> cols"
    and room: "2 * cols + 2 * k \<le> 32755"
  shows "\<exists>r'. copyInterval line x1 x2 dx r = Some r' \<and> row_tight (2 * k) r' \<and> row_frame r r'"
proof -
  define s0 where "s0 = (case line of None \<Rightarrow> r | Some l \<Rightarrow> l)"
  define r1 where "r1 = r\<lparr>r_wide := (r_wide r \<or> r_wide s0)\<rparr>"
  define src where "src = (case line of None \<Rightarrow> r1 | Some l \<Rightarrow> l)"
  have r1: "row_tight k r1" "r_columns r1 = cols" "row_frame r r1"
    using row_tight_frame [OF r, of r1] r cols by (simp_all add: r1_def row_frame_def row_tight_def row_rep_def)
  have src: "row_tight k src" "r_columns src = cols"
    using r1 line by (auto simp: src_def split: option.split)
  obtain xs mid ys where m: "cells_of src = xs @ mid @ ys" "findStartOfColumn x1 src = Some (int (length (enc xs)))"
    "findStartOfColumn x2 src = Some (int (length (enc (xs @ mid))))"
    "(if 0 < x1 then wideDisplayCharacterStartingAt (x1 - 1) src else Some False) = Some (cws xs = x1 - 1)"
    "cws xs = x1 \<or> cws xs = x1 - 1 \<and> (mid \<noteq> [] \<longrightarrow> cw (hd mid) = 2)" "cws (xs @ mid) \<le> x2"
    using interval_cells [OF src(1), of x1 x2] x src(2) by blast
  define half where "half = (cws xs = x1 - 1)"
  have rep: "row_rep src (xs @ mid @ ys)" and flat: "list_all (\<lambda>c. VS16 \<notin> set (snd c)) mid"
    using src(1) m(1) by (simp_all add: row_tight_def tight_cells_def)
  have ok: "list_all cell_ok mid" using rep by (simp add: row_rep_def)
  obtain J where J: "r_text src = enc xs @ concat (map units (cps_of mid)) @ (enc ys @ J)"
    "r_used src = int (length (enc (xs @ mid @ ys)))"
    using rep by (auto simp: row_rep_def text_at_def enc_cps [of mid])
  have "esum (cps_of mid) \<le> k"
    using src(1) m(1) esum_cells [OF ok] extras_nonneg [of xs] extras_nonneg [of ys] by (simp add: row_tight_def tight_cells_def)
  then have es: "esum (halved half (cps_of mid)) \<le> k" using esum_halved [of half "cps_of mid"] by simp
  have ws: "wsum (halved half (cps_of mid)) \<le> x2 - x1"
  proof (cases "half \<and> mid \<noteq> []")
    case True
    then obtain c zs where mid: "mid = c # zs" and h: "cws xs = x1 - 1" by (cases mid) (auto simp: half_def)
    have "cw c = 2" using m(5) True mid h by auto
    moreover have "cw c = width (fst c)" using flat mid cw_flat [of c] by simp
    ultimately have "wsum (halved half (cps_of mid)) = cws mid - 1"
      using wsum_cells [OF ok flat] True mid by (simp add: halved_def cps_of_def)
    then show ?thesis using m(6) h by simp
  next
    case False
    then have "halved half (cps_of mid) = cps_of mid" by (auto simp: halved_def cps_of_def)
    moreover have "cws mid = 0 \<or> cws xs = x1" using m(5) False by (auto simp: half_def)
    ultimately show ?thesis using wsum_cells [OF ok flat] m(6) x by auto
  qed
  have "\<exists>r'. copy_loop line (enc xs @ concat (map units (cps_of mid)) @ (enc ys @ J)) (int (length (enc xs)))
      (int (length (enc xs @ concat (map units (cps_of mid))))) half 0 x1 dx r1 = Some r' \<and>
      row_tight (k + esum (halved half (cps_of mid))) r' \<and> row_frame r1 r'"
    using cps_drawn [OF ok flat] r1 x ws es room line
    by (intro copy_loop_ok [where cols = cols]) (auto simp: row_tight_def row_rep_def)
  then obtain r' where r': "copy_loop line (r_text src) (int (length (enc xs))) (int (length (enc (xs @ mid)))) half 0 x1 dx r1 = Some r'"
    "row_tight (k + esum (halved half (cps_of mid))) r'" "row_frame r1 r'"
    unfolding J(1) using enc_cps [of mid] by auto
  have "copyInterval line x1 x2 dx r = Some r'"
    unfolding copyInterval_def Let_def s0_def [symmetric] r1_def [symmetric] src_def [symmetric] m(2,3,4)
      half_def [symmetric] bind.bind_lunit by (fact r'(1))
  then show ?thesis using r' r1 row_tight_mono [OF r'(2), of "2 * k"] es by (intro exI [of _ r']) (simp add: row_frame_def)
qed

section \<open>The emoji variation selector\<close>

text \<open>
  U+FE0F widens the cell it joins, but nothing takes a column from the rest of
  the row: once that cell is overwritten by a narrow character, the text has more
  columns than the row, and copying the row runs past the end of the styles.
\<close>

lemma variation_selector_breaks_copy:
  "do { r \<leftarrow> row_setChar 0 0x25B6 0 (newRow 4 0);
        r \<leftarrow> row_setChar 0 VS16 0 r;
        r \<leftarrow> row_setChar 0 0x61 0 r;
        copyInterval (Some r) 0 4 0 (newRow 4 0) } = None"
  by code_simp

end
