(* ===== verification/TerminalBuffer.thy ===== *)
theory TerminalBuffer
  imports RowCopy
begin

text \<open>
  \<^verbatim>\<open>TerminalBuffer.java\<close>: the ring of rows that holds the screen and the scrollback
  transcript. Rows are named by external row numbers, from minus the number of
  transcript rows up to the last row of the screen, and live in an array at
  internal indices that wrap around. Array entries may be null until first used.
  No two entries of the array are the same row object, so that a row is a value
  of its entry here.
\<close>

record tbuf =
  b_lines :: "trow option list"
  b_total :: int
  b_srows :: int
  b_cols :: int
  b_active :: int
  b_first :: int

section \<open>Rows\<close>

definition externalToInternalRow :: "int \<Rightarrow> tbuf \<Rightarrow> int option" where
  "externalToInternalRow externalRow b =
     (if externalRow < - b_active b \<or> b_srows b < externalRow then None
      else let internalRow = b_first b + externalRow
           in Some (if internalRow < 0 then b_total b + internalRow else internalRow mod b_total b))"

text \<open>A row that the code dereferences without allocating it.\<close>

definition line_at :: "int \<Rightarrow> tbuf \<Rightarrow> trow option" where
  "line_at externalRow b = do {
     i \<leftarrow> externalToInternalRow externalRow b;
     l \<leftarrow> aget (b_lines b) i;
     l }"

definition set_line :: "int \<Rightarrow> trow \<Rightarrow> tbuf \<Rightarrow> tbuf" where
  "set_line i r b = b\<lparr>b_lines := (b_lines b)[nat i := Some r]\<rparr>"

definition allocateFullLineIfNecessary :: "int \<Rightarrow> tbuf \<Rightarrow> trow option" where
  "allocateFullLineIfNecessary row b = do {
     l \<leftarrow> aget (b_lines b) row;
     Some (case l of None \<Rightarrow> newRow (b_cols b) 0 | Some r \<Rightarrow> r) }"

text \<open>An operation on the row of an external row number, allocated if it was null.\<close>

definition on_line :: "int \<Rightarrow> (trow \<Rightarrow> trow option) \<Rightarrow> tbuf \<Rightarrow> tbuf option" where
  "on_line externalRow f b = do {
     i \<leftarrow> externalToInternalRow externalRow b;
     r \<leftarrow> allocateFullLineIfNecessary i b;
     r' \<leftarrow> f r;
     Some (set_line i r' b) }"

definition setLineWrap :: "int \<Rightarrow> tbuf \<Rightarrow> tbuf option" where
  "setLineWrap row b = do {
     i \<leftarrow> externalToInternalRow row b;
     r \<leftarrow> line_at row b;
     Some (set_line i (r\<lparr>r_wrap := True\<rparr>) b) }"

definition getLineWrap :: "int \<Rightarrow> tbuf \<Rightarrow> bool option" where
  "getLineWrap row b = map_option r_wrap (line_at row b)"

definition clearLineWrap :: "int \<Rightarrow> tbuf \<Rightarrow> tbuf option" where
  "clearLineWrap row b = do {
     i \<leftarrow> externalToInternalRow row b;
     r \<leftarrow> line_at row b;
     Some (set_line i (r\<lparr>r_wrap := False\<rparr>) b) }"

definition getActiveRows :: "tbuf \<Rightarrow> int" where
  "getActiveRows b = b_active b + b_srows b"

definition clearTranscript :: "tbuf \<Rightarrow> tbuf" where
  "clearTranscript b = b\<lparr>b_active := 0\<rparr>"

section \<open>Cells\<close>

definition buf_setChar :: "int \<Rightarrow> int \<Rightarrow> int \<Rightarrow> u64 \<Rightarrow> tbuf \<Rightarrow> tbuf option" where
  "buf_setChar column row codePoint style b =
     (if b_srows b \<le> row \<or> b_cols b \<le> column then None
      else on_line row (row_setChar column codePoint style) b)"

definition getStyleAt :: "int \<Rightarrow> int \<Rightarrow> tbuf \<Rightarrow> (u64 \<times> tbuf) option" where
  "getStyleAt externalRow column b = do {
     i \<leftarrow> externalToInternalRow externalRow b;
     r \<leftarrow> allocateFullLineIfNecessary i b;
     st \<leftarrow> row_getStyle column r;
     Some (st, set_line i r b) }"

definition buf_setHyperlink :: "int \<Rightarrow> int \<Rightarrow> jstring option \<Rightarrow> tbuf \<Rightarrow> tbuf option" where
  "buf_setHyperlink column row uri b =
     (if b_srows b \<le> row \<or> b_cols b \<le> column \<or> column < 0 then Some b
      else on_line row (\<lambda>r. Some (row_setHyperlink column uri r)) b)"

definition setUnderlineColorAt :: "int \<Rightarrow> int \<Rightarrow> u32 \<Rightarrow> tbuf \<Rightarrow> tbuf option" where
  "setUnderlineColorAt column row color b =
     (if b_srows b \<le> row \<or> b_cols b \<le> column \<or> column < 0 then Some b
      else on_line row (\<lambda>r. Some (setUnderlineColor column color r)) b)"

definition getHyperlinkAt :: "int \<Rightarrow> int \<Rightarrow> tbuf \<Rightarrow> (jstring option \<times> tbuf) option" where
  "getHyperlinkAt externalRow column b =
     (if column < 0 \<or> b_cols b \<le> column then Some (None, b)
      else do {
        i \<leftarrow> externalToInternalRow externalRow b;
        r \<leftarrow> allocateFullLineIfNecessary i b;
        Some (getHyperlink column r, set_line i r b) })"

text \<open>The loops of \<^verbatim>\<open>blockSet\<close>, over the columns of a row and over the rows.\<close>

primrec set_cols :: "nat \<Rightarrow> int \<Rightarrow> int \<Rightarrow> int \<Rightarrow> u64 \<Rightarrow> tbuf \<Rightarrow> tbuf option" where
  "set_cols 0 x y val style b = Some b"
| "set_cols (Suc w) x y val style b = do {
     b \<leftarrow> buf_setChar x y val style b;
     set_cols w (x + 1) y val style b }"

primrec set_rows :: "nat \<Rightarrow> nat \<Rightarrow> int \<Rightarrow> int \<Rightarrow> int \<Rightarrow> u64 \<Rightarrow> tbuf \<Rightarrow> tbuf option" where
  "set_rows 0 w x y val style b = Some b"
| "set_rows (Suc h) w x y val style b = do {
     b \<leftarrow> set_cols w x y val style b;
     set_rows h w x (y + 1) val style b }"

definition blockSet :: "int \<Rightarrow> int \<Rightarrow> int \<Rightarrow> int \<Rightarrow> int \<Rightarrow> u64 \<Rightarrow> tbuf \<Rightarrow> tbuf option" where
  "blockSet sx sy w h val style b =
     (if sx < 0 \<or> b_cols b < sx + w \<or> sy < 0 \<or> b_srows b < sy + h then None
      else set_rows (nat h) (nat w) sx sy val style b)"

definition newBuffer :: "int \<Rightarrow> int \<Rightarrow> int \<Rightarrow> tbuf option" where
  "newBuffer cols totalRows screenRows =
     blockSet 0 0 cols screenRows 32 NORMAL
       \<lparr>b_lines = replicate (nat totalRows) None, b_total = totalRows, b_srows = screenRows,
        b_cols = cols, b_active = 0, b_first = 0\<rparr>"

section \<open>Copying and scrolling\<close>

definition copy_row :: "int \<Rightarrow> int \<Rightarrow> int \<Rightarrow> int \<Rightarrow> int \<Rightarrow> tbuf \<Rightarrow> tbuf option" where
  "copy_row sx w dx sourceY destY b = do {
     si \<leftarrow> externalToInternalRow sourceY b;
     source \<leftarrow> allocateFullLineIfNecessary si b;
     let b = set_line si source b;
     di \<leftarrow> externalToInternalRow destY b;
     dest \<leftarrow> allocateFullLineIfNecessary di b;
     r \<leftarrow> copyInterval (if si = di then None else Some source) sx (sx + w) dx dest;
     Some (set_line di r b) }"

text \<open>\<open>n\<close> rows are left to copy; \<open>y\<close> counts them from 0.\<close>

primrec copy_rows :: "nat \<Rightarrow> int \<Rightarrow> int \<Rightarrow> int \<Rightarrow> int \<Rightarrow> int \<Rightarrow> int \<Rightarrow> int \<Rightarrow> tbuf \<Rightarrow> tbuf option" where
  "copy_rows 0 y h sx sy w dx dy b = Some b"
| "copy_rows (Suc n) y h sx sy w dx dy b = do {
     let y2 = (if dy < sy then y else h - (y + 1));
     b \<leftarrow> copy_row sx w dx (sy + y2) (dy + y2) b;
     copy_rows n (y + 1) h sx sy w dx dy b }"

definition blockCopy :: "int \<Rightarrow> int \<Rightarrow> int \<Rightarrow> int \<Rightarrow> int \<Rightarrow> int \<Rightarrow> tbuf \<Rightarrow> tbuf option" where
  "blockCopy sx sy w h dx dy b =
     (if w = 0 then Some b
      else if sx < 0 \<or> b_cols b < sx + w \<or> sy < 0 \<or> b_srows b < sy + h \<or>
              dx < 0 \<or> b_cols b < dx + w \<or> dy < 0 \<or> b_srows b < dy + h then None
      else copy_rows (nat h) 0 h sx sy w dx dy b)"

text \<open>From the bottom to the top, every entry of the block moves one down the ring.\<close>

primrec copy_down :: "nat \<Rightarrow> int \<Rightarrow> int \<Rightarrow> 'a list \<Rightarrow> 'a list option" where
  "copy_down 0 src totalRows ls = Some ls"
| "copy_down (Suc i) src totalRows ls = do {
     l \<leftarrow> aget ls ((src + int i) mod totalRows);
     ls \<leftarrow> aset ls ((src + int i + 1) mod totalRows) l;
     copy_down i src totalRows ls }"

definition ring_down :: "int \<Rightarrow> int \<Rightarrow> int \<Rightarrow> 'a list \<Rightarrow> 'a list option" where
  "ring_down srcInternal len totalRows ls =
     (if len = 0 then Some ls
      else do {
        overwritten \<leftarrow> aget ls ((srcInternal + len) mod totalRows);
        ls \<leftarrow> copy_down (nat len) srcInternal totalRows ls;
        aset ls (srcInternal mod totalRows) overwritten })"

definition blockCopyLinesDown :: "int \<Rightarrow> int \<Rightarrow> tbuf \<Rightarrow> tbuf option" where
  "blockCopyLinesDown srcInternal len b = do {
     ls \<leftarrow> ring_down srcInternal len (b_total b) (b_lines b);
     Some (b\<lparr>b_lines := ls\<rparr>) }"

definition buf_scrollDownOneLine :: "int \<Rightarrow> int \<Rightarrow> u64 \<Rightarrow> tbuf \<Rightarrow> tbuf option" where
  "buf_scrollDownOneLine topMargin bottomMargin style b =
     (if bottomMargin - 1 < topMargin \<or> topMargin < 0 \<or> b_srows b < bottomMargin then None
      else do {
        b \<leftarrow> blockCopyLinesDown (b_first b) topMargin b;
        i \<leftarrow> externalToInternalRow bottomMargin b;
        b \<leftarrow> blockCopyLinesDown i (b_srows b - bottomMargin) b;
        let b = b\<lparr>b_first := (b_first b + 1) mod b_total b\<rparr>;
        let b = (if b_active b < b_total b - b_srows b then b\<lparr>b_active := b_active b + 1\<rparr> else b);
        blankRow \<leftarrow> externalToInternalRow (bottomMargin - 1) b;
        l \<leftarrow> aget (b_lines b) blankRow;
        Some (set_line blankRow (case l of None \<Rightarrow> newRow (b_cols b) style | Some r \<Rightarrow> row_clear style r) b) })"

section \<open>Attributes of a rectangle\<close>

definition new_effect :: "u32 \<Rightarrow> bool \<Rightarrow> bool \<Rightarrow> u32 \<Rightarrow> u32" where
  "new_effect bits setOrClear reverse effect =
     (if reverse then (effect AND NOT bits) OR (bits AND NOT effect)
      else if setOrClear then effect OR bits
      else effect AND NOT bits)"

primrec effect_cols :: "nat \<Rightarrow> u32 \<Rightarrow> bool \<Rightarrow> bool \<Rightarrow> int \<Rightarrow> trow \<Rightarrow> trow option" where
  "effect_cols 0 bits setOrClear reverse x line = Some line"
| "effect_cols (Suc n) bits setOrClear reverse x line = do {
     currentStyle \<leftarrow> row_getStyle x line;
     let effect = new_effect bits setOrClear reverse (decodeEffect currentStyle);
     st \<leftarrow> aset (r_style line) x (encode (decodeForeColor currentStyle) (decodeBackColor currentStyle) effect);
     effect_cols n bits setOrClear reverse (x + 1) (line\<lparr>r_style := st\<rparr>) }"

primrec effect_rows ::
  "nat \<Rightarrow> u32 \<Rightarrow> bool \<Rightarrow> bool \<Rightarrow> bool \<Rightarrow> int \<Rightarrow> int \<Rightarrow> int \<Rightarrow> int \<Rightarrow> int \<Rightarrow> int \<Rightarrow> int \<Rightarrow> tbuf \<Rightarrow> tbuf option" where
  "effect_rows 0 bits setOrClear reverse rectangular leftMargin rightMargin topRow left bottomRow right y b = Some b"
| "effect_rows (Suc n) bits setOrClear reverse rectangular leftMargin rightMargin topRow left bottomRow right y b = do {
     i \<leftarrow> externalToInternalRow y b;
     line \<leftarrow> line_at y b;
     let startOfLine = (if rectangular \<or> y = topRow then left else leftMargin);
     let endOfLine = (if rectangular \<or> y + 1 = bottomRow then right else rightMargin);
     line \<leftarrow> effect_cols (nat (endOfLine - startOfLine)) bits setOrClear reverse startOfLine line;
     effect_rows n bits setOrClear reverse rectangular leftMargin rightMargin topRow left bottomRow right (y + 1)
       (set_line i line b) }"

definition setOrClearEffect ::
  "u32 \<Rightarrow> bool \<Rightarrow> bool \<Rightarrow> bool \<Rightarrow> int \<Rightarrow> int \<Rightarrow> int \<Rightarrow> int \<Rightarrow> int \<Rightarrow> int \<Rightarrow> tbuf \<Rightarrow> tbuf option" where
  "setOrClearEffect bits setOrClear reverse rectangular leftMargin rightMargin topRow left bottomRow right b =
     effect_rows (nat (bottomRow - topRow)) bits setOrClear reverse rectangular leftMargin rightMargin topRow left bottomRow right topRow b"

end
