(* ===== verification/BufferRing.thy ===== *)
theory BufferRing
  imports TerminalBuffer
begin

text \<open>
  The ring of rows seen through external row numbers: an abstract transcript and
  an abstract screen, and what scrolling does to them. The moves of whole rows in
  the array are shown to be rotations first.
\<close>

section \<open>Rotations of a ring\<close>

lemma mod_inj:
  assumes "0 \<le> j" and "j < n" and "0 \<le> k" and "k < n"
  shows "(s + j) mod n = (s + k) mod n \<longleftrightarrow> j = (k :: int)"
proof
  assume "(s + j) mod n = (s + k) mod n"
  then have "j mod n = k mod n" by (metis add_diff_cancel_left' mod_diff_left_eq mod_diff_right_eq diff_self)
  then show "j = k" using assms by simp
qed simp

lemma nat_mod_inj:
  assumes "0 \<le> j" and "j < n" and "0 \<le> k" and "k < n"
  shows "nat ((s + j) mod n) = nat ((s + k) mod n) \<longleftrightarrow> j = (k :: int)"
  using mod_inj [OF assms, of s] assms by (metis eq_nat_nat_iff order.strict_trans1 pos_mod_sign)

lemma ring_index: "0 < n \<Longrightarrow> n \<le> int (length ls) \<Longrightarrow> 0 \<le> i mod n \<and> i mod n < int (length ls) \<and> nat (i mod n) < length ls"
  by (smt (verit) nat_less_iff pos_mod_bound pos_mod_sign)

lemma copy_down_ring:
  assumes "0 < n" and "n \<le> int (length ls)" and "int m < n"
  shows "\<exists>ls'. copy_down m src n ls = Some ls' \<and> length ls' = length ls \<and>
    (\<forall>k. 0 \<le> k \<longrightarrow> k < n \<longrightarrow>
       ls' ! nat ((src + k) mod n) = ls ! nat ((src + (if 1 \<le> k \<and> k \<le> int m then k - 1 else k)) mod n))"
  using assms
proof (induction m arbitrary: ls)
  case (Suc i)
  note ix = ring_index [OF Suc.prems(1,2)]
  define l where "l = ls ! nat ((src + int i) mod n)"
  define ls1 where "ls1 = ls[nat ((src + (int i + 1)) mod n) := l]"
  have get: "aget ls ((src + int i) mod n) = Some l" using ix by (simp add: aget_def l_def)
  have set: "aset ls ((src + int i + 1) mod n) l = Some ls1" using ix by (simp add: aset_def ls1_def add.assoc)
  have at1: "ls1 ! nat ((src + k) mod n) = (if k = int i + 1 then l else ls ! nat ((src + k) mod n))"
    if "0 \<le> k" "k < n" for k
    using nat_mod_inj [of k n "int i + 1" src] that Suc.prems(3) ix [of "src + (int i + 1)"]
    by (auto simp: ls1_def nth_list_update)
  obtain ls' where ls': "copy_down i src n ls1 = Some ls'" "length ls' = length ls1"
    "\<And>k. 0 \<le> k \<Longrightarrow> k < n \<Longrightarrow>
       ls' ! nat ((src + k) mod n) = ls1 ! nat ((src + (if 1 \<le> k \<and> k \<le> int i then k - 1 else k)) mod n)"
    using Suc.IH [of ls1] Suc.prems by (auto simp: ls1_def)
  have "ls' ! nat ((src + k) mod n) = ls ! nat ((src + (if 1 \<le> k \<and> k \<le> int (Suc i) then k - 1 else k)) mod n)"
    if "0 \<le> k" "k < n" for k
    using that ls'(3) [OF that] at1 [of k] at1 [of "k - 1"] by (auto simp: l_def)
  then show ?case using get set ls' by (simp add: ls1_def)
qed simp

text \<open>Moving a block of \<open>m\<close> entries down turns the \<open>m + 1\<close> entries from its start by one.\<close>

definition turned :: "int \<Rightarrow> int \<Rightarrow> int" where
  "turned m k = (if m = 0 then k else if k = 0 then m else if k \<le> m then k - 1 else k)"

lemma ring_down_turns:
  assumes n: "0 < n" "n \<le> int (length ls)" and m: "0 \<le> m" "m < n"
  shows "\<exists>ls'. ring_down src m n ls = Some ls' \<and> length ls' = length ls \<and>
    (\<forall>k. 0 \<le> k \<longrightarrow> k < n \<longrightarrow> ls' ! nat ((src + k) mod n) = ls ! nat ((src + turned m k) mod n))"
proof (cases "m = 0")
  case True
  then show ?thesis by (simp add: ring_down_def turned_def)
next
  case False
  note ix = ring_index [OF n]
  define x where "x = ls ! nat ((src + m) mod n)"
  obtain ls1 where ls1: "copy_down (nat m) src n ls = Some ls1" "length ls1 = length ls"
    "\<And>k. 0 \<le> k \<Longrightarrow> k < n \<Longrightarrow>
       ls1 ! nat ((src + k) mod n) = ls ! nat ((src + (if 1 \<le> k \<and> k \<le> m then k - 1 else k)) mod n)"
    using copy_down_ring [OF n, of "nat m" src] m by auto
  have "aget ls ((src + m) mod n) = Some x" using ix by (simp add: aget_def x_def)
  moreover have "aset ls1 (src mod n) x = Some (ls1[nat (src mod n) := x])"
    using ix ls1(2) by (simp add: aset_def)
  moreover have "(ls1[nat (src mod n) := x]) ! nat ((src + k) mod n) = ls ! nat ((src + turned m k) mod n)"
    if "0 \<le> k" "k < n" for k
    using nat_mod_inj [of k n 0 src] that n ls1(2,3) ix [of src] False
    by (auto simp: nth_list_update turned_def x_def)
  ultimately show ?thesis using False ls1(1,2) by (simp add: ring_down_def)
qed

lemma copy_down_set: "copy_down m src n ls = Some ls' \<Longrightarrow> set ls' \<subseteq> set ls"
proof (induction m arbitrary: ls)
  case (Suc i)
  then obtain l ls1 where "aget ls ((src + int i) mod n) = Some l" "aset ls ((src + int i + 1) mod n) l = Some ls1"
    "copy_down i src n ls1 = Some ls'" by (auto simp: bind_eq_Some_conv)
  then show ?case using Suc.IH [of ls1] set_update_subset_insert [of ls "nat ((src + int i + 1) mod n)" l]
    by (auto dest!: aget_SomeD aset_SomeD)
qed simp

lemma ring_down_set: "ring_down src m n ls = Some ls' \<Longrightarrow> set ls' \<subseteq> set ls"
  using set_update_subset_insert
  by (fastforce simp: ring_down_def bind_eq_Some_conv split: if_splits dest!: aget_SomeD aset_SomeD copy_down_set)

section \<open>Well-formed buffers\<close>

definition ring_ok :: "tbuf \<Rightarrow> bool" where
  "ring_ok b \<longleftrightarrow> 0 < b_total b \<and> b_total b \<le> int (length (b_lines b)) \<and> 0 \<le> b_first b \<and> 0 \<le> b_active b \<and> 0 \<le> b_srows b \<and>
     b_active b + b_srows b \<le> b_total b"

definition entry :: "tbuf \<Rightarrow> int \<Rightarrow> trow option" where
  "entry b e = b_lines b ! nat ((b_first b + e) mod b_total b)"

definition row_fits :: "int \<Rightarrow> int \<Rightarrow> trow \<Rightarrow> bool" where
  "row_fits k cols r \<longleftrightarrow> row_tight k r \<and> r_columns r = cols"

definition lines_fit :: "int \<Rightarrow> int \<Rightarrow> trow option list \<Rightarrow> bool" where
  "lines_fit k cols ls \<longleftrightarrow> (\<forall>r. Some r \<in> set ls \<longrightarrow> row_fits k cols r)"

lemma row_fits_mono: "row_fits k cols r \<Longrightarrow> k \<le> k' \<Longrightarrow> row_fits k' cols r"
  using row_tight_mono by (auto simp: row_fits_def)

lemma lines_fit_mono: "lines_fit k cols ls \<Longrightarrow> k \<le> k' \<Longrightarrow> lines_fit k' cols ls"
  using row_fits_mono by (auto simp: lines_fit_def)

lemma lines_fit_update: "lines_fit k cols ls \<Longrightarrow> row_fits k cols r \<Longrightarrow> lines_fit k cols (ls[i := Some r])"
  by (auto simp: lines_fit_def dest!: set_update_subset_insert [THEN subsetD])

text \<open>
  Every row of the transcript and the screen exists, and every row of the array
  fits the buffer and needs at most \<open>k\<close> units for combining characters.
\<close>

definition buf_ok :: "int \<Rightarrow> tbuf \<Rightarrow> bool" where
  "buf_ok k b \<longleftrightarrow> ring_ok b \<and> 2 \<le> b_cols b \<and> b_cols b \<le> 1000 \<and>
     (\<forall>e. - b_active b \<le> e \<longrightarrow> e < b_srows b \<longrightarrow> entry b e \<noteq> None) \<and>
     lines_fit k (b_cols b) (b_lines b)"

definition geometry :: "tbuf \<Rightarrow> tbuf \<Rightarrow> bool" where
  "geometry b b' \<longleftrightarrow> b_total b' = b_total b \<and> b_srows b' = b_srows b \<and> b_cols b' = b_cols b \<and>
     b_active b' = b_active b \<and> b_first b' = b_first b"

definition screen :: "tbuf \<Rightarrow> trow list" where
  "screen b = map (\<lambda>e. the (entry b (int e))) [0..<nat (b_srows b)]"

definition transcript :: "tbuf \<Rightarrow> trow list" where
  "transcript b = map (\<lambda>k. the (entry b (int k - b_active b))) [0..<nat (b_active b)]"

lemma buf_ok_ring: "buf_ok k b \<Longrightarrow> ring_ok b"
  by (simp add: buf_ok_def)

lemma buf_ok_mono: "buf_ok k b \<Longrightarrow> k \<le> k' \<Longrightarrow> buf_ok k' b"
  using lines_fit_mono by (auto simp: buf_ok_def)

lemma external_internal:
  assumes "ring_ok b" and "- b_active b \<le> e" and "e \<le> b_srows b"
  shows "externalToInternalRow e b = Some ((b_first b + e) mod b_total b)"
proof (cases "b_first b + e < 0")
  case True
  then have "(b_first b + e) mod b_total b = (b_total b + (b_first b + e)) mod b_total b" by simp
  also have "\<dots> = b_total b + (b_first b + e)" using assms True by (intro mod_pos_pos_trivial) (auto simp: ring_ok_def)
  finally show ?thesis using assms True by (simp add: externalToInternalRow_def Let_def)
qed (use assms in \<open>simp add: externalToInternalRow_def Let_def\<close>)

lemma entry_index:
  assumes "ring_ok b"
  shows "0 \<le> (b_first b + e) mod b_total b" and "(b_first b + e) mod b_total b < int (length (b_lines b))"
    and "nat ((b_first b + e) mod b_total b) < length (b_lines b)"
  using assms ring_index [of "b_total b" "b_lines b"] by (auto simp: ring_ok_def)

lemma entry_same:
  assumes "ring_ok b" and "- b_active b \<le> d" and "d < b_srows b" and "- b_active b \<le> e" and "e < b_srows b"
  shows "nat ((b_first b + d) mod b_total b) = nat ((b_first b + e) mod b_total b) \<longleftrightarrow> d = e"
  using nat_mod_inj [of "d + b_active b" "b_total b" "e + b_active b" "b_first b - b_active b"] assms
  by (auto simp: ring_ok_def algebra_simps)

lemma screen_row:
  assumes "buf_ok k b" and "0 \<le> e" and "e < b_srows b"
  shows "entry b e = Some (screen b ! nat e)" and "row_fits k (b_cols b) (screen b ! nat e)" and "nat e < length (screen b)"
proof -
  have "- b_active b \<le> e" using assms(1,2) by (simp add: buf_ok_def ring_ok_def)
  then obtain r where r: "entry b e = Some r" using assms(1,3) by (auto simp: buf_ok_def)
  moreover have "row_fits k (b_cols b) r"
  proof -
    have "entry b e \<in> set (b_lines b)"
      unfolding entry_def using entry_index(3) [OF buf_ok_ring [OF assms(1)]] by (rule nth_mem)
    then show ?thesis using assms(1) r by (simp add: buf_ok_def lines_fit_def)
  qed
  ultimately show "entry b e = Some (screen b ! nat e)" "row_fits k (b_cols b) (screen b ! nat e)"
    using assms(2,3) by (simp_all add: screen_def)
  show "nat e < length (screen b)" using assms(2,3) by (simp add: screen_def)
qed

text \<open>Replacing one row of the screen.\<close>

lemma set_line_entry:
  assumes ok: "buf_ok k b" and e: "0 \<le> e" "e < b_srows b" and d: "- b_active b \<le> d" "d < b_srows b"
  shows "entry (set_line ((b_first b + e) mod b_total b) r b) d = (if d = e then Some r else entry b d)"
proof -
  have ring: "ring_ok b" using ok by (simp add: buf_ok_def)
  then have "- b_active b \<le> e" using e by (simp add: ring_ok_def)
  with entry_same [OF ring d this e(2)] entry_index(3) [OF ring] show ?thesis
    by (auto simp: entry_def set_line_def nth_list_update)
qed

lemma set_line_ok:
  assumes ok: "buf_ok k b" and e: "0 \<le> e" "e < b_srows b" and r: "row_fits k (b_cols b) r"
  defines "b' \<equiv> set_line ((b_first b + e) mod b_total b) r b"
  shows "buf_ok k b'" and "geometry b b'" and "screen b' = (screen b)[nat e := r]" and "transcript b' = transcript b"
proof -
  note ent = set_line_entry [OF ok e, where r = r, folded b'_def]
  show geo: "geometry b b'" by (simp add: b'_def set_line_def geometry_def)
  have ring: "ring_ok b'" using ok by (simp add: buf_ok_def ring_ok_def b'_def set_line_def)
  have "lines_fit k (b_cols b) (b_lines b')" using ok r by (simp add: buf_ok_def b'_def set_line_def lines_fit_update)
  then show "buf_ok k b'" using ok geo ring ent by (auto simp: buf_ok_def geometry_def)
  show "screen b' = (screen b)[nat e := r]"
    using geo e ent ok by (intro nth_equalityI) (auto simp: screen_def geometry_def nth_list_update buf_ok_def ring_ok_def)
  show "transcript b' = transcript b"
    using geo e ent ok by (intro nth_equalityI) (auto simp: transcript_def geometry_def buf_ok_def ring_ok_def)
qed

lemma geometry_simps:
  "geometry b b' \<Longrightarrow> b_srows b' = b_srows b" "geometry b b' \<Longrightarrow> b_cols b' = b_cols b"
  "geometry b b' \<Longrightarrow> b_total b' = b_total b" "geometry b b' \<Longrightarrow> b_active b' = b_active b"
  by (simp_all add: geometry_def)

end
