(* ===== verification/BufferScroll.thy ===== *)
theory BufferScroll
  imports BufferRing
begin

text \<open>
  Scrolling refines its specification on lists: the rows between the margins move
  up, a blank row appears above the bottom margin, and the row that leaves the
  region becomes the newest row of the transcript, whose oldest row goes when the
  ring is full.
\<close>

lemma mod_below: "- n \<le> x \<Longrightarrow> x < 0 \<Longrightarrow> x mod n = x + (n :: int)"
  using mod_pos_pos_trivial [of "x + n" n] by simp

text \<open>Where the entry at position \<open>p\<close> from the old start of the screen comes from.\<close>

definition came_from :: "int \<Rightarrow> int \<Rightarrow> int \<Rightarrow> int" where
  "came_from tp bt p = (if p < 0 then p else if p = 0 then tp else if p \<le> tp then p - 1 else if p < bt then p else p - 1)"

lemma two_turns:
  fixes n s tp bt rows p :: int and L L1 L2 :: "int \<Rightarrow> 'a"
  assumes L1: "\<And>k. 0 \<le> k \<Longrightarrow> k < n \<Longrightarrow> L1 ((s + k) mod n) = L ((s + turned tp k) mod n)"
    and L2: "\<And>k. 0 \<le> k \<Longrightarrow> k < n \<Longrightarrow> L2 (((s + bt) mod n + k) mod n) = L1 (((s + bt) mod n + turned (rows - bt) k) mod n)"
    and bounds: "0 \<le> tp" "tp < bt" "bt \<le> rows" "rows \<le> n" "rows - n < p" "p \<le> rows" "p \<noteq> bt"
  shows "L2 ((s + p) mod n) = L ((s + came_from tp bt p) mod n)"
proof -
  have n: "0 < n" using bounds by simp
  define k where "k = (p - bt) mod n"
  have k: "0 \<le> k" "k < n" using n by (simp_all add: k_def)
  have "(s + p) mod n = ((s + bt) mod n + k) mod n" unfolding k_def by (simp add: mod_simps)
  moreover have "((s + bt) mod n + turned (rows - bt) k) mod n = (s + (bt + turned (rows - bt) k)) mod n"
    by (simp add: mod_simps add.assoc)
  ultimately have step2: "L2 ((s + p) mod n) = L1 ((s + (bt + turned (rows - bt) k)) mod n)" using L2 [OF k] by simp
  define q where "q = (if p \<le> 0 then p + n else if p < bt then p else p - 1)"
  have q: "0 \<le> q" "q < n \<or> p = 0 \<and> q = n" using bounds by (auto simp: q_def)
  have "(s + (bt + turned (rows - bt) k)) mod n = (s + q) mod n"
  proof (cases "p < bt")
    case True
    then have "k = p - bt + n" unfolding k_def using bounds by (intro mod_below) auto
    then have "bt + turned (rows - bt) k = p + n" using bounds True by (auto simp: turned_def)
    then show ?thesis using True by (auto simp: q_def add.assoc [symmetric])
  next
    case False
    then have "k = p - bt" unfolding k_def using bounds by (intro mod_pos_pos_trivial) auto
    then have "bt + turned (rows - bt) k = p - 1" using bounds False by (auto simp: turned_def)
    then show ?thesis using False bounds by (auto simp: q_def)
  qed
  with step2 have "L2 ((s + p) mod n) = L1 ((s + q) mod n)" by simp
  also have "\<dots> = L ((s + came_from tp bt p) mod n)"
  proof (cases "p = 0")
    case True
    then have "(s + q) mod n = (s + 0) mod n" by (simp add: q_def)
    then show ?thesis using L1 [of 0] n True bounds by (auto simp: came_from_def turned_def)
  next
    case False
    with q have "q < n" by auto
    then have "L1 ((s + q) mod n) = L ((s + turned tp q) mod n)" using L1 q(1) by simp
    moreover have "(s + turned tp q) mod n = (s + came_from tp bt p) mod n"
      using False bounds by (auto simp: came_from_def turned_def q_def add.assoc [symmetric])
    ultimately show ?thesis by simp
  qed
  finally show ?thesis .
qed

text \<open>A row that was just cleared.\<close>

definition fresh_row :: "int \<Rightarrow> u64 \<Rightarrow> trow \<Rightarrow> bool" where
  "fresh_row cols style r \<longleftrightarrow> row_fits 0 cols r \<and> shown r = replicate (nat cols) blank \<and> r_used r = cols \<and>
     r_style r = replicate (nat cols) style"

lemma cleared_row:
  assumes "\<And>r. l = Some r \<Longrightarrow> row_fits k cols r" and "2 \<le> cols" and "cols \<le> 1000"
  shows "fresh_row cols style (case l of None \<Rightarrow> newRow cols style | Some r \<Rightarrow> row_clear style r)"
  using assms newRow_tight [of cols style] row_clear_of_tight [of k "the l" style]
  by (cases l) (auto simp: fresh_row_def row_fits_def row_frame_def)

text \<open>The ring before the new row is cleared.\<close>

lemma scroll_ring:
  assumes ok: "buf_ok k b" and m: "0 \<le> tp" "tp < bt" "bt \<le> b_srows b"
  shows "\<exists>ls x. buf_scrollDownOneLine tp bt style b =
      Some (set_line ((b_first b + bt) mod b_total b) (case x of None \<Rightarrow> newRow (b_cols b) style | Some r \<Rightarrow> row_clear style r)
        (b\<lparr>b_lines := ls, b_first := (b_first b + 1) mod b_total b,
           b_active := min (b_active b + 1) (b_total b - b_srows b)\<rparr>)) \<and>
    length ls = length (b_lines b) \<and> set ls \<subseteq> set (b_lines b) \<and> x \<in> set (b_lines b) \<and>
    (\<forall>p. b_srows b - b_total b < p \<longrightarrow> p \<le> b_srows b \<longrightarrow> p \<noteq> bt \<longrightarrow>
       ls ! nat ((b_first b + p) mod b_total b) = entry b (came_from tp bt p))"
proof -
  let ?n = "b_total b" and ?s = "b_first b" and ?ls = "b_lines b"
  have ring: "ring_ok b" using ok by (simp add: buf_ok_def)
  have n: "0 < ?n" "?n \<le> int (length ?ls)" using ring by (auto simp: ring_ok_def)
  have tpn: "tp < ?n" "b_srows b - bt < ?n" using ring m by (auto simp: ring_ok_def)
  obtain ls1 where ls1: "ring_down ?s tp ?n ?ls = Some ls1" "length ls1 = length ?ls"
    "\<And>k. 0 \<le> k \<Longrightarrow> k < ?n \<Longrightarrow> ls1 ! nat ((?s + k) mod ?n) = ?ls ! nat ((?s + turned tp k) mod ?n)"
    using ring_down_turns [OF n m(1) tpn(1), of ?s] by blast
  have n1: "?n \<le> int (length ls1)" using n ls1(2) by simp
  have m2: "0 \<le> b_srows b - bt" using m by simp
  obtain ls2 where ls2: "ring_down ((?s + bt) mod ?n) (b_srows b - bt) ?n ls1 = Some ls2" "length ls2 = length ls1"
    "\<And>k. 0 \<le> k \<Longrightarrow> k < ?n \<Longrightarrow> ls2 ! nat (((?s + bt) mod ?n + k) mod ?n) =
       ls1 ! nat (((?s + bt) mod ?n + turned (b_srows b - bt) k) mod ?n)"
    using ring_down_turns [OF n(1) n1 m2 tpn(2), of "(?s + bt) mod ?n"] by blast
  have sets: "set ls2 \<subseteq> set ?ls"
    using ring_down_set [OF ls1(1)] ring_down_set [OF ls2(1)] by blast
  have pos: "\<forall>p. b_srows b - ?n < p \<longrightarrow> p \<le> b_srows b \<longrightarrow> p \<noteq> bt \<longrightarrow>
      ls2 ! nat ((?s + p) mod ?n) = entry b (came_from tp bt p)"
    using two_turns [of ?n "\<lambda>i. ls1 ! nat i" ?s "\<lambda>i. ?ls ! nat i" tp "\<lambda>i. ls2 ! nat i" bt "b_srows b"] ls1(3) ls2(3) m ring
    by (auto simp: entry_def ring_ok_def)
  define b1 where "b1 = b\<lparr>b_lines := ls1\<rparr>"
  define b2 where "b2 = b\<lparr>b_lines := ls2, b_first := (?s + 1) mod ?n, b_active := min (b_active b + 1) (?n - b_srows b)\<rparr>"
  have "ring_ok b1" "ring_ok b2" using ring ls1(2) ls2(2) n by (auto simp: ring_ok_def b1_def b2_def)
  then have e1: "externalToInternalRow bt b1 = Some ((?s + bt) mod ?n)"
    and e2: "externalToInternalRow (bt - 1) b2 = Some ((?s + bt) mod ?n)"
    using m external_internal [of b1 bt] external_internal [of b2 "bt - 1"]
    by (auto simp: b1_def b2_def ring_ok_def mod_simps)
  have b2: "b2 = (if b_active b < ?n - b_srows b
      then b\<lparr>b_lines := ls2, b_first := (?s + 1) mod ?n, b_active := b_active b + 1\<rparr>
      else b\<lparr>b_lines := ls2, b_first := (?s + 1) mod ?n\<rparr>)"
    using ring by (auto simp: b2_def ring_ok_def min_def)
  define x where "x = ls2 ! nat ((?s + bt) mod ?n)"
  have lt: "nat ((?s + bt) mod ?n) < length ls2" using entry_index(3) [OF ring] ls1(2) ls2(2) by simp
  then have x: "aget ls2 ((?s + bt) mod ?n) = Some x" "x \<in> set ls2"
    using n by (simp_all add: aget_def x_def)
  have "buf_scrollDownOneLine tp bt style b =
      Some (set_line ((?s + bt) mod ?n) (case x of None \<Rightarrow> newRow (b_cols b) style | Some r \<Rightarrow> row_clear style r) b2)"
    using m ls1(1) ls2(1) e1 e2 x(1) unfolding b2 b1_def
    by (cases "b_active b < ?n - b_srows b"; cases x) (simp_all add: buf_scrollDownOneLine_def blockCopyLinesDown_def Let_def)
  then show ?thesis using x(2) sets pos ls1(2) ls2(2) unfolding b2_def by (intro exI [of _ ls2] exI [of _ x]) auto
qed

lemma buf_ok_nonneg:
  assumes "buf_ok k b" and "0 \<le> tp" and "tp < bt" and "bt \<le> b_srows b"
  shows "0 \<le> k"
  using screen_row(2) [OF assms(1), of 0] assms row_tight_nonneg by (auto simp: row_fits_def)

text \<open>The rows that external row numbers name after scrolling.\<close>

lemma scroll_entries:
  assumes ok: "buf_ok k b" and m: "0 \<le> tp" "tp < bt" "bt \<le> b_srows b"
  shows "\<exists>b' row. buf_scrollDownOneLine tp bt style b = Some b' \<and> buf_ok k b' \<and>
    b_total b' = b_total b \<and> b_srows b' = b_srows b \<and> b_cols b' = b_cols b \<and>
    b_active b' = min (b_active b + 1) (b_total b - b_srows b) \<and> fresh_row (b_cols b) style row \<and>
    (\<forall>e. - b_active b' \<le> e \<longrightarrow> e < b_srows b \<longrightarrow>
       entry b' e = (if e = bt - 1 then Some row else entry b (came_from tp bt (e + 1))))"
proof -
  let ?n = "b_total b" and ?s = "b_first b"
  have k: "0 \<le> k" using buf_ok_nonneg [OF ok m] .
  have ring: "ring_ok b" and cols: "2 \<le> b_cols b" "b_cols b \<le> 1000"
    and all: "lines_fit k (b_cols b) (b_lines b)"
    using ok by (simp_all add: buf_ok_def)
  have n: "0 < ?n" using ring by (auto simp: ring_ok_def)
  obtain ls x where s: "buf_scrollDownOneLine tp bt style b =
      Some (set_line ((?s + bt) mod ?n) (case x of None \<Rightarrow> newRow (b_cols b) style | Some r \<Rightarrow> row_clear style r)
        (b\<lparr>b_lines := ls, b_first := (?s + 1) mod ?n, b_active := min (b_active b + 1) (?n - b_srows b)\<rparr>))"
    and ls: "length ls = length (b_lines b)" "set ls \<subseteq> set (b_lines b)" "x \<in> set (b_lines b)"
      "\<And>p. b_srows b - ?n < p \<Longrightarrow> p \<le> b_srows b \<Longrightarrow> p \<noteq> bt \<Longrightarrow> ls ! nat ((?s + p) mod ?n) = entry b (came_from tp bt p)"
    using scroll_ring [OF ok m, of style] by blast
  define row where "row = (case x of None \<Rightarrow> newRow (b_cols b) style | Some r \<Rightarrow> row_clear style r)"
  define b' where "b' = b\<lparr>b_lines := ls[nat ((?s + bt) mod ?n) := Some row], b_first := (?s + 1) mod ?n,
      b_active := min (b_active b + 1) (?n - b_srows b)\<rparr>"
  have fresh: "fresh_row (b_cols b) style row"
    unfolding row_def using all ls(3) cols by (intro cleared_row [of _ k]) (auto simp: lines_fit_def)
  have ring': "ring_ok b'" using ring ls(1) n by (auto simp: ring_ok_def b'_def)
  have ent: "entry b' e = (if e = bt - 1 then Some row else entry b (came_from tp bt (e + 1)))"
    if e: "- b_active b' \<le> e" "e < b_srows b" for e
  proof -
    have p: "b_srows b - ?n < e + 1" "e + 1 \<le> b_srows b" using e by (auto simp: b'_def)
    have i: "((?s + 1) mod ?n + e) mod ?n = (?s + (e + 1)) mod ?n" by (simp add: mod_simps ac_simps)
    have "nat ((?s + (e + 1)) mod ?n) = nat ((?s + bt) mod ?n) \<longleftrightarrow> e + 1 = bt"
      using nat_mod_inj [of "e + 1 - (b_srows b - ?n) - 1" ?n "bt - (b_srows b - ?n) - 1" "?s + (b_srows b - ?n) + 1"] p m n
        ring by (auto simp: algebra_simps ring_ok_def)
    moreover have "nat ((?s + bt) mod ?n) < length ls" using entry_index(3) [OF ring] ls(1) by simp
    moreover have "entry b' e = ls[nat ((?s + bt) mod ?n) := Some row] ! nat ((?s + (e + 1)) mod ?n)"
      by (simp add: entry_def b'_def i)
    ultimately show ?thesis using ls(4) [OF p] by (auto simp: nth_list_update)
  qed
  have "entry b' e \<noteq> None" if e: "- b_active b' \<le> e" "e < b_srows b" for e
  proof (cases "e = bt - 1")
    case False
    have "- b_active b \<le> came_from tp bt (e + 1) \<and> came_from tp bt (e + 1) < b_srows b"
      using e m False ring by (auto simp: came_from_def b'_def ring_ok_def)
    then show ?thesis using ent [OF e] False ok by (simp add: buf_ok_def)
  qed (use ent [OF e] in simp)
  moreover have "lines_fit k (b_cols b) (b_lines b')"
    unfolding b'_def using all ls(2) fresh row_fits_mono [of 0 "b_cols b" row k] k
    by (simp add: fresh_row_def) (rule lines_fit_update, auto simp: lines_fit_def)
  moreover have "b_cols b' = b_cols b" "b_srows b' = b_srows b" by (simp_all add: b'_def)
  ultimately have "buf_ok k b'" using ring' cols by (simp add: buf_ok_def)
  moreover have "buf_scrollDownOneLine tp bt style b = Some b'" using s by (simp add: b'_def set_line_def row_def)
  ultimately show ?thesis using ent fresh by (intro exI [of _ b'] exI [of _ row]) (simp add: b'_def)
qed

section \<open>Scrolling on lists\<close>

definition scroll_spec :: "nat \<Rightarrow> nat \<Rightarrow> 'a \<Rightarrow> 'a list \<Rightarrow> 'a list" where
  "scroll_spec tp bt row S = take tp S @ drop (tp + 1) (take bt S) @ [row] @ drop bt S"

lemma scroll_spec_nth:
  assumes "tp < bt" and "bt \<le> length S" and "i < length S"
  shows "scroll_spec tp bt row S ! i = (if i < tp then S ! i else if i < bt - 1 then S ! Suc i else if i = bt - 1 then row else S ! i)"
  using assms by (auto simp: scroll_spec_def nth_append min_def)

lemma length_scroll_spec [simp]: "tp < bt \<Longrightarrow> bt \<le> length S \<Longrightarrow> length (scroll_spec tp bt row S) = length S"
  by (auto simp: scroll_spec_def)

text \<open>The newest \<open>n\<close> rows are kept.\<close>

definition keep_newest :: "nat \<Rightarrow> 'a list \<Rightarrow> 'a list" where
  "keep_newest n T = drop (length T - n) T"

lemma length_screen [simp]: "length (screen b) = nat (b_srows b)"
  by (simp add: screen_def)

lemma length_transcript [simp]: "length (transcript b) = nat (b_active b)"
  by (simp add: transcript_def)

lemma scroll_lists:
  assumes ok: "buf_ok k b" and m: "0 \<le> tp" "tp < bt" "bt \<le> b_srows b"
  shows "\<exists>b' row. buf_scrollDownOneLine tp bt style b = Some b' \<and> buf_ok k b' \<and>
    b_total b' = b_total b \<and> b_srows b' = b_srows b \<and> b_cols b' = b_cols b \<and> fresh_row (b_cols b) style row \<and>
    screen b' = scroll_spec (nat tp) (nat bt) row (screen b) \<and>
    transcript b' = keep_newest (nat (b_total b - b_srows b)) (transcript b @ [screen b ! nat tp])"
proof -
  obtain b' row where b': "buf_scrollDownOneLine tp bt style b = Some b'" "buf_ok k b'" "b_total b' = b_total b"
    "b_srows b' = b_srows b" "b_cols b' = b_cols b" "b_active b' = min (b_active b + 1) (b_total b - b_srows b)"
    "fresh_row (b_cols b) style row"
    and ent: "\<And>e. - b_active b' \<le> e \<Longrightarrow> e < b_srows b \<Longrightarrow>
       entry b' e = (if e = bt - 1 then Some row else entry b (came_from tp bt (e + 1)))"
    using scroll_entries [OF ok m, of style] by blast
  have act: "0 \<le> b_active b" "0 \<le> b_active b'" using ok b'(2) by (simp_all add: buf_ok_def ring_ok_def)
  have "screen b' = scroll_spec (nat tp) (nat bt) row (screen b)"
  proof (rule nth_equalityI)
    show "length (screen b') = length (scroll_spec (nat tp) (nat bt) row (screen b))" using m b'(4) by simp
    fix i assume "i < length (screen b')"
    then have i: "int i < b_srows b" using b'(4) by simp
    then have "screen b' ! i = the (if int i = bt - 1 then Some row else entry b (came_from tp bt (int i + 1)))"
      using b'(4) act ent [of "int i"] by (simp add: screen_def)
    moreover have "scroll_spec (nat tp) (nat bt) row (screen b) ! i =
        (if i < nat tp then screen b ! i else if i < nat bt - 1 then screen b ! Suc i else if i = nat bt - 1 then row else screen b ! i)"
      using m i by (intro scroll_spec_nth) auto
    ultimately show "screen b' ! i = scroll_spec (nat tp) (nat bt) row (screen b) ! i"
      using i m by (auto simp: screen_def came_from_def nat_add_distrib ac_simps)
  qed
  moreover have "transcript b' = keep_newest (nat (b_total b - b_srows b)) (transcript b @ [screen b ! nat tp])"
  proof (rule nth_equalityI)
    let ?T = "transcript b @ [screen b ! nat tp]"
    show "length (transcript b') = length (keep_newest (nat (b_total b - b_srows b)) ?T)"
      using b'(6) act ok by (auto simp: keep_newest_def min_def buf_ok_def ring_ok_def)
    fix k assume "k < length (transcript b')"
    then have k: "int k < b_active b'" by simp
    have "transcript b' ! k = the (entry b' (int k - b_active b'))" using k by (simp add: transcript_def)
    also have "\<dots> = the (entry b (came_from tp bt (int k - b_active b' + 1)))"
      using ent [of "int k - b_active b'"] k m by auto
    also have "\<dots> = ?T ! (k + nat (b_active b + 1 - b_active b'))"
    proof (cases "int k = b_active b' - 1")
      case True
      then have "k + nat (b_active b + 1 - b_active b') = nat (b_active b)" using b'(6) by auto
      then show ?thesis using True m by (simp add: came_from_def nth_append screen_def)
    next
      case False
      with k have "came_from tp bt (int k - b_active b' + 1) = int (k + nat (b_active b + 1 - b_active b')) - b_active b"
        "k + nat (b_active b + 1 - b_active b') < nat (b_active b)" using b'(6) by (auto simp: came_from_def)
      then show ?thesis by (simp add: nth_append transcript_def)
    qed
    also have "k + nat (b_active b + 1 - b_active b') = length ?T - nat (b_total b - b_srows b) + k"
      using k b'(6) act by (auto simp: min_def split: if_splits)
    also have "?T ! \<dots> = keep_newest (nat (b_total b - b_srows b)) ?T ! k"
      unfolding keep_newest_def by (rule nth_drop [symmetric]) simp
    finally show "transcript b' ! k = keep_newest (nat (b_total b - b_srows b)) ?T ! k" .
  qed
  ultimately show ?thesis using b' by blast
qed

end
