(* ===== verification/BufferOps.thy ===== *)
theory BufferOps
  imports BufferScroll
begin

text \<open>
  What the other operations of the buffer do to the screen, and that none of them
  fails on the rows and columns of the screen while the rows have room for their
  text.
\<close>

definition same_size :: "tbuf \<Rightarrow> tbuf \<Rightarrow> bool" where
  "same_size b b' \<longleftrightarrow> b_total b' = b_total b \<and> b_srows b' = b_srows b \<and> b_cols b' = b_cols b"

lemma same_size_refl [simp]: "same_size b b"
  by (simp add: same_size_def)

lemma same_size_trans: "same_size a b \<Longrightarrow> same_size b c \<Longrightarrow> same_size a c"
  by (simp add: same_size_def)

lemma geometry_same_size: "geometry b b' \<Longrightarrow> same_size b b'"
  by (simp add: geometry_def same_size_def)

lemma geometry_trans: "geometry a b \<Longrightarrow> geometry b c \<Longrightarrow> geometry a c"
  by (simp add: geometry_def)

section \<open>One row\<close>

text \<open>The effect of an operation that replaces one row of the screen.\<close>

definition updates_row :: "int \<Rightarrow> tbuf \<Rightarrow> int \<Rightarrow> trow \<Rightarrow> tbuf \<Rightarrow> bool" where
  "updates_row k b e r b' \<longleftrightarrow>
     buf_ok k b' \<and> geometry b b' \<and> screen b' = (screen b)[nat e := r] \<and> transcript b' = transcript b"

lemma line_at_ok:
  assumes ok: "buf_ok k b" and e: "0 \<le> e" "e < b_srows b"
  shows "line_at e b = Some (screen b ! nat e)" and "externalToInternalRow e b = Some ((b_first b + e) mod b_total b)"
    and "allocateFullLineIfNecessary ((b_first b + e) mod b_total b) b = Some (screen b ! nat e)"
proof -
  have ring: "ring_ok b" "- b_active b \<le> e" using ok e by (auto simp: buf_ok_def ring_ok_def)
  show x: "externalToInternalRow e b = Some ((b_first b + e) mod b_total b)"
    using external_internal [OF ring] e by simp
  show "allocateFullLineIfNecessary ((b_first b + e) mod b_total b) b = Some (screen b ! nat e)"
    using screen_row(1) [OF ok e] entry_index [OF ring(1), of e]
    by (simp add: allocateFullLineIfNecessary_def aget_def entry_def)
  show "line_at e b = Some (screen b ! nat e)"
    using x screen_row(1) [OF ok e] entry_index [OF ring(1), of e] by (simp add: line_at_def aget_def entry_def)
qed

lemma set_line_updates:
  "buf_ok k b \<Longrightarrow> 0 \<le> e \<Longrightarrow> e < b_srows b \<Longrightarrow> row_fits k (b_cols b) r \<Longrightarrow>
   updates_row k b e r (set_line ((b_first b + e) mod b_total b) r b)"
  using set_line_ok [of k b e r] by (simp add: updates_row_def)

lemma on_line_ok:
  assumes ok: "buf_ok k b" and e: "0 \<le> e" "e < b_srows b" and f: "f (screen b ! nat e) = Some r" and r: "row_fits k (b_cols b) r"
  shows "\<exists>b'. on_line e f b = Some b' \<and> updates_row k b e r b'"
  using line_at_ok [OF ok e] set_line_updates [OF ok e r] f by (simp add: on_line_def)

lemma buf_setChar_row:
  assumes ok: "buf_ok k b" and col: "0 \<le> col" "col < b_cols b" and row: "0 \<le> row" "row < b_srows b"
    and cp: "drawn cp" and wide: "width cp = 2 \<Longrightarrow> col < b_cols b - 1" and k: "k \<le> 30000"
  shows "\<exists>b' r. buf_setChar col row cp style b = Some b' \<and> updates_row (k + extra cp) b row r b' \<and>
    r_style r ! nat col = style \<and> shown r = put_char (shown (screen b ! nat row)) (nat col) cp"
proof -
  have fits: "row_tight k (screen b ! nat row)" "r_columns (screen b ! nat row) = b_cols b"
    using screen_row(2) [OF ok row] by (simp_all add: row_fits_def)
  have c: "2 * b_cols b + k \<le> 32755" using ok k by (simp add: buf_ok_def)
  obtain r where r: "row_setChar col cp style (screen b ! nat row) = Some r" "row_tight (k + extra cp) r"
    "row_frame (screen b ! nat row) r" "r_style r ! nat col = style"
    "shown r = put_char (shown (screen b ! nat row)) (nat col) cp"
    using setChar_tight [OF fits(1) col(1), of cp style] fits(2) col cp wide c by auto
  have fit: "row_fits (k + extra cp) (b_cols b) r" using r(2,3) fits(2) by (simp add: row_fits_def row_frame_def)
  have ok': "buf_ok (k + extra cp) b" using buf_ok_mono [OF ok] extra_nonneg [of cp] by simp
  obtain b' where "on_line row (row_setChar col cp style) b = Some b'" "updates_row (k + extra cp) b row r b'"
    using on_line_ok [OF ok' row, of "row_setChar col cp style", OF r(1) fit] by blast
  with r(4,5) col row show ?thesis by (auto simp: buf_setChar_def)
qed

lemma updates_same_size: "updates_row k b e r b' \<Longrightarrow> buf_ok k b' \<and> same_size b b'"
  by (simp add: updates_row_def geometry_same_size)

lemma buf_setChar_ok:
  assumes "buf_ok k b" and "0 \<le> col" "col < b_cols b" and "0 \<le> row" "row < b_srows b"
    and "drawn cp" and "width cp = 2 \<Longrightarrow> col < b_cols b - 1" and "k \<le> 30000"
  shows "\<exists>b'. buf_setChar col row cp style b = Some b' \<and> buf_ok (k + extra cp) b' \<and> same_size b b'"
  using buf_setChar_row [OF assms, of style] updates_same_size by blast

lemma row_fits_decor:
  shows "row_fits k cols r \<Longrightarrow> row_fits k cols (row_setHyperlink c u r)"
    and "row_fits k cols r \<Longrightarrow> row_fits k cols (setUnderlineColor c v r)"
    and "row_fits k cols r \<Longrightarrow> row_fits k cols (r\<lparr>r_wrap := w\<rparr>)"
proof -
  assume r: "row_fits k cols r"
  show "row_fits k cols (row_setHyperlink c u r)"
    using r setHyperlink_tight [of k r c u] decoration_frame(1) [of r c u] by (simp add: row_fits_def row_frame_def)
  show "row_fits k cols (setUnderlineColor c v r)"
    using r setUnderlineColor_tight [of k r c v] decoration_frame(5) [of r c v] by (simp add: row_fits_def row_frame_def)
  have "row_tight k (r\<lparr>r_wrap := w\<rparr>)"
  proof (rule row_tight_frame)
    show t: "row_tight k r" using r by (simp add: row_fits_def)
    show "\<forall>l. r_link (r\<lparr>r_wrap := w\<rparr>) = Some l \<longrightarrow> length l = nat (r_columns r)"
      and "\<forall>u. r_ucolor (r\<lparr>r_wrap := w\<rparr>) = Some u \<longrightarrow> length u = nat (r_columns r)"
      using t by (simp_all add: row_tight_def row_rep_def)
  qed simp_all
  then show "row_fits k cols (r\<lparr>r_wrap := w\<rparr>)" using r by (simp add: row_fits_def)
qed

lemma decor_ok:
  assumes ok: "buf_ok k b" and row: "0 \<le> row" "row < b_srows b"
  shows "\<exists>b'. buf_setHyperlink col row uri b = Some b' \<and> buf_ok k b' \<and> same_size b b'"
    and "\<exists>b'. setUnderlineColorAt col row c b = Some b' \<and> buf_ok k b' \<and> same_size b b'"
    and "\<exists>b'. setLineWrap row b = Some b' \<and> buf_ok k b' \<and> same_size b b'"
    and "\<exists>b'. clearLineWrap row b = Some b' \<and> buf_ok k b' \<and> same_size b b'"
    and "\<exists>w. getLineWrap row b = Some w"
    and "0 \<le> x \<Longrightarrow> x < b_cols b \<Longrightarrow> \<exists>st b'. getStyleAt row x b = Some (st, b') \<and> buf_ok k b' \<and> same_size b b'"
proof -
  let ?r = "screen b ! nat row"
  have fit: "row_fits k (b_cols b) ?r" using screen_row(2) [OF ok row] .
  have on: "\<exists>b'. on_line row (\<lambda>r. Some (f r)) b = Some b' \<and> buf_ok k b' \<and> same_size b b'"
    if "row_fits k (b_cols b) (f ?r)" for f
    using on_line_ok [OF ok row, of "\<lambda>r. Some (f r)", OF refl that] updates_same_size by blast
  show "\<exists>b'. buf_setHyperlink col row uri b = Some b' \<and> buf_ok k b' \<and> same_size b b'"
    using on [of "row_setHyperlink col uri"] row_fits_decor(1) [OF fit] ok by (auto simp: buf_setHyperlink_def)
  show "\<exists>b'. setUnderlineColorAt col row c b = Some b' \<and> buf_ok k b' \<and> same_size b b'"
    using on [of "setUnderlineColor col c"] row_fits_decor(2) [OF fit] ok by (auto simp: setUnderlineColorAt_def)
  have upd: "buf_ok k (set_line ((b_first b + row) mod b_total b) r b) \<and>
      same_size b (set_line ((b_first b + row) mod b_total b) r b)" if "row_fits k (b_cols b) r" for r
    using updates_same_size [OF set_line_updates [OF ok row that]] .
  show "\<exists>b'. setLineWrap row b = Some b' \<and> buf_ok k b' \<and> same_size b b'"
    using upd [OF row_fits_decor(3) [OF fit]] by (simp add: setLineWrap_def line_at_ok [OF ok row])
  show "\<exists>b'. clearLineWrap row b = Some b' \<and> buf_ok k b' \<and> same_size b b'"
    using upd [OF row_fits_decor(3) [OF fit]] by (simp add: clearLineWrap_def line_at_ok [OF ok row])
  show "\<exists>w. getLineWrap row b = Some w" by (simp add: getLineWrap_def line_at_ok [OF ok row])
  assume x: "0 \<le> x" "x < b_cols b"
  have "row_getStyle x ?r = Some (r_style ?r ! nat x)"
    using fit x by (simp add: row_getStyle_def row_fits_def row_tight_def row_rep_def aget_Some)
  then show "\<exists>st b'. getStyleAt row x b = Some (st, b') \<and> buf_ok k b' \<and> same_size b b'"
    using upd [OF fit] by (simp add: getStyleAt_def line_at_ok [OF ok row])
qed

end
