(* ===== verification/BufferBlocks.thy ===== *)
theory BufferBlocks
  imports BufferOps
begin

text \<open>Operations on rectangles of the screen, and new buffers.\<close>

section \<open>Filling\<close>

lemma set_cols_row:
  assumes "buf_ok k b" and "0 \<le> x" and "x + int w \<le> b_cols b" and "0 \<le> y" and "y < b_srows b"
    and "drawn val" and "width val \<noteq> 2" and "extra val = 0" and "k \<le> 30000"
  shows "\<exists>b' r. set_cols w x y val style b = Some b' \<and> updates_row k b y r b'"
  using assms
proof (induction w arbitrary: x b)
  case 0
  then show ?case by (auto simp: updates_row_def geometry_def intro!: exI [of _ "screen b ! nat y"])
next
  case (Suc w)
  have lt: "x < b_cols b" using Suc.prems(3) by simp
  obtain b1 r1 where b1: "buf_setChar x y val style b = Some b1" "updates_row k b y r1 b1"
    using buf_setChar_row [OF Suc.prems(1,2) lt Suc.prems(4,5,6) _ Suc.prems(9), of style] Suc.prems(7,8) by fastforce
  have u: "buf_ok k b1" "b_cols b1 = b_cols b" "b_srows b1 = b_srows b" "screen b1 = (screen b)[nat y := r1]" "geometry b b1"
    "transcript b1 = transcript b"
    using b1(2) by (simp_all add: updates_row_def geometry_def)
  obtain b2 r2 where b2: "set_cols w (x + 1) y val style b1 = Some b2" "updates_row k b1 y r2 b2"
    using Suc.IH [of b1 "x + 1"] u Suc.prems by auto
  have "updates_row k b y r2 b2"
    using b2(2) u geometry_trans [OF u(5)] by (simp add: updates_row_def)
  then show ?case using b1 b2 by (intro exI [of _ b2] exI [of _ r2]) simp
qed

lemma set_rows_ok:
  assumes "buf_ok k b" and "0 \<le> x" and "x + int w \<le> b_cols b" and "0 \<le> y" and "y + int h \<le> b_srows b"
    and "drawn val" and "width val \<noteq> 2" and "extra val = 0" and "k \<le> 30000"
  shows "\<exists>b'. set_rows h w x y val style b = Some b' \<and> buf_ok k b' \<and> geometry b b' \<and> transcript b' = transcript b"
  using assms
proof (induction h arbitrary: y b)
  case 0
  then show ?case by (simp add: geometry_def)
next
  case (Suc h)
  have y: "y < b_srows b" using Suc.prems(4,5) by simp
  obtain b1 r1 where b1: "set_cols w x y val style b = Some b1" "updates_row k b y r1 b1"
    using set_cols_row [OF Suc.prems(1-4) y Suc.prems(6-9), of style] by auto
  have u: "buf_ok k b1" "b_cols b1 = b_cols b" "b_srows b1 = b_srows b" "geometry b b1" "transcript b1 = transcript b"
    using b1(2) by (simp_all add: updates_row_def geometry_def)
  obtain b2 where b2: "set_rows h w x (y + 1) val style b1 = Some b2" "buf_ok k b2" "geometry b1 b2"
    "transcript b2 = transcript b1"
    using Suc.IH [of b1 "y + 1"] u Suc.prems by auto
  then show ?case using b1(1) u geometry_trans [OF u(4) b2(3)] by simp
qed

lemma blockSet_ok:
  assumes ok: "buf_ok k b" and sx: "0 \<le> sx" "sx + w \<le> b_cols b" and sy: "0 \<le> sy" "sy + h \<le> b_srows b"
    and val: "drawn val" "width val \<noteq> 2" "extra val = 0" and k: "k \<le> 30000"
  shows "\<exists>b'. blockSet sx sy w h val style b = Some b' \<and> buf_ok k b' \<and> same_size b b' \<and> transcript b' = transcript b"
proof (cases "0 \<le> w \<and> 0 \<le> h")
  case True
  then obtain b' where "set_rows (nat h) (nat w) sx sy val style b = Some b'" "buf_ok k b'"
    "geometry b b'" "transcript b' = transcript b"
    using set_rows_ok [OF ok sx(1) _ sy(1) _ val k, of "nat w" "nat h" style] sx sy by auto
  then show ?thesis using sx sy geometry_same_size [of b b'] by (auto simp: blockSet_def)
next
  case False
  have "set_rows n 0 x y val style b = Some b" for n x y by (induction n arbitrary: y) simp_all
  then have "set_rows (nat h) (nat w) sx sy val style b = Some b" using False by auto
  then show ?thesis using sx sy ok by (auto simp: blockSet_def)
qed

section \<open>Copying\<close>

lemma copy_row_ok:
  assumes ok: "buf_ok K b" and x: "0 \<le> sx" "0 < w" "sx + w \<le> b_cols b" "0 \<le> dx" "dx + w \<le> b_cols b"
    and y: "0 \<le> sy" "sy < b_srows b" "0 \<le> dy" "dy < b_srows b"
    and rows: "row_tight k (screen b ! nat sy)" "row_tight k (screen b ! nat dy)" and k: "2 * k \<le> K" "K \<le> 30000"
  shows "\<exists>b' r. copy_row sx w dx sy dy b = Some b' \<and> updates_row K b dy r b'"
proof -
  let ?S = "screen b ! nat sy" and ?D = "screen b ! nat dy"
  have fs: "row_fits K (b_cols b) ?S" "row_fits K (b_cols b) ?D" using screen_row(2) [OF ok] y by auto
  have c: "2 * b_cols b + 2 * k \<le> 32755" using ok k by (simp add: buf_ok_def)
  define b1 where "b1 = set_line ((b_first b + sy) mod b_total b) ?S b"
  have u1: "updates_row K b sy ?S b1" unfolding b1_def using set_line_updates [OF ok y(1,2) fs(1)] .
  then have b1: "buf_ok K b1" "geometry b b1" "screen b1 = screen b" "transcript b1 = transcript b"
    by (simp_all add: updates_row_def)
  have g: "b_first b1 = b_first b" "b_total b1 = b_total b" "b_srows b1 = b_srows b" "b_cols b1 = b_cols b"
    using b1(2) by (simp_all add: geometry_def)
  have ring: "ring_ok b" "- b_active b \<le> sy" "- b_active b \<le> dy" using ok y by (auto simp: buf_ok_def ring_ok_def)
  have same: "((b_first b + sy) mod b_total b = (b_first b + dy) mod b_total b) \<longleftrightarrow> sy = dy"
    using entry_same [OF ring(1,2) y(2) ring(3) y(4)] entry_index(1) [OF ring(1), of sy] entry_index(1) [OF ring(1), of dy]
    by (simp add: eq_nat_nat_iff)
  define line where "line = (if sy = dy then None else Some ?S)"
  have ln: "\<forall>l. line = Some l \<longrightarrow> row_tight k l \<and> r_columns l = b_cols b" using fs rows by (auto simp: line_def row_fits_def)
  obtain r where r: "copyInterval line sx (sx + w) dx ?D = Some r" "row_tight (2 * k) r" "row_frame ?D r"
    using copyInterval_ok [OF rows(2) _ ln, of sx "sx + w" dx] fs(2) x c by (auto simp: row_fits_def)
  have fr: "row_fits K (b_cols b1) r" using r(2,3) fs(2) g row_tight_mono [OF r(2) k(1)] by (simp add: row_fits_def row_frame_def)
  have ly: "dy < b_srows b1" using y g by simp
  have "copy_row sx w dx sy dy b = Some (set_line ((b_first b1 + dy) mod b_total b1) r b1)"
    using line_at_ok [OF ok y(1,2)] line_at_ok [OF b1(1) y(3) ly] r(1) b1(3) g same
    by (simp add: copy_row_def Let_def b1_def [symmetric] line_def)
  moreover have "updates_row K b dy r (set_line ((b_first b1 + dy) mod b_total b1) r b1)"
    using set_line_updates [OF b1(1) y(3) ly fr] b1 geometry_trans [OF b1(2)] by (simp add: updates_row_def)
  ultimately show ?thesis by blast
qed

text \<open>The rows that have been written when \<open>y\<close> rows are done.\<close>

definition copied :: "int \<Rightarrow> int \<Rightarrow> int \<Rightarrow> int \<Rightarrow> int \<Rightarrow> bool" where
  "copied y h sy dy i \<longleftrightarrow> (if dy < sy then dy \<le> i \<and> i < dy + y else dy + h - y \<le> i \<and> i < dy + h)"

lemma copy_rows_ok:
  assumes "buf_ok (2 * k) b" and "0 \<le> sx" "0 < w" "sx + w \<le> b_cols b" "0 \<le> dx" "dx + w \<le> b_cols b"
    and "0 \<le> sy" "sy + h \<le> b_srows b" "0 \<le> dy" "dy + h \<le> b_srows b"
    and "0 \<le> y" "y + int n = h" and "2 * k \<le> 30000"
    and "\<And>i. 0 \<le> i \<Longrightarrow> i < b_srows b \<Longrightarrow> \<not> copied y h sy dy i \<Longrightarrow> row_tight k (screen b ! nat i)"
  shows "\<exists>b'. copy_rows n y h sx sy w dx dy b = Some b' \<and> buf_ok (2 * k) b' \<and> geometry b b' \<and> transcript b' = transcript b"
  using assms
proof (induction n arbitrary: y b)
  case 0
  then show ?case by (simp add: geometry_def)
next
  case (Suc n)
  define y2 where "y2 = (if dy < sy then y else h - (y + 1))"
  have y2: "0 \<le> y2" "y2 < h" using Suc.prems(11,12) by (auto simp: y2_def)
  have rows: "0 \<le> sy + y2" "sy + y2 < b_srows b" "0 \<le> dy + y2" "dy + y2 < b_srows b"
    using y2 Suc.prems(7-10) by auto
  have "\<not> copied y h sy dy (sy + y2)" "\<not> copied y h sy dy (dy + y2)"
    using y2 by (auto simp: copied_def y2_def)
  then have "row_tight k (screen b ! nat (sy + y2))" "row_tight k (screen b ! nat (dy + y2))"
    using Suc.prems(14) rows by blast+
  then obtain b1 r where b1: "copy_row sx w dx (sy + y2) (dy + y2) b = Some b1" "updates_row (2 * k) b (dy + y2) r b1"
    using copy_row_ok [OF Suc.prems(1-6) rows] Suc.prems(13) by fastforce
  have u: "buf_ok (2 * k) b1" "b_cols b1 = b_cols b" "b_srows b1 = b_srows b" "screen b1 = (screen b)[nat (dy + y2) := r]"
    "geometry b b1" "transcript b1 = transcript b"
    using b1(2) by (simp_all add: updates_row_def geometry_def)
  have "row_tight k (screen b1 ! nat i)" if i: "0 \<le> i" "i < b_srows b1" "\<not> copied (y + 1) h sy dy i" for i
  proof -
    have "i \<noteq> dy + y2" using i(3) y2 by (auto simp: copied_def y2_def)
    then have "\<not> copied y h sy dy i" "nat (dy + y2) \<noteq> nat i" using i rows by (auto simp: copied_def y2_def)
    then show ?thesis using Suc.prems(14) [of i] i u(3,4) by simp
  qed
  then obtain b2 where b2: "copy_rows n (y + 1) h sx sy w dx dy b1 = Some b2" "buf_ok (2 * k) b2" "geometry b1 b2"
    "transcript b2 = transcript b1"
    using Suc.IH [of b1 "y + 1"] u Suc.prems(2-13) by auto
  then show ?case using b1(1) u geometry_trans [OF u(5) b2(3)] by (simp add: Let_def y2_def [symmetric])
qed

lemma blockCopy_ok:
  assumes ok: "buf_ok k b" and x: "0 \<le> sx" "0 \<le> w" "sx + w \<le> b_cols b" "0 \<le> dx" "dx + w \<le> b_cols b"
    and y: "0 \<le> sy" "sy + h \<le> b_srows b" "0 \<le> dy" "dy + h \<le> b_srows b" and k: "0 \<le> k" "2 * k \<le> 30000"
  shows "\<exists>b'. blockCopy sx sy w h dx dy b = Some b' \<and> buf_ok (2 * k) b' \<and> same_size b b' \<and> transcript b' = transcript b"
proof (cases "w = 0 \<or> h \<le> 0")
  case True
  then show ?thesis using buf_ok_mono [OF ok, of "2 * k"] k x y by (auto simp: blockCopy_def)
next
  case False
  have ok2: "buf_ok (2 * k) b" using buf_ok_mono [OF ok, of "2 * k"] k by simp
  have "row_tight k (screen b ! nat i)" if "0 \<le> i" "i < b_srows b" for i
    using screen_row(2) [OF ok that] by (simp add: row_fits_def)
  then obtain b' where "copy_rows (nat h) 0 h sx sy w dx dy b = Some b'" "buf_ok (2 * k) b'" "geometry b b'"
    "transcript b' = transcript b"
    using copy_rows_ok [OF ok2 x(1) _ x(3-5) y, of 0 "nat h"] False x(2) k by auto
  then show ?thesis using False x y geometry_same_size [of b b'] by (auto simp: blockCopy_def)
qed

section \<open>Scrolling and attributes\<close>

lemma scroll_ok:
  assumes "buf_ok k b" and "0 \<le> tp" "tp < bt" "bt \<le> b_srows b"
  shows "\<exists>b'. buf_scrollDownOneLine tp bt style b = Some b' \<and> buf_ok k b' \<and> same_size b b'"
  using scroll_lists [OF assms, of style] by (auto simp: same_size_def)

lemma clearTranscript_ok: "buf_ok k b \<Longrightarrow> buf_ok k (clearTranscript b) \<and> same_size b (clearTranscript b)"
  by (auto simp: buf_ok_def ring_ok_def clearTranscript_def entry_def same_size_def)

lemma effect_cols_ok:
  assumes "row_fits k cols r" and "0 \<le> x" and "x + int n \<le> cols"
  shows "\<exists>r'. effect_cols n bits s v x r = Some r' \<and> row_fits k cols r'"
  using assms
proof (induction n arbitrary: x r)
  case (Suc n)
  have len: "length (r_style r) = nat cols" and t: "row_tight k r"
    using Suc.prems(1) by (auto simp: row_fits_def row_tight_def row_rep_def)
  define st where "st = (r_style r)[nat x := encode (decodeForeColor (r_style r ! nat x)) (decodeBackColor (r_style r ! nat x))
      (new_effect bits s v (decodeEffect (r_style r ! nat x)))]"
  have "row_tight k (r\<lparr>r_style := st\<rparr>)"
  proof (rule row_tight_frame [OF t])
    show "\<forall>l. r_link (r\<lparr>r_style := st\<rparr>) = Some l \<longrightarrow> length l = nat (r_columns r)"
      and "\<forall>u. r_ucolor (r\<lparr>r_style := st\<rparr>) = Some u \<longrightarrow> length u = nat (r_columns r)"
      using t by (simp_all add: row_tight_def row_rep_def)
  qed (simp_all add: st_def)
  then have "row_fits k cols (r\<lparr>r_style := st\<rparr>)" using Suc.prems(1) by (simp add: row_fits_def)
  with Suc.IH [of "r\<lparr>r_style := st\<rparr>" "x + 1"] Suc.prems(2,3) len show ?case
    by (simp add: row_getStyle_def aget_Some aset_Some st_def)
qed simp

lemma effect_rows_ok:
  assumes "buf_ok k b" and "0 \<le> y" and "y + int n = bt" and "bt \<le> b_srows b"
    and "0 \<le> lm" "rm \<le> b_cols b" "0 \<le> lf" "rt \<le> b_cols b"
  shows "\<exists>b'. effect_rows n bits s v rect lm rm tp lf bt rt y b = Some b' \<and> buf_ok k b' \<and> same_size b b'"
  using assms
proof (induction n arbitrary: y b)
  case (Suc n)
  note ok = Suc.prems(1)
  have y: "0 \<le> y" "y < b_srows b" using Suc.prems(2-4) by auto
  define x1 where "x1 = (if rect \<or> y = tp then lf else lm)"
  define x2 where "x2 = (if rect \<or> y + 1 = bt then rt else rm)"
  have x: "0 \<le> x1" "x2 \<le> b_cols b" using Suc.prems(5-8) by (auto simp: x1_def x2_def)
  note fit = screen_row(2) [OF ok y]
  obtain r where r: "effect_cols (nat (x2 - x1)) bits s v x1 (screen b ! nat y) = Some r" "row_fits k (b_cols b) r"
  proof (cases "x1 \<le> x2")
    case True
    then show ?thesis using that effect_cols_ok [OF fit x(1), of "nat (x2 - x1)" bits s v] x by auto
  next
    case False
    then show ?thesis using that fit by simp
  qed
  define b1 where "b1 = set_line ((b_first b + y) mod b_total b) r b"
  have u: "updates_row k b y r b1" unfolding b1_def using set_line_updates [OF ok y r(2)] .
  have b1: "buf_ok k b1" "same_size b b1"
    using updates_same_size [OF u] by simp_all
  obtain b2 where "effect_rows n bits s v rect lm rm tp lf bt rt (y + 1) b1 = Some b2" "buf_ok k b2" "same_size b1 b2"
    using Suc.IH [of b1 "y + 1"] b1 Suc.prems(2-8) by (auto simp: same_size_def)
  then show ?case using line_at_ok [OF ok y] r(1) b1 same_size_trans [of b b1 b2]
    by (simp add: Let_def x1_def [symmetric] x2_def [symmetric] b1_def)
qed simp

lemma setOrClearEffect_ok:
  assumes "buf_ok k b" and "0 \<le> tp" and "bt \<le> b_srows b" and "0 \<le> lm" "rm \<le> b_cols b" "0 \<le> lf" "rt \<le> b_cols b"
  shows "\<exists>b'. setOrClearEffect bits s v rect lm rm tp lf bt rt b = Some b' \<and> buf_ok k b' \<and> same_size b b'"
proof (cases "tp \<le> bt")
  case True
  then show ?thesis using effect_rows_ok [OF assms(1,2), of "nat (bt - tp)" bt lm rm lf rt bits s v rect tp] assms(3-7)
    by (simp add: setOrClearEffect_def)
next
  case False
  then show ?thesis using assms(1) by (simp add: setOrClearEffect_def)
qed

section \<open>New buffers\<close>

lemma buf_setChar_srows:
  "y < s \<Longrightarrow> y < b_srows b \<Longrightarrow>
   buf_setChar x y v st (b\<lparr>b_srows := s\<rparr>) = map_option (\<lambda>b. b\<lparr>b_srows := s\<rparr>) (buf_setChar x y v st b)"
  by (auto simp: buf_setChar_def on_line_def externalToInternalRow_def Let_def allocateFullLineIfNecessary_def set_line_def
      bind_eq_Some_conv map_option_case split: Option.bind_split option.split)

lemma buf_setChar_keeps:
  "buf_setChar x y v st b = Some b' \<Longrightarrow> \<exists>i r. externalToInternalRow y b = Some i \<and> b' = set_line i r b"
  by (auto simp: buf_setChar_def on_line_def bind_eq_Some_conv split: if_splits)

lemma set_cols_keeps:
  "set_cols w x y v st b = Some b' \<Longrightarrow> 0 \<le> y \<Longrightarrow> b_first b = 0 \<Longrightarrow> y < b_total b \<Longrightarrow>
   b_srows b' = b_srows b \<and> b_total b' = b_total b \<and> b_first b' = 0 \<and> b_cols b' = b_cols b \<and> b_active b' = b_active b \<and>
   length (b_lines b') = length (b_lines b) \<and> (\<forall>j. j \<noteq> nat y \<longrightarrow> b_lines b' ! j = b_lines b ! j)"
proof (induction w arbitrary: x b)
  case (Suc w)
  then obtain b1 where b1: "buf_setChar x y v st b = Some b1" "set_cols w (x + 1) y v st b1 = Some b'"
    by (auto simp: bind_eq_Some_conv)
  obtain i r where i: "externalToInternalRow y b = Some i" "b1 = set_line i r b" using buf_setChar_keeps [OF b1(1)] by blast
  have "i = y" using i(1) Suc.prems(2-4) by (auto simp: externalToInternalRow_def Let_def split: if_splits)
  then show ?case using Suc.IH [OF b1(2)] Suc.prems(2-4) i(2) by (simp add: set_line_def)
qed simp

lemma set_cols_srows:
  "y < s \<Longrightarrow> y < b_srows b \<Longrightarrow> 0 \<le> y \<Longrightarrow>
   set_cols w x y v st (b\<lparr>b_srows := s\<rparr>) = map_option (\<lambda>b. b\<lparr>b_srows := s\<rparr>) (set_cols w x y v st b)"
proof (induction w arbitrary: x b)
  case (Suc w)
  show ?case
  proof (cases "buf_setChar x y v st b")
    case (Some b1)
    then have "b_srows b1 = b_srows b" by (auto simp: set_line_def dest!: buf_setChar_keeps)
    with Suc Some buf_setChar_srows [of y s b x v st] show ?thesis by simp
  qed (use Suc buf_setChar_srows [of y s b x v st] in simp)
qed simp

text \<open>Rows are allocated one after the other; the first \<open>y\<close> of them form a buffer.\<close>

lemma init_rows:
  assumes "buf_ok 0 (b\<lparr>b_srows := y\<rparr>)" and "0 \<le> y" and "y + int n = b_srows b" and "b_srows b \<le> b_total b"
    and "b_first b = 0" and "b_active b = 0" and "\<forall>j. y \<le> int j \<longrightarrow> int j < b_srows b \<longrightarrow> b_lines b ! j = None"
  shows "\<exists>b'. set_rows n (nat (b_cols b)) 0 y 32 st b = Some b' \<and> buf_ok 0 b' \<and> same_size b b' \<and> b_active b' = 0"
  using assms
proof (induction n arbitrary: y b)
  case 0
  then have "b\<lparr>b_srows := y\<rparr> = b" by simp
  then show ?case using 0 by simp
next
  case (Suc n)
  have cols: "2 \<le> b_cols b" "b_cols b \<le> 1000" and len: "b_total b \<le> int (length (b_lines b))"
    using Suc.prems(1) by (simp_all add: buf_ok_def ring_ok_def)
  have y: "y < b_srows b" "y < b_total b" using Suc.prems(3,4) by auto
  have mody: "y mod b_total b = y" using Suc.prems(2) y by simp
  define b1 where "b1 = set_line y (newRow (b_cols b) 0) b"
  have fresh: "row_fits 0 (b_cols b) (newRow (b_cols b) 0)"
    using newRow_tight [of "b_cols b" 0] cols by (simp_all add: row_fits_def)
  have first: "buf_setChar 0 y 32 st b = buf_setChar 0 y 32 st b1"
  proof -
    have "nat y < length (b_lines b)" "b_lines b ! nat y = None"
      using Suc.prems(2,7) y len by auto
    then show ?thesis using Suc.prems(2,5,6) y mody
      by (simp add: buf_setChar_def on_line_def externalToInternalRow_def Let_def b1_def set_line_def
          allocateFullLineIfNecessary_def aget_def bind_eq_Some_conv split: Option.bind_split)
  qed
  define c1 where "c1 = b1\<lparr>b_srows := y + 1\<rparr>"
  have ent: "entry c1 e = (if e = y then Some (newRow (b_cols b) 0) else entry (b\<lparr>b_srows := y\<rparr>) e)" if "0 \<le> e" "e \<le> y" for e
    using that Suc.prems(2,5) y len by (auto simp: entry_def c1_def b1_def set_line_def nth_list_update)
  have "ring_ok c1" using Suc.prems(1,2,3,4,6) by (auto simp: buf_ok_def ring_ok_def c1_def b1_def set_line_def)
  moreover have "lines_fit 0 (b_cols b) (b_lines c1)"
    using Suc.prems(1) fresh by (simp add: buf_ok_def c1_def b1_def set_line_def lines_fit_update)
  moreover have "entry c1 e \<noteq> None" if "0 \<le> e" "e < y + 1" for e
    using ent [of e] that Suc.prems(1,6) by (auto simp: buf_ok_def)
  ultimately have okc: "buf_ok 0 c1" using cols Suc.prems(6) by (simp add: buf_ok_def c1_def b1_def set_line_def)
  have cg: "b_cols c1 = b_cols b" "b_srows c1 = y + 1" by (simp_all add: c1_def b1_def set_line_def)
  have d32: "drawn 32" "width 32 \<noteq> 2" "extra 32 = 0" by (simp_all add: scalar_def is_cp_def VS16_def)
  obtain c2 r where c2: "set_cols (nat (b_cols b)) 0 y 32 st c1 = Some c2" "updates_row 0 c1 y r c2"
    using set_cols_row [OF okc _ _ Suc.prems(2) _ d32, where x = 0 and style = st and w = "nat (b_cols b)"] cg cols by auto
  have b1r: "b_srows b1 = b_srows b" by (simp add: b1_def set_line_def)
  obtain b2 where b2: "set_cols (nat (b_cols b)) 0 y 32 st b1 = Some b2" "c2 = b2\<lparr>b_srows := y + 1\<rparr>"
    using c2(1) set_cols_srows [of y "y + 1" b1 "nat (b_cols b)" 0 32 st] y b1r Suc.prems(2) by (auto simp: c1_def)
  have keep: "b_srows b2 = b_srows b" "b_total b2 = b_total b" "b_first b2 = 0" "b_cols b2 = b_cols b" "b_active b2 = 0"
    "\<forall>j. j \<noteq> nat y \<longrightarrow> b_lines b2 ! j = b_lines b ! j"
    using set_cols_keeps [OF b2(1) Suc.prems(2)] Suc.prems(5,6) y by (simp_all add: b1_def set_line_def)
  have ok2: "buf_ok 0 (b2\<lparr>b_srows := y + 1\<rparr>)" using c2(2) b2(2) by (simp add: updates_row_def)
  have "\<forall>j. y + 1 \<le> int j \<longrightarrow> int j < b_srows b2 \<longrightarrow> b_lines b2 ! j = None"
    using keep(1,6) Suc.prems(2,7) by auto
  then obtain b' where b': "set_rows n (nat (b_cols b)) 0 (y + 1) 32 st b2 = Some b'" "buf_ok 0 b'" "same_size b2 b'" "b_active b' = 0"
    using Suc.IH [of "y + 1" b2, OF ok2] Suc.prems(2-4) keep by auto
  have "set_cols (nat (b_cols b)) 0 y 32 st b = Some b2"
    using b2(1) first cols by (cases "nat (b_cols b)") auto
  then show ?case using b' keep by (simp add: same_size_def)
qed

lemma newBuffer_ok:
  assumes "2 \<le> cols" and "cols \<le> 1000" and "1 \<le> rows" and "rows \<le> tot"
  shows "\<exists>b. newBuffer cols tot rows = Some b \<and> buf_ok 0 b \<and> b_cols b = cols \<and> b_srows b = rows \<and>
    b_total b = tot \<and> transcript b = []"
proof -
  define b0 where "b0 = \<lparr>b_lines = replicate (nat tot) None, b_total = tot, b_srows = rows, b_cols = cols, b_active = 0, b_first = 0\<rparr>"
  have "buf_ok 0 (b0\<lparr>b_srows := 0\<rparr>)" using assms
    by (auto simp: buf_ok_def ring_ok_def b0_def lines_fit_def)
  then obtain b where "set_rows (nat rows) (nat cols) 0 0 32 NORMAL b0 = Some b" "buf_ok 0 b" "same_size b0 b" "b_active b = 0"
    using init_rows [of 0 b0 "nat rows" NORMAL] assms by (auto simp: b0_def)
  then show ?thesis using assms
    by (simp add: newBuffer_def blockSet_def b0_def [symmetric] same_size_def transcript_def) (simp add: b0_def)
qed

section \<open>The contract of scrolling\<close>

text \<open>
  C32. Scrolling the region between two margins, on any well-formed buffer: the
  screen is the old one with the top row of the region removed and a blank row of
  the given style inserted above the bottom margin, the rows outside the margins
  stay where they are, and the removed row becomes the newest row of the
  transcript, which keeps its newest rows up to the size of the ring.
\<close>

theorem scroll_refines_lists:
  assumes "buf_ok k b" and "0 \<le> tp" and "tp < bt" and "bt \<le> b_srows b"
  shows "\<exists>b' row. buf_scrollDownOneLine tp bt style b = Some b' \<and> buf_ok k b' \<and>
    shown row = replicate (nat (b_cols b)) blank \<and> r_style row = replicate (nat (b_cols b)) style \<and>
    screen b' = take (nat tp) (screen b) @ drop (nat tp + 1) (take (nat bt) (screen b)) @ [row] @ drop (nat bt) (screen b) \<and>
    transcript b' = keep_newest (nat (b_total b - b_srows b)) (transcript b @ [screen b ! nat tp])"
  using scroll_lists [OF assms, of style] by (auto simp: fresh_row_def scroll_spec_def)

theorem scroll_refines_lists_witness:
  "\<exists>b b' row. newBuffer 4 5 3 = Some b \<and> buf_ok 0 b \<and> buf_scrollDownOneLine 0 2 7 b = Some b' \<and>
     screen b' = [screen b ! 1, row, screen b ! 2] \<and> shown row = replicate 4 blank \<and> transcript b' = [screen b ! 0]"
proof -
  obtain b where b: "newBuffer 4 5 3 = Some b" "buf_ok 0 b" "b_cols b = 4" "b_srows b = 3" "b_total b = 5" "transcript b = []"
    using newBuffer_ok [of 4 3 5] by auto
  have l: "length (screen b) = Suc (Suc (Suc 0))" using b(4) by simp
  then have s: "screen b = [screen b ! 0, screen b ! 1, screen b ! 2]"
    by (intro nth_equalityI) (auto simp: less_Suc_eq numeral_2_eq_2)
  have m: "(0 :: int) \<le> 0" "(0 :: int) < 2" "2 \<le> b_srows b" using b(4) by simp_all
  obtain b' row where r: "buf_scrollDownOneLine 0 2 7 b = Some b'" "shown row = replicate 4 blank"
    "screen b' = take 0 (screen b) @ drop 1 (take 2 (screen b)) @ [row] @ drop 2 (screen b)"
    "transcript b' = keep_newest 2 [screen b ! 0]"
    using scroll_refines_lists [OF b(2) m, of 7] b by auto
  have "screen b' = [screen b ! 1, row, screen b ! 2]"
    unfolding r(3) by (subst (1 2) s) (simp add: numeral_2_eq_2)
  moreover have "transcript b' = [screen b ! 0]" using r(4) by (simp add: keep_newest_def)
  ultimately show ?thesis using b(1,2) r(1,2) by blast
qed

end
