(* ===== verification/TerminalResize.thy ===== *)
theory TerminalResize
  imports TerminalBuffer
begin

text \<open>
  Resizing and reading back the buffer (\<^verbatim>\<open>TerminalBuffer.java\<close>): when only the
  number of rows changes the window into the ring moves, otherwise every line is
  written again into a new ring, wrapped at the new width, and the cursor follows
  the cell it was on.
\<close>

section \<open>Changing the number of rows\<close>

text \<open>Counting the blank rows below the cursor, from the bottom up.\<close>

primrec skip_blank_rows :: "nat \<Rightarrow> int \<Rightarrow> int \<Rightarrow> tbuf \<Rightarrow> int option" where
  "skip_blank_rows 0 cursorRow shift b = Some shift"
| "skip_blank_rows (Suc i) cursorRow shift b =
     (if int (Suc i) \<le> cursorRow then Some shift
      else do {
        r \<leftarrow> externalToInternalRow (int (Suc i)) b;
        l \<leftarrow> aget (b_lines b) r;
        bl \<leftarrow> (case l of None \<Rightarrow> Some True | Some line \<Rightarrow> isBlank line);
        if bl then (if shift - 1 = 0 then Some 0 else skip_blank_rows i cursorRow (shift - 1) b)
        else skip_blank_rows i cursorRow shift b })"

primrec blank_below :: "nat \<Rightarrow> int \<Rightarrow> u64 \<Rightarrow> tbuf \<Rightarrow> tbuf option" where
  "blank_below 0 i style b = Some b"
| "blank_below (Suc n) i style b = do {
     let row = (b_first b + b_srows b + i) mod b_total b;
     r \<leftarrow> allocateFullLineIfNecessary row b;
     blank_below n (i + 1) style (set_line row (row_clear style r) b) }"

definition resize_rows :: "int \<Rightarrow> int \<Rightarrow> int \<times> int \<Rightarrow> u64 \<Rightarrow> bool \<Rightarrow> tbuf \<Rightarrow> (tbuf \<times> int \<times> int) option" where
  "resize_rows newRows newTotalRows cursor currentStyle altScreen b = do {
     let shift = b_srows b - newRows;
     (b, shift) \<leftarrow>
       (if 0 < shift \<and> shift < b_srows b then do {
          s \<leftarrow> skip_blank_rows (nat (b_srows b - 1)) (snd cursor) shift b;
          Some (b, s) }
        else if shift < 0 then do {
          rb \<leftarrow> externalToInternalRow (b_srows b - 1) b;
          l \<leftarrow> aget (b_lines b) rb;
          bottomBlank \<leftarrow> (case l of None \<Rightarrow> Some True | Some line \<Rightarrow> isBlank line);
          let actualShift = (if bottomBlank then 0 else max shift (- b_active b));
          if shift \<noteq> actualShift then do {
            b \<leftarrow> blank_below (nat (actualShift - shift)) 0 currentStyle b;
            Some (b, actualShift) }
          else Some (b, shift) }
        else Some (b, shift));
     let first = b_first b + shift;
     let first = (if first < 0 then first + b_total b else first mod b_total b);
     Some (b\<lparr>b_first := first, b_total := newTotalRows,
             b_active := (if altScreen then 0 else max 0 (b_active b + shift)), b_srows := newRows\<rparr>,
           fst cursor, snd cursor - shift) }"

section \<open>Reflowing\<close>

text \<open>
  The state of the loop over the old lines: the new buffer, the place of the next
  character in it, where the cursor went, and the blank lines passed so far.
\<close>

record reflow =
  f_buf :: tbuf
  f_row :: int
  f_col :: int
  f_crow :: int
  f_ccol :: int
  f_placed :: bool
  f_skipped :: nat

definition reflow_newline :: "u64 \<Rightarrow> reflow \<Rightarrow> reflow option" where
  "reflow_newline style f =
     (if f_row f = b_srows (f_buf f) - 1 then do {
        b \<leftarrow> buf_scrollDownOneLine 0 (b_srows (f_buf f)) style (f_buf f);
        Some (f\<lparr>f_buf := b, f_crow := (if f_placed f then f_crow f - 1 else f_crow f), f_col := 0\<rparr>) }
      else Some (f\<lparr>f_row := f_row f + 1, f_col := 0\<rparr>))"

text \<open>The skipped blank lines, written when a line with content follows; the cursor row does not move with them.\<close>

primrec reflow_blanks :: "nat \<Rightarrow> u64 \<Rightarrow> reflow \<Rightarrow> reflow option" where
  "reflow_blanks 0 style f = Some (f\<lparr>f_skipped := 0\<rparr>)"
| "reflow_blanks (Suc n) style f = do {
     f \<leftarrow> (if f_row f = b_srows (f_buf f) - 1 then do {
             b \<leftarrow> buf_scrollDownOneLine 0 (b_srows (f_buf f)) style (f_buf f);
             Some (f\<lparr>f_buf := b, f_col := 0\<rparr>) }
           else Some (f\<lparr>f_row := f_row f + 1, f_col := 0\<rparr>));
     reflow_blanks n style f }"

definition reflow_char :: "u64 \<Rightarrow> int \<Rightarrow> int \<Rightarrow> u64 \<Rightarrow> u32 \<Rightarrow> reflow \<Rightarrow> reflow option" where
  "reflow_char style codePoint displayWidth styleAtCol ucolor f = do {
     f \<leftarrow> (if b_cols (f_buf f) < f_col f + displayWidth then do {
             b \<leftarrow> setLineWrap (f_row f) (f_buf f);
             reflow_newline style (f\<lparr>f_buf := b\<rparr>) }
           else Some f);
     let outputColumn = f_col f - (if displayWidth \<le> 0 \<and> 0 < f_col f then 1 else 0);
     b \<leftarrow> buf_setChar outputColumn (f_row f) codePoint styleAtCol (f_buf f);
     b \<leftarrow> (if ucolor \<noteq> 0 then setUnderlineColorAt outputColumn (f_row f) ucolor b else Some b);
     Some (f\<lparr>f_buf := b\<rparr>) }"

function reflow_line ::
  "u64 \<Rightarrow> trow \<Rightarrow> int \<Rightarrow> bool \<Rightarrow> bool \<Rightarrow> int \<Rightarrow> int \<Rightarrow> int \<Rightarrow> u64 \<Rightarrow> u32 \<Rightarrow> reflow \<Rightarrow> reflow option" where
  "reflow_line style oldLine lim atCursor justToCursor oldCursorColumn i currentOldCol styleAtCol ucolor f =
     (if i < lim then do {
        c \<leftarrow> aget (r_text oldLine) i;
        let high = isHighSurrogate c;
        codePoint \<leftarrow> (if high then do { d \<leftarrow> aget (r_text oldLine) (i + 1); Some (toCodePoint c d) } else Some c);
        let displayWidth = width codePoint;
        styleAtCol \<leftarrow> (if 0 < displayWidth then row_getStyle currentOldCol oldLine else Some styleAtCol);
        let ucolor = (if 0 < displayWidth then getUnderlineColor currentOldCol oldLine else ucolor);
        f \<leftarrow> reflow_char style codePoint displayWidth styleAtCol ucolor f;
        let new = i + (if high then 2 else 1);
        if 0 < displayWidth then
          (let f = (if atCursor \<and> oldCursorColumn = currentOldCol
                    then f\<lparr>f_ccol := f_col f, f_crow := f_row f, f_placed := True\<rparr> else f);
               f = f\<lparr>f_col := f_col f + displayWidth\<rparr> in
           if justToCursor \<and> f_placed f then Some f
           else reflow_line style oldLine lim atCursor justToCursor oldCursorColumn new (currentOldCol + displayWidth)
                  styleAtCol ucolor f)
        else reflow_line style oldLine lim atCursor justToCursor oldCursorColumn new currentOldCol styleAtCol ucolor f }
      else Some f)"
  by pat_completeness auto
termination
  by (relation "measure (\<lambda>(style, oldLine, lim, atCursor, justToCursor, oldCursorColumn, i, currentOldCol, styleAtCol, ucolor, f).
        nat (lim - i))") auto

declare reflow_line.simps [simp del]

text \<open>One past the last unit that is not a space, of the units a row uses.\<close>

definition lastNonSpaceIndex :: "trow \<Rightarrow> int option" where
  "lastNonSpaceIndex r =
     (if r_used r \<le> int (length (r_text r))
      then Some (int (length (dropWhile (\<lambda>c. c = 32) (rev (take (nat (r_used r)) (r_text r))))))
      else None)"

definition reflow_row :: "u64 \<Rightarrow> tbuf \<Rightarrow> int \<times> int \<Rightarrow> int \<Rightarrow> reflow \<Rightarrow> reflow option" where
  "reflow_row style old cursor externalOldRow f = do {
     let internalOldRow = b_first old + externalOldRow;
     l \<leftarrow> aget (b_lines old) (if internalOldRow < 0 then b_total old + internalOldRow else internalOldRow mod b_total old);
     let atCursor = (externalOldRow = snd cursor);
     case l of
       None \<Rightarrow> Some (f\<lparr>f_skipped := f_skipped f + 1\<rparr>)
     | Some oldLine \<Rightarrow> do {
         skip \<leftarrow> (if \<not> f_placed f \<and> atCursor then Some False else isBlank oldLine);
         if skip then Some (f\<lparr>f_skipped := f_skipped f + 1\<rparr>)
         else do {
           f \<leftarrow> reflow_blanks (f_skipped f) style f;
           last \<leftarrow> (if atCursor \<or> r_wrap oldLine then Some (r_used oldLine) else lastNonSpaceIndex oldLine);
           f \<leftarrow> reflow_line style oldLine last atCursor atCursor (fst cursor) 0 0 0 0 f;
           if externalOldRow \<noteq> b_srows old - 1 \<and> \<not> r_wrap oldLine then reflow_newline style f else Some f } } }"

primrec reflow_rows :: "nat \<Rightarrow> u64 \<Rightarrow> tbuf \<Rightarrow> int \<times> int \<Rightarrow> int \<Rightarrow> reflow \<Rightarrow> reflow option" where
  "reflow_rows 0 style old cursor externalOldRow f = Some f"
| "reflow_rows (Suc n) style old cursor externalOldRow f = do {
     f \<leftarrow> reflow_row style old cursor externalOldRow f;
     reflow_rows n style old cursor (externalOldRow + 1) f }"

definition resize_reflow :: "int \<Rightarrow> int \<Rightarrow> int \<Rightarrow> int \<times> int \<Rightarrow> u64 \<Rightarrow> tbuf \<Rightarrow> (tbuf \<times> int \<times> int) option" where
  "resize_reflow newColumns newRows newTotalRows cursor currentStyle b = do {
     let new = \<lparr>b_lines = replicate (nat newTotalRows) (Some (newRow newColumns currentStyle)), b_total = newTotalRows,
                b_srows = newRows, b_cols = newColumns, b_active = 0, b_first = 0\<rparr>;
     f \<leftarrow> reflow_rows (nat (b_active b + b_srows b)) currentStyle b cursor (- b_active b)
            \<lparr>f_buf = new, f_row = 0, f_col = 0, f_crow = - 1, f_ccol = - 1, f_placed = False, f_skipped = 0\<rparr>;
     Some (f_buf f, f_ccol f, f_crow f) }"

definition buf_resize ::
  "int \<Rightarrow> int \<Rightarrow> int \<Rightarrow> int \<times> int \<Rightarrow> u64 \<Rightarrow> bool \<Rightarrow> tbuf \<Rightarrow> (tbuf \<times> int \<times> int) option" where
  "buf_resize newColumns newRows newTotalRows cursor currentStyle altScreen b = do {
     (b, cx, cy) \<leftarrow> (if newColumns = b_cols b \<and> newRows \<le> b_total b
        then resize_rows newRows newTotalRows cursor currentStyle altScreen b
        else resize_reflow newColumns newRows newTotalRows cursor currentStyle b);
     Some (if cx < 0 \<or> cy < 0 then (b, 0, 0) else (b, cx, cy)) }"

section \<open>Reading text back\<close>

definition last_index :: "jstring \<Rightarrow> int \<Rightarrow> int \<Rightarrow> int option" where
  "last_index line x1 x2 =
     (if x2 \<le> x1 then Some (- 1)
      else if x1 < 0 \<or> int (length line) < x2 then None
      else let rest = dropWhile (\<lambda>c. c = 32) (rev (take (nat (x2 - x1)) (drop (nat x1) line)))
           in Some (if rest = [] then - 1 else x1 + int (length rest) - 1))"

definition select_row :: "int \<Rightarrow> int \<Rightarrow> int \<Rightarrow> int \<Rightarrow> int \<Rightarrow> tbuf \<Rightarrow> jstring option" where
  "select_row selX1 selY1 selX2 selY2 row b = do {
     let x1 = (if row = selY1 then selX1 else 0);
     let x2 = (if row = selY2 then min (selX2 + 1) (b_cols b) else b_cols b);
     line \<leftarrow> line_at row b;
     x1Index \<leftarrow> findStartOfColumn x1 line;
     x2Index \<leftarrow> (if x2 < b_cols b then findStartOfColumn x2 line else Some (r_used line));
     x2Index \<leftarrow> (if x2Index = x1Index then findStartOfColumn (x2 + 1) line else Some x2Index);
     last \<leftarrow> (if r_wrap line \<and> x2 = b_cols b then Some (x2Index - 1) else last_index (r_text line) x1Index x2Index);
     text \<leftarrow> (if last = - 1 then Some []
              else if x1Index < 0 \<or> last - x1Index + 1 < 0 \<or> int (length (r_text line)) < last + 1 then None
              else Some (take (nat (last - x1Index + 1)) (drop (nat x1Index) (r_text line))));
     Some (text @ (if \<not> r_wrap line \<and> row < selY2 \<and> row < b_srows b - 1 then [10] else [])) }"

primrec select_rows :: "nat \<Rightarrow> int \<Rightarrow> int \<Rightarrow> int \<Rightarrow> int \<Rightarrow> int \<Rightarrow> tbuf \<Rightarrow> jstring option" where
  "select_rows 0 selX1 selY1 selX2 selY2 row b = Some []"
| "select_rows (Suc n) selX1 selY1 selX2 selY2 row b = do {
     text \<leftarrow> select_row selX1 selY1 selX2 selY2 row b;
     rest \<leftarrow> select_rows n selX1 selY1 selX2 selY2 (row + 1) b;
     Some (text @ rest) }"

definition getSelectedText :: "int \<Rightarrow> int \<Rightarrow> int \<Rightarrow> int \<Rightarrow> tbuf \<Rightarrow> jstring option" where
  "getSelectedText selX1 selY1 selX2 selY2 b =
     (let selY1 = max selY1 (- b_active b); selY2 = (if b_srows b \<le> selY2 then b_srows b - 1 else selY2)
      in select_rows (nat (selY2 - selY1 + 1)) selX1 selY1 selX2 selY2 selY1 b)"

text \<open>\<^verbatim>\<open>String.trim\<close> removes units up to U+0020 at both ends.\<close>

definition jtrim :: "jstring \<Rightarrow> jstring" where
  "jtrim s = rev (dropWhile (\<lambda>c. c \<le> 32) (rev (dropWhile (\<lambda>c. c \<le> 32) s)))"

definition getTranscriptText :: "tbuf \<Rightarrow> jstring option" where
  "getTranscriptText b = map_option jtrim (getSelectedText 0 (- b_active b) (b_cols b) (b_srows b) b)"

end
