(* ===== verification/TermColors.thy ===== *)
theory TermColors
  imports TextStyle "HOL-Library.Log_Nat"
begin

text \<open>
  \<^verbatim>\<open>TerminalColors.java\<close> and \<^verbatim>\<open>TerminalColorScheme.java\<close>: the 259 colours of the terminal
  and the parser of colour specifications, with the text functions of the Java
  library that it and the emulator call. The scaling of a colour component is
  computed in double precision by the code; \<open>dbl_ratio\<close> and \<open>dbl_times\<close> are the IEEE
  quotient and product, rounded to 53 bits and to even. What the code takes from
  the Android and Java runtime beyond that is the record \<open>jvm\<close>.
\<close>

unbundle bit_operations_syntax

text \<open>
  The runtime: the code points without a Unicode assignment, \<^verbatim>\<open>Character.digit\<close> beyond
  ASCII, the clock, the decoder of Base64 text (\<^const>\<open>None\<close> if it throws), the default
  colours of the current scheme, the floating point conversion of a hue, lightness
  and saturation, and whether a bitmap of a size can be created.
\<close>

record jvm =
  ji_unassigned :: "int \<Rightarrow> bool"
  ji_digit :: "int \<Rightarrow> int \<Rightarrow> int"
  ji_now :: int
  ji_base64 :: "jstring \<Rightarrow> jstring option"
  ji_scheme :: "u32 list"
  ji_hls :: "int \<Rightarrow> int \<Rightarrow> int \<Rightarrow> u32"
  ji_bitmap :: "int \<Rightarrow> int \<Rightarrow> bool"

section \<open>Text\<close>

text \<open>\<^verbatim>\<open>Character.digit(c, radix)\<close>: the value of a digit, or -1.\<close>

definition char_digit :: "jvm \<Rightarrow> int \<Rightarrow> int \<Rightarrow> int" where
  "char_digit J radix c =
     (let v = (if 48 \<le> c \<and> c \<le> 57 then c - 48
               else if 97 \<le> c \<and> c \<le> 122 then c - 87
               else if 65 \<le> c \<and> c \<le> 90 then c - 55
               else if c < 128 then - 1 else ji_digit J radix c)
      in if v < radix then v else - 1)"

fun digits_value :: "jvm \<Rightarrow> int \<Rightarrow> int \<Rightarrow> jstring \<Rightarrow> int option" where
  "digits_value J radix acc [] = Some acc"
| "digits_value J radix acc (c # cs) =
     (if char_digit J radix c < 0 then None else digits_value J radix (acc * radix + char_digit J radix c) cs)"

text \<open>\<^verbatim>\<open>Integer.parseInt(s, radix)\<close>; \<^const>\<open>None\<close> is its \<^verbatim>\<open>NumberFormatException\<close>.\<close>

definition parseInt :: "jvm \<Rightarrow> int \<Rightarrow> jstring \<Rightarrow> int option" where
  "parseInt J radix s =
     (case s of [] \<Rightarrow> None
      | c # cs \<Rightarrow>
          let ds = (if c = chr ''-'' \<or> c = chr ''+'' then cs else s)
          in if ds = [] then None
             else case digits_value J radix 0 ds of
                    None \<Rightarrow> None
                  | Some v \<Rightarrow> let v = (if c = chr ''-'' then - v else v)
                      in if - (2 ^ 31) \<le> v \<and> v < 2 ^ 31 then Some v else None)"

text \<open>\<^verbatim>\<open>s.substring(a, b)\<close>, which throws outside the string.\<close>

definition substring :: "jstring \<Rightarrow> int \<Rightarrow> int \<Rightarrow> jstring option" where
  "substring s a b = (if 0 \<le> a \<and> a \<le> b \<and> b \<le> int (length s) then Some (take (nat (b - a)) (drop (nat a) s)) else None)"

definition startsWith :: "jstring \<Rightarrow> jstring \<Rightarrow> bool" where
  "startsWith s p \<longleftrightarrow> take (length p) s = p"

text \<open>\<open>%d\<close>, \<open>%04x\<close> and \<open>%02X\<close> of \<^verbatim>\<open>String.format\<close>, and the text of an \<^verbatim>\<open>int\<close>.\<close>

fun nat_text :: "nat \<Rightarrow> jstring" where
  "nat_text n = (if n < 10 then [48 + int n] else nat_text (n div 10) @ [48 + int (n mod 10)])"

declare nat_text.simps [simp del]

definition int_text :: "int \<Rightarrow> jstring" where
  "int_text n = (if n < 0 then chr ''-'' # nat_text (nat (- n)) else nat_text (nat n))"

definition hex_digit :: "int \<Rightarrow> int \<Rightarrow> int" where
  "hex_digit letter d = (if d < 10 then 48 + d else letter + d - 10)"

function hex_text :: "int \<Rightarrow> nat \<Rightarrow> nat \<Rightarrow> jstring" where
  "hex_text letter n x = (if x < 16 \<and> n \<le> 1 then [hex_digit letter (int x)]
     else hex_text letter (n - 1) (x div 16) @ [hex_digit letter (int (x mod 16))])"
  by pat_completeness auto
termination
  by (relation "measure (\<lambda>(letter, n, x). n + x)") auto

declare hex_text.simps [simp del]

section \<open>The default colours\<close>

definition DEFAULT_COLORS :: "u32 list" where
  "DEFAULT_COLORS = [
    0xff000000, 0xffcd0000, 0xff00cd00, 0xffcdcd00, 0xff6495ed, 0xffcd00cd, 0xff00cdcd, 0xffe5e5e5,
    0xff7f7f7f, 0xffff0000, 0xff00ff00, 0xffffff00, 0xff5c5cff, 0xffff00ff, 0xff00ffff, 0xffffffff,
    0xff000000, 0xff00005f, 0xff000087, 0xff0000af, 0xff0000d7, 0xff0000ff, 0xff005f00, 0xff005f5f,
    0xff005f87, 0xff005faf, 0xff005fd7, 0xff005fff, 0xff008700, 0xff00875f, 0xff008787, 0xff0087af,
    0xff0087d7, 0xff0087ff, 0xff00af00, 0xff00af5f, 0xff00af87, 0xff00afaf, 0xff00afd7, 0xff00afff,
    0xff00d700, 0xff00d75f, 0xff00d787, 0xff00d7af, 0xff00d7d7, 0xff00d7ff, 0xff00ff00, 0xff00ff5f,
    0xff00ff87, 0xff00ffaf, 0xff00ffd7, 0xff00ffff, 0xff5f0000, 0xff5f005f, 0xff5f0087, 0xff5f00af,
    0xff5f00d7, 0xff5f00ff, 0xff5f5f00, 0xff5f5f5f, 0xff5f5f87, 0xff5f5faf, 0xff5f5fd7, 0xff5f5fff,
    0xff5f8700, 0xff5f875f, 0xff5f8787, 0xff5f87af, 0xff5f87d7, 0xff5f87ff, 0xff5faf00, 0xff5faf5f,
    0xff5faf87, 0xff5fafaf, 0xff5fafd7, 0xff5fafff, 0xff5fd700, 0xff5fd75f, 0xff5fd787, 0xff5fd7af,
    0xff5fd7d7, 0xff5fd7ff, 0xff5fff00, 0xff5fff5f, 0xff5fff87, 0xff5fffaf, 0xff5fffd7, 0xff5fffff,
    0xff870000, 0xff87005f, 0xff870087, 0xff8700af, 0xff8700d7, 0xff8700ff, 0xff875f00, 0xff875f5f,
    0xff875f87, 0xff875faf, 0xff875fd7, 0xff875fff, 0xff878700, 0xff87875f, 0xff878787, 0xff8787af,
    0xff8787d7, 0xff8787ff, 0xff87af00, 0xff87af5f, 0xff87af87, 0xff87afaf, 0xff87afd7, 0xff87afff,
    0xff87d700, 0xff87d75f, 0xff87d787, 0xff87d7af, 0xff87d7d7, 0xff87d7ff, 0xff87ff00, 0xff87ff5f,
    0xff87ff87, 0xff87ffaf, 0xff87ffd7, 0xff87ffff, 0xffaf0000, 0xffaf005f, 0xffaf0087, 0xffaf00af,
    0xffaf00d7, 0xffaf00ff, 0xffaf5f00, 0xffaf5f5f, 0xffaf5f87, 0xffaf5faf, 0xffaf5fd7, 0xffaf5fff,
    0xffaf8700, 0xffaf875f, 0xffaf8787, 0xffaf87af, 0xffaf87d7, 0xffaf87ff, 0xffafaf00, 0xffafaf5f,
    0xffafaf87, 0xffafafaf, 0xffafafd7, 0xffafafff, 0xffafd700, 0xffafd75f, 0xffafd787, 0xffafd7af,
    0xffafd7d7, 0xffafd7ff, 0xffafff00, 0xffafff5f, 0xffafff87, 0xffafffaf, 0xffafffd7, 0xffafffff,
    0xffd70000, 0xffd7005f, 0xffd70087, 0xffd700af, 0xffd700d7, 0xffd700ff, 0xffd75f00, 0xffd75f5f,
    0xffd75f87, 0xffd75faf, 0xffd75fd7, 0xffd75fff, 0xffd78700, 0xffd7875f, 0xffd78787, 0xffd787af,
    0xffd787d7, 0xffd787ff, 0xffd7af00, 0xffd7af5f, 0xffd7af87, 0xffd7afaf, 0xffd7afd7, 0xffd7afff,
    0xffd7d700, 0xffd7d75f, 0xffd7d787, 0xffd7d7af, 0xffd7d7d7, 0xffd7d7ff, 0xffd7ff00, 0xffd7ff5f,
    0xffd7ff87, 0xffd7ffaf, 0xffd7ffd7, 0xffd7ffff, 0xffff0000, 0xffff005f, 0xffff0087, 0xffff00af,
    0xffff00d7, 0xffff00ff, 0xffff5f00, 0xffff5f5f, 0xffff5f87, 0xffff5faf, 0xffff5fd7, 0xffff5fff,
    0xffff8700, 0xffff875f, 0xffff8787, 0xffff87af, 0xffff87d7, 0xffff87ff, 0xffffaf00, 0xffffaf5f,
    0xffffaf87, 0xffffafaf, 0xffffafd7, 0xffffafff, 0xffffd700, 0xffffd75f, 0xffffd787, 0xffffd7af,
    0xffffd7d7, 0xffffd7ff, 0xffffff00, 0xffffff5f, 0xffffff87, 0xffffffaf, 0xffffffd7, 0xffffffff,
    0xff080808, 0xff121212, 0xff1c1c1c, 0xff262626, 0xff303030, 0xff3a3a3a, 0xff444444, 0xff4e4e4e,
    0xff585858, 0xff626262, 0xff6c6c6c, 0xff767676, 0xff808080, 0xff8a8a8a, 0xff949494, 0xff9e9e9e,
    0xffa8a8a8, 0xffb2b2b2, 0xffbcbcbc, 0xffc6c6c6, 0xffd0d0d0, 0xffdadada, 0xffe4e4e4, 0xffeeeeee,
    0xffffffff, 0xff000000, 0xffA9AAA9]"

section \<open>Double precision\<close>

definition half_even :: "int \<Rightarrow> int \<Rightarrow> int" where
  "half_even n d = (let q = n div d; r = n mod d in if d < 2 * r \<or> d = 2 * r \<and> odd q then q + 1 else q)"

text \<open>The double nearest to \<open>n / d\<close> for positive numbers below \<open>2 ^ 52\<close>: \<open>m / 2 ^ s\<close> as \<open>(m, s)\<close>.\<close>

definition dbl_ratio :: "int \<Rightarrow> int \<Rightarrow> int \<times> nat" where
  "dbl_ratio n d =
     (let e = bitlen n - bitlen d; e = (if 0 \<le> e \<and> d * 2 ^ nat e \<le> n \<or> e < 0 \<and> d \<le> n * 2 ^ nat (- e) then e else e - 1);
          s = nat (52 - e)
      in (half_even (n * 2 ^ s) d, s))"

text \<open>An integer rounded to 53 significant bits.\<close>

definition round53 :: "int \<Rightarrow> int" where
  "round53 p = (let b = nat (bitlen p) in if b \<le> 53 then p else half_even p (2 ^ (b - 53)) * 2 ^ (b - 53))"

text \<open>\<open>(int) (v * mult)\<close> for the double \<open>mult\<close>: the product is rounded and then cut.\<close>

definition dbl_times :: "int \<Rightarrow> int \<times> nat \<Rightarrow> int" where
  "dbl_times v mult = (case mult of (m, s) \<Rightarrow> sgn v * (round53 (\<bar>v\<bar> * m) div 2 ^ s))"

text \<open>
  \<open>255 / (Math.pow(2, n * 4) - 1)\<close> for \<open>n\<close> hexadecimal digits, applied to a component.
  From 14 digits on the subtraction rounds back to the power, and from 256 digits
  on the power is infinite and the quotient zero.
\<close>

definition scale :: "int \<Rightarrow> int \<Rightarrow> int" where
  "scale n v =
     (if 256 \<le> n then 0
      else dbl_times v (dbl_ratio 255 (if n \<le> 13 then 2 ^ (nat n * 4) - 1 else 2 ^ (nat n * 4))))"

section \<open>Colour specifications\<close>

definition parse_color :: "jvm \<Rightarrow> jstring \<Rightarrow> u32 option" where
  "parse_color J c = do {
     c0 \<leftarrow> aget c 0;
     if c0 \<noteq> chr ''#'' \<and> \<not> startsWith c (ascii ''rgb:'') then map_option word_of_int (parseInt J 10 c)
     else do {
       let skipInitial = (if c0 = chr ''#'' then 1 else 4);
       let skipBetween = (if c0 = chr ''#'' then 0 else 1);
       let charsForColors = int (length c) - skipInitial - 2 * skipBetween;
       if charsForColors mod 3 \<noteq> 0 then Some 0
       else do {
         let componentLength = charsForColors div 3;
         let pos = skipInitial;
         rString \<leftarrow> substring c pos (pos + componentLength);
         let pos = pos + componentLength + skipBetween;
         gString \<leftarrow> substring c pos (pos + componentLength);
         let pos = pos + componentLength + skipBetween;
         bString \<leftarrow> substring c pos (pos + componentLength);
         r \<leftarrow> parseInt J 16 rString;
         g \<leftarrow> parseInt J 16 gString;
         b \<leftarrow> parseInt J 16 bString;
         Some (push_bit 24 0xFF OR push_bit 16 (word_of_int (scale componentLength r)) OR
               push_bit 8 (word_of_int (scale componentLength g)) OR word_of_int (scale componentLength b)) } } }"

text \<open>The exceptions of the parser are caught: 0 is its answer then.\<close>

definition parse :: "jvm \<Rightarrow> jstring \<Rightarrow> u32" where
  "parse J c = (case parse_color J c of None \<Rightarrow> 0 | Some v \<Rightarrow> v)"

definition tryParseColor :: "jvm \<Rightarrow> int \<Rightarrow> jstring \<Rightarrow> u32 list \<Rightarrow> u32 list option" where
  "tryParseColor J intoIndex textParameter colors =
     (let c = parse J textParameter in if c \<noteq> 0 then aset colors intoIndex c else Some colors)"

definition resetIndex :: "jvm \<Rightarrow> int \<Rightarrow> u32 list \<Rightarrow> u32 list option" where
  "resetIndex J index colors = do {
     c \<leftarrow> aget (ji_scheme J) index;
     aset colors index c }"

definition resetColors :: "u32 list \<Rightarrow> u32 list \<Rightarrow> u32 list option" where
  "resetColors scheme colors = arraycopy scheme 0 colors 0 NUM_INDEXED_COLORS"

section \<open>Colour schemes\<close>

definition property_index :: "jvm \<Rightarrow> jstring \<Rightarrow> int option" where
  "property_index J key =
     (if key = ascii ''foreground'' then Some (uint COLOR_FOREGROUND)
      else if key = ascii ''background'' then Some (uint COLOR_BACKGROUND)
      else if key = ascii ''cursor'' then Some (uint COLOR_CURSOR)
      else if startsWith key (ascii ''color'') then parseInt J 10 (drop 5 key)
      else None)"

text \<open>The properties are given in the order in which the code meets them.\<close>

fun set_properties :: "jvm \<Rightarrow> (jstring \<times> jstring) list \<Rightarrow> u32 list \<Rightarrow> u32 list option" where
  "set_properties J [] colors = Some colors"
| "set_properties J ((key, val) # props) colors = do {
     colorIndex \<leftarrow> property_index J key;
     let colorValue = parse J val;
     if colorValue = 0 then None
     else do { colors \<leftarrow> aset colors colorIndex colorValue; set_properties J props colors } }"

definition updateWith :: "jvm \<Rightarrow> (jstring \<times> jstring) list \<Rightarrow> u32 list \<Rightarrow> u32 list option" where
  "updateWith J props colors = do {
     colors \<leftarrow> resetColors DEFAULT_COLORS colors;
     set_properties J props colors }"

section \<open>Lemmas\<close>

lemma length_default: "int (length DEFAULT_COLORS) = NUM_INDEXED_COLORS"
  by (simp add: DEFAULT_COLORS_def NUM_INDEXED_COLORS_def)

lemma resetColors_ok:
  "int (length scheme) = NUM_INDEXED_COLORS \<Longrightarrow> int (length colors) = NUM_INDEXED_COLORS \<Longrightarrow> resetColors scheme colors = Some scheme"
  by (auto simp: resetColors_def arraycopy_def NUM_INDEXED_COLORS_def)

lemma tryParseColor_ok:
  "int (length colors) = NUM_INDEXED_COLORS \<Longrightarrow> 0 \<le> i \<Longrightarrow> i < NUM_INDEXED_COLORS \<Longrightarrow>
   \<exists>colors'. tryParseColor J i s colors = Some colors' \<and> length colors' = length colors"
  by (auto simp: tryParseColor_def Let_def aset_Some)

lemma resetIndex_ok:
  "int (length colors) = NUM_INDEXED_COLORS \<Longrightarrow> int (length (ji_scheme J)) = NUM_INDEXED_COLORS \<Longrightarrow>
   0 \<le> i \<Longrightarrow> i < NUM_INDEXED_COLORS \<Longrightarrow> \<exists>colors'. resetIndex J i colors = Some colors' \<and> length colors' = length colors"
  by (auto simp: resetIndex_def aset_Some aget_Some)

end
