(* ===== verification/KeyHandler.thy ===== *)
theory KeyHandler
  imports TermColors
begin

text \<open>
  \<^verbatim>\<open>KeyHandler.java\<close>: the bytes that a key sends, and the table that answers requests
  for a termcap name. A key code of Android is a value of \<open>keycode\<close>; the modifiers
  are bits above every key code, so that a key code combined with modifiers is a
  pair. \<^const>\<open>None\<close> is the null answer: the key is handled as text.
\<close>

datatype (plugins only: code size) keycode =
    KEYCODE_DPAD_RIGHT | KEYCODE_MOVE_HOME | KEYCODE_DPAD_LEFT | KEYCODE_MOVE_END | KEYCODE_F1 | KEYCODE_F2
  | KEYCODE_F3 | KEYCODE_F4 | KEYCODE_F5 | KEYCODE_F6 | KEYCODE_F7 | KEYCODE_F8
  | KEYCODE_F9 | KEYCODE_F10 | KEYCODE_F11 | KEYCODE_F12 | KEYCODE_DEL | KEYCODE_DPAD_DOWN
  | KEYCODE_PAGE_UP | KEYCODE_PAGE_DOWN | KEYCODE_DPAD_UP | KEYCODE_TAB | KEYCODE_FORWARD_DEL | KEYCODE_INSERT
  | KEYCODE_NUMPAD_ENTER | KEYCODE_DPAD_CENTER | KEYCODE_SYSRQ | KEYCODE_BREAK | KEYCODE_ESCAPE | KEYCODE_BACK
  | KEYCODE_NUM_LOCK | KEYCODE_SPACE | KEYCODE_ENTER | KEYCODE_NUMPAD_MULTIPLY | KEYCODE_NUMPAD_ADD | KEYCODE_NUMPAD_COMMA
  | KEYCODE_NUMPAD_DOT | KEYCODE_NUMPAD_SUBTRACT | KEYCODE_NUMPAD_DIVIDE | KEYCODE_NUMPAD_0 | KEYCODE_NUMPAD_1 | KEYCODE_NUMPAD_2
  | KEYCODE_NUMPAD_3 | KEYCODE_NUMPAD_4 | KEYCODE_NUMPAD_5 | KEYCODE_NUMPAD_6 | KEYCODE_NUMPAD_7 | KEYCODE_NUMPAD_8
  | KEYCODE_NUMPAD_9 | KEYCODE_NUMPAD_EQUALS
  | OTHER_KEY int

definition KEYMOD_ALT :: u32 where "KEYMOD_ALT = 0x80000000"
definition KEYMOD_CTRL :: u32 where "KEYMOD_CTRL = 0x40000000"
definition KEYMOD_SHIFT :: u32 where "KEYMOD_SHIFT = 0x20000000"

definition TERMCAP_TO_KEYCODE :: "(string \<times> u32 \<times> keycode) list" where
  "TERMCAP_TO_KEYCODE = [
    (''%i'', KEYMOD_SHIFT, KEYCODE_DPAD_RIGHT), (''#2'', KEYMOD_SHIFT, KEYCODE_MOVE_HOME), (''#4'', KEYMOD_SHIFT, KEYCODE_DPAD_LEFT),
    (''*7'', KEYMOD_SHIFT, KEYCODE_MOVE_END), (''k1'', 0, KEYCODE_F1), (''k2'', 0, KEYCODE_F2),
    (''k3'', 0, KEYCODE_F3), (''k4'', 0, KEYCODE_F4), (''k5'', 0, KEYCODE_F5),
    (''k6'', 0, KEYCODE_F6), (''k7'', 0, KEYCODE_F7), (''k8'', 0, KEYCODE_F8),
    (''k9'', 0, KEYCODE_F9), (''k;'', 0, KEYCODE_F10), (''F1'', 0, KEYCODE_F11),
    (''F2'', 0, KEYCODE_F12), (''F3'', KEYMOD_SHIFT, KEYCODE_F1), (''F4'', KEYMOD_SHIFT, KEYCODE_F2),
    (''F5'', KEYMOD_SHIFT, KEYCODE_F3), (''F6'', KEYMOD_SHIFT, KEYCODE_F4), (''F7'', KEYMOD_SHIFT, KEYCODE_F5),
    (''F8'', KEYMOD_SHIFT, KEYCODE_F6), (''F9'', KEYMOD_SHIFT, KEYCODE_F7), (''FA'', KEYMOD_SHIFT, KEYCODE_F8),
    (''FB'', KEYMOD_SHIFT, KEYCODE_F9), (''FC'', KEYMOD_SHIFT, KEYCODE_F10), (''FD'', KEYMOD_SHIFT, KEYCODE_F11),
    (''FE'', KEYMOD_SHIFT, KEYCODE_F12), (''kb'', 0, KEYCODE_DEL), (''kd'', 0, KEYCODE_DPAD_DOWN),
    (''kh'', 0, KEYCODE_MOVE_HOME), (''kl'', 0, KEYCODE_DPAD_LEFT), (''kr'', 0, KEYCODE_DPAD_RIGHT),
    (''K1'', 0, KEYCODE_MOVE_HOME), (''K3'', 0, KEYCODE_PAGE_UP), (''K4'', 0, KEYCODE_MOVE_END),
    (''K5'', 0, KEYCODE_PAGE_DOWN), (''ku'', 0, KEYCODE_DPAD_UP), (''kB'', KEYMOD_SHIFT, KEYCODE_TAB),
    (''kD'', 0, KEYCODE_FORWARD_DEL), (''kDN'', KEYMOD_SHIFT, KEYCODE_DPAD_DOWN), (''kF'', KEYMOD_SHIFT, KEYCODE_DPAD_DOWN),
    (''kI'', 0, KEYCODE_INSERT), (''kN'', 0, KEYCODE_PAGE_UP), (''kP'', 0, KEYCODE_PAGE_DOWN),
    (''kR'', KEYMOD_SHIFT, KEYCODE_DPAD_UP), (''kUP'', KEYMOD_SHIFT, KEYCODE_DPAD_UP), (''@7'', 0, KEYCODE_MOVE_END),
    (''@8'', 0, KEYCODE_NUMPAD_ENTER)]"

definition transformForModifiers :: "jstring \<Rightarrow> u32 \<Rightarrow> int \<Rightarrow> jstring" where
  "transformForModifiers start keymod lastChar =
     (let modifier = (if keymod = KEYMOD_SHIFT then Some 2
        else if keymod = KEYMOD_ALT then Some 3
        else if keymod = KEYMOD_SHIFT OR KEYMOD_ALT then Some 4
        else if keymod = KEYMOD_CTRL then Some 5
        else if keymod = KEYMOD_SHIFT OR KEYMOD_CTRL then Some 6
        else if keymod = KEYMOD_ALT OR KEYMOD_CTRL then Some 7
        else if keymod = KEYMOD_SHIFT OR KEYMOD_ALT OR KEYMOD_CTRL then Some 8
        else None)
      in case modifier of
           None \<Rightarrow> start @ [lastChar]
         | Some m \<Rightarrow> start @ (chr '';'' # int_text m) @ [lastChar])"

definition getCode :: "keycode \<Rightarrow> u32 \<Rightarrow> bool \<Rightarrow> bool \<Rightarrow> jstring option" where
  "getCode keyCode keyMode cursorApp keypadApplication = (case keyCode of
      KEYCODE_DPAD_CENTER \<Rightarrow> Some ([13])
    | KEYCODE_DPAD_UP \<Rightarrow> Some (if keyMode = 0 then (if cursorApp then 27 # ascii ''OA'' else 27 # ascii ''[A'') else transformForModifiers (27 # ascii ''[1'') keyMode (chr ''A''))
    | KEYCODE_DPAD_DOWN \<Rightarrow> Some (if keyMode = 0 then (if cursorApp then 27 # ascii ''OB'' else 27 # ascii ''[B'') else transformForModifiers (27 # ascii ''[1'') keyMode (chr ''B''))
    | KEYCODE_DPAD_RIGHT \<Rightarrow> Some (if keyMode = 0 then (if cursorApp then 27 # ascii ''OC'' else 27 # ascii ''[C'') else transformForModifiers (27 # ascii ''[1'') keyMode (chr ''C''))
    | KEYCODE_DPAD_LEFT \<Rightarrow> Some (if keyMode = 0 then (if cursorApp then 27 # ascii ''OD'' else 27 # ascii ''[D'') else transformForModifiers (27 # ascii ''[1'') keyMode (chr ''D''))
    | KEYCODE_MOVE_HOME \<Rightarrow> Some (if keyMode = 0 then (if cursorApp then 27 # ascii ''OH'' else 27 # ascii ''[H'') else transformForModifiers (27 # ascii ''[1'') keyMode (chr ''H''))
    | KEYCODE_MOVE_END \<Rightarrow> Some (if keyMode = 0 then (if cursorApp then 27 # ascii ''OF'' else 27 # ascii ''[F'') else transformForModifiers (27 # ascii ''[1'') keyMode (chr ''F''))
    | KEYCODE_F1 \<Rightarrow> Some (if keyMode = 0 then 27 # ascii ''OP'' else transformForModifiers (27 # ascii ''[1'') keyMode (chr ''P''))
    | KEYCODE_F2 \<Rightarrow> Some (if keyMode = 0 then 27 # ascii ''OQ'' else transformForModifiers (27 # ascii ''[1'') keyMode (chr ''Q''))
    | KEYCODE_F3 \<Rightarrow> Some (if keyMode = 0 then 27 # ascii ''OR'' else transformForModifiers (27 # ascii ''[1'') keyMode (chr ''R''))
    | KEYCODE_F4 \<Rightarrow> Some (if keyMode = 0 then 27 # ascii ''OS'' else transformForModifiers (27 # ascii ''[1'') keyMode (chr ''S''))
    | KEYCODE_F5 \<Rightarrow> Some (transformForModifiers (27 # ascii ''[15'') keyMode (chr ''~''))
    | KEYCODE_F6 \<Rightarrow> Some (transformForModifiers (27 # ascii ''[17'') keyMode (chr ''~''))
    | KEYCODE_F7 \<Rightarrow> Some (transformForModifiers (27 # ascii ''[18'') keyMode (chr ''~''))
    | KEYCODE_F8 \<Rightarrow> Some (transformForModifiers (27 # ascii ''[19'') keyMode (chr ''~''))
    | KEYCODE_F9 \<Rightarrow> Some (transformForModifiers (27 # ascii ''[20'') keyMode (chr ''~''))
    | KEYCODE_F10 \<Rightarrow> Some (transformForModifiers (27 # ascii ''[21'') keyMode (chr ''~''))
    | KEYCODE_F11 \<Rightarrow> Some (transformForModifiers (27 # ascii ''[23'') keyMode (chr ''~''))
    | KEYCODE_F12 \<Rightarrow> Some (transformForModifiers (27 # ascii ''[24'') keyMode (chr ''~''))
    | KEYCODE_SYSRQ \<Rightarrow> Some (27 # ascii ''[32~'')
    | KEYCODE_BREAK \<Rightarrow> Some (27 # ascii ''[34~'')
    | KEYCODE_ESCAPE \<Rightarrow> Some ([27])
    | KEYCODE_BACK \<Rightarrow> Some ([27])
    | KEYCODE_INSERT \<Rightarrow> Some (transformForModifiers (27 # ascii ''[2'') keyMode (chr ''~''))
    | KEYCODE_FORWARD_DEL \<Rightarrow> Some (transformForModifiers (27 # ascii ''[3'') keyMode (chr ''~''))
    | KEYCODE_PAGE_UP \<Rightarrow> Some (27 # ascii ''[5~'')
    | KEYCODE_PAGE_DOWN \<Rightarrow> Some (27 # ascii ''[6~'')
    | KEYCODE_DEL \<Rightarrow> Some ((if keyMode AND KEYMOD_ALT = 0 then [] else [27]) @ (if keyMode AND KEYMOD_CTRL = 0 then [127] else [8]))
    | KEYCODE_NUM_LOCK \<Rightarrow> Some (27 # ascii ''OP'')
    | KEYCODE_SPACE \<Rightarrow> (if keyMode AND KEYMOD_CTRL = 0 then None else Some [0])
    | KEYCODE_TAB \<Rightarrow> Some (if keyMode AND KEYMOD_SHIFT = 0 then [9] else 27 # ascii ''[Z'')
    | KEYCODE_ENTER \<Rightarrow> Some (if keyMode AND KEYMOD_ALT = 0 then [13] else [27, 13])
    | KEYCODE_NUMPAD_ENTER \<Rightarrow> Some (if keypadApplication then transformForModifiers (27 # ascii ''O'') keyMode (chr ''M'') else [10])
    | KEYCODE_NUMPAD_MULTIPLY \<Rightarrow> Some (if keypadApplication then transformForModifiers (27 # ascii ''O'') keyMode (chr ''j'') else ascii ''*'')
    | KEYCODE_NUMPAD_ADD \<Rightarrow> Some (if keypadApplication then transformForModifiers (27 # ascii ''O'') keyMode (chr ''k'') else ascii ''+'')
    | KEYCODE_NUMPAD_COMMA \<Rightarrow> Some (ascii '','')
    | KEYCODE_NUMPAD_DOT \<Rightarrow> Some (if keypadApplication then 27 # ascii ''On'' else ascii ''.'')
    | KEYCODE_NUMPAD_SUBTRACT \<Rightarrow> Some (if keypadApplication then transformForModifiers (27 # ascii ''O'') keyMode (chr ''m'') else ascii ''-'')
    | KEYCODE_NUMPAD_DIVIDE \<Rightarrow> Some (if keypadApplication then transformForModifiers (27 # ascii ''O'') keyMode (chr ''o'') else ascii ''/'')
    | KEYCODE_NUMPAD_0 \<Rightarrow> Some (if keypadApplication then transformForModifiers (27 # ascii ''O'') keyMode (chr ''p'') else ascii ''0'')
    | KEYCODE_NUMPAD_1 \<Rightarrow> Some (if keypadApplication then transformForModifiers (27 # ascii ''O'') keyMode (chr ''q'') else ascii ''1'')
    | KEYCODE_NUMPAD_2 \<Rightarrow> Some (if keypadApplication then transformForModifiers (27 # ascii ''O'') keyMode (chr ''r'') else ascii ''2'')
    | KEYCODE_NUMPAD_3 \<Rightarrow> Some (if keypadApplication then transformForModifiers (27 # ascii ''O'') keyMode (chr ''s'') else ascii ''3'')
    | KEYCODE_NUMPAD_4 \<Rightarrow> Some (if keypadApplication then transformForModifiers (27 # ascii ''O'') keyMode (chr ''t'') else ascii ''4'')
    | KEYCODE_NUMPAD_5 \<Rightarrow> Some (if keypadApplication then transformForModifiers (27 # ascii ''O'') keyMode (chr ''u'') else ascii ''5'')
    | KEYCODE_NUMPAD_6 \<Rightarrow> Some (if keypadApplication then transformForModifiers (27 # ascii ''O'') keyMode (chr ''v'') else ascii ''6'')
    | KEYCODE_NUMPAD_7 \<Rightarrow> Some (if keypadApplication then transformForModifiers (27 # ascii ''O'') keyMode (chr ''w'') else ascii ''7'')
    | KEYCODE_NUMPAD_8 \<Rightarrow> Some (if keypadApplication then transformForModifiers (27 # ascii ''O'') keyMode (chr ''x'') else ascii ''8'')
    | KEYCODE_NUMPAD_9 \<Rightarrow> Some (if keypadApplication then transformForModifiers (27 # ascii ''O'') keyMode (chr ''y'') else ascii ''9'')
    | KEYCODE_NUMPAD_EQUALS \<Rightarrow> Some (if keypadApplication then transformForModifiers (27 # ascii ''O'') keyMode (chr ''X'') else ascii ''='')
    | OTHER_KEY n \<Rightarrow> None)"

definition getCodeFromTermcap :: "jstring \<Rightarrow> bool \<Rightarrow> bool \<Rightarrow> jstring option" where
  "getCodeFromTermcap termcap cursorKeysApplication keypadApplication =
     (case find (\<lambda>(name, keyMod, keyCode). ascii name = termcap) TERMCAP_TO_KEYCODE of
        None \<Rightarrow> None
      | Some (name, keyMod, keyCode) \<Rightarrow> getCode keyCode keyMod cursorKeysApplication keypadApplication)"

section \<open>Properties\<close>

text \<open>The modifier bits of a key event.\<close>

definition key_mods :: "bool \<Rightarrow> bool \<Rightarrow> bool \<Rightarrow> u32" where
  "key_mods shift alt ctrl =
     (if shift then KEYMOD_SHIFT else 0) OR (if alt then KEYMOD_ALT else 0) OR (if ctrl then KEYMOD_CTRL else 0)"

lemmas keymods = KEYMOD_SHIFT_def KEYMOD_ALT_def KEYMOD_CTRL_def

lemma transform_mods:
  assumes "shift \<or> alt \<or> ctrl"
  shows "transformForModifiers start (key_mods shift alt ctrl) c =
    start @ [chr '';'', 49 + of_bool shift + 2 * of_bool alt + 4 * of_bool ctrl, c]"
  using assms
  by (cases shift; cases alt; cases ctrl)
     (simp_all add: transformForModifiers_def key_mods_def keymods int_text_def nat_text.simps)

lemma transform_plain: "transformForModifiers start 0 c = start @ [c]"
  by (simp add: transformForModifiers_def keymods)

lemma mods_zero: "key_mods shift alt ctrl = 0 \<longleftrightarrow> \<not> (shift \<or> alt \<or> ctrl)"
  by (cases shift; cases alt; cases ctrl) (simp_all add: key_mods_def keymods)

lemma getCode_cursor:
  "getCode KEYCODE_DPAD_UP m a k = Some (if m = 0 then (if a then 27 # ascii ''OA'' else 27 # ascii ''[A'') else transformForModifiers (27 # ascii ''[1'') m (chr ''A''))"
  "getCode KEYCODE_DPAD_DOWN m a k = Some (if m = 0 then (if a then 27 # ascii ''OB'' else 27 # ascii ''[B'') else transformForModifiers (27 # ascii ''[1'') m (chr ''B''))"
  "getCode KEYCODE_DPAD_RIGHT m a k = Some (if m = 0 then (if a then 27 # ascii ''OC'' else 27 # ascii ''[C'') else transformForModifiers (27 # ascii ''[1'') m (chr ''C''))"
  "getCode KEYCODE_DPAD_LEFT m a k = Some (if m = 0 then (if a then 27 # ascii ''OD'' else 27 # ascii ''[D'') else transformForModifiers (27 # ascii ''[1'') m (chr ''D''))"
  "getCode KEYCODE_MOVE_HOME m a k = Some (if m = 0 then (if a then 27 # ascii ''OH'' else 27 # ascii ''[H'') else transformForModifiers (27 # ascii ''[1'') m (chr ''H''))"
  "getCode KEYCODE_MOVE_END m a k = Some (if m = 0 then (if a then 27 # ascii ''OF'' else 27 # ascii ''[F'') else transformForModifiers (27 # ascii ''[1'') m (chr ''F''))"
  unfolding getCode_def keycode.case by (rule refl)+

text \<open>The cursor keys with their final letters.\<close>

definition cursor_keys :: "(keycode \<times> int) list" where
  "cursor_keys = [(KEYCODE_DPAD_UP, chr ''A''), (KEYCODE_DPAD_DOWN, chr ''B''), (KEYCODE_DPAD_RIGHT, chr ''C''),
     (KEYCODE_DPAD_LEFT, chr ''D''), (KEYCODE_MOVE_HOME, chr ''H''), (KEYCODE_MOVE_END, chr ''F'')]"

text \<open>
  C38. A cursor key sends what xterm documents: without modifiers the letter after
  \<^verbatim>\<open>ESC [\<close>, or after \<^verbatim>\<open>ESC O\<close> in application mode, and with any combination of Shift,
  Alt and Control the sequence \<^verbatim>\<open>ESC [ 1 ; m\<close> and the letter, where \<open>m\<close> is one more
  than the sum of 1 for Shift, 2 for Alt and 4 for Control.
\<close>

theorem cursor_key_codes:
  assumes "(key, c) \<in> set cursor_keys"
  shows "getCode key (key_mods shift alt ctrl) cursorApp keypadApp =
    Some (if shift \<or> alt \<or> ctrl
          then 27 # ascii ''[1;'' @ [49 + of_bool shift + 2 * of_bool alt + 4 * of_bool ctrl, c]
          else [27, if cursorApp then chr ''O'' else chr ''['', c])"
proof (cases "shift \<or> alt \<or> ctrl")
  case True
  then show ?thesis using assms by (auto simp: cursor_keys_def getCode_cursor mods_zero transform_mods ascii_def chr_def)
next
  case False
  then show ?thesis using assms by (auto simp: cursor_keys_def getCode_cursor mods_zero ascii_def chr_def)
qed

theorem cursor_key_codes_witness:
  "(KEYCODE_DPAD_LEFT, 68) \<in> set cursor_keys \<and>
   getCode KEYCODE_DPAD_LEFT (key_mods True False True) False False = Some (27 # ascii ''[1;6D'')"
  using cursor_key_codes [of KEYCODE_DPAD_LEFT 68 True False True False False] by (simp add: cursor_keys_def ascii_def chr_def)

text \<open>
  The termcap names of the page keys are the wrong way round: \<^verbatim>\<open>kN\<close> is the next-page
  key and \<^verbatim>\<open>kP\<close> the previous-page key.
\<close>

lemma termcap_page_keys_swapped:
  "getCodeFromTermcap (ascii ''kN'') a k = getCode KEYCODE_PAGE_UP 0 a k \<and>
   getCodeFromTermcap (ascii ''kP'') a k = getCode KEYCODE_PAGE_DOWN 0 a k"
  by (simp add: getCodeFromTermcap_def TERMCAP_TO_KEYCODE_def ascii_def)

end
