(* ===== verification/Sixel.thy ===== *)
theory Sixel
  imports TermColors
begin

text \<open>
  \<^verbatim>\<open>Sixel.java\<close>: the decoder of inline images. A first pass over the data finds the
  size of the image and a second one paints it. The hue, lightness and saturation
  of a colour register are converted in floating point; that conversion is a
  function of the runtime. The lemmas show that the decoder always ends, that no
  array access fails, and that its images have the size they claim.
\<close>

unbundle bit_operations_syntax

record six_image =
  im_pixels :: "u32 list"
  im_width :: int
  im_height :: int

definition MAX_DIMENSION :: int where "MAX_DIMENSION = 4096"
definition MAX_PIXELS :: int where "MAX_PIXELS = 4096 * 4096"

section \<open>Numbers\<close>

text \<open>\<open>(any, v, i)\<close>: whether a digit was seen, the value so far and the next index.\<close>

function read_digits :: "jstring \<Rightarrow> int \<Rightarrow> int \<Rightarrow> int \<times> int" where
  "read_digits s i v =
     (if 0 \<le> i \<and> i < int (length s) \<and> 48 \<le> s ! nat i \<and> s ! nat i \<le> 57
      then read_digits s (i + 1) (jint (v * 10 + (s ! nat i - 48)))
      else (v, i))"
  by pat_completeness auto
termination
  by (relation "measure (\<lambda>(s, i, v). nat (int (length s) - i))") auto

declare read_digits.simps [simp del]

definition readInt :: "jstring \<Rightarrow> int \<Rightarrow> int \<times> int" where
  "readInt s start = read_digits s start 0"

lemma read_digits_next: "i \<le> snd (read_digits s i v)"
proof (induction s i v rule: read_digits.induct)
  case (1 s i v)
  then show ?case by (subst read_digits.simps) (force split: if_splits)
qed

lemma readInt_next: "readInt s i = (v, j) \<Longrightarrow> i \<le> j"
  using read_digits_next [of i s 0] by (simp add: readInt_def)

text \<open>Skipping the parameters of a colour or raster attribute.\<close>

function skip_params :: "jstring \<Rightarrow> int \<Rightarrow> int" where
  "skip_params s i =
     (if 0 \<le> i \<and> i < int (length s) \<and> (48 \<le> s ! nat i \<and> s ! nat i \<le> 57 \<or> s ! nat i = chr '';'')
      then skip_params s (i + 1) else i)"
  by pat_completeness auto
termination
  by (relation "measure (\<lambda>(s, i). nat (int (length s) - i))") auto

declare skip_params.simps [simp del]

lemma skip_params_next: "i \<le> skip_params s i"
proof (induction s i rule: skip_params.induct)
  case (1 s i)
  then show ?case by (subst skip_params.simps) (force split: if_splits)
qed

definition is_sixel :: "int \<Rightarrow> bool" where
  "is_sixel c \<longleftrightarrow> chr ''?'' \<le> c \<and> c \<le> chr ''~''"

section \<open>The size\<close>

record six_size =
  z_posX :: int
  z_bandTop :: int
  z_maxWidth :: int
  z_maxHeight :: int

definition grow :: "int \<Rightarrow> int \<Rightarrow> six_size \<Rightarrow> six_size" where
  "grow count value z =
     (let posX = jint (z_posX z + count);
          z = z\<lparr>z_posX := posX, z_maxWidth := (if z_maxWidth z < posX then posX else z_maxWidth z)\<rparr>;
          highest = bitlen value - 1;
          need = jint (z_bandTop z + highest + 1)
      in if value \<noteq> 0 \<and> z_maxHeight z < need then z\<lparr>z_maxHeight := need\<rparr> else z)"

definition size_repeat :: "jstring \<Rightarrow> int \<Rightarrow> int \<Rightarrow> six_size \<Rightarrow> int \<times> six_size" where
  "size_repeat data count j z =
     (if j < int (length data) \<and> is_sixel (data ! nat j) then (j + 1, grow count (data ! nat j - chr ''?'') z) else (j, z))"

function size_pass :: "jstring \<Rightarrow> int \<Rightarrow> six_size \<Rightarrow> six_size" where
  "size_pass data i z =
     (if 0 \<le> i \<and> i < int (length data) then
        (let c = data ! nat i in
         if is_sixel c then size_pass data (i + 1) (grow 1 (c - chr ''?'') z)
         else if c = chr ''!'' then
           (let (v, j) = readInt data (i + 1); (j, z) = size_repeat data (max 1 v) j z in size_pass data j z)
         else if c = chr ''$'' then size_pass data (i + 1) (z\<lparr>z_posX := 0\<rparr>)
         else if c = chr ''-'' then size_pass data (i + 1) (z\<lparr>z_posX := 0, z_bandTop := jint (z_bandTop z + 6)\<rparr>)
         else if c = chr ''#'' \<or> c = chr ''\"'' then size_pass data (skip_params data (i + 1)) z
         else size_pass data (i + 1) z)
      else z)"
  by pat_completeness auto
termination
proof (relation "measure (\<lambda>(data, i, z). nat (int (length data) - i))", goal_cases)
  case (3 data i z c x v j y j' z')
  then show ?case using readInt_next [of data "i + 1" v j] by (auto simp: size_repeat_def split: if_splits)
next
  case (6 data i z c)
  then show ?case using skip_params_next [of "i + 1" data] by auto
qed auto

declare size_pass.simps [simp del]

section \<open>Painting\<close>

definition clamp255 :: "int \<Rightarrow> int" where
  "clamp255 v = (if v < 0 then 0 else if 255 < v then 255 else v)"

text \<open>Java's division rounds towards zero.\<close>

definition jdiv :: "int \<Rightarrow> int \<Rightarrow> int" where
  "jdiv a b = sgn a * (\<bar>a\<bar> div b)"

definition rgbToArgb :: "int \<Rightarrow> int \<Rightarrow> int \<Rightarrow> u32" where
  "rgbToArgb r g b =
     0xff000000 OR push_bit 16 (word_of_int (clamp255 (jdiv (jint (r * 255)) 100))) OR
     push_bit 8 (word_of_int (clamp255 (jdiv (jint (g * 255)) 100))) OR
     word_of_int (clamp255 (jdiv (jint (b * 255)) 100))"

definition defaultPalette :: "u32 list" where
  "defaultPalette = map (\<lambda>c. 0xff000000 OR c)
     [0x000000, 0x2020e0, 0xe02020, 0x20e020, 0xe020e0, 0x20e0e0, 0xe0e020, 0x808080,
      0x404040, 0x4040ff, 0xff4040, 0x40ff40, 0xff40ff, 0x40ffff, 0xffff40, 0xffffff] @ replicate 240 0"

primrec plot_bits :: "nat \<Rightarrow> int \<Rightarrow> int \<Rightarrow> int \<Rightarrow> int \<Rightarrow> int \<Rightarrow> u32 \<Rightarrow> u32 list \<Rightarrow> u32 list option" where
  "plot_bits 0 w h x bandTop value color pixels = Some pixels"
| "plot_bits (Suc n) w h x bandTop value color pixels = do {
     let b = 5 - int n;
     let y = jint (bandTop + b);
     pixels \<leftarrow> (if bit value (nat b) \<and> 0 \<le> y \<and> y < h then aset pixels (y * w + x) color else Some pixels);
     plot_bits n w h x bandTop value color pixels }"

definition plot :: "int \<Rightarrow> int \<Rightarrow> int \<Rightarrow> int \<Rightarrow> int \<Rightarrow> u32 \<Rightarrow> u32 list \<Rightarrow> u32 list option" where
  "plot w h x bandTop value color pixels =
     (if x < 0 \<or> w \<le> x then Some pixels else plot_bits 6 w h x bandTop value color pixels)"

record paint =
  p_pixels :: "u32 list"
  p_palette :: "u32 list"
  p_color :: u32
  p_posX :: int
  p_bandTop :: int

primrec plot_run :: "nat \<Rightarrow> int \<Rightarrow> int \<Rightarrow> int \<Rightarrow> paint \<Rightarrow> paint option" where
  "plot_run 0 w h value p = Some p"
| "plot_run (Suc n) w h value p = do {
     px \<leftarrow> plot w h (p_posX p) (p_bandTop p) value (p_color p) (p_pixels p);
     plot_run n w h value (p\<lparr>p_pixels := px, p_posX := jint (p_posX p + 1)\<rparr>) }"

definition paint_repeat :: "jstring \<Rightarrow> int \<Rightarrow> int \<Rightarrow> int \<Rightarrow> int \<Rightarrow> paint \<Rightarrow> (int \<times> paint) option" where
  "paint_repeat data w h count j p =
     (if j < int (length data) \<and> is_sixel (data ! nat j)
      then do { p \<leftarrow> plot_run (nat count) w h (data ! nat j - chr ''?'') p; Some (j + 1, p) }
      else Some (j, p))"

definition paint_color :: "jvm \<Rightarrow> jstring \<Rightarrow> int \<Rightarrow> paint \<Rightarrow> (int \<times> paint) option" where
  "paint_color J data i p = do {
     let (v, j) = readInt data (i + 1);
     let pc = v AND 0xff;
     if j < int (length data) \<and> data ! nat j = chr '';'' then do {
       let (pu, j1) = readInt data (j + 1);
       let (px, j2) = readInt data (j1 + 1);
       let (py, j3) = readInt data (j2 + 1);
       let (pz, j4) = readInt data (j3 + 1);
       pal \<leftarrow> aset (p_palette p) pc (if pu = 1 then ji_hls J px py pz else rgbToArgb px py pz);
       c \<leftarrow> aget pal pc;
       Some (j4, p\<lparr>p_palette := pal, p_color := c\<rparr>) }
     else do {
       c \<leftarrow> aget (p_palette p) pc;
       Some (j, p\<lparr>p_color := c\<rparr>) } }"

lemma readInt_snd: "i \<le> snd (readInt s i)"
  using readInt_next by (cases "readInt s i") auto

lemma paint_color_next: "paint_color J data i p = Some (j, p') \<Longrightarrow> i < j"
proof -
  define j0 where "j0 = snd (readInt data (i + 1))"
  define j1 where "j1 = snd (readInt data (j0 + 1))"
  define j2 where "j2 = snd (readInt data (j1 + 1))"
  define j3 where "j3 = snd (readInt data (j2 + 1))"
  define j4 where "j4 = snd (readInt data (j3 + 1))"
  note d = j0_def j1_def j2_def j3_def j4_def
  have le: "i + 1 \<le> j0" "j0 + 1 \<le> j1" "j1 + 1 \<le> j2" "j2 + 1 \<le> j3" "j3 + 1 \<le> j4"
    unfolding d by (rule readInt_snd)+
  assume "paint_color J data i p = Some (j, p')"
  then have "j = j0 \<or> j = j4"
    by (auto simp: paint_color_def Let_def case_prod_beta d [symmetric] split: if_splits bind_splits)
  with le show ?thesis by auto
qed

lemma paint_repeat_next: "paint_repeat data w h count j p = Some (j', p') \<Longrightarrow> j \<le> j'"
  by (auto simp: paint_repeat_def split: if_splits bind_splits)

function paint_pass :: "jvm \<Rightarrow> jstring \<Rightarrow> int \<Rightarrow> int \<Rightarrow> int \<Rightarrow> paint \<Rightarrow> paint option" where
  "paint_pass J data w h i p =
     (if 0 \<le> i \<and> i < int (length data) then
        (let c = data ! nat i in
         if is_sixel c then do {
           px \<leftarrow> plot w h (p_posX p) (p_bandTop p) (c - chr ''?'') (p_color p) (p_pixels p);
           paint_pass J data w h (i + 1) (p\<lparr>p_pixels := px, p_posX := jint (p_posX p + 1)\<rparr>) }
         else if c = chr ''!'' then
           (case paint_repeat data w h (max 1 (fst (readInt data (i + 1)))) (snd (readInt data (i + 1))) p of
              None \<Rightarrow> None | Some (j, p) \<Rightarrow> paint_pass J data w h j p)
         else if c = chr ''$'' then paint_pass J data w h (i + 1) (p\<lparr>p_posX := 0\<rparr>)
         else if c = chr ''-'' then paint_pass J data w h (i + 1) (p\<lparr>p_posX := 0, p_bandTop := jint (p_bandTop p + 6)\<rparr>)
         else if c = chr ''#'' then
           (case paint_color J data i p of None \<Rightarrow> None | Some (j, p) \<Rightarrow> paint_pass J data w h j p)
         else if c = chr ''\"'' then paint_pass J data w h (skip_params data (i + 1)) p
         else paint_pass J data w h (i + 1) p)
      else Some p)"
  by pat_completeness auto
termination
proof (relation "measure (\<lambda>(J, data, w, h, i, p). nat (int (length data) - i))", goal_cases)
  case (3 J data w h i p c x2 j p')
  then show ?case using readInt_next [of data "i + 1"] paint_repeat_next by (fastforce simp: prod_eq_iff)
next
  case (6 J data w h i p c x2 j p')
  then show ?case using paint_color_next by fastforce
next
  case (7 J data w h i p c)
  then show ?case using skip_params_next [of "i + 1" data] by auto
qed auto

declare paint_pass.simps [simp del]

section \<open>The decoder\<close>

text \<open>An exception is the outer \<^const>\<open>None\<close>, the null answer the inner one.\<close>

definition sixel_decode :: "jvm \<Rightarrow> jstring \<Rightarrow> six_image option option" where
  "sixel_decode J data =
     (let z = size_pass data 0 \<lparr>z_posX = 0, z_bandTop = 0, z_maxWidth = 0, z_maxHeight = 0\<rparr> in
      if z_maxWidth z \<le> 0 \<or> z_maxHeight z \<le> 0 then Some None
      else
        (let w = (if MAX_DIMENSION < z_maxWidth z then MAX_DIMENSION else z_maxWidth z);
             h = (if MAX_DIMENSION < z_maxHeight z then MAX_DIMENSION else z_maxHeight z)
         in if MAX_PIXELS < w * h then Some None
            else do {
              c \<leftarrow> aget defaultPalette 0;
              p \<leftarrow> paint_pass J data w h 0
                \<lparr>p_pixels = replicate (nat (w * h)) 0, p_palette = defaultPalette, p_color = c, p_posX = 0, p_bandTop = 0\<rparr>;
              Some (Some \<lparr>im_pixels = p_pixels p, im_width = w, im_height = h\<rparr>) }))"

section \<open>No access fails\<close>

lemma pixel_index:
  assumes "0 \<le> x" and "x < w" and "0 \<le> y" and "y < h"
  shows "0 \<le> y * w + x" and "y * w + x < w * (h :: int)"
proof -
  have "0 \<le> y * w" using assms by (intro mult_nonneg_nonneg) auto
  then show "0 \<le> y * w + x" using assms by simp
  have "(y + 1) * w \<le> h * w" using assms by (intro mult_right_mono) auto
  then show "y * w + x < w * h" using assms by (simp add: algebra_simps)
qed

lemma plot_bits_ok:
  assumes "int (length px) = w * h" and "0 \<le> x" and "x < w"
  shows "\<exists>px'. plot_bits n w h x bandTop value color px = Some px' \<and> length px' = length px"
  using assms
proof (induction n arbitrary: px)
  case (Suc n)
  define y where "y = jint (bandTop + (5 - int n))"
  have "\<exists>px1. (if bit value (nat (5 - int n)) \<and> 0 \<le> y \<and> y < h then aset px (y * w + x) color else Some px) = Some px1 \<and>
    length px1 = length px"
    using pixel_index [of x w y h] Suc.prems by (cases "0 \<le> y \<and> y < h") (auto simp: aset_Some)
  then obtain px1 where "(if bit value (nat (5 - int n)) \<and> 0 \<le> y \<and> y < h then aset px (y * w + x) color else Some px) = Some px1"
    "length px1 = length px" by blast
  then show ?case using Suc.IH [of px1] Suc.prems by (auto simp: Let_def y_def [symmetric] split: if_splits)
qed simp

lemma plot_ok:
  "int (length px) = w * h \<Longrightarrow> \<exists>px'. plot w h x bandTop value color px = Some px' \<and> length px' = length px"
  using plot_bits_ok by (simp add: plot_def)

definition paint_ok :: "int \<Rightarrow> int \<Rightarrow> paint \<Rightarrow> bool" where
  "paint_ok w h p \<longleftrightarrow> int (length (p_pixels p)) = w * h \<and> length (p_palette p) = 256"

lemma plot_run_ok: "paint_ok w h p \<Longrightarrow> \<exists>p'. plot_run n w h value p = Some p' \<and> paint_ok w h p'"
proof (induction n arbitrary: p)
  case (Suc n)
  obtain px where px: "plot w h (p_posX p) (p_bandTop p) value (p_color p) (p_pixels p) = Some px" "length px = length (p_pixels p)"
    using plot_ok Suc.prems by (metis paint_ok_def)
  then show ?case using Suc.prems Suc.IH [of "p\<lparr>p_pixels := px, p_posX := jint (p_posX p + 1)\<rparr>"] by (simp add: paint_ok_def)
qed simp

lemma paint_repeat_ok: "paint_ok w h p \<Longrightarrow> \<exists>j' p'. paint_repeat data w h count j p = Some (j', p') \<and> paint_ok w h p'"
  using plot_run_ok [of w h p "nat count" "data ! nat j - chr ''?''"] by (auto simp: paint_repeat_def)

lemma low_byte: "0 \<le> v AND 0xff \<and> v AND 0xff < (256 :: int)"
proof -
  have "v AND 0xff = v mod 256" using take_bit_eq_mask [of 8 v] by (simp add: mask_eq_exp_minus_1 take_bit_eq_mod)
  then show ?thesis by simp
qed

lemma paint_color_ok:
  assumes "paint_ok w h p"
  shows "\<exists>j' p'. paint_color J data i p = Some (j', p') \<and> paint_ok w h p'"
proof -
  have pal: "length (p_palette p) = 256" using assms by (simp add: paint_ok_def)
  have set: "\<exists>pal c. aset (p_palette p) (v AND 0xff) col = Some pal \<and> aget pal (v AND 0xff) = Some c \<and> length pal = 256" for v col
    using low_byte [of v] pal by (simp add: aset_Some aget_Some)
  have get: "\<exists>c. aget (p_palette p) (v AND 0xff) = Some c" for v using low_byte [of v] pal by (simp add: aget_Some)
  define v where "v = fst (readInt data (i + 1))"
  define j where "j = snd (readInt data (i + 1))"
  have r: "readInt data (i + 1) = (v, j)" by (simp add: v_def j_def)
  show ?thesis
  proof (cases "j < int (length data) \<and> data ! nat j = chr '';''")
    case True
    obtain pu j1 px j2 py j3 pz j4 where q: "readInt data (j + 1) = (pu, j1)" "readInt data (j1 + 1) = (px, j2)"
      "readInt data (j2 + 1) = (py, j3)" "readInt data (j3 + 1) = (pz, j4)" by (metis prod.exhaust)
    obtain pal c where "aset (p_palette p) (v AND 0xff) (if pu = 1 then ji_hls J px py pz else rgbToArgb px py pz) = Some pal"
      "aget pal (v AND 0xff) = Some c" "length pal = 256" using set by blast
    then show ?thesis using True assms r q by (simp add: paint_color_def Let_def paint_ok_def)
  next
    case False
    obtain c where "aget (p_palette p) (v AND 0xff) = Some c" using get by blast
    then show ?thesis using False assms r by (auto simp: paint_color_def Let_def paint_ok_def)
  qed
qed

lemma paint_pass_ok: "paint_ok w h p \<Longrightarrow> \<exists>p'. paint_pass J data w h i p = Some p' \<and> paint_ok w h p'"
proof (induction "nat (int (length data) - i)" arbitrary: i p rule: less_induct)
  case less
  show ?case
  proof (cases "0 \<le> i \<and> i < int (length data)")
    case False
    then show ?thesis using less.prems by (subst paint_pass.simps) auto
  next
    case True
    note IH = less.hyps
    define c where "c = data ! nat i"
    define v where "v = max 1 (fst (readInt data (i + 1)))"
    define j where "j = snd (readInt data (i + 1))"
    have j: "i < j" using readInt_snd [of "i + 1" data] by (simp add: j_def)
    obtain px where px: "plot w h (p_posX p) (p_bandTop p) (c - chr ''?'') (p_color p) (p_pixels p) = Some px"
      "length px = length (p_pixels p)" using plot_ok less.prems by (metis paint_ok_def)
    obtain jr pr where pr: "paint_repeat data w h v j p = Some (jr, pr)" "paint_ok w h pr" using paint_repeat_ok [OF less.prems] by blast
    obtain jc pc where pc: "paint_color J data i p = Some (jc, pc)" "paint_ok w h pc" using paint_color_ok [OF less.prems] by blast
    have lt: "i < jr" "i < jc" "i < skip_params data (i + 1)"
      using paint_repeat_next [OF pr(1)] j paint_color_next [OF pc(1)] skip_params_next [of "i + 1" data] by auto
    have rec: "\<exists>p'. paint_pass J data w h i' q = Some p' \<and> paint_ok w h p'" if "i < i'" "paint_ok w h q" for i' q
      using IH [of i' q] that True by simp
    show ?thesis
      using True px(1) pr(1) pc(1) rec [OF lt(1) pr(2)] rec [OF lt(2) pc(2)] rec [OF lt(3) less.prems]
        rec [of "i + 1" "p\<lparr>p_pixels := px, p_posX := jint (p_posX p + 1)\<rparr>"] rec [of "i + 1" "p\<lparr>p_posX := 0\<rparr>"]
        rec [of "i + 1" "p\<lparr>p_posX := 0, p_bandTop := jint (p_bandTop p + 6)\<rparr>"] rec [of "i + 1" p] less.prems px(2)
      by (subst paint_pass.simps) (auto simp: Let_def c_def v_def j_def paint_ok_def)
  qed
qed

definition image_ok :: "six_image \<Rightarrow> bool" where
  "image_ok im \<longleftrightarrow> 0 < im_width im \<and> im_width im \<le> MAX_DIMENSION \<and> 0 < im_height im \<and> im_height im \<le> MAX_DIMENSION \<and>
     int (length (im_pixels im)) = im_width im * im_height im"

lemma sixel_decode_ok:
  "\<exists>r. sixel_decode J data = Some r \<and> (\<forall>im. r = Some im \<longrightarrow> image_ok im)"
proof -
  define z where "z = size_pass data 0 \<lparr>z_posX = 0, z_bandTop = 0, z_maxWidth = 0, z_maxHeight = 0\<rparr>"
  define w where "w = (if MAX_DIMENSION < z_maxWidth z then MAX_DIMENSION else z_maxWidth z)"
  define h where "h = (if MAX_DIMENSION < z_maxHeight z then MAX_DIMENSION else z_maxHeight z)"
  show ?thesis
  proof (cases "z_maxWidth z \<le> 0 \<or> z_maxHeight z \<le> 0 \<or> MAX_PIXELS < w * h")
    case True
    then show ?thesis by (auto simp: sixel_decode_def Let_def z_def [symmetric] w_def [symmetric] h_def [symmetric])
  next
    case False
    then have d: "0 < w" "0 < h" "w \<le> MAX_DIMENSION" "h \<le> MAX_DIMENSION"
      by (auto simp: w_def h_def MAX_DIMENSION_def)
    obtain c where c: "aget defaultPalette 0 = Some c" by (simp add: aget_def defaultPalette_def)
    let ?p = "\<lparr>p_pixels = replicate (nat (w * h)) 0, p_palette = defaultPalette, p_color = c, p_posX = 0, p_bandTop = 0\<rparr>"
    have "paint_ok w h ?p" using d by (simp add: paint_ok_def defaultPalette_def)
    then obtain p' where "paint_pass J data w h 0 ?p = Some p'" "paint_ok w h p'" using paint_pass_ok by blast
    then show ?thesis using False d c
      by (auto simp: image_ok_def sixel_decode_def Let_def z_def [symmetric] w_def [symmetric] h_def [symmetric] paint_ok_def)
  qed
qed

text \<open>
  C39. Whatever bytes a program sends as a Sixel image, the decoder ends without an
  exception, and an image that it returns is at least one and at most 4096 pixels
  wide and high and has exactly width times height pixels.
\<close>

theorem sixel_decode_bounded:
  "\<exists>r. sixel_decode J data = Some r \<and>
     (case r of None \<Rightarrow> True
      | Some im \<Rightarrow> 0 < im_width im \<and> im_width im \<le> MAX_DIMENSION \<and> 0 < im_height im \<and> im_height im \<le> MAX_DIMENSION \<and>
          int (length (im_pixels im)) = im_width im * im_height im)"
  using sixel_decode_ok [of J data] by (auto simp: image_ok_def split: option.split)

end
