(* ===== verification/TermState.thy ===== *)
theory TermState
  imports Sixel KeyHandler BufferBlocks TerminalResize
begin

text \<open>
  \<^verbatim>\<open>TerminalEmulator.java\<close>, first part: the state of the emulator and the small
  operations that its escape sequences are made of. The screen pointer of the code
  is the flag \<open>t_alt\<close>; what the emulator tells its session is the list of events
  \<open>t_out\<close>. An uncaught exception is \<^const>\<open>None\<close>.
\<close>

unbundle bit_operations_syntax

section \<open>The state\<close>

datatype esc_state =
    ESC_NONE | ESC | ESC_POUND | ESC_SELECT_LEFT_PAREN | ESC_SELECT_RIGHT_PAREN | ESC_CSI
  | ESC_CSI_QUESTIONMARK | ESC_CSI_DOLLAR | ESC_PERCENT | ESC_OSC | ESC_OSC_ESC | ESC_CSI_BIGGERTHAN
  | ESC_P | ESC_CSI_QUESTIONMARK_ARG_DOLLAR | ESC_CSI_ARGS_SPACE | ESC_CSI_ARGS_ASTERIX
  | ESC_CSI_DOUBLE_QUOTE | ESC_CSI_SINGLE_QUOTE | ESC_CSI_EXCLAMATION

datatype tevent =
    Wrote jstring
  | WroteBytes "int list"
  | Bell
  | TitleChanged "jstring option" "jstring option"
  | ClipboardText jstring
  | ColorsChanged
  | Notification int jstring

record saved =
  sv_row :: int
  sv_col :: int
  sv_effect :: u32
  sv_fore :: u32
  sv_back :: u32
  sv_flags :: u32
  sv_g0 :: bool
  sv_g1 :: bool
  sv_useg0 :: bool

record bitmap =
  bm_image :: six_image
  bm_cols :: int
  bm_rows :: int

record emul =
  t_title :: "jstring option"
  t_titles :: "jstring option list"
  t_row :: int
  t_col :: int
  t_cstyle :: int
  t_blink :: bool
  t_rows :: int
  t_cols :: int
  t_main :: tbuf
  t_altb :: tbuf
  t_alt :: bool
  t_argi :: int
  t_args :: "int list"
  t_colon :: "bool list"
  t_osc :: jstring
  t_continue :: bool
  t_esc :: esc_state
  t_saved_main :: saved
  t_saved_alt :: saved
  t_g0 :: bool
  t_g1 :: bool
  t_useg0 :: bool
  t_flags :: u32
  t_saved_flags :: u32
  t_insert :: bool
  t_tabs :: "bool list"
  t_top :: int
  t_bottom :: int
  t_left :: int
  t_right :: int
  t_wrap :: bool
  t_lastw :: int
  t_fore :: u32
  t_back :: u32
  t_effect :: u32
  t_ustyle :: u32
  t_ucolor :: u32
  t_link :: "jstring option"
  t_scrolled :: int
  t_utf8n :: int
  t_utf8i :: int
  t_utf8 :: "int list"
  t_last_cp :: int
  t_regional :: int
  t_colors :: "u32 list"
  t_sync :: bool
  t_sync_start :: int
  t_cellw :: int
  t_cellh :: int
  t_bitmaps :: "(int \<times> bitmap) list"
  t_next_bitmap :: int
  t_out :: "tevent list"

text \<open>The screen that is shown, and what the session is told.\<close>

definition scr :: "emul \<Rightarrow> tbuf" where
  "scr t = (if t_alt t then t_altb t else t_main t)"

definition set_scr :: "tbuf \<Rightarrow> emul \<Rightarrow> emul" where
  "set_scr b t = (if t_alt t then t\<lparr>t_altb := b\<rparr> else t\<lparr>t_main := b\<rparr>)"

definition on_scr :: "(tbuf \<Rightarrow> tbuf option) \<Rightarrow> emul \<Rightarrow> emul option" where
  "on_scr f t = do { b \<leftarrow> f (scr t); Some (set_scr b t) }"

definition say :: "tevent \<Rightarrow> emul \<Rightarrow> emul" where
  "say e t = t\<lparr>t_out := t_out t @ [e]\<rparr>"

section \<open>Modes\<close>

definition BIT_APPLICATION_CURSOR_KEYS :: u32 where "BIT_APPLICATION_CURSOR_KEYS = 1"
definition BIT_REVERSE_VIDEO :: u32 where "BIT_REVERSE_VIDEO = 2"
definition BIT_ORIGIN_MODE :: u32 where "BIT_ORIGIN_MODE = 4"
definition BIT_AUTOWRAP :: u32 where "BIT_AUTOWRAP = 8"
definition BIT_SHOWING_CURSOR :: u32 where "BIT_SHOWING_CURSOR = 16"
definition BIT_APPLICATION_KEYPAD :: u32 where "BIT_APPLICATION_KEYPAD = 32"
definition BIT_MOUSE_PRESS_RELEASE :: u32 where "BIT_MOUSE_PRESS_RELEASE = 64"
definition BIT_MOUSE_BUTTON_EVENT :: u32 where "BIT_MOUSE_BUTTON_EVENT = 128"
definition BIT_SEND_FOCUS_EVENTS :: u32 where "BIT_SEND_FOCUS_EVENTS = 256"
definition BIT_MOUSE_PROTOCOL_SGR :: u32 where "BIT_MOUSE_PROTOCOL_SGR = 512"
definition BIT_BRACKETED_PASTE_MODE :: u32 where "BIT_BRACKETED_PASTE_MODE = 1024"
definition BIT_LEFTRIGHT_MARGIN_MODE :: u32 where "BIT_LEFTRIGHT_MARGIN_MODE = 2048"
definition BIT_RECTANGULAR_CHANGEATTRIBUTE :: u32 where "BIT_RECTANGULAR_CHANGEATTRIBUTE = 4096"

definition isBitSet :: "u32 \<Rightarrow> emul \<Rightarrow> bool" where
  "isBitSet b t \<longleftrightarrow> t_flags t AND b \<noteq> 0"

definition setBit :: "u32 \<Rightarrow> bool \<Rightarrow> emul \<Rightarrow> emul" where
  "setBit internalBit setting t =
     (let t = (if setting \<and> internalBit = BIT_MOUSE_PRESS_RELEASE then t\<lparr>t_flags := t_flags t AND NOT BIT_MOUSE_BUTTON_EVENT\<rparr>
               else if setting \<and> internalBit = BIT_MOUSE_BUTTON_EVENT then t\<lparr>t_flags := t_flags t AND NOT BIT_MOUSE_PRESS_RELEASE\<rparr>
               else t)
      in if setting then t\<lparr>t_flags := t_flags t OR internalBit\<rparr> else t\<lparr>t_flags := t_flags t AND NOT internalBit\<rparr>)"

text \<open>\<^const>\<open>None\<close> is the answer -1 of the code.\<close>

definition mapDecSetBitToInternalBit :: "int \<Rightarrow> u32 option" where
  "mapDecSetBitToInternalBit decsetBit =
     (if decsetBit = 1 then Some BIT_APPLICATION_CURSOR_KEYS
      else if decsetBit = 5 then Some BIT_REVERSE_VIDEO
      else if decsetBit = 6 then Some BIT_ORIGIN_MODE
      else if decsetBit = 7 then Some BIT_AUTOWRAP
      else if decsetBit = 25 then Some BIT_SHOWING_CURSOR
      else if decsetBit = 66 then Some BIT_APPLICATION_KEYPAD
      else if decsetBit = 69 then Some BIT_LEFTRIGHT_MARGIN_MODE
      else if decsetBit = 1000 then Some BIT_MOUSE_PRESS_RELEASE
      else if decsetBit = 1002 then Some BIT_MOUSE_BUTTON_EVENT
      else if decsetBit = 1004 then Some BIT_SEND_FOCUS_EVENTS
      else if decsetBit = 1006 then Some BIT_MOUSE_PROTOCOL_SGR
      else if decsetBit = 2004 then Some BIT_BRACKETED_PASTE_MODE
      else None)"

definition getStyle :: "emul \<Rightarrow> u64" where
  "getStyle t = encode (t_fore t) (t_back t) (t_effect t) OR encodeUnderlineStyle (t_ustyle t)"

section \<open>The sequence that is being read\<close>

definition continueSequence :: "esc_state \<Rightarrow> emul \<Rightarrow> emul" where
  "continueSequence st t = t\<lparr>t_esc := st, t_continue := True\<rparr>"

text \<open>Nothing is logged, so that an unknown sequence is only ended.\<close>

definition finishSequence :: "emul \<Rightarrow> emul" where
  "finishSequence t = t\<lparr>t_esc := ESC_NONE\<rparr>"

definition startEscapeSequence :: "emul \<Rightarrow> emul" where
  "startEscapeSequence t = t\<lparr>t_esc := ESC, t_argi := 0, t_args := replicate 16 (- 1), t_colon := replicate 16 False\<rparr>"

definition parseArg :: "int \<Rightarrow> emul \<Rightarrow> emul" where
  "parseArg b t =
     (if 48 \<le> b \<and> b \<le> 57 then
        (let t = (if t_argi t < 16 then
                    (let oldValue = t_args t ! nat (t_argi t); thisDigit = b - 48;
                         value = (if 0 \<le> oldValue then jint (oldValue * 10 + thisDigit) else thisDigit)
                     in t\<lparr>t_args := (t_args t)[nat (t_argi t) := value]\<rparr>)
                  else t)
         in continueSequence (t_esc t) t)
      else if b = chr '';'' \<or> b = chr '':'' then
        (let t = (if t_argi t < 16 then
                    (let i = t_argi t + 1
                     in t\<lparr>t_argi := i, t_colon := (if i < 16 then (t_colon t)[nat i := (b = chr '':'')] else t_colon t)\<rparr>)
                  else t)
         in continueSequence (t_esc t) t)
      else finishSequence t)"

definition getArg :: "nat \<Rightarrow> int \<Rightarrow> bool \<Rightarrow> emul \<Rightarrow> int" where
  "getArg i defaultValue treatZeroAsDefault t =
     (let result = t_args t ! i in if result < 0 \<or> result = 0 \<and> treatZeroAsDefault then defaultValue else result)"

abbreviation getArg0 :: "int \<Rightarrow> emul \<Rightarrow> int" where
  "getArg0 d t \<equiv> getArg 0 d True t"

abbreviation getArg1 :: "int \<Rightarrow> emul \<Rightarrow> int" where
  "getArg1 d t \<equiv> getArg 1 d True t"

definition clamp_argi :: "emul \<Rightarrow> emul" where
  "clamp_argi t = (if 16 \<le> t_argi t then t\<lparr>t_argi := 15\<rparr> else t)"

section \<open>The cursor\<close>

definition setCursorRow :: "int \<Rightarrow> emul \<Rightarrow> emul" where
  "setCursorRow row t = t\<lparr>t_row := row, t_wrap := False, t_lastw := 0\<rparr>"

definition setCursorCol :: "int \<Rightarrow> emul \<Rightarrow> emul" where
  "setCursorCol col t = t\<lparr>t_col := col, t_wrap := False, t_lastw := 0\<rparr>"

definition setCursorRowCol :: "int \<Rightarrow> int \<Rightarrow> emul \<Rightarrow> emul" where
  "setCursorRowCol row col t =
     t\<lparr>t_row := max 0 (min row (t_rows t - 1)), t_col := max 0 (min col (t_cols t - 1)), t_wrap := False, t_lastw := 0\<rparr>"

definition eff_top :: "emul \<Rightarrow> int" where
  "eff_top t = (if isBitSet BIT_ORIGIN_MODE t then t_top t else 0)"
definition eff_bottom :: "emul \<Rightarrow> int" where
  "eff_bottom t = (if isBitSet BIT_ORIGIN_MODE t then t_bottom t else t_rows t)"
definition eff_left :: "emul \<Rightarrow> int" where
  "eff_left t = (if isBitSet BIT_ORIGIN_MODE t then t_left t else 0)"
definition eff_right :: "emul \<Rightarrow> int" where
  "eff_right t = (if isBitSet BIT_ORIGIN_MODE t then t_right t else t_cols t)"

definition setCursorPosition :: "int \<Rightarrow> int \<Rightarrow> emul \<Rightarrow> emul" where
  "setCursorPosition x y t =
     (let newRow = max (eff_top t) (min (jint (eff_top t + y)) (eff_bottom t - 1));
          newCol = max (eff_left t) (min (jint (eff_left t + x)) (eff_right t - 1))
      in setCursorRowCol newRow newCol t)"

definition saved_state :: "emul \<Rightarrow> saved" where
  "saved_state t = (if t_alt t then t_saved_alt t else t_saved_main t)"

definition saveCursor :: "emul \<Rightarrow> emul" where
  "saveCursor t =
     (let s = \<lparr>sv_row = t_row t, sv_col = t_col t, sv_effect = t_effect t, sv_fore = t_fore t, sv_back = t_back t,
              sv_flags = t_flags t, sv_g0 = t_g0 t, sv_g1 = t_g1 t, sv_useg0 = t_useg0 t\<rparr>
      in if t_alt t then t\<lparr>t_saved_alt := s\<rparr> else t\<lparr>t_saved_main := s\<rparr>)"

definition restoreCursor :: "emul \<Rightarrow> emul" where
  "restoreCursor t =
     (let s = saved_state t; t = setCursorRowCol (sv_row s) (sv_col s) t; mask = BIT_AUTOWRAP OR BIT_ORIGIN_MODE
      in t\<lparr>t_effect := sv_effect s, t_fore := sv_fore s, t_back := sv_back s,
           t_flags := (t_flags t AND NOT mask) OR (sv_flags s AND mask),
           t_g0 := sv_g0 s, t_g1 := sv_g1 s, t_useg0 := sv_useg0 s\<rparr>)"

primrec next_tab :: "nat \<Rightarrow> int \<Rightarrow> int \<Rightarrow> emul \<Rightarrow> int option" where
  "next_tab 0 i numTabs t = Some (t_right t - 1)"
| "next_tab (Suc n) i numTabs t = do {
     stop \<leftarrow> aget (t_tabs t) i;
     if stop then (if numTabs - 1 = 0 then Some (min i (t_right t)) else next_tab n (i + 1) (numTabs - 1) t)
     else next_tab n (i + 1) numTabs t }"

definition nextTabStop :: "int \<Rightarrow> emul \<Rightarrow> int option" where
  "nextTabStop numTabs t = next_tab (nat (t_cols t - (t_col t + 1))) (t_col t + 1) numTabs t"

definition setDefaultTabStops :: "emul \<Rightarrow> emul" where
  "setDefaultTabStops t = t\<lparr>t_tabs := map (\<lambda>i. i mod 8 = 0 \<and> i \<noteq> 0) [0..<nat (t_cols t)]\<rparr>"

section \<open>The screen\<close>

definition blockClear :: "int \<Rightarrow> int \<Rightarrow> int \<Rightarrow> int \<Rightarrow> emul \<Rightarrow> emul option" where
  "blockClear sx sy w h t = on_scr (blockSet sx sy w h 32 (getStyle t)) t"

definition scrollDownOneLine :: "emul \<Rightarrow> emul option" where
  "scrollDownOneLine t = do {
     let t = t\<lparr>t_scrolled := jint (t_scrolled t + 1)\<rparr>;
     if t_left t \<noteq> 0 \<or> t_right t \<noteq> t_cols t then do {
       t \<leftarrow> on_scr (blockCopy (t_left t) (t_top t + 1) (t_right t - t_left t) (t_bottom t - t_top t - 1) (t_left t) (t_top t)) t;
       on_scr (blockSet (t_left t) (t_bottom t - 1) (t_right t - t_left t) 1 32 (scast (t_effect t))) t }
     else on_scr (buf_scrollDownOneLine (t_top t) (t_bottom t) (getStyle t)) t }"

definition doLinefeed :: "emul \<Rightarrow> emul option" where
  "doLinefeed t =
     (let newCursorRow = t_row t + 1 in
      if t_bottom t \<le> t_row t then Some (if t_row t \<noteq> t_rows t - 1 then setCursorRow newCursorRow t else t)
      else if newCursorRow = t_bottom t then do {
        t \<leftarrow> scrollDownOneLine t;
        Some (setCursorRow (t_bottom t - 1) t) }
      else Some (setCursorRow newCursorRow t))"

definition setTitle :: "jstring option \<Rightarrow> emul \<Rightarrow> emul" where
  "setTitle newTitle t =
     (let oldTitle = t_title t; t = t\<lparr>t_title := newTitle\<rparr>
      in if oldTitle \<noteq> newTitle then say (TitleChanged oldTitle newTitle) t else t)"

definition reset_saved :: "u32 \<Rightarrow> saved \<Rightarrow> saved" where
  "reset_saved flags s = s\<lparr>sv_fore := COLOR_FOREGROUND, sv_back := COLOR_BACKGROUND, sv_row := 0, sv_col := 0, sv_effect := 0, sv_flags := flags\<rparr>"

definition reset :: "jvm \<Rightarrow> emul \<Rightarrow> emul option" where
  "reset J t = do {
     let t = t\<lparr>t_cstyle := 0, t_blink := True, t_ustyle := 0, t_ucolor := 0, t_argi := 0, t_continue := False,
              t_esc := ESC_NONE, t_link := None, t_insert := False, t_top := 0, t_left := 0, t_bottom := t_rows t,
              t_right := t_cols t, t_wrap := False, t_fore := COLOR_FOREGROUND, t_back := COLOR_BACKGROUND\<rparr>;
     let t = setDefaultTabStops t;
     let t = setBit BIT_SHOWING_CURSOR True (setBit BIT_AUTOWRAP True (t\<lparr>t_g0 := False, t_g1 := False, t_useg0 := True, t_flags := 0\<rparr>));
     let t = t\<lparr>t_saved_flags := t_flags t, t_saved_main := reset_saved (t_flags t) (t_saved_main t),
              t_saved_alt := reset_saved (t_flags t) (t_saved_alt t), t_utf8i := 0, t_utf8n := 0\<rparr>;
     colors \<leftarrow> resetColors (ji_scheme J) (t_colors t);
     Some (say ColorsChanged (t\<lparr>t_colors := colors\<rparr>)) }"

text \<open>A new emulator: two buffers, fields as their declarations initialise them, and a reset.\<close>

definition newSaved :: saved where
  "newSaved = \<lparr>sv_row = 0, sv_col = 0, sv_effect = 0, sv_fore = 0, sv_back = 0, sv_flags = 0, sv_g0 = False, sv_g1 = False, sv_useg0 = True\<rparr>"

definition newEmulator :: "jvm \<Rightarrow> int \<Rightarrow> int \<Rightarrow> int \<Rightarrow> emul option" where
  "newEmulator J cols rows transcriptRows = do {
     main \<leftarrow> newBuffer cols transcriptRows rows;
     altb \<leftarrow> newBuffer cols rows rows;
     colors \<leftarrow> resetColors (ji_scheme J) (replicate (nat NUM_INDEXED_COLORS) 0);
     reset J
       \<lparr>t_title = None, t_titles = [], t_row = 0, t_col = 0, t_cstyle = 0, t_blink = True, t_rows = rows, t_cols = cols,
        t_main = main, t_altb = altb, t_alt = False, t_argi = 0, t_args = replicate 16 0, t_colon = replicate 16 False,
        t_osc = [], t_continue = False, t_esc = ESC_NONE, t_saved_main = newSaved, t_saved_alt = newSaved,
        t_g0 = False, t_g1 = False, t_useg0 = True, t_flags = 0, t_saved_flags = 0, t_insert = False,
        t_tabs = replicate (nat cols) False, t_top = 0, t_bottom = 0, t_left = 0, t_right = 0, t_wrap = False, t_lastw = 0,
        t_fore = 0, t_back = 0, t_effect = 0, t_ustyle = 0, t_ucolor = 0, t_link = None, t_scrolled = 0,
        t_utf8n = 0, t_utf8i = 0, t_utf8 = replicate 4 0, t_last_cp = - 1, t_regional = 0, t_colors = colors,
        t_sync = False, t_sync_start = 0, t_cellw = 0, t_cellh = 0, t_bitmaps = [], t_next_bitmap = 1, t_out = []\<rparr> }"

section \<open>The view's calls\<close>

definition sendMouseEvent :: "int \<Rightarrow> int \<Rightarrow> int \<Rightarrow> bool \<Rightarrow> emul \<Rightarrow> emul" where
  "sendMouseEvent mouseButton column row pressed t =
     (let column = (if column < 1 then 1 else column); column = (if t_cols t < column then t_cols t else column);
          row = (if row < 1 then 1 else row); row = (if t_rows t < row then t_rows t else row)
      in if mouseButton = 32 \<and> \<not> isBitSet BIT_MOUSE_BUTTON_EVENT t then t
         else if isBitSet BIT_MOUSE_PROTOCOL_SGR t then
           say (Wrote (27 # ascii ''[<'' @ int_text mouseButton @ chr '';'' # int_text column @ chr '';'' # int_text row @
                       [if pressed then chr ''M'' else chr ''m''])) t
         else
           (let mouseButton = (if pressed then mouseButton else 3)
            in if 223 < column \<or> 223 < row then t
               else say (WroteBytes (27 # ascii ''[M'' @ map (signed_take_bit 7) [32 + mouseButton, 32 + column, 32 + row])) t))"

definition resizeScreen :: "emul \<Rightarrow> emul option" where
  "resizeScreen t = do {
     let newTotalRows = (if t_alt t then t_rows t else b_total (t_main t));
     (b, cx, cy) \<leftarrow> buf_resize (t_cols t) (t_rows t) newTotalRows (t_col t, t_row t) (getStyle t) (t_alt t) (scr t);
     Some ((set_scr b t)\<lparr>t_col := cx, t_row := cy\<rparr>) }"

definition resize :: "int \<Rightarrow> int \<Rightarrow> emul \<Rightarrow> emul option" where
  "resize newColumns newRows t =
     (if t_rows t = newRows \<and> t_cols t = newColumns then Some t
      else if newColumns < 2 \<or> newRows < 2 then None
      else do {
        let t = (if t_rows t \<noteq> newRows then t\<lparr>t_rows := newRows, t_top := 0, t_bottom := newRows\<rparr> else t);
        t \<leftarrow> (if t_cols t \<noteq> newColumns then do {
                let oldColumns = t_cols t;
                let oldTabStop = t_tabs t;
                let t = setDefaultTabStops (t\<lparr>t_cols := newColumns\<rparr>);
                tabs \<leftarrow> arraycopy oldTabStop 0 (t_tabs t) 0 (min oldColumns newColumns);
                Some (t\<lparr>t_tabs := tabs, t_left := 0, t_right := newColumns\<rparr>) }
              else Some t);
        resizeScreen t })"

definition clearScrollCounter :: "emul \<Rightarrow> emul" where
  "clearScrollCounter t = t\<lparr>t_scrolled := 0\<rparr>"

definition setCellSize :: "int \<Rightarrow> int \<Rightarrow> emul \<Rightarrow> emul" where
  "setCellSize widthPixels heightPixels t = t\<lparr>t_cellw := widthPixels, t_cellh := heightPixels\<rparr>"

definition isSynchronizeUpdates :: "jvm \<Rightarrow> emul \<Rightarrow> bool" where
  "isSynchronizeUpdates J t \<longleftrightarrow> t_sync t \<and> ji_now J - t_sync_start t < 250"

definition setCursorStyle :: "int \<Rightarrow> emul \<Rightarrow> emul" where
  "setCursorStyle style t = (if style = 0 \<or> style = 1 \<or> style = 2 then t\<lparr>t_cstyle := style\<rparr> else t)"

definition setColorScheme :: "u32 list \<Rightarrow> emul \<Rightarrow> emul option" where
  "setColorScheme scheme t = do {
     colors \<leftarrow> resetColors scheme (t_colors t);
     Some (say ColorsChanged (t\<lparr>t_colors := colors\<rparr>)) }"

text \<open>Pasting: escape and C1 control characters are dropped, line ends become carriage returns.\<close>

fun crlf :: "jstring \<Rightarrow> jstring" where
  "crlf [] = []"
| "crlf [c] = [if c = 10 then 13 else c]"
| "crlf (c # d # cs) = (if c = 13 \<and> d = 10 then 13 # crlf cs else if c = 10 then 13 # crlf (d # cs) else c # crlf (d # cs))"

definition paste :: "jstring \<Rightarrow> emul \<Rightarrow> emul" where
  "paste text t =
     (let text = crlf (filter (\<lambda>c. \<not> (c = 27 \<or> 0x80 \<le> c \<and> c \<le> 0x9F)) text);
          bracketed = isBitSet BIT_BRACKETED_PASTE_MODE t;
          t = (if bracketed then say (Wrote (27 # ascii ''[200~'')) t else t);
          t = say (Wrote text) t
      in if bracketed then say (Wrote (27 # ascii ''[201~'')) t else t)"

end
