(* ===== verification/TermEmit.thy ===== *)
theory TermEmit
  imports TermState
begin

text \<open>
  \<^verbatim>\<open>TerminalEmulator.java\<close>, second part: \<^verbatim>\<open>emitCodePoint\<close>, which draws a character at the
  cursor, and the drawing of inline images.
\<close>

unbundle bit_operations_syntax

definition LINE_DRAWING :: "(int \<times> int) list" where
  "LINE_DRAWING = [
    (95, 0x20), (96, 0x25C6), (48, 0x2588), (97, 0x2592), (98, 0x2409), (99, 0x240C), (100, 0xD), (101, 0x240A),
    (102, 0xB0), (103, 0xB1), (104, 0xA), (105, 0x240B), (106, 0x2518), (107, 0x2510), (108, 0x250C), (109,
    0x2514), (110, 0x253C), (111, 0x23BA), (112, 0x23BB), (113, 0x2500), (114, 0x23BC), (115, 0x23BD), (116,
    0x251C), (117, 0x2524), (118, 0x2534), (119, 0x252C), (120, 0x2502), (121, 0x2264), (122, 0x2265), (123,
    0x3C0), (124, 0x2260), (125, 0xA3), (126, 0xB7)]"

definition line_drawing :: "int \<Rightarrow> int" where
  "line_drawing codePoint = (case map_of LINE_DRAWING codePoint of None \<Rightarrow> codePoint | Some c \<Rightarrow> c)"

text \<open>The code point that is drawn, and the columns that it is laid out for.\<close>

definition drawn_cp :: "int \<Rightarrow> emul \<Rightarrow> int" where
  "drawn_cp codePoint t = (if (if t_useg0 t then t_g0 t else t_g1 t) then line_drawing codePoint else codePoint)"

definition isRegionalIndicator :: "int \<Rightarrow> bool" where
  "isRegionalIndicator codePoint \<longleftrightarrow> 0x1F1E6 \<le> codePoint \<and> codePoint \<le> 0x1F1FF"

definition display_width :: "int \<Rightarrow> emul \<Rightarrow> int" where
  "display_width codePoint t =
     (if 0 < width codePoint \<and> joinsPreviousGrapheme (t_last_cp t) codePoint then 0
      else if isRegionalIndicator codePoint \<and> odd (t_regional t) then 0
      else width codePoint)"

text \<open>Wrapping to the next line before the character is drawn.\<close>

definition wrap_line :: "int \<Rightarrow> emul \<Rightarrow> emul option" where
  "wrap_line displayWidth t =
     (if isBitSet BIT_AUTOWRAP t \<and> t_col t = t_right t - 1 \<and> (t_wrap t \<and> displayWidth = 1 \<or> displayWidth = 2) then do {
        t \<leftarrow> on_scr (setLineWrap (t_row t)) t;
        let t = t\<lparr>t_col := t_left t\<rparr>;
        if t_row t + 1 < t_bottom t then Some (t\<lparr>t_row := t_row t + 1\<rparr>) else scrollDownOneLine t }
      else Some t)"

definition insert_room :: "int \<Rightarrow> emul \<Rightarrow> emul option" where
  "insert_room displayWidth t =
     (let destCol = t_col t + displayWidth in
      if t_insert t \<and> 0 < displayWidth \<and> destCol < t_right t
      then on_scr (blockCopy (t_col t) (t_row t) (t_right t - destCol) 1 destCol (t_row t)) t
      else Some t)"

definition draw_cell :: "int \<Rightarrow> int \<Rightarrow> emul \<Rightarrow> emul option" where
  "draw_cell codePoint displayWidth t = do {
     let writeColumn = t_col t - (if displayWidth \<le> 0 \<and> 0 < t_col t \<and> \<not> t_wrap t then 1 else 0);
     t \<leftarrow> on_scr (buf_setChar writeColumn (t_row t) codePoint (getStyle t)) t;
     t \<leftarrow> (if t_link t \<noteq> None then on_scr (buf_setHyperlink writeColumn (t_row t) (t_link t)) t else Some t);
     (if t_ucolor t \<noteq> 0 then on_scr (setUnderlineColorAt writeColumn (t_row t) (t_ucolor t)) t else Some t) }"

definition advance :: "int \<Rightarrow> bool \<Rightarrow> bool \<Rightarrow> emul \<Rightarrow> emul" where
  "advance displayWidth autoWrap promoteVs16 t =
     (let t = (if autoWrap \<and> 0 < displayWidth then t\<lparr>t_wrap := (t_col t = t_right t - displayWidth)\<rparr> else t);
          t = t\<lparr>t_col := min (t_col t + displayWidth) (t_right t - 1)\<rparr>
      in if promoteVs16 then t\<lparr>t_col := min (t_col t + 1) (t_right t - 1), t_lastw := 2\<rparr>
         else if 1 \<le> displayWidth then t\<lparr>t_lastw := displayWidth\<rparr> else t)"

definition emitCodePoint :: "int \<Rightarrow> emul \<Rightarrow> emul option" where
  "emitCodePoint codePoint t0 = do {
     let codePoint' = drawn_cp codePoint t0;
     let displayWidth = display_width codePoint' t0;
     let autoWrap = isBitSet BIT_AUTOWRAP t0;
     let t = t0\<lparr>t_last_cp := codePoint,
               t_regional := (if isRegionalIndicator codePoint' then jint (t_regional t0 + 1) else 0)\<rparr>;
     let promoteVs16 = (codePoint' = 0xFE0F \<and> t_lastw t = 1 \<and> \<not> t_wrap t \<and> t_left t < t_col t \<and> t_col t < t_right t);
     if \<not> autoWrap \<and> t_col t = t_right t - 1 \<and> displayWidth = 2 then Some t
     else do {
       t \<leftarrow> wrap_line displayWidth t;
       t \<leftarrow> insert_room displayWidth t;
       t \<leftarrow> draw_cell codePoint' displayWidth t;
       Some (advance displayWidth autoWrap promoteVs16 t) } }"

section \<open>Inline images\<close>

fun sixel_intro :: "jstring \<Rightarrow> int \<Rightarrow> int" where
  "sixel_intro [] i = - 1"
| "sixel_intro (c # cs) i =
     (if c = chr ''q'' then i
      else if 48 \<le> c \<and> c \<le> 57 \<or> c = chr '';'' then sixel_intro cs (i + 1)
      else - 1)"

definition sixelIntroducerIndex :: "jstring \<Rightarrow> int" where
  "sixelIntroducerIndex dcs = sixel_intro dcs 0"

text \<open>A linked map keeps the place of a key that is put again.\<close>

fun map_put :: "int \<Rightarrow> 'a \<Rightarrow> (int \<times> 'a) list \<Rightarrow> (int \<times> 'a) list" where
  "map_put k v [] = [(k, v)]"
| "map_put k v ((k', v') # m) = (if k = k' then (k, v) # m else (k', v') # map_put k v m)"

definition registerBitmap :: "bitmap \<Rightarrow> emul \<Rightarrow> int \<times> emul" where
  "registerBitmap bm t =
     (let i = t_next_bitmap t; n = (if 0xffff < i + 1 then 1 else i + 1);
          ms = map_put i bm (t_bitmaps t); ms = drop (length ms - 32) ms
      in (i, t\<lparr>t_next_bitmap := n, t_bitmaps := ms\<rparr>))"

primrec image_cols :: "nat \<Rightarrow> int \<Rightarrow> int \<Rightarrow> int \<Rightarrow> int \<Rightarrow> emul \<Rightarrow> emul option" where
  "image_cols 0 i startCol c r t = Some t"
| "image_cols (Suc n) i startCol c r t =
     (if startCol + c < t_cols t then do {
        t \<leftarrow> on_scr (buf_setChar (startCol + c) (t_row t) 32 (encodeImage (word_of_int i) (word_of_int c) (word_of_int r))) t;
        image_cols n i startCol (c + 1) r t }
      else Some t)"

primrec image_rows :: "nat \<Rightarrow> int \<Rightarrow> int \<Rightarrow> int \<Rightarrow> int \<Rightarrow> emul \<Rightarrow> emul option" where
  "image_rows 0 i startCol cols r t = Some t"
| "image_rows (Suc n) i startCol cols r t = do {
     t \<leftarrow> image_cols (nat cols) i startCol 0 r t;
     t \<leftarrow> doLinefeed t;
     image_rows n i startCol cols (r + 1) t }"

definition processSixel :: "jvm \<Rightarrow> jstring \<Rightarrow> emul \<Rightarrow> emul option" where
  "processSixel J dcs t =
     (if t_cellw t \<le> 0 \<or> t_cellh t \<le> 0 then Some t
      else let q = sixelIntroducerIndex dcs in
      if q < 0 then Some t
      else do {
        image \<leftarrow> sixel_decode J (drop (nat (q + 1)) dcs);
        case image of
          None \<Rightarrow> Some t
        | Some img \<Rightarrow>
            if im_width img \<le> 0 \<or> im_height img \<le> 0 \<or> \<not> ji_bitmap J (im_width img) (im_height img) then Some t
            else do {
              let cols = max 1 (jdiv (jint (im_width img + t_cellw t - 1)) (t_cellw t));
              let rows = max 1 (jdiv (jint (im_height img + t_cellh t - 1)) (t_cellh t));
              let startCol = t_col t;
              let (i, t) = registerBitmap \<lparr>bm_image = img, bm_cols = cols, bm_rows = rows\<rparr> t;
              t \<leftarrow> image_rows (nat rows) i startCol cols 0 t;
              Some (setCursorCol (min startCol (t_cols t - 1)) t) } })"

end
