(* ===== verification/TermOsc.thy ===== *)
theory TermOsc
  imports TermEmit
begin

text \<open>
  \<^verbatim>\<open>TerminalEmulator.java\<close>, third part: operating system controls (titles, colours,
  hyperlinks, notifications, clipboard) and device control strings (images, status
  and termcap requests).
\<close>

unbundle bit_operations_syntax

definition MAX_OSC_STRING_LENGTH :: int where "MAX_OSC_STRING_LENGTH = 8192"
definition MAX_DCS_STRING_LENGTH :: int where "MAX_DCS_STRING_LENGTH = 2097152"

definition collectOSCArgs :: "int \<Rightarrow> emul \<Rightarrow> emul" where
  "collectOSCArgs b t =
     (if int (length (t_osc t)) < MAX_OSC_STRING_LENGTH
      then continueSequence (t_esc t) (t\<lparr>t_osc := t_osc t @ units b\<rparr>)
      else finishSequence t)"

section \<open>Operating system controls\<close>

text \<open>The number before the first semicolon and the text after it.\<close>

fun osc_value :: "jstring \<Rightarrow> int \<Rightarrow> (int \<times> jstring) option" where
  "osc_value [] v = Some (v, [])"
| "osc_value (c # cs) v =
     (if c = chr '';'' then Some (v, cs)
      else if 48 \<le> c \<and> c \<le> 57 then osc_value cs (jint ((if v < 0 then 0 else v * 10) + (c - 48)))
      else None)"

text \<open>OSC 4: pairs of a colour number and a specification.\<close>

function osc4 :: "jvm \<Rightarrow> jstring \<Rightarrow> int \<Rightarrow> int \<Rightarrow> int \<Rightarrow> emul \<Rightarrow> emul option" where
  "osc4 J text i colorIndex pairStart t =
     (if i < 0 \<or> int (length text) < i then None
      else let endOfInput = (i = int (length text)); b = (if endOfInput then chr '';'' else text ! nat i) in
      if b = chr '';'' then
        (if pairStart < 0 then (if endOfInput then Some t else osc4 J text (i + 1) colorIndex (i + 1) t)
         else if colorIndex < 0 \<or> 255 < colorIndex then Some (finishSequence t)
         else
           (case (case substring text pairStart i of None \<Rightarrow> None | Some s \<Rightarrow> tryParseColor J colorIndex s (t_colors t)) of
              None \<Rightarrow> None
            | Some colors \<Rightarrow>
                let t = say ColorsChanged (t\<lparr>t_colors := colors\<rparr>)
                in if endOfInput then Some t else osc4 J text (i + 1) (- 1) (- 1) t))
      else if 0 \<le> pairStart then osc4 J text (i + 1) colorIndex pairStart t
      else if 48 \<le> b \<and> b \<le> 57 then osc4 J text (i + 1) (jint ((if colorIndex < 0 then 0 else colorIndex * 10) + (b - 48))) pairStart t
      else Some (finishSequence t))"
  by pat_completeness auto
termination
  by (relation "measure (\<lambda>(J, text, i, colorIndex, pairStart, t). nat (int (length text) + 1 - i))") (auto split: if_splits)

declare osc4.simps [simp del]

text \<open>OSC 10, 11 and 12: the special colours, from \<open>specialIndex\<close> on.\<close>

definition color_text :: "u32 \<Rightarrow> jstring" where
  "color_text rgb =
     (let comp = (\<lambda>v. hex_text 97 4 (nat ((65535 * v) div 255)));
          r = uint (drop_bit 16 (rgb AND 0x00FF0000)); g = uint (drop_bit 8 (rgb AND 0x0000FF00)); b = uint (rgb AND 0x000000FF)
      in ascii ''rgb:'' @ comp r @ chr ''/'' # comp g @ chr ''/'' # comp b)"

function osc_special :: "jvm \<Rightarrow> int \<Rightarrow> jstring \<Rightarrow> jstring \<Rightarrow> int \<Rightarrow> int \<Rightarrow> int \<Rightarrow> emul \<Rightarrow> emul option" where
  "osc_special J value st text charIndex lastSemi specialIndex t =
     (if charIndex < 0 \<or> int (length text) < charIndex then None
      else let endOfInput = (charIndex = int (length text)) in
      if endOfInput \<or> text ! nat charIndex = chr '';'' then
        (case (case substring text lastSemi charIndex of
                 None \<Rightarrow> None
               | Some colorSpec \<Rightarrow>
                   if colorSpec = ascii ''?'' then
                     map_option (\<lambda>rgb. say (Wrote (27 # chr '']'' # int_text value @ chr '';'' # color_text rgb @ st)) t)
                       (aget (t_colors t) specialIndex)
                   else
                     map_option (\<lambda>colors. say ColorsChanged (t\<lparr>t_colors := colors\<rparr>))
                       (tryParseColor J specialIndex colorSpec (t_colors t))) of
           None \<Rightarrow> None
         | Some t \<Rightarrow>
             if endOfInput \<or> uint COLOR_CURSOR < specialIndex + 1 \<or> int (length text) \<le> charIndex + 1 then Some t
             else osc_special J value st text (charIndex + 2) (charIndex + 1) (specialIndex + 1) t)
      else osc_special J value st text (charIndex + 1) lastSemi specialIndex t)"
  by pat_completeness auto
termination
  by (relation "measure (\<lambda>(J, value, st, text, charIndex, lastSemi, specialIndex, t). nat (int (length text) + 1 - charIndex))")
     (auto split: if_splits)

declare osc_special.simps [simp del]

text \<open>
  OSC 104: a number that does not parse is skipped by the handler of its exception,
  also at the end of the input, where the loop then reads past the text.
\<close>

function osc104 :: "jvm \<Rightarrow> jstring \<Rightarrow> int \<Rightarrow> int \<Rightarrow> emul \<Rightarrow> emul option" where
  "osc104 J text charIndex lastIndex t =
     (if charIndex < 0 \<or> int (length text) < charIndex then None
      else let endOfInput = (charIndex = int (length text)) in
      if endOfInput \<or> text ! nat charIndex = chr '';'' then
        (case substring text lastIndex charIndex of
           None \<Rightarrow> None
         | Some s \<Rightarrow>
             (case parseInt J 10 s of
                None \<Rightarrow> osc104 J text (charIndex + 1) lastIndex t
              | Some colorToReset \<Rightarrow>
                  (case resetIndex J colorToReset (t_colors t) of
                     None \<Rightarrow> None
                   | Some colors \<Rightarrow>
                       let t = say ColorsChanged (t\<lparr>t_colors := colors\<rparr>)
                       in if endOfInput then Some t else osc104 J text (charIndex + 2) (charIndex + 1) t)))
      else osc104 J text (charIndex + 1) lastIndex t)"
  by pat_completeness auto
termination
  by (relation "measure (\<lambda>(J, text, charIndex, lastIndex, t). nat (int (length text) + 1 - charIndex))") (auto split: if_splits)

declare osc104.simps [simp del]

definition after_semicolon :: "jstring \<Rightarrow> jstring option" where
  "after_semicolon s = (case dropWhile (\<lambda>c. c \<noteq> chr '';'') s of [] \<Rightarrow> None | c # cs \<Rightarrow> Some cs)"

definition doOscSetTextParameters :: "jvm \<Rightarrow> jstring \<Rightarrow> emul \<Rightarrow> emul option" where
  "doOscSetTextParameters J bellOrStringTerminator t =
     (case osc_value (t_osc t) (- 1) of
        None \<Rightarrow> Some (finishSequence t)
      | Some (value, textParameter) \<Rightarrow>
          map_option finishSequence
            (if value = 0 \<or> value = 1 \<or> value = 2 then Some (setTitle (Some textParameter) t)
             else if value = 4 then osc4 J textParameter 0 (- 1) (- 1) t
             else if value = 10 \<or> value = 11 \<or> value = 12 then
               osc_special J value bellOrStringTerminator textParameter 0 0 (uint COLOR_FOREGROUND + (value - 10)) t
             else if value = 8 then
               (let uri = (case after_semicolon textParameter of None \<Rightarrow> [] | Some u \<Rightarrow> u)
                in Some (t\<lparr>t_link := (if uri = [] then None else Some uri)\<rparr>))
             else if value = 9 \<or> value = 99 \<or> value = 777 then Some (say (Notification value textParameter) t)
             else if value = 52 then
               (case ji_base64 J (case after_semicolon textParameter of None \<Rightarrow> textParameter | Some u \<Rightarrow> u) of
                  None \<Rightarrow> Some t
                | Some clipboardText \<Rightarrow> Some (say (ClipboardText clipboardText) t))
             else if value = 104 then
               (if textParameter = [] then do {
                  colors \<leftarrow> resetColors (ji_scheme J) (t_colors t);
                  Some (say ColorsChanged (t\<lparr>t_colors := colors\<rparr>)) }
                else osc104 J textParameter 0 0 t)
             else if value = 110 \<or> value = 111 \<or> value = 112 then do {
               colors \<leftarrow> resetIndex J (uint COLOR_FOREGROUND + (value - 110)) (t_colors t);
               Some (say ColorsChanged (t\<lparr>t_colors := colors\<rparr>)) }
             else if value = 119 then Some t
             else Some (finishSequence t)))"

definition doOsc :: "jvm \<Rightarrow> int \<Rightarrow> emul \<Rightarrow> emul option" where
  "doOsc J b t =
     (if b = 7 then doOscSetTextParameters J [7] t
      else if b = 27 then Some (continueSequence ESC_OSC_ESC t)
      else Some (collectOSCArgs b t))"

definition doOscEsc :: "jvm \<Rightarrow> int \<Rightarrow> emul \<Rightarrow> emul option" where
  "doOscEsc J b t =
     (if b = 92 then doOscSetTextParameters J [27, 92] t
      else Some (continueSequence ESC_OSC (collectOSCArgs b (collectOSCArgs 27 t))))"

section \<open>Device control strings\<close>

text \<open>\<^verbatim>\<open>split(";")\<close> drops the empty strings at the end, unless nothing was split.\<close>

fun split_parts :: "jstring \<Rightarrow> jstring \<Rightarrow> jstring list" where
  "split_parts acc [] = [rev acc]"
| "split_parts acc (c # cs) = (if c = chr '';'' then rev acc # split_parts [] cs else split_parts (c # acc) cs)"

definition split_semicolon :: "jstring \<Rightarrow> jstring list" where
  "split_semicolon s =
     (if chr '';'' \<in> set s then rev (dropWhile (\<lambda>p. p = []) (rev (split_parts [] s))) else [s])"

fun hex_pairs :: "jvm \<Rightarrow> jstring \<Rightarrow> jstring option" where
  "hex_pairs J (a # b # cs) =
     (if char_digit J 16 a < 0 \<or> char_digit J 16 b < 0 then None
      else do { rest \<leftarrow> hex_pairs J cs; Some ((16 * char_digit J 16 a + char_digit J 16 b) # rest) })"
| "hex_pairs J _ = Some []"

definition termcap_value :: "jstring \<Rightarrow> emul \<Rightarrow> jstring option" where
  "termcap_value transl t =
     (if transl = ascii ''Co'' \<or> transl = ascii ''colors'' then Some (ascii ''256'')
      else if transl = ascii ''TN'' \<or> transl = ascii ''name'' then Some (ascii ''xterm'')
      else getCodeFromTermcap transl (isBitSet BIT_APPLICATION_CURSOR_KEYS t) (isBitSet BIT_APPLICATION_KEYPAD t))"

fun termcap_requests :: "jvm \<Rightarrow> jstring list \<Rightarrow> emul \<Rightarrow> emul option" where
  "termcap_requests J [] t = Some t"
| "termcap_requests J (part # parts) t =
     (if even (length part) then do {
        transl \<leftarrow> hex_pairs J part;
        let answer = (case termcap_value transl t of
            None \<Rightarrow> 27 # ascii ''P0+r'' @ part @ [27, 92]
          | Some v \<Rightarrow> 27 # ascii ''P1+r'' @ part @ chr ''='' # concat (map (\<lambda>c. hex_text 65 2 (nat c)) v) @ [27, 92]);
        termcap_requests J parts (say (Wrote answer) t) }
      else termcap_requests J parts t)"

definition doDeviceControl :: "jvm \<Rightarrow> int \<Rightarrow> emul \<Rightarrow> emul option" where
  "doDeviceControl J b t =
     (if b = 92 then
        (let dcs = t_osc t in
         map_option finishSequence
           (if 0 \<le> sixelIntroducerIndex dcs then processSixel J dcs t
            else if startsWith dcs (ascii ''$q'') then
              (if dcs = ascii ''$q'' @ [34, chr ''p''] then Some (say (Wrote (27 # ascii ''P1$r64;1'' @ [34, chr ''p'', 27, 92])) t)
               else Some (finishSequence t))
            else if startsWith dcs (ascii ''+q'') then termcap_requests J (split_semicolon (drop 2 dcs)) t
            else Some t))
      else if MAX_DCS_STRING_LENGTH < int (length (t_osc t)) then Some (finishSequence (t\<lparr>t_osc := []\<rparr>))
      else Some (continueSequence (t_esc t) (t\<lparr>t_osc := t_osc t @ units b\<rparr>)))"

end
