(* ===== verification/TermCsi.thy ===== *)
theory TermCsi
  imports TermOsc
begin

text \<open>
  \<^verbatim>\<open>TerminalEmulator.java\<close>, fourth part: the handlers of escape and control sequences.
\<close>

unbundle bit_operations_syntax

section \<open>Graphic rendition\<close>

fun colon_group :: "nat \<Rightarrow> int \<Rightarrow> emul \<Rightarrow> int" where
  "colon_group 0 e t = e"
| "colon_group (Suc n) e t =
     (if e + 1 \<le> t_argi t \<and> t_colon t ! nat (e + 1) then colon_group n (e + 1) t else e)"

definition set_ext_color :: "int \<Rightarrow> u32 \<Rightarrow> emul \<Rightarrow> emul" where
  "set_ext_color code c t =
     (if code = 38 then t\<lparr>t_fore := c\<rparr> else if code = 48 then t\<lparr>t_back := c\<rparr> else t\<lparr>t_ucolor := c\<rparr>)"

text \<open>An extended colour at argument \<open>i\<close>: the new state and the last argument it used.\<close>

definition ext_color :: "int \<Rightarrow> int \<Rightarrow> emul \<Rightarrow> emul \<times> int" where
  "ext_color code i t =
     (let colon = t_colon t ! nat (i + 1); firstArg = t_args t ! nat (i + 1);
          groupEnd = (if colon then colon_group 16 (i + 1) t else i + 1)
      in if firstArg = 2 then
           (let rIdx = (if colon then (if 5 \<le> groupEnd - i then i + 3 else i + 2) else i + 2);
                lastIdx = (if colon then groupEnd else i + 4);
                t' = (if rIdx + 2 \<le> t_argi t then
                        (let red = t_args t ! nat rIdx; green = t_args t ! nat (rIdx + 1); blue = t_args t ! nat (rIdx + 2)
                         in if 0 \<le> red \<and> 0 \<le> green \<and> 0 \<le> blue \<and> red \<le> 255 \<and> green \<le> 255 \<and> blue \<le> 255
                            then set_ext_color code
                                   (0xff000000 OR push_bit 16 (word_of_int red) OR push_bit 8 (word_of_int green) OR word_of_int blue) t
                            else t)
                      else t)
            in (t', min (t_argi t) lastIdx))
         else if firstArg = 5 then
           (let color = (if i + 2 \<le> t_argi t then t_args t ! nat (i + 2) else - 1);
                t' = (if 0 \<le> color \<and> color < NUM_INDEXED_COLORS
                      then set_ext_color code (if code = 58 then t_colors t ! nat color else word_of_int color) t else t)
            in (t', min (t_argi t) (if colon then groupEnd else i + 2)))
         else (t, min (t_argi t) groupEnd))"

definition sgr_code :: "int \<Rightarrow> emul \<Rightarrow> emul" where
  "sgr_code code t =
     (if code = 0 then t\<lparr>t_fore := COLOR_FOREGROUND, t_back := COLOR_BACKGROUND, t_effect := 0, t_ustyle := 0, t_ucolor := 0\<rparr>
      else if code = 1 then t\<lparr>t_effect := t_effect t OR ATTR_BOLD\<rparr>
      else if code = 2 then t\<lparr>t_effect := t_effect t OR ATTR_DIM\<rparr>
      else if code = 3 then t\<lparr>t_effect := t_effect t OR ATTR_ITALIC\<rparr>
      else if code = 5 then t\<lparr>t_effect := t_effect t OR ATTR_BLINK\<rparr>
      else if code = 7 then t\<lparr>t_effect := t_effect t OR ATTR_INVERSE\<rparr>
      else if code = 8 then t\<lparr>t_effect := t_effect t OR ATTR_INVISIBLE\<rparr>
      else if code = 9 then t\<lparr>t_effect := t_effect t OR ATTR_STRIKETHROUGH\<rparr>
      else if code = 22 then t\<lparr>t_effect := t_effect t AND NOT (ATTR_BOLD OR ATTR_DIM)\<rparr>
      else if code = 23 then t\<lparr>t_effect := t_effect t AND NOT ATTR_ITALIC\<rparr>
      else if code = 24 then t\<lparr>t_effect := t_effect t AND NOT ATTR_UNDERLINE, t_ustyle := 0\<rparr>
      else if code = 25 then t\<lparr>t_effect := t_effect t AND NOT ATTR_BLINK\<rparr>
      else if code = 27 then t\<lparr>t_effect := t_effect t AND NOT ATTR_INVERSE\<rparr>
      else if code = 28 then t\<lparr>t_effect := t_effect t AND NOT ATTR_INVISIBLE\<rparr>
      else if code = 29 then t\<lparr>t_effect := t_effect t AND NOT ATTR_STRIKETHROUGH\<rparr>
      else if 30 \<le> code \<and> code \<le> 37 then t\<lparr>t_fore := word_of_int (code - 30)\<rparr>
      else if code = 59 then t\<lparr>t_ucolor := 0\<rparr>
      else if code = 39 then t\<lparr>t_fore := COLOR_FOREGROUND\<rparr>
      else if 40 \<le> code \<and> code \<le> 47 then t\<lparr>t_back := word_of_int (code - 40)\<rparr>
      else if code = 49 then t\<lparr>t_back := COLOR_BACKGROUND\<rparr>
      else if 90 \<le> code \<and> code \<le> 97 then t\<lparr>t_fore := word_of_int (code - 90 + 8)\<rparr>
      else if 100 \<le> code \<and> code \<le> 107 then t\<lparr>t_back := word_of_int (code - 100 + 8)\<rparr>
      else t)"

text \<open>SGR 4 with an optional sub-parameter: the new state and the last argument it used.\<close>

definition sgr_underline :: "int \<Rightarrow> emul \<Rightarrow> emul \<times> int" where
  "sgr_underline i t =
     (let more = (i + 1 \<le> t_argi t \<and> t_colon t ! nat (i + 1));
          sub = (if more then max 0 (t_args t ! nat (i + 1)) else 1); i' = (if more then i + 1 else i)
      in (if sub = 0 then t\<lparr>t_effect := t_effect t AND NOT ATTR_UNDERLINE, t_ustyle := 0\<rparr>
          else t\<lparr>t_effect := t_effect t OR ATTR_UNDERLINE,
                 t_ustyle := (if 1 \<le> sub \<and> sub \<le> 5 then word_of_int sub else word_of_int UNDERLINE_SINGLE)\<rparr>, i'))"

text \<open>At most \<open>n\<close> arguments are left; every round uses at least one.\<close>

primrec sgr_loop :: "nat \<Rightarrow> int \<Rightarrow> emul \<Rightarrow> emul" where
  "sgr_loop 0 i t = t"
| "sgr_loop (Suc n) i t =
     (if t_argi t < i then t
      else let code = t_args t ! nat i in
      if code < 0 \<and> 0 < t_argi t then sgr_loop n (i + 1) t
      else let code = (if code < 0 then 0 else code) in
      if code = 4 then (case sgr_underline i t of (t, i) \<Rightarrow> sgr_loop n (i + 1) t)
      else if code = 38 \<or> code = 48 \<or> code = 58 then
        (if t_argi t < i + 1 then sgr_loop n (i + 1) t else (case ext_color code i t of (t, i) \<Rightarrow> sgr_loop n (i + 1) t))
      else sgr_loop n (i + 1) (sgr_code code t))"

definition selectGraphicRendition :: "emul \<Rightarrow> emul" where
  "selectGraphicRendition t = sgr_loop 16 0 (clamp_argi t)"

section \<open>Modes\<close>

definition doSetMode :: "bool \<Rightarrow> emul \<Rightarrow> emul" where
  "doSetMode newValue t =
     (let modeBit = getArg0 0 t
      in if modeBit = 4 then t\<lparr>t_insert := newValue\<rparr> else if modeBit = 34 then t else finishSequence t)"

definition switch_screen :: "bool \<Rightarrow> emul \<Rightarrow> emul option" where
  "switch_screen setting t =
     (if setting = t_alt t then Some t
      else do {
        let newScreen = (if setting then t_altb t else t_main t);
        let resized = (\<not> (b_cols newScreen = t_cols t \<and> b_srows newScreen = t_rows t));
        let t = (if setting then saveCursor t else t);
        let t = t\<lparr>t_alt := setting\<rparr>;
        let t = (if setting then t
                 else let c = sv_col (t_saved_main t); r = sv_row (t_saved_main t); t = restoreCursor t
                      in if resized then t\<lparr>t_col := c, t_row := r\<rparr> else t);
        t \<leftarrow> (if resized then resizeScreen t else Some t);
        (if setting then on_scr (blockSet 0 0 (t_cols t) (t_rows t) 32 (getStyle t)) t else Some t) })"

definition doDecSetOrReset :: "jvm \<Rightarrow> bool \<Rightarrow> int \<Rightarrow> emul \<Rightarrow> emul option" where
  "doDecSetOrReset J setting externalBit t =
     (let t = (case mapDecSetBitToInternalBit externalBit of None \<Rightarrow> t | Some b \<Rightarrow> setBit b setting t) in
      if externalBit = 3 then do {
        let t = t\<lparr>t_left := 0, t_top := 0, t_bottom := t_rows t, t_right := t_cols t\<rparr>;
        let t = setBit BIT_LEFTRIGHT_MARGIN_MODE False t;
        t \<leftarrow> blockClear 0 0 (t_cols t) (t_rows t) t;
        Some (setCursorRowCol 0 0 t) }
      else if externalBit = 6 then Some (if setting then setCursorPosition 0 0 t else t)
      else if externalBit = 69 then Some (if setting then t else t\<lparr>t_left := 0, t_right := t_cols t\<rparr>)
      else if externalBit = 1048 then Some (if setting then saveCursor t else restoreCursor t)
      else if externalBit = 47 \<or> externalBit = 1047 \<or> externalBit = 1049 then switch_screen setting t
      else if externalBit = 2026 then Some (if setting then t\<lparr>t_sync := True, t_sync_start := ji_now J\<rparr> else t\<lparr>t_sync := False\<rparr>)
      else if externalBit \<in> {1, 4, 5, 7, 8, 9, 12, 25, 40, 45, 66, 1000, 1001, 1002, 1003, 1004, 1005, 1006, 1015, 1034, 2004} then Some t
      else Some (finishSequence t))"

primrec set_modes :: "jvm \<Rightarrow> nat \<Rightarrow> int \<Rightarrow> bool \<Rightarrow> emul \<Rightarrow> emul option" where
  "set_modes J 0 i setting t = Some t"
| "set_modes J (Suc n) i setting t = do {
     t \<leftarrow> doDecSetOrReset J setting (t_args t ! nat i) t;
     set_modes J n (i + 1) setting t }"

primrec recall_modes :: "jvm \<Rightarrow> nat \<Rightarrow> int \<Rightarrow> bool \<Rightarrow> emul \<Rightarrow> emul option" where
  "recall_modes J 0 i saving t = Some t"
| "recall_modes J (Suc n) i saving t = do {
     let externalBit = t_args t ! nat i;
     t \<leftarrow> (case mapDecSetBitToInternalBit externalBit of
             None \<Rightarrow> Some t
           | Some b \<Rightarrow> if saving then Some (t\<lparr>t_saved_flags := t_saved_flags t OR b\<rparr>)
                      else doDecSetOrReset J (t_saved_flags t AND b \<noteq> 0) externalBit t);
     recall_modes J n (i + 1) saving t }"

section \<open>Rectangles\<close>

text \<open>The loops of the selective erasures and of DECFRA and DECERA.\<close>

primrec fill_cols :: "nat \<Rightarrow> int \<Rightarrow> int \<Rightarrow> int \<Rightarrow> bool \<Rightarrow> bool \<Rightarrow> u64 \<Rightarrow> tbuf \<Rightarrow> tbuf option" where
  "fill_cols 0 col row fillChar selective keep style b = Some b"
| "fill_cols (Suc n) col row fillChar selective keep style b = do {
     b \<leftarrow> (if selective then do {
             (st, b) \<leftarrow> getStyleAt row col b;
             if decodeEffect st AND ATTR_PROTECTED = 0 then buf_setChar col row fillChar (if keep then st else style) b else Some b }
           else buf_setChar col row fillChar style b);
     fill_cols n (col + 1) row fillChar selective keep style b }"

primrec fill_rows :: "nat \<Rightarrow> nat \<Rightarrow> int \<Rightarrow> int \<Rightarrow> int \<Rightarrow> bool \<Rightarrow> bool \<Rightarrow> u64 \<Rightarrow> tbuf \<Rightarrow> tbuf option" where
  "fill_rows 0 w col row fillChar selective keep style b = Some b"
| "fill_rows (Suc n) w col row fillChar selective keep style b = do {
     b \<leftarrow> fill_cols w col row fillChar selective keep style b;
     fill_rows n w col (row + 1) fillChar selective keep style b }"

definition selective_erase :: "bool \<Rightarrow> emul \<Rightarrow> emul option" where
  "selective_erase justRow t0 =
     (let t = t0\<lparr>t_wrap := False\<rparr>; arg = getArg0 0 t;
          fill = (\<lambda>startCol startRow endCol endRow.
            on_scr (fill_rows (nat (endRow - startRow)) (nat (endCol - startCol)) startCol startRow 32 True False (getStyle t)) t)
      in if arg = 0 then fill (t_col t) (t_row t) (t_cols t) (if justRow then t_row t + 1 else t_rows t)
         else if arg = 1 then fill 0 (if justRow then t_row t else 0) (t_col t + 1) (t_row t + 1)
         else if arg = 2 then fill 0 (if justRow then t_row t else 0) (t_cols t) (if justRow then t_row t + 1 else t_rows t)
         else Some (finishSequence t))"

definition copy_rectangle :: "emul \<Rightarrow> emul option" where
  "copy_rectangle t =
     (let topSource = min (jint (getArg 0 1 True t - 1 + eff_top t)) (t_rows t);
          leftSource = min (jint (getArg 1 1 True t - 1 + eff_left t)) (t_cols t);
          bottomSource = min (max (jint (getArg 2 (t_rows t) True t + eff_top t)) topSource) (t_rows t);
          rightSource = min (max (jint (getArg 3 (t_cols t) True t + eff_left t)) leftSource) (t_cols t);
          destionationTop = min (jint (getArg 5 1 True t - 1 + eff_top t)) (t_rows t);
          destinationLeft = min (jint (getArg 6 1 True t - 1 + eff_left t)) (t_cols t);
          heightToCopy = min (jint (t_rows t - destionationTop)) (jint (bottomSource - topSource));
          widthToCopy = min (jint (t_cols t - destinationLeft)) (jint (rightSource - leftSource))
      in on_scr (blockCopy leftSource topSource widthToCopy heightToCopy destinationLeft destionationTop) t)"

definition fill_rectangle :: "int \<Rightarrow> emul \<Rightarrow> emul option" where
  "fill_rectangle b t =
     (let erase = (b \<noteq> chr ''x''); selective = (b = chr ''{''); argIndex = (if erase then 0 else 1);
          fillChar = (if erase then 32 else getArg 0 (- 1) True t)
      in if 32 \<le> fillChar \<and> fillChar \<le> 126 \<or> 160 \<le> fillChar \<and> fillChar \<le> 255 then
           (let topRow = min (jint (getArg argIndex 1 True t + eff_top t)) (eff_bottom t + 1);
                leftCol = min (jint (getArg (argIndex + 1) 1 True t + eff_left t)) (eff_right t + 1);
                bottomRow = min (jint (getArg (argIndex + 2) (t_rows t) True t + eff_top t)) (eff_bottom t);
                rightCol = min (jint (getArg (argIndex + 3) (t_cols t) True t + eff_left t)) (eff_right t)
            in on_scr (fill_rows (nat (bottomRow - jint (topRow - 1))) (nat (rightCol - jint (leftCol - 1))) (jint (leftCol - 1)) (jint (topRow - 1))
                         fillChar selective (erase \<and> selective) (getStyle t)) t)
         else Some t)"

text \<open>The attribute bits of an argument of DECCARA or DECRARA, and whether they are set.\<close>

definition attribute_bits :: "bool \<Rightarrow> int \<Rightarrow> u32 \<times> bool" where
  "attribute_bits reverse arg =
     (if arg = 0 then (ATTR_BOLD OR ATTR_UNDERLINE OR ATTR_BLINK OR ATTR_INVERSE, reverse)
      else if arg = 1 then (ATTR_BOLD, True)
      else if arg = 4 then (ATTR_UNDERLINE, True)
      else if arg = 5 then (ATTR_BLINK, True)
      else if arg = 7 then (ATTR_INVERSE, True)
      else if arg = 22 then (ATTR_BOLD, False)
      else if arg = 24 then (ATTR_UNDERLINE, False)
      else if arg = 25 then (ATTR_BLINK, False)
      else if arg = 27 then (ATTR_INVERSE, False)
      else (0, True))"

primrec change_attributes :: "nat \<Rightarrow> nat \<Rightarrow> bool \<Rightarrow> int \<Rightarrow> int \<Rightarrow> int \<Rightarrow> int \<Rightarrow> emul \<Rightarrow> emul option" where
  "change_attributes 0 i reverse topRow leftCol bottomRow rightCol t = Some t"
| "change_attributes (Suc n) i reverse topRow leftCol bottomRow rightCol t = do {
     let (bits, setOrClear) = attribute_bits reverse (getArg i 0 False t);
     t \<leftarrow> (if reverse \<and> \<not> setOrClear then Some t
           else on_scr (setOrClearEffect bits setOrClear reverse (isBitSet BIT_RECTANGULAR_CHANGEATTRIBUTE t)
                          (eff_left t) (eff_right t) topRow leftCol bottomRow rightCol) t);
     change_attributes n (i + 1) reverse topRow leftCol bottomRow rightCol t }"

definition attributes_rectangle :: "bool \<Rightarrow> emul \<Rightarrow> emul option" where
  "attributes_rectangle reverse t =
     (let topRow = min (getArg 0 1 True t - 1) (eff_bottom t) + eff_top t;
          leftCol = min (getArg 1 1 True t - 1) (eff_right t) + eff_left t;
          bottomRow = min (jint (getArg 2 (t_rows t) True t + 1)) (eff_bottom t - 1) + eff_top t;
          rightCol = min (jint (getArg 3 (t_cols t) True t + 1)) (eff_right t - 1) + eff_left t
      in if 4 \<le> t_argi t then
           (let t = clamp_argi t
            in change_attributes (nat (t_argi t - 3)) 4 reverse topRow leftCol bottomRow rightCol t)
         else Some t)"

definition doCsiDollar :: "int \<Rightarrow> emul \<Rightarrow> emul option" where
  "doCsiDollar b t =
     (if b = chr ''v'' then copy_rectangle t
      else if b = chr ''{'' \<or> b = chr ''x'' \<or> b = chr ''z'' then fill_rectangle b t
      else if b = chr ''r'' \<or> b = chr ''t'' then attributes_rectangle (b = chr ''t'') t
      else Some (finishSequence t))"

section \<open>Private sequences\<close>

definition doCsiQuestionMark :: "jvm \<Rightarrow> int \<Rightarrow> emul \<Rightarrow> emul option" where
  "doCsiQuestionMark J b t =
     (if b = chr ''J'' \<or> b = chr ''K'' then selective_erase (b = chr ''K'') t
      else if b = chr ''h'' \<or> b = chr ''l'' then
        (let t = clamp_argi t in set_modes J (nat (t_argi t + 1)) 0 (b = chr ''h'') t)
      else if b = chr ''n'' then
        Some (if getArg0 (- 1) t = 6
              then say (Wrote (27 # ascii ''[?'' @ int_text (t_row t + 1) @ chr '';'' # int_text (t_col t + 1) @ ascii '';1R'')) t
              else finishSequence t)
      else if b = chr ''r'' \<or> b = chr ''s'' then
        (let t = clamp_argi t in recall_modes J (nat (t_argi t + 1)) 0 (b = chr ''s'') t)
      else if b = chr ''$'' then Some (continueSequence ESC_CSI_QUESTIONMARK_ARG_DOLLAR t)
      else Some (parseArg b t))"

definition doCsiBiggerThan :: "int \<Rightarrow> emul \<Rightarrow> emul" where
  "doCsiBiggerThan b t =
     (if b = chr ''c'' then say (Wrote (27 # ascii ''[>41;320;0c'')) t
      else if b = chr ''m'' then t
      else parseArg b t)"

definition requestMode :: "int \<Rightarrow> emul \<Rightarrow> emul" where
  "requestMode b t =
     (if b = chr ''p'' then
        (let mode = getArg0 0 t;
             value = (if mode = 47 \<or> mode = 1047 \<or> mode = 1049 then (if t_alt t then 1 else 2)
                      else case mapDecSetBitToInternalBit mode of
                        Some internalBit \<Rightarrow> if isBitSet internalBit t then 1 else 2
                      | None \<Rightarrow> if mode = 2026 then (if t_sync t then 1 else 2) else 0)
         in say (Wrote (27 # ascii ''[?'' @ int_text mode @ chr '';'' # int_text value @ ascii ''$y'')) t)
      else finishSequence t)"

definition cursorStyle :: "int \<Rightarrow> emul \<Rightarrow> emul" where
  "cursorStyle b t =
     (let arg = getArg0 0 t in
      if b = chr ''q'' then
        (let t = (if arg = 0 \<or> arg = 1 \<or> arg = 2 then t\<lparr>t_cstyle := 0\<rparr>
                  else if arg = 3 \<or> arg = 4 then t\<lparr>t_cstyle := 1\<rparr>
                  else if arg = 5 \<or> arg = 6 then t\<lparr>t_cstyle := 2\<rparr> else t)
         in t\<lparr>t_blink := (\<not> (arg = 2 \<or> arg = 4 \<or> arg = 6))\<rparr>)
      else if b = chr ''t'' \<or> b = chr ''u'' then t
      else finishSequence t)"

definition changeExtent :: "int \<Rightarrow> emul \<Rightarrow> emul" where
  "changeExtent b t =
     (let attributeChangeExtent = getArg0 0 t
      in if b = chr ''x'' \<and> 0 \<le> attributeChangeExtent \<and> attributeChangeExtent \<le> 2
         then setBit BIT_RECTANGULAR_CHANGEATTRIBUTE (attributeChangeExtent = 2) t
         else finishSequence t)"

definition protectAttribute :: "int \<Rightarrow> emul \<Rightarrow> emul" where
  "protectAttribute b t =
     (if b = chr ''q'' then
        (let arg = getArg0 0 t
         in if arg = 0 \<or> arg = 2 then t\<lparr>t_effect := t_effect t AND NOT ATTR_PROTECTED\<rparr>
            else if arg = 1 then t\<lparr>t_effect := t_effect t OR ATTR_PROTECTED\<rparr>
            else finishSequence t)
      else finishSequence t)"

definition editColumns :: "int \<Rightarrow> emul \<Rightarrow> emul option" where
  "editColumns b t =
     (let columnsAfterCursor = t_right t - t_col t; n = min (getArg0 1 t) columnsAfterCursor; columnsToMove = columnsAfterCursor - n in
      if b = chr ''}'' then do {
        t \<leftarrow> on_scr (blockCopy (t_col t) 0 columnsToMove (t_rows t) (t_col t + n) 0) t;
        blockClear (t_col t) 0 n (t_rows t) t }
      else if b = chr ''~'' then do {
        t \<leftarrow> on_scr (blockCopy (t_col t + n) 0 columnsToMove (t_rows t) (t_col t) 0) t;
        blockClear (t_row t + columnsToMove) 0 n (t_rows t) t }
      else Some (finishSequence t))"

section \<open>Escape sequences\<close>

definition doEscPound :: "int \<Rightarrow> emul \<Rightarrow> emul option" where
  "doEscPound b t =
     (if b = chr ''8'' then on_scr (blockSet 0 0 (t_cols t) (t_rows t) 69 (getStyle t)) t else Some (finishSequence t))"

definition doEsc :: "jvm \<Rightarrow> int \<Rightarrow> emul \<Rightarrow> emul option" where
  "doEsc J b t =
     (if b = chr ''#'' then Some (continueSequence ESC_POUND t)
      else if b = chr ''('' then Some (continueSequence ESC_SELECT_LEFT_PAREN t)
      else if b = chr '')'' then Some (continueSequence ESC_SELECT_RIGHT_PAREN t)
      else if b = chr ''6'' then
        (if t_left t < t_col t then Some (t\<lparr>t_col := t_col t - 1\<rparr>)
         else do {
           let rows = t_bottom t - t_top t;
           t \<leftarrow> on_scr (blockCopy (t_left t) (t_top t) (t_right t - t_left t - 1) rows (t_left t + 1) (t_top t)) t;
           on_scr (blockSet (t_left t) (t_top t) 1 rows 32 (encode (t_fore t) (t_back t) 0)) t })
      else if b = chr ''7'' then Some (saveCursor t)
      else if b = chr ''8'' then Some (restoreCursor t)
      else if b = chr ''9'' then
        (if t_col t < t_right t - 1 then Some (t\<lparr>t_col := t_col t + 1\<rparr>)
         else do {
           let rows = t_bottom t - t_top t;
           t \<leftarrow> on_scr (blockCopy (t_left t + 1) (t_top t) (t_right t - t_left t - 1) rows (t_left t) (t_top t)) t;
           on_scr (blockSet (t_right t - 1) (t_top t) 1 rows 32 (encode (t_fore t) (t_back t) 0)) t })
      else if b = chr ''c'' then do {
        t \<leftarrow> reset J t;
        t \<leftarrow> blockClear 0 0 (t_cols t) (t_rows t) t;
        Some (setCursorPosition 0 0 t) }
      else if b = chr ''D'' then doLinefeed t
      else if b = chr ''E'' then doLinefeed (setCursorCol (if isBitSet BIT_ORIGIN_MODE t then t_left t else 0) t)
      else if b = chr ''F'' then Some (setCursorRowCol 0 (t_bottom t - 1) t)
      else if b = chr ''H'' then do { tabs \<leftarrow> aset (t_tabs t) (t_col t) True; Some (t\<lparr>t_tabs := tabs\<rparr>) }
      else if b = chr ''M'' then
        (if t_row t \<le> t_top t then do {
           t \<leftarrow> on_scr (blockCopy 0 (t_top t) (t_cols t) (t_bottom t - (t_top t + 1)) 0 (t_top t + 1)) t;
           blockClear 0 (t_top t) (t_cols t) 1 t }
         else Some (t\<lparr>t_row := t_row t - 1\<rparr>))
      else if b = chr ''N'' \<or> b = chr ''0'' then Some t
      else if b = chr ''P'' then Some (continueSequence ESC_P (t\<lparr>t_osc := []\<rparr>))
      else if b = chr ''['' then Some (continueSequence ESC_CSI t)
      else if b = chr ''='' then Some (setBit BIT_APPLICATION_KEYPAD True t)
      else if b = chr '']'' then Some (continueSequence ESC_OSC (t\<lparr>t_osc := []\<rparr>))
      else if b = chr ''>'' then Some (setBit BIT_APPLICATION_KEYPAD False t)
      else Some (finishSequence t))"

section \<open>Control sequences\<close>

primrec scroll_n :: "nat \<Rightarrow> emul \<Rightarrow> emul option" where
  "scroll_n 0 t = Some t"
| "scroll_n (Suc n) t = do { t \<leftarrow> scrollDownOneLine t; scroll_n n t }"

primrec repeat_n :: "nat \<Rightarrow> emul \<Rightarrow> emul option" where
  "repeat_n 0 t = Some t"
| "repeat_n (Suc n) t = do { t \<leftarrow> emitCodePoint (t_last_cp t) t; repeat_n n t }"

text \<open>Back over tab stops, from column \<open>n - 1\<close> on.\<close>

primrec prev_tab :: "nat \<Rightarrow> int \<Rightarrow> emul \<Rightarrow> int option" where
  "prev_tab 0 numberOfTabs t = Some (t_left t)"
| "prev_tab (Suc n) numberOfTabs t = do {
     stop \<leftarrow> aget (t_tabs t) (int n);
     if stop then (if numberOfTabs - 1 = 0 then Some (max (int n) (t_left t)) else prev_tab n (numberOfTabs - 1) t)
     else prev_tab n numberOfTabs t }"

definition eraseInDisplay :: "emul \<Rightarrow> emul option" where
  "eraseInDisplay t = do {
     let arg = getArg0 0 t;
     if arg = 0 then do {
       t \<leftarrow> blockClear (t_col t) (t_row t) (t_cols t - t_col t) 1 t;
       t \<leftarrow> blockClear 0 (t_row t + 1) (t_cols t) (t_rows t - (t_row t + 1)) t;
       Some (t\<lparr>t_wrap := False\<rparr>) }
     else if arg = 1 then do {
       t \<leftarrow> blockClear 0 0 (t_cols t) (t_row t) t;
       t \<leftarrow> blockClear 0 (t_row t) (t_col t + 1) 1 t;
       Some (t\<lparr>t_wrap := False\<rparr>) }
     else if arg = 2 then do {
       t \<leftarrow> blockClear 0 0 (t_cols t) (t_rows t) t;
       Some (t\<lparr>t_wrap := False\<rparr>) }
     else if arg = 3 then Some ((set_scr (clearTranscript (scr t)) t)\<lparr>t_wrap := False\<rparr>)
     else Some (finishSequence t) }"

definition eraseInLine :: "emul \<Rightarrow> emul option" where
  "eraseInLine t = do {
     let arg = getArg0 0 t;
     if arg = 0 \<or> arg = 1 \<or> arg = 2 then do {
       t \<leftarrow> (if arg = 0 then blockClear (t_col t) (t_row t) (t_cols t - t_col t) 1 t
             else if arg = 1 then blockClear 0 (t_row t) (t_col t + 1) 1 t
             else blockClear 0 (t_row t) (t_cols t) 1 t);
       Some (t\<lparr>t_wrap := False\<rparr>) }
     else Some (finishSequence t) }"

definition editLines :: "int \<Rightarrow> emul \<Rightarrow> emul option" where
  "editLines b t =
     (let linesAfterCursor = t_bottom t - t_row t; n = min (getArg0 1 t) linesAfterCursor; linesToMove = linesAfterCursor - n in
      if b = chr ''L'' then do {
        t \<leftarrow> on_scr (blockCopy 0 (t_row t) (t_cols t) linesToMove 0 (t_row t + n)) t;
        blockClear 0 (t_row t) (t_cols t) n t }
      else do {
        let t = t\<lparr>t_wrap := False\<rparr>;
        t \<leftarrow> on_scr (blockCopy 0 (t_row t + n) (t_cols t) linesToMove 0 (t_row t)) t;
        blockClear 0 (t_row t + linesToMove) (t_cols t) n t })"

definition insertChars :: "emul \<Rightarrow> emul option" where
  "insertChars t0 =
     (let t = t0\<lparr>t_wrap := False\<rparr>; columnsAfterCursor = t_cols t - t_col t;
          spacesToInsert = min (getArg0 1 t) columnsAfterCursor; charsToMove = columnsAfterCursor - spacesToInsert
      in do {
        t \<leftarrow> on_scr (blockCopy (t_col t) (t_row t) charsToMove 1 (t_col t + spacesToInsert) (t_row t)) t;
        blockClear (t_col t) (t_row t) spacesToInsert 1 t })"

definition deleteChars :: "emul \<Rightarrow> emul option" where
  "deleteChars t0 =
     (let t = t0\<lparr>t_wrap := False\<rparr>; cellsAfterCursor = t_cols t - t_col t;
          cellsToDelete = min (getArg0 1 t) cellsAfterCursor; cellsToMove = cellsAfterCursor - cellsToDelete
      in do {
        t \<leftarrow> on_scr (blockCopy (t_col t + cellsToDelete) (t_row t) cellsToMove 1 (t_col t) (t_row t)) t;
        blockClear (t_col t + cellsToMove) (t_row t) cellsToDelete 1 t })"

definition eraseChars :: "emul \<Rightarrow> emul option" where
  "eraseChars t0 =
     (let t = t0\<lparr>t_wrap := False\<rparr>
      in on_scr (blockSet (t_col t) (t_row t) (min (getArg0 1 t) (t_cols t - t_col t)) 1 32 (getStyle t)) t)"

definition scrollDown :: "emul \<Rightarrow> emul option" where
  "scrollDown t =
     (if t_argi t = 0 then do {
        let between = t_bottom t - t_top t;
        let n = min between (getArg0 1 t);
        t \<leftarrow> on_scr (blockCopy 0 (t_top t) (t_cols t) (between - n) 0 (t_top t + n)) t;
        blockClear 0 (t_top t) (t_cols t) n t }
      else Some (finishSequence t))"

definition windowManipulation :: "emul \<Rightarrow> emul" where
  "windowManipulation t =
     (let arg = getArg0 0 t in
      if arg = 11 then say (Wrote (27 # ascii ''[1t'')) t
      else if arg = 13 then say (Wrote (27 # ascii ''[3;0;0t'')) t
      else if arg = 14 then say (Wrote (27 # ascii ''[4;'' @ int_text (jint (t_rows t * 12)) @ chr '';'' # int_text (jint (t_cols t * 12)) @ ascii ''t'')) t
      else if arg = 18 then say (Wrote (27 # ascii ''[8;'' @ int_text (t_rows t) @ chr '';'' # int_text (t_cols t) @ ascii ''t'')) t
      else if arg = 19 then say (Wrote (27 # ascii ''[9;'' @ int_text (t_rows t) @ chr '';'' # int_text (t_cols t) @ ascii ''t'')) t
      else if arg = 20 then say (Wrote (27 # ascii '']LIconLabel'' @ [27, 92])) t
      else if arg = 21 then say (Wrote (27 # ascii '']l'' @ [27, 92])) t
      else if arg = 22 then
        (let titles = t_titles t @ [t_title t] in t\<lparr>t_titles := (if 20 < length titles then tl titles else titles)\<rparr>)
      else if arg = 23 then
        (if t_titles t = [] then t else setTitle (last (t_titles t)) (t\<lparr>t_titles := butlast (t_titles t)\<rparr>))
      else t)"

definition deviceStatus :: "emul \<Rightarrow> emul" where
  "deviceStatus t =
     (let arg = getArg0 0 t in
      if arg = 5 then say (WroteBytes (27 # ascii ''[0n'')) t
      else if arg = 6 then
        say (Wrote (27 # ascii ''['' @ int_text (t_row t + 1) @ chr '';'' # int_text (t_col t + 1) @ ascii ''R'')) t
      else t)"

definition setMargins :: "emul \<Rightarrow> emul" where
  "setMargins t =
     (let topMargin = max 0 (min (getArg0 1 t - 1) (t_rows t - 2));
          bottomMargin = max (topMargin + 2) (min (getArg1 (t_rows t) t) (t_rows t))
      in setCursorPosition 0 0 (t\<lparr>t_top := topMargin, t_bottom := bottomMargin\<rparr>))"

definition setSideMargins :: "emul \<Rightarrow> emul" where
  "setSideMargins t =
     (if isBitSet BIT_LEFTRIGHT_MARGIN_MODE t then
        (let leftMargin = min (getArg0 1 t - 1) (t_cols t - 2);
             rightMargin = max (leftMargin + 1) (min (getArg1 (t_cols t) t) (t_cols t))
         in setCursorPosition 0 0 (t\<lparr>t_left := leftMargin, t_right := rightMargin\<rparr>))
      else saveCursor t)"

definition clearTab :: "emul \<Rightarrow> emul option" where
  "clearTab t =
     (let arg = getArg0 0 t in
      if arg = 0 then do { tabs \<leftarrow> aset (t_tabs t) (t_col t) False; Some (t\<lparr>t_tabs := tabs\<rparr>) }
      else Some (if arg = 3 then t\<lparr>t_tabs := replicate (nat (t_cols t)) False\<rparr> else t))"

text \<open>The sequences from CUU to CHT, which move the cursor.\<close>

definition cursor_moves :: "int \<Rightarrow> emul \<Rightarrow> emul option" where
  "cursor_moves b t =
     (if b = chr ''A'' then Some (setCursorRow (max (t_top t) (t_row t - getArg0 1 t)) t)
      else if b = chr ''B'' then Some (setCursorRow (min (t_bottom t - 1) (jint (t_row t + getArg0 1 t))) t)
      else if b = chr ''C'' \<or> b = chr ''a'' then Some (setCursorCol (min (t_right t - 1) (jint (t_col t + getArg0 1 t))) t)
      else if b = chr ''D'' then Some (setCursorCol (max (t_left t) (t_col t - getArg0 1 t)) t)
      else if b = chr ''E'' then Some (setCursorPosition 0 (jint (t_row t + getArg0 1 t)) t)
      else if b = chr ''F'' then Some (setCursorPosition 0 (t_row t - getArg0 1 t) t)
      else if b = chr ''G'' then Some (setCursorCol (min (max 1 (getArg0 1 t)) (t_cols t) - 1) t)
      else if b = chr ''H'' \<or> b = chr ''f'' then Some (setCursorPosition (getArg1 1 t - 1) (getArg0 1 t - 1) t)
      else if b = chr ''I'' then do { c \<leftarrow> nextTabStop (getArg0 1 t) t; Some (setCursorCol c t) }
      else Some t)"

definition move_letters :: "int list" where
  "move_letters = ascii ''ABCaDEFGHfI''"

definition doCsi :: "jvm \<Rightarrow> int \<Rightarrow> emul \<Rightarrow> emul option" where
  "doCsi J b t =
     (if b = chr ''!'' then Some (continueSequence ESC_CSI_EXCLAMATION t)
      else if b = 34 then Some (continueSequence ESC_CSI_DOUBLE_QUOTE t)
      else if b = 39 then Some (continueSequence ESC_CSI_SINGLE_QUOTE t)
      else if b = chr ''$'' then Some (continueSequence ESC_CSI_DOLLAR t)
      else if b = chr ''*'' then Some (continueSequence ESC_CSI_ARGS_ASTERIX t)
      else if b = chr ''@'' then insertChars t
      else if b \<in> set move_letters then cursor_moves b t
      else if b = chr ''J'' then eraseInDisplay t
      else if b = chr ''K'' then eraseInLine t
      else if b = chr ''L'' \<or> b = chr ''M'' then editLines b t
      else if b = chr ''P'' then deleteChars t
      else if b = chr ''S'' then scroll_n (nat (getArg0 1 t)) t
      else if b = chr ''T'' then scrollDown t
      else if b = chr ''X'' then eraseChars t
      else if b = chr ''Z'' then do { c \<leftarrow> prev_tab (nat (t_col t)) (getArg0 1 t) t; Some (t\<lparr>t_col := c\<rparr>) }
      else if b = chr ''?'' then Some (continueSequence ESC_CSI_QUESTIONMARK t)
      else if b = chr ''>'' then Some (continueSequence ESC_CSI_BIGGERTHAN t)
      else if b = chr ''`'' then Some (setCursorPosition (getArg0 1 t - 1) (t_row t) t)
      else if b = chr ''b'' then (if t_last_cp t = - 1 then Some t else repeat_n (nat (getArg0 1 t)) t)
      else if b = chr ''c'' then Some (if getArg0 0 t = 0 then say (Wrote (27 # ascii ''[?64;1;2;4;6;9;15;18;21;22c'')) t else t)
      else if b = chr ''d'' then Some (setCursorRow (min (max 1 (getArg0 1 t)) (t_rows t) - 1) t)
      else if b = chr ''e'' then Some (setCursorPosition (t_col t) (jint (t_row t + getArg0 1 t)) t)
      else if b = chr ''g'' then clearTab t
      else if b = chr ''h'' then Some (doSetMode True t)
      else if b = chr ''l'' then Some (doSetMode False t)
      else if b = chr ''m'' then Some (selectGraphicRendition t)
      else if b = chr ''n'' then Some (deviceStatus t)
      else if b = chr ''r'' then Some (setMargins t)
      else if b = chr ''s'' then Some (setSideMargins t)
      else if b = chr ''t'' then Some (windowManipulation t)
      else if b = chr ''u'' then Some (restoreCursor t)
      else if b = 32 then Some (continueSequence ESC_CSI_ARGS_SPACE t)
      else Some (parseArg b t))"

end
