(* ===== verification/TermStep.thy ===== *)
theory TermStep
  imports TermCsi
begin

text \<open>
  \<^verbatim>\<open>TerminalEmulator.java\<close>, fifth part: the byte decoder and the dispatch on the state of the
  escape sequence.
\<close>

unbundle bit_operations_syntax

section \<open>One code point\<close>

definition backspace :: "emul \<Rightarrow> emul option" where
  "backspace t =
     (if t_left t = t_col t then
        (let previousRow = t_row t - 1 in
         if 0 \<le> previousRow then do {
           w \<leftarrow> getLineWrap previousRow (scr t);
           if w then do {
             t \<leftarrow> on_scr (clearLineWrap previousRow) t;
             Some (setCursorRowCol previousRow (t_right t - 1) t) }
           else Some t }
         else Some t)
      else Some (setCursorCol (t_col t - 1) t))"

text \<open>The dispatch on the escape state.\<close>

definition in_sequence :: "jvm \<Rightarrow> int \<Rightarrow> emul \<Rightarrow> emul option" where
  "in_sequence J b t =
     (case t_esc t of
        ESC_NONE \<Rightarrow> if 32 \<le> b then emitCodePoint b t else Some t
      | ESC \<Rightarrow> doEsc J b t
      | ESC_POUND \<Rightarrow> doEscPound b t
      | ESC_SELECT_LEFT_PAREN \<Rightarrow> Some (t\<lparr>t_g0 := (b = chr ''0'')\<rparr>)
      | ESC_SELECT_RIGHT_PAREN \<Rightarrow> Some (t\<lparr>t_g1 := (b = chr ''0'')\<rparr>)
      | ESC_CSI \<Rightarrow> doCsi J b t
      | ESC_CSI_EXCLAMATION \<Rightarrow> if b = chr ''p'' then reset J t else Some (finishSequence t)
      | ESC_CSI_QUESTIONMARK \<Rightarrow> doCsiQuestionMark J b t
      | ESC_CSI_BIGGERTHAN \<Rightarrow> Some (doCsiBiggerThan b t)
      | ESC_CSI_DOLLAR \<Rightarrow> doCsiDollar b t
      | ESC_CSI_DOUBLE_QUOTE \<Rightarrow> Some (protectAttribute b t)
      | ESC_CSI_SINGLE_QUOTE \<Rightarrow> editColumns b t
      | ESC_PERCENT \<Rightarrow> Some t
      | ESC_OSC \<Rightarrow> doOsc J b t
      | ESC_OSC_ESC \<Rightarrow> doOscEsc J b t
      | ESC_P \<Rightarrow> doDeviceControl J b t
      | ESC_CSI_QUESTIONMARK_ARG_DOLLAR \<Rightarrow> Some (requestMode b t)
      | ESC_CSI_ARGS_SPACE \<Rightarrow> Some (cursorStyle b t)
      | ESC_CSI_ARGS_ASTERIX \<Rightarrow> Some (changeExtent b t))"

definition processCodePoint :: "jvm \<Rightarrow> int \<Rightarrow> emul \<Rightarrow> emul option" where
  "processCodePoint J b t =
     (if t_esc t = ESC_OSC \<and> b < 32 \<and> b \<noteq> 0 \<and> b \<noteq> 7 \<and> b \<noteq> 24 \<and> b \<noteq> 26 \<and> b \<noteq> 27 then doOsc J b t
      else if b = 0 then Some t
      else if b = 7 then (if t_esc t = ESC_OSC then doOsc J b t else Some (say Bell t))
      else if b = 8 then backspace t
      else if b = 9 then do { c \<leftarrow> nextTabStop 1 t; Some (t\<lparr>t_col := c\<rparr>) }
      else if b = 10 \<or> b = 11 \<or> b = 12 then doLinefeed t
      else if b = 13 then Some (setCursorCol (t_left t) t)
      else if b = 14 then Some (t\<lparr>t_useg0 := False\<rparr>)
      else if b = 15 then Some (t\<lparr>t_useg0 := True\<rparr>)
      else if b = 24 \<or> b = 26 then
        (if t_esc t \<noteq> ESC_NONE then emitCodePoint 127 (t\<lparr>t_esc := ESC_NONE\<rparr>) else Some t)
      else if b = 27 then
        (if t_esc t = ESC_P then Some t
         else if t_esc t \<noteq> ESC_OSC then Some (startEscapeSequence t)
         else doOsc J b t)
      else do {
        t \<leftarrow> in_sequence J b (t\<lparr>t_continue := False\<rparr>);
        Some (if \<not> t_continue t then t\<lparr>t_esc := ESC_NONE\<rparr> else t) })"

section \<open>One byte\<close>

definition UNICODE_REPLACEMENT_CHAR :: int where
  "UNICODE_REPLACEMENT_CHAR = 65533"

text \<open>The code point of the collected bytes, and what is processed for it: nothing for a C1 control.\<close>

definition utf8_value :: "int list \<Rightarrow> int" where
  "utf8_value bs =
     (let firstByteMask = (if length bs = 2 then 31 else if length bs = 3 then 15 else 7)
      in foldl (\<lambda>cp b. push_bit 6 cp OR (b AND 63)) (hd bs AND firstByteMask) (tl bs))"

definition overlong :: "int \<Rightarrow> nat \<Rightarrow> bool" where
  "overlong cp n \<longleftrightarrow> cp \<le> 127 \<and> 1 < n \<or> cp < 2047 \<and> 2 < n \<or> cp < 65535 \<and> 3 < n"

definition decoded :: "jvm \<Rightarrow> int list \<Rightarrow> int option" where
  "decoded J bs =
     (let cp = utf8_value bs; cp = (if overlong cp (length bs) then UNICODE_REPLACEMENT_CHAR else cp)
      in if 128 \<le> cp \<and> cp \<le> 159 then None
         else Some (if ji_unassigned J cp \<or> 55296 \<le> cp \<and> cp \<le> 57343 then UNICODE_REPLACEMENT_CHAR else cp))"

text \<open>A byte outside a multi-byte sequence.\<close>

definition first_byte :: "jvm \<Rightarrow> int \<Rightarrow> emul \<Rightarrow> emul option" where
  "first_byte J b t =
     (let start = (\<lambda>n. do {
            buf \<leftarrow> aset (t_utf8 t) (t_utf8i t) b;
            Some (t\<lparr>t_utf8n := n, t_utf8 := buf, t_utf8i := t_utf8i t + 1\<rparr>) })
      in if b AND 128 = 0 then processCodePoint J b t
         else if b AND 224 = 192 then start 1
         else if b AND 240 = 224 then start 2
         else if b AND 248 = 240 then start 3
         else processCodePoint J UNICODE_REPLACEMENT_CHAR t)"

definition processByte :: "jvm \<Rightarrow> int \<Rightarrow> emul \<Rightarrow> emul option" where
  "processByte J b t =
     (if 0 < t_utf8n t then
        (if b AND 192 = 128 then do {
           buf \<leftarrow> aset (t_utf8 t) (t_utf8i t) b;
           let t = t\<lparr>t_utf8 := buf, t_utf8i := t_utf8i t + 1, t_utf8n := t_utf8n t - 1\<rparr>;
           if t_utf8n t = 0 then
             (case decoded J (take (nat (t_utf8i t)) (t_utf8 t)) of
                None \<Rightarrow> Some (t\<lparr>t_utf8i := 0, t_utf8n := 0\<rparr>)
              | Some cp \<Rightarrow> processCodePoint J cp (t\<lparr>t_utf8i := 0, t_utf8n := 0\<rparr>))
           else Some t }
         else do {
           t \<leftarrow> emitCodePoint UNICODE_REPLACEMENT_CHAR (t\<lparr>t_utf8i := 0, t_utf8n := 0\<rparr>);
           first_byte J b t })
      else first_byte J b t)"

primrec append_bytes :: "jvm \<Rightarrow> int list \<Rightarrow> emul \<Rightarrow> emul option" where
  "append_bytes J [] t = Some t"
| "append_bytes J (b # bs) t = do { t \<leftarrow> processByte J b t; append_bytes J bs t }"

definition append_buffer :: "jvm \<Rightarrow> int list \<Rightarrow> int \<Rightarrow> emul \<Rightarrow> emul option" where
  "append_buffer J buffer n t =
     (if n \<le> int (length buffer) then append_bytes J (take (nat n) buffer) t else None)"

end
