(* ===== verification/TermInv.thy ===== *)
theory TermInv
  imports TermStep
begin

text \<open>
  The invariant of the emulator: the cursor is on the screen, the margins are
  ordered, the fixed arrays have their sizes and both screen buffers are well
  formed and of the size of the screen. Every operation on code points that meets
  \<open>calm\<close> ends without an exception and keeps it.
\<close>

section \<open>Operations that return\<close>

definition returns :: "'a option \<Rightarrow> ('a \<Rightarrow> bool) \<Rightarrow> bool" where
  "returns m Q \<longleftrightarrow> (\<exists>x. m = Some x \<and> Q x)"

lemma returns_simps [simp]:
  "returns (Some x) Q = Q x"
  "returns None Q = False"
  "returns (Option.bind m f) Q = returns m (\<lambda>x. returns (f x) Q)"
  "returns (map_option g m) Q = returns m (\<lambda>x. Q (g x))"
  by (cases m; simp add: returns_def)+

lemma returns_mono: "returns m P \<Longrightarrow> (\<And>x. P x \<Longrightarrow> Q x) \<Longrightarrow> returns m Q"
  by (auto simp: returns_def)

section \<open>The invariant\<close>

definition screen_ok :: "int \<Rightarrow> int \<Rightarrow> tbuf \<Rightarrow> bool" where
  "screen_ok R C b \<longleftrightarrow> buf_ok 0 b \<and> b_srows b = R \<and> b_cols b = C"

definition size_ok :: "int \<Rightarrow> int \<Rightarrow> bool" where
  "size_ok R C \<longleftrightarrow> 2 \<le> R \<and> R \<le> 1000000000 \<and> 2 \<le> C \<and> C \<le> 1000"

definition cursor_ok :: "emul \<Rightarrow> bool" where
  "cursor_ok t \<longleftrightarrow> 0 \<le> t_row t \<and> t_row t < t_rows t \<and> 0 \<le> t_col t \<and> t_col t < t_cols t"

definition margins_ok :: "emul \<Rightarrow> bool" where
  "margins_ok t \<longleftrightarrow> 0 \<le> t_top t \<and> t_top t + 2 \<le> t_bottom t \<and> t_bottom t \<le> t_rows t \<and>
     0 \<le> t_left t \<and> t_left t + 2 \<le> t_cols t \<and> t_left t < t_right t \<and> t_right t \<le> t_cols t"

definition arrays_ok :: "emul \<Rightarrow> bool" where
  "arrays_ok t \<longleftrightarrow> int (length (t_tabs t)) = t_cols t \<and> length (t_args t) = 16 \<and> length (t_colon t) = 16 \<and>
     0 \<le> t_argi t \<and> t_argi t \<le> 16 \<and> int (length (t_colors t)) = NUM_INDEXED_COLORS \<and> length (t_utf8 t) = 4 \<and>
     0 \<le> t_utf8n t \<and> 0 \<le> t_utf8i t \<and> t_utf8i t + t_utf8n t \<le> 4 \<and> (t_utf8n t = 0 \<longrightarrow> t_utf8i t = 0)"

definition term_ok :: "int \<Rightarrow> int \<Rightarrow> emul \<Rightarrow> bool" where
  "term_ok R C t \<longleftrightarrow> size_ok R C \<and> t_rows t = R \<and> t_cols t = C \<and> cursor_ok t \<and> margins_ok t \<and> arrays_ok t \<and>
     screen_ok R C (t_main t) \<and> screen_ok R C (t_altb t)"

lemmas ok_defs = term_ok_def size_ok_def cursor_ok_def margins_ok_def arrays_ok_def

lemma term_okD:
  assumes "term_ok R C t"
  shows "t_rows t = R" "t_cols t = C" "2 \<le> R" "R \<le> 1000000000" "2 \<le> C" "C \<le> 1000"
    and "0 \<le> t_row t" "t_row t < R" "0 \<le> t_col t" "t_col t < C"
    and "0 \<le> t_top t" "t_top t + 2 \<le> t_bottom t" "t_bottom t \<le> R"
    and "0 \<le> t_left t" "t_left t + 2 \<le> C" "t_left t < t_right t" "t_right t \<le> C"
  using assms by (simp_all add: ok_defs)

text \<open>A state that differs only outside the invariant, with another cursor, or with another screen.\<close>

lemma set_scr_fields [simp]:
  "t_rows (set_scr b t) = t_rows t" "t_cols (set_scr b t) = t_cols t" "t_row (set_scr b t) = t_row t"
  "t_col (set_scr b t) = t_col t" "t_top (set_scr b t) = t_top t" "t_bottom (set_scr b t) = t_bottom t"
  "t_left (set_scr b t) = t_left t" "t_right (set_scr b t) = t_right t" "t_tabs (set_scr b t) = t_tabs t"
  "t_args (set_scr b t) = t_args t" "t_colon (set_scr b t) = t_colon t" "t_argi (set_scr b t) = t_argi t"
  "t_colors (set_scr b t) = t_colors t" "t_utf8 (set_scr b t) = t_utf8 t" "t_utf8n (set_scr b t) = t_utf8n t"
  "t_utf8i (set_scr b t) = t_utf8i t" "t_flags (set_scr b t) = t_flags t" "t_alt (set_scr b t) = t_alt t"
  "t_link (set_scr b t) = t_link t" "t_ucolor (set_scr b t) = t_ucolor t" "t_wrap (set_scr b t) = t_wrap t"
  "t_insert (set_scr b t) = t_insert t" "t_esc (set_scr b t) = t_esc t" "t_last_cp (set_scr b t) = t_last_cp t"
  "t_lastw (set_scr b t) = t_lastw t" "t_out (set_scr b t) = t_out t" "t_continue (set_scr b t) = t_continue t"
  "t_useg0 (set_scr b t) = t_useg0 t" "t_g0 (set_scr b t) = t_g0 t" "t_g1 (set_scr b t) = t_g1 t"
  "t_regional (set_scr b t) = t_regional t" "t_fore (set_scr b t) = t_fore t" "t_back (set_scr b t) = t_back t"
  "t_effect (set_scr b t) = t_effect t" "t_ustyle (set_scr b t) = t_ustyle t"
  by (simp_all add: set_scr_def)

lemma scr_set_scr [simp]: "scr (set_scr b t) = b"
  by (simp add: scr_def set_scr_def)

lemma term_ok_scr: "term_ok R C t \<Longrightarrow> screen_ok R C (scr t)"
  by (simp add: term_ok_def scr_def)

lemma term_ok_set_scr: "term_ok R C t \<Longrightarrow> screen_ok R C b \<Longrightarrow> term_ok R C (set_scr b t)"
  by (auto simp: ok_defs) (auto simp: set_scr_def)

lemma returns_on_scr:
  assumes "term_ok R C t" and "returns (f (scr t)) (screen_ok R C)"
    and "\<And>b. screen_ok R C b \<Longrightarrow> term_ok R C (set_scr b t) \<Longrightarrow> Q (set_scr b t)"
  shows "returns (on_scr f t) Q"
  using assms term_ok_set_scr by (auto simp: on_scr_def returns_def)

section \<open>The operations of the screen\<close>

lemma space_facts: "drawn 32" "width 32 = 1" "extra 32 = 0"
proof -
  show w: "width 32 = 1" by code_simp
  then show "extra 32 = 0" by (simp add: extra_def)
  show "drawn 32" by (simp add: scalar_def is_cp_def VS16_def)
qed

lemma blockSet_screen:
  assumes "screen_ok R C b" and "0 \<le> sx" "sx + w \<le> C" "0 \<le> sy" "sy + h \<le> R"
    and "drawn val" "width val = 1"
  shows "returns (blockSet sx sy w h val st b) (screen_ok R C)"
  using assms blockSet_ok [of 0 b sx w sy h val st]
  by (auto simp: screen_ok_def returns_def same_size_def extra_def)

lemma blockCopy_screen:
  assumes "screen_ok R C b" and "0 \<le> sx" "0 \<le> w" "sx + w \<le> C" "0 \<le> dx" "dx + w \<le> C"
    and "0 \<le> sy" "sy + h \<le> R" "0 \<le> dy" "dy + h \<le> R"
  shows "returns (blockCopy sx sy w h dx dy b) (screen_ok R C)"
  using assms blockCopy_ok [of 0 b sx w dx sy h dy]
  by (auto simp: screen_ok_def returns_def same_size_def)

lemma setChar_screen:
  assumes "screen_ok R C b" and "0 \<le> col" "col < C" "0 \<le> row" "row < R"
    and "drawn cp" "0 < width cp" "width cp = 2 \<Longrightarrow> col < C - 1"
  shows "returns (buf_setChar col row cp st b) (screen_ok R C)"
  using assms buf_setChar_ok [of 0 b col row cp st]
  by (auto simp: screen_ok_def returns_def same_size_def extra_def)

lemma scroll_screen:
  assumes "screen_ok R C b" and "0 \<le> tp" "tp < bt" "bt \<le> R"
  shows "returns (buf_scrollDownOneLine tp bt st b) (screen_ok R C)"
  using assms scroll_ok [of 0 b tp bt st] by (auto simp: screen_ok_def returns_def same_size_def)

lemma effect_screen:
  assumes "screen_ok R C b" and "0 \<le> tp" "bt \<le> R" "0 \<le> lm" "rm \<le> C" "0 \<le> lf" "rt \<le> C"
  shows "returns (setOrClearEffect bits s v rect lm rm tp lf bt rt b) (screen_ok R C)"
  using assms setOrClearEffect_ok [of 0 b tp bt lm rm lf rt bits s v rect] by (auto simp: screen_ok_def returns_def same_size_def)

lemma decor_screen:
  assumes "screen_ok R C b" and "0 \<le> row" "row < R"
  shows "returns (buf_setHyperlink col row uri b) (screen_ok R C)"
    and "returns (setUnderlineColorAt col row c b) (screen_ok R C)"
    and "returns (setLineWrap row b) (screen_ok R C)"
    and "returns (clearLineWrap row b) (screen_ok R C)"
    and "returns (getLineWrap row b) (\<lambda>w. True)"
    and "0 \<le> x \<Longrightarrow> x < C \<Longrightarrow> returns (getStyleAt row x b) (\<lambda>(st, b'). screen_ok R C b')"
  using assms decor_ok [of 0 b row] by (fastforce simp: screen_ok_def returns_def same_size_def)+

lemma clearTranscript_screen: "screen_ok R C b \<Longrightarrow> screen_ok R C (clearTranscript b)"
  using clearTranscript_ok [of 0 b] by (auto simp: screen_ok_def same_size_def)

text \<open>The same operations of the shown screen, with what follows them.\<close>

lemma on_blockSet:
  assumes "term_ok R C t" and "0 \<le> sx" "sx + w \<le> C" "0 \<le> sy" "sy + h \<le> R" and "drawn val" "width val = 1"
    and "\<And>b. screen_ok R C b \<Longrightarrow> term_ok R C (set_scr b t) \<Longrightarrow> Q (set_scr b t)"
  shows "returns (on_scr (blockSet sx sy w h val st) t) Q"
  using assms blockSet_screen [OF term_ok_scr] by (blast intro: returns_on_scr)

lemma on_blockClear:
  assumes "term_ok R C t" and "0 \<le> sx" "sx + w \<le> C" "0 \<le> sy" "sy + h \<le> R"
    and "\<And>b. screen_ok R C b \<Longrightarrow> term_ok R C (set_scr b t) \<Longrightarrow> Q (set_scr b t)"
  shows "returns (blockClear sx sy w h t) Q"
  unfolding blockClear_def using assms space_facts by (blast intro: on_blockSet)

lemma on_blockCopy:
  assumes "term_ok R C t" and "0 \<le> sx" "0 \<le> w" "sx + w \<le> C" "0 \<le> dx" "dx + w \<le> C"
    and "0 \<le> sy" "sy + h \<le> R" "0 \<le> dy" "dy + h \<le> R"
    and "\<And>b. screen_ok R C b \<Longrightarrow> term_ok R C (set_scr b t) \<Longrightarrow> Q (set_scr b t)"
  shows "returns (on_scr (blockCopy sx sy w h dx dy) t) Q"
  using assms blockCopy_screen [OF term_ok_scr] by (blast intro: returns_on_scr)

lemma on_scroll:
  assumes "term_ok R C t" and "0 \<le> tp" "tp < bt" "bt \<le> R"
    and "\<And>b. screen_ok R C b \<Longrightarrow> term_ok R C (set_scr b t) \<Longrightarrow> Q (set_scr b t)"
  shows "returns (on_scr (buf_scrollDownOneLine tp bt st) t) Q"
  using assms scroll_screen [OF term_ok_scr] by (blast intro: returns_on_scr)

lemma on_setChar:
  assumes "term_ok R C t" and "0 \<le> col" "col < C" "0 \<le> row" "row < R"
    and "drawn cp" "0 < width cp" "width cp = 2 \<Longrightarrow> col < C - 1"
    and "\<And>b. screen_ok R C b \<Longrightarrow> term_ok R C (set_scr b t) \<Longrightarrow> Q (set_scr b t)"
  shows "returns (on_scr (buf_setChar col row cp st) t) Q"
  using assms setChar_screen [OF term_ok_scr] by (blast intro: returns_on_scr)

lemma blockClear_ok:
  assumes "term_ok R C t" and "0 \<le> sx" "sx + w \<le> C" "0 \<le> sy" "sy + h \<le> R"
  shows "returns (blockClear sx sy w h t) (term_ok R C)"
  using assms by (rule on_blockClear) simp_all

section \<open>Operations outside the invariant\<close>

text \<open>The part of the state that the invariant reads.\<close>

definition core where
  "core t = ((t_rows t, t_cols t, t_row t, t_col t, t_top t, t_bottom t, t_left t, t_right t), t_tabs t, t_args t, t_colon t,
     t_argi t, t_colors t, t_utf8 t, t_utf8n t, t_utf8i t, t_main t, t_altb t)"

named_theorems core_simps \<open>operations that leave the core alone\<close>

lemma term_ok_core: "core t = core t' \<Longrightarrow> term_ok R C t = term_ok R C t'"
  by (auto simp: core_def ok_defs)

lemma core_ok: "term_ok R C t \<Longrightarrow> core t' = core t \<Longrightarrow> term_ok R C t'"
  using term_ok_core by blast

lemma core_fields [core_simps]:
  "core (t\<lparr>t_wrap := w\<rparr>) = core t" "core (t\<lparr>t_fore := c\<rparr>) = core t" "core (t\<lparr>t_back := c\<rparr>) = core t"
  "core (t\<lparr>t_effect := c\<rparr>) = core t" "core (t\<lparr>t_ustyle := c\<rparr>) = core t" "core (t\<lparr>t_ucolor := c\<rparr>) = core t"
  "core (t\<lparr>t_flags := c\<rparr>) = core t" "core (t\<lparr>t_saved_flags := c\<rparr>) = core t" "core (t\<lparr>t_esc := st\<rparr>) = core t"
  "core (t\<lparr>t_continue := w\<rparr>) = core t" "core (t\<lparr>t_insert := w\<rparr>) = core t" "core (t\<lparr>t_out := es\<rparr>) = core t"
  "core (t\<lparr>t_title := ti\<rparr>) = core t" "core (t\<lparr>t_titles := ts\<rparr>) = core t" "core (t\<lparr>t_osc := os\<rparr>) = core t"
  "core (t\<lparr>t_g0 := w\<rparr>) = core t" "core (t\<lparr>t_g1 := w\<rparr>) = core t" "core (t\<lparr>t_useg0 := w\<rparr>) = core t"
  "core (t\<lparr>t_link := l\<rparr>) = core t" "core (t\<lparr>t_scrolled := n\<rparr>) = core t" "core (t\<lparr>t_lastw := n\<rparr>) = core t"
  "core (t\<lparr>t_last_cp := n\<rparr>) = core t" "core (t\<lparr>t_regional := n\<rparr>) = core t" "core (t\<lparr>t_alt := w\<rparr>) = core t"
  "core (t\<lparr>t_sync := w\<rparr>) = core t" "core (t\<lparr>t_sync_start := n\<rparr>) = core t" "core (t\<lparr>t_cstyle := n\<rparr>) = core t"
  "core (t\<lparr>t_blink := w\<rparr>) = core t" "core (t\<lparr>t_saved_main := s\<rparr>) = core t" "core (t\<lparr>t_saved_alt := s\<rparr>) = core t"
  "core (t\<lparr>t_bitmaps := bs\<rparr>) = core t" "core (t\<lparr>t_next_bitmap := n\<rparr>) = core t"
  by (simp_all add: core_def)

lemma core_ops [core_simps]:
  "core (say e t) = core t" "core (finishSequence t) = core t" "core (continueSequence st t) = core t"
  "core (setBit ib w t) = core t" "core (setTitle ti t) = core t" "core (saveCursor t) = core t"
  "core (collectOSCArgs b t) = core t"
  by (simp_all add: say_def finishSequence_def continueSequence_def setBit_def setTitle_def saveCursor_def collectOSCArgs_def
        Let_def core_fields)

lemma core_sgr [core_simps]:
  "core (sgr_code c t) = core t" "core (set_ext_color k col t) = core t" "core (fst (ext_color k i t)) = core t"
  "core (fst (sgr_underline i t)) = core t"
  by (simp_all add: sgr_code_def set_ext_color_def ext_color_def sgr_underline_def Let_def core_fields)

lemma core_sgr_loop [core_simps]: "core (sgr_loop n i t) = core t"
proof (induction n arbitrary: i t)
  case (Suc n)
  then show ?case by (simp add: Let_def case_prod_beta core_simps)
qed simp

lemma core_reports [core_simps]:
  "core (doSetMode w t) = core t" "core (windowManipulation t) = core t" "core (deviceStatus t) = core t"
  "core (requestMode b t) = core t" "core (cursorStyle b t) = core t" "core (changeExtent b t) = core t"
  "core (protectAttribute b t) = core t"
  by (simp_all add: doSetMode_def windowManipulation_def deviceStatus_def requestMode_def cursorStyle_def changeExtent_def
        protectAttribute_def Let_def core_simps split: option.split)

section \<open>Operations on the cursor, the margins and the arguments\<close>

lemma cursor_updates:
  assumes "term_ok R C t"
  shows "0 \<le> r \<Longrightarrow> r < R \<Longrightarrow> term_ok R C (t\<lparr>t_row := r\<rparr>)" and "0 \<le> c \<Longrightarrow> c < C \<Longrightarrow> term_ok R C (t\<lparr>t_col := c\<rparr>)"
    and "0 \<le> r \<Longrightarrow> r < R \<Longrightarrow> term_ok R C (setCursorRow r t)" and "0 \<le> c \<Longrightarrow> c < C \<Longrightarrow> term_ok R C (setCursorCol c t)"
    and "term_ok R C (setCursorRowCol x y t)" and "term_ok R C (setCursorPosition x y t)"
  using assms by (auto simp: ok_defs setCursorRow_def setCursorCol_def setCursorRowCol_def setCursorPosition_def Let_def)

lemma restoreCursor_ok:
  assumes "term_ok R C t"
  shows "term_ok R C (restoreCursor t)"
  by (rule core_ok [OF cursor_updates(5) [OF assms, of "sv_row (saved_state t)" "sv_col (saved_state t)"]])
     (simp add: restoreCursor_def Let_def core_simps)

lemma args_updates:
  assumes "term_ok R C t"
  shows "term_ok R C (clamp_argi t)" and "term_ok R C (parseArg b t)" and "term_ok R C (startEscapeSequence t)"
    and "term_ok R C (selectGraphicRendition t)"
proof -
  show c: "term_ok R C (clamp_argi t)" using assms by (simp add: ok_defs clamp_argi_def)
  then show "term_ok R C (selectGraphicRendition t)"
    by (rule core_ok) (simp add: selectGraphicRendition_def core_simps)
  show "term_ok R C (parseArg b t)" and "term_ok R C (startEscapeSequence t)"
    using assms by (simp_all add: ok_defs parseArg_def startEscapeSequence_def continueSequence_def finishSequence_def Let_def)
qed

lemma getArg_pos: "0 < d \<Longrightarrow> 0 < getArg i d True t"
  by (auto simp: getArg_def Let_def)

lemma margin_updates:
  assumes "term_ok R C t"
  shows "term_ok R C (setMargins t)" and "term_ok R C (setSideMargins t)"
proof -
  note d = term_okD [OF assms]
  let ?tp = "max 0 (min (getArg0 1 t - 1) (t_rows t - 2))"
  let ?bt = "max (?tp + 2) (min (getArg1 (t_rows t) t) (t_rows t))"
  have "term_ok R C (t\<lparr>t_top := ?tp, t_bottom := ?bt\<rparr>)" using assms d by (auto simp: ok_defs)
  then show "term_ok R C (setMargins t)" by (simp add: setMargins_def Let_def cursor_updates)
  let ?lf = "min (getArg0 1 t - 1) (t_cols t - 2)"
  let ?rt = "max (?lf + 1) (min (getArg1 (t_cols t) t) (t_cols t))"
  have "0 \<le> ?lf" using getArg_pos [of 1 0 t] d by simp
  then have "term_ok R C (t\<lparr>t_left := ?lf, t_right := ?rt\<rparr>)" using assms d by (auto simp: ok_defs)
  then show "term_ok R C (setSideMargins t)"
    using assms core_ok [OF assms core_ops(6)] by (simp add: setSideMargins_def Let_def cursor_updates)
qed

lemma reset_ok:
  assumes "term_ok R C t" and "int (length (ji_scheme J)) = NUM_INDEXED_COLORS"
  shows "returns (reset J t) (term_ok R C)"
proof -
  have "resetColors (ji_scheme J) (t_colors t) = Some (ji_scheme J)"
    using assms by (simp add: resetColors_ok ok_defs)
  then show ?thesis using assms
    by (simp add: reset_def Let_def setDefaultTabStops_def setBit_def say_def ok_defs reset_saved_def BIT_AUTOWRAP_def
        BIT_SHOWING_CURSOR_def BIT_MOUSE_PRESS_RELEASE_def BIT_MOUSE_BUTTON_EVENT_def)
qed

section \<open>Tab stops and lines\<close>

lemma next_tab_ok:
  "term_ok R C t \<Longrightarrow> 0 \<le> i \<Longrightarrow> i + int n = C \<Longrightarrow> returns (next_tab n i k t) (\<lambda>c. 0 \<le> c \<and> c < C)"
proof (induction n arbitrary: i k)
  case 0
  then show ?case using term_okD [OF 0(1)] by simp
next
  case (Suc n)
  have "int (length (t_tabs t)) = C" using Suc.prems(1) by (simp add: ok_defs)
  then have "aget (t_tabs t) i = Some (t_tabs t ! nat i)" using Suc.prems(2,3) by (simp add: aget_def)
  then show ?case using Suc term_okD [OF Suc.prems(1)] by auto
qed

lemma nextTabStop_ok:
  assumes "term_ok R C t"
  shows "returns (nextTabStop k t) (\<lambda>c. 0 \<le> c \<and> c < C)"
  using next_tab_ok [OF assms, of "t_col t + 1"] term_okD [OF assms] by (simp add: nextTabStop_def)

lemma prev_tab_ok:
  "term_ok R C t \<Longrightarrow> int n < C \<Longrightarrow> returns (prev_tab n k t) (\<lambda>c. 0 \<le> c \<and> c < C)"
proof (induction n arbitrary: k)
  case 0
  then show ?case using term_okD [OF 0(1)] by simp
next
  case (Suc n)
  have "int (length (t_tabs t)) = C" using Suc.prems(1) by (simp add: ok_defs)
  then have "aget (t_tabs t) (int n) = Some (t_tabs t ! n)" using Suc.prems(2) by (simp add: aget_def)
  then show ?case using Suc term_okD [OF Suc.prems(1)] by auto
qed

lemma scrollDownOneLine_ok:
  assumes "term_ok R C t"
  shows "returns (scrollDownOneLine t) (\<lambda>t'. term_ok R C t' \<and> t_bottom t' = t_bottom t \<and> t_row t' = t_row t \<and> t_col t' = t_col t \<and>
    t_right t' = t_right t \<and> t_left t' = t_left t)"
proof -
  define u where "u = t\<lparr>t_scrolled := jint (t_scrolled t + 1)\<rparr>"
  have u: "term_ok R C u" by (rule core_ok [OF assms]) (simp add: u_def core_simps)
  note d = term_okD [OF u]
  have eq: "scrollDownOneLine t = (if t_left u \<noteq> 0 \<or> t_right u \<noteq> t_cols u then do {
       t \<leftarrow> on_scr (blockCopy (t_left u) (t_top u + 1) (t_right u - t_left u) (t_bottom u - t_top u - 1) (t_left u) (t_top u)) u;
       on_scr (blockSet (t_left t) (t_bottom t - 1) (t_right t - t_left t) 1 32 (scast (t_effect t))) t }
     else on_scr (buf_scrollDownOneLine (t_top u) (t_bottom u) (getStyle u)) u)"
    unfolding scrollDownOneLine_def Let_def u_def by (rule refl)
  have f: "t_bottom t = t_bottom u" "t_row t = t_row u" "t_col t = t_col u" "t_right t = t_right u" "t_left t = t_left u"
    by (simp_all add: u_def)
  show ?thesis unfolding eq f using d space_facts u by (auto intro!: on_blockCopy on_blockSet on_scroll)
qed

lemma doLinefeed_ok:
  assumes "term_ok R C t"
  shows "returns (doLinefeed t) (term_ok R C)"
proof -
  note d = term_okD [OF assms]
  have "returns (do { t \<leftarrow> scrollDownOneLine t; Some (setCursorRow (t_bottom t - 1) t) }) (term_ok R C)"
    unfolding returns_simps using d
    by (intro returns_mono [OF scrollDownOneLine_ok [OF assms]]) (simp add: cursor_updates(3))
  moreover have "term_ok R C (setCursorRow (t_row t + 1) t)" if "t_row t + 1 < R"
    using that d cursor_updates(3) [OF assms] by simp
  ultimately show ?thesis using d assms by (simp add: doLinefeed_def Let_def)
qed

lemma scroll_n_ok: "term_ok R C t \<Longrightarrow> returns (scroll_n n t) (term_ok R C)"
  by (induction n arbitrary: t) (auto intro: returns_mono [OF scrollDownOneLine_ok])

end
