(* ===== verification/TermSafe.thy ===== *)
theory TermSafe
  imports TermInv
begin

text \<open>
  The handlers keep the invariant of the emulator. What a code point must meet for
  this is \<open>calm\<close>: each of its conditions excludes one way in which the code throws
  or leaves the screen.
\<close>

section \<open>Drawing\<close>

text \<open>
  A character that takes columns of its own: not combining, not joined to the
  previous one, and, if it is wide, not in the last column of the screen beyond a
  right margin.
\<close>

definition emit_safe :: "int \<Rightarrow> emul \<Rightarrow> bool" where
  "emit_safe codePoint t =
     (let c = drawn_cp codePoint t
      in drawn c \<and> 0 < width c \<and> \<not> joinsPreviousGrapheme (t_last_cp t) c \<and> \<not> (isRegionalIndicator c \<and> odd (t_regional t)) \<and>
         (width c = 2 \<longrightarrow> t_col t < t_cols t - 1 \<or> t_right t = t_cols t))"

lemma wrap_line_ok:
  assumes "term_ok R C t" and "w = 2 \<Longrightarrow> isBitSet BIT_AUTOWRAP t \<and> t_col t = t_right t - 1 \<or> t_col t < C - 1"
  shows "returns (wrap_line w t) (\<lambda>t'. term_ok R C t' \<and> (w = 2 \<longrightarrow> t_col t' < C - 1))"
proof -
  note d = term_okD [OF assms(1)]
  define u where "u b = (set_scr b t)\<lparr>t_col := t_left t\<rparr>" for b
  have u: "term_ok R C (u b)" if "term_ok R C (set_scr b t)" for b
    using cursor_updates(2) [OF that, of "t_left t"] d by (simp add: u_def)
  have "returns (if t_row (u b) + 1 < t_bottom (u b) then Some ((u b)\<lparr>t_row := t_row (u b) + 1\<rparr>) else scrollDownOneLine (u b))
      (\<lambda>t'. term_ok R C t' \<and> (w = 2 \<longrightarrow> t_col t' < C - 1))" if "term_ok R C (set_scr b t)" for b
  proof -
    have "t_col (u b) < C - 1" using d by (simp add: u_def)
    with cursor_updates(1) [OF u [OF that], of "t_row (u b) + 1"] term_okD [OF u [OF that]] show ?thesis
      by (auto intro: returns_mono [OF scrollDownOneLine_ok [OF u [OF that]]])
  qed
  then have "returns (do { t \<leftarrow> on_scr (setLineWrap (t_row t)) t; let t = t\<lparr>t_col := t_left t\<rparr>;
        if t_row t + 1 < t_bottom t then Some (t\<lparr>t_row := t_row t + 1\<rparr>) else scrollDownOneLine t })
      (\<lambda>t'. term_ok R C t' \<and> (w = 2 \<longrightarrow> t_col t' < C - 1))"
    unfolding returns_simps Let_def using d decor_screen(3) [OF term_ok_scr [OF assms(1)], of "t_row t"]
    by (intro returns_on_scr [OF assms(1)]) (simp_all only: u_def set_scr_fields)
  then show ?thesis using assms by (auto simp: wrap_line_def)
qed

lemma insert_room_ok:
  assumes "term_ok R C t" and "0 < w"
  shows "returns (insert_room w t) (\<lambda>t'. term_ok R C t' \<and> t_col t' = t_col t)"
  using assms term_okD [OF assms(1)] by (auto simp: insert_room_def Let_def intro!: on_blockCopy)

lemma draw_cell_ok:
  assumes "term_ok R C t" and "drawn cp" "0 < width cp" "width cp = 2 \<Longrightarrow> t_col t < C - 1"
  shows "returns (draw_cell cp (width cp) t) (\<lambda>t'. term_ok R C t' \<and> t_col t' = t_col t)"
proof -
  have link: "returns (if t_link u \<noteq> None then on_scr (buf_setHyperlink x (t_row u) (t_link u)) u else Some u)
      (\<lambda>t'. term_ok R C t' \<and> t_col t' = t_col u)" if "term_ok R C u" for u x
    using that term_okD [OF that] decor_screen(1) [OF term_ok_scr [OF that]] by (auto intro!: returns_on_scr [OF that])
  have ucolor: "returns (if t_ucolor u \<noteq> 0 then on_scr (setUnderlineColorAt x (t_row u) (t_ucolor u)) u else Some u)
      (\<lambda>t'. term_ok R C t' \<and> t_col t' = t_col u)" if "term_ok R C u" for u x
    using that term_okD [OF that] decor_screen(2) [OF term_ok_scr [OF that]] by (auto intro!: returns_on_scr [OF that])
  show ?thesis unfolding draw_cell_def returns_simps Let_def using assms term_okD [OF assms(1)]
    by (intro on_setChar [OF assms(1)] returns_mono [OF link] returns_mono [OF ucolor]) auto
qed

lemma advance_ok:
  assumes "term_ok R C t" and "0 < w"
  shows "term_ok R C (advance w a p t)"
  using assms by (auto simp: advance_def Let_def ok_defs)

lemma emit_ok:
  assumes "term_ok R C t" and "emit_safe cp t"
  shows "returns (emitCodePoint cp t) (term_ok R C)"
proof -
  define c where "c = drawn_cp cp t"
  define u where "u = t\<lparr>t_last_cp := cp, t_regional := (if isRegionalIndicator c then jint (t_regional t + 1) else 0)\<rparr>"
  have u: "term_ok R C u" by (rule core_ok [OF assms(1)]) (simp add: u_def core_simps)
  have c: "drawn c" "0 < width c" "width c = 2 \<Longrightarrow> t_col t < t_cols t - 1 \<or> t_right t = t_cols t"
    and w: "display_width c t = width c"
    using assms(2) by (auto simp: emit_safe_def Let_def c_def display_width_def)
  have f: "t_col u = t_col t" "t_right u = t_right t" "t_flags u = t_flags t" by (simp_all add: u_def)
  show ?thesis
  proof (cases "\<not> isBitSet BIT_AUTOWRAP t \<and> t_col t = t_right t - 1 \<and> width c = 2")
    case True
    then show ?thesis using u w f by (simp add: emitCodePoint_def Let_def c_def [symmetric] u_def [symmetric])
  next
    case False
    define p where "p = (c = 0xFE0F \<and> t_lastw u = 1 \<and> \<not> t_wrap u \<and> t_left u < t_col u \<and> t_col u < t_right u)"
    have "width c = 2 \<Longrightarrow> isBitSet BIT_AUTOWRAP u \<and> t_col u = t_right u - 1 \<or> t_col u < C - 1"
      using c(3) False f term_okD [OF assms(1)] by (auto simp: isBitSet_def)
    note wrap = wrap_line_ok [OF u this]
    have rest: "returns (do { t \<leftarrow> insert_room (width c) v; t \<leftarrow> draw_cell c (width c) t; Some (advance (width c) a p t) }) (term_ok R C)"
      if v: "term_ok R C v \<and> (width c = 2 \<longrightarrow> t_col v < C - 1)" for v a
    proof -
      have "returns (draw_cell c (width c) x) (\<lambda>x. term_ok R C (advance (width c) a p x))"
        if "term_ok R C x \<and> t_col x = t_col v" for x
        using that v c(1,2) draw_cell_ok [of R C x c] by (auto intro: returns_mono advance_ok)
      then show ?thesis using v insert_room_ok [of R C v "width c"] c(2) by (auto intro: returns_mono)
    qed
    have "returns (do { t \<leftarrow> wrap_line (width c) u; t \<leftarrow> insert_room (width c) t; t \<leftarrow> draw_cell c (width c) t;
        Some (advance (width c) a p t) }) (term_ok R C)" for a
      using returns_mono [OF wrap rest [of _ a]] by simp
    then show ?thesis using u
      by (simp add: emitCodePoint_def Let_def c_def [symmetric] u_def [symmetric] w f p_def)
  qed
qed

section \<open>Erasing, inserting and deleting\<close>

lemmas ok_simps [simp] = core_fields [THEN term_ok_core] core_ops [THEN term_ok_core] core_reports [THEN term_ok_core]

lemma eraseInDisplay_ok:
  assumes "term_ok R C t"
  shows "returns (eraseInDisplay t) (term_ok R C)"
  using assms term_okD [OF assms] clearTranscript_screen [OF term_ok_scr [OF assms]]
  by (auto simp: eraseInDisplay_def Let_def term_ok_set_scr intro!: on_blockClear)

lemma eraseInLine_ok:
  assumes "term_ok R C t"
  shows "returns (eraseInLine t) (term_ok R C)"
  using assms term_okD [OF assms] by (auto simp: eraseInLine_def Let_def intro!: on_blockClear)

lemma editLines_ok:
  assumes "term_ok R C t"
  shows "returns (editLines b t) (term_ok R C)"
proof -
  define n where "n = min (getArg0 1 t) (t_bottom t - t_row t)"
  have n: "n \<le> t_bottom t - t_row t" "0 \<le> t_row t + n" "t_bottom t - n \<le> R"
    using getArg_pos [of 1 0 t] term_okD [OF assms] by (auto simp: n_def min_def)
  show ?thesis using assms term_okD [OF assms] n
    by (auto simp: editLines_def Let_def n_def [symmetric] intro!: on_blockCopy on_blockClear)
qed

lemma editChars_ok:
  assumes "term_ok R C t"
  shows "returns (insertChars t) (term_ok R C)" and "returns (deleteChars t) (term_ok R C)" and "returns (eraseChars t) (term_ok R C)"
proof -
  have g: "getArg i d w (t\<lparr>t_wrap := x\<rparr>) = getArg i d w t" for i d w x by (simp add: getArg_def)
  note d = term_okD [OF assms] getArg_pos [of 1 0 t] space_facts
  show "returns (insertChars t) (term_ok R C)" and "returns (deleteChars t) (term_ok R C)"
    using assms d by (auto simp: insertChars_def deleteChars_def Let_def g intro!: on_blockCopy on_blockClear)
  show "returns (eraseChars t) (term_ok R C)"
    using assms d by (auto simp: eraseChars_def Let_def g intro!: on_blockSet)
qed

lemma scrollDown_ok:
  assumes "term_ok R C t"
  shows "returns (scrollDown t) (term_ok R C)"
  using assms term_okD [OF assms] getArg_pos [of 1 0 t]
  by (auto simp: scrollDown_def Let_def intro!: on_blockCopy on_blockClear)

lemma clearTab_ok:
  assumes "term_ok R C t"
  shows "returns (clearTab t) (term_ok R C)"
  using assms by (auto simp: clearTab_def Let_def aset_def ok_defs)

lemma editColumns_ok:
  assumes "term_ok R C t" and "b = chr ''~'' \<Longrightarrow> t_row t + (t_right t - t_col t) \<le> C"
  shows "returns (editColumns b t) (term_ok R C)"
proof -
  define n where "n = min (getArg0 1 t) (t_right t - t_col t)"
  have n: "n \<le> t_right t - t_col t" "0 \<le> t_col t + n" "t_right t - n \<le> C"
    using getArg_pos [of 1 0 t] term_okD [OF assms(1)] by (auto simp: n_def min_def)
  show ?thesis using assms term_okD [OF assms(1)] n
    by (auto simp: editColumns_def Let_def n_def [symmetric] intro!: on_blockCopy on_blockClear)
qed

section \<open>Rectangles\<close>

lemma fill_cols_ok:
  "screen_ok R C b \<Longrightarrow> 0 \<le> col \<Longrightarrow> col + int n \<le> C \<Longrightarrow> 0 \<le> row \<Longrightarrow> row < R \<Longrightarrow> drawn fc \<Longrightarrow> width fc = 1 \<Longrightarrow>
   returns (fill_cols n col row fc sel keep st b) (screen_ok R C)"
proof (induction n arbitrary: col b)
  case (Suc n)
  have rest: "returns (fill_cols n (col + 1) row fc sel keep st b') (screen_ok R C)" if "screen_ok R C b'" for b'
    using Suc that by simp
  have put: "returns (buf_setChar col row fc st' b') (\<lambda>b. returns (fill_cols n (col + 1) row fc sel keep st b) (screen_ok R C))"
    if "screen_ok R C b'" for st' b'
    using Suc.prems that by (intro returns_mono [OF setChar_screen rest]) auto
  show ?case
  proof (cases sel)
    case True
    have "returns (getStyleAt row col b) (\<lambda>(st', b'). screen_ok R C b')" using Suc.prems decor_screen(6) by simp
    then show ?thesis using True put rest by (auto elim!: returns_mono split: prod.splits)
  qed (use put Suc.prems in simp)
qed simp

lemma fill_rows_ok:
  "screen_ok R C b \<Longrightarrow> 0 \<le> col \<Longrightarrow> col + int w \<le> C \<Longrightarrow> 0 \<le> row \<Longrightarrow> row + int n \<le> R \<Longrightarrow> drawn fc \<Longrightarrow> width fc = 1 \<Longrightarrow>
   returns (fill_rows n w col row fc sel keep st b) (screen_ok R C)"
proof (induction n arbitrary: row b)
  case (Suc n)
  then show ?case by (auto intro!: returns_mono [OF fill_cols_ok [of R C b col w row fc sel keep st]])
qed simp

lemma on_fill_rows:
  assumes "term_ok R C t" and "0 \<le> col" "col + int w \<le> C" "0 \<le> row" "row + int n \<le> R" and "drawn fc" "width fc = 1"
  shows "returns (on_scr (fill_rows n w col row fc sel keep st) t) (term_ok R C)"
  using assms fill_rows_ok [OF term_ok_scr] by (intro returns_on_scr [OF assms(1)]) auto

lemma selective_erase_ok:
  assumes "term_ok R C t"
  shows "returns (selective_erase justRow t) (term_ok R C)"
  using assms term_okD [OF assms] space_facts
  by (auto simp: selective_erase_def Let_def intro!: on_fill_rows)

text \<open>No argument is so large that a sum with a margin wraps around.\<close>

definition small_args :: "emul \<Rightarrow> bool" where
  "small_args t = list_all (\<lambda>a. a \<le> 1000000000) (t_args t)"

lemma small_arg:
  assumes "small_args t" and "term_ok R C t" and "i < 16" and "d \<le> 1000000000"
  shows "getArg i d True t \<le> 1000000000"
  using assms by (auto simp: small_args_def list_all_length getArg_def Let_def ok_defs)

lemma effective:
  assumes "term_ok R C t"
  shows "0 \<le> eff_top t" "eff_top t \<le> R" "eff_bottom t \<le> R" "0 \<le> eff_left t" "eff_left t \<le> C" "eff_right t \<le> C"
    "eff_top t < eff_bottom t" "eff_left t < eff_right t"
  using term_okD [OF assms] by (auto simp: eff_top_def eff_bottom_def eff_left_def eff_right_def)

lemma copy_rectangle_ok:
  assumes "term_ok R C t" and "small_args t"
  shows "returns (copy_rectangle t) (term_ok R C)"
proof -
  note d = term_okD [OF assms(1)] effective [OF assms(1)]
  note small = small_arg [OF assms(2,1)]
  have a: "0 < getArg i d True t \<and> getArg i d True t \<le> 1000000000" if "i < 16" "0 < d" "d \<le> 1000000000" for i d
    using that small getArg_pos by simp
  have p: "0 < getArg 0 1 True t \<and> getArg 0 1 True t \<le> 1000000000" "0 < getArg 1 1 True t \<and> getArg 1 1 True t \<le> 1000000000"
    "0 < getArg 2 R True t \<and> getArg 2 R True t \<le> 1000000000" "0 < getArg 3 C True t \<and> getArg 3 C True t \<le> 1000000000"
    "0 < getArg 5 1 True t \<and> getArg 5 1 True t \<le> 1000000000" "0 < getArg 6 1 True t \<and> getArg 6 1 True t \<le> 1000000000"
    using a [of 0 1] a [of 1 1] a [of 2 R] a [of 3 C] a [of 5 1] a [of 6 1] d by simp_all
  define ts where "ts = min (getArg 0 1 True t - 1 + eff_top t) R"
  define ls where "ls = min (getArg 1 1 True t - 1 + eff_left t) C"
  define bs where "bs = min (max (getArg 2 R True t + eff_top t) ts) R"
  define rs where "rs = min (max (getArg 3 C True t + eff_left t) ls) C"
  define dt where "dt = min (getArg 5 1 True t - 1 + eff_top t) R"
  define dl where "dl = min (getArg 6 1 True t - 1 + eff_left t) C"
  have r: "0 \<le> ts" "ts \<le> R" "0 \<le> ls" "ls \<le> C" "ts \<le> bs" "bs \<le> R" "ls \<le> rs" "rs \<le> C" "0 \<le> dt" "dt \<le> R" "0 \<le> dl" "dl \<le> C"
    using p d by (simp_all add: ts_def ls_def bs_def rs_def dt_def dl_def)
  have j: "jint (getArg 0 1 True t - 1 + eff_top t) = getArg 0 1 True t - 1 + eff_top t"
    "jint (getArg 1 1 True t - 1 + eff_left t) = getArg 1 1 True t - 1 + eff_left t"
    "jint (getArg 2 R True t + eff_top t) = getArg 2 R True t + eff_top t"
    "jint (getArg 3 C True t + eff_left t) = getArg 3 C True t + eff_left t"
    "jint (getArg 5 1 True t - 1 + eff_top t) = getArg 5 1 True t - 1 + eff_top t"
    "jint (getArg 6 1 True t - 1 + eff_left t) = getArg 6 1 True t - 1 + eff_left t"
    "jint (C - dl) = C - dl" "jint (rs - ls) = rs - ls" "jint (R - dt) = R - dt" "jint (bs - ts) = bs - ts"
    using p d r by (simp_all add: jint_id)
  have "copy_rectangle t = on_scr (blockCopy ls ts (min (C - dl) (rs - ls)) (min (R - dt) (bs - ts)) dl dt) t"
    unfolding copy_rectangle_def Let_def d(1,2) j(1-6) ts_def [symmetric] ls_def [symmetric] bs_def [symmetric] rs_def [symmetric]
      dt_def [symmetric] dl_def [symmetric] j(7-10) by (rule refl)
  then show ?thesis using r by (auto intro!: on_blockCopy [OF assms(1)])
qed

lemma latin1_table: "list_all (\<lambda>c. width c = 1) ([32..126] @ [160..255])"
  by code_simp

lemma latin1_width: "32 \<le> c \<and> c \<le> 126 \<or> 160 \<le> c \<and> c \<le> 255 \<Longrightarrow> width c = 1"
  using latin1_table unfolding list_all_iff set_append set_upto by (auto simp del: upto.simps)

lemma fill_rectangle_ok:
  assumes "term_ok R C t" and "small_args t"
  shows "returns (fill_rectangle b t) (term_ok R C)"
proof -
  note d = term_okD [OF assms(1)] effective [OF assms(1)]
  have a: "0 < getArg i d True t \<and> getArg i d True t \<le> 1000000000" if "i < 16" "0 < d" "d \<le> 1000000000" for i d
    using that small_arg [OF assms(2,1)] getArg_pos by simp
  define fc where "fc = (if b \<noteq> chr ''x'' then 32 else getArg 0 (- 1) True t)"
  define i where "i = (if b \<noteq> chr ''x'' then 0 else 1 :: nat)"
  have i: "i < 2" by (simp add: i_def)
  have p: "0 < getArg i 1 True t \<and> getArg i 1 True t \<le> 1000000000" "0 < getArg (i + 1) 1 True t \<and> getArg (i + 1) 1 True t \<le> 1000000000"
    "0 < getArg (i + 2) R True t \<and> getArg (i + 2) R True t \<le> 1000000000" "0 < getArg (i + 3) C True t \<and> getArg (i + 3) C True t \<le> 1000000000"
    using a [of i 1] a [of "i + 1" 1] a [of "i + 2" R] a [of "i + 3" C] d i by simp_all
  define tp where "tp = min (getArg i 1 True t + eff_top t) (eff_bottom t + 1)"
  define lf where "lf = min (getArg (i + 1) 1 True t + eff_left t) (eff_right t + 1)"
  define bt where "bt = min (getArg (i + 2) R True t + eff_top t) (eff_bottom t)"
  define rt where "rt = min (getArg (i + 3) C True t + eff_left t) (eff_right t)"
  have r: "0 < tp" "tp \<le> R + 1" "0 < lf" "lf \<le> C + 1" "bt \<le> R" "rt \<le> C" using p d by (simp_all add: tp_def lf_def bt_def rt_def)
  have j: "jint (getArg i 1 True t + eff_top t) = getArg i 1 True t + eff_top t"
    "jint (getArg (i + 1) 1 True t + eff_left t) = getArg (i + 1) 1 True t + eff_left t"
    "jint (getArg (i + 2) R True t + eff_top t) = getArg (i + 2) R True t + eff_top t"
    "jint (getArg (i + 3) C True t + eff_left t) = getArg (i + 3) C True t + eff_left t"
    "jint (tp - 1) = tp - 1" "jint (lf - 1) = lf - 1"
    using p d r by (simp_all add: jint_id)
  have e: "fill_rectangle b t = (if 32 \<le> fc \<and> fc \<le> 126 \<or> 160 \<le> fc \<and> fc \<le> 255 then
      on_scr (fill_rows (nat (bt - (tp - 1))) (nat (rt - (lf - 1))) (lf - 1) (tp - 1) fc (b = chr ''{'')
        (b \<noteq> chr ''x'' \<and> b = chr ''{'') (getStyle t)) t else Some t)"
    unfolding fill_rectangle_def Let_def fc_def [symmetric] i_def [symmetric] d(1,2) j(1-4) tp_def [symmetric] lf_def [symmetric]
      bt_def [symmetric] rt_def [symmetric] j(5,6) by (rule refl)
  have "drawn fc \<and> width fc = 1" if "32 \<le> fc \<and> fc \<le> 126 \<or> 160 \<le> fc \<and> fc \<le> 255"
    using that latin1_width [OF that] by (auto simp: scalar_def is_cp_def VS16_def)
  moreover have "0 \<le> lf - 1" "lf - 1 + int (nat (rt - (lf - 1))) \<le> C" "0 \<le> tp - 1" "tp - 1 + int (nat (bt - (tp - 1))) \<le> R"
    using r by simp_all
  ultimately show ?thesis unfolding e using on_fill_rows [OF assms(1)] assms(1) by simp
qed

lemma change_attributes_ok:
  assumes "0 \<le> tp" "bt \<le> R" "0 \<le> lf" "rt \<le> C"
  shows "term_ok R C t \<Longrightarrow> returns (change_attributes n i rv tp lf bt rt t) (term_ok R C)"
proof (induction n arbitrary: i t)
  case (Suc n)
  have "returns (on_scr (setOrClearEffect bits s rv rect (eff_left t) (eff_right t) tp lf bt rt) t)
      (\<lambda>t. returns (change_attributes n (i + 1) rv tp lf bt rt t) (term_ok R C))" for bits s rect
    using assms effective [OF Suc.prems] Suc.IH
    by (intro returns_on_scr [OF Suc.prems] effect_screen [OF term_ok_scr [OF Suc.prems]]) auto
  then show ?case using Suc.IH [OF Suc.prems] by (auto split: prod.split)
qed simp

lemma attributes_rectangle_ok:
  assumes "term_ok R C t" and "small_args t" and "eff_bottom t - 1 + eff_top t \<le> R" and "eff_right t - 1 + eff_left t \<le> C"
  shows "returns (attributes_rectangle rv t) (term_ok R C)"
proof -
  note d = term_okD [OF assms(1)] effective [OF assms(1)]
  have a: "0 < getArg i d True t \<and> getArg i d True t \<le> 1000000000" if "i < 16" "0 < d" "d \<le> 1000000000" for i d
    using that small_arg [OF assms(2,1)] getArg_pos by simp
  show ?thesis using a [of 0 1] a [of 1 1] a [of 2 R] a [of 3 C] d assms args_updates(1) [OF assms(1)]
    by (auto simp: attributes_rectangle_def Let_def jint_id intro!: change_attributes_ok)
qed

end
