(* ===== verification/TermTotal.thy ===== *)
theory TermTotal
  imports TermSafe
begin

text \<open>
  Every sequence of bytes that meets \<open>calm\<close> is processed without an exception and
  keeps the invariant of the emulator.
\<close>

unbundle bit_operations_syntax

lemma returns_if: "(c \<Longrightarrow> returns m Q) \<Longrightarrow> (\<not> c \<Longrightarrow> returns n Q) \<Longrightarrow> returns (if c then m else n) Q"
  by simp

section \<open>Modes\<close>

lemma switch_screen_ok:
  assumes "term_ok R C t"
  shows "returns (switch_screen setting t) (term_ok R C)"
proof -
  note d = term_okD [OF assms]
  define s where "s = (if setting then t_altb t else t_main t)"
  have s: "b_cols s = t_cols t" "b_srows s = t_rows t" using assms by (auto simp: s_def term_ok_def screen_ok_def)
  have in_alt: "term_ok R C (saveCursor t\<lparr>t_alt := True\<rparr>)" using assms by simp
  have in_main: "term_ok R C (restoreCursor (t\<lparr>t_alt := False\<rparr>))" using assms restoreCursor_ok by simp
  have "t_cols (saveCursor t) = C" "t_rows (saveCursor t) = R" using d by (simp_all add: saveCursor_def Let_def)
  then have clear: "returns (on_scr (blockSet 0 0 (t_cols (saveCursor t)) (t_rows (saveCursor t)) 32 st) (saveCursor t\<lparr>t_alt := True\<rparr>)) (term_ok R C)"
    for st using space_facts by (auto intro!: on_blockSet [OF in_alt])
  show ?thesis
  proof (cases setting)
    case True
    then show ?thesis using s clear assms by (simp add: switch_screen_def s_def Let_def)
  next
    case False
    then show ?thesis using s in_main assms by (auto simp: switch_screen_def s_def Let_def)
  qed
qed

lemma doDecSetOrReset_ok:
  assumes "term_ok R C t"
  shows "returns (doDecSetOrReset J setting externalBit t) (term_ok R C)"
proof -
  define u where "u = (case mapDecSetBitToInternalBit externalBit of None \<Rightarrow> t | Some b \<Rightarrow> setBit b setting t)"
  have u: "term_ok R C u" using assms by (simp add: u_def split: option.split)
  note d = term_okD [OF u]
  define v where "v = setBit BIT_LEFTRIGHT_MARGIN_MODE False (u\<lparr>t_left := 0, t_top := 0, t_bottom := t_rows u, t_right := t_cols u\<rparr>)"
  have v: "term_ok R C v" using u d by (simp add: v_def) (auto simp: ok_defs)
  have wide: "term_ok R C (u\<lparr>t_left := 0, t_right := t_cols u\<rparr>)" using u d by (auto simp: ok_defs)
  have three: "returns (do { t \<leftarrow> blockClear 0 0 (t_cols v) (t_rows v) v; Some (setCursorRowCol 0 0 t) }) (term_ok R C)"
    using v term_okD [OF v] cursor_updates(5) by (auto intro!: on_blockClear)
  show ?thesis unfolding doDecSetOrReset_def u_def [symmetric] Let_def v_def [symmetric]
    using u three wide switch_screen_ok [OF u] restoreCursor_ok [OF u] cursor_updates(6) [OF u] by simp
qed

lemma set_modes_ok: "term_ok R C t \<Longrightarrow> returns (set_modes J n i setting t) (term_ok R C)"
  by (induction n arbitrary: i t) (auto intro: returns_mono [OF doDecSetOrReset_ok])

lemma recall_modes_ok: "term_ok R C t \<Longrightarrow> returns (recall_modes J n i saving t) (term_ok R C)"
proof (induction n arbitrary: i t)
  case (Suc n)
  have "returns (doDecSetOrReset J w x t) (\<lambda>t. returns (recall_modes J n (i + 1) saving t) (term_ok R C))" for w x
    by (rule returns_mono [OF doDecSetOrReset_ok [OF Suc.prems]]) (rule Suc.IH)
  moreover have "returns (recall_modes J n (i + 1) saving (t\<lparr>t_saved_flags := f\<rparr>)) (term_ok R C)" for f
    using Suc by simp
  ultimately show ?case using Suc by (auto simp: Let_def split: option.split)
qed simp

lemma doCsiQuestionMark_ok:
  assumes "term_ok R C t"
  shows "returns (doCsiQuestionMark J b t) (term_ok R C)"
  using assms selective_erase_ok [OF assms] args_updates [OF assms] set_modes_ok [of R C "clamp_argi t"] recall_modes_ok [of R C "clamp_argi t"]
  by (simp add: doCsiQuestionMark_def Let_def)

section \<open>Escape sequences\<close>

lemma doEsc_ok:
  assumes "term_ok R C t" and "int (length (ji_scheme J)) = NUM_INDEXED_COLORS"
  shows "returns (doEsc J b t) (term_ok R C)"
proof -
  note d = term_okD [OF assms(1)] space_facts
  have bwd: "returns (do { t \<leftarrow> on_scr (blockCopy (t_left t) (t_top t) (t_right t - t_left t - 1) (t_bottom t - t_top t) (t_left t + 1) (t_top t)) t;
      on_scr (blockSet (t_left t) (t_top t) 1 (t_bottom t' - t_top t') 32 (encode (t_fore t) (t_back t) 0)) t }) (term_ok R C)"
    if "t_bottom t' = t_bottom t" "t_top t' = t_top t" for t'
    using assms(1) d that by (auto intro!: on_blockCopy on_blockSet)
  have fwd: "returns (do { t \<leftarrow> on_scr (blockCopy (t_left t + 1) (t_top t) (t_right t - t_left t - 1) (t_bottom t - t_top t) (t_left t) (t_top t)) t;
      on_scr (blockSet (t_right t - 1) (t_top t) 1 (t_bottom t' - t_top t') 32 (encode (t_fore t) (t_back t) 0)) t }) (term_ok R C)"
    if "t_bottom t' = t_bottom t" "t_top t' = t_top t" for t'
    using assms(1) d that by (auto intro!: on_blockCopy on_blockSet)
  have ri: "returns (do { t \<leftarrow> on_scr (blockCopy 0 (t_top t) (t_cols t) (t_bottom t - (t_top t + 1)) 0 (t_top t + 1)) t;
      blockClear 0 (t_top t) (t_cols t) 1 t }) (term_ok R C)"
    using assms(1) d by (auto intro!: on_blockCopy on_blockClear)
  have ris: "returns (do { t \<leftarrow> reset J t; t \<leftarrow> blockClear 0 0 (t_cols t) (t_rows t) t; Some (setCursorPosition 0 0 t) }) (term_ok R C)"
    unfolding returns_simps
    by (rule returns_mono [OF reset_ok [OF assms]]) (auto dest: term_okD intro!: on_blockClear cursor_updates)
  have tab: "returns (do { tabs \<leftarrow> aset (t_tabs t) (t_col t) True; Some (t\<lparr>t_tabs := tabs\<rparr>) }) (term_ok R C)"
    using assms(1) by (auto simp: aset_def ok_defs)
  have nel: "returns (doLinefeed (setCursorCol (if isBitSet BIT_ORIGIN_MODE t then t_left t else 0) t)) (term_ok R C)"
    using d by (intro doLinefeed_ok cursor_updates(4) [OF assms(1)]) auto
  have cur: "t_left t < t_col t \<Longrightarrow> term_ok R C (t\<lparr>t_col := t_col t - 1\<rparr>)" "t_col t < t_right t - 1 \<Longrightarrow> term_ok R C (t\<lparr>t_col := t_col t + 1\<rparr>)"
    "\<not> t_row t \<le> t_top t \<Longrightarrow> term_ok R C (t\<lparr>t_row := t_row t - 1\<rparr>)"
    using d cursor_updates(1,2) [OF assms(1)] by auto
  show ?thesis
    unfolding doEsc_def Let_def
    by (intro returns_if bwd [OF refl refl] fwd [OF refl refl] ri ris tab nel doLinefeed_ok assms(1))
       (simp_all add: assms(1) cur restoreCursor_ok cursor_updates(5))
qed

section \<open>Control sequences\<close>

lemma cursor_moves_ok:
  assumes "term_ok R C t" and "b = chr ''B'' \<or> b = chr ''C'' \<or> b = chr ''a'' \<Longrightarrow> getArg0 1 t \<le> 1000000000"
  shows "returns (cursor_moves b t) (term_ok R C)"
proof -
  note d = term_okD [OF assms(1)] getArg_pos [of 1 0 t]
  note cur = cursor_updates [OF assms(1)]
  have ud: "term_ok R C (setCursorRow (max (t_top t) (t_row t - getArg0 1 t)) t)"
    "term_ok R C (setCursorCol (max (t_left t) (t_col t - getArg0 1 t)) t)"
    "term_ok R C (setCursorCol (min (max 1 (getArg0 1 t)) (t_cols t) - 1) t)"
    by (rule cur(3,4); use d in simp; fail)+
  have fw: "term_ok R C (setCursorRow (min (t_bottom t - 1) (jint (t_row t + getArg0 1 t))) t)"
    "term_ok R C (setCursorCol (min (t_right t - 1) (jint (t_col t + getArg0 1 t))) t)" if "getArg0 1 t \<le> 1000000000"
    by (rule cur(3,4); use d that in \<open>simp add: jint_id\<close>; fail)+
  have tb: "returns (do { c \<leftarrow> nextTabStop (getArg0 1 t) t; Some (setCursorCol c t) }) (term_ok R C)"
    using returns_mono [OF nextTabStop_ok [OF assms(1)]] cur(4) by simp
  show ?thesis unfolding cursor_moves_def
    by (intro returns_if tb) (use assms ud fw cur(6) in simp_all)
qed

text \<open>Repeating the last character: it is narrow and does not join itself.\<close>

definition repeat_safe :: "emul \<Rightarrow> bool" where
  "repeat_safe t =
     (let c = drawn_cp (t_last_cp t) t
      in drawn c \<and> width c = 1 \<and> \<not> joinsPreviousGrapheme (t_last_cp t) c \<and> \<not> isRegionalIndicator c)"

lemma repeat_safe_emit: "repeat_safe t \<Longrightarrow> emit_safe (t_last_cp t) t"
  by (simp add: repeat_safe_def emit_safe_def Let_def)

text \<open>What drawing a character leaves alone.\<close>

definition charset where
  "charset t = ((t_useg0 t, t_g0 t, t_g1 t, t_esc t, t_left t, t_utf8n t), t_last_cp t)"

lemma charset_on_scr: "on_scr f t = Some t' \<Longrightarrow> charset t' = charset t"
  by (auto simp: on_scr_def charset_def bind_eq_Some_conv)

lemma charset_scroll: "scrollDownOneLine t = Some t' \<Longrightarrow> charset t' = charset t"
  by (auto simp: scrollDownOneLine_def Let_def bind_eq_Some_conv dest!: charset_on_scr split: if_splits) (auto simp: charset_def)

lemma charset_emit:
  assumes "emitCodePoint cp t = Some t'"
  shows "charset t' = (fst (charset t), cp)"
proof -
  have wrap: "charset t' = charset t" if "wrap_line w t = Some t'" for w t t'
    using that by (auto simp: wrap_line_def Let_def bind_eq_Some_conv dest!: charset_on_scr charset_scroll split: if_splits)
      (auto simp: charset_def)
  have ins: "charset t' = charset t" if "insert_room w t = Some t'" for w t t'
    using that by (auto simp: insert_room_def Let_def dest!: charset_on_scr split: if_splits)
  have draw: "charset t' = charset t" if "draw_cell c w t = Some t'" for c w t t'
    using that by (auto simp: draw_cell_def Let_def bind_eq_Some_conv dest!: charset_on_scr split: if_splits)
  have adv: "charset (advance w a p t) = charset t" for w a p t by (simp add: advance_def Let_def charset_def)
  show ?thesis using assms
    by (auto simp: emitCodePoint_def Let_def bind_eq_Some_conv adv dest!: wrap ins draw split: if_splits) (auto simp: charset_def)
qed

lemma repeat_n_ok: "term_ok R C t \<Longrightarrow> repeat_safe t \<Longrightarrow> returns (repeat_n n t) (term_ok R C)"
proof (induction n arbitrary: t)
  case (Suc n)
  obtain t' where t': "emitCodePoint (t_last_cp t) t = Some t'" "term_ok R C t'"
    using emit_ok [OF Suc.prems(1) repeat_safe_emit [OF Suc.prems(2)]] by (auto simp: returns_def)
  have c: "t_last_cp t' = t_last_cp t" "drawn_cp x t' = drawn_cp x t" for x
    using charset_emit [OF t'(1)] by (simp_all add: drawn_cp_def charset_def)
  have "repeat_safe t'" using Suc.prems(2) by (simp add: repeat_safe_def c)
  then show ?case using t' Suc.IH by simp
qed simp

definition csi_calm :: "int \<Rightarrow> emul \<Rightarrow> bool" where
  "csi_calm b t \<longleftrightarrow>
     (b = chr ''B'' \<or> b = chr ''C'' \<or> b = chr ''a'' \<longrightarrow> getArg0 1 t \<le> 1000000000) \<and>
     (b = chr ''b'' \<longrightarrow> t_last_cp t = - 1 \<or> repeat_safe t)"

lemma doCsi_ok:
  assumes "term_ok R C t" and "csi_calm b t"
  shows "returns (doCsi J b t) (term_ok R C)"
proof -
  note ok = assms(1) and cur = cursor_updates [OF assms(1)]
  note d = term_okD [OF ok]
  have cbt: "returns (do { c \<leftarrow> prev_tab (nat (t_col t)) (getArg0 1 t) t; Some (t\<lparr>t_col := c\<rparr>) }) (term_ok R C)"
    using returns_mono [OF prev_tab_ok [OF ok]] cur(2) d by simp
  have vpa: "term_ok R C (setCursorRow (min (max 1 (getArg0 1 t)) (t_rows t) - 1) t)" by (rule cur(3); use d in simp)
  show ?thesis unfolding doCsi_def
    by (intro returns_if cbt editChars_ok [OF ok] eraseInDisplay_ok [OF ok] eraseInLine_ok [OF ok] editLines_ok [OF ok]
          scroll_n_ok [OF ok] scrollDown_ok [OF ok] clearTab_ok [OF ok] cursor_moves_ok [OF ok] repeat_n_ok [OF ok])
       (use assms vpa cur(6) margin_updates [OF ok] args_updates [OF ok] restoreCursor_ok [OF ok] in
         \<open>simp_all add: csi_calm_def\<close>)
qed

section \<open>Strings\<close>

lemma set_colors_ok:
  "term_ok R C t \<Longrightarrow> length cs = length (t_colors t) \<Longrightarrow> term_ok R C (say e (t\<lparr>t_colors := cs\<rparr>))"
  by (simp add: ok_defs say_def)

lemma term_ok_colors: "term_ok R C t \<Longrightarrow> int (length (t_colors t)) = NUM_INDEXED_COLORS"
  by (simp add: ok_defs)

lemma tryParse_ok:
  assumes "term_ok R C t" and "0 \<le> i" "i < NUM_INDEXED_COLORS"
  obtains cs where "tryParseColor J i s (t_colors t) = Some cs" and "term_ok R C (say e (t\<lparr>t_colors := cs\<rparr>))"
  using tryParseColor_ok [OF term_ok_colors [OF assms(1)] assms(2,3)] set_colors_ok [OF assms(1)] by metis

lemma osc4_ok:
  assumes "term_ok R C t" and "0 \<le> i" "i \<le> int (length text)" and "pairStart \<le> i"
  shows "returns (osc4 J text i colorIndex pairStart t) (term_ok R C)"
  using assms
proof (induction "nat (int (length text) + 1 - i)" arbitrary: i colorIndex pairStart t rule: less_induct)
  case less
  have rec: "returns (osc4 J text (i + 1) ci ps u) (term_ok R C)" if "term_ok R C u" "i < int (length text)" "ps \<le> i + 1" for u ci ps
    using that less.prems by (intro less.hyps) auto
  have sub: "substring text pairStart i = Some (take (nat (i - pairStart)) (drop (nat pairStart) text))" if "0 \<le> pairStart"
    using that less.prems by (simp add: substring_def)
  have col: "\<exists>cs. tryParseColor J colorIndex s (t_colors t) = Some cs \<and> term_ok R C (say e (t\<lparr>t_colors := cs\<rparr>))"
    if "\<not> (colorIndex < 0 \<or> 255 < colorIndex)" for s e
    using that tryParse_ok [OF less.prems(1), of colorIndex J s e] by (auto simp: NUM_INDEXED_COLORS_def)
  show ?case
  proof (cases "0 \<le> pairStart \<and> \<not> (colorIndex < 0 \<or> 255 < colorIndex)")
    case True
    with sub col [of "take (nat (i - pairStart)) (drop (nat pairStart) text)" ColorsChanged] obtain cs where
      "substring text pairStart i = Some (take (nat (i - pairStart)) (drop (nat pairStart) text))"
      "tryParseColor J colorIndex (take (nat (i - pairStart)) (drop (nat pairStart) text)) (t_colors t) = Some cs"
      "term_ok R C (say ColorsChanged (t\<lparr>t_colors := cs\<rparr>))" by blast
    then show ?thesis using less.prems True rec by (subst osc4.simps) (auto simp: Let_def)
  next
    case False
    then show ?thesis using less.prems rec by (subst osc4.simps) (auto simp: Let_def)
  qed
qed

lemma osc_special_ok:
  assumes "term_ok R C t" and "0 \<le> lastSemi" "lastSemi \<le> i" "i \<le> int (length text)" and "256 \<le> k" "k \<le> 258"
  shows "returns (osc_special J v st text i lastSemi k t) (term_ok R C)"
  using assms
proof (induction "nat (int (length text) + 1 - i)" arbitrary: i lastSemi k t rule: less_induct)
  case less
  define s where "s = take (nat (i - lastSemi)) (drop (nat lastSemi) text)"
  have sub: "substring text lastSemi i = Some s" using less.prems by (simp add: substring_def s_def)
  have "nat k < length (t_colors t)" using term_ok_colors [OF less.prems(1)] less.prems by (simp add: NUM_INDEXED_COLORS_def)
  then have get: "aget (t_colors t) k = Some (t_colors t ! nat k)" using less.prems by (simp add: aget_def)
  obtain cs where cs: "tryParseColor J k s (t_colors t) = Some cs" "term_ok R C (say ColorsChanged (t\<lparr>t_colors := cs\<rparr>))"
    using tryParse_ok [OF less.prems(1), of k J s ColorsChanged] less.prems by (auto simp: NUM_INDEXED_COLORS_def)
  have more: "returns (osc_special J v st text (i + 2) (i + 1) (k + 1) u) (term_ok R C)"
    if "term_ok R C u" "\<not> uint COLOR_CURSOR < k + 1" "\<not> int (length text) \<le> i + 1" for u
    using that less.prems by (intro less.hyps) (auto simp: COLOR_CURSOR_def)
  have step: "returns (osc_special J v st text (i + 1) lastSemi k t) (term_ok R C)" if "i \<noteq> int (length text)"
    using that less.prems by (intro less.hyps) auto
  show ?case using less.prems more step get cs by (subst osc_special.simps) (simp add: Let_def sub)
qed

text \<open>OSC 104 is safe without parameters.\<close>

definition osc_calm :: "emul \<Rightarrow> bool" where
  "osc_calm t = (case osc_value (t_osc t) (- 1) of None \<Rightarrow> True | Some (v, text) \<Rightarrow> v = 104 \<longrightarrow> text = [])"

lemma doOscSetTextParameters_ok:
  assumes "term_ok R C t" and "int (length (ji_scheme J)) = NUM_INDEXED_COLORS" and "osc_calm t"
  shows "returns (doOscSetTextParameters J st t) (term_ok R C)"
proof (cases "osc_value (t_osc t) (- 1)")
  case None
  then show ?thesis using assms(1) by (simp add: doOscSetTextParameters_def)
next
  case (Some p)
  obtain v tx where p: "p = (v, tx)" by fastforce
  have four: "returns (osc4 J tx 0 (- 1) (- 1) t) (term_ok R C)" using assms(1) by (intro osc4_ok) auto
  have ten: "returns (osc_special J v st tx 0 0 (uint COLOR_FOREGROUND + (v - 10)) t) (term_ok R C)" if "v = 10 \<or> v = 11 \<or> v = 12"
    using that assms(1) by (intro osc_special_ok) (auto simp: COLOR_FOREGROUND_def)
  have all: "returns (do { colors \<leftarrow> resetColors (ji_scheme J) (t_colors t); Some (say ColorsChanged (t\<lparr>t_colors := colors\<rparr>)) }) (term_ok R C)"
    using resetColors_ok [OF assms(2) term_ok_colors [OF assms(1)]] set_colors_ok [OF assms(1)] assms term_ok_colors [OF assms(1)] by simp
  have one: "returns (do { colors \<leftarrow> resetIndex J (uint COLOR_FOREGROUND + (v - 110)) (t_colors t);
      Some (say ColorsChanged (t\<lparr>t_colors := colors\<rparr>)) }) (term_ok R C)" if "v = 110 \<or> v = 111 \<or> v = 112"
  proof -
    have "0 \<le> uint COLOR_FOREGROUND + (v - 110)" "uint COLOR_FOREGROUND + (v - 110) < NUM_INDEXED_COLORS"
      using that by (auto simp: COLOR_FOREGROUND_def NUM_INDEXED_COLORS_def)
    then obtain cs where "resetIndex J (uint COLOR_FOREGROUND + (v - 110)) (t_colors t) = Some cs" "length cs = length (t_colors t)"
      using resetIndex_ok [OF term_ok_colors [OF assms(1)] assms(2)] by blast
    then show ?thesis using set_colors_ok [OF assms(1)] by simp
  qed
  have clip: "returns (case x of None \<Rightarrow> Some t | Some c \<Rightarrow> Some (say (ClipboardText c) t)) (term_ok R C)" for x
    using assms(1) by (simp split: option.split)
  have empty: "v = 104 \<Longrightarrow> tx = []" using assms(3) Some p by (simp add: osc_calm_def)
  show ?thesis unfolding doOscSetTextParameters_def Some p option.case prod.case returns_simps core_ops [THEN term_ok_core] Let_def
    by (intro returns_if four ten all one clip) (use assms(1) empty in simp_all)
qed

lemma doOsc_ok:
  assumes "term_ok R C t" and "int (length (ji_scheme J)) = NUM_INDEXED_COLORS" and "b = 7 \<Longrightarrow> osc_calm t"
  shows "returns (doOsc J b t) (term_ok R C)"
  using assms doOscSetTextParameters_ok [OF assms(1,2)] by (simp add: doOsc_def)

lemma doOscEsc_ok:
  assumes "term_ok R C t" and "int (length (ji_scheme J)) = NUM_INDEXED_COLORS" and "b = 92 \<Longrightarrow> osc_calm t"
  shows "returns (doOscEsc J b t) (term_ok R C)"
  using assms doOscSetTextParameters_ok [OF assms(1,2)] by (simp add: doOscEsc_def)

lemma image_cols_ok: "term_ok R C t \<Longrightarrow> 0 \<le> startCol \<Longrightarrow> 0 \<le> c \<Longrightarrow> returns (image_cols n i startCol c r t) (term_ok R C)"
proof (induction n arbitrary: c t)
  case (Suc n)
  have "returns (on_scr (buf_setChar (startCol + c) (t_row t) 32 st) t) (\<lambda>t. returns (image_cols n i startCol (c + 1) r t) (term_ok R C))"
    if "startCol + c < t_cols t" for st
    using Suc that term_okD [OF Suc.prems(1)] space_facts by (intro on_setChar [OF Suc.prems(1)]) auto
  then show ?case using Suc.prems(1) by simp
qed simp

lemma image_rows_ok: "term_ok R C t \<Longrightarrow> 0 \<le> startCol \<Longrightarrow> returns (image_rows n i startCol cols r t) (term_ok R C)"
proof (induction n arbitrary: r t)
  case (Suc n)
  show ?case unfolding image_rows.simps returns_simps
    by (rule returns_mono [OF image_cols_ok [OF Suc.prems]], simp, rule returns_mono [OF doLinefeed_ok]) (use Suc in auto)
qed simp

lemma processSixel_ok:
  assumes "term_ok R C t"
  shows "returns (processSixel J dcs t) (term_ok R C)"
proof -
  obtain image where i: "sixel_decode J (drop (nat (sixelIntroducerIndex dcs + 1)) dcs) = Some image"
    using sixel_decode_ok by blast
  have draw: "returns (do { t \<leftarrow> image_rows n k (t_col t) cols 0 u; Some (setCursorCol (min (t_col t') (t_cols t - 1)) t) }) (term_ok R C)"
    if "term_ok R C u" "t_col t' = t_col t" for n k cols u t'
    unfolding returns_simps
  proof (rule returns_mono [OF image_rows_ok [OF that(1)]])
    show "0 \<le> t_col t" using term_okD [OF assms] by simp
    fix x assume x: "term_ok R C x"
    then show "term_ok R C (setCursorCol (min (t_col t') (t_cols x - 1)) x)"
      using term_okD [OF x] term_okD [OF assms] that(2) by (intro cursor_updates(4)) auto
  qed
  show ?thesis using draw [OF _ refl] assms by (simp add: processSixel_def Let_def i registerBitmap_def split: option.split)
qed

definition dcs_calm :: "jvm \<Rightarrow> emul \<Rightarrow> bool" where
  "dcs_calm J t \<longleftrightarrow>
     (startsWith (t_osc t) (ascii ''+q'') \<longrightarrow>
      list_all (\<lambda>p. odd (length p) \<or> hex_pairs J p \<noteq> None) (split_semicolon (drop 2 (t_osc t))))"

lemma termcap_requests_ok:
  "term_ok R C t \<Longrightarrow> list_all (\<lambda>p. odd (length p) \<or> hex_pairs J p \<noteq> None) parts \<Longrightarrow> returns (termcap_requests J parts t) (term_ok R C)"
  by (induction parts arbitrary: t) (auto simp: Let_def)

lemma doDeviceControl_ok:
  assumes "term_ok R C t" and "b = 92 \<Longrightarrow> dcs_calm J t"
  shows "returns (doDeviceControl J b t) (term_ok R C)"
  using assms processSixel_ok [OF assms(1)] termcap_requests_ok [OF assms(1)]
  by (simp add: doDeviceControl_def Let_def dcs_calm_def)

section \<open>Code points and bytes\<close>

lemma backspace_ok:
  assumes "term_ok R C t" and "\<not> (t_col t = 0 \<and> t_left t \<noteq> 0)"
  shows "returns (backspace t) (term_ok R C)"
proof -
  note d = term_okD [OF assms(1)]
  have "returns (getLineWrap (t_row t - 1) (scr t)) (\<lambda>w. returns (if w then do {
      t' \<leftarrow> on_scr (clearLineWrap (t_row t - 1)) t; Some (setCursorRowCol (t_row t - 1) (t_right t' - 1) t') } else Some t) (term_ok R C))"
    if "0 \<le> t_row t - 1"
    using that assms(1) d decor_screen(4,5) [OF term_ok_scr [OF assms(1)], of "t_row t - 1"] cursor_updates(5)
    by (auto elim!: returns_mono intro!: returns_on_scr [OF assms(1)])
  then show ?thesis using assms d cursor_updates(4) [OF assms(1), of "t_col t - 1"] by (auto simp: backspace_def Let_def)
qed

text \<open>
  The conditions on a code point. They exclude combining and joined characters, CAN
  and SUB inside a sequence (they draw DEL as a combining character), a backspace at
  column 0 left of the left margin, movements and rectangles whose numbers wrap
  around, DECDC with the cursor's row out of the range of its column, DECCARA with a
  rectangle of the origin mode that leaves the screen, OSC 104 with parameters and
  termcap requests that are not hexadecimal.
\<close>

definition dollar_calm :: "int \<Rightarrow> emul \<Rightarrow> bool" where
  "dollar_calm b t \<longleftrightarrow> small_args t \<and>
     (b = chr ''r'' \<or> b = chr ''t'' \<longrightarrow> eff_bottom t - 1 + eff_top t \<le> t_rows t \<and> eff_right t - 1 + eff_left t \<le> t_cols t)"

definition calm :: "jvm \<Rightarrow> int \<Rightarrow> emul \<Rightarrow> bool" where
  "calm J b t \<longleftrightarrow>
     (if b = 7 then t_esc t = ESC_OSC \<longrightarrow> osc_calm t
      else if b = 8 then \<not> (t_col t = 0 \<and> t_left t \<noteq> 0)
      else if b = 24 \<or> b = 26 then t_esc t = ESC_NONE
      else case t_esc t of
        ESC_NONE \<Rightarrow> 32 \<le> b \<longrightarrow> emit_safe b t
      | ESC_CSI \<Rightarrow> csi_calm b t
      | ESC_CSI_DOLLAR \<Rightarrow> dollar_calm b t
      | ESC_CSI_SINGLE_QUOTE \<Rightarrow> b = chr ''~'' \<longrightarrow> t_row t + (t_right t - t_col t) \<le> t_cols t
      | ESC_OSC_ESC \<Rightarrow> b = 92 \<longrightarrow> osc_calm t
      | ESC_P \<Rightarrow> b = 92 \<longrightarrow> dcs_calm J t
      | _ \<Rightarrow> True)"

lemma getArg_continue: "getArg i d w (t\<lparr>t_continue := x\<rparr>) = getArg i d w t"
  by (simp add: getArg_def)

lemma calm_continue [simp]:
  "emit_safe b (t\<lparr>t_continue := x\<rparr>) = emit_safe b t" "csi_calm b (t\<lparr>t_continue := x\<rparr>) = csi_calm b t"
  "dollar_calm b (t\<lparr>t_continue := x\<rparr>) = dollar_calm b t" "osc_calm (t\<lparr>t_continue := x\<rparr>) = osc_calm t"
  "dcs_calm J (t\<lparr>t_continue := x\<rparr>) = dcs_calm J t"
  by (simp_all add: emit_safe_def csi_calm_def dollar_calm_def osc_calm_def dcs_calm_def repeat_safe_def small_args_def drawn_cp_def
      eff_top_def eff_bottom_def eff_left_def eff_right_def isBitSet_def getArg_continue Let_def)

lemma doCsiDollar_ok:
  assumes "term_ok R C t" and "dollar_calm b t"
  shows "returns (doCsiDollar b t) (term_ok R C)"
  using assms copy_rectangle_ok [OF assms(1)] fill_rectangle_ok [OF assms(1)] attributes_rectangle_ok [OF assms(1)] term_okD(1,2) [OF assms(1)]
  by (auto simp: doCsiDollar_def dollar_calm_def)

lemma in_sequence_ok:
  assumes "term_ok R C t" and "int (length (ji_scheme J)) = NUM_INDEXED_COLORS"
    and "calm J b t" and "b \<noteq> 7" "b \<noteq> 8" "b \<noteq> 24" "b \<noteq> 26"
  shows "returns (in_sequence J b (t\<lparr>t_continue := False\<rparr>)) (term_ok R C)"
proof -
  define u where "u = t\<lparr>t_continue := False\<rparr>"
  have u: "term_ok R C u" using assms(1) by (simp add: u_def)
  have k: "t_esc u = t_esc t" "t_row u = t_row t" "t_col u = t_col t" "t_right u = t_right t" "t_cols u = t_cols t" by (simp_all add: u_def)
  have c: "emit_safe b u = emit_safe b t" "csi_calm b u = csi_calm b t" "dollar_calm b u = dollar_calm b t" "osc_calm u = osc_calm t"
    "dcs_calm J u = dcs_calm J t" by (simp_all add: u_def)
  have e: "returns (doEscPound b u) (term_ok R C)"
    using u term_okD [OF u] latin1_width [of 69] by (auto simp: doEscPound_def scalar_def is_cp_def VS16_def intro!: on_blockSet)
  note facts = emit_ok [OF u] doEsc_ok [OF u assms(2)] doCsi_ok [OF u] reset_ok [OF u assms(2)] doCsiQuestionMark_ok [OF u]
    doCsiDollar_ok [OF u] editColumns_ok [OF u] doOsc_ok [OF u assms(2)] doOscEsc_ok [OF u assms(2)] doDeviceControl_ok [OF u]
  have "returns (in_sequence J b u) (term_ok R C)"
  proof (cases "t_esc t")
    case ESC_CSI_BIGGERTHAN
    then show ?thesis using u args_updates(2) [OF u] by (simp add: in_sequence_def k doCsiBiggerThan_def)
  next
    case ESC_CSI_SINGLE_QUOTE
    then show ?thesis using assms(3-) facts(7) term_okD(2) [OF u] by (simp add: in_sequence_def k calm_def)
  qed (use u e assms(3-) facts in \<open>simp_all add: in_sequence_def k c calm_def\<close>)
  then show ?thesis by (simp add: u_def)
qed

lemma processCodePoint_ok:
  assumes "term_ok R C t" and "int (length (ji_scheme J)) = NUM_INDEXED_COLORS" and "calm J b t"
  shows "returns (processCodePoint J b t) (term_ok R C)"
proof -
  have tab: "returns (do { c \<leftarrow> nextTabStop 1 t; Some (t\<lparr>t_col := c\<rparr>) }) (term_ok R C)"
    using returns_mono [OF nextTabStop_ok [OF assms(1)]] cursor_updates(2) [OF assms(1)] by simp
  have cr: "term_ok R C (setCursorCol (t_left t) t)" by (rule cursor_updates(4) [OF assms(1)]; use term_okD [OF assms(1)] in simp)
  have seq: "returns (do { t \<leftarrow> in_sequence J b (t\<lparr>t_continue := False\<rparr>); Some (if \<not> t_continue t then t\<lparr>t_esc := ESC_NONE\<rparr> else t) })
      (term_ok R C)" if "b \<noteq> 7" "b \<noteq> 8" "b \<noteq> 24" "b \<noteq> 26"
    using returns_mono [OF in_sequence_ok [OF assms that]] by simp
  show ?thesis unfolding processCodePoint_def
    by (intro returns_if tab doLinefeed_ok backspace_ok doOsc_ok seq assms(1,2))
       (use assms cr args_updates(3) [OF assms(1)] in \<open>simp_all add: calm_def\<close>)
qed

definition calm_first :: "jvm \<Rightarrow> int \<Rightarrow> emul \<Rightarrow> bool" where
  "calm_first J b t \<longleftrightarrow>
     (if b AND 128 = 0 then calm J b t
      else b AND 224 = 192 \<or> b AND 240 = 224 \<or> b AND 248 = 240 \<or> calm J UNICODE_REPLACEMENT_CHAR t)"

definition calm_byte :: "jvm \<Rightarrow> int \<Rightarrow> emul \<Rightarrow> bool" where
  "calm_byte J b t \<longleftrightarrow>
     (if 0 < t_utf8n t then
        (if b AND 192 = 128 then
           t_utf8n t = 1 \<longrightarrow>
             (case decoded J (take (nat (t_utf8i t + 1)) ((t_utf8 t)[nat (t_utf8i t) := b])) of None \<Rightarrow> True | Some cp \<Rightarrow> calm J cp t)
         else emit_safe UNICODE_REPLACEMENT_CHAR t \<and>
           (case emitCodePoint UNICODE_REPLACEMENT_CHAR (t\<lparr>t_utf8i := 0, t_utf8n := 0\<rparr>) of
              None \<Rightarrow> True | Some t' \<Rightarrow> calm_first J b t'))
      else calm_first J b t)"

lemma calm_utf8 [simp]:
  "emit_safe b (t\<lparr>t_utf8 := x, t_utf8i := y, t_utf8n := z\<rparr>) = emit_safe b t"
  "emit_safe b (t\<lparr>t_utf8i := y, t_utf8n := z\<rparr>) = emit_safe b t"
  "calm J b (t\<lparr>t_utf8 := x, t_utf8i := y, t_utf8n := z\<rparr>) = calm J b t"
  by (simp_all add: calm_def emit_safe_def csi_calm_def dollar_calm_def osc_calm_def dcs_calm_def repeat_safe_def small_args_def drawn_cp_def
      eff_top_def eff_bottom_def eff_left_def eff_right_def isBitSet_def getArg_def Let_def cong: esc_state.case_cong)

lemma term_ok_utf8:
  assumes "term_ok R C t" and "length x = 4" and "0 \<le> n" and "0 \<le> i" and "i + n \<le> 4" and "n = 0 \<longrightarrow> i = 0"
  shows "term_ok R C (t\<lparr>t_utf8 := x, t_utf8i := i, t_utf8n := n\<rparr>)"
  using assms by (simp add: ok_defs)

lemma first_byte_ok:
  assumes "term_ok R C t" and "int (length (ji_scheme J)) = NUM_INDEXED_COLORS" and "calm_first J b t" and "t_utf8n t = 0"
  shows "returns (first_byte J b t) (term_ok R C)"
proof -
  have u: "length (t_utf8 t) = 4" "t_utf8i t = 0" using assms(1,4) by (simp_all add: ok_defs)
  have start: "returns (do { buf \<leftarrow> aset (t_utf8 t) (t_utf8i t) b; Some (t\<lparr>t_utf8n := n, t_utf8 := buf, t_utf8i := t_utf8i t + 1\<rparr>) })
      (term_ok R C)" if "0 < n" "n \<le> 3" for n
    using u assms(1) that by (simp add: aset_def ok_defs)
  show ?thesis unfolding first_byte_def Let_def
    by (intro returns_if processCodePoint_ok start assms(1,2)) (use assms(3) in \<open>simp_all add: calm_first_def\<close>)
qed

lemma emit_fresh: "emitCodePoint cp t = Some t' \<Longrightarrow> t_utf8n t' = t_utf8n t"
  using charset_emit by (fastforce simp: charset_def)

lemma processByte_ok:
  assumes "term_ok R C t" and "int (length (ji_scheme J)) = NUM_INDEXED_COLORS" and "calm_byte J b t"
  shows "returns (processByte J b t) (term_ok R C)"
proof (cases "0 < t_utf8n t")
  case False
  then have "t_utf8n t = 0" using assms(1) by (simp add: ok_defs)
  then show ?thesis using first_byte_ok [OF assms(1,2)] assms(3) by (simp add: processByte_def calm_byte_def)
next
  case pending: True
  have u: "length (t_utf8 t) = 4" "0 \<le> t_utf8i t" "t_utf8i t + t_utf8n t \<le> 4" using assms(1) by (simp_all add: ok_defs)
  have z: "term_ok R C (t\<lparr>t_utf8i := 0, t_utf8n := 0\<rparr>)" using assms(1) by (simp add: ok_defs)
  show ?thesis
  proof (cases "b AND 192 = 128")
    case True
    define buf where "buf = (t_utf8 t)[nat (t_utf8i t) := b]"
    have set: "aset (t_utf8 t) (t_utf8i t) b = Some buf" using u pending by (simp add: aset_def buf_def)
    have len: "length buf = 4" using u by (simp add: buf_def)
    have zb: "term_ok R C (t\<lparr>t_utf8 := buf, t_utf8i := 0, t_utf8n := 0\<rparr>)" using assms(1) len by (simp add: term_ok_utf8)
    have more: "term_ok R C (t\<lparr>t_utf8 := buf, t_utf8i := t_utf8i t + 1, t_utf8n := t_utf8n t - 1\<rparr>)" if "t_utf8n t \<noteq> 1"
      using that u len pending by (intro term_ok_utf8 [OF assms(1)]) auto
    have "returns (processCodePoint J cp (t\<lparr>t_utf8 := buf, t_utf8i := 0, t_utf8n := 0\<rparr>)) (term_ok R C)" if "calm J cp t" for cp
      using that processCodePoint_ok [OF zb assms(2)] by simp
    then show ?thesis using pending True assms(3) zb more
      by (auto simp: processByte_def calm_byte_def set buf_def [symmetric] Let_def split: option.splits)
  next
    case False
    have "emit_safe UNICODE_REPLACEMENT_CHAR t" using pending False assms(3) by (simp add: calm_byte_def)
    then obtain t' where t': "emitCodePoint UNICODE_REPLACEMENT_CHAR (t\<lparr>t_utf8i := 0, t_utf8n := 0\<rparr>) = Some t'" "term_ok R C t'"
      using emit_ok [OF z] by (auto simp: returns_def)
    then show ?thesis using pending False assms(3) first_byte_ok [OF t'(2) assms(2)] emit_fresh [OF t'(1)]
      by (simp add: processByte_def calm_byte_def)
  qed
qed

section \<open>Runs\<close>

text \<open>A machine that reads inputs, with an invariant and a condition on the inputs under which it goes on.\<close>

primrec run_steps :: "('b \<Rightarrow> 's \<Rightarrow> 's option) \<Rightarrow> 'b list \<Rightarrow> 's \<Rightarrow> 's option" where
  "run_steps step [] s = Some s"
| "run_steps step (b # bs) s = do { s \<leftarrow> step b s; run_steps step bs s }"

primrec safe_steps :: "('b \<Rightarrow> 's \<Rightarrow> 's option) \<Rightarrow> ('b \<Rightarrow> 's \<Rightarrow> bool) \<Rightarrow> 'b list \<Rightarrow> 's \<Rightarrow> bool" where
  "safe_steps step safe [] s = True"
| "safe_steps step safe (b # bs) s \<longleftrightarrow> safe b s \<and> (case step b s of None \<Rightarrow> True | Some s' \<Rightarrow> safe_steps step safe bs s')"

locale machine =
  fixes step :: "'b \<Rightarrow> 's \<Rightarrow> 's option" and safe :: "'b \<Rightarrow> 's \<Rightarrow> bool" and inv :: "'s \<Rightarrow> bool"
  assumes progress: "inv s \<Longrightarrow> safe b s \<Longrightarrow> returns (step b s) inv"
begin

lemma run_ok: "inv s \<Longrightarrow> safe_steps step safe bs s \<Longrightarrow> returns (run_steps step bs s) inv"
proof (induction bs arbitrary: s)
  case (Cons b bs)
  then obtain s' where "step b s = Some s'" "inv s'" using progress [of s b] by (auto simp: returns_def)
  then show ?case using Cons by simp
qed simp

lemma always_safe: "inv s \<Longrightarrow> (\<And>b s. b \<in> set bs \<Longrightarrow> inv s \<Longrightarrow> safe b s) \<Longrightarrow> safe_steps step safe bs s"
proof (induction bs arbitrary: s)
  case (Cons b bs)
  then obtain s' where "step b s = Some s'" "inv s'" using progress [of s b] by (fastforce simp: returns_def)
  then show ?case using Cons by simp
qed simp

end

interpretation emu: machine "processByte J" "calm_byte J" "\<lambda>t. int (length (ji_scheme J)) = NUM_INDEXED_COLORS \<and> term_ok R C t" for J R C
  by unfold_locales (auto intro: returns_mono [OF processByte_ok])

lemma append_bytes_run: "append_bytes J bs t = run_steps (processByte J) bs t"
  by (induction bs arbitrary: t) simp_all

text \<open>
  C35. As long as the bytes that a program writes are calm, the emulator processes
  them without an exception, and its state stays well formed: the cursor on the
  screen, the margins ordered, the screen and the alternate screen well-formed
  buffers of the size of the screen.
\<close>

theorem emulator_total:
  assumes "term_ok R C t" and "int (length (ji_scheme J)) = NUM_INDEXED_COLORS"
    and "safe_steps (processByte J) (calm_byte J) bs t"
  shows "\<exists>t'. append_bytes J bs t = Some t' \<and> term_ok R C t'"
  using emu.run_ok [of J R C t bs] assms by (auto simp: append_bytes_run returns_def)

section \<open>Plain text\<close>

text \<open>Seven-bit text with control characters, but without escape and delete.\<close>

definition plain :: "int \<Rightarrow> bool" where
  "plain b \<longleftrightarrow> 0 \<le> b \<and> b \<le> 126 \<and> b \<noteq> 27"

definition plain_ok :: "jvm \<Rightarrow> int \<Rightarrow> int \<Rightarrow> emul \<Rightarrow> bool" where
  "plain_ok J R C t \<longleftrightarrow> int (length (ji_scheme J)) = NUM_INDEXED_COLORS \<and> term_ok R C t \<and> t_esc t = ESC_NONE \<and> t_utf8n t = 0 \<and>
     t_left t = 0 \<and> \<not> t_g0 t \<and> \<not> t_g1 t \<and> t_last_cp t \<noteq> 0x200D"

lemma ascii_bits: "0 \<le> b \<Longrightarrow> b \<le> 126 \<Longrightarrow> b AND 128 = 0" for b :: int
proof -
  assume "0 \<le> b" "b \<le> 126"
  then have "b \<in> set [0..126]" by (simp del: upto.simps)
  moreover have "list_all (\<lambda>b. b AND 128 = 0) [0..(126::int)]" by code_simp
  ultimately show ?thesis unfolding list_all_iff by (rule bspec [rotated])
qed

lemma plain_calm:
  assumes "plain_ok J R C t" and "plain b"
  shows "calm_byte J b t"
proof -
  have "emit_safe b t" if "32 \<le> b"
    using that assms latin1_width [of b]
    by (auto simp: emit_safe_def drawn_cp_def plain_ok_def plain_def scalar_def is_cp_def VS16_def joinsPreviousGrapheme_def
        isRegionalIndicator_def Let_def)
  then show ?thesis using assms ascii_bits [of b]
    by (simp add: calm_byte_def calm_first_def plain_ok_def plain_def calm_def)
qed

lemma charset_linefeed: "doLinefeed t = Some t' \<Longrightarrow> charset t' = charset t"
  by (auto simp: doLinefeed_def Let_def bind_eq_Some_conv setCursorRow_def dest!: charset_scroll split: if_splits) (auto simp: charset_def)

lemma charset_backspace: "backspace t = Some t' \<Longrightarrow> charset t' = charset t"
  by (auto simp: backspace_def Let_def bind_eq_Some_conv setCursorCol_def setCursorRowCol_def dest!: charset_on_scr split: if_splits)
     (auto simp: charset_def)

lemma plain_frame:
  assumes "plain_ok J R C t" and "plain b" and "processByte J b t = Some t'"
  shows "t_esc t' = ESC_NONE \<and> t_utf8n t' = 0 \<and> t_left t' = 0 \<and> \<not> t_g0 t' \<and> \<not> t_g1 t' \<and> t_last_cp t' \<noteq> 0x200D"
proof -
  have t: "t_esc t = ESC_NONE" "t_utf8n t = 0" "t_left t = 0" "\<not> t_g0 t" "\<not> t_g1 t" "t_last_cp t \<noteq> 0x200D"
    using assms(1) by (simp_all add: plain_ok_def)
  have b: "0 \<le> b" "b \<le> 126" "b \<noteq> 27" using assms(2) by (simp_all add: plain_def)
  have p: "processCodePoint J b t = Some t'" using assms(3) t(2) ascii_bits [OF b(1,2)] by (simp add: processByte_def first_byte_def)
  have emit: ?thesis if "emitCodePoint b (t\<lparr>t_continue := False\<rparr>) = Some u" "t' = u\<lparr>t_esc := ESC_NONE\<rparr> \<or> t' = u" for u
    using charset_emit [OF that(1)] that(2) t b by (auto simp: charset_def)
  have keep: ?thesis if "charset t' = charset t" using that t by (simp add: charset_def)
  show ?thesis using p t b emit keep charset_linefeed [of t t'] charset_backspace [of t t']
    by (auto simp: processCodePoint_def in_sequence_def bind_eq_Some_conv say_def setCursorCol_def split: if_splits)
qed

interpretation plain_text: machine "processByte J" "\<lambda>b t. plain b" "plain_ok J R C" for J R C
proof
  fix s :: emul and b
  assume a: "plain_ok J R C s" "plain b"
  then obtain t' where t': "processByte J b s = Some t'" "term_ok R C t'"
    using processByte_ok [OF _ _ plain_calm [OF a]] by (auto simp: plain_ok_def returns_def)
  then show "returns (processByte J b s) (plain_ok J R C)"
    using plain_frame [OF a t'(1)] a(1) by (simp add: plain_ok_def)
qed

lemma newEmulator_ok:
  assumes "int (length (ji_scheme J)) = NUM_INDEXED_COLORS" and "2 \<le> C" "C \<le> 1000" "2 \<le> R" "R \<le> 1000000000" "R \<le> tr"
  shows "returns (newEmulator J C R tr) (plain_ok J R C)"
proof -
  obtain m where m: "newBuffer C tr R = Some m" "screen_ok R C m" using newBuffer_ok [of C R tr] assms by (auto simp: screen_ok_def)
  obtain a where a: "newBuffer C R R = Some a" "screen_ok R C a" using newBuffer_ok [of C R R] assms by (auto simp: screen_ok_def)
  have "resetColors (ji_scheme J) cs = Some (ji_scheme J)" if "int (length cs) = NUM_INDEXED_COLORS" for cs
    using resetColors_ok [OF assms(1) that] .
  moreover have "int (length (replicate (nat NUM_INDEXED_COLORS) (0 :: u32))) = NUM_INDEXED_COLORS" by (simp add: NUM_INDEXED_COLORS_def)
  ultimately show ?thesis using m a assms
    by (simp add: newEmulator_def reset_def Let_def setDefaultTabStops_def setBit_def say_def plain_ok_def ok_defs BIT_AUTOWRAP_def
        BIT_SHOWING_CURSOR_def BIT_MOUSE_PRESS_RELEASE_def BIT_MOUSE_BUTTON_EVENT_def)
qed

text \<open>
  C36. A new emulator of 2 to 1000 columns, at least 2 and at most a thousand million rows and
  no fewer rows of transcript processes any text of seven-bit characters without escape (27)
  and delete (127): no character, in whatever order with tabs, backspaces, line feeds and
  carriage returns, makes it throw or leaves the screen. Delete is excluded because the
  emulator stores it as a character of width zero, without a limit on their number.
\<close>

theorem plain_text_total:
  assumes "int (length (ji_scheme J)) = NUM_INDEXED_COLORS" and "2 \<le> C" "C \<le> 1000" "2 \<le> R" "R \<le> 1000000000" "R \<le> tr"
    and "list_all plain bs"
  shows "\<exists>t t'. newEmulator J C R tr = Some t \<and> append_bytes J bs t = Some t' \<and> term_ok R C t'"
proof -
  obtain t where t: "newEmulator J C R tr = Some t" "plain_ok J R C t" using newEmulator_ok [OF assms(1-6)] by (auto simp: returns_def)
  have "safe_steps (processByte J) (\<lambda>b t. plain b) bs t"
    by (rule plain_text.always_safe [OF t(2)]) (use assms(7) in \<open>simp add: list_all_iff\<close>)
  then have "returns (append_bytes J bs t) (plain_ok J R C)"
    using plain_text.run_ok [OF t(2)] by (simp add: append_bytes_run)
  then show ?thesis using t(1) by (auto simp: returns_def plain_ok_def)
qed

text \<open>A runtime and a run: the cursor is moved, and a character of two bytes is drawn.\<close>

definition sample_jvm :: jvm where
  "sample_jvm = \<lparr>ji_unassigned = (\<lambda>cp. 0x10FFFF < cp), ji_digit = (\<lambda>_ _. - 1), ji_now = 0, ji_base64 = (\<lambda>_. None),
     ji_scheme = DEFAULT_COLORS, ji_hls = (\<lambda>_ _ _. 0), ji_bitmap = (\<lambda>_ _. True)\<rparr>"

lemma sample_scheme: "int (length (ji_scheme sample_jvm)) = NUM_INDEXED_COLORS"
  by (simp add: sample_jvm_def length_default)

lemma sample_emulator: "term_ok 2 4 (the (newEmulator sample_jvm 4 2 3))"
  using newEmulator_ok [OF sample_scheme, of 4 2 3] by (auto simp: returns_def plain_ok_def)

lemma sample_steps:
  "safe_steps (processByte sample_jvm) (calm_byte sample_jvm) [27, 91, 50, 59, 51, 72, - 61, - 87] (the (newEmulator sample_jvm 4 2 3))"
  by code_simp

theorem emulator_total_witness:
  "\<exists>t'. append_bytes sample_jvm [27, 91, 50, 59, 51, 72, - 61, - 87] (the (newEmulator sample_jvm 4 2 3)) = Some t' \<and> term_ok 2 4 t'"
  by (rule emulator_total [OF sample_emulator sample_scheme sample_steps])

theorem plain_text_total_witness:
  "\<exists>t t'. newEmulator sample_jvm 80 24 2000 = Some t \<and> append_bytes sample_jvm [72, 105, 9, 13, 10, 8] t = Some t' \<and> term_ok 24 80 t'"
  by (rule plain_text_total [OF sample_scheme]) (simp_all add: plain_def)

end
