(* ===== verification/ByteQueue.thy ===== *)
theory ByteQueue
  imports JavaBase
begin

text \<open>
  \<^verbatim>\<open>ByteQueue.java\<close>: the bounded circular buffer between the thread that reads the
  subprocess and the main thread, and between the main thread and the thread that
  writes to the subprocess. The methods hold the object's monitor except while
  they wait, so that a step of the model is one turn inside the monitor; a turn
  that ends in \<^verbatim>\<open>wait()\<close> is \<open>Waits\<close>. \<open>q_read_ok\<close> and \<open>write_turn_ok\<close> say what one turn does
  to the contents.
\<close>

record 'a bqueue =
  q_buffer :: "'a list"
  q_head :: int
  q_stored :: int
  q_open :: bool

definition newQueue :: "int \<Rightarrow> 'a \<Rightarrow> 'a bqueue" where
  "newQueue n z = \<lparr>q_buffer = replicate (nat n) z, q_head = 0, q_stored = 0, q_open = True\<rparr>"

definition q_close :: "'a bqueue \<Rightarrow> 'a bqueue" where
  "q_close q = q\<lparr>q_open := False\<rparr>"

section \<open>Reading\<close>

text \<open>
  The loop of \<^verbatim>\<open>read\<close>: \<open>len\<close> bytes of the caller's buffer are left, from \<open>offset\<close> on. A
  run of no bytes would repeat for ever; that is \<^const>\<open>None\<close> too, and is shown not to
  happen.
\<close>

function read_loop :: "int \<Rightarrow> int \<Rightarrow> 'a list \<Rightarrow> 'a bqueue \<Rightarrow> ('a list \<times> int \<times> 'a bqueue) option" where
  "read_loop len offset buffer q =
     (if 0 < len \<and> 0 < q_stored q then do {
        let bufferLength = int (length (q_buffer q));
        let oneRun = min (bufferLength - q_head q) (q_stored q);
        let bytesToCopy = min len oneRun;
        buffer \<leftarrow> arraycopy (q_buffer q) (q_head q) buffer offset bytesToCopy;
        if bytesToCopy \<le> 0 then None
        else do {
          let head = q_head q + bytesToCopy;
          read_loop (len - bytesToCopy) (offset + bytesToCopy) buffer
            (q\<lparr>q_head := (if bufferLength \<le> head then 0 else head), q_stored := q_stored q - bytesToCopy\<rparr>) } }
      else Some (buffer, offset, q))"
  by pat_completeness auto
termination
  by (relation "measure (\<lambda>(len, offset, buffer, q). nat len)") auto

declare read_loop.simps [simp del]

text \<open>
  \<open>Waits\<close>: the caller goes into \<^verbatim>\<open>wait()\<close>. \<open>Done (n, buffer)\<close>: \<^verbatim>\<open>read\<close> returned \<open>n\<close>. The
  flag says whether the turn called \<^verbatim>\<open>notify()\<close>.
\<close>

datatype 'r turn = Waits | Done 'r

definition q_read :: "'a list \<Rightarrow> bool \<Rightarrow> 'a bqueue \<Rightarrow> ((int \<times> 'a list) turn \<times> bool \<times> 'a bqueue) option" where
  "q_read buffer block q =
     (if q_stored q = 0 \<and> q_open q then Some (if block then Waits else Done (0, buffer), False, q)
      else if \<not> q_open q then Some (Done (- 1, buffer), False, q)
      else do {
        let wasFull = (int (length (q_buffer q)) = q_stored q);
        (buffer, totalRead, q) \<leftarrow> read_loop (int (length buffer)) 0 buffer q;
        Some (Done (totalRead, buffer), wasFull, q) })"

section \<open>Writing\<close>

text \<open>The inner loop of \<^verbatim>\<open>write\<close>: \<open>n\<close> bytes to copy from \<open>offset\<close>, for which there is room.\<close>

function write_loop :: "int \<Rightarrow> int \<Rightarrow> 'a list \<Rightarrow> 'a bqueue \<Rightarrow> (int \<times> 'a bqueue) option" where
  "write_loop n offset buffer q =
     (if 0 < n then do {
        let bufferLength = int (length (q_buffer q));
        let tail0 = q_head q + q_stored q;
        let tl1 = (if bufferLength \<le> tail0 then tail0 - bufferLength else tail0);
        let oneRun = (if bufferLength \<le> tail0 then q_head q - tl1 else bufferLength - tl1);
        let bytesToCopy = min oneRun n;
        b \<leftarrow> arraycopy buffer offset (q_buffer q) tl1 bytesToCopy;
        if bytesToCopy \<le> 0 then None
        else write_loop (n - bytesToCopy) (offset + bytesToCopy) buffer
               (q\<lparr>q_buffer := b, q_stored := q_stored q + bytesToCopy\<rparr>) }
      else Some (offset, q))"
  by pat_completeness auto
termination
  by (relation "measure (\<lambda>(n, offset, buffer, q). nat n)") auto

declare write_loop.simps [simp del]

text \<open>
  One turn of the outer loop of \<^verbatim>\<open>write\<close>, with \<open>len\<close> bytes left from \<open>offset\<close>: the writer
  waits, or finds the queue closed (\<open>Done None\<close>), or copies what fits and has a new
  offset and rest.
\<close>

definition write_turn :: "'a list \<Rightarrow> int \<Rightarrow> int \<Rightarrow> 'a bqueue \<Rightarrow> ((int \<times> int) option turn \<times> bool \<times> 'a bqueue) option" where
  "write_turn buffer offset len q =
     (let bufferLength = int (length (q_buffer q)) in
      if bufferLength = q_stored q \<and> q_open q then Some (Waits, False, q)
      else if \<not> q_open q then Some (Done None, False, q)
      else do {
        let wasEmpty = (q_stored q = 0);
        let now = min len (bufferLength - q_stored q);
        (offset, q) \<leftarrow> write_loop now offset buffer q;
        Some (Done (Some (offset, len - now)), wasEmpty, q) })"

text \<open>The argument check that \<^verbatim>\<open>write\<close> starts with.\<close>

definition write_args_ok :: "'a list \<Rightarrow> int \<Rightarrow> int \<Rightarrow> bool" where
  "write_args_ok buffer offset lengthToWrite \<longleftrightarrow>
     \<not> int (length buffer) < jint (lengthToWrite + offset) \<and> \<not> lengthToWrite \<le> 0"

section \<open>The contents of the queue\<close>

definition q_ok :: "'a bqueue \<Rightarrow> bool" where
  "q_ok q \<longleftrightarrow> q_buffer q \<noteq> [] \<and> 0 \<le> q_head q \<and> q_head q < int (length (q_buffer q)) \<and>
     0 \<le> q_stored q \<and> q_stored q \<le> int (length (q_buffer q))"

definition contents :: "'a bqueue \<Rightarrow> 'a list" where
  "contents q = take (nat (q_stored q)) (drop (nat (q_head q)) (q_buffer q) @ take (nat (q_head q)) (q_buffer q))"

lemma length_contents: "q_ok q \<Longrightarrow> int (length (contents q)) = q_stored q"
  by (auto simp: q_ok_def contents_def)

text \<open>Taking one run off the front.\<close>

lemma contents_drop:
  assumes ok: "q_ok q" and n: "0 < n" "n \<le> int (length (q_buffer q)) - q_head q" "n \<le> q_stored q"
  defines "h \<equiv> q_head q + n"
  defines "q' \<equiv> q\<lparr>q_head := (if int (length (q_buffer q)) \<le> h then 0 else h), q_stored := q_stored q - n\<rparr>"
  shows "q_ok q'" and "contents q = take (nat n) (drop (nat (q_head q)) (q_buffer q)) @ contents q'"
proof -
  show "q_ok q'" using ok n by (auto simp: q_ok_def q'_def h_def)
  define B where "B = q_buffer q"
  define a where "a = nat (q_head q)"
  define m where "m = nat n"
  define s where "s = nat (q_stored q)"
  have nn: "a + m \<le> length B" "m \<le> s" "0 < m" "s \<le> length B" "nat h = a + m" "nat (q_stored q - n) = s - m"
    "int (length B) \<le> h \<longleftrightarrow> a + m = length B"
    using ok n by (auto simp: q_ok_def B_def a_def m_def s_def h_def)
  have "contents q = take s (drop a B @ take a B)" by (simp add: contents_def B_def a_def s_def)
  also have "drop a B = take m (drop a B) @ drop (a + m) B"
    using append_take_drop_id [of m "drop a B"] by (simp add: add.commute)
  finally have "contents q = take m (drop a B) @ take (s - m) (drop (a + m) B @ take a B)"
    using nn by simp
  moreover have "contents q' = take (s - m) (drop (a + m) B @ take a B)"
  proof (cases "a + m = length B")
    case True
    then have "contents q' = take (s - m) B" using nn by (simp add: contents_def q'_def B_def)
    moreover have "s - m \<le> a" using nn True by linarith
    then have "take (s - m) B = take (s - m) (take a B)" by (simp add: min_absorb1)
    ultimately show ?thesis using True by simp
  next
    case False
    have "contents q' = take (s - m) (drop (a + m) B @ take (a + m) B)"
      using False nn by (simp add: contents_def q'_def B_def)
    moreover have "take (a + m) B = take a B @ take m (drop a B)" by (simp add: take_add)
    moreover have "s - m \<le> length (drop (a + m) B @ take a B)" using nn by simp
    ultimately show ?thesis by simp
  qed
  ultimately show "contents q = take (nat n) (drop (nat (q_head q)) (q_buffer q)) @ contents q'"
    by (simp add: B_def a_def m_def)
qed

lemma read_loop_ok:
  assumes "q_ok q" and "0 \<le> offset" and "0 \<le> len" and "offset + len \<le> int (length buffer)"
  shows "\<exists>buffer' q'. read_loop len offset buffer q = Some (buffer', offset + min len (q_stored q), q') \<and> q_ok q' \<and>
    q_open q' = q_open q \<and> length (q_buffer q') = length (q_buffer q) \<and> length buffer' = length buffer \<and>
    buffer' = take (nat offset) buffer @ take (nat len) (contents q) @ drop (nat (offset + min len (q_stored q))) buffer \<and>
    contents q' = drop (nat len) (contents q)"
  using assms
proof (induction "nat len" arbitrary: len offset buffer q rule: less_induct)
  case (less len offset buffer q)
  show ?case
  proof (cases "0 < len \<and> 0 < q_stored q")
    case False
    then have "contents q = [] \<or> len = 0" using less(4) length_contents [OF less(2)] by (cases "contents q") auto
    moreover from this have "min len (q_stored q) = 0" using less(2,4) length_contents [OF less(2)] by (auto simp: q_ok_def)
    ultimately show ?thesis using False less(2) by (subst read_loop.simps) auto
  next
    case True
    define n where "n = min len (min (int (length (q_buffer q)) - q_head q) (q_stored q))"
    have n: "0 < n" "n \<le> len" "n \<le> int (length (q_buffer q)) - q_head q" "n \<le> q_stored q"
      using True less(2) by (auto simp: n_def q_ok_def)
    define buf1 where "buf1 = take (nat offset) buffer @ take (nat n) (drop (nat (q_head q)) (q_buffer q)) @ drop (nat (offset + n)) buffer"
    define q1 where "q1 = q\<lparr>q_head := (if int (length (q_buffer q)) \<le> q_head q + n then 0 else q_head q + n), q_stored := q_stored q - n\<rparr>"
    have ac: "arraycopy (q_buffer q) (q_head q) buffer offset n = Some buf1"
      using less(2-5) n by (auto simp: arraycopy_def buf1_def q_ok_def)
    have l1: "length buf1 = length buffer" using length_arraycopy [OF ac] .
    have c: "q_ok q1" "contents q = take (nat n) (drop (nat (q_head q)) (q_buffer q)) @ contents q1"
      using contents_drop [OF less(2) n(1,3,4)] by (simp_all add: q1_def)
    have ln: "length (take (nat n) (drop (nat (q_head q)) (q_buffer q))) = nat n"
      using n less(2) by (auto simp: q_ok_def)
    have step: "read_loop len offset buffer q = read_loop (len - n) (offset + n) buf1 q1"
      using True ac n(1) by (subst read_loop.simps) (simp add: Let_def n_def [symmetric] q1_def)
    obtain b' q' where ih: "read_loop (len - n) (offset + n) buf1 q1 = Some (b', (offset + n) + min (len - n) (q_stored q1), q')"
      "q_ok q'" "q_open q' = q_open q1" "length (q_buffer q') = length (q_buffer q1)" "length b' = length buf1"
      "b' = take (nat (offset + n)) buf1 @ take (nat (len - n)) (contents q1) @ drop (nat (offset + n + min (len - n) (q_stored q1))) buf1"
      "contents q' = drop (nat (len - n)) (contents q1)"
      using less(1) [of "len - n" q1 "offset + n" buf1] n less(3-5) c(1) l1 by auto
    have m: "(offset + n) + min (len - n) (q_stored q1) = offset + min len (q_stored q)" using n by (auto simp: q1_def)
    have nl: "nat len = nat n + nat (len - n)" using n by simp
    have t1: "take (nat (offset + n)) buf1 = take (nat offset) buffer @ take (nat n) (drop (nat (q_head q)) (q_buffer q))"
      using less(3-5) n ln by (simp add: buf1_def nat_add_distrib)
    have d1: "drop (nat (offset + min len (q_stored q))) buf1 = drop (nat (offset + min len (q_stored q))) buffer"
    proof -
      have "nat (offset + n) \<le> nat (offset + min len (q_stored q))" using n less(3) True by auto
      then obtain j where j: "nat (offset + min len (q_stored q)) = nat (offset + n) + j" using le_Suc_ex by blast
      have "drop (nat (offset + n)) buf1 = drop (nat (offset + n)) buffer"
        using less(3-5) n ln by (simp add: buf1_def nat_add_distrib)
      then show ?thesis unfolding j by (metis add.commute drop_drop)
    qed
    have "b' = take (nat offset) buffer @ take (nat len) (contents q) @ drop (nat (offset + min len (q_stored q))) buffer"
      using ih(6) c(2) ln by (simp add: m t1 d1 nl)
    moreover have "contents q' = drop (nat len) (contents q)" using ih(7) c(2) ln by (simp add: nl)
    ultimately show ?thesis using step ih(1-5) m l1 by (simp add: q1_def)
  qed
qed

text \<open>Byte \<open>i\<close> of the contents, counted from the head and wrapped once.\<close>

definition ring_at :: "nat \<Rightarrow> nat \<Rightarrow> nat \<Rightarrow> nat" where
  "ring_at L h i = (if h + i < L then h + i else h + i - L)"

lemma contents_nth:
  assumes "q_ok q" and "i < nat (q_stored q)"
  shows "contents q ! i = q_buffer q ! ring_at (length (q_buffer q)) (nat (q_head q)) i"
  using assms by (auto simp: q_ok_def contents_def ring_at_def nth_append less_diff_conv add.commute)

lemma contents_append:
  assumes ok: "q_ok q" and m: "0 < m" "m \<le> int (length (q_buffer q)) - q_stored q"
  defines "t0 \<equiv> q_head q + q_stored q"
  defines "t \<equiv> (if int (length (q_buffer q)) \<le> t0 then t0 - int (length (q_buffer q)) else t0)"
  assumes run: "m \<le> (if int (length (q_buffer q)) \<le> t0 then q_head q - t else int (length (q_buffer q)) - t)"
    and d: "length d = nat m"
  defines "q' \<equiv> q\<lparr>q_buffer := take (nat t) (q_buffer q) @ d @ drop (nat (t + m)) (q_buffer q), q_stored := q_stored q + m\<rparr>"
  shows "q_ok q'" and "contents q' = contents q @ d"
proof -
  define L where "L = length (q_buffer q)"
  define h where "h = nat (q_head q)"
  define s where "s = nat (q_stored q)"
  define k where "k = nat m"
  define a where "a = nat t"
  have nn: "q_head q = int h" "q_stored q = int s" "m = int k" "t = int a" "h < L" "s + k \<le> L" "0 < k"
    using ok m unfolding q_ok_def L_def h_def s_def k_def a_def t_def t0_def by auto
  have a: "a = (if L \<le> h + s then h + s - L else h + s)" "k \<le> (if L \<le> h + s then h - a else L - a)" "a + k \<le> L"
    using run nn unfolding t_def t0_def L_def by (auto split: if_splits)
  have len: "length (q_buffer q') = L" using a(3) nn d by (simp add: q'_def L_def nat_add_distrib)
  show ok': "q_ok q'" using nn len by (auto simp: q_ok_def q'_def L_def)
  have b: "q_buffer q' = take a (q_buffer q) @ d @ drop (a + k) (q_buffer q)"
    using nn by (simp add: q'_def nat_add_distrib)
  have ld: "length d = k" and la: "length (take a (q_buffer q)) = a" using d a(3) nn by (auto simp: L_def)
  have lc: "length (contents q) = s" "length (contents q') = s + k"
    using length_contents [OF ok] length_contents [OF ok'] nn by (auto simp: q'_def)
  have hs: "nat (q_head q') = h" "nat (q_stored q') = s + k" using nn(1-3) by (auto simp: q'_def)
  show "contents q' = contents q @ d"
  proof (rule nth_equalityI)
    show "length (contents q') = length (contents q @ d)" using lc ld by simp
  next
    fix i assume i: "i < length (contents q')"
    have at': "contents q' ! i = q_buffer q' ! ring_at L h i"
      using contents_nth [OF ok', of i] i hs by (simp only: lc len)
    show "contents q' ! i = (contents q @ d) ! i"
    proof (cases "i < s")
      case True
      have "ring_at L h i < a \<or> a + k \<le> ring_at L h i" "ring_at L h i < L"
        using True a nn by (auto simp: ring_at_def split: if_splits)
      then have "q_buffer q' ! ring_at L h i = q_buffer q ! ring_at L h i"
        unfolding b using la ld a(3) by (auto simp: nth_append L_def)
      moreover have "contents q ! i = q_buffer q ! ring_at L h i"
        using contents_nth [OF ok, of i] True by (simp add: s_def L_def h_def)
      ultimately show ?thesis using at' True lc by (simp add: nth_append)
    next
      case False
      define j where "j = i - s"
      have "ring_at L h i = a + j" using False i lc a nn by (auto simp: ring_at_def j_def split: if_splits)
      moreover have "j < k" using False i lc by (simp add: j_def)
      moreover have "(take a (q_buffer q) @ d @ drop (a + k) (q_buffer q)) ! (a + j) = (d @ drop (a + k) (q_buffer q)) ! j"
        using nth_append_length_plus [of "take a (q_buffer q)"] la by simp
      ultimately show ?thesis using at' False lc ld by (simp add: b nth_append j_def)
    qed
  qed
qed

lemma write_loop_ok:
  assumes "q_ok q" and "0 \<le> offset" and "0 \<le> n" and "offset + n \<le> int (length buffer)"
    and "n \<le> int (length (q_buffer q)) - q_stored q"
  shows "\<exists>q'. write_loop n offset buffer q = Some (offset + n, q') \<and> q_ok q' \<and> q_open q' = q_open q \<and>
    length (q_buffer q') = length (q_buffer q) \<and> contents q' = contents q @ take (nat n) (drop (nat offset) buffer)"
  using assms
proof (induction "nat n" arbitrary: n offset q rule: less_induct)
  case (less n offset q)
  show ?case
  proof (cases "0 < n")
    case False
    then show ?thesis using less.prems by (subst write_loop.simps) auto
  next
    case True
    define L where "L = int (length (q_buffer q))"
    define t0 where "t0 = q_head q + q_stored q"
    define t where "t = (if L \<le> t0 then t0 - L else t0)"
    define run where "run = (if L \<le> t0 then q_head q - t else L - t)"
    define m where "m = min run n"
    have m: "0 < m" "m \<le> n" "m \<le> L - q_stored q" "m \<le> run" "0 \<le> t" "t + m \<le> L"
      using True less.prems(1,5) unfolding m_def run_def t_def t0_def L_def q_ok_def by (auto split: if_splits)
    define d where "d = take (nat m) (drop (nat offset) buffer)"
    have d: "length d = nat m" using m less.prems by (auto simp: d_def)
    define b where "b = take (nat t) (q_buffer q) @ d @ drop (nat (t + m)) (q_buffer q)"
    have ac: "arraycopy buffer offset (q_buffer q) t m = Some b"
      using m less.prems by (auto simp: arraycopy_def b_def d_def L_def)
    define q1 where "q1 = q\<lparr>q_buffer := b, q_stored := q_stored q + m\<rparr>"
    have q1: "q_ok q1" "contents q1 = contents q @ d"
      using contents_append [OF less.prems(1) m(1), folded L_def, folded t0_def, folded t_def, folded run_def, OF m(3,4) d]
      by (simp_all add: q1_def b_def)
    have l1: "length (q_buffer q1) = length (q_buffer q)" using length_arraycopy [OF ac] by (simp add: q1_def)
    have step: "write_loop n offset buffer q = write_loop (n - m) (offset + m) buffer q1"
    proof (cases "L \<le> t0")
      case True
      then have "t = t0 - L" "m = min (q_head q - (t0 - L)) n" by (simp_all add: t_def run_def m_def)
      then show ?thesis using ac m(1,2) True
        by (subst write_loop.simps) (auto simp: Let_def L_def [symmetric] t0_def [symmetric] q1_def min_le_iff_disj)
    next
      case False
      then have "t = t0" "m = min (L - t0) n" by (simp_all add: t_def run_def m_def)
      then show ?thesis using ac m(1,2) False
        by (subst write_loop.simps) (auto simp: Let_def L_def [symmetric] t0_def [symmetric] q1_def min_le_iff_disj)
    qed
    obtain q' where ih: "write_loop (n - m) (offset + m) buffer q1 = Some ((offset + m) + (n - m), q')" "q_ok q'" "q_open q' = q_open q1"
      "length (q_buffer q') = length (q_buffer q1)" "contents q' = contents q1 @ take (nat (n - m)) (drop (nat (offset + m)) buffer)"
      using less.hyps [of "n - m" q1 "offset + m"] m less.prems q1(1) l1 by (auto simp: q1_def L_def)
    have "take (nat n) (drop (nat offset) buffer) = d @ take (nat (n - m)) (drop (nat (offset + m)) buffer)"
    proof -
      have "nat n = nat m + nat (n - m)" "nat (offset + m) = nat m + nat offset" using m less.prems by auto
      then show ?thesis by (simp add: take_add d_def)
    qed
    then show ?thesis using step ih q1 l1 by (simp add: q1_def)
  qed
qed

section \<open>The turns on the contents\<close>

lemma q_read_ok:
  assumes "q_ok q"
  shows "\<exists>r nt q'. q_read buffer block q = Some (r, nt, q') \<and> q_ok q' \<and> q_open q' = q_open q \<and>
    length (q_buffer q') = length (q_buffer q) \<and>
    (case r of Waits \<Rightarrow> block \<and> contents q = [] \<and> q_open q \<and> q' = q \<and> \<not> nt
     | Done (n, buffer') \<Rightarrow> length buffer' = length buffer \<and>
         (if \<not> q_open q then n = - 1 \<and> buffer' = buffer \<and> q' = q \<and> \<not> nt
          else n = min (int (length buffer)) (q_stored q) \<and> take (nat n) buffer' = take (length buffer) (contents q) \<and>
               contents q' = drop (length buffer) (contents q) \<and> (nt \<longleftrightarrow> q_stored q = int (length (q_buffer q)))))"
proof -
  have e: "q_stored q = 0 \<longleftrightarrow> contents q = []" using length_contents [OF assms] by auto
  have pos: "0 < length (q_buffer q)" using assms by (auto simp: q_ok_def)
  consider (empty) "q_stored q = 0" "q_open q" | (closed) "\<not> q_open q" | (some) "q_stored q \<noteq> 0" "q_open q" by blast
  then show ?thesis
  proof cases
    case empty
    then show ?thesis using assms e pos by (cases block) (auto simp: q_read_def)
  next
    case closed
    then show ?thesis using assms by (auto simp: q_read_def)
  next
    case some
    obtain b' q' where r: "read_loop (int (length buffer)) 0 buffer q = Some (b', 0 + min (int (length buffer)) (q_stored q), q')"
      "q_ok q'" "q_open q' = q_open q" "length (q_buffer q') = length (q_buffer q)" "length b' = length buffer"
      "b' = take (nat 0) buffer @ take (nat (int (length buffer))) (contents q) @ drop (nat (0 + min (int (length buffer)) (q_stored q))) buffer"
      "contents q' = drop (nat (int (length buffer))) (contents q)"
      using read_loop_ok [OF assms, of 0 "int (length buffer)" buffer] by (auto simp del: min_def)
    have l: "length (take (length buffer) (contents q)) = nat (min (int (length buffer)) (q_stored q))"
      using length_contents [OF assms] by auto
    have "take (nat (min (int (length buffer)) (q_stored q))) b' = take (length buffer) (contents q)"
      using r(6) l append_eq_conv_conj by (metis append_Nil nat_0 nat_int take0)
    then show ?thesis using some r(1-5,7) by (auto simp: q_read_def)
  qed
qed

lemma write_turn_ok:
  assumes "q_ok q" and "0 \<le> offset" and "0 < len" and "offset + len \<le> int (length buffer)"
  shows "\<exists>r nt q'. write_turn buffer offset len q = Some (r, nt, q') \<and> q_ok q' \<and> q_open q' = q_open q \<and>
    length (q_buffer q') = length (q_buffer q) \<and>
    (case r of Waits \<Rightarrow> q_open q \<and> q_stored q = int (length (q_buffer q)) \<and> q' = q \<and> \<not> nt
     | Done None \<Rightarrow> \<not> q_open q \<and> q' = q \<and> \<not> nt
     | Done (Some (offset', len')) \<Rightarrow> q_open q \<and> (nt \<longleftrightarrow> contents q = []) \<and>
         (\<exists>n. 0 < n \<and> n \<le> len \<and> offset' = offset + n \<and> len' = len - n \<and>
            contents q' = contents q @ take (nat n) (drop (nat offset) buffer)))"
proof -
  have e: "q_stored q = 0 \<longleftrightarrow> contents q = []" using length_contents [OF assms(1)] by auto
  consider (full) "q_stored q = int (length (q_buffer q))" "q_open q" | (closed) "\<not> q_open q"
    | (room) "q_stored q \<noteq> int (length (q_buffer q))" "q_open q" by blast
  then show ?thesis
  proof cases
    case full
    then show ?thesis using assms by (auto simp: write_turn_def)
  next
    case closed
    then show ?thesis using assms by (auto simp: write_turn_def)
  next
    case room
    define n where "n = min len (int (length (q_buffer q)) - q_stored q)"
    have n: "0 < n" "n \<le> len" "n \<le> int (length (q_buffer q)) - q_stored q"
      using room assms by (auto simp: n_def q_ok_def)
    obtain q' where "write_loop n offset buffer q = Some (offset + n, q')" "q_ok q'" "q_open q' = q_open q"
      "length (q_buffer q') = length (q_buffer q)" "contents q' = contents q @ take (nat n) (drop (nat offset) buffer)"
      using write_loop_ok [of q offset n buffer] assms n by auto
    then show ?thesis using room n e by (auto simp: write_turn_def Let_def n_def [symmetric])
  qed
qed

end
