(* ===== verification/ByteLink.thy ===== *)
theory ByteLink
  imports ByteQueue
begin

text \<open>
  The two threads that a \<^verbatim>\<open>ByteQueue\<close> joins: the producer calls \<^verbatim>\<open>write\<close> and the
  consumer calls \<^verbatim>\<open>read\<close>, each turn inside the monitor is a step, and \<^verbatim>\<open>notify()\<close> wakes
  the other thread when it waits. A waiting thread may also wake by itself, and the
  producer may be interrupted between two turns, which allows every run of the code.
\<close>

datatype 'a producer = Idle | Writing "'a list" int int | Parked "'a list" int int

datatype 'a consumer = Resting | Reading "'a list" bool | Sleeping "'a list"

record 'a link =
  lk_queue :: "'a bqueue"
  lk_producer :: "'a producer"
  lk_consumer :: "'a consumer"
  lk_sent :: "'a list"
  lk_got :: "'a list"

definition newLink :: "int \<Rightarrow> 'a \<Rightarrow> 'a link" where
  "newLink n z = \<lparr>lk_queue = newQueue n z, lk_producer = Idle, lk_consumer = Resting, lk_sent = [], lk_got = []\<rparr>"

fun wake_producer :: "'a producer \<Rightarrow> 'a producer" where
  "wake_producer (Parked buffer offset len) = Writing buffer offset len"
| "wake_producer p = p"

fun wake_consumer :: "'a consumer \<Rightarrow> 'a consumer" where
  "wake_consumer (Sleeping buffer) = Reading buffer True"
| "wake_consumer c = c"

text \<open>
  \<open>lk_sent\<close> collects what the calls of \<^verbatim>\<open>write\<close> were given and \<open>lk_got\<close> what the calls of
  \<^verbatim>\<open>read\<close> returned. \<^verbatim>\<open>close\<close> wakes one of the waiting threads.
\<close>

inductive link_step :: "'a link \<Rightarrow> 'a link \<Rightarrow> bool" where
  call_read: "lk_consumer s = Resting \<Longrightarrow> link_step s (s\<lparr>lk_consumer := Reading buffer block\<rparr>)"
| read_waits: "lk_consumer s = Reading buffer block \<Longrightarrow> q_read buffer block (lk_queue s) = Some (Waits, nt, q) \<Longrightarrow>
    link_step s (s\<lparr>lk_queue := q, lk_consumer := Sleeping buffer\<rparr>)"
| read_returns: "lk_consumer s = Reading buffer block \<Longrightarrow> q_read buffer block (lk_queue s) = Some (Done (n, buffer'), nt, q) \<Longrightarrow>
    link_step s (s\<lparr>lk_queue := q, lk_consumer := Resting, lk_got := lk_got s @ take (nat n) buffer',
                   lk_producer := (if nt then wake_producer (lk_producer s) else lk_producer s)\<rparr>)"
| call_write: "lk_producer s = Idle \<Longrightarrow> write_args_ok buffer offset len \<Longrightarrow> 0 \<le> offset \<Longrightarrow> offset + len < 2 ^ 31 \<Longrightarrow>
    link_step s (s\<lparr>lk_producer := Writing buffer offset len, lk_sent := lk_sent s @ take (nat len) (drop (nat offset) buffer)\<rparr>)"
| write_waits: "lk_producer s = Writing buffer offset len \<Longrightarrow> write_turn buffer offset len (lk_queue s) = Some (Waits, nt, q) \<Longrightarrow>
    link_step s (s\<lparr>lk_queue := q, lk_producer := Parked buffer offset len\<rparr>)"
| write_closed: "lk_producer s = Writing buffer offset len \<Longrightarrow> write_turn buffer offset len (lk_queue s) = Some (Done None, nt, q) \<Longrightarrow>
    link_step s (s\<lparr>lk_queue := q, lk_producer := Idle\<rparr>)"
| write_copies: "lk_producer s = Writing buffer offset len \<Longrightarrow>
    write_turn buffer offset len (lk_queue s) = Some (Done (Some (offset', len')), nt, q) \<Longrightarrow>
    link_step s (s\<lparr>lk_queue := q, lk_producer := (if 0 < len' then Writing buffer offset' len' else Idle),
                   lk_consumer := (if nt then wake_consumer (lk_consumer s) else lk_consumer s)\<rparr>)"
| spurious_producer: "link_step s (s\<lparr>lk_producer := wake_producer (lk_producer s)\<rparr>)"
| spurious_consumer: "link_step s (s\<lparr>lk_consumer := wake_consumer (lk_consumer s)\<rparr>)"
| close_wakes_consumer: "(\<exists>b. lk_consumer s = Sleeping b) \<or> (\<nexists>b off l. lk_producer s = Parked b off l) \<Longrightarrow>
    link_step s (s\<lparr>lk_queue := q_close (lk_queue s), lk_consumer := wake_consumer (lk_consumer s)\<rparr>)"
| close_wakes_producer: "(\<exists>b off l. lk_producer s = Parked b off l) \<or> (\<nexists>b. lk_consumer s = Sleeping b) \<Longrightarrow>
    link_step s (s\<lparr>lk_queue := q_close (lk_queue s), lk_producer := wake_producer (lk_producer s)\<rparr>)"

inductive link_run :: "'a link \<Rightarrow> 'a link \<Rightarrow> bool" where
  run_none: "link_run s s"
| run_step: "link_run s t \<Longrightarrow> link_step t u \<Longrightarrow> link_run s u"

section \<open>The invariant\<close>

text \<open>What the producer has still to hand over.\<close>

fun rest_of :: "'a producer \<Rightarrow> 'a list" where
  "rest_of Idle = []"
| "rest_of (Writing buffer offset len) = take (nat len) (drop (nat offset) buffer)"
| "rest_of (Parked buffer offset len) = take (nat len) (drop (nat offset) buffer)"

fun producer_ok :: "'a bqueue \<Rightarrow> 'a producer \<Rightarrow> bool" where
  "producer_ok q Idle \<longleftrightarrow> True"
| "producer_ok q (Writing buffer offset len) \<longleftrightarrow> 0 \<le> offset \<and> 0 < len \<and> offset + len \<le> int (length buffer)"
| "producer_ok q (Parked buffer offset len) \<longleftrightarrow> 0 \<le> offset \<and> 0 < len \<and> offset + len \<le> int (length buffer) \<and>
     q_open q \<and> q_stored q = int (length (q_buffer q))"

fun consumer_ok :: "'a bqueue \<Rightarrow> 'a consumer \<Rightarrow> bool" where
  "consumer_ok q (Sleeping buffer) \<longleftrightarrow> q_open q \<and> contents q = []"
| "consumer_ok q c \<longleftrightarrow> True"

definition link_ok :: "'a link \<Rightarrow> bool" where
  "link_ok s \<longleftrightarrow> q_ok (lk_queue s) \<and> producer_ok (lk_queue s) (lk_producer s) \<and> consumer_ok (lk_queue s) (lk_consumer s) \<and>
     (\<exists>xs. lk_sent s = lk_got s @ contents (lk_queue s) @ xs \<and> (q_open (lk_queue s) \<longrightarrow> xs = rest_of (lk_producer s)))"

lemma wake_rest [simp]: "rest_of (wake_producer p) = rest_of p"
  by (cases p) auto

lemma wake_producer_ok [simp]: "producer_ok q p \<Longrightarrow> producer_ok q' (wake_producer p)"
  by (cases p) auto

lemma wake_consumer_ok [simp]: "consumer_ok q' (wake_consumer c)"
  by (cases c) auto

lemma not_both_wait:
  "q_ok q \<Longrightarrow> producer_ok q (Parked b off l) \<Longrightarrow> consumer_ok q (Sleeping b') \<Longrightarrow> False"
  using length_contents [of q] by (auto simp: q_ok_def)

lemma newLink_ok: "0 < n \<Longrightarrow> link_ok (newLink n z)"
  by (auto simp: link_ok_def newLink_def newQueue_def q_ok_def contents_def)

lemma producer_frame:
  "producer_ok q p \<Longrightarrow> (\<nexists>b off l. p = Parked b off l) \<or> q_open q' \<and> q_stored q' = int (length (q_buffer q')) \<Longrightarrow> producer_ok q' p"
  by (cases p) auto

lemma consumer_frame: "consumer_ok q c \<Longrightarrow> (\<nexists>b. c = Sleeping b) \<or> q_open q' \<and> contents q' = [] \<Longrightarrow> consumer_ok q' c"
  by (cases c) auto

lemma close_ok: "q_ok (q_close q) = q_ok q" "contents (q_close q) = contents q" "\<not> q_open (q_close q)"
  by (simp_all add: q_ok_def q_close_def contents_def)

lemma reader_turn_keeps:
  assumes ok: "link_ok s" and c: "lk_consumer s = Reading buffer block"
    and r: "q_read buffer block (lk_queue s) = Some (Done (n, buffer'), nt, q)"
  shows "link_ok (s\<lparr>lk_queue := q, lk_consumer := Resting, lk_got := lk_got s @ take (nat n) buffer',
                   lk_producer := (if nt then wake_producer (lk_producer s) else lk_producer s)\<rparr>)"
proof -
  let ?q = "lk_queue s"
  have inv: "q_ok ?q" "producer_ok ?q (lk_producer s)" using ok by (auto simp: link_ok_def)
  obtain xs where xs: "lk_sent s = lk_got s @ contents ?q @ xs" "q_open ?q \<longrightarrow> xs = rest_of (lk_producer s)"
    using ok by (auto simp: link_ok_def)
  have q: "q_ok q" "q_open q = q_open ?q" "length (q_buffer q) = length (q_buffer ?q)"
    and cl: "\<not> q_open ?q \<Longrightarrow> n = - 1 \<and> q = ?q"
    and op: "q_open ?q \<Longrightarrow> take (nat n) buffer' = take (length buffer) (contents ?q) \<and>
       contents q = drop (length buffer) (contents ?q) \<and> (nt \<longleftrightarrow> q_stored ?q = int (length (q_buffer ?q)))"
    using q_read_ok [OF inv(1), of buffer block] r by (auto split: if_splits)
  show ?thesis
  proof (cases "q_open ?q")
    case True
    have "producer_ok q (if nt then wake_producer (lk_producer s) else lk_producer s)"
      using inv(2) op [OF True] by (cases "lk_producer s") auto
    moreover have "lk_sent s = (lk_got s @ take (nat n) buffer') @ contents q @ rest_of (lk_producer s)"
      using xs op [OF True] True by (metis append.assoc append_take_drop_id)
    ultimately show ?thesis using q(1) by (simp add: link_ok_def)
  next
    case False
    then have "producer_ok q (if nt then wake_producer (lk_producer s) else lk_producer s)"
      using inv(2) by (cases "lk_producer s") auto
    then show ?thesis using q(1) xs cl [OF False] False by (auto simp: link_ok_def)
  qed
qed

lemma writer_turn_keeps:
  assumes ok: "link_ok s" and p: "lk_producer s = Writing buffer offset len"
    and w: "write_turn buffer offset len (lk_queue s) = Some (Done (Some (offset', len')), nt, q)"
  shows "link_ok (s\<lparr>lk_queue := q, lk_producer := (if 0 < len' then Writing buffer offset' len' else Idle),
                   lk_consumer := (if nt then wake_consumer (lk_consumer s) else lk_consumer s)\<rparr>)"
proof -
  let ?q = "lk_queue s"
  have inv: "q_ok ?q" "0 \<le> offset" "0 < len" "offset + len \<le> int (length buffer)" "consumer_ok ?q (lk_consumer s)"
    using ok p by (auto simp: link_ok_def)
  have q: "q_ok q" "q_open q = q_open ?q" and op: "q_open ?q" "nt \<longleftrightarrow> contents ?q = []"
    and n: "\<exists>n. 0 < n \<and> n \<le> len \<and> offset' = offset + n \<and> len' = len - n \<and>
            contents q = contents ?q @ take (nat n) (drop (nat offset) buffer)"
    using write_turn_ok [OF inv(1-4)] w by auto
  obtain n where n: "0 < n" "n \<le> len" "offset' = offset + n" "len' = len - n"
    "contents q = contents ?q @ take (nat n) (drop (nat offset) buffer)" using n by blast
  have "consumer_ok q (if nt then wake_consumer (lk_consumer s) else lk_consumer s)"
    using inv(5) op by (cases "lk_consumer s") auto
  moreover have "producer_ok q (if 0 < len' then Writing buffer offset' len' else Idle)" using inv n by auto
  moreover have "take (nat n) (drop (nat offset) buffer) @ rest_of (if 0 < len' then Writing buffer offset' len' else Idle) =
      rest_of (Writing buffer offset len)"
  proof -
    have "nat len = nat n + nat len'" "nat offset' = nat n + nat offset" using n inv by auto
    then show ?thesis by (auto simp: take_add)
  qed
  moreover have "lk_sent s = lk_got s @ contents ?q @ rest_of (Writing buffer offset len)"
    using ok op(1) p by (auto simp: link_ok_def)
  ultimately show ?thesis using q n(5) op(1) by (auto simp: link_ok_def)
qed

lemma link_step_ok: "link_step s t \<Longrightarrow> link_ok s \<Longrightarrow> link_ok t"
proof (induction rule: link_step.induct)
  case (call_read s buffer block)
  then show ?case by (auto simp: link_ok_def)
next
  case (read_waits s buffer block nt q)
  then show ?case using q_read_ok [of "lk_queue s" buffer block] by (auto simp: link_ok_def)
next
  case (read_returns s buffer block n buffer' nt q)
  then show ?case by (intro reader_turn_keeps)
next
  case (call_write s buffer offset len)
  then have "offset + len \<le> int (length buffer)" "0 < len" by (auto simp: write_args_ok_def jint_id add.commute)
  then show ?case using call_write by (auto simp: link_ok_def)
next
  case (write_waits s buffer offset len nt q)
  then show ?case using write_turn_ok [of "lk_queue s" offset len buffer] by (auto simp: link_ok_def)
next
  case (write_closed s buffer offset len nt q)
  then show ?case using write_turn_ok [of "lk_queue s" offset len buffer] by (auto simp: link_ok_def)
next
  case (write_copies s buffer offset len offset' len' nt q)
  then show ?case by (intro writer_turn_keeps)
next
  case (spurious_producer s)
  then show ?case by (auto simp: link_ok_def)
next
  case (spurious_consumer s)
  then show ?case by (auto simp: link_ok_def)
next
  case (close_wakes_consumer s)
  then have "\<nexists>b off l. lk_producer s = Parked b off l"
    using not_both_wait by (metis link_ok_def)
  then show ?case using close_wakes_consumer producer_frame [of "lk_queue s" "lk_producer s" "q_close (lk_queue s)"]
    by (auto simp: link_ok_def close_ok)
next
  case (close_wakes_producer s)
  then have "\<nexists>b. lk_consumer s = Sleeping b"
    using not_both_wait by (metis link_ok_def)
  then show ?case using close_wakes_producer consumer_frame [of "lk_queue s" "lk_consumer s" "q_close (lk_queue s)"]
    by (auto simp: link_ok_def close_ok)
qed

lemma link_run_ok: "link_run s t \<Longrightarrow> link_ok s \<Longrightarrow> link_ok t"
  by (induction rule: link_run.induct) (auto intro: link_step_ok)

lemma link_run_order: "link_run s t \<Longrightarrow> link_ok s \<Longrightarrow>
    (\<exists>xs. lk_sent t = lk_got t @ contents (lk_queue t) @ xs) \<and>
    (q_open (lk_queue t) \<longrightarrow> lk_sent t = lk_got t @ contents (lk_queue t) @ rest_of (lk_producer t))"
  using link_run_ok by (fastforce simp: link_ok_def)

lemma link_run_waits:
  assumes "link_run s t" and "link_ok s"
  shows "lk_consumer t = Sleeping b \<Longrightarrow> q_open (lk_queue t) \<and> contents (lk_queue t) = [] \<and> (\<nexists>b off l. lk_producer t = Parked b off l)"
    and "lk_producer t = Parked b off l \<Longrightarrow> q_open (lk_queue t) \<and> int (length (contents (lk_queue t))) = int (length (q_buffer (lk_queue t)))"
proof -
  have ok: "link_ok t" using assms by (rule link_run_ok)
  then show "lk_consumer t = Sleeping b \<Longrightarrow> q_open (lk_queue t) \<and> contents (lk_queue t) = [] \<and> (\<nexists>b off l. lk_producer t = Parked b off l)"
    using not_both_wait by (fastforce simp: link_ok_def)
  show "lk_producer t = Parked b off l \<Longrightarrow> q_open (lk_queue t) \<and> int (length (contents (lk_queue t))) = int (length (q_buffer (lk_queue t)))"
    using ok length_contents [of "lk_queue t"] by (auto simp: link_ok_def)
qed

text \<open>Once the queue is closed nothing is delivered any more.\<close>

lemma closed_step:
  "link_step s t \<Longrightarrow> \<not> q_open (lk_queue s) \<Longrightarrow> \<not> q_open (lk_queue t) \<and> lk_got t = lk_got s"
  by (induction rule: link_step.induct) (auto simp: q_read_def write_turn_def q_close_def Let_def)

lemma closed_run: "link_run s t \<Longrightarrow> \<not> q_open (lk_queue s) \<Longrightarrow> \<not> q_open (lk_queue t) \<and> lk_got t = lk_got s"
  by (induction rule: link_run.induct) (auto dest: closed_step)

section \<open>Properties\<close>

text \<open>
  C37. In every run of a producer and a consumer over a byte queue of positive
  capacity, with spurious wake-ups and a \<^verbatim>\<open>close\<close> at any moment, no byte is
  duplicated or reordered: what was received, then what the queue holds, is always the
  beginning of what was sent. While the queue is open nothing is lost either: the rest is
  exactly what the producer has not handed over. From the moment it is closed nothing more
  is received, so what it holds then is lost (see \<open>close_discards\<close>). A consumer sleeps only
  while the open queue is empty, a producer only while it is full, and never both, so
  no wake-up is missed.
\<close>

theorem byte_link_correct:
  assumes "0 < n" and "link_run (newLink n z) t"
  shows "(\<exists>xs. lk_sent t = lk_got t @ contents (lk_queue t) @ xs) \<and>
    (q_open (lk_queue t) \<longrightarrow> lk_sent t = lk_got t @ contents (lk_queue t) @ rest_of (lk_producer t)) \<and>
    (\<not> q_open (lk_queue t) \<longrightarrow> (\<forall>u. link_run t u \<longrightarrow> lk_got u = lk_got t)) \<and>
    (\<forall>b. lk_consumer t = Sleeping b \<longrightarrow>
       q_open (lk_queue t) \<and> contents (lk_queue t) = [] \<and> (\<nexists>b off l. lk_producer t = Parked b off l)) \<and>
    (\<forall>b off l. lk_producer t = Parked b off l \<longrightarrow> q_open (lk_queue t) \<and>
       int (length (contents (lk_queue t))) = int (length (q_buffer (lk_queue t))))"
  using link_run_order [OF assms(2) newLink_ok [OF assms(1)]] link_run_waits [OF assms(2) newLink_ok [OF assms(1)]]
    closed_run
  by blast

text \<open>A consumer falls asleep on an empty queue of two bytes; a producer with three bytes wakes it, and parks.\<close>

lemma parked_run:
  "link_run (newLink 2 (0 :: int))
     \<lparr>lk_queue = \<lparr>q_buffer = [7, 8], q_head = 0, q_stored = 2, q_open = True\<rparr>, lk_producer = Parked [7, 8, 9] 2 1,
      lk_consumer = Reading [0, 0] True, lk_sent = [7, 8, 9], lk_got = []\<rparr>"
proof -
  let ?q0 = "\<lparr>q_buffer = [0, 0], q_head = 0, q_stored = 0, q_open = True\<rparr> :: int bqueue"
  let ?q1 = "\<lparr>q_buffer = [7, 8], q_head = 0, q_stored = 2, q_open = True\<rparr> :: int bqueue"
  let ?d = "[7, 8, 9] :: int list"
  let ?s = "\<lambda>q p c sent. \<lparr>lk_queue = q, lk_producer = p, lk_consumer = c, lk_sent = sent, lk_got = []\<rparr> :: int link"
  have s1: "link_step (?s ?q0 Idle Resting []) (?s ?q0 Idle (Reading [0, 0] True) [])"
    using call_read [of "?s ?q0 Idle Resting []" "[0, 0]" True] by simp
  have s2: "link_step (?s ?q0 Idle (Reading [0, 0] True) []) (?s ?q0 Idle (Sleeping [0, 0]) [])"
    using read_waits [of "?s ?q0 Idle (Reading [0, 0] True) []" "[0, 0]" True False ?q0] by (simp add: q_read_def)
  have s3: "link_step (?s ?q0 Idle (Sleeping [0, 0]) []) (?s ?q0 (Writing ?d 0 3) (Sleeping [0, 0]) ?d)"
    using call_write [of "?s ?q0 Idle (Sleeping [0, 0]) []" ?d 0 3] by (simp add: write_args_ok_def jint_def signed_take_bit_int_eq_self)
  have "write_turn ?d 0 3 ?q0 = Some (Done (Some (2, 1)), True, ?q1)"
    by (simp add: write_turn_def write_loop.simps arraycopy_def)
  then have s4: "link_step (?s ?q0 (Writing ?d 0 3) (Sleeping [0, 0]) ?d) (?s ?q1 (Writing ?d 2 1) (Reading [0, 0] True) ?d)"
    using write_copies [of "?s ?q0 (Writing ?d 0 3) (Sleeping [0, 0]) ?d" ?d 0 3 2 1 True ?q1] by simp
  have "write_turn ?d 2 1 ?q1 = Some (Waits, False, ?q1)" by (simp add: write_turn_def)
  then have s5: "link_step (?s ?q1 (Writing ?d 2 1) (Reading [0, 0] True) ?d) (?s ?q1 (Parked ?d 2 1) (Reading [0, 0] True) ?d)"
    using write_waits [of "?s ?q1 (Writing ?d 2 1) (Reading [0, 0] True) ?d" ?d 2 1 False ?q1] by simp
  have e: "newLink 2 (0 :: int) = ?s ?q0 Idle Resting []" by (simp add: newLink_def newQueue_def numeral_2_eq_2)
  from run_step [OF run_step [OF run_step [OF run_step [OF run_step [OF run_none s1] s2] s3] s4] s5]
  show ?thesis by (simp only: e)
qed

theorem byte_link_correct_witness:
  "\<exists>t. link_run (newLink 2 (0 :: int)) t \<and> lk_producer t = Parked [7, 8, 9] 2 1 \<and>
     lk_sent t = lk_got t @ contents (lk_queue t) @ [9] \<and> length (contents (lk_queue t)) = 2"
  using byte_link_correct [OF _ parked_run] parked_run by (force simp: contents_def)

text \<open>
  A queue that is closed answers -1 at once, whatever it still holds. \<^verbatim>\<open>cleanupResources\<close>
  closes the queue of the process output as soon as the process has exited, so
  the output that is still queued then is never shown.
\<close>

lemma close_discards:
  assumes "q_ok q" and "q_open q" and "contents q \<noteq> []"
  shows "(\<exists>n b nt q'. q_read buffer True q = Some (Done (n, b), nt, q') \<and> 0 \<le> n \<and> take (nat n) b = take (length buffer) (contents q)) \<and>
    q_read buffer True (q_close q) = Some (Done (- 1, buffer), False, q_close q)"
proof
  show "\<exists>n b nt q'. q_read buffer True q = Some (Done (n, b), nt, q') \<and> 0 \<le> n \<and> take (nat n) b = take (length buffer) (contents q)"
    using q_read_ok [OF assms(1), of buffer True] assms by (fastforce simp: q_ok_def split: turn.splits prod.splits)
  show "q_read buffer True (q_close q) = Some (Done (- 1, buffer), False, q_close q)"
    by (simp add: q_read_def q_close_def)
qed

end
