(* ===== verification/TerminalSession.thy ===== *)
theory TerminalSession
  imports TermTotal ByteLink
begin

text \<open>
  \<^verbatim>\<open>TerminalSession.java\<close>: the main thread's side of a session. It feeds what the
  subprocess wrote, which another thread puts into a \<^verbatim>\<open>ByteQueue\<close>, to the emulator, and
  encodes the keys of the user. \<open>se_handed\<close> collects the bytes that it hands to the
  queue towards the subprocess; how they get there is \<open>ByteLink\<close>. What the callback
  object is told about the session itself is \<open>se_events\<close>; what the emulator tells it is
  in the emulator's own list.
\<close>

unbundle bit_operations_syntax

datatype session_event = TextChanged | SessionFinished | Rearmed

record session =
  se_emul :: emul
  se_pid :: int
  se_status :: int
  se_in :: "int bqueue"
  se_out :: "int bqueue"
  se_recv :: "int list"
  se_handed :: "int list"
  se_events :: "session_event list"

definition MAX_APPEND_BYTES_PER_TURN :: int where "MAX_APPEND_BYTES_PER_TURN = 64 * 1024"

definition isRunning :: "session \<Rightarrow> bool" where
  "isRunning s \<longleftrightarrow> se_pid s \<noteq> - 1"

section \<open>Towards the subprocess\<close>

definition session_write :: "int list \<Rightarrow> int \<Rightarrow> int \<Rightarrow> session \<Rightarrow> session option" where
  "session_write data offset count s =
     (if 0 < se_pid s then
        (if write_args_ok data offset count
         then Some (s\<lparr>se_handed := se_handed s @ take (nat count) (drop (nat offset) data)\<rparr>) else None)
      else Some s)"

definition to_byte :: "int \<Rightarrow> int" where
  "to_byte x = signed_take_bit 7 x"

definition utf8_bytes :: "int \<Rightarrow> int list" where
  "utf8_bytes codePoint =
     (if codePoint \<le> 127 then [to_byte codePoint]
      else if codePoint \<le> 2047 then
        [to_byte (192 OR drop_bit 6 codePoint), to_byte (128 OR (codePoint AND 63))]
      else if codePoint \<le> 65535 then
        [to_byte (224 OR drop_bit 12 codePoint), to_byte (128 OR (drop_bit 6 codePoint AND 63)), to_byte (128 OR (codePoint AND 63))]
      else
        [to_byte (240 OR drop_bit 18 codePoint), to_byte (128 OR (drop_bit 12 codePoint AND 63)),
         to_byte (128 OR (drop_bit 6 codePoint AND 63)), to_byte (128 OR (codePoint AND 63))])"

definition writeCodePoint :: "bool \<Rightarrow> int \<Rightarrow> session \<Rightarrow> session option" where
  "writeCodePoint prependEscape codePoint s =
     (if 1114111 < codePoint \<or> 0xD800 \<le> codePoint \<and> codePoint \<le> 0xDFFF then None
      else let buf = (if prependEscape then [27] else []) @ utf8_bytes codePoint
           in session_write buf 0 (int (length buf)) s)"

section \<open>From the subprocess\<close>

definition notifyScreenUpdate :: "jvm \<Rightarrow> session \<Rightarrow> session" where
  "notifyScreenUpdate J s =
     (if isSynchronizeUpdates J (se_emul s) then s else s\<lparr>se_events := se_events s @ [TextChanged]\<rparr>)"

text \<open>
  The loop of a turn. The reader thread may put bytes into the queue between two
  reads; \<open>env tot\<close> is what it does before the read at which \<open>tot\<close> bytes were
  appended.
\<close>

function drain :: "jvm \<Rightarrow> (int \<Rightarrow> int bqueue \<Rightarrow> int bqueue) \<Rightarrow> int \<Rightarrow> session \<Rightarrow> (int \<times> session) option" where
  "drain J env appendedTotal s =
     (if appendedTotal < MAX_APPEND_BYTES_PER_TURN then
        (case q_read (se_recv s) False (env appendedTotal (se_in s)) of
           Some (Done (bytesRead, buf), nt, q) \<Rightarrow>
             (let s = s\<lparr>se_recv := buf, se_in := q\<rparr> in
              if 0 < bytesRead then
                (case append_buffer J buf bytesRead (se_emul s) of
                   None \<Rightarrow> None
                 | Some t \<Rightarrow> drain J env (appendedTotal + bytesRead) (s\<lparr>se_emul := t\<rparr>))
              else Some (appendedTotal, s))
         | _ \<Rightarrow> None)
      else Some (appendedTotal, s))"
  by pat_completeness auto
termination
  by (relation "measure (\<lambda>(J, env, appendedTotal, s). nat (MAX_APPEND_BYTES_PER_TURN - appendedTotal))") auto

declare drain.simps [simp del]

definition getExitDescription :: "int \<Rightarrow> jstring" where
  "getExitDescription exitCode =
     [13, 10] @ ascii ''[Process completed'' @
     (if 0 < exitCode then ascii '' (code '' @ int_text exitCode @ ascii '')''
      else if exitCode < 0 then ascii '' (signal '' @ int_text (jint (- exitCode)) @ ascii '')'' else []) @
     ascii '' - press Enter]''"

definition cleanupResources :: "int \<Rightarrow> session \<Rightarrow> session" where
  "cleanupResources exitStatus s =
     s\<lparr>se_pid := - 1, se_status := exitStatus, se_out := q_close (se_out s), se_in := q_close (se_in s)\<rparr>"

datatype message = MSG_NEW_INPUT | MSG_PROCESS_EXITED int

definition handleMessage :: "jvm \<Rightarrow> (int \<Rightarrow> int bqueue \<Rightarrow> int bqueue) \<Rightarrow> message \<Rightarrow> session \<Rightarrow> session option" where
  "handleMessage J env msg s =
     (case msg of
        MSG_NEW_INPUT \<Rightarrow>
          if isRunning s then do {
            (appendedTotal, s) \<leftarrow> drain J env 0 s;
            Some (if 0 < appendedTotal then
                    (let s = notifyScreenUpdate J s
                     in if MAX_APPEND_BYTES_PER_TURN \<le> appendedTotal then s\<lparr>se_events := se_events s @ [Rearmed]\<rparr> else s)
                  else s) }
          else Some s
      | MSG_PROCESS_EXITED exitCode \<Rightarrow> do {
          let s = cleanupResources exitCode s;
          let s = s\<lparr>se_events := se_events s @ [SessionFinished]\<rparr>;
          let bytesToWrite = getExitDescription exitCode;
          t \<leftarrow> append_buffer J bytesToWrite (int (length bytesToWrite)) (se_emul s);
          Some (notifyScreenUpdate J (s\<lparr>se_emul := t\<rparr>)) })"

section \<open>A turn of the main thread\<close>

text \<open>
  What the reader thread does between two reads: it may add bytes to the open queue, and
  nothing else (\<open>ByteLink\<close>).
\<close>

definition only_adds :: "(int \<Rightarrow> int bqueue \<Rightarrow> int bqueue) \<Rightarrow> bool" where
  "only_adds env \<longleftrightarrow> (\<forall>k q. q_ok q \<longrightarrow> q_ok (env k q) \<and> q_open (env k q) = q_open q \<and> (\<exists>xs. contents (env k q) = contents q @ xs))"

lemma append_bytes_append: "append_bytes J (xs @ ys) t = do { t \<leftarrow> append_bytes J xs t; append_bytes J ys t }"
  by (induction xs arbitrary: t) (simp_all add: bind_assoc)

text \<open>
  A turn applies the bytes of the queue in their order and loses none: what was there, and
  what was added meanwhile, is what the emulator processed and what is still queued. It
  stops with an empty queue unless it reached its limit.
\<close>

lemma drain_applies:
  "drain J env tot s = Some (tot', s') \<Longrightarrow> only_adds env \<Longrightarrow> q_ok (se_in s) \<Longrightarrow> q_open (se_in s) \<Longrightarrow> 0 < length (se_recv s) \<Longrightarrow>
    (\<exists>bs xs. append_bytes J bs (se_emul s) = Some (se_emul s') \<and> contents (se_in s) @ xs = bs @ contents (se_in s') \<and>
       tot' = tot + int (length bs)) \<and> (tot' < MAX_APPEND_BYTES_PER_TURN \<longrightarrow> contents (se_in s') = [])"
proof (induction J env tot s arbitrary: tot' s' rule: drain.induct)
  case (1 J env tot s)
  let ?q = "env tot (se_in s)"
  obtain ys where q: "q_ok ?q" "q_open ?q" "contents ?q = contents (se_in s) @ ys"
    using 1(3-5) unfolding only_adds_def by blast
  show ?case
  proof (cases "tot < MAX_APPEND_BYTES_PER_TURN")
    case False
    with 1(2) have "tot' = tot" "s' = s" by (simp_all add: drain.simps)
    with False show ?thesis by (auto intro!: exI [of _ "[]"])
  next
    case True
    obtain rr nt q' where rr: "q_read (se_recv s) False ?q = Some (rr, nt, q')" using q_read_ok [OF q(1), of "se_recv s" False] by blast
    note k = q_read_ok [OF q(1), of "se_recv s" False, unfolded rr]
    obtain n buf where dn: "rr = Done (n, buf)" using k by (cases rr) auto
    have "q_ok q' \<and> q_open q' \<and> length buf = length (se_recv s) \<and> n = min (int (length (se_recv s))) (q_stored ?q) \<and>
      take (nat n) buf = take (length (se_recv s)) (contents ?q) \<and> contents q' = drop (length (se_recv s)) (contents ?q)"
      using k dn q(2) by auto
    note r = rr [unfolded dn] this [THEN conjunct1] this [THEN conjunct2, THEN conjunct1]
      this [THEN conjunct2, THEN conjunct2, THEN conjunct1] this [THEN conjunct2, THEN conjunct2, THEN conjunct2, THEN conjunct1]
      this [THEN conjunct2, THEN conjunct2, THEN conjunct2, THEN conjunct2, THEN conjunct1]
      this [THEN conjunct2, THEN conjunct2, THEN conjunct2, THEN conjunct2, THEN conjunct2]
    have l: "int (length (contents ?q)) = q_stored ?q" using length_contents [OF q(1)] .
    show ?thesis
    proof (cases "0 < n")
      case False
      have "q_stored ?q \<le> 0" using False r(5) 1(6) by (auto simp: min_def split: if_splits)
      then have "length (contents ?q) = 0" using l by linarith
      then have "contents ?q = []" by simp
      moreover have "tot' = tot" "se_emul s' = se_emul s" "se_in s' = q'"
        using 1(2) True r(1) False by (auto simp: drain.simps Let_def)
      ultimately show ?thesis using q(3) r(7) by auto
    next
      case n: True
      let ?s = "s\<lparr>se_recv := buf, se_in := q'\<rparr>"
      obtain t where t: "append_buffer J buf n (se_emul s) = Some t"
        and d: "drain J env (tot + n) (?s\<lparr>se_emul := t\<rparr>) = Some (tot', s')"
        using 1(2) True r(1) n by (subst (asm) drain.simps) (auto simp: Let_def split: option.splits)
      let ?b = "take (length (se_recv s)) (contents ?q)"
      have b: "append_bytes J ?b (se_emul s) = Some t"
        using t r(6) by (auto simp: append_buffer_def split: if_splits)
      have ln: "int (length ?b) = n" using r(5) l by auto
      from 1(1) [OF True r(1) refl refl refl refl refl n _ d] t r(2-4) 1(3,6)
      obtain bs xs where ih: "append_bytes J bs t = Some (se_emul s')" "contents q' @ xs = bs @ contents (se_in s')"
        "tot' = tot + n + int (length bs)" "tot' < MAX_APPEND_BYTES_PER_TURN \<longrightarrow> contents (se_in s') = []" by auto
      have "append_bytes J (?b @ bs) (se_emul s) = Some (se_emul s')" using b ih(1) by (simp add: append_bytes_append)
      moreover have "contents (se_in s) @ ys @ xs = (?b @ bs) @ contents (se_in s')"
        using q(3) r(7) ih(2) by (metis append.assoc append_take_drop_id)
      moreover have "tot' = tot + int (length (?b @ bs))" using ih(3) ln by simp
      ultimately show ?thesis using ih(4) by blast
    qed
  qed
qed

section \<open>UTF-8\<close>

lemma bounded_bytes:
  "list_all (\<lambda>x. to_byte (192 OR x) AND 128 \<noteq> 0 \<and> to_byte (192 OR x) AND 224 = 192 \<and> to_byte (192 OR x) AND 31 = x) [0..31]"
  "list_all (\<lambda>x. to_byte (224 OR x) AND 128 \<noteq> 0 \<and> to_byte (224 OR x) AND 224 \<noteq> 192 \<and> to_byte (224 OR x) AND 240 = 224 \<and>
     to_byte (224 OR x) AND 15 = x) [0..15]"
  "list_all (\<lambda>x. to_byte (240 OR x) AND 128 \<noteq> 0 \<and> to_byte (240 OR x) AND 224 \<noteq> 192 \<and> to_byte (240 OR x) AND 240 \<noteq> 224 \<and>
     to_byte (240 OR x) AND 248 = 240 \<and> to_byte (240 OR x) AND 7 = x) [0..7]"
  "list_all (\<lambda>x. to_byte (128 OR x) AND 192 = 128 \<and> to_byte (128 OR x) AND 63 = x) [0..63]"
  "list_all (\<lambda>x. to_byte x = x \<and> x AND 128 = 0) [0..127]"
  by code_simp+

lemma upto_all: "list_all P [a..b] \<Longrightarrow> a \<le> x \<Longrightarrow> x \<le> b \<Longrightarrow> P x"
  unfolding list_all_iff set_upto by simp

lemmas lead2 = upto_all [OF bounded_bytes(1)]
lemmas lead3 = upto_all [OF bounded_bytes(2)]
lemmas lead4 = upto_all [OF bounded_bytes(3)]
lemmas trail = upto_all [OF bounded_bytes(4)]
lemmas single = upto_all [OF bounded_bytes(5)]

lemma take63: "c AND 63 = take_bit 6 c" for c :: int
  by (simp add: take_bit_eq_mask mask_eq_exp_minus_1)

lemma and63: "c AND 63 = c mod 64" for c :: int
  by (simp add: take63 take_bit_eq_mod)

lemma join6: "push_bit 6 x OR (c AND 63) = 64 * x + c mod 64" for x c :: int
proof -
  have "push_bit 6 x OR take_bit 6 c = concat_bit 6 c x" by (simp add: concat_bit_def or.commute)
  also have "\<dots> = take_bit 6 c + push_bit 6 x" by (simp add: concat_bit_eq)
  finally show ?thesis by (simp add: take63 push_bit_eq_mult take_bit_eq_mod)
qed

text \<open>The bytes of a code point above ASCII: how they start, how they go on and what they decode to.\<close>

definition starts :: "int list \<Rightarrow> bool" where
  "starts bs \<longleftrightarrow> hd bs AND 128 \<noteq> 0 \<and>
     (if length bs = 2 then hd bs AND 224 = 192
      else if length bs = 3 then hd bs AND 224 \<noteq> 192 \<and> hd bs AND 240 = 224
      else length bs = 4 \<and> hd bs AND 224 \<noteq> 192 \<and> hd bs AND 240 \<noteq> 224 \<and> hd bs AND 248 = 240) \<and>
     list_all (\<lambda>b. b AND 192 = 128) (tl bs)"

lemma utf8_value_simps:
  "utf8_value [a, b] = push_bit 6 (a AND 31) OR (b AND 63)"
  "utf8_value [a, b, c] = push_bit 6 (push_bit 6 (a AND 15) OR (b AND 63)) OR (c AND 63)"
  "utf8_value [a, b, c, d] = push_bit 6 (push_bit 6 (push_bit 6 (a AND 7) OR (b AND 63)) OR (c AND 63)) OR (d AND 63)"
  by (simp_all add: utf8_value_def)

lemma utf8_encoded:
  assumes "128 \<le> cp" and "cp \<le> 1114111"
  shows "starts (utf8_bytes cp)" and "utf8_value (utf8_bytes cp) = cp"
    and "length (utf8_bytes cp) = (if cp \<le> 2047 then 2 else if cp \<le> 65535 then 3 else 4)"
proof -
  have t: "to_byte (128 OR (x AND 63)) AND 192 = 128" "to_byte (128 OR (x AND 63)) AND 63 = x AND 63" for x
    using trail [of "x AND 63"] by (simp_all add: and63)
  have m: "to_byte (128 OR (x AND 63)) mod 64 = x mod 64" for x using t(2) [of x] by (simp add: and63)
  have d: "drop_bit 6 cp = cp div 64" "drop_bit 12 cp = cp div 4096" "drop_bit 18 cp = cp div 262144" by (simp_all add: drop_bit_eq_div)
  have n: "cp div 4096 = cp div 64 div 64" "cp div 262144 = cp div 64 div 64 div 64"
    using zdiv_zmult2_eq [of 64 cp 64] zdiv_zmult2_eq [of 64 cp 4096] zdiv_zmult2_eq [of 64 "cp div 64" 64] by simp_all
  consider (2) "cp \<le> 2047" | (3) "2047 < cp" "cp \<le> 65535" | (4) "65535 < cp" by linarith
  then have "starts (utf8_bytes cp) \<and> utf8_value (utf8_bytes cp) = cp"
  proof cases
    case 2
    have "0 \<le> drop_bit 6 cp" "drop_bit 6 cp \<le> 31" using assms 2 by (simp_all add: d)
    note l = lead2 [OF this, unfolded d]
    have e: "utf8_bytes cp = [to_byte (192 OR drop_bit 6 cp), to_byte (128 OR (cp AND 63))]"
      using assms 2 by (simp add: utf8_bytes_def)
    have "utf8_value (utf8_bytes cp) = 64 * (cp div 64) + cp mod 64"
      by (simp only: e utf8_value_simps join6 m l d)
    moreover have "starts (utf8_bytes cp)" unfolding e starts_def using l t(1) by (simp add: d)
    ultimately show ?thesis by simp
  next
    case 3
    have "0 \<le> drop_bit 12 cp" "drop_bit 12 cp \<le> 15" using assms 3 by (simp_all add: d)
    note l = lead3 [OF this, unfolded d]
    have e: "utf8_bytes cp = [to_byte (224 OR drop_bit 12 cp), to_byte (128 OR (drop_bit 6 cp AND 63)), to_byte (128 OR (cp AND 63))]"
      using assms 3 by (simp add: utf8_bytes_def)
    have "utf8_value (utf8_bytes cp) = 64 * (64 * (cp div 4096) + cp div 64 mod 64) + cp mod 64"
      by (simp only: e utf8_value_simps join6 m l d)
    moreover have "starts (utf8_bytes cp)" unfolding e starts_def using l t(1) by (simp add: d)
    ultimately show ?thesis by (simp add: n)
  next
    case 4
    have "0 \<le> drop_bit 18 cp" "drop_bit 18 cp \<le> 7" using assms 4 by (simp_all add: d)
    note l = lead4 [OF this, unfolded d]
    have e: "utf8_bytes cp = [to_byte (240 OR drop_bit 18 cp), to_byte (128 OR (drop_bit 12 cp AND 63)),
        to_byte (128 OR (drop_bit 6 cp AND 63)), to_byte (128 OR (cp AND 63))]"
      using assms 4 by (simp add: utf8_bytes_def)
    have "utf8_value (utf8_bytes cp) = 64 * (64 * (64 * (cp div 262144) + cp div 4096 mod 64) + cp div 64 mod 64) + cp mod 64"
      by (simp only: e utf8_value_simps join6 m l d)
    moreover have "starts (utf8_bytes cp)" unfolding e starts_def using l t(1) by (simp add: d)
    ultimately show ?thesis by (simp add: n)
  qed
  then show "starts (utf8_bytes cp)" and "utf8_value (utf8_bytes cp) = cp" by simp_all
  show "length (utf8_bytes cp) = (if cp \<le> 2047 then 2 else if cp \<le> 65535 then 3 else 4)"
    using assms by (simp add: utf8_bytes_def)
qed

lemma decode_run:
  assumes "starts bs" and "t_utf8n t = 0" "t_utf8i t = 0" "length (t_utf8 t) = 4" and "decoded J bs = Some cp"
  shows "append_bytes J bs t = processCodePoint J cp (t\<lparr>t_utf8 := bs @ drop (length bs) (t_utf8 t)\<rparr>)"
proof -
  obtain a b c d where u: "t_utf8 t = [a, b, c, d]"
    using assms(4) by (auto simp: length_Suc_conv numeral_eq_Suc)
  have z: "t\<lparr>t_utf8 := xs, t_utf8i := 0, t_utf8n := 0\<rparr> = t\<lparr>t_utf8 := xs\<rparr>" for xs using assms(2,3) by simp
  consider (2) x y where "bs = [x, y]" | (3) x y w where "bs = [x, y, w]" | (4) x y w v where "bs = [x, y, w, v]"
    using assms(1) by (auto simp: starts_def length_Suc_conv numeral_eq_Suc split: if_splits)
  then show ?thesis
  proof cases
    case 2
    then show ?thesis using assms u by (simp add: z starts_def processByte_def first_byte_def aset_def)
  next
    case 3
    then show ?thesis using assms u by (simp add: z starts_def processByte_def first_byte_def aset_def numeral_3_eq_3)
  next
    case 4
    then show ?thesis using assms u by (simp add: z starts_def processByte_def first_byte_def aset_def numeral_eq_Suc)
  qed
qed

lemma writeCodePoint_hands:
  assumes "scalar cp" and "0 < se_pid s"
  shows "writeCodePoint pre cp s = Some (s\<lparr>se_handed := se_handed s @ (if pre then [27] else []) @ utf8_bytes cp\<rparr>)"
proof -
  let ?buf = "(if pre then [27] else []) @ utf8_bytes cp"
  have "utf8_bytes cp \<noteq> []" "length (utf8_bytes cp) \<le> 4" by (simp_all add: utf8_bytes_def)
  then have "write_args_ok ?buf 0 (int (length ?buf))" by (auto simp: write_args_ok_def jint_id)
  with assms show ?thesis by (auto simp: writeCodePoint_def session_write_def Let_def scalar_def is_cp_def)
qed

section \<open>Properties\<close>

text \<open>
  C40. What the session sends for a code point is what the emulator decodes: while the
  process runs, \<open>writeCodePoint\<close> hands over the UTF-8 bytes of any Unicode character, after an
  escape if one is asked for, and an emulator that is not inside another character processes
  these bytes as that one character, if the runtime has it assigned and it is not a C1 control.
\<close>

theorem utf8_roundtrip:
  assumes "scalar cp" and "\<not> (128 \<le> cp \<and> cp \<le> 159)" and "\<not> ji_unassigned J cp"
    and "t_utf8n t = 0" "t_utf8i t = 0" "length (t_utf8 t) = 4" and "0 < se_pid s"
  shows "\<exists>bs u. writeCodePoint pre cp s = Some (s\<lparr>se_handed := se_handed s @ (if pre then [27] else []) @ bs\<rparr>) \<and>
    append_bytes J bs t = processCodePoint J cp (t\<lparr>t_utf8 := u\<rparr>)"
proof -
  have "\<exists>u. append_bytes J (utf8_bytes cp) t = processCodePoint J cp (t\<lparr>t_utf8 := u\<rparr>)"
  proof (cases "cp \<le> 127")
    case True
    then have "utf8_bytes cp = [cp]" "cp AND 128 = 0"
      using assms(1) single [of cp] by (simp_all add: utf8_bytes_def scalar_def is_cp_def)
    then have "append_bytes J (utf8_bytes cp) t = processCodePoint J cp (t\<lparr>t_utf8 := t_utf8 t\<rparr>)"
      using assms(4) by (simp add: processByte_def first_byte_def)
    then show ?thesis ..
  next
    case False
    then have r: "128 \<le> cp" "cp \<le> 1114111" using assms(1) by (simp_all add: scalar_def is_cp_def)
    have "decoded J (utf8_bytes cp) = Some cp"
      using utf8_encoded(2,3) [OF r] r assms(1-3) by (auto simp: decoded_def overlong_def Let_def scalar_def)
    then show ?thesis using decode_run [OF utf8_encoded(1) [OF r] assms(4-6)] by blast
  qed
  with writeCodePoint_hands [OF assms(1,7), of pre] show ?thesis by blast
qed

text \<open>A running session.\<close>

definition sample_session :: session where
  "sample_session = \<lparr>se_emul = the (newEmulator sample_jvm 4 2 3), se_pid = 1, se_status = 0, se_in = newQueue 8 0, se_out = newQueue 8 0,
     se_recv = [0, 0], se_handed = [], se_events = []\<rparr>"

theorem utf8_roundtrip_witness:
  "\<exists>bs u. writeCodePoint True 0x20AC sample_session = Some (sample_session\<lparr>se_handed := 27 # bs\<rparr>) \<and>
     append_bytes sample_jvm bs (se_emul sample_session) = processCodePoint sample_jvm 0x20AC (se_emul sample_session\<lparr>t_utf8 := u\<rparr>)"
proof -
  have "t_utf8n (se_emul sample_session) = 0 \<and> t_utf8i (se_emul sample_session) = 0 \<and> length (t_utf8 (se_emul sample_session)) = 4"
    by code_simp
  moreover have "scalar 0x20AC" "\<not> ji_unassigned sample_jvm 0x20AC" "0 < se_pid sample_session" "se_handed sample_session = []"
    by (simp_all add: scalar_def is_cp_def sample_jvm_def sample_session_def)
  ultimately show ?thesis
    using utf8_roundtrip [of "0x20AC" sample_jvm "se_emul sample_session" sample_session True] by simp
qed

end
