(* ===== verification/Spec2Isabelle.thy ===== *)
theory Spec2Isabelle
  imports FusedOps ChannelExchange MountProps LoopProps ClientServer DispatchProps
    BufferBlocks TerminalResize KeyHandler TerminalSession
begin

text \<open>
  \<^bold>\<open>A verification development of NeoTerm.\<close>

  NeoTerm is a terminal for Android that runs a Linux userland under proot. Two parts of it
  are modelled here, each from its source under \<^verbatim>\<open>src/\<close>.

  \<^bold>\<open>The file-system redirect.\<close> An unrooted device cannot mount anything, so proot is patched to
  serve file systems itself. \<^verbatim>\<open>proot/patches/uknl_fs_redirect.c\<close> intercepts the guest's system calls
  and answers those that concern a mount point. A mount is served by one of two back ends:
  \<^verbatim>\<open>proot/patches/fused.c\<close>, an engine that plays the kernel's side of FUSE for a daemon of the guest,
  reached through an emulated \<^verbatim>\<open>/dev/fuse\<close> channel inside proot; or a \<^verbatim>\<open>ukfsd\<close> process
  (\<^verbatim>\<open>app/src/main/cpp/ukfs/shim/fs/ukfsd.c\<close>), which runs Linux file-system drivers in userspace
  and is spoken to in a protocol of text lines over a socket.

  \<^bold>\<open>The terminal.\<close> The classes of \<^verbatim>\<open>app/src/main/java/io/neoterm/backend\<close>: rows of UTF-16 text, the ring
  of rows that is the screen and its transcript, the emulator that interprets what a program
  prints, the queues between the threads, and the session that ties them together.

  \<^bold>\<open>Theories of the redirect\<close>
  \<^item> \<open>Prelude\<close>: buffers with C strings, little-endian fields, decimal text, searches in tables (shared by all).
  \<^item> \<open>FusePath\<close>: \<^verbatim>\<open>normpath\<close>, \<^verbatim>\<open>split_path\<close> of \<^verbatim>\<open>fused.c\<close>, equal to lexical resolution within their limits.
  \<^item> \<open>FuseCache\<close>: \<^verbatim>\<open>struct fused\<close> and the node cache; the interface \<open>node_cache\<close> (a finite map
    whose insertions need room) and that the array implements it.
  \<^item> \<open>FuseWire\<close>, \<open>Fused\<close>: the messages of \<^verbatim>\<open>fuse_kernel.h\<close>, the exchange with a daemon, path resolution and
    every operation of the engine. A transport is a pair of callbacks over engine and world.
  \<^item> \<open>FusedInv\<close>: sequences of calls (\<open>fuse_call\<close>), the locales \<open>teardown_inv\<close> and \<open>engine_inv\<close> that carry a
    predicate through all operations, the well-formedness of every message, the engine's invariant.
  \<^item> \<open>FusedServer\<close>, \<open>FusedOps\<close>: the engine against a daemon that serves a tree of files
    (locales \<open>fuse_server\<close>, \<open>fuse_fs\<close>, \<open>fuse_dir\<close>): resolution refines an abstract walk, directory listings are complete.
  \<^item> \<open>Scan\<close>, \<open>RedirectState\<close>: \<^verbatim>\<open>sscanf\<close> as the code uses it; the file-scope tables of the redirect as
    the record \<open>rst\<close> (with the tracees' registers and memory), and \<open>env\<close>, what the redirect calls.
  \<^item> \<open>FuseChannel\<close>, \<open>ChannelQueue\<close>, \<open>ChannelInv\<close>, \<open>ChannelServe\<close>, \<open>ChannelExchange\<close>: the \<^verbatim>\<open>/dev/fuse\<close> channel; its slots
    as a queue (locale \<open>fifo\<close>), a step relation over all operations that touch it with its
    invariant, order of requests, completion of parked reads, a whole exchange.
  \<^item> \<open>Sock\<close>, \<open>MountTable\<close>, \<open>MountProps\<close>: the line socket (locale \<open>stream_in\<close>), the mount table, its invariant
    over all histories, resolution of guest paths.
  \<^item> \<open>LoopDev\<close>, \<open>LoopProps\<close>: emulated loop devices: binding, status, I/O within a node's range.
  \<^item> \<open>UkClient\<close>, \<open>Ukfsd\<close>, \<open>ClientServer\<close>: the requests of the redirect, the server, and both joined by a
    byte stream: each request performs the engine's operation and leaves the connection idle.
  \<^item> \<open>Vfd\<close>, \<open>FdOps\<close>, \<open>PathOps\<close>, \<open>Dispatch\<close>: virtual descriptors and the handlers of the
    intercepted calls; \<open>uknl_fs_dispatch\<close> on entry, \<open>uknl_fs_open_exit\<close> and \<open>uknl_fs_exit_final\<close> on exit.
  \<^item> \<open>VfdFrame\<close>, \<open>VfdInv\<close>, \<open>DispatchProps\<close>: what each operation leaves alone, the typing invariant of the
    descriptor tables (locales \<open>desc_inv\<close>, \<open>tame_env\<close>), and properties from the guest's side (locale \<open>file_source\<close>).

  \<^bold>\<open>Theories of the terminal\<close>
  \<^item> \<open>JavaBase\<close>: Java's \<^verbatim>\<open>int\<close> as integers with \<open>jint\<close> where the code can overflow, arrays, UTF-16;
    an exception is \<open>None\<close>. \<open>TextStyle\<close>, \<open>WcWidth\<close>: style words and the width tables.
  \<^item> \<open>TerminalRow\<close>, \<open>RowCells\<close>, \<open>RowStore\<close>, \<open>RowSetChar\<close>, \<open>RowProps\<close>, \<open>RowCopy\<close>: a row as text units (the code) and
    as cells (the specification); writing a character is overwriting the columns it covers.
  \<^item> \<open>TerminalBuffer\<close>, \<open>TerminalResize\<close>, \<open>BufferRing\<close>, \<open>BufferScroll\<close>, \<open>BufferOps\<close>, \<open>BufferBlocks\<close>: the ring of rows;
    scrolling refines scrolling on lists, every operation keeps the buffer well formed.
  \<^item> \<open>TermColors\<close>, \<open>KeyHandler\<close>, \<open>Sixel\<close>: colours, key codes, the image decoder.
  \<^item> \<open>TermState\<close>, \<open>TermEmit\<close>, \<open>TermOsc\<close>, \<open>TermCsi\<close>, \<open>TermStep\<close>: the emulator, function by function; \<open>t_out\<close>
    collects what it tells the session. \<open>TermInv\<close>, \<open>TermSafe\<close>, \<open>TermTotal\<close>: its invariant and that bytes
    are processed without an exception (locale \<open>machine\<close>).
  \<^item> \<open>ByteQueue\<close>, \<open>ByteLink\<close>, \<open>TerminalSession\<close>: the queue, two threads at it as a step relation, the
    session's message handling and UTF-8 in both directions.

  \<^bold>\<open>Parameters.\<close> \<open>env\<close> stands for the C library, Linux, \<^verbatim>\<open>/proc\<close> and proot; its \<open>env_pump\<close> is
  \<^verbatim>\<open>uknl_pump_one\<close>, one turn of proot's event loop, which may run any other operation. The
  allocator may refuse every request. The file-system drivers behind \<^verbatim>\<open>ukfsd\<close> are the record \<open>vf\<close>. \<open>jvm\<close>
  stands for character classes, Base64, the clock, Android bitmaps, the colour scheme, and \<^verbatim>\<open>hlsToArgb\<close>,
  which computes with doubles. A daemon is any function, except where a locale says that it serves a tree.

  \<^bold>\<open>Bounds and termination.\<close> Loops that may not end (waiting for a reply, a listing, forgetting nodes) are
  partial functions with \<open>None\<close> for not ending; \<open>readdir_complete\<close> and \<open>channel_exchange\<close> show that they
  end for well-behaved daemons, \<open>serve_terminates\<close> that a connection is served to its end. Socket loops count
  down the bytes that are left, so their counters are no restriction. The
  emulator's totality is shown for 2 to 1000 columns and at most a thousand million rows, because a row's length
  is a Java \<^verbatim>\<open>short\<close> and row numbers are sums of Java \<^verbatim>\<open>int\<close>s; \<open>calm_byte\<close> is the condition on a byte and a
  state under which no exception can occur, for example that a row still has room for another
  combining character and that a cursor movement does not overflow.

  \<^bold>\<open>Simplifications.\<close> Structures and flag values are those of aarch64. Debug output is left out. A listing's entries are
  handed to the callback after \<open>fused_readdir\<close> has collected them, not one by one. An engine that was freed
  is absent, and operations on it fail, where the code would use freed memory. In the session, bytes for
  the process are collected where the code puts them into a queue.

  \<^bold>\<open>Not modelled.\<close> Android's user interface, JNI and process creation; the USB and camera redirects; proot
  itself and the script that patches it; the vendored Linux drivers and their shim; the extended-attribute emulation;
  NeoLang; the X server. They are framework calls, third-party code, or defined by kernel headers that are not
  part of the sources.

  \<^bold>\<open>Behaviour that is not as intended\<close> is stated by theorems of its own beside the properties, among them
  \<open>remount_loses_daemon\<close>, \<open>stale_stat_result\<close>, \<open>second_parked_read_lost\<close>, \<open>reply_dropped_when_full\<close>,
  \<open>normpath_deep_is_parent\<close>, \<open>long_component_looked_up_in_pieces\<close>, \<open>loop_pread_before_range\<close>,
  \<open>newline_injects_request\<close>, \<open>rename_across_mounts\<close>, \<open>wide_keeps_marks\<close>, \<open>variation_selector_breaks_copy\<close>,
  \<open>close_discards\<close> and \<open>termcap_page_keys_swapped\<close>.
\<close>

end
